(* ===== verification/Prelude.thy ===== *)
theory Prelude
  imports Complex_Main "HOL-Library.AList" "HOL-Library.Char_ord" "HOL-Library.List_Lexorder"
begin

text \<open>
  What every component of the development shares: Python's ordered dictionaries as association
  lists, the operations of a SELECT over a table kept as a list of rows (filter, stable order,
  LIMIT and OFFSET), the computations of the services (state passing, with the exception of
  Python as the left summand of the result), and the lemmas the component proofs reuse.

  Conventions. A Python \<open>str\<close> is a \<open>string\<close> whose characters are code points below 256. A
  Python \<open>int\<close> is an \<open>int\<close>; a float clock reading is a \<open>rat\<close>. A timestamp is the
  ISO-8601 text the code stores, compared as text, as SQLite and Python do.
\<close>

named_theorems op_simps \<open>unfolding rules of the service computations\<close>
named_theorems table_simps \<open>rules about the rows a query or an update touches\<close>

section \<open>Ordered dictionaries\<close>

type_synonym ('k, 'v) dict = "('k \<times> 'v) list"

text \<open>\<open>d.pop(k, None)\<close> followed by an insertion at the end: \<open>OrderedDict.move_to_end\<close>.\<close>

definition move_to_end :: "'k \<Rightarrow> ('k, 'v) dict \<Rightarrow> ('k, 'v) dict" where
  "move_to_end k d =
     (case map_of d k of None \<Rightarrow> d | Some v \<Rightarrow> AList.delete k d @ [(k, v)])"

definition dict_ok :: "('k, 'v) dict \<Rightarrow> bool" where
  "dict_ok d \<longleftrightarrow> distinct (map fst d)"

lemma dict_ok_Nil [simp]: "dict_ok []"
  by (simp add: dict_ok_def)

lemma dict_ok_update [simp]: "dict_ok d \<Longrightarrow> dict_ok (AList.update k v d)"
  by (simp add: dict_ok_def distinct_update)

lemma dict_ok_delete [simp]: "dict_ok d \<Longrightarrow> dict_ok (AList.delete k d)"
  by (simp add: dict_ok_def distinct_delete)

lemma keys_delete [simp]: "fst ` set (AList.delete k d) = fst ` set d - {k}"
  by (induction d) auto

lemma not_key_delete: "(k, v) \<notin> set (AList.delete k d)"
  by (induction d) auto

lemma distinct_keys_delete [simp]:
  "distinct (map fst d) \<Longrightarrow> distinct (map fst (AList.delete k d))"
  by (rule distinct_delete)

lemma dict_ok_ConsD: "dict_ok (x # d) \<Longrightarrow> dict_ok d"
  by (simp add: dict_ok_def)

lemma map_of_move_to_end [simp]: "map_of (move_to_end k d) = map_of d"
proof (cases "map_of d k")
  case None
  then show ?thesis by (simp add: move_to_end_def)
next
  case (Some v)
  then have "map_of (AList.delete k d @ [(k, v)]) j = map_of d j" for j
    by (cases "j = k") (auto simp: map_add_def delete_conv' split: option.splits)
  with Some show ?thesis by (simp add: move_to_end_def fun_eq_iff del: map_of_append)
qed

lemma dict_ok_move_to_end [simp]: "dict_ok d \<Longrightarrow> dict_ok (move_to_end k d)"
  by (auto simp: move_to_end_def dict_ok_def distinct_delete delete_keys removeAll_filter_not_eq
      split: option.splits)

lemma keys_update: "fst ` set (AList.update k v d) = insert k (fst ` set d)"
  by (induction d) auto

lemma keys_move_to_end [simp]: "fst ` set (move_to_end k d) = fst ` set d"
  by (metis dom_map_of_conv_image_fst map_of_move_to_end)

lemma in_set_update: "(j, w) \<in> set (AList.update k v d) \<Longrightarrow> (j, w) = (k, v) \<or> (j, w) \<in> set d"
  by (induction d) (auto split: if_splits)

lemma update_fresh: "k \<notin> fst ` set d \<Longrightarrow> AList.update k v d = d @ [(k, v)]"
  by (induction d) auto

lemma set_values_delete:
  assumes "dict_ok d" "map_of d k = Some v"
  shows "snd ` set d = insert v (snd ` set (AList.delete k d))"
  using assms by (induction d) (auto simp: dict_ok_def delete_idem split: if_splits)

lemma length_update:
  "length (AList.update k v d) = (if k \<in> fst ` set d then length d else Suc (length d))"
  by (induction d) auto

lemma map_of_drop_other:
  assumes "dict_ok d" "map_of (drop n d) k = Some v"
  shows "map_of d k = Some v"
proof -
  from assms(2) have "(k, v) \<in> set d"
    by (auto dest!: map_of_SomeD in_set_dropD)
  with assms(1) show ?thesis by (simp add: dict_ok_def)
qed

section \<open>Queries over a table kept as a list of rows\<close>

text \<open>\<open>repositories/_helpers.py\<close>: the clamps of LIMIT and OFFSET, and SQLite's paging.\<close>

definition clamp_limit :: "int \<Rightarrow> int" where
  "clamp_limit limit = max 0 (min limit 500)"

definition clamp_offset :: "int \<Rightarrow> int" where
  "clamp_offset offset = max 0 offset"

definition page :: "int \<Rightarrow> int \<Rightarrow> 'r list \<Rightarrow> 'r list" where
  "page limit offset rows = take (nat (clamp_limit limit)) (drop (nat (clamp_offset offset)) rows)"

text \<open>
  \<open>ORDER BY k DESC\<close>: a stable sort on the reversed key order (rows with equal keys keep
  their rowid order).
\<close>

fun insort_desc :: "('r \<Rightarrow> 'k::linorder) \<Rightarrow> 'r \<Rightarrow> 'r list \<Rightarrow> 'r list" where
  "insort_desc f x [] = [x]"
| "insort_desc f x (y # ys) = (if f y \<le> f x then x # y # ys else y # insort_desc f x ys)"

definition sort_desc :: "('r \<Rightarrow> 'k::linorder) \<Rightarrow> 'r list \<Rightarrow> 'r list" where
  "sort_desc f xs = foldr (insort_desc f) xs []"

lemma set_insort_desc [simp]: "set (insort_desc f x ys) = insert x (set ys)"
  by (induction ys) auto

lemma length_insort_desc [simp]: "length (insort_desc f x ys) = Suc (length ys)"
  by (induction ys) auto

lemma set_sort_desc [simp]: "set (sort_desc f xs) = set xs"
  by (induction xs) (auto simp: sort_desc_def)

lemma length_sort_desc [simp]: "length (sort_desc f xs) = length xs"
  by (induction xs) (auto simp: sort_desc_def)

lemma sort_desc_Nil [simp]: "sort_desc f [] = []"
  by (simp add: sort_desc_def)

lemma page_subset: "set (page limit offset rows) \<subseteq> set rows"
  unfolding page_def by (meson set_drop_subset set_take_subset subset_trans)

lemma length_page_le: "length (page limit offset rows) \<le> 500"
  by (auto simp: page_def clamp_limit_def)

text \<open>The first row that meets a condition, as \<open>fetchone\<close> over \<open>SELECT ... WHERE\<close>.\<close>

definition select_one :: "('r \<Rightarrow> bool) \<Rightarrow> 'r list \<Rightarrow> 'r option" where
  "select_one P rows = find P rows"

text \<open>\<open>UPDATE ... SET ... WHERE\<close>: the rows that meet the condition are rewritten; the row count.\<close>

definition update_where :: "('r \<Rightarrow> bool) \<Rightarrow> ('r \<Rightarrow> 'r) \<Rightarrow> 'r list \<Rightarrow> 'r list" where
  "update_where P f rows = map (\<lambda>r. if P r then f r else r) rows"

definition count_where :: "('r \<Rightarrow> bool) \<Rightarrow> 'r list \<Rightarrow> int" where
  "count_where P rows = int (length (filter P rows))"

lemma length_update_where [simp]: "length (update_where P f rows) = length rows"
  by (simp add: update_where_def)

lemma set_update_where: "set (update_where P f rows) = (\<lambda>r. if P r then f r else r) ` set rows"
  by (simp add: update_where_def)

lemma map_update_where [table_simps]:
  "(\<And>r. P r \<Longrightarrow> g (f r) = g r) \<Longrightarrow> map g (update_where P f rows) = map g rows"
  by (simp add: update_where_def)

lemma update_where_none: "filter P rows = [] \<Longrightarrow> update_where P f rows = rows"
  by (auto simp: update_where_def filter_empty_conv map_idI)

lemma count_where_zero [simp]: "count_where P rows = 0 \<longleftrightarrow> (\<forall>r \<in> set rows. \<not> P r)"
  by (auto simp: count_where_def filter_empty_conv)

lemma find_update_where_same:
  assumes "find Q rows = Some r" "\<And>x. Q x \<Longrightarrow> Q (f x)" "\<And>x. \<not> Q x \<Longrightarrow> P x \<Longrightarrow> \<not> Q (f x)"
  shows "find Q (update_where P f rows) = Some (if P r then f r else r)"
  using assms(1)
  by (induction rows) (auto simp: update_where_def assms(2,3) split: if_splits)

lemma find_Some_in: "find Q rows = Some r \<Longrightarrow> r \<in> set rows \<and> Q r"
  by (auto simp: find_Some_iff)

text \<open>With a primary key, a row is the one its key finds.\<close>

lemma find_unique:
  assumes "distinct (map key rows)" "r \<in> set rows"
  shows "find (\<lambda>x. key x = key r) rows = Some r"
  using assms by (induction rows) (auto simp: image_iff)

lemma distinct_keyD: "distinct (map key (r # rs)) \<Longrightarrow> q \<in> set rs \<Longrightarrow> key q \<noteq> key r"
  by (metis distinct.simps(2) image_eqI list.simps(9) set_map)

text \<open>The row count of a conditional update by primary key.\<close>

lemma count_key_row:
  assumes "distinct (map key rows)" "find (\<lambda>x. key x = i) rows = Some r"
  shows "count_where (\<lambda>x. key x = i \<and> Q x) rows = (if Q r then 1 else 0)"
  using assms
proof (induction rows)
  case Nil
  then show ?case by simp
next
  case (Cons x rows)
  show ?case
  proof (cases "key x = i")
    case True
    then have "filter (\<lambda>x. key x = i \<and> Q x) rows = []"
      using distinct_keyD [OF Cons.prems(1)] by (auto simp: filter_empty_conv)
    with True Cons.prems(2) show ?thesis by (simp add: count_where_def)
  next
    case False
    with Cons show ?thesis by (simp add: count_where_def)
  qed
qed

lemma update_key_row_none:
  assumes "distinct (map key rows)" "find (\<lambda>x. key x = i) rows = Some r" "\<not> Q r"
  shows "update_where (\<lambda>x. key x = i \<and> Q x) f rows = rows"
  using count_key_row [OF assms(1,2), of Q] assms(3)
  by (intro update_where_none) (auto simp: count_where_def)

lemma find_update_key:
  assumes "\<And>x. key (f x) = key x"
  shows "find (\<lambda>x. key x = j) (update_where P f rows) = map_option (\<lambda>x. if P x then f x else x) (find (\<lambda>x. key x = j) rows)"
  using assms by (induction rows) (auto simp: update_where_def)

section \<open>Computations of the services\<close>

text \<open>
  A service method takes the state and returns the exception it raised (\<open>Inl\<close>) or its value
  (\<open>Inr\<close>), with the state it leaves. What was written before the exception stays written,
  as in Python, unless a transaction encloses it.
\<close>

type_synonym ('s, 'e, 'a) op = "'s \<Rightarrow> ('e + 'a) \<times> 's"

definition op_return :: "'a \<Rightarrow> ('s, 'e, 'a) op" where
  "op_return x s = (Inr x, s)"

definition op_raise :: "'e \<Rightarrow> ('s, 'e, 'a) op" where
  "op_raise e s = (Inl e, s)"

definition op_bind :: "('s, 'e, 'a) op \<Rightarrow> ('a \<Rightarrow> ('s, 'e, 'b) op) \<Rightarrow> ('s, 'e, 'b) op" where
  "op_bind m f s = (case m s of (Inl e, s') \<Rightarrow> (Inl e, s') | (Inr x, s') \<Rightarrow> f x s')"

definition op_get :: "('s \<Rightarrow> 'a) \<Rightarrow> ('s, 'e, 'a) op" where
  "op_get f s = (Inr (f s), s)"

definition op_modify :: "('s \<Rightarrow> 's) \<Rightarrow> ('s, 'e, unit) op" where
  "op_modify f s = (Inr (), f s)"

definition op_guard :: "bool \<Rightarrow> 'e \<Rightarrow> ('s, 'e, unit) op" where
  "op_guard b e s = (if b then (Inr (), s) else (Inl e, s))"

text \<open>\<open>async with db.transaction()\<close>: an exception that leaves the block rolls the state back.\<close>

definition op_transaction :: "('s, 'e, 'a) op \<Rightarrow> ('s, 'e, 'a) op" where
  "op_transaction m s = (case m s of (Inl e, _) \<Rightarrow> (Inl e, s) | (Inr x, s') \<Rightarrow> (Inr x, s'))"

text \<open>\<open>try: ... except Exception: ...\<close>: the handler starts from the state the body left.\<close>

definition op_try :: "('s, 'e, 'a) op \<Rightarrow> ('e \<Rightarrow> ('s, 'e, 'a) op) \<Rightarrow> ('s, 'e, 'a) op" where
  "op_try m h s = (case m s of (Inl e, s') \<Rightarrow> h e s' | (Inr x, s') \<Rightarrow> (Inr x, s'))"

lemmas op_defs [op_simps] =
  op_return_def op_raise_def op_bind_def op_get_def op_modify_def op_guard_def op_transaction_def
  op_try_def

lemma op_bind_Inr:
  "op_bind m f s = (Inr y, t) \<longleftrightarrow> (\<exists>x u. m s = (Inr x, u) \<and> f x u = (Inr y, t))"
  by (auto simp: op_bind_def split: prod.splits sum.splits)

lemma op_guard_Inr: "op_guard b e s = (Inr x, t) \<longleftrightarrow> b \<and> t = s"
  by (auto simp: op_guard_def)

text \<open>A transaction that raises leaves no trace.\<close>

lemma op_transaction_Inl: "op_transaction m s = (Inl e, t) \<Longrightarrow> t = s"
  by (auto simp: op_transaction_def split: prod.splits sum.splits)

lemma op_transaction_Inr: "op_transaction m s = (Inr x, t) \<longleftrightarrow> m s = (Inr x, t)"
  by (auto simp: op_transaction_def split: prod.splits sum.splits)

text \<open>Preservation of a predicate by a computation, and by what is built from computations.\<close>

definition op_keeps :: "('s \<Rightarrow> bool) \<Rightarrow> ('s, 'e, 'a) op \<Rightarrow> bool" where
  "op_keeps I m \<longleftrightarrow> (\<forall>s. I s \<longrightarrow> I (snd (m s)))"

lemma op_keepsI: "(\<And>s. I s \<Longrightarrow> I (snd (m s))) \<Longrightarrow> op_keeps I m"
  by (simp add: op_keeps_def)

lemma op_keepsD: "op_keeps I m \<Longrightarrow> m s = (r, t) \<Longrightarrow> I s \<Longrightarrow> I t"
  by (metis op_keeps_def snd_conv)

lemma op_keeps_return [simp, intro]: "op_keeps I (op_return x)"
  by (simp add: op_keeps_def op_return_def)

lemma op_keeps_raise [simp, intro]: "op_keeps I (op_raise x)"
  by (simp add: op_keeps_def op_raise_def)

lemma op_keeps_get [simp, intro]: "op_keeps I (op_get f)"
  by (simp add: op_keeps_def op_get_def)

lemma op_keeps_guard [simp, intro]: "op_keeps I (op_guard b e)"
  by (simp add: op_keeps_def op_guard_def)

lemma op_keeps_modify: "(\<And>s. I s \<Longrightarrow> I (f s)) \<Longrightarrow> op_keeps I (op_modify f)"
  by (simp add: op_keeps_def op_modify_def)

lemma op_keeps_bind [intro]:
  "op_keeps I m \<Longrightarrow> (\<And>x. op_keeps I (f x)) \<Longrightarrow> op_keeps I (op_bind m f)"
  by (fastforce simp: op_keeps_def op_bind_def split: prod.splits sum.splits)

lemma op_keeps_transaction [intro]: "op_keeps I m \<Longrightarrow> op_keeps I (op_transaction m)"
  by (fastforce simp: op_keeps_def op_transaction_def split: prod.splits sum.splits)

lemma op_keeps_try [intro]:
  "op_keeps I m \<Longrightarrow> (\<And>e. op_keeps I (h e)) \<Longrightarrow> op_keeps I (op_try m h)"
  by (fastforce simp: op_keeps_def op_try_def split: prod.splits sum.splits)

lemma op_keeps_if [intro]: "(b \<Longrightarrow> op_keeps I m) \<Longrightarrow> (\<not> b \<Longrightarrow> op_keeps I n) \<Longrightarrow> op_keeps I (if b then m else n)"
  by simp

text \<open>What a computation does to the state, as a transitive relation between before and after.\<close>

lemma snd_op_bind: "snd (op_bind m f s) = (case m s of (Inl e, t) \<Rightarrow> t | (Inr x, t) \<Rightarrow> snd (f x t))"
  by (simp add: op_bind_def split: prod.splits sum.splits)

lemma op_rel_bind:
  assumes "\<And>s t u. R s t \<Longrightarrow> R t u \<Longrightarrow> R s u" "\<And>s. R s (snd (m s))" "\<And>x s. R s (snd (f x s))"
  shows "R s (snd (op_bind m f s))"
proof (cases "m s")
  case (Pair r t)
  then have "R s t" using assms(2) [of s] by simp
  with Pair assms(1,3) show ?thesis by (auto simp: snd_op_bind split: sum.split)
qed

end
