(* ===== verification/Rate_Limiter.thy ===== *)
theory Rate_Limiter
  imports Prelude
begin

text \<open>
  \<open>bot/rate_limit.py\<close>: the fixed-window limiter of the bot handlers and of the subscription
  endpoint. The ordered dictionary \<open>_windows\<close> is the field \<open>windows\<close> (oldest entry first),
  \<open>time.monotonic()\<close> is the argument \<open>now\<close>. The lemmas show what a window allows over a whole
  run of calls and that the table stays bounded without ever losing the key just checked.
\<close>

datatype rate_limit_error =
    RateLimitExceeded int \<comment> \<open>seconds to wait\<close>
  | DictionaryIsEmpty     \<comment> \<open>\<open>KeyError\<close> of \<open>popitem\<close> on an empty dictionary\<close>

type_synonym rl_key = "int \<times> string"

record rate_limiter =
  max_entries :: int
  windows :: "(rl_key, rat \<times> int) dict"

definition new_rate_limiter :: "int \<Rightarrow> rate_limiter" where
  "new_rate_limiter n = \<lparr>max_entries = n, windows = []\<rparr>"

fun trim_windows :: "int \<Rightarrow> ('k, 'v) dict \<Rightarrow> rate_limit_error + ('k, 'v) dict" where
  "trim_windows n [] = (if n < 0 then Inl DictionaryIsEmpty else Inr [])"
| "trim_windows n (x # xs) = (if int (length (x # xs)) > n then trim_windows n xs else Inr (x # xs))"

definition rl_trim :: "rate_limiter \<Rightarrow> rate_limit_error + rate_limiter" where
  "rl_trim rl = (case trim_windows (max_entries rl) (windows rl) of
     Inl e \<Rightarrow> Inl e | Inr ws \<Rightarrow> Inr (rl\<lparr>windows := ws\<rparr>))"

text \<open>\<open>RateLimiter.check\<close>. A new window is written before \<open>_trim\<close> runs.\<close>

definition rl_check ::
  "rat \<Rightarrow> int \<Rightarrow> string \<Rightarrow> rat \<Rightarrow> int \<Rightarrow> rate_limiter \<Rightarrow> (rate_limit_error + unit) \<times> rate_limiter" where
  "rl_check now user_id action cooldown burst rl =
    (let key = (user_id, action);
         allowance = max 1 burst;
         open_window = (\<lambda>ws.
           let rl' = rl\<lparr>windows := AList.update key (now, 1) ws\<rparr>
           in (case rl_trim rl' of Inl e \<Rightarrow> (Inl e, rl') | Inr rl'' \<Rightarrow> (Inr (), rl'')))
     in case map_of (windows rl) key of
          None \<Rightarrow> open_window (windows rl)
        | Some (started, used) \<Rightarrow>
            (let ws = move_to_end key (windows rl);
                 retry_after = cooldown - (now - started)
             in if retry_after > 0
                then (if used \<ge> allowance
                      then (Inl (RateLimitExceeded (max 1 \<lfloor>retry_after\<rfloor>)), rl\<lparr>windows := ws\<rparr>)
                      else (Inr (), rl\<lparr>windows := AList.update key (started, used + 1) ws\<rparr>))
                else open_window ws))"

section \<open>Trimming\<close>

lemma trim_windows_drop:
  "0 \<le> n \<Longrightarrow> trim_windows n xs = Inr (drop (length xs - nat n) xs)"
proof (induction xs)
  case Nil
  then show ?case by simp
next
  case (Cons x xs)
  show ?case
  proof (cases "int (length (x # xs)) > n")
    case True
    then have "Suc (length xs) - nat n = Suc (length xs - nat n)" using Cons.prems
      by (auto simp: Suc_diff_le)
    with True Cons show ?thesis by simp
  next
    case False
    then have "Suc (length xs) - nat n = 0" using Cons.prems by auto
    with False show ?thesis by simp
  qed
qed

lemma length_drop_trim: "0 \<le> n \<Longrightarrow> int (length (drop (length xs - nat n) xs)) \<le> n"
  by simp

lemma update_move_to_end:
  assumes "map_of xs k = Some w"
  shows "AList.update k v (move_to_end k xs) = AList.delete k xs @ [(k, v)]"
proof -
  have "AList.update k v (ys @ [(k, w)]) = ys @ [(k, v)]" if "k \<notin> fst ` set ys" for ys
    using that by (induction ys) auto
  from this [of "AList.delete k xs"] show ?thesis using assms by (simp add: move_to_end_def)
qed

text \<open>Both ways of opening a window put the key's entry last, so trimming keeps it.\<close>

definition opened :: "rl_key \<Rightarrow> rat \<Rightarrow> (rl_key, rat \<times> int) dict \<Rightarrow> (rl_key, rat \<times> int) dict" where
  "opened k now ws = AList.delete k ws @ [(k, (now, 1))]"

lemma map_of_append_fresh: "map_of (AList.delete k ws @ [(k, v)]) = (map_of ws)(k \<mapsto> v)"
  by (rule ext) (auto simp: map_add_def delete_conv' split: option.splits)

lemma opened_cases:
  "AList.update k (now, 1) (case map_of ws k of None \<Rightarrow> ws | Some w \<Rightarrow> move_to_end k ws)
   = opened k now ws"
proof (cases "map_of ws k")
  case None
  then have "k \<notin> fst ` set ws" by (simp add: map_of_eq_None_iff)
  with None show ?thesis by (simp add: opened_def update_fresh delete_idem)
next
  case (Some w)
  then show ?thesis by (simp add: opened_def update_move_to_end)
qed

text \<open>A reading of \<open>rl_check\<close> that the proofs use: what happens to the table.\<close>

definition key_step :: "rat \<Rightarrow> int \<Rightarrow> (rat \<times> int) option \<Rightarrow> rat \<Rightarrow> bool \<times> (rat \<times> int) option" where
  "key_step cooldown burst w now =
     (case w of None \<Rightarrow> (True, Some (now, 1))
      | Some (started, used) \<Rightarrow>
          if cooldown - (now - started) > 0
          then (if used \<ge> max 1 burst then (False, w) else (True, Some (started, used + 1)))
          else (True, Some (now, 1)))"

lemma rl_check_refused:
  assumes "map_of (windows rl) (u, a) = Some (started, used)"
    and "cooldown - (now - started) > 0" and "used \<ge> max 1 burst"
  shows "rl_check now u a cooldown burst rl =
    (Inl (RateLimitExceeded (max 1 \<lfloor>cooldown - (now - started)\<rfloor>)),
     rl\<lparr>windows := move_to_end (u, a) (windows rl)\<rparr>)"
  using assms by (simp add: rl_check_def Let_def)

lemma rl_check_counted:
  assumes "map_of (windows rl) (u, a) = Some (started, used)"
    and "cooldown - (now - started) > 0" and "used < max 1 burst"
  shows "rl_check now u a cooldown burst rl =
    (Inr (), rl\<lparr>windows := AList.update (u, a) (started, used + 1) (move_to_end (u, a) (windows rl))\<rparr>)"
  using assms by (simp add: rl_check_def Let_def not_le [symmetric])

lemma rl_check_opened:
  assumes "case map_of (windows rl) (u, a) of None \<Rightarrow> True
           | Some (started, used) \<Rightarrow> \<not> cooldown - (now - started) > 0"
    and "0 \<le> max_entries rl"
  shows "rl_check now u a cooldown burst rl =
    (Inr (), rl\<lparr>windows := drop (length (opened (u, a) now (windows rl)) - nat (max_entries rl))
                             (opened (u, a) now (windows rl))\<rparr>)"
proof -
  note o = opened_cases [of "(u, a)" now "windows rl", symmetric]
  show ?thesis
    using assms by (auto simp: rl_check_def Let_def rl_trim_def trim_windows_drop o split: option.splits)
qed

lemma rl_check_cases:
  assumes "0 \<le> max_entries rl"
  obtains (refused) started used where
    "map_of (windows rl) (u, a) = Some (started, used)" "cooldown - (now - started) > 0"
    "used \<ge> max 1 burst"
  | (counted) started used where
    "map_of (windows rl) (u, a) = Some (started, used)" "cooldown - (now - started) > 0"
    "used < max 1 burst"
  | (opened) "case map_of (windows rl) (u, a) of None \<Rightarrow> True
           | Some (started, used) \<Rightarrow> \<not> cooldown - (now - started) > 0"
proof (cases "map_of (windows rl) (u, a)")
  case None
  then show ?thesis using opened by simp
next
  case (Some w)
  obtain started used where w: "w = (started, used)" by force
  show ?thesis
  proof (cases "cooldown - (now - started) > 0")
    case True
    with Some w refused counted show ?thesis by (cases "used \<ge> max 1 burst") (auto simp: not_le)
  next
    case False
    with Some w opened show ?thesis by simp
  qed
qed

section \<open>Invariant of the table\<close>

definition rl_ok :: "rate_limiter \<Rightarrow> bool" where
  "rl_ok rl \<longleftrightarrow> dict_ok (windows rl) \<and> int (length (windows rl)) \<le> max_entries rl"

lemma dict_ok_opened: "dict_ok ws \<Longrightarrow> dict_ok (opened k now ws)"
  by (auto simp: opened_def dict_ok_def not_key_delete simp del: delete_keys)

lemma dict_ok_drop: "dict_ok ws \<Longrightarrow> dict_ok (drop n ws)"
  by (simp add: dict_ok_def drop_map [symmetric])

lemma length_move_to_end: "dict_ok ws \<Longrightarrow> length (move_to_end k ws) = length ws"
proof -
  assume ok: "dict_ok ws"
  have "length (move_to_end k ws) = card (fst ` set (move_to_end k ws))"
    using dict_ok_move_to_end [OF ok, of k] by (metis dict_ok_def distinct_card length_map set_map)
  also have "\<dots> = length ws"
    using ok by (metis dict_ok_def distinct_card keys_move_to_end length_map set_map)
  finally show ?thesis .
qed

lemma rl_check_ok_refused:
  assumes "rl_ok rl" "map_of (windows rl) k = Some w"
  shows "rl_ok (rl\<lparr>windows := move_to_end k (windows rl)\<rparr>)"
    and "rl_ok (rl\<lparr>windows := AList.update k v (move_to_end k (windows rl))\<rparr>)"
proof -
  from assms(2) have "k \<in> fst ` set (windows rl)" by (metis domI dom_map_of_conv_image_fst)
  then show "rl_ok (rl\<lparr>windows := move_to_end k (windows rl)\<rparr>)"
    and "rl_ok (rl\<lparr>windows := AList.update k v (move_to_end k (windows rl))\<rparr>)"
    using assms(1) by (simp_all add: rl_ok_def length_move_to_end length_update)
qed

lemma rl_ok_nonneg: "rl_ok rl \<Longrightarrow> 0 \<le> max_entries rl"
  by (simp add: rl_ok_def)

lemma map_of_drop_last:
  assumes "n \<le> length xs" "k \<notin> fst ` set xs"
  shows "map_of (drop n (xs @ [(k, v)])) k = Some v"
proof -
  have "k \<notin> fst ` set (drop n xs)" using assms(2) by (auto dest: in_set_dropD)
  then have "map_of (drop n xs) k = None" by (simp add: map_of_eq_None_iff)
  with assms(1) show ?thesis by (simp add: map_add_def)
qed

lemma rl_check_keeps_ok:
  assumes "rl_ok rl" "1 \<le> max_entries rl" "rl_check now u a cooldown burst rl = (r, rl')"
  shows "rl_ok rl' \<and> max_entries rl' = max_entries rl \<and> map_of (windows rl') (u, a) \<noteq> None"
  using rl_ok_nonneg [OF assms(1)]
proof (cases rule: rl_check_cases [of rl u a cooldown now burst])
  case (refused started used)
  with assms show ?thesis
    using rl_check_refused [OF refused] rl_check_ok_refused(1) by auto
next
  case (counted started used)
  with assms show ?thesis
    using rl_check_counted [OF counted] rl_check_ok_refused(2) by (auto simp: update_conv')
next
  case opened
  define ws where "ws = opened (u, a) now (windows rl)"
  define n where "n = length ws - nat (max_entries rl)"
  from assms have rl': "rl' = rl\<lparr>windows := drop n ws\<rparr>"
    using rl_check_opened [OF opened] by (simp add: ws_def n_def)
  have "dict_ok ws" using assms(1) by (simp add: ws_def rl_ok_def dict_ok_opened)
  then have "rl_ok rl'" using assms(2)
    by (simp add: rl' rl_ok_def dict_ok_drop n_def)
  moreover have "map_of (drop n ws) (u, a) = Some (now, 1)"
    unfolding ws_def n_def opened_def by (rule map_of_drop_last) (use assms(2) in simp_all)
  ultimately show ?thesis by (simp add: rl')
qed

text \<open>
  A check, whatever its outcome, never leaves the limiter's table with more than
  \<open>max_entries\<close> windows, no key twice, and the key just checked keeps its window: \<open>_trim\<close>
  only ever evicts other keys.
\<close>

theorem rl_check_bounded:
  assumes "rl_ok rl" "1 \<le> max_entries rl" "rl_check now u a cooldown burst rl = (r, rl')"
  shows "rl_ok rl' \<and> max_entries rl' = max_entries rl \<and> map_of (windows rl') (u, a) \<noteq> None"
  using assms by (rule rl_check_keeps_ok)

text \<open>A full table of one entry: the other user's window is evicted.\<close>

definition full_limiter :: rate_limiter where
  "full_limiter = \<lparr>max_entries = 1, windows = [((7, ''start''), (10, 1))]\<rparr>"

theorem rl_check_bounded_witness:
  "windows (snd (rl_check 20 8 ''start'' 5 1 full_limiter)) = [((8, ''start''), (20, 1))] \<and>
   rl_ok (snd (rl_check 20 8 ''start'' 5 1 full_limiter))"
  using rl_check_bounded [of full_limiter 20 8 "''start''" 5 1]
  by (simp add: full_limiter_def rl_ok_def rl_check_def rl_trim_def dict_ok_def)

section \<open>What a run of calls is allowed\<close>

text \<open>As long as every key fits, a call only moves the window of its own key.\<close>

lemma rl_check_key_step:
  assumes "rl_ok rl" and fits: "int (card (insert (u, a) (fst ` set (windows rl)))) \<le> max_entries rl"
    and "rl_check now u a cooldown burst rl = (r, rl')"
  shows "map_of (windows rl') =
           (map_of (windows rl))((u, a) := snd (key_step cooldown burst (map_of (windows rl) (u, a)) now))"
    and "r = Inr () \<longleftrightarrow> fst (key_step cooldown burst (map_of (windows rl) (u, a)) now)"
  using rl_ok_nonneg [OF assms(1)]
proof (atomize(full), cases rule: rl_check_cases [of rl u a cooldown now burst])
  case (refused started used)
  with assms(3) rl_check_refused [OF refused]
  show "map_of (windows rl') = (map_of (windows rl))((u, a) := snd (key_step cooldown burst (map_of (windows rl) (u, a)) now))
    \<and> (r = Inr ()) = fst (key_step cooldown burst (map_of (windows rl) (u, a)) now)"
    by (auto simp: key_step_def fun_upd_idem)
next
  case (counted started used)
  with assms(3) rl_check_counted [OF counted]
  show "map_of (windows rl') = (map_of (windows rl))((u, a) := snd (key_step cooldown burst (map_of (windows rl) (u, a)) now))
    \<and> (r = Inr ()) = fst (key_step cooldown burst (map_of (windows rl) (u, a)) now)"
    by (auto simp: key_step_def update_conv' not_le [symmetric])
next
  case opened
  define ws where "ws = opened (u, a) now (windows rl)"
  have "length ws = card (fst ` set ws)"
    using dict_ok_opened assms(1) by (metis dict_ok_def distinct_card length_map rl_ok_def set_map ws_def)
  also have "fst ` set ws = insert (u, a) (fst ` set (windows rl))"
    by (simp add: ws_def opened_def)
  finally have "length ws - nat (max_entries rl) = 0" using fits by simp
  then have "windows rl' = ws" "r = Inr ()"
    using assms(3) rl_check_opened [OF opened rl_ok_nonneg [OF assms(1)], of burst]
    by (auto simp: ws_def)
  moreover have "map_of ws = (map_of (windows rl))((u, a) \<mapsto> (now, 1))"
    by (simp add: ws_def opened_def map_of_append_fresh del: map_of_append)
  moreover have "key_step cooldown burst (map_of (windows rl) (u, a)) now = (True, Some (now, 1))"
    using opened by (auto simp: key_step_def split: option.splits)
  ultimately
  show "map_of (windows rl') = (map_of (windows rl))((u, a) := snd (key_step cooldown burst (map_of (windows rl) (u, a)) now))
    \<and> (r = Inr ()) = fst (key_step cooldown burst (map_of (windows rl) (u, a)) now)"
    by simp
qed

text \<open>
  A run of the limiter over calls at the given times, each with its key; \<open>cool\<close> and \<open>burst\<close>
  are the limits the callers pass for a key. The result lists the accepted calls.
\<close>

fun rl_run :: "(rl_key \<Rightarrow> rat) \<Rightarrow> (rl_key \<Rightarrow> int) \<Rightarrow> (rat \<times> rl_key) list \<Rightarrow> rate_limiter
    \<Rightarrow> (rat \<times> rl_key) list" where
  "rl_run cool burst [] rl = []"
| "rl_run cool burst ((t, k) # calls) rl =
     (case rl_check t (fst k) (snd k) (cool k) (burst k) rl of
        (r, rl') \<Rightarrow> (if r = Inr () then (t, k) # rl_run cool burst calls rl'
                     else rl_run cool burst calls rl'))"

fun accepted_of :: "rat \<Rightarrow> int \<Rightarrow> (rat \<times> int) option \<Rightarrow> rat list \<Rightarrow> rat list" where
  "accepted_of c n w [] = []"
| "accepted_of c n w (t # ts) =
     (let (ok, w') = key_step c n w t in if ok then t # accepted_of c n w' ts else accepted_of c n w' ts)"

definition times_of :: "rl_key \<Rightarrow> (rat \<times> rl_key) list \<Rightarrow> rat list" where
  "times_of k calls = map fst (filter (\<lambda>c. snd c = k) calls)"

lemma times_of_simps [simp]:
  "times_of k [] = []"
  "times_of k ((t, k') # calls) = (if k' = k then t # times_of k calls else times_of k calls)"
  by (simp_all add: times_of_def)

lemma rl_run_accepted:
  assumes "rl_ok rl"
    and "int (card (fst ` set (windows rl) \<union> snd ` set calls)) \<le> max_entries rl"
  shows "times_of k (rl_run cool burst calls rl)
    = accepted_of (cool k) (burst k) (map_of (windows rl) k) (times_of k calls)"
  using assms
proof (induction calls arbitrary: rl)
  case Nil
  then show ?case by simp
next
  case (Cons c calls)
  obtain t j where c: "c = (t, j)" by (cases c) auto
  obtain u a where j: "j = (u, a)" by (cases j) auto
  obtain r rl' where chk: "rl_check t u a (cool j) (burst j) rl = (r, rl')" by force
  let ?K = "fst ` set (windows rl)"
  have "card (insert j ?K) \<le> card (?K \<union> snd ` set (c # calls))"
    by (rule card_mono) (auto simp: c)
  with Cons.prems have fits: "int (card (insert (u, a) ?K)) \<le> max_entries rl" by (simp add: j)
  note step = rl_check_key_step [OF Cons.prems(1) fits, of t "cool j" "burst j" r rl'] chk
  have "0 < card (insert (u, a) ?K)" by (simp add: card_gt_0_iff)
  with fits have "1 \<le> max_entries rl" by linarith
  from rl_check_keeps_ok [OF Cons.prems(1) this chk]
  have ok': "rl_ok rl'" "max_entries rl' = max_entries rl" by simp_all
  have m': "map_of (windows rl') =
      (map_of (windows rl))(j := snd (key_step (cool j) (burst j) (map_of (windows rl) j) t))"
    and acc: "(r = Inr ()) = fst (key_step (cool j) (burst j) (map_of (windows rl) j) t)"
    using step by (simp_all add: j)
  have "fst ` set (windows rl') = dom (map_of (windows rl'))" by (simp add: dom_map_of_conv_image_fst)
  also have "\<dots> \<subseteq> insert j ?K" by (auto simp: m' dom_map_of_conv_image_fst [symmetric])
  finally have "card (fst ` set (windows rl') \<union> snd ` set calls) \<le> card (?K \<union> snd ` set (c # calls))"
    by (intro card_mono) (auto simp: c)
  with Cons.prems ok' have "int (card (fst ` set (windows rl') \<union> snd ` set calls)) \<le> max_entries rl'"
    by simp
  from Cons.IH [OF ok'(1) this] show ?case
    using chk acc by (auto simp: c j m' split: prod.splits)
qed

text \<open>With one call allowed per window, accepted calls are a full cooldown apart.\<close>

lemma accepted_of_sorted: "sorted ts \<Longrightarrow> sorted (accepted_of c n w ts) \<and> set (accepted_of c n w ts) \<subseteq> set ts"
  by (induction ts arbitrary: w) (fastforce split: prod.splits if_splits)+

lemma accepted_of_spaced:
  assumes "sorted ts" "n \<le> 1"
    "case w of None \<Rightarrow> True | Some (s, u) \<Rightarrow> 1 \<le> u \<and> (\<forall>t \<in> set ts. s \<le> t)"
  shows "sorted_wrt (\<lambda>x y. x + c \<le> y) (accepted_of c n w ts) \<and>
    (\<forall>y \<in> set (accepted_of c n w ts). case w of None \<Rightarrow> True | Some (s, u) \<Rightarrow> s + c \<le> y)"
  using assms
proof (induction ts arbitrary: w)
  case Nil
  then show ?case by simp
next
  case (Cons t ts)
  note IH = Cons.IH [OF _ Cons.prems(2), of "Some (t, 1)"]
  from Cons.prems have opens: "sorted_wrt (\<lambda>x y. x + c \<le> y) (t # accepted_of c n (Some (t, 1)) ts)"
    using IH by simp
  show ?case
  proof (cases w)
    case None
    with opens show ?thesis by (simp add: key_step_def)
  next
    case (Some su)
    obtain s u where su: "su = (s, u)" by force
    show ?thesis
    proof (cases "c - (t - s) > 0")
      case True
      have "sorted ts" using Cons.prems(1) by simp
      with True Some su Cons.prems Cons.IH [OF _ Cons.prems(2), of "Some (s, u)"] show ?thesis
        by (simp add: key_step_def)
    next
      case False
      moreover have "s + c \<le> y" if "y \<in> set (accepted_of c n (Some (t, 1)) ts)" for y
        using that accepted_of_sorted [of ts c n "Some (t, 1)"] Cons.prems False by force
      ultimately show ?thesis using Some su opens by (auto simp: key_step_def)
    qed
  qed
qed

text \<open>In any interval as long as the cooldown, at most two windows' worth of calls pass.\<close>

definition passed :: "rat \<Rightarrow> rat \<Rightarrow> rat list \<Rightarrow> int" where
  "passed a c ts = int (length (filter (\<lambda>t. a \<le> t \<and> t < a + c) ts))"

lemma accepted_of_count:
  assumes "sorted ts"
    "case w of None \<Rightarrow> True | Some (s, u) \<Rightarrow> 1 \<le> u \<and> u \<le> max 1 n \<and> (\<forall>t \<in> set ts. s \<le> t)"
  shows "passed a c (accepted_of c n w ts) \<le>
    (case w of None \<Rightarrow> 2 * max 1 n
     | Some (s, u) \<Rightarrow> if a + c \<le> s then 0 else if a \<le> s then max 1 n - u
                      else if a < s + c then 2 * max 1 n - u else 2 * max 1 n)"
  using assms
proof (induction ts arbitrary: w)
  case Nil
  then show ?case by (auto simp: passed_def split: option.splits)
next
  case (Cons t ts)
  let ?N = "max 1 n"
  have N: "1 \<le> ?N" by simp
  note IH = Cons.IH
  have opens: "passed a c (t # accepted_of c n (Some (t, 1)) ts) \<le>
     (if a + c \<le> t then 0 else if a \<le> t then ?N else 2 * ?N)"
    using IH [of "Some (t, 1)"] Cons.prems N by (auto simp: passed_def split: if_splits)
  show ?case
  proof (cases w)
    case None
    with opens N show ?thesis by (auto simp: key_step_def split: if_splits)
  next
    case (Some su)
    obtain s u where su: "su = (s, u)" by force
    show ?thesis
    proof (cases "c - (t - s) > 0")
      case True
      with Some su Cons.prems IH [of "Some (s, u)"] IH [of "Some (s, u + 1)"] show ?thesis
        by (auto simp: key_step_def passed_def split: if_splits)
    next
      case False
      with Some su Cons.prems opens N show ?thesis
        by (auto simp: key_step_def split: if_splits)
    qed
  qed
qed

text \<open>
  With the plain cooldown (\<open>burst\<close> at most 1), two accepted calls of the same key are
  never closer than the cooldown, over any run in which the table holds every key.
\<close>

theorem rate_limiter_spacing:
  assumes "sorted (map fst calls)" "int (card (snd ` set calls)) \<le> n" "burst k \<le> 1"
  shows "sorted_wrt (\<lambda>x y. x + cool k \<le> y)
           (times_of k (rl_run cool burst calls (new_rate_limiter n)))"
proof -
  have "sorted (times_of k calls)"
    unfolding times_of_def by (rule sorted_filter [OF assms(1)])
  with rl_run_accepted [of "new_rate_limiter n" calls k cool burst] assms(2,3)
  show ?thesis
    using accepted_of_spaced [of "times_of k calls" "burst k" None "cool k"]
    by (simp add: new_rate_limiter_def rl_ok_def)
qed


text \<open>Three calls of one user, of which the second comes too early.\<close>

definition three_calls :: "(rat \<times> rl_key) list" where
  "three_calls = [(0, (7, ''start'')), (2, (7, ''start'')), (5, (7, ''start''))]"

lemma three_calls_run:
  "times_of (7, ''start'') (rl_run (\<lambda>_. 5) (\<lambda>_. 1) three_calls (new_rate_limiter 10)) = [0, 5]"
  by (simp add: three_calls_def new_rate_limiter_def rl_check_def rl_trim_def move_to_end_def)

lemma three_calls_ok: "sorted (map fst three_calls)" "card (snd ` set three_calls) = 1"
  by (simp_all add: three_calls_def)

theorem rate_limiter_spacing_witness:
  "sorted_wrt (\<lambda>x y. x + 5 \<le> y)
     (times_of (7, ''start'') (rl_run (\<lambda>_. 5) (\<lambda>_. 1) three_calls (new_rate_limiter 10))) \<and>
   times_of (7, ''start'') (rl_run (\<lambda>_. 5) (\<lambda>_. 1) three_calls (new_rate_limiter 10)) = [0, 5]"
  using rate_limiter_spacing [of three_calls 10 "\<lambda>_. 1" "(7, ''start'')" "\<lambda>_. 5"]
  by (simp add: three_calls_ok three_calls_run)


end
