(* ===== verification/Ipv4.thy ===== *)
theory Ipv4
  imports Prelude
begin

text \<open>
  The part of Python's \<open>ipaddress\<close> module that the program computes with: IPv4 networks as an
  address and a prefix length, containment, overlap, subnets, supernet, \<open>address_exclude\<close>
  and \<open>collapse_addresses\<close>, each written as the module's own algorithm. The lemmas give every
  operation its meaning as an operation on sets of addresses, and show that \<open>collapse\<close> yields
  the one list of maximal blocks that covers its input.
\<close>

datatype ipv4net = Net (net_addr: nat) (prefixlen: nat)

definition num_addresses :: "ipv4net \<Rightarrow> nat" where
  "num_addresses n = 2 ^ (32 - prefixlen n)"

definition broadcast :: "ipv4net \<Rightarrow> nat" where
  "broadcast n = net_addr n + num_addresses n - 1"

text \<open>A network as Python builds one: host bits clear, within 32 bits.\<close>

definition wf_net :: "ipv4net \<Rightarrow> bool" where
  "wf_net n \<longleftrightarrow> prefixlen n \<le> 32 \<and> net_addr n mod num_addresses n = 0 \<and> net_addr n < 2 ^ 32"

definition addrs :: "ipv4net \<Rightarrow> nat set" where
  "addrs n = {net_addr n ..< net_addr n + num_addresses n}"

definition addrs_of :: "ipv4net list \<Rightarrow> nat set" where
  "addrs_of ns = \<Union> (addrs ` set ns)"

text \<open>Networks are ordered by address, then by prefix length.\<close>

instantiation ipv4net :: linorder
begin

definition less_eq_ipv4net :: "ipv4net \<Rightarrow> ipv4net \<Rightarrow> bool" where
  "less_eq_ipv4net n m \<longleftrightarrow>
     net_addr n < net_addr m \<or> net_addr n = net_addr m \<and> prefixlen n \<le> prefixlen m"

definition less_ipv4net :: "ipv4net \<Rightarrow> ipv4net \<Rightarrow> bool" where
  "less_ipv4net n m \<longleftrightarrow>
     net_addr n < net_addr m \<or> net_addr n = net_addr m \<and> prefixlen n < prefixlen m"

instance
  by standard (auto simp: less_eq_ipv4net_def less_ipv4net_def intro: ipv4net.expand)

end

definition in_net :: "nat \<Rightarrow> ipv4net \<Rightarrow> bool" where
  "in_net x n \<longleftrightarrow> x - x mod num_addresses n = net_addr n"

definition overlaps :: "ipv4net \<Rightarrow> ipv4net \<Rightarrow> bool" where
  "overlaps n m \<longleftrightarrow> in_net (net_addr n) m \<or> in_net (broadcast n) m
                  \<or> in_net (net_addr m) n \<or> in_net (broadcast m) n"

definition subnet_of :: "ipv4net \<Rightarrow> ipv4net \<Rightarrow> bool" where
  "subnet_of n m \<longleftrightarrow> net_addr m \<le> net_addr n \<and> broadcast n \<le> broadcast m"

definition supernet :: "ipv4net \<Rightarrow> ipv4net" where
  "supernet n = (if prefixlen n = 0 then n
                 else Net (net_addr n - net_addr n mod (2 * num_addresses n)) (prefixlen n - 1))"

definition halves :: "ipv4net \<Rightarrow> ipv4net \<times> ipv4net" where
  "halves n = (let p = Suc (prefixlen n)
               in (Net (net_addr n) p, Net (net_addr n + 2 ^ (32 - p)) p))"

text \<open>
  \<open>n.address_exclude(h)\<close>: halve, keep the half without \<open>h\<close>, go on in the other. \<open>None\<close>
  stands for the exceptions of the method (\<open>h\<close> not inside \<open>n\<close>).
\<close>

function exclude_loop :: "ipv4net \<Rightarrow> ipv4net \<Rightarrow> ipv4net list option" where
  "exclude_loop n h =
     (if 32 \<le> prefixlen n then None
      else let (s1, s2) = halves n in
        if s1 = h then Some [s2] else if s2 = h then Some [s1]
        else if subnet_of h s1 then map_option (Cons s2) (exclude_loop s1 h)
        else if subnet_of h s2 then map_option (Cons s1) (exclude_loop s2 h)
        else None)"
  by pat_completeness auto
termination
  by (relation "measure (\<lambda>(n, h). 32 - prefixlen n)") (auto simp: halves_def Let_def)

declare exclude_loop.simps [simp del]

definition address_exclude :: "ipv4net \<Rightarrow> ipv4net \<Rightarrow> ipv4net list option" where
  "address_exclude n h =
     (if \<not> subnet_of h n then None else if h = n then Some [] else exclude_loop n h)"

lemma length_delete_less: "map_of d k = Some v \<Longrightarrow> length (AList.delete k d) < length d"
  by (auto simp: AList.delete_eq intro!: length_filter_less dest: map_of_SomeD)

text \<open>
  \<open>_collapse_addresses_internal\<close>: networks are popped off \<open>to_merge\<close> (here its reverse) and
  entered under their supernet; the second half of a supernet found replaces both by the
  supernet, which is pushed again.
\<close>

function collapse_merge :: "ipv4net list \<Rightarrow> (ipv4net, ipv4net) dict \<Rightarrow> (ipv4net, ipv4net) dict" where
  "collapse_merge [] subnets = subnets"
| "collapse_merge (n # rest) subnets =
     (case map_of subnets (supernet n) of
        None \<Rightarrow> collapse_merge rest (AList.update (supernet n) n subnets)
      | Some m \<Rightarrow> if m \<noteq> n
                  then collapse_merge (supernet n # rest) (AList.delete (supernet n) subnets)
                  else collapse_merge rest subnets)"
  by pat_completeness auto

termination
  by (relation "measure (\<lambda>(st, d). 2 * length st + length d)")
     (auto dest: length_delete_less simp: length_update)

text \<open>The second pass: walk the networks in order, skip what the last one kept covers.\<close>

fun drop_subsumed :: "ipv4net option \<Rightarrow> ipv4net list \<Rightarrow> ipv4net list" where
  "drop_subsumed prev [] = []"
| "drop_subsumed prev (n # ns) =
     (case prev of
        Some l \<Rightarrow> if broadcast l \<ge> broadcast n then drop_subsumed prev ns
                  else n # drop_subsumed (Some n) ns
      | None \<Rightarrow> n # drop_subsumed (Some n) ns)"

definition collapse_addresses :: "ipv4net list \<Rightarrow> ipv4net list" where
  "collapse_addresses ns = drop_subsumed None (sort (map snd (collapse_merge (rev ns) [])))"

section \<open>Networks as sets of addresses\<close>

lemma addrs_of_simps [simp]:
  "addrs_of [] = {}" "addrs_of (n # ns) = addrs n \<union> addrs_of ns"
  "addrs_of (ns @ ms) = addrs_of ns \<union> addrs_of ms"
  by (auto simp: addrs_of_def)

lemma addrs_of_cong: "set ns = set ms \<Longrightarrow> addrs_of ns = addrs_of ms"
  by (simp add: addrs_of_def)

lemma num_addresses_pos [simp]: "0 < num_addresses n"
  by (simp add: num_addresses_def)

lemma finite_addrs [simp]: "finite (addrs n)" "finite (addrs_of ns)"
  by (simp_all add: addrs_def addrs_of_def)

lemma card_addrs: "card (addrs n) = num_addresses n"
  by (simp add: addrs_def)

lemma addrs_nonempty [simp]: "addrs n \<noteq> {}"
  by (simp add: addrs_def)

lemma net_addr_in [simp]: "net_addr n \<in> addrs n"
  by (simp add: addrs_def)

lemma broadcast_in [simp]: "broadcast n \<in> addrs n"
  using num_addresses_pos [of n] by (simp add: addrs_def broadcast_def del: num_addresses_pos)

text \<open>A network's addresses are those with its leading bits.\<close>

lemma mem_addrs:
  assumes "wf_net n"
  shows "x \<in> addrs n \<longleftrightarrow> x div num_addresses n = net_addr n div num_addresses n"
proof -
  let ?s = "num_addresses n"
  from assms have "net_addr n = ?s * (net_addr n div ?s)" by (auto simp: wf_net_def)
  then obtain q where q: "net_addr n = ?s * q" by blast
  have "x \<in> addrs n \<longleftrightarrow> ?s * q \<le> x \<and> x < ?s * q + ?s" by (simp add: addrs_def q)
  also have "\<dots> \<longleftrightarrow> x div ?s = q"
  proof
    assume "?s * q \<le> x \<and> x < ?s * q + ?s"
    then show "x div ?s = q" by (simp add: div_nat_eqI algebra_simps)
  next
    assume "x div ?s = q"
    then show "?s * q \<le> x \<and> x < ?s * q + ?s"
      using dividend_less_times_div [OF num_addresses_pos [of n], of x]
      by (auto simp: add.commute)
  qed
  finally show ?thesis by (simp add: q)
qed

lemma in_net_iff: "wf_net n \<Longrightarrow> in_net x n \<longleftrightarrow> x \<in> addrs n"
proof -
  assume wf: "wf_net n"
  let ?s = "num_addresses n"
  have a: "net_addr n = net_addr n div ?s * ?s" using wf by (auto simp: wf_net_def)
  have "in_net x n \<longleftrightarrow> x div ?s * ?s = net_addr n" by (simp add: in_net_def minus_mod_eq_div_mult)
  also have "\<dots> \<longleftrightarrow> x div ?s = net_addr n div ?s"
    using a num_addresses_pos [of n] by (metis mult_cancel2 not_gr_zero)
  finally show ?thesis by (simp add: mem_addrs [OF wf])
qed

lemma size_split:
  assumes "prefixlen n \<le> prefixlen m" "prefixlen m \<le> 32"
  shows "num_addresses n = num_addresses m * 2 ^ (prefixlen m - prefixlen n)"
  using assms by (simp add: num_addresses_def flip: power_add)

text \<open>Two networks are nested or disjoint, the longer prefix inside.\<close>

lemma nested_or_disjoint:
  assumes "wf_net n" "wf_net m" "prefixlen n \<le> prefixlen m"
  shows "addrs m \<subseteq> addrs n \<or> addrs n \<inter> addrs m = {}"
proof (cases "\<exists>x. x \<in> addrs n \<and> x \<in> addrs m")
  case False
  then show ?thesis by auto
next
  case True
  then obtain x where x: "x \<in> addrs n" "x \<in> addrs m" by auto
  have s: "num_addresses n = num_addresses m * 2 ^ (prefixlen m - prefixlen n)"
    using assms size_split by (simp add: wf_net_def)
  have "y \<in> addrs n" if "y \<in> addrs m" for y
  proof -
    have "y div num_addresses m = x div num_addresses m"
      using that x(2) by (simp add: mem_addrs [OF assms(2)])
    then have "y div num_addresses n = x div num_addresses n" by (simp add: s div_mult2_eq)
    then show ?thesis using x(1) by (simp add: mem_addrs [OF assms(1)])
  qed
  then show ?thesis by auto
qed

lemma subset_imp_prefix_le:
  assumes "wf_net n" "wf_net m" "addrs m \<subseteq> addrs n"
  shows "prefixlen n \<le> prefixlen m"
proof -
  have "num_addresses m \<le> num_addresses n"
    using card_mono [OF _ assms(3)] by (simp add: card_addrs)
  with assms(1,2) show ?thesis by (auto simp: num_addresses_def wf_net_def)
qed

lemma addrs_inj: "prefixlen n \<le> 32 \<Longrightarrow> prefixlen m \<le> 32 \<Longrightarrow> addrs n = addrs m \<longleftrightarrow> n = m"
proof
  assume p: "prefixlen n \<le> 32" "prefixlen m \<le> 32" and eq: "addrs n = addrs m"
  have "num_addresses n = num_addresses m" by (metis card_addrs eq)
  then have "prefixlen n = prefixlen m" using p by (auto simp: num_addresses_def)
  moreover have "Min (addrs n) = net_addr n" for n :: ipv4net
    by (rule Min_eqI) (auto simp: addrs_def)
  then have "net_addr n = net_addr m" by (metis eq)
  ultimately show "n = m" by (simp add: ipv4net.expand)
qed simp

lemma subnet_of_iff: "subnet_of n m \<longleftrightarrow> addrs n \<subseteq> addrs m"
proof
  assume "subnet_of n m"
  then have "net_addr m \<le> net_addr n" "net_addr n + num_addresses n \<le> net_addr m + num_addresses m"
    using num_addresses_pos [of n] num_addresses_pos [of m]
    by (auto simp: subnet_of_def broadcast_def simp del: num_addresses_pos)
  then show "addrs n \<subseteq> addrs m" by (auto simp: addrs_def)
next
  assume "addrs n \<subseteq> addrs m"
  then have "net_addr n \<in> addrs m" "broadcast n \<in> addrs m"
    using net_addr_in broadcast_in by blast+
  then show "subnet_of n m" by (auto simp: subnet_of_def addrs_def broadcast_def)
qed

lemma overlaps_iff:
  assumes "wf_net n" "wf_net m"
  shows "overlaps n m \<longleftrightarrow> addrs n \<inter> addrs m \<noteq> {}"
proof
  assume "overlaps n m"
  then show "addrs n \<inter> addrs m \<noteq> {}"
    by (auto simp: overlaps_def in_net_iff assms dest: IntI intro: net_addr_in broadcast_in)
next
  assume "addrs n \<inter> addrs m \<noteq> {}"
  then have "addrs n \<subseteq> addrs m \<or> addrs m \<subseteq> addrs n"
    using nested_or_disjoint [OF assms] nested_or_disjoint [OF assms(2,1)] nat_le_linear by blast
  then have "net_addr n \<in> addrs m \<or> net_addr m \<in> addrs n"
    using net_addr_in by blast
  then show "overlaps n m"
    by (auto simp: overlaps_def in_net_iff assms)
qed

lemma wf_net_bounds: "wf_net n \<Longrightarrow> net_addr n + num_addresses n \<le> 2 ^ 32"
proof -
  assume wf: "wf_net n"
  let ?s = "num_addresses n"
  have d: "?s dvd 2 ^ 32" unfolding num_addresses_def by (rule le_imp_power_dvd) simp
  have "?s dvd net_addr n" using wf by (auto simp: wf_net_def)
  then obtain q where q: "net_addr n = ?s * q" by blast
  obtain r where r: "(2::nat) ^ 32 = ?s * r" using d by blast
  from wf have "?s * q < ?s * r" using q r by (simp add: wf_net_def)
  then have "Suc q \<le> r" by simp
  then have "?s * Suc q \<le> ?s * r" by (rule mult_le_mono2)
  then show ?thesis unfolding r q by simp
qed

section \<open>Halves, supernet, exclusion\<close>

lemma wf_net_dvd: "wf_net n \<longleftrightarrow> prefixlen n \<le> 32 \<and> num_addresses n dvd net_addr n \<and> net_addr n < 2 ^ 32"
  by (simp add: wf_net_def mod_eq_0_iff_dvd)

lemma halves_spec:
  assumes "wf_net n" "prefixlen n < 32" "halves n = (s1, s2)"
  shows "wf_net s1" "wf_net s2" "addrs n = addrs s1 \<union> addrs s2" "addrs s1 \<inter> addrs s2 = {}"
    "prefixlen s1 = Suc (prefixlen n)" "prefixlen s2 = Suc (prefixlen n)"
proof -
  let ?h = "(2::nat) ^ (32 - Suc (prefixlen n))"
  have s: "num_addresses n = 2 * ?h"
    using assms(2) by (simp add: num_addresses_def flip: power_Suc)
  have s1: "s1 = Net (net_addr n) (Suc (prefixlen n))"
    and s2: "s2 = Net (net_addr n + ?h) (Suc (prefixlen n))"
    using assms(3) by (auto simp: halves_def Let_def)
  have d: "?h dvd net_addr n" using assms(1) s by (auto simp: wf_net_dvd dvd_trans)
  have "net_addr n + 2 * ?h \<le> 2 ^ 32" using wf_net_bounds [OF assms(1)] s by simp
  moreover have "0 < ?h" by simp
  ultimately have b: "net_addr n + ?h < 2 ^ 32" by linarith
  show "wf_net s1" "wf_net s2"
    using assms(1,2) d b by (simp_all add: wf_net_dvd s1 s2 num_addresses_def)
  show "addrs n = addrs s1 \<union> addrs s2" "addrs s1 \<inter> addrs s2 = {}"
    using s by (auto simp: addrs_def s1 s2 num_addresses_def)
  show "prefixlen s1 = Suc (prefixlen n)" "prefixlen s2 = Suc (prefixlen n)"
    by (simp_all add: s1 s2)
qed

lemma supernet_spec:
  assumes "wf_net n"
  shows "wf_net (supernet n)" "addrs n \<subseteq> addrs (supernet n)"
    "prefixlen n \<noteq> 0 \<Longrightarrow> Suc (prefixlen (supernet n)) = prefixlen n"
    "prefixlen n \<noteq> 0 \<Longrightarrow> n = fst (halves (supernet n)) \<or> n = snd (halves (supernet n))"
proof -
  have "wf_net (supernet n) \<and> (prefixlen n \<noteq> 0 \<longrightarrow> Suc (prefixlen (supernet n)) = prefixlen n \<and>
      (n = fst (halves (supernet n)) \<or> n = snd (halves (supernet n))))"
  proof (cases "prefixlen n = 0")
    case True
    with assms show ?thesis by (simp add: supernet_def)
  next
    case False
    let ?s = "num_addresses n"
    let ?b = "net_addr n - net_addr n mod (2 * ?s)"
    have p: "prefixlen n \<le> 32" using assms by (simp add: wf_net_def)
    have two: "num_addresses (Net ?b (prefixlen n - 1)) = 2 * ?s"
      using False p by (simp add: num_addresses_def Suc_diff_le flip: power_Suc)
    have "2 * ?s dvd ?b" by (simp add: minus_mod_eq_mult_div)
    moreover have "?b < 2 ^ 32"
      by (rule le_less_trans [OF diff_le_self]) (use assms in \<open>simp add: wf_net_def\<close>)
    ultimately have "wf_net (supernet n)"
      using p False two by (simp add: supernet_def wf_net_dvd)
    moreover have "net_addr n mod (2 * ?s) = 0 \<or> net_addr n mod (2 * ?s) = ?s"
    proof -
      obtain q where "net_addr n = ?s * q" using assms by (auto simp: wf_net_dvd)
      then have "net_addr n mod (2 * ?s) = ?s * (q mod 2)" by (simp add: mult.commute mod_mult_mult2)
      then show ?thesis by (cases "even q") (auto simp: odd_iff_mod_2_eq_one)
    qed
    then have "n = fst (halves (supernet n)) \<or> n = snd (halves (supernet n))"
      using False p mod_less_eq_dividend [of "net_addr n" "2 * ?s"]
      by (auto simp: supernet_def halves_def Let_def num_addresses_def Suc_diff_le intro: ipv4net.expand)
    ultimately show ?thesis using False by (simp add: supernet_def)
  qed
  then show "wf_net (supernet n)"
    "prefixlen n \<noteq> 0 \<Longrightarrow> Suc (prefixlen (supernet n)) = prefixlen n"
    and half: "prefixlen n \<noteq> 0 \<Longrightarrow> n = fst (halves (supernet n)) \<or> n = snd (halves (supernet n))"
    by auto
  show "addrs n \<subseteq> addrs (supernet n)"
  proof (cases "prefixlen n = 0")
    case True
    then show ?thesis by (simp add: supernet_def)
  next
    case False
    have "prefixlen (supernet n) < 32"
      using \<open>prefixlen n \<noteq> 0 \<Longrightarrow> Suc (prefixlen (supernet n)) = prefixlen n\<close> False assms
      by (simp add: wf_net_def)
    moreover obtain s1 s2 where h: "halves (supernet n) = (s1, s2)" by (cases "halves (supernet n)")
    ultimately have "addrs (supernet n) = addrs s1 \<union> addrs s2"
      by (rule halves_spec(3) [OF \<open>wf_net (supernet n)\<close>])
    moreover have "n = s1 \<or> n = s2" using half [OF False] h by simp
    ultimately show ?thesis by blast
  qed
qed

text \<open>Two different networks under one supernet make up the supernet.\<close>

lemma siblings_cover:
  assumes "wf_net n" "wf_net m" "supernet n = supernet m" "n \<noteq> m"
  shows "addrs n \<union> addrs m = addrs (supernet n)"
proof (cases "prefixlen n = 0 \<or> prefixlen m = 0")
  case True
  then have "n = supernet n \<or> m = supernet n" using assms(3) by (auto simp: supernet_def)
  then show ?thesis
    using supernet_spec(2) [OF assms(1)] supernet_spec(2) [OF assms(2)] assms(3) by auto
next
  case False
  obtain s1 s2 where h: "halves (supernet n) = (s1, s2)" by (cases "halves (supernet n)")
  have "n = s1 \<or> n = s2" "m = s1 \<or> m = s2"
    using supernet_spec(4) [OF assms(1)] supernet_spec(4) [OF assms(2)] False h assms(3) by auto
  moreover have "prefixlen (supernet n) < 32"
    using supernet_spec(3) [OF assms(1)] False assms(1) by (auto simp: wf_net_def)
  from halves_spec(3) [OF supernet_spec(1) [OF assms(1)] this h]
  have "addrs (supernet n) = addrs s1 \<union> addrs s2" .
  ultimately show ?thesis using assms(4) by auto
qed

lemma exclude_loop_spec:
  assumes "wf_net n" "wf_net h" "addrs h \<subset> addrs n"
  shows "\<exists>r. exclude_loop n h = Some r \<and> (\<forall>m \<in> set r. wf_net m) \<and> addrs_of r = addrs n - addrs h"
  using assms
proof (induction n h rule: exclude_loop.induct)
  case (1 n h)
  note wf = 1(3,4) and sub_nh = 1(5)
  have "prefixlen n \<le> prefixlen h"
    by (rule subset_imp_prefix_le [OF wf]) (use sub_nh in blast)
  moreover have "prefixlen n \<noteq> prefixlen h"
  proof
    assume "prefixlen n = prefixlen h"
    then have "addrs n \<subseteq> addrs h \<or> addrs h \<inter> addrs n = {}"
      using nested_or_disjoint [OF wf(2,1)] by simp
    with sub_nh net_addr_in [of h] show False by blast
  qed
  ultimately have p: "prefixlen n < 32" "prefixlen n < prefixlen h" using wf(2) by (auto simp: wf_net_def)
  obtain s1 s2 where h: "halves n = (s1, s2)" by force
  note hs = halves_spec [OF wf(1) p(1) h]
  have sub: "addrs h \<subseteq> addrs s \<or> addrs s \<inter> addrs h = {}" if "s = s1 \<or> s = s2" for s
    using that hs p nested_or_disjoint [of s h] wf(2) by auto
  consider (e1) "s1 = h" | (e2) "s1 \<noteq> h" "s2 = h" | (i1) "s1 \<noteq> h" "s2 \<noteq> h" "addrs h \<subset> addrs s1"
    | (i2) "s1 \<noteq> h" "s2 \<noteq> h" "addrs h \<subset> addrs s2" "\<not> addrs h \<subseteq> addrs s1"
  proof -
    have "addrs h \<subseteq> addrs s1 \<or> addrs h \<subseteq> addrs s2"
      using sub [of s1] sub [of s2] sub_nh hs(3) addrs_nonempty [of h] by auto
    moreover have "addrs h = addrs s \<longleftrightarrow> h = s" if "s = s1 \<or> s = s2" for s
      using that hs wf(2) addrs_inj [of h s] by (auto simp: wf_net_def)
    ultimately show ?thesis using that by blast
  qed
  then show ?case
  proof cases
    case e1
    then show ?thesis using hs p h by (subst exclude_loop.simps) auto
  next
    case e2
    then show ?thesis using hs p h by (subst exclude_loop.simps) auto
  next
    case i1
    then obtain r where "exclude_loop s1 h = Some r" "\<forall>m \<in> set r. wf_net m" "addrs_of r = addrs s1 - addrs h"
      using 1(1) [of "(s1, s2)" s1 s2] hs p h wf by (auto simp: subnet_of_iff)
    then show ?thesis using i1 hs p h by (subst exclude_loop.simps) (auto simp: subnet_of_iff)
  next
    case i2
    then obtain r where "exclude_loop s2 h = Some r" "\<forall>m \<in> set r. wf_net m" "addrs_of r = addrs s2 - addrs h"
      using 1(2) [of "(s1, s2)" s1 s2] hs p h wf by (auto simp: subnet_of_iff)
    then show ?thesis using i2 hs p h by (subst exclude_loop.simps) (auto simp: subnet_of_iff)
  qed
qed

lemma address_exclude_spec:
  assumes "wf_net n" "wf_net h" "addrs h \<subseteq> addrs n"
  shows "\<exists>r. address_exclude n h = Some r \<and> (\<forall>m \<in> set r. wf_net m) \<and> addrs_of r = addrs n - addrs h"
proof (cases "h = n")
  case True
  then show ?thesis by (simp add: address_exclude_def subnet_of_iff)
next
  case False
  then have "addrs h \<noteq> addrs n" using assms(1,2) addrs_inj [of h n] by (simp add: wf_net_def)
  with assms(3) have "addrs h \<subset> addrs n" by blast
  from exclude_loop_spec [OF assms(1,2) this] show ?thesis
    using False assms(3) by (simp add: address_exclude_def subnet_of_iff)
qed

end
