(* ===== verification/Ipv4_Text.thy ===== *)
theory Ipv4_Text
  imports Ipv4 Py_Strings
begin

text \<open>
  How \<open>ipaddress\<close> reads and writes IPv4 addresses and networks as text: \<open>ip_address\<close>,
  \<open>ip_network(text, strict)\<close> with a prefix length, a netmask or a hostmask, and \<open>str(net)\<close>.
  Whether a text that is no IPv4 network is an IPv6 one is the argument \<open>v6\<close> (the program only
  asks for the version, and refuses or skips version 6). \<open>None\<close> stands for \<open>ValueError\<close>.
\<close>

definition parse_octet :: "string \<Rightarrow> nat option" where
  "parse_octet s =
     (if s = [] \<or> \<not> list_all ascii_digit s \<or> length s > 3 then None
      else if s \<noteq> ''0'' \<and> hd s = CHR ''0'' then None
      else if undec s > 255 then None else Some (undec s))"

definition parse_ipv4_int :: "string \<Rightarrow> nat option" where
  "parse_ipv4_int s =
     (case map parse_octet (split_on (CHR ''.'') s) of
        [Some a, Some b, Some c, Some d] \<Rightarrow> Some (((a * 256 + b) * 256 + c) * 256 + d)
      | _ \<Rightarrow> None)"

definition netmask :: "nat \<Rightarrow> nat" where
  "netmask p = 2 ^ 32 - 2 ^ (32 - p)"

definition prefix_of_mask :: "nat \<Rightarrow> nat option" where
  "prefix_of_mask m = find (\<lambda>p. netmask p = m) [0 ..< 33]"

definition parse_mask :: "string \<Rightarrow> nat option" where
  "parse_mask s =
     (if s \<noteq> [] \<and> list_all ascii_digit s \<and> undec s \<le> 32 then Some (undec s)
      else case parse_ipv4_int s of None \<Rightarrow> None
        | Some m \<Rightarrow> (case prefix_of_mask m of Some p \<Rightarrow> Some p
            | None \<Rightarrow> prefix_of_mask (2 ^ 32 - 1 - m)))"

text \<open>The address and prefix of a text, before the host bits are looked at.\<close>

definition parse_addr_prefix :: "string \<Rightarrow> (nat \<times> nat) option" where
  "parse_addr_prefix s =
     (case split_on (CHR ''/'') s of
        [a] \<Rightarrow> map_option (\<lambda>n. (n, 32)) (parse_ipv4_int a)
      | [a, m] \<Rightarrow> (case (parse_ipv4_int a, parse_mask m) of
                     (Some n, Some p) \<Rightarrow> Some (n, p) | _ \<Rightarrow> None)
      | _ \<Rightarrow> None)"

datatype ip_network = V4 ipv4net | V6

definition ip_network :: "(string \<Rightarrow> bool) \<Rightarrow> bool \<Rightarrow> string \<Rightarrow> ip_network option" where
  "ip_network v6 strict s =
     (case parse_addr_prefix s of
        Some (n, p) \<Rightarrow>
          (let base = n - n mod 2 ^ (32 - p)
           in if strict \<and> base \<noteq> n then None else Some (V4 (Net base p)))
      | None \<Rightarrow> if v6 s then Some V6 else None)"

datatype ip_address = A4 nat | A6

definition ip_address :: "(string \<Rightarrow> bool) \<Rightarrow> string \<Rightarrow> ip_address option" where
  "ip_address v6 s =
     (case parse_ipv4_int s of Some n \<Rightarrow> Some (A4 n) | None \<Rightarrow> if v6 s then Some A6 else None)"

definition addr_str :: "nat \<Rightarrow> string" where
  "addr_str n = join ''.'' (map dec [n div 16777216 mod 256, n div 65536 mod 256, n div 256 mod 256, n mod 256])"

definition net_str :: "ipv4net \<Rightarrow> string" where
  "net_str n = addr_str (net_addr n) @ ''/'' @ dec (prefixlen n)"

section \<open>Round trips\<close>

lemma digit_char_0: "digit_char 0 = CHR ''0''"
  unfolding digit_char_def by code_simp

lemma parse_octet_dec [simp]:
  assumes "n < 256"
  shows "parse_octet (dec n) = Some n"
proof -
  have "length (dec n) \<le> 3" by (rule length_dec) (use assms in simp_all)
  moreover have "dec n = ''0''" if "n = 0" using that by (subst dec.simps) (simp add: digit_char_0)
  ultimately show ?thesis
    using assms dec_digits [of n] dec_hd [of n] by (auto simp: parse_octet_def digit_char_0)
qed

lemma digit_free: "\<not> ascii_digit c \<Longrightarrow> c \<notin> set (dec n)"
  using dec_digits [of n] by (auto simp: list_all_iff)

lemma seps_no_digit [simp]: "\<not> ascii_digit (CHR ''.'')" "\<not> ascii_digit (CHR ''/'')" "\<not> ascii_digit (CHR '','')"
  by (simp_all add: ascii_digit_def code_point_def)

lemma addr_bytes:
  fixes n :: nat
  assumes "n < 2 ^ 32"
  shows "((n div 16777216 mod 256 * 256 + n div 65536 mod 256) * 256 + n div 256 mod 256) * 256 + n mod 256 = n"
proof -
  define b c d where "b = n div 256" and "c = b div 256" and "d = c div 256"
  have e: "n div 65536 = c" "n div 16777216 = d"
    by (simp_all add: b_def c_def d_def div_mult2_eq [symmetric])
  have "d < 256" using assms by (simp add: e(2) [symmetric])
  moreover have "d * 256 + c mod 256 = c" "c * 256 + b mod 256 = b" "b * 256 + n mod 256 = n"
    by (simp_all add: b_def c_def d_def)
  ultimately show ?thesis by (simp add: e b_def [symmetric])
qed

lemma split_addr_str:
  "split_on (CHR ''.'') (addr_str n) = map dec [n div 16777216 mod 256, n div 65536 mod 256, n div 256 mod 256, n mod 256]"
  unfolding addr_str_def by (rule split_join) (auto simp: digit_free)

lemma parse_addr_str [simp]: "n < 2 ^ 32 \<Longrightarrow> parse_ipv4_int (addr_str n) = Some n"
  using addr_bytes [of n] unfolding parse_ipv4_int_def split_addr_str by simp

lemma addr_str_chars: "c \<in> set (addr_str n) \<Longrightarrow> ascii_digit c \<or> c = CHR ''.''"
  using dec_digits by (fastforce simp: addr_str_def list_all_iff dest!: set_join)

lemma slash_free: "CHR ''/'' \<notin> set (addr_str n)" "CHR '','' \<notin> set (addr_str n)"
  using addr_str_chars by fastforce+

lemma parse_mask_dec [simp]: "p \<le> 32 \<Longrightarrow> parse_mask (dec p) = Some p"
  using dec_digits [of p] by (simp add: parse_mask_def)

lemma parse_net_str:
  "wf_net n \<Longrightarrow> parse_addr_prefix (net_str n) = Some (net_addr n, prefixlen n)"
  by (simp add: parse_addr_prefix_def net_str_def split_on_append split_on_no_sep digit_free slash_free wf_net_def)

lemma parse_addr_alone: "n < 2 ^ 32 \<Longrightarrow> parse_addr_prefix (addr_str n) = Some (n, 32)"
  by (simp add: parse_addr_prefix_def split_on_no_sep slash_free)

lemma ip_network_net_str [simp]: "wf_net n \<Longrightarrow> ip_network v6 strict (net_str n) = Some (V4 n)"
  by (cases n) (auto simp: ip_network_def parse_net_str wf_net_def num_addresses_def)

lemma ip_network_addr_str [simp]: "n < 2 ^ 32 \<Longrightarrow> ip_network v6 strict (addr_str n) = Some (V4 (Net n 32))"
  by (simp add: ip_network_def parse_addr_alone)

lemma parse_octet_bound: "parse_octet s = Some n \<Longrightarrow> n < 256"
  by (auto simp: parse_octet_def split: if_splits)

lemma parse_ipv4_int_bound: "parse_ipv4_int s = Some n \<Longrightarrow> n < 2 ^ 32"
proof -
  assume "parse_ipv4_int s = Some n"
  then obtain a b c d where "map parse_octet (split_on (CHR ''.'') s) = [Some a, Some b, Some c, Some d]"
    and n: "n = ((a * 256 + b) * 256 + c) * 256 + d"
    by (auto simp: parse_ipv4_int_def split: list.splits option.splits)
  then have "a < 256" "b < 256" "c < 256" "d < 256" by (auto simp: map_eq_Cons_conv dest!: parse_octet_bound)
  with n show ?thesis by simp
qed

lemma prefix_of_mask_bound: "prefix_of_mask m = Some p \<Longrightarrow> p \<le> 32"
  by (auto simp: prefix_of_mask_def find_Some_iff nth_append)

lemma parse_mask_bound: "parse_mask s = Some p \<Longrightarrow> p \<le> 32"
  by (auto simp: parse_mask_def prefix_of_mask_bound split: if_splits option.splits)

text \<open>What \<open>ip_network\<close> returns is a network as Python builds one.\<close>

lemma ip_network_wf: "ip_network v6 strict s = Some (V4 n) \<Longrightarrow> wf_net n"
proof -
  assume "ip_network v6 strict s = Some (V4 n)"
  then obtain a p where s: "parse_addr_prefix s = Some (a, p)" "n = Net (a - a mod 2 ^ (32 - p)) p"
    by (auto simp: ip_network_def Let_def split: option.splits if_splits)
  then have "a < 2 ^ 32" "p \<le> 32"
    by (auto simp: parse_addr_prefix_def parse_ipv4_int_bound parse_mask_bound split: list.splits option.splits
        dest: parse_ipv4_int_bound)
  then show ?thesis
    using s(2) le_less_trans [OF diff_le_self, of a "2 ^ 32" "a mod 2 ^ (32 - p)"]
    by (simp add: wf_net_dvd num_addresses_def minus_mod_eq_mult_div)
qed

lemma net_str_inj: "wf_net n \<Longrightarrow> wf_net m \<Longrightarrow> net_str n = net_str m \<longleftrightarrow> n = m"
  by (metis ip_network.inject(1) ip_network_net_str option.inject)

end
