(* ===== verification/Validators.thy ===== *)
theory Validators
  imports Ipv4_Text
begin

text \<open>
  \<open>config/validators.py\<close>: the format checks shared by the settings loader and the admin panel.
  Each check returns the value or the \<open>InvalidValue\<close> it raises (by kind; the message text
  is not modelled). The lemmas show that the stored text of a relay's source addresses reads back
  as the same networks, and that no entry of the list is ever dropped silently.
\<close>

datatype invalid_value =
    ControlCharacters | BadRelayName | BadLabelLength | LabelHasSpaceAround | LabelForbiddenCategory
  | Ipv6NotSupported | BadIpv4Address | BadHost | BadNetwork string | NetworkNotIpv4 string

definition no_control_chars :: "string \<Rightarrow> invalid_value + string" where
  "no_control_chars value =
     (if list_ex (\<lambda>c. code_point c < 32 \<or> code_point c = 127) value then Inl ControlCharacters
      else Inr value)"

text \<open>\<open>RELAY_NAME_PATTERN\<close> under \<open>fullmatch\<close>.\<close>

definition name_char :: "char \<Rightarrow> bool" where
  "name_char c \<longleftrightarrow> 97 \<le> code_point c \<and> code_point c \<le> 122 \<or> ascii_digit c"

definition relay_name_pattern :: "string \<Rightarrow> bool" where
  "relay_name_pattern s =
     (case s of [] \<Rightarrow> False
      | c # cs \<Rightarrow> name_char c \<and> list_all (\<lambda>d. name_char d \<or> d = CHR ''-'') cs \<and> length cs \<le> 31)"

definition relay_name :: "string \<Rightarrow> invalid_value + string" where
  "relay_name value = (if relay_name_pattern value then Inr value else Inl BadRelayName)"

text \<open>Below code point 256 only the control characters are in a forbidden category.\<close>

definition forbidden_category :: "char \<Rightarrow> bool" where
  "forbidden_category c \<longleftrightarrow> code_point c < 32 \<or> 127 \<le> code_point c \<and> code_point c < 160"

definition relay_label_max_chars :: nat where
  "relay_label_max_chars = 16"

definition relay_label :: "string \<Rightarrow> invalid_value + string" where
  "relay_label value =
     (if value = [] \<or> length value > relay_label_max_chars then Inl BadLabelLength
      else if value \<noteq> strip value then Inl LabelHasSpaceAround
      else if list_ex forbidden_category value then Inl LabelForbiddenCategory
      else Inr value)"

text \<open>\<open>_HOSTNAME_LABEL\<close>: 1 to 63 letters, digits and hyphens, no hyphen at either end.\<close>

definition host_char :: "char \<Rightarrow> bool" where
  "host_char c \<longleftrightarrow> 65 \<le> code_point c \<and> code_point c \<le> 90 \<or> name_char c \<or> c = CHR ''-''"

definition hostname_label :: "string \<Rightarrow> bool" where
  "hostname_label s \<longleftrightarrow> s \<noteq> [] \<and> length s \<le> 63 \<and> list_all host_char s
     \<and> hd s \<noteq> CHR ''-'' \<and> last s \<noteq> CHR ''-''"

definition dns_name_or_ipv4 :: "(string \<Rightarrow> bool) \<Rightarrow> string \<Rightarrow> invalid_value + string" where
  "dns_name_or_ipv4 v6 raw =
     (case no_control_chars raw of Inl e \<Rightarrow> Inl e
      | Inr checked \<Rightarrow>
        (let value = strip checked
         in if value = [] then Inr value
            else (case ip_address v6 value of
                Some (A4 _) \<Rightarrow> Inr value
              | Some A6 \<Rightarrow> Inl Ipv6NotSupported
              | None \<Rightarrow>
                  if str_isdigit (filter (\<lambda>c. c \<noteq> CHR ''.'') value) then Inl BadIpv4Address
                  else (let hostname = (if last value = CHR ''.'' then butlast value else value)
                        in if length hostname > 253
                              \<or> \<not> list_all hostname_label (split_on (CHR ''.'') hostname)
                           then Inl BadHost else Inr value))))"

definition ipv4_address :: "(string \<Rightarrow> bool) \<Rightarrow> string \<Rightarrow> nat option" where
  "ipv4_address v6 value = (case ip_address v6 value of Some (A4 n) \<Rightarrow> Some n | _ \<Rightarrow> None)"

fun parse_network_items ::
  "(string \<Rightarrow> bool) \<Rightarrow> string list \<Rightarrow> ipv4net list \<Rightarrow> invalid_value + ipv4net list" where
  "parse_network_items v6 [] networks = Inr networks"
| "parse_network_items v6 (raw # rest) networks =
     (let item = strip raw
      in if item = [] then parse_network_items v6 rest networks
         else (case ip_network v6 True item of
             None \<Rightarrow> Inl (BadNetwork item)
           | Some V6 \<Rightarrow> Inl (NetworkNotIpv4 item)
           | Some (V4 n) \<Rightarrow>
               parse_network_items v6 rest (if n \<in> set networks then networks else networks @ [n])))"

definition parse_ipv4_networks :: "(string \<Rightarrow> bool) \<Rightarrow> string \<Rightarrow> invalid_value + ipv4net list" where
  "parse_ipv4_networks v6 raw =
     (case no_control_chars raw of Inl e \<Rightarrow> Inl e
      | Inr text \<Rightarrow> parse_network_items v6 (split_on (CHR '','') text) [])"

definition format_ipv4_networks :: "ipv4net list \<Rightarrow> string" where
  "format_ipv4_networks networks =
     join '','' (map (\<lambda>n. if prefixlen n = 32 then addr_str (net_addr n) else net_str n) networks)"

section \<open>The list of source networks\<close>

definition network_text :: "ipv4net \<Rightarrow> string" where
  "network_text n = (if prefixlen n = 32 then addr_str (net_addr n) else net_str n)"

lemma network_text_chars: "c \<in> set (network_text n) \<Longrightarrow> ascii_digit c \<or> c = CHR ''.'' \<or> c = CHR ''/''"
  using addr_str_chars dec_digits by (fastforce simp: network_text_def net_str_def list_all_iff split: if_splits)

lemma plain_char: "ascii_digit c \<or> c = CHR ''.'' \<or> c = CHR ''/'' \<Longrightarrow>
    \<not> is_space c \<and> c \<noteq> CHR '','' \<and> \<not> (code_point c < 32 \<or> code_point c = 127)"
  using ascii_digit_not_space [of c]
  by (auto simp: ascii_digit_def is_space_def code_point_def)

lemma strip_network_text [simp]: "strip (network_text n) = network_text n"
  by (rule strip_id) (auto simp: list_all_iff dest!: network_text_chars plain_char)

lemma network_text_nonempty [simp]: "network_text n \<noteq> []"
  by (simp add: network_text_def net_str_def addr_str_def)

lemma ip_network_network_text [simp]: "wf_net n \<Longrightarrow> ip_network v6 strict (network_text n) = Some (V4 n)"
  by (cases n) (auto simp: network_text_def wf_net_def)

lemma parse_items_text:
  assumes "\<forall>n \<in> set ns. wf_net n" "distinct (acc @ ns)"
  shows "parse_network_items v6 (map network_text ns) acc = Inr (acc @ ns)"
  using assms by (induction ns arbitrary: acc) auto

lemma parse_format_networks:
  assumes "\<forall>n \<in> set ns. wf_net n" "distinct ns"
  shows "parse_ipv4_networks v6 (format_ipv4_networks ns) = Inr ns"
proof -
  have fmt: "format_ipv4_networks ns = join '','' (map network_text ns)"
    by (simp add: format_ipv4_networks_def network_text_def [abs_def])
  have plain: "\<not> (code_point c < 32 \<or> code_point c = 127)" if "c \<in> set (format_ipv4_networks ns)" for c
  proof -
    from that consider "c = CHR '',''" | n where "n \<in> set ns" "c \<in> set (network_text n)"
      unfolding fmt by (auto dest!: set_join)
    then show ?thesis
    proof cases
      case 1
      then show ?thesis by (simp add: code_point_def)
    next
      case 2
      then show ?thesis using plain_char [OF network_text_chars [OF 2(2)]] by simp
    qed
  qed
  then have "no_control_chars (format_ipv4_networks ns) = Inr (format_ipv4_networks ns)"
    by (auto simp: no_control_chars_def list_ex_iff)
  moreover have "parse_network_items v6 (split_on (CHR '','') (format_ipv4_networks ns)) [] = Inr ns"
  proof (cases "ns = []")
    case True
    then show ?thesis by (simp add: format_ipv4_networks_def strip_def lstrip_def Let_def)
  next
    case False
    then have "split_on (CHR '','') (format_ipv4_networks ns) = map network_text ns"
      unfolding fmt by (intro split_join) (auto dest!: network_text_chars plain_char)
    with parse_items_text [of ns "[]" v6] assms show ?thesis by simp
  qed
  ultimately show ?thesis by (simp add: parse_ipv4_networks_def)
qed

text \<open>
  The text stored for a relay's source networks reads back as the same tuple, in the same
  order, whatever the list of distinct networks.
\<close>

theorem networks_round_trip:
  assumes "\<forall>n \<in> set ns. wf_net n" "distinct ns"
  shows "parse_ipv4_networks v6 (format_ipv4_networks ns) = Inr ns"
  by (rule parse_format_networks [OF assms])

lemma parse_items_complete:
  assumes "parse_network_items v6 items acc = Inr ns" "distinct acc"
  shows "distinct ns \<and> set acc \<subseteq> set ns
    \<and> (\<forall>item \<in> set items. strip item = [] \<or> (\<exists>n \<in> set ns. ip_network v6 True (strip item) = Some (V4 n)))
    \<and> (\<forall>n \<in> set ns. n \<in> set acc \<or> (\<exists>item \<in> set items. ip_network v6 True (strip item) = Some (V4 n)))"
  using assms
proof (induction v6 items acc rule: parse_network_items.induct)
  case (1 v6 networks)
  then show ?case by simp
next
  case (2 v6 raw rest networks)
  show ?case
  proof (cases "strip raw = []")
    case True
    with 2 show ?thesis by (auto simp: Let_def)
  next
    case False
    with 2(3) obtain n where n: "ip_network v6 True (strip raw) = Some (V4 n)"
      by (auto simp: Let_def split: option.splits ip_network.splits)
    from 2(2) [OF refl False n refl] 2(3,4) n False show ?thesis by (auto simp: Let_def split: if_splits)
  qed
qed

text \<open>
  When the list is accepted, no non-blank entry was dropped: each reads as an IPv4 network of
  the result, and the result has nothing else and nothing twice.
\<close>

theorem networks_none_dropped:
  assumes "parse_ipv4_networks v6 raw = Inr ns"
  shows "distinct ns
    \<and> (\<forall>item \<in> set (split_on (CHR '','') raw).
         strip item = [] \<or> (\<exists>n \<in> set ns. ip_network v6 True (strip item) = Some (V4 n)))
    \<and> (\<forall>n \<in> set ns. wf_net n \<and> (\<exists>item \<in> set (split_on (CHR '','') raw).
         ip_network v6 True (strip item) = Some (V4 n)))"
proof -
  from assms have "parse_network_items v6 (split_on (CHR '','') raw) [] = Inr ns"
    by (auto simp: parse_ipv4_networks_def no_control_chars_def split: sum.splits if_splits)
  from parse_items_complete [OF this] show ?thesis by (auto dest: ip_network_wf)
qed

theorem networks_round_trip_witness:
  "parse_ipv4_networks (\<lambda>_. False) (format_ipv4_networks [Net 3405803776 24, Net 16843009 32])
     = Inr [Net 3405803776 24, Net 16843009 32]"
  by (rule networks_round_trip) (simp_all add: wf_net_def num_addresses_def)

theorem networks_none_dropped_witness:
  "parse_ipv4_networks (\<lambda>_. False) (format_ipv4_networks [Net 16843009 32]) = Inr [Net 16843009 32]
   \<and> distinct [Net 16843009 32]"
proof -
  have "parse_ipv4_networks (\<lambda>_. False) (format_ipv4_networks [Net 16843009 32]) = Inr [Net 16843009 32]"
    by (rule parse_format_networks) (simp_all add: wf_net_def num_addresses_def)
  with networks_none_dropped [OF this] show ?thesis by simp
qed

end
