(* ===== verification/Ipv4_Collapse.thy ===== *)
theory Ipv4_Collapse
  imports Ipv4
begin

text \<open>
  What \<open>collapse_addresses\<close> computes: the maximal blocks of the address space its input covers,
  in increasing order. Since that list is determined by the address set alone, comparing two
  collapsed lists compares the address spaces, and summing their sizes counts the addresses.
\<close>

definition before :: "ipv4net \<Rightarrow> ipv4net \<Rightarrow> bool" where
  "before n m \<longleftrightarrow> broadcast n < net_addr m"

definition canonical :: "ipv4net list \<Rightarrow> bool" where
  "canonical ns \<longleftrightarrow> (\<forall>n \<in> set ns. wf_net n) \<and> sorted_wrt before ns \<and> inj_on supernet (set ns)"

section \<open>First pass: no two halves of one network are left\<close>

definition merge_inv :: "(ipv4net, ipv4net) dict \<Rightarrow> bool" where
  "merge_inv d \<longleftrightarrow> dict_ok d \<and> (\<forall>(k, v) \<in> set d. supernet v = k \<and> wf_net v)"

lemma merge_inv_lookup: "merge_inv d \<Longrightarrow> map_of d k = Some v \<Longrightarrow> supernet v = k \<and> wf_net v"
  by (auto simp: merge_inv_def dest!: map_of_SomeD)

lemma addrs_of_values_delete:
  "dict_ok d \<Longrightarrow> map_of d k = Some v
    \<Longrightarrow> addrs_of (map snd d) = addrs v \<union> addrs_of (map snd (AList.delete k d))"
  using set_values_delete [of d k v] by (auto simp: addrs_of_def)

lemma merge_inv_delete: "merge_inv d \<Longrightarrow> merge_inv (AList.delete k d)"
  by (auto simp: merge_inv_def AList.delete_eq dict_ok_def distinct_map_filter)

lemma merge_inv_insert:
  assumes "merge_inv d" "wf_net n" "map_of d (supernet n) = None"
  shows "merge_inv (AList.update (supernet n) n d)"
    and "addrs_of (map snd (AList.update (supernet n) n d)) = addrs n \<union> addrs_of (map snd d)"
proof -
  have fresh: "supernet n \<notin> fst ` set d" using assms(3) by (simp add: map_of_eq_None_iff)
  then show "merge_inv (AList.update (supernet n) n d)"
    using assms by (auto simp: merge_inv_def dict_ok_def update_fresh)
  show "addrs_of (map snd (AList.update (supernet n) n d)) = addrs n \<union> addrs_of (map snd d)"
    using fresh by (auto simp: update_fresh)
qed

lemma collapse_merge_spec:
  assumes "\<forall>n \<in> set st. wf_net n" "merge_inv d"
  shows "merge_inv (collapse_merge st d) \<and>
    addrs_of (map snd (collapse_merge st d)) = addrs_of st \<union> addrs_of (map snd d)"
  using assms
proof (induction st d rule: collapse_merge.induct)
  case (1 d)
  then show ?case by simp
next
  case (2 n rest d)
  show ?case
  proof (cases "map_of d (supernet n)")
    case None
    with 2 merge_inv_insert [OF 2(5) _ None] show ?thesis by auto
  next
    case (Some m)
    note m = merge_inv_lookup [OF 2(5) Some]
    have ok: "dict_ok d" using 2(5) by (simp add: merge_inv_def)
    show ?thesis
    proof (cases "m = n")
      case True
      with 2 Some addrs_of_values_delete [OF ok Some] show ?thesis by auto
    next
      case False
      have "addrs m \<union> addrs n = addrs (supernet n)"
        using siblings_cover [of m n] m 2(4) False by simp
      with 2(2) [OF Some False] 2(4) merge_inv_delete [OF 2(5)] supernet_spec(1)
        addrs_of_values_delete [OF ok Some] Some False
      show ?thesis by auto
    qed
  qed
qed

lemma merge_inv_inj: "merge_inv d \<Longrightarrow> inj_on supernet (snd ` set d)"
  by (rule inj_onI) (fastforce simp: merge_inv_def dict_ok_def dest: eq_key_imp_eq_value)

section \<open>Second pass: disjoint networks in increasing order\<close>

lemma before_imp_disjoint: "before n m \<Longrightarrow> addrs n \<inter> addrs m = {}"
  by (auto simp: before_def addrs_def broadcast_def)

lemma kept_is_before:
  assumes "wf_net l" "wf_net n" "l \<le> n" "\<not> broadcast n \<le> broadcast l"
  shows "before l n"
proof -
  have le: "net_addr l \<le> net_addr n" using assms(3) by (auto simp: less_eq_ipv4net_def)
  have "\<not> addrs n \<subseteq> addrs l" using assms(4) by (auto simp: subnet_of_iff [symmetric] subnet_of_def)
  moreover have "\<not> addrs l \<subseteq> addrs n"
  proof
    assume sub: "addrs l \<subseteq> addrs n"
    then have "net_addr n \<le> net_addr l" by (simp add: subnet_of_iff [symmetric] subnet_of_def)
    with le have "net_addr n = net_addr l" by simp
    with assms(3) have "prefixlen l \<le> prefixlen n" by (auto simp: less_eq_ipv4net_def)
    with subset_imp_prefix_le [OF assms(2,1) sub] have "prefixlen l = prefixlen n" by simp
    with \<open>net_addr n = net_addr l\<close> assms(4) show False
      by (simp add: broadcast_def num_addresses_def)
  qed
  ultimately have "addrs l \<inter> addrs n = {}"
    using nested_or_disjoint [OF assms(1,2)] nested_or_disjoint [OF assms(2,1)] nat_le_linear by blast
  then have "net_addr n \<notin> addrs l" using net_addr_in by blast
  with le have "net_addr l + num_addresses l \<le> net_addr n" by (simp add: addrs_def)
  with num_addresses_pos [of l] show ?thesis unfolding before_def broadcast_def by linarith
qed

lemma drop_subsumed_spec:
  assumes "sorted (l # ns)" "\<forall>n \<in> set (l # ns). wf_net n"
  shows "sorted_wrt before (l # drop_subsumed (Some l) ns)
    \<and> set (drop_subsumed (Some l) ns) \<subseteq> set ns
    \<and> addrs_of (l # drop_subsumed (Some l) ns) = addrs_of (l # ns)"
  using assms
proof (induction ns arbitrary: l)
  case Nil
  then show ?case by simp
next
  case (Cons n ns)
  show ?case
  proof (cases "broadcast n \<le> broadcast l")
    case True
    then have "addrs n \<subseteq> addrs l"
      using Cons.prems by (auto simp: subnet_of_iff [symmetric] subnet_of_def less_eq_ipv4net_def)
    moreover have "sorted (l # ns)" "\<forall>n \<in> set (l # ns). wf_net n" using Cons.prems by simp_all
    ultimately show ?thesis using True Cons.IH [of l] by auto
  next
    case False
    have *: "before l n" using kept_is_before [of l n] Cons.prems False by simp
    have IH: "sorted_wrt before (n # drop_subsumed (Some n) ns)"
      "set (drop_subsumed (Some n) ns) \<subseteq> set ns"
      "addrs_of (n # drop_subsumed (Some n) ns) = addrs_of (n # ns)"
      using Cons.IH [of n] Cons.prems by auto
    moreover have "before l m" if "before n m" for m
      using that * by (simp add: before_def broadcast_def)
    ultimately show ?thesis using * False by auto
  qed
qed

lemma drop_subsumed_None:
  assumes "sorted ns" "\<forall>n \<in> set ns. wf_net n"
  shows "sorted_wrt before (drop_subsumed None ns) \<and> set (drop_subsumed None ns) \<subseteq> set ns
    \<and> addrs_of (drop_subsumed None ns) = addrs_of ns"
proof (cases ns)
  case Nil
  then show ?thesis by simp
next
  case (Cons n ms)
  with assms drop_subsumed_spec [of n ms] show ?thesis by auto
qed

lemma collapse_spec:
  assumes "\<forall>n \<in> set ns. wf_net n"
  shows "canonical (collapse_addresses ns) \<and> addrs_of (collapse_addresses ns) = addrs_of ns"
proof -
  let ?d = "collapse_merge (rev ns) []"
  have inv: "merge_inv ?d" and addrs: "addrs_of (map snd ?d) = addrs_of ns"
    using collapse_merge_spec [of "rev ns" "[]"] assms addrs_of_cong [of "rev ns" ns]
    by (auto simp: merge_inv_def)
  let ?s = "sort (map snd ?d)"
  have s: "sorted ?s" "\<forall>n \<in> set ?s. wf_net n" using inv by (auto simp: merge_inv_def)
  note dr = drop_subsumed_None [OF s]
  have "inj_on supernet (set (drop_subsumed None ?s))"
    by (rule inj_on_subset [OF merge_inv_inj [OF inv]]) (use dr in auto)
  moreover have "addrs_of ?s = addrs_of ns" using addrs addrs_of_cong [of ?s "map snd ?d"] by simp
  ultimately show ?thesis using dr s by (auto simp: canonical_def collapse_addresses_def)
qed

section \<open>A canonical list is the list of maximal blocks of its address space\<close>

lemma same_prefix_eq:
  assumes "wf_net n" "wf_net m" "prefixlen n = prefixlen m" "x \<in> addrs n" "x \<in> addrs m"
  shows "n = m"
proof -
  have "addrs m \<subseteq> addrs n"
    using nested_or_disjoint [OF assms(1,2)] assms(3-5) by (metis disjoint_iff order_refl)
  moreover have "addrs n \<subseteq> addrs m"
    using nested_or_disjoint [OF assms(2,1)] assms(3-5) by (metis disjoint_iff order_refl)
  ultimately have "addrs n = addrs m" by blast
  moreover have "prefixlen n \<le> 32" "prefixlen m \<le> 32" using assms(1,2) by (simp_all add: wf_net_def)
  ultimately show ?thesis using addrs_inj by blast
qed

lemma canonical_disjoint:
  assumes "canonical ns" "n \<in> set ns" "m \<in> set ns" "x \<in> addrs n" "x \<in> addrs m"
  shows "n = m"
proof (rule ccontr)
  assume "n \<noteq> m"
  moreover obtain i j where "i < length ns" "n = ns ! i" "j < length ns" "m = ns ! j"
    using assms(2,3) by (metis in_set_conv_nth)
  moreover have "sorted_wrt before ns" using assms(1) by (simp add: canonical_def)
  ultimately have "before n m \<or> before m n"
    by (metis linorder_neqE_nat sorted_wrt_nth_less)
  with before_imp_disjoint assms(4,5) show False by blast
qed

lemma halves_supernet:
  assumes "wf_net p" "prefixlen p < 32" "halves p = (s1, s2)" "s = s1 \<or> s = s2"
  shows "supernet s = p"
proof -
  note hs = halves_spec [OF assms(1-3)]
  have s: "wf_net s" "prefixlen s = Suc (prefixlen p)" "addrs s \<subseteq> addrs p" using hs assms(4) by auto
  have "net_addr s \<in> addrs (supernet s)" using supernet_spec(2) [OF s(1)] net_addr_in by blast
  moreover have "net_addr s \<in> addrs p" using s(3) net_addr_in by blast
  moreover have "prefixlen (supernet s) = prefixlen p" using supernet_spec(3) [OF s(1)] s(2) by simp
  ultimately show ?thesis using same_prefix_eq supernet_spec(1) [OF s(1)] assms(1) by blast
qed

definition maximal_in :: "nat set \<Rightarrow> ipv4net \<Rightarrow> bool" where
  "maximal_in S n \<longleftrightarrow> wf_net n \<and> addrs n \<subseteq> S \<and> (prefixlen n = 0 \<or> \<not> addrs (supernet n) \<subseteq> S)"

lemma sibling_exists:
  assumes "wf_net m" "prefixlen m \<noteq> 0"
  obtains m' where "wf_net m'" "prefixlen m' = prefixlen m" "supernet m' = supernet m" "m' \<noteq> m"
    "addrs m' \<subseteq> addrs (supernet m)"
proof -
  let ?p = "supernet m"
  obtain s1 s2 where h: "halves ?p = (s1, s2)" by (cases "halves ?p")
  have p: "wf_net ?p" "prefixlen ?p < 32" "Suc (prefixlen ?p) = prefixlen m"
    using supernet_spec [OF assms(1)] assms by (auto simp: wf_net_def)
  note hs = halves_spec [OF p(1,2) h]
  have ne: "s1 \<noteq> s2" using hs(4) net_addr_in [of s1] by blast
  have sup: "supernet s1 = ?p" "supernet s2 = ?p" using halves_supernet [OF p(1,2) h] by blast+
  have sub: "addrs s1 \<subseteq> addrs ?p" "addrs s2 \<subseteq> addrs ?p" using hs(3) by blast+
  have len: "prefixlen s1 = prefixlen m" "prefixlen s2 = prefixlen m" using hs(5,6) p(3) by simp_all
  have "m = s1 \<or> m = s2" using supernet_spec(4) [OF assms] h by simp
  then show ?thesis
  proof
    assume "m = s1"
    with that [OF hs(2) len(2) sup(2) _ sub(2)] ne show thesis by simp
  next
    assume "m = s2"
    with that [OF hs(1) len(1) sup(1) _ sub(1)] ne show thesis by simp
  qed
qed

lemma canonical_maximal:
  assumes can: "canonical ns" and n: "n \<in> set ns"
  shows "maximal_in (addrs_of ns) n"
proof (rule ccontr)
  assume "\<not> maximal_in (addrs_of ns) n"
  let ?P = "supernet n"
  have wf: "\<And>m. m \<in> set ns \<Longrightarrow> wf_net m" using can by (simp add: canonical_def)
  have sub: "prefixlen n \<noteq> 0" "addrs ?P \<subseteq> addrs_of ns"
    using \<open>\<not> maximal_in (addrs_of ns) n\<close> n wf by (auto simp: maximal_in_def addrs_of_def)
  have P: "wf_net ?P" "addrs n \<subseteq> addrs ?P" "Suc (prefixlen ?P) = prefixlen n"
    using supernet_spec [OF wf [OF n]] sub by auto
  define B where "B = {m \<in> set ns. addrs m \<subseteq> addrs ?P}"
  have short: "m \<in> set ns \<Longrightarrow> x \<in> addrs m \<Longrightarrow> x \<in> addrs ?P \<Longrightarrow> prefixlen ?P < prefixlen m" for m x
  proof (rule ccontr)
    assume m: "m \<in> set ns" "x \<in> addrs m" "x \<in> addrs ?P" and "\<not> prefixlen ?P < prefixlen m"
    then have "addrs ?P \<subseteq> addrs m" using nested_or_disjoint [of m ?P] wf P(1) by auto
    then have "m = n" using canonical_disjoint [OF can m(1) n] P(2) net_addr_in [of n] by blast
    with \<open>\<not> prefixlen ?P < prefixlen m\<close> P(3) show False by simp
  qed
  have inB: "m \<in> B" if "m \<in> set ns" "x \<in> addrs m" "x \<in> addrs ?P" for m x
    using that short [OF that] nested_or_disjoint [of ?P m] wf P(1) by (auto simp: B_def)
  have "finite B" "n \<in> B" using n P(2) by (auto simp: B_def)
  then have "Max (prefixlen ` B) \<in> prefixlen ` B" by (intro Max_in) auto
  then obtain m where m: "m \<in> B" "Max (prefixlen ` B) = prefixlen m" by auto
  have max: "prefixlen b \<le> prefixlen m" if "b \<in> B" for b
    using that \<open>finite B\<close> unfolding m(2) [symmetric] by simp
  have mns: "m \<in> set ns" "addrs m \<subseteq> addrs ?P" using m(1) by (auto simp: B_def)
  have pm: "prefixlen ?P < prefixlen m" using short [OF mns(1)] mns(2) net_addr_in by blast
  then obtain m' where m': "wf_net m'" "prefixlen m' = prefixlen m" "supernet m' = supernet m" "m' \<noteq> m"
    "addrs m' \<subseteq> addrs (supernet m)"
    using sibling_exists [OF wf [OF mns(1)]] by auto
  note sm = supernet_spec [OF wf [OF mns(1)]]
  have "prefixlen ?P \<le> prefixlen (supernet m)" using sm(3) pm by simp
  moreover have "net_addr m \<in> addrs (supernet m)" "net_addr m \<in> addrs ?P"
    using sm(2) mns(2) net_addr_in by blast+
  ultimately have "addrs (supernet m) \<subseteq> addrs ?P"
    using nested_or_disjoint [OF P(1) sm(1)] by blast
  with m'(5) have x: "net_addr m' \<in> addrs ?P" using net_addr_in by blast
  with sub(2) obtain b where b: "b \<in> set ns" "net_addr m' \<in> addrs b" by (auto simp: addrs_of_def)
  from inB [OF b x] have bB: "b \<in> B" .
  show False
  proof (cases "prefixlen b = prefixlen m")
    case True
    then have "b = m'" using same_prefix_eq [OF wf [OF b(1)] m'(1) _ b(2) net_addr_in] m'(2) by simp
    with can b(1) mns(1) m'(3,4) show False by (auto simp: canonical_def inj_on_def)
  next
    case False
    with max [OF bB] have "prefixlen b \<le> prefixlen (supernet m)" using sm(3) pm by simp
    moreover have "net_addr m' \<in> addrs (supernet m)" using m'(5) net_addr_in by blast
    ultimately have "addrs (supernet m) \<subseteq> addrs b"
      using nested_or_disjoint [OF wf [OF b(1)] sm(1)] b(2) by blast
    then have "b = m" using canonical_disjoint [OF can b(1) mns(1)] sm(2) net_addr_in [of m] by blast
    with False show False by simp
  qed
qed

lemma maximal_meet:
  assumes "maximal_in S n" "maximal_in S m" "x \<in> addrs n" "x \<in> addrs m" "prefixlen n \<le> prefixlen m"
  shows "n = m"
proof (rule ccontr)
  assume "n \<noteq> m"
  have wf: "wf_net n" "wf_net m" using assms by (auto simp: maximal_in_def)
  with \<open>n \<noteq> m\<close> same_prefix_eq assms(3-5) have p: "prefixlen n < prefixlen m"
    by (metis le_neq_implies_less)
  note sm = supernet_spec [OF wf(2)]
  have "prefixlen n \<le> prefixlen (supernet m)" using sm(3) p by simp
  then have "addrs (supernet m) \<subseteq> addrs n"
    using nested_or_disjoint [OF wf(1) sm(1)] sm(2) assms(3,4) by blast
  with assms(1,2) p show False by (auto simp: maximal_in_def)
qed

lemma canonical_set_unique:
  assumes "canonical ns" "canonical ms" "addrs_of ns = addrs_of ms"
  shows "set ns \<subseteq> set ms"
proof
  fix n assume n: "n \<in> set ns"
  then have "net_addr n \<in> addrs_of ns" using net_addr_in [of n] by (auto simp: addrs_of_def simp del: net_addr_in)
  then obtain m where m: "m \<in> set ms" "net_addr n \<in> addrs m"
    unfolding assms(3) by (auto simp: addrs_of_def)
  have max: "maximal_in (addrs_of ms) n" "maximal_in (addrs_of ms) m"
    using canonical_maximal [OF assms(1) n] canonical_maximal [OF assms(2) m(1)] assms(3) by simp_all
  have "n = m"
  proof (cases "prefixlen n \<le> prefixlen m")
    case True
    with maximal_meet [OF max net_addr_in m(2)] show ?thesis by simp
  next
    case False
    with maximal_meet [OF max(2,1) m(2) net_addr_in] show ?thesis by simp
  qed
  with m show "n \<in> set ms" by simp
qed

lemma before_less: "before n m \<Longrightarrow> n < m"
  using num_addresses_pos [of n] unfolding before_def broadcast_def less_ipv4net_def by linarith

lemma canonical_strict_sorted: "canonical ns \<Longrightarrow> sorted_wrt (<) ns"
  by (auto simp: canonical_def intro: sorted_wrt_mono_rel before_less)

theorem canonical_unique:
  assumes "canonical ns" "canonical ms"
  shows "ns = ms \<longleftrightarrow> addrs_of ns = addrs_of ms"
proof
  assume "addrs_of ns = addrs_of ms"
  then have "set ns = set ms" using canonical_set_unique assms by (simp add: set_eq_subset)
  then show "ns = ms"
    using canonical_strict_sorted assms by (simp add: strict_sorted_equal)
qed simp

lemma card_canonical:
  assumes "sorted_wrt before ns"
  shows "card (addrs_of ns) = (\<Sum>n \<leftarrow> ns. num_addresses n)"
  using assms
proof (induction ns)
  case Nil
  then show ?case by simp
next
  case (Cons n ns)
  then have "addrs n \<inter> addrs_of ns = {}" using before_imp_disjoint by (fastforce simp: addrs_of_def)
  with Cons show ?case by (simp add: card_Un_disjoint card_addrs)
qed

end
