(* ===== verification/Split_Merge.thy ===== *)
theory Split_Merge
  imports Ipv4_Collapse Ipv4_Text Json
begin

text \<open>
  \<open>warp/split_merge.py\<close>: from the parsed feeds, the manual prefixes and the exclusions to the
  list of prefixes routed through the WARP tunnel. The lemmas give the merge its meaning over
  addresses: subtraction is exact however networks nest, and the final list covers exactly what
  the module's documentation promises.
\<close>

definition manual_origin :: string where "manual_origin = ''manual''"
definition list_scope :: string where "list_scope = ''list''"
definition feed_modes :: "string set" where "feed_modes = {''add'', ''subtract''}"

datatype feed_error =
    UnsupportedKind string | InvalidJson | NotAnObject | NoPrefixesArray
  | EmptyFeedError string int nat \<comment> \<open>kind, IPv6 entries skipped, unparseable entries\<close>

record parsed_feed =
  networks :: "ipv4net list"
  ipv6_skipped :: int
  invalid_lines :: "string list"

record source_contribution =
  sc_slug :: string
  sc_mode :: string
  sc_networks :: "ipv4net list"
  sc_scope_slug :: "string option"

record merge_report =
  prefixes :: "string list"
  n_before_subtract :: nat
  n_after_subtract :: nat
  addresses_before :: nat
  addresses_after :: nat
  per_origin :: "(string, nat) dict"
  per_origin_addresses :: "(string, nat) dict"
  per_source_prefixes :: "(string, nat) dict"
  per_source_addresses :: "(string, nat) dict"

definition n_after_collapse :: "merge_report \<Rightarrow> nat" where
  "n_after_collapse r = length (prefixes r)"

definition addresses_removed :: "merge_report \<Rightarrow> int" where
  "addresses_removed r = int (addresses_before r) - int (addresses_after r)"

definition prefixes_added_by_subtraction :: "merge_report \<Rightarrow> int" where
  "prefixes_added_by_subtraction r = int (n_after_collapse r) - int (n_before_subtract r)"

definition subtraction_applied :: "merge_report \<Rightarrow> bool" where
  "subtraction_applied r \<longleftrightarrow> addresses_removed r > 0"

section \<open>Parsers\<close>

definition sort_networks :: "ipv4net list \<Rightarrow> ipv4net list" where
  "sort_networks ns = sort ns"

definition finish_parse ::
  "ipv4net list \<Rightarrow> int \<Rightarrow> string list \<Rightarrow> string \<Rightarrow> feed_error + parsed_feed" where
  "finish_parse ns ipv6 invalid kind =
     (if ns = [] then Inl (EmptyFeedError kind ipv6 (length invalid))
      else Inr \<lparr>networks = sort_networks ns, ipv6_skipped = ipv6, invalid_lines = invalid\<rparr>)"

text \<open>\<open>_parse_one\<close> is \<open>ip_network v6 False\<close>. The text loop, over the lines.\<close>

definition strip_comments :: "string \<Rightarrow> string" where
  "strip_comments raw =
     strip (before_char (CHR '';'') (strip (before_char (CHR ''#'') (strip raw))))"

fun cidr_lines :: "(string \<Rightarrow> bool) \<Rightarrow> string list \<Rightarrow> ipv4net list \<Rightarrow> int \<Rightarrow> string list
    \<Rightarrow> ipv4net list \<times> int \<times> string list" where
  "cidr_lines v6 [] ns ipv6 invalid = (ns, ipv6, invalid)"
| "cidr_lines v6 (raw # rest) ns ipv6 invalid =
     (let line = strip_comments raw
      in if line = [] then cidr_lines v6 rest ns ipv6 invalid
         else (case ip_network v6 False line of
             None \<Rightarrow> cidr_lines v6 rest ns ipv6 (invalid @ [take 64 line])
           | Some V6 \<Rightarrow> cidr_lines v6 rest ns (ipv6 + 1) invalid
           | Some (V4 n) \<Rightarrow> cidr_lines v6 rest (ns @ [n]) ipv6 invalid))"

definition parse_cidr_text :: "(string \<Rightarrow> bool) \<Rightarrow> string \<Rightarrow> feed_error + parsed_feed" where
  "parse_cidr_text v6 payload =
     (case cidr_lines v6 (splitlines payload) [] 0 [] of
        (ns, ipv6, invalid) \<Rightarrow> finish_parse ns ipv6 invalid ''cidr_text'')"

text \<open>\<open>str(value)\<close> of an arbitrary entry, shown in the report only, is the argument \<open>py_str\<close>.\<close>

fun google_entries :: "(string \<Rightarrow> bool) \<Rightarrow> (json \<Rightarrow> string) \<Rightarrow> json list \<Rightarrow> ipv4net list \<Rightarrow> int
    \<Rightarrow> string list \<Rightarrow> ipv4net list \<times> int \<times> string list" where
  "google_entries v6 py_str [] ns ipv6 invalid = (ns, ipv6, invalid)"
| "google_entries v6 py_str (entry # rest) ns ipv6 invalid =
     (case entry of
        JObj d \<Rightarrow>
          (case json_get d ''ipv4Prefix'' of
             JNull \<Rightarrow> google_entries v6 py_str rest ns
                        (if json_get d ''ipv6Prefix'' \<noteq> JNull then ipv6 + 1 else ipv6) invalid
           | JStr value \<Rightarrow>
               (case ip_network v6 False value of
                  Some (V4 n) \<Rightarrow> google_entries v6 py_str rest (ns @ [n]) ipv6 invalid
                | _ \<Rightarrow> google_entries v6 py_str rest ns ipv6 (invalid @ [take 64 value]))
           | other \<Rightarrow> google_entries v6 py_str rest ns ipv6 (invalid @ [take 64 (py_str other)]))
      | other \<Rightarrow> google_entries v6 py_str rest ns ipv6 (invalid @ [take 64 (py_str other)]))"

definition parse_google_json ::
  "(string \<Rightarrow> json option) \<Rightarrow> (json \<Rightarrow> string) \<Rightarrow> (string \<Rightarrow> bool) \<Rightarrow> string \<Rightarrow> feed_error + parsed_feed" where
  "parse_google_json loads py_str v6 payload =
     (case loads payload of
        None \<Rightarrow> Inl InvalidJson
      | Some (JObj d) \<Rightarrow>
          (case json_get d ''prefixes'' of
             JArr entries \<Rightarrow>
               (case google_entries v6 py_str entries [] 0 [] of
                  (ns, ipv6, invalid) \<Rightarrow> finish_parse ns ipv6 invalid ''google_json'')
           | _ \<Rightarrow> Inl NoPrefixesArray)
      | Some _ \<Rightarrow> Inl NotAnObject)"

definition parse_feed ::
  "(string \<Rightarrow> json option) \<Rightarrow> (json \<Rightarrow> string) \<Rightarrow> (string \<Rightarrow> bool) \<Rightarrow> string \<Rightarrow> string
    \<Rightarrow> feed_error + parsed_feed" where
  "parse_feed loads py_str v6 kind payload =
     (if kind = ''cidr_text'' then parse_cidr_text v6 payload
      else if kind = ''google_json'' then parse_google_json loads py_str v6 payload
      else Inl (UnsupportedKind kind))"

section \<open>Set arithmetic\<close>

definition collapse :: "ipv4net list \<Rightarrow> ipv4net list" where
  "collapse ns = sort_networks (collapse_addresses ns)"

text \<open>One hole against the current networks; \<open>None\<close> if \<open>address_exclude\<close> raised.\<close>

fun punch :: "ipv4net \<Rightarrow> ipv4net list \<Rightarrow> ipv4net list option" where
  "punch hole [] = Some []"
| "punch hole (net # rest) =
     (case (if \<not> overlaps net hole then Some [net]
            else if subnet_of net hole then Some []
            else address_exclude net hole) of
        None \<Rightarrow> None
      | Some kept \<Rightarrow> map_option (\<lambda>remaining. kept @ remaining) (punch hole rest))"

fun punch_all :: "ipv4net list \<Rightarrow> ipv4net list \<Rightarrow> ipv4net list option" where
  "punch_all current [] = Some current"
| "punch_all current (hole # holes) =
     (if current = [] then Some current
      else case punch hole current of None \<Rightarrow> None | Some remaining \<Rightarrow> punch_all remaining holes)"

definition subtract_networks :: "ipv4net list \<Rightarrow> ipv4net list \<Rightarrow> ipv4net list option" where
  "subtract_networks base takeaway = punch_all base (collapse takeaway)"

definition total_addresses :: "ipv4net list \<Rightarrow> nat" where
  "total_addresses ns = (\<Sum>n \<leftarrow> ns. num_addresses n)"

text \<open>\<open>merge_split_list\<close>: the buckets of the origins, in dictionary order.\<close>

type_synonym buckets = "(string, ipv4net list) dict"

fun add_buckets :: "source_contribution list \<Rightarrow> buckets \<Rightarrow> buckets" where
  "add_buckets [] bs = bs"
| "add_buckets (s # ss) bs =
     add_buckets ss (if sc_mode s = ''add'' then AList.update (sc_slug s) (collapse (sc_networks s)) bs else bs)"

fun scoped_subtract :: "source_contribution list \<Rightarrow> buckets \<Rightarrow> buckets option" where
  "scoped_subtract [] bs = Some bs"
| "scoped_subtract (s # ss) bs =
     (case sc_scope_slug s of
        None \<Rightarrow> scoped_subtract ss bs
      | Some target \<Rightarrow>
          (case map_of bs target of
             None \<Rightarrow> scoped_subtract ss bs
           | Some bucket \<Rightarrow>
               (case subtract_networks bucket (sc_networks s) of
                  None \<Rightarrow> None
                | Some r \<Rightarrow> scoped_subtract ss (AList.update target r bs))))"

fun global_subtract :: "source_contribution list \<Rightarrow> ipv4net list \<Rightarrow> ipv4net list option" where
  "global_subtract [] merged = Some merged"
| "global_subtract (s # ss) merged =
     (case subtract_networks merged (sc_networks s) of
        None \<Rightarrow> None | Some r \<Rightarrow> global_subtract ss r)"

definition is_scoped :: "source_contribution \<Rightarrow> bool" where
  "is_scoped s \<longleftrightarrow> sc_mode s = ''subtract'' \<and> sc_scope_slug s \<noteq> None"

definition is_global :: "source_contribution \<Rightarrow> bool" where
  "is_global s \<longleftrightarrow> sc_mode s = ''subtract'' \<and> sc_scope_slug s = None"

definition source_metrics :: "ipv4net list \<Rightarrow> source_contribution list \<Rightarrow> (ipv4net list \<Rightarrow> nat) \<Rightarrow> (string, nat) dict" where
  "source_metrics manual sources f =
     AList.update manual_origin (f (collapse manual))
       (fold (\<lambda>s. AList.update (sc_slug s) (f (collapse (sc_networks s)))) sources [])"

definition merge_split_list ::
  "ipv4net list \<Rightarrow> source_contribution list \<Rightarrow> ipv4net list \<Rightarrow> merge_report option" where
  "merge_split_list manual sources exclusions =
     (let initial = add_buckets sources [(manual_origin, collapse manual)];
          union_before = collapse (concat (map snd initial))
      in case scoped_subtract (filter is_scoped sources) initial of None \<Rightarrow> None
       | Some bs \<Rightarrow>
         (case global_subtract (filter is_global sources) (collapse (concat (map snd bs))) of None \<Rightarrow> None
          | Some merged \<Rightarrow>
            (case (if exclusions = [] then Some merged else subtract_networks merged exclusions) of None \<Rightarrow> None
             | Some merged' \<Rightarrow>
               (let final = collapse merged';
                    shown = filter (\<lambda>(_, bucket). bucket \<noteq> []) bs
                in Some \<lparr>prefixes = map net_str final,
                         n_before_subtract = length union_before,
                         n_after_subtract = length merged',
                         addresses_before = total_addresses union_before,
                         addresses_after = total_addresses final,
                         per_origin = map (\<lambda>(o', bucket). (o', length bucket)) shown,
                         per_origin_addresses = map (\<lambda>(o', bucket). (o', total_addresses bucket)) shown,
                         per_source_prefixes = source_metrics manual sources length,
                         per_source_addresses = source_metrics manual sources total_addresses\<rparr>))))"

section \<open>Source validation\<close>

text \<open>\<open>ipaddress.IPv4Network(item)\<close>, strict; \<open>None\<close> for its \<open>ValueError\<close>.\<close>

definition ipv4_network :: "string \<Rightarrow> ipv4net option" where
  "ipv4_network s = (case ip_network (\<lambda>_. False) True s of Some (V4 n) \<Rightarrow> Some n | _ \<Rightarrow> None)"

fun ipv4_networks :: "string list \<Rightarrow> ipv4net list option" where
  "ipv4_networks [] = Some []"
| "ipv4_networks (s # ss) =
     (case (ipv4_network s, ipv4_networks ss) of (Some n, Some ns) \<Rightarrow> Some (n # ns) | _ \<Rightarrow> None)"

fun parse_contributions :: "(string, string list) dict \<Rightarrow> (string, ipv4net list) dict option" where
  "parse_contributions [] = Some []"
| "parse_contributions ((origin, items) # rest) =
     (case parse_contributions rest of None \<Rightarrow> None
      | Some cs \<Rightarrow> if items = [] then Some cs
          else (case ipv4_networks items of None \<Rightarrow> None | Some ns \<Rightarrow> Some ((origin, collapse ns) # cs)))"

definition owners_of :: "(string, ipv4net list) dict \<Rightarrow> ipv4net \<Rightarrow> string list" where
  "owners_of cs net = sort (map fst (filter (\<lambda>(_, nets). list_ex (\<lambda>c. overlaps c net) nets) cs))"

definition resolve_origins ::
  "string list \<Rightarrow> (string, string list) dict \<Rightarrow> (string, string list) dict option" where
  "resolve_origins ps contributions =
     (case parse_contributions contributions of None \<Rightarrow> None
      | Some cs \<Rightarrow> Some (fold (\<lambda>p. AList.update p
            (case ipv4_network p of None \<Rightarrow> [] | Some net \<Rightarrow> owners_of cs net)) ps []))"

datatype slug_error = SlugCharacters | SlugReservedManual | SlugReservedList

definition slug_char :: "char \<Rightarrow> bool" where
  "slug_char c \<longleftrightarrow> 97 \<le> code_point c \<and> code_point c \<le> 122 \<or> ascii_digit c"

definition validate_slug :: "string \<Rightarrow> slug_error + unit" where
  "validate_slug slug =
     (if \<not> (case slug of [] \<Rightarrow> False
              | c # cs \<Rightarrow> slug_char c \<and> list_all (\<lambda>d. slug_char d \<or> d = CHR ''-'') cs
                          \<and> 1 \<le> length cs \<and> length cs \<le> 39)
      then Inl SlugCharacters
      else if slug = manual_origin then Inl SlugReservedManual
      else if slug = list_scope then Inl SlugReservedList
      else Inr ())"

datatype relation_error =
    UnknownMode string | ScopeOnAdd | SelfSubtract string | UnknownScope string | ChainedSubtract string

definition validate_source_relations ::
  "string \<Rightarrow> string \<Rightarrow> string option \<Rightarrow> (string \<rightharpoonup> string) \<Rightarrow> relation_error + unit" where
  "validate_source_relations slug mode scope_slug existing_modes =
     (if mode \<notin> feed_modes then Inl (UnknownMode mode)
      else if mode = ''add'' then (if scope_slug \<noteq> None then Inl ScopeOnAdd else Inr ())
      else case scope_slug of None \<Rightarrow> Inr ()
       | Some target \<Rightarrow>
           if target = slug then Inl (SelfSubtract slug)
           else (case existing_modes target of
               None \<Rightarrow> Inl (UnknownScope target)
             | Some m \<Rightarrow> if m = ''subtract'' then Inl (ChainedSubtract target) else Inr ()))"

section \<open>The meaning of the operations over addresses\<close>

definition wf_nets :: "ipv4net list \<Rightarrow> bool" where
  "wf_nets ns \<longleftrightarrow> (\<forall>n \<in> set ns. wf_net n)"

lemma wf_nets_simps [simp]:
  "wf_nets []" "wf_nets (n # ns) \<longleftrightarrow> wf_net n \<and> wf_nets ns"
  "wf_nets (ns @ ms) \<longleftrightarrow> wf_nets ns \<and> wf_nets ms"
  by (auto simp: wf_nets_def)

lemma collapse_canonical:
  assumes "wf_nets ns"
  shows "canonical (collapse ns)" "addrs_of (collapse ns) = addrs_of ns" "wf_nets (collapse ns)"
proof -
  have c: "canonical (collapse_addresses ns)" "addrs_of (collapse_addresses ns) = addrs_of ns"
    using collapse_spec assms by (auto simp: wf_nets_def)
  have "sorted (collapse_addresses ns)"
    using canonical_strict_sorted [OF c(1)] strict_sorted_imp_sorted by blast
  then have "collapse ns = collapse_addresses ns"
    by (simp add: collapse_def sort_networks_def sorted_sort_id)
  with c show "canonical (collapse ns)" "addrs_of (collapse ns) = addrs_of ns" "wf_nets (collapse ns)"
    by (auto simp: canonical_def wf_nets_def)
qed

lemma total_addresses_collapse: "wf_nets ns \<Longrightarrow> total_addresses (collapse ns) = card (addrs_of ns)"
  using collapse_canonical [of ns] card_canonical [of "collapse ns"]
  by (simp add: total_addresses_def canonical_def)

lemma punch_spec:
  assumes "wf_net hole" "wf_nets ns"
  shows "\<exists>r. punch hole ns = Some r \<and> wf_nets r \<and> addrs_of r = addrs_of ns - addrs hole"
  using assms(2)
proof (induction ns)
  case Nil
  then show ?case by simp
next
  case (Cons net rest)
  then obtain r where r: "punch hole rest = Some r" "wf_nets r" "addrs_of r = addrs_of rest - addrs hole"
    by auto
  have wf: "wf_net net" using Cons.prems by simp
  consider (disjoint) "\<not> overlaps net hole" | (covered) "overlaps net hole" "subnet_of net hole"
    | (inside) "overlaps net hole" "\<not> subnet_of net hole" by blast
  then show ?case
  proof cases
    case disjoint
    then have "addrs net \<inter> addrs hole = {}" using overlaps_iff [OF wf assms(1)] by simp
    with disjoint r wf show ?thesis by auto
  next
    case covered
    then have "addrs net \<subseteq> addrs hole" by (simp add: subnet_of_iff)
    with covered r show ?thesis by auto
  next
    case inside
    then have "addrs net \<inter> addrs hole \<noteq> {}" "\<not> addrs net \<subseteq> addrs hole"
      using overlaps_iff [OF wf assms(1)] by (simp_all add: subnet_of_iff)
    then have "addrs hole \<subseteq> addrs net"
      using nested_or_disjoint [OF wf assms(1)] nested_or_disjoint [OF assms(1) wf] nat_le_linear by blast
    from address_exclude_spec [OF wf assms(1) this] inside r show ?thesis
      by (auto simp: wf_nets_def)
  qed
qed

lemma punch_all_spec:
  assumes "wf_nets holes" "wf_nets ns"
  shows "\<exists>r. punch_all ns holes = Some r \<and> wf_nets r \<and> addrs_of r = addrs_of ns - addrs_of holes"
  using assms
proof (induction ns holes rule: punch_all.induct)
  case (1 current)
  then show ?case by simp
next
  case (2 current hole holes)
  show ?case
  proof (cases "current = []")
    case True
    then show ?thesis by simp
  next
    case False
    from 2(2,3) punch_spec [of hole current] obtain r where
      r: "punch hole current = Some r" "wf_nets r" "addrs_of r = addrs_of current - addrs hole" by auto
    from 2(1) [OF False r(1)] 2(2) r False show ?thesis by auto
  qed
qed

lemma subtract_spec:
  assumes "wf_nets base" "wf_nets takeaway"
  shows "\<exists>r. subtract_networks base takeaway = Some r \<and> wf_nets r
           \<and> addrs_of r = addrs_of base - addrs_of takeaway"
  using punch_all_spec [OF collapse_canonical(3) [OF assms(2)] assms(1)] collapse_canonical(2) [OF assms(2)]
  by (simp add: subtract_networks_def)

text \<open>
  C2: subtraction never raises and is exact over addresses, however the two lists nest, overlap
  or repeat: an address is left exactly when the base has it and the subtrahend has not.
\<close>

theorem subtract_networks_exact:
  assumes "wf_nets base" "wf_nets takeaway"
  shows "\<exists>r. subtract_networks base takeaway = Some r \<and> wf_nets r
           \<and> addrs_of r = addrs_of base - addrs_of takeaway"
  by (rule subtract_spec [OF assms])


section \<open>What the merge routes\<close>

definition bucket_addrs :: "buckets \<Rightarrow> string \<Rightarrow> nat set" where
  "bucket_addrs bs k = (case map_of bs k of None \<Rightarrow> {} | Some ns \<Rightarrow> addrs_of ns)"

definition wf_buckets :: "buckets \<Rightarrow> bool" where
  "wf_buckets bs \<longleftrightarrow> dict_ok bs \<and> (\<forall>(k, ns) \<in> set bs. wf_nets ns)"

definition is_add :: "source_contribution \<Rightarrow> bool" where
  "is_add s \<longleftrightarrow> sc_mode s = ''add''"

definition source_addrs :: "source_contribution list \<Rightarrow> (source_contribution \<Rightarrow> bool) \<Rightarrow> nat set" where
  "source_addrs ss P = (\<Union>s \<in> {s \<in> set ss. P s}. addrs_of (sc_networks s))"

definition wf_sources :: "source_contribution list \<Rightarrow> bool" where
  "wf_sources ss \<longleftrightarrow> (\<forall>s \<in> set ss. wf_nets (sc_networks s))"

lemma source_addrs_simps [simp]:
  "source_addrs [] P = {}"
  "source_addrs (s # ss) P = (if P s then addrs_of (sc_networks s) else {}) \<union> source_addrs ss P"
  by (auto simp: source_addrs_def)

lemma source_addrs_filter [simp]: "source_addrs (filter P ss) Q = source_addrs ss (\<lambda>s. P s \<and> Q s)"
  by (auto simp: source_addrs_def)

lemma wf_sources_simps [simp]:
  "wf_sources []" "wf_sources (s # ss) \<longleftrightarrow> wf_nets (sc_networks s) \<and> wf_sources ss"
  by (auto simp: wf_sources_def)

lemma wf_sources_filter: "wf_sources ss \<Longrightarrow> wf_sources (filter P ss)"
  by (auto simp: wf_sources_def)

lemma wf_buckets_update:
  assumes "wf_buckets bs" "wf_nets ns"
  shows "wf_buckets (AList.update k ns bs)"
proof -
  have "wf_nets ms" if "(j, ms) \<in> set (AList.update k ns bs)" for j ms
    using in_set_update [OF that] assms by (auto simp: wf_buckets_def)
  with assms(1) show ?thesis by (auto simp: wf_buckets_def)
qed

lemma bucket_addrs_update:
  "bucket_addrs (AList.update k ns bs) j = (if j = k then addrs_of ns else bucket_addrs bs j)"
  by (simp add: bucket_addrs_def update_conv')

lemma wf_buckets_lookup: "wf_buckets bs \<Longrightarrow> map_of bs k = Some ns \<Longrightarrow> wf_nets ns"
  by (auto simp: wf_buckets_def dest!: map_of_SomeD)

lemma bucket_addrs_absent: "k \<notin> fst ` set bs \<Longrightarrow> bucket_addrs bs k = {}"
  by (metis bucket_addrs_def map_of_eq_None_iff option.simps(4))

lemma union_of_buckets:
  assumes "wf_buckets bs"
  shows "addrs_of (concat (map snd bs)) = (\<Union>k. bucket_addrs bs k)" "wf_nets (concat (map snd bs))"
proof -
  have mem_bucket: "x \<in> bucket_addrs bs k \<longleftrightarrow> (\<exists>ns. map_of bs k = Some ns \<and> x \<in> addrs_of ns)" for x k
    by (cases "map_of bs k") (auto simp: bucket_addrs_def)
  have "addrs_of (concat (map snd bs)) = (\<Union>ns \<in> snd ` set bs. addrs_of ns)"
    by (auto simp: addrs_of_def)
  also have "snd ` set bs = ran (map_of bs)"
    using assms by (simp add: wf_buckets_def dict_ok_def ran_distinct)
  also have "(\<Union>ns \<in> ran (map_of bs). addrs_of ns) = (\<Union>k. bucket_addrs bs k)"
    unfolding set_eq_iff UN_iff ran_def mem_Collect_eq bex_UNIV mem_bucket by blast
  finally show "addrs_of (concat (map snd bs)) = (\<Union>k. bucket_addrs bs k)" .
  show "wf_nets (concat (map snd bs))"
    using assms by (auto simp: wf_buckets_def wf_nets_def)
qed

lemma add_buckets_spec:
  assumes "wf_sources ss" "wf_buckets bs"
    "distinct (map sc_slug (filter is_add ss))"
    "sc_slug ` set (filter is_add ss) \<inter> fst ` set bs = {}"
  shows "wf_buckets (add_buckets ss bs)
    \<and> bucket_addrs (add_buckets ss bs) k = bucket_addrs bs k \<union> source_addrs ss (\<lambda>s. is_add s \<and> sc_slug s = k)"
  using assms
proof (induction ss arbitrary: bs)
  case Nil
  then show ?case by simp
next
  case (Cons s ss)
  show ?case
  proof (cases "is_add s")
    case False
    with Cons show ?thesis by (simp add: is_add_def)
  next
    case True
    let ?bs = "AList.update (sc_slug s) (collapse (sc_networks s)) bs"
    have wf: "wf_nets (sc_networks s)" and ok: "wf_buckets ?bs"
      using Cons.prems wf_buckets_update collapse_canonical(3) by auto
    have fresh: "sc_slug ` set (filter is_add ss) \<inter> fst ` set ?bs = {}"
      using Cons.prems(3,4) True by (auto simp: keys_update)
    have "bucket_addrs bs (sc_slug s) = {}"
      using Cons.prems(4) True by (intro bucket_addrs_absent) auto
    with Cons.IH [of ?bs] ok fresh Cons.prems(1,3) True collapse_canonical(2) [OF wf]
    show ?thesis by (auto simp: is_add_def bucket_addrs_update)
  qed
qed

lemma wf_buckets_add:
  "wf_sources ss \<Longrightarrow> wf_buckets bs \<Longrightarrow> wf_buckets (add_buckets ss bs)"
  by (induction ss arbitrary: bs) (auto intro!: wf_buckets_update collapse_canonical(3))

lemma scoped_subtract_spec:
  assumes "wf_sources ss" "wf_buckets bs"
  shows "\<exists>bs'. scoped_subtract ss bs = Some bs' \<and> wf_buckets bs' \<and>
    (\<forall>k. bucket_addrs bs' k = bucket_addrs bs k - source_addrs ss (\<lambda>s. sc_scope_slug s = Some k))"
  using assms
proof (induction ss arbitrary: bs)
  case Nil
  then show ?case by simp
next
  case (Cons s ss)
  then have wf: "wf_nets (sc_networks s)" "wf_sources ss" by auto
  show ?case
  proof (cases "sc_scope_slug s")
    case None
    with Cons.IH [OF wf(2) Cons.prems(2)] show ?thesis by simp
  next
    case (Some target)
    show ?thesis
    proof (cases "map_of bs target")
      case None
      then have "bucket_addrs bs target = {}" by (simp add: bucket_addrs_def)
      with Cons.IH [OF wf(2) Cons.prems(2)] Some None show ?thesis by fastforce
    next
      case bucket: (Some bucket)
      from subtract_spec [OF wf_buckets_lookup [OF Cons.prems(2) bucket] wf(1)] obtain r where
        r: "subtract_networks bucket (sc_networks s) = Some r" "wf_nets r"
          "addrs_of r = addrs_of bucket - addrs_of (sc_networks s)" by blast
      have old: "bucket_addrs bs target = addrs_of bucket" by (simp add: bucket_addrs_def bucket)
      from Cons.IH [OF wf(2) wf_buckets_update [OF Cons.prems(2) r(2), of target]] obtain bs' where
        bs': "scoped_subtract ss (AList.update target r bs) = Some bs'" "wf_buckets bs'"
          "\<forall>k. bucket_addrs bs' k = bucket_addrs (AList.update target r bs) k
             - source_addrs ss (\<lambda>s. sc_scope_slug s = Some k)" by blast
      have "bucket_addrs bs' k = bucket_addrs bs k - source_addrs (s # ss) (\<lambda>s. sc_scope_slug s = Some k)" for k
        using bs'(3) r(3) old Some by (auto simp: bucket_addrs_update)
      with bs' r(1) Some bucket show ?thesis by simp
    qed
  qed
qed

lemma global_subtract_spec:
  assumes "wf_sources ss" "wf_nets merged"
  shows "\<exists>r. global_subtract ss merged = Some r \<and> wf_nets r
    \<and> addrs_of r = addrs_of merged - source_addrs ss (\<lambda>_. True)"
  using assms
proof (induction ss arbitrary: merged)
  case Nil
  then show ?case by simp
next
  case (Cons s ss)
  then obtain r where "subtract_networks merged (sc_networks s) = Some r" "wf_nets r"
    "addrs_of r = addrs_of merged - addrs_of (sc_networks s)"
    using subtract_spec [of merged "sc_networks s"] by auto
  with Cons.IH [of r] Cons.prems show ?case by auto
qed

text \<open>
  The addresses a configuration stands for: the manual list and each added source, less what is
  subtracted from that origin, less the global subtractions and the exclusions.
\<close>

definition split_space ::
  "ipv4net list \<Rightarrow> source_contribution list \<Rightarrow> ipv4net list \<Rightarrow> nat set" where
  "split_space manual ss exclusions =
     ((addrs_of manual - source_addrs ss (\<lambda>t. is_scoped t \<and> sc_scope_slug t = Some manual_origin))
      \<union> (\<Union>s \<in> {s \<in> set ss. is_add s}.
            addrs_of (sc_networks s)
            - source_addrs ss (\<lambda>t. is_scoped t \<and> sc_scope_slug t = Some (sc_slug s))))
     - source_addrs ss is_global - addrs_of exclusions"

definition sources_ok :: "source_contribution list \<Rightarrow> bool" where
  "sources_ok ss \<longleftrightarrow> wf_sources ss \<and> distinct (map sc_slug (filter is_add ss))
     \<and> manual_origin \<notin> sc_slug ` set ss"

lemma wf_buckets_start: "wf_nets ns \<Longrightarrow> wf_buckets [(k, collapse ns)]"
  using collapse_canonical(3) [of ns] by (simp add: wf_buckets_def dict_ok_def)

lemma initial_buckets:
  assumes "sources_ok ss" "wf_nets manual"
  shows "wf_buckets (add_buckets ss [(manual_origin, collapse manual)])"
    "bucket_addrs (add_buckets ss [(manual_origin, collapse manual)]) k =
      (if k = manual_origin then addrs_of manual
       else source_addrs ss (\<lambda>s. is_add s \<and> sc_slug s = k))"
proof -
  let ?bs = "[(manual_origin, collapse manual)]"
  have wf: "wf_buckets ?bs"
    by (rule wf_buckets_start [OF assms(2)])
  from assms have "wf_buckets (add_buckets ss ?bs) \<and> bucket_addrs (add_buckets ss ?bs) k =
      bucket_addrs ?bs k \<union> source_addrs ss (\<lambda>s. is_add s \<and> sc_slug s = k)"
    by (intro add_buckets_spec [OF _ wf]) (auto simp: sources_ok_def)
  moreover have "source_addrs ss (\<lambda>s. is_add s \<and> sc_slug s = manual_origin) = {}"
    using assms(1) by (force simp: source_addrs_def sources_ok_def)
  ultimately show "wf_buckets (add_buckets ss ?bs)"
    "bucket_addrs (add_buckets ss ?bs) k = (if k = manual_origin then addrs_of manual
       else source_addrs ss (\<lambda>s. is_add s \<and> sc_slug s = k))"
    using collapse_canonical(2) [OF assms(2)] by (auto simp: bucket_addrs_def)
qed

lemma merge_steps:
  assumes "wf_sources ss" "wf_nets manual" "wf_nets exclusions"
  shows "\<exists>r final bs. merge_split_list manual ss exclusions = Some r
     \<and> scoped_subtract (filter is_scoped ss) (add_buckets ss [(manual_origin, collapse manual)]) = Some bs
     \<and> prefixes r = map net_str final \<and> canonical final
     \<and> addrs_of final = (\<Union>k. bucket_addrs bs k) - source_addrs ss is_global - addrs_of exclusions
     \<and> addresses_after r = card (addrs_of final)
     \<and> addresses_before r =
         card (addrs_of (concat (map snd (add_buckets ss [(manual_origin, collapse manual)]))))"
proof -
  let ?init = "add_buckets ss [(manual_origin, collapse manual)]"
  have init: "wf_buckets ?init"
    using wf_buckets_start [OF assms(2)] by (rule wf_buckets_add [OF assms(1)])
  obtain bs where bs: "scoped_subtract (filter is_scoped ss) ?init = Some bs" "wf_buckets bs"
    using scoped_subtract_spec [OF wf_sources_filter [OF assms(1)] init] by blast
  note all = union_of_buckets [OF bs(2)]
  note first = collapse_canonical [OF all(2)]
  obtain merged where merged: "global_subtract (filter is_global ss) (collapse (concat (map snd bs))) = Some merged"
    "wf_nets merged" "addrs_of merged = (\<Union>k. bucket_addrs bs k) - source_addrs ss is_global"
    using global_subtract_spec [OF wf_sources_filter [OF assms(1)] first(3), of is_global] first(2) all(1)
    by auto
  obtain merged' where merged':
    "(if exclusions = [] then Some merged else subtract_networks merged exclusions) = Some merged'"
    "wf_nets merged'" "addrs_of merged' = addrs_of merged - addrs_of exclusions"
    using subtract_spec [OF merged(2) assms(3)] merged(2) by (cases "exclusions = []") auto
  note final = collapse_canonical [OF merged'(2)]
  obtain r where r: "merge_split_list manual ss exclusions = Some r"
      "prefixes r = map net_str (collapse merged')"
      "addresses_after r = total_addresses (collapse merged')"
      "addresses_before r = total_addresses (collapse (concat (map snd ?init)))"
    by (simp add: merge_split_list_def Let_def bs(1) merged(1) merged'(1))
  from r final merged' merged bs total_addresses_collapse [OF merged'(2)]
    total_addresses_collapse [OF union_of_buckets(2) [OF init]]
  show ?thesis by (intro exI [of _ r] exI [of _ "collapse merged'"] exI [of _ bs]) simp
qed

lemma merge_space:
  assumes "sources_ok ss" "wf_nets manual" "wf_nets exclusions"
  shows "\<exists>r final. merge_split_list manual ss exclusions = Some r
     \<and> prefixes r = map net_str final \<and> canonical final
     \<and> addrs_of final = split_space manual ss exclusions
     \<and> addresses_after r = card (split_space manual ss exclusions)
     \<and> addresses_before r = card (addrs_of manual \<union> source_addrs ss is_add)"
proof -
  let ?init = "add_buckets ss [(manual_origin, collapse manual)]"
  have wf: "wf_sources ss" using assms(1) by (simp add: sources_ok_def)
  note init = initial_buckets [OF assms(1,2)]
  from merge_steps [OF wf assms(2,3)] obtain r final bs where
    r: "merge_split_list manual ss exclusions = Some r" "prefixes r = map net_str final" "canonical final"
      "addrs_of final = (\<Union>k. bucket_addrs bs k) - source_addrs ss is_global - addrs_of exclusions"
      "addresses_after r = card (addrs_of final)"
      "addresses_before r = card (addrs_of (concat (map snd ?init)))"
      "scoped_subtract (filter is_scoped ss) ?init = Some bs" by blast
  have bs: "bucket_addrs bs k = bucket_addrs ?init k
      - source_addrs ss (\<lambda>t. is_scoped t \<and> sc_scope_slug t = Some k)" for k
    using scoped_subtract_spec [OF wf_sources_filter [OF wf] init(1), of is_scoped] r(7) by auto
  have not_manual: "sc_slug s \<noteq> manual_origin" if "s \<in> set ss" for s
    using that assms(1) by (metis sources_ok_def image_eqI)
  have "(\<Union>k. bucket_addrs bs k) =
      (addrs_of manual - source_addrs ss (\<lambda>t. is_scoped t \<and> sc_scope_slug t = Some manual_origin))
      \<union> (\<Union>s \<in> {s \<in> set ss. is_add s}. addrs_of (sc_networks s)
           - source_addrs ss (\<lambda>t. is_scoped t \<and> sc_scope_slug t = Some (sc_slug s)))"
    (is "?l = ?m \<union> ?s")
  proof (intro subset_antisym subsetI)
    fix x assume "x \<in> ?l"
    then obtain k where "x \<in> bucket_addrs bs k" by blast
    then show "x \<in> ?m \<union> ?s"
      by (cases "k = manual_origin") (auto simp: bs init(2) source_addrs_def)
  next
    fix x assume "x \<in> ?m \<union> ?s"
    then consider "x \<in> ?m" | s where "s \<in> set ss" "is_add s" "x \<in> addrs_of (sc_networks s)"
      "x \<notin> source_addrs ss (\<lambda>t. is_scoped t \<and> sc_scope_slug t = Some (sc_slug s))" by blast
    then show "x \<in> ?l"
    proof cases
      case 1
      then have "x \<in> bucket_addrs bs manual_origin" by (simp add: bs init(2))
      then show ?thesis by blast
    next
      case 2
      then have "x \<in> bucket_addrs bs (sc_slug s)"
        using not_manual by (auto simp: bs init(2) source_addrs_def)
      then show ?thesis by blast
    qed
  qed
  moreover have "addrs_of (concat (map snd ?init)) = addrs_of manual \<union> source_addrs ss is_add"
    using not_manual by (auto simp: union_of_buckets(1) [OF init(1)] init(2) source_addrs_def split: if_splits)
  ultimately show ?thesis
    using r by (intro exI [of _ r] exI [of _ final]) (simp add: split_space_def)
qed

text \<open>
  C1: the merge never fails on sources with distinct slugs, and routes exactly the configured
  address space: the reported prefixes are the canonical (minimal, sorted, disjoint) cover of it,
  and the two address counts of the report are its true sizes after and before subtraction.
\<close>

theorem merge_split_list_exact:
  assumes "sources_ok ss" "wf_nets manual" "wf_nets exclusions"
  shows "\<exists>r final. merge_split_list manual ss exclusions = Some r
     \<and> prefixes r = map net_str final \<and> canonical final
     \<and> addrs_of final = split_space manual ss exclusions
     \<and> addresses_after r = card (split_space manual ss exclusions)
     \<and> addresses_before r = card (addrs_of manual \<union> source_addrs ss is_add)"
  by (rule merge_space [OF assms])

text \<open>
  An address that an exclusion or a global subtraction names is in no reported prefix, even
  when the sources collide in their slugs.
\<close>

theorem exclusions_never_routed:
  assumes "wf_sources ss" "wf_nets manual" "wf_nets exclusions"
    "merge_split_list manual ss exclusions = Some r" "p \<in> set (prefixes r)"
    "ip_network v6 False p = Some (V4 n)"
  shows "addrs n \<inter> (addrs_of exclusions \<union> source_addrs ss is_global) = {}"
proof -
  from merge_steps [OF assms(1-3)] assms(4) obtain final bs where
    final: "prefixes r = map net_str final" "canonical final"
      "addrs_of final = (\<Union>k. bucket_addrs bs k) - source_addrs ss is_global - addrs_of exclusions"
    by auto
  with assms(5) obtain m where m: "m \<in> set final" "p = net_str m" by auto
  then have "wf_net m" using final(2) by (simp add: canonical_def)
  then have "n = m" using assms(6) m(2) by simp
  with m(1) have "addrs n \<subseteq> addrs_of final" by (auto simp: addrs_of_def)
  with final(3) show ?thesis by auto
qed

text \<open>
  The routed list does not depend on the order in which the sources or the networks of the
  manual list and of the exclusions are given.
\<close>

theorem merge_order_irrelevant:
  assumes "sources_ok ss" "sources_ok ss'" "wf_nets manual" "wf_nets exclusions"
    "set ss' = set ss" "set manual' = set manual" "set exclusions' = set exclusions"
  shows "map_option prefixes (merge_split_list manual' ss' exclusions')
    = map_option prefixes (merge_split_list manual ss exclusions)"
proof -
  have "source_addrs ss' P = source_addrs ss P" for P
    using assms(5) by (simp add: source_addrs_def)
  then have space: "split_space manual' ss' exclusions' = split_space manual ss exclusions"
    using assms(5-7) by (simp add: split_space_def addrs_of_def)
  have wf: "wf_nets manual'" "wf_nets exclusions'"
    using assms(3,4,6,7) by (simp_all add: wf_nets_def)
  from merge_space [OF assms(1,3,4)] obtain r final where
    r: "merge_split_list manual ss exclusions = Some r" "prefixes r = map net_str final"
      "canonical final" "addrs_of final = split_space manual ss exclusions" by blast
  from merge_space [OF assms(2) wf] obtain r' final' where
    r': "merge_split_list manual' ss' exclusions' = Some r'" "prefixes r' = map net_str final'"
      "canonical final'" "addrs_of final' = split_space manual ss exclusions"
    unfolding space by blast
  have "final' = final"
    using canonical_unique [OF r'(3) r(3)] r(4) r'(4) by simp
  with r r' show ?thesis by simp
qed

section \<open>Witnesses\<close>

definition ten_net :: ipv4net where "ten_net = (Net 167772160 8)"
definition ten_one :: ipv4net where "ten_one = (Net 167837696 16)"

definition demo_sources :: "source_contribution list" where
  "demo_sources =
     [\<lparr>sc_slug = ''goog'', sc_mode = ''add'', sc_networks = [ten_net], sc_scope_slug = None\<rparr>,
      \<lparr>sc_slug = ''cloud'', sc_mode = ''subtract'', sc_networks = [ten_one], sc_scope_slug = Some ''goog''\<rparr>]"

lemma demo_wf [simp]: "wf_net ten_net" "wf_net ten_one"
  by (simp_all add: ten_net_def ten_one_def wf_net_def num_addresses_def)

lemma demo_sources_ok [simp]: "sources_ok demo_sources" "wf_sources demo_sources"
  by (simp_all add: sources_ok_def demo_sources_def is_add_def manual_origin_def)

lemma subtract_networks_witness:
  "\<exists>r. subtract_networks [ten_net] [ten_one, ten_one] = Some r \<and> wf_nets r
     \<and> addrs_of r = addrs_of [ten_net] - addrs_of [ten_one, ten_one]"
  by (rule subtract_networks_exact) simp_all

lemma merge_split_list_witness:
  "\<exists>r final. merge_split_list [ten_one] demo_sources [] = Some r
     \<and> prefixes r = map net_str final \<and> canonical final
     \<and> addrs_of final = split_space [ten_one] demo_sources []
     \<and> addresses_after r = card (split_space [ten_one] demo_sources [])
     \<and> addresses_before r = card (addrs_of [ten_one] \<union> source_addrs demo_sources is_add)"
  by (rule merge_split_list_exact) simp_all

definition zero_net :: ipv4net where "zero_net = Net 0 8"

lemma zero_net_apart: "wf_net zero_net" "addrs ten_net \<inter> addrs zero_net = {}"
  by (auto simp: zero_net_def ten_net_def wf_net_def addrs_def num_addresses_def)

lemma demo_routed:
  "\<exists>r. merge_split_list [ten_net] [] [zero_net] = Some r \<and> net_str ten_net \<in> set (prefixes r)"
proof -
  have "split_space [ten_net] [] [zero_net] = addrs_of [ten_net]"
    using zero_net_apart(2) by (auto simp: split_space_def source_addrs_def)
  moreover have "canonical [ten_net]"
    by (simp add: canonical_def)
  moreover obtain r final where "merge_split_list [ten_net] [] [zero_net] = Some r"
    "prefixes r = map net_str final" "canonical final" "addrs_of final = split_space [ten_net] [] [zero_net]"
    using merge_space [of "[]" "[ten_net]" "[zero_net]"] zero_net_apart(1) by (auto simp: sources_ok_def)
  ultimately show ?thesis
    using canonical_unique by force
qed

lemma exclusions_never_routed_witness:
  "addrs ten_net \<inter> (addrs_of [zero_net] \<union> source_addrs [] is_global) = {}"
proof -
  obtain r where r: "merge_split_list [ten_net] [] [zero_net] = Some r" "net_str ten_net \<in> set (prefixes r)"
    using demo_routed by blast
  show ?thesis
    by (rule exclusions_never_routed [OF _ _ _ r, of "\<lambda>_. False"]) (simp_all add: zero_net_apart(1))
qed

lemma merge_order_irrelevant_witness:
  "map_option prefixes (merge_split_list [ten_one, ten_one] (rev demo_sources) [])
   = map_option prefixes (merge_split_list [ten_one] demo_sources [])"
  by (rule merge_order_irrelevant)
    (simp_all add: sources_ok_def demo_sources_def is_add_def manual_origin_def insert_commute)

end
