(* ===== verification/Split_Analysis.thy ===== *)
theory Split_Analysis
  imports Split_Merge
begin

text \<open>
  \<open>warp/split_analysis.py\<close>: the ratchet that decides whether a candidate split list may be
  applied unattended. Percentages are exact rationals: with counts of at most \<open>2 ^ 32\<close> addresses
  and integer thresholds the float comparison of the code has the same outcome. SHA-256 is the
  argument \<open>sha\<close>.
\<close>

datatype hold_code =
    ShrinkAdd | ShrinkSubtract | Growth | EmptySource | StaleSource | Streak | ReviewMode

record thresholds =
  max_shrink_pct :: int
  max_growth_pct :: int
  stale_after_sec :: int

definition default_thresholds :: thresholds where
  "default_thresholds = \<lparr>max_shrink_pct = 20, max_growth_pct = 50, stale_after_sec = 259200\<rparr>"

record coverage =
  cov_prefixes :: int
  cov_addresses :: int

definition cov_empty :: "coverage \<Rightarrow> bool" where
  "cov_empty c \<longleftrightarrow> cov_prefixes c = 0"

record source_state =
  ss_slug :: string
  ss_mode :: string
  ss_coverage :: coverage
  ss_age_sec :: "int option"
  ss_empty_parse :: bool

record hold =
  h_code :: hold_code
  h_slug :: "string option"
  h_pct :: rat
  h_before :: int
  h_after :: int

definition hold_code_text :: "hold_code \<Rightarrow> string" where
  "hold_code_text c = (case c of
     ShrinkAdd \<Rightarrow> ''shrink-add'' | ShrinkSubtract \<Rightarrow> ''shrink-subtract'' | Growth \<Rightarrow> ''growth''
   | EmptySource \<Rightarrow> ''empty-source'' | StaleSource \<Rightarrow> ''stale-source'' | Streak \<Rightarrow> ''streak''
   | ReviewMode \<Rightarrow> ''review-mode'')"

definition hold_key :: "hold \<Rightarrow> string" where
  "hold_key h = (case h_slug h of None \<Rightarrow> hold_code_text (h_code h)
     | Some slug \<Rightarrow> hold_code_text (h_code h) @ '':'' @ slug)"

record source_change =
  ch_slug :: string
  ch_mode :: string
  ch_before :: "coverage option"
  ch_after :: coverage
  ch_age_sec :: "int option"
  ch_stale :: bool

definition shrink_pct :: "source_change \<Rightarrow> rat" where
  "shrink_pct c = (case ch_before c of None \<Rightarrow> 0
     | Some b \<Rightarrow> if cov_addresses b \<le> 0 then 0
         else max 0 (100 * of_int (cov_addresses b - cov_addresses (ch_after c)) / of_int (cov_addresses b)))"

definition growth_pct :: "source_change \<Rightarrow> rat" where
  "growth_pct c = (case ch_before c of None \<Rightarrow> 0
     | Some b \<Rightarrow> if cov_addresses b \<le> 0 then 0
         else max 0 (100 * of_int (cov_addresses (ch_after c) - cov_addresses b) / of_int (cov_addresses b)))"

record change_analysis =
  ca_prefixes_before :: int
  ca_prefixes_after :: int
  ca_addresses_before :: int
  ca_addresses_after :: int
  ca_list_hash :: string
  ca_added :: "string list"
  ca_removed :: "string list"
  ca_sources :: "source_change list"
  ca_holds :: "hold list"
  ca_baseline_addresses :: "int option"
  ca_baseline_prefixes :: "int option"
  ca_same_space :: bool

definition identical :: "change_analysis \<Rightarrow> bool" where
  "identical a \<longleftrightarrow> ca_added a = [] \<and> ca_removed a = []"

definition pure_aggregation :: "change_analysis \<Rightarrow> bool" where
  "pure_aggregation a \<longleftrightarrow> \<not> identical a \<and> ca_same_space a"

definition suspicious :: "change_analysis \<Rightarrow> bool" where
  "suspicious a \<longleftrightarrow> ca_holds a \<noteq> []"

definition delta_prefixes :: "change_analysis \<Rightarrow> int" where
  "delta_prefixes a = ca_prefixes_after a - ca_prefixes_before a"

definition delta_addresses :: "change_analysis \<Rightarrow> int" where
  "delta_addresses a = ca_addresses_after a - ca_addresses_before a"

definition hold_keys :: "change_analysis \<Rightarrow> string list" where
  "hold_keys a = map hold_key (ca_holds a)"

section \<open>The analysis\<close>

fun readable_networks :: "(string \<Rightarrow> bool) \<Rightarrow> string list \<Rightarrow> ipv4net list" where
  "readable_networks v6 [] = []"
| "readable_networks v6 (item # rest) =
     (case ip_network v6 False item of
        Some (V4 n) \<Rightarrow> n # readable_networks v6 rest
      | _ \<Rightarrow> readable_networks v6 rest)"

definition collapsed_networks :: "(string \<Rightarrow> bool) \<Rightarrow> string list \<Rightarrow> ipv4net list" where
  "collapsed_networks v6 ps = collapse (readable_networks v6 ps)"

definition measure_of :: "ipv4net list \<Rightarrow> coverage" where
  "measure_of ns = \<lparr>cov_prefixes = int (length ns), cov_addresses = int (total_addresses ns)\<rparr>"

definition coverage_of :: "(string \<Rightarrow> bool) \<Rightarrow> string list \<Rightarrow> coverage" where
  "coverage_of v6 ps = measure_of (collapsed_networks v6 ps)"

definition list_hash :: "(string \<Rightarrow> string) \<Rightarrow> string list \<Rightarrow> string" where
  "list_hash sha ps = sha (join [CHR 0x0A] (sort (remdups ps)))"

definition source_stale :: "thresholds \<Rightarrow> coverage option \<Rightarrow> source_state \<Rightarrow> bool" where
  "source_stale th baseline s \<longleftrightarrow>
     (case ss_age_sec s of None \<Rightarrow> True | Some age \<Rightarrow> age > stale_after_sec th) \<and> baseline \<noteq> None"

definition source_change_of :: "thresholds \<Rightarrow> coverage option \<Rightarrow> source_state \<Rightarrow> source_change" where
  "source_change_of th baseline s =
     \<lparr>ch_slug = ss_slug s, ch_mode = ss_mode s, ch_before = baseline, ch_after = ss_coverage s,
      ch_age_sec = ss_age_sec s, ch_stale = source_stale th baseline s\<rparr>"

definition baseline_addresses :: "coverage option \<Rightarrow> int" where
  "baseline_addresses baseline = (case baseline of None \<Rightarrow> 0 | Some b \<Rightarrow> cov_addresses b)"

definition source_holds :: "thresholds \<Rightarrow> coverage option \<Rightarrow> source_state \<Rightarrow> hold list" where
  "source_holds th baseline s =
     (let change = source_change_of th baseline s
      in (if ss_empty_parse s \<or> cov_empty (ss_coverage s) \<and> baseline \<noteq> None
          then [\<lparr>h_code = EmptySource, h_slug = Some (ss_slug s), h_pct = 0,
                 h_before = baseline_addresses baseline, h_after = cov_addresses (ss_coverage s)\<rparr>]
          else if shrink_pct change > of_int (max_shrink_pct th)
          then [\<lparr>h_code = (if ss_mode s = ''subtract'' then ShrinkSubtract else ShrinkAdd),
                 h_slug = Some (ss_slug s), h_pct = shrink_pct change,
                 h_before = baseline_addresses baseline, h_after = cov_addresses (ss_coverage s)\<rparr>]
          else [])
         @ (if ch_stale change
            then [\<lparr>h_code = StaleSource, h_slug = Some (ss_slug s), h_pct = 0,
                   h_before = (case ss_age_sec s of None \<Rightarrow> -1 | Some age \<Rightarrow> age),
                   h_after = stale_after_sec th\<rparr>]
            else []))"

definition list_holds :: "thresholds \<Rightarrow> coverage option \<Rightarrow> int \<Rightarrow> hold list" where
  "list_holds th list_baseline after =
     (case list_baseline of None \<Rightarrow> []
      | Some b \<Rightarrow>
          if cov_addresses b > 0
          then (let growth = 100 * of_int (after - cov_addresses b) / of_int (cov_addresses b) :: rat
                in if growth > of_int (max_growth_pct th)
                   then [\<lparr>h_code = Growth, h_slug = None, h_pct = growth,
                          h_before = cov_addresses b, h_after = after\<rparr>]
                   else [])
          else [])"

definition analyse_change ::
  "(string \<Rightarrow> bool) \<Rightarrow> (string \<Rightarrow> string) \<Rightarrow> string list \<Rightarrow> string list \<Rightarrow> source_state list
    \<Rightarrow> (string \<rightharpoonup> coverage) \<Rightarrow> thresholds \<Rightarrow> string \<Rightarrow> change_analysis" where
  "analyse_change v6 sha current candidate sources baselines th list_key =
     (let before_nets = collapsed_networks v6 current;
          after_nets = collapsed_networks v6 candidate;
          list_baseline = baselines list_key
      in \<lparr>ca_prefixes_before = int (length current),
          ca_prefixes_after = int (length candidate),
          ca_addresses_before = cov_addresses (measure_of before_nets),
          ca_addresses_after = cov_addresses (measure_of after_nets),
          ca_list_hash = list_hash sha candidate,
          ca_added = sort (remdups (filter (\<lambda>p. p \<notin> set current) candidate)),
          ca_removed = sort (remdups (filter (\<lambda>p. p \<notin> set candidate) current)),
          ca_sources = map (\<lambda>s. source_change_of th (baselines (ss_slug s)) s) sources,
          ca_holds = concat (map (\<lambda>s. source_holds th (baselines (ss_slug s)) s) sources)
                     @ list_holds th list_baseline (cov_addresses (measure_of after_nets)),
          ca_baseline_addresses = map_option cov_addresses list_baseline,
          ca_baseline_prefixes = map_option cov_prefixes list_baseline,
          ca_same_space = (before_nets = after_nets)\<rparr>)"

definition with_hold :: "change_analysis \<Rightarrow> hold \<Rightarrow> change_analysis" where
  "with_hold a h = a\<lparr>ca_holds := ca_holds a @ [h]\<rparr>"

section \<open>Properties\<close>

text \<open>The address space a list of prefix texts covers.\<close>

definition text_space :: "(string \<Rightarrow> bool) \<Rightarrow> string list \<Rightarrow> nat set" where
  "text_space v6 ps = (\<Union>p \<in> set ps. case ip_network v6 False p of Some (V4 n) \<Rightarrow> addrs n | _ \<Rightarrow> {})"

lemma readable_networks_spec:
  "wf_nets (readable_networks v6 ps) \<and> addrs_of (readable_networks v6 ps) = text_space v6 ps"
  by (induction v6 ps rule: readable_networks.induct)
    (auto simp: text_space_def dest: ip_network_wf split: option.splits ip_network.splits)

lemma collapsed_networks_spec:
  "canonical (collapsed_networks v6 ps)" "addrs_of (collapsed_networks v6 ps) = text_space v6 ps"
  "total_addresses (collapsed_networks v6 ps) = card (text_space v6 ps)"
  using collapse_canonical [of "readable_networks v6 ps"] readable_networks_spec [of v6 ps]
    total_addresses_collapse [of "readable_networks v6 ps"]
  by (simp_all add: collapsed_networks_def)

lemma source_holds_Nil:
  "source_holds th baseline s = [] \<longleftrightarrow> \<not> ss_empty_parse s \<and>
     (\<forall>b. baseline = Some b \<longrightarrow> cov_prefixes (ss_coverage s) \<noteq> 0
        \<and> shrink_pct (source_change_of th baseline s) \<le> of_int (max_shrink_pct th)
        \<and> (\<exists>age. ss_age_sec s = Some age \<and> age \<le> stale_after_sec th))
     \<and> (baseline = None \<longrightarrow> 0 \<le> max_shrink_pct th)"
  by (cases baseline; cases "ss_age_sec s")
    (auto simp: source_holds_def Let_def source_change_of_def source_stale_def cov_empty_def shrink_pct_def)

lemma pct_le_iff:
  assumes "0 < b"
  shows "100 * of_int (b - a) / of_int b \<le> (of_int t :: rat) \<longleftrightarrow> 100 * (b - a) \<le> t * b"
proof -
  have "100 * of_int (b - a) / of_int b \<le> (of_int t :: rat) \<longleftrightarrow> (of_int (100 * (b - a)) :: rat) \<le> of_int (t * b)"
    using assms by (simp add: divide_le_eq)
  then show ?thesis by (simp only: of_int_le_iff)
qed

lemma shrink_pct_le:
  assumes "0 \<le> t" "0 \<le> cov_addresses b"
  shows "shrink_pct (source_change_of th (Some b) s) \<le> of_int t
    \<longleftrightarrow> 100 * (cov_addresses b - cov_addresses (ss_coverage s)) \<le> t * cov_addresses b
        \<or> cov_addresses b = 0"
  using assms pct_le_iff [of "cov_addresses b" "cov_addresses (ss_coverage s)" t]
  by (auto simp: shrink_pct_def source_change_of_def not_le)

lemma list_holds_Nil:
  "list_holds th lb after = [] \<longleftrightarrow>
     (\<forall>b. lb = Some b \<longrightarrow> 0 < cov_addresses b \<longrightarrow>
        100 * (after - cov_addresses b) \<le> max_growth_pct th * cov_addresses b)"
proof (cases lb)
  case None
  then show ?thesis by (simp add: list_holds_def)
next
  case (Some b)
  have "100 * of_int (after - cov_addresses b) / of_int (cov_addresses b) \<le> (of_int (max_growth_pct th) :: rat)
      \<longleftrightarrow> 100 * (after - cov_addresses b) \<le> max_growth_pct th * cov_addresses b" if "0 < cov_addresses b"
  proof -
    have "100 * of_int (after - cov_addresses b) / of_int (cov_addresses b) \<le> (of_int (max_growth_pct th) :: rat)
      \<longleftrightarrow> (of_int (100 * (after - cov_addresses b)) :: rat) \<le> of_int (max_growth_pct th * cov_addresses b)"
      using that by (simp add: divide_le_eq)
    then show ?thesis by (simp only: of_int_le_iff)
  qed
  with Some show ?thesis by (auto simp: list_holds_def Let_def not_less [symmetric])
qed

text \<open>
  The analyser lets a change pass unattended exactly when the routed space has not grown
  past its threshold against the applied baseline and every source published something and, if
  it has a baseline, is fresh, not empty and has not lost more than its threshold of addresses.
\<close>

theorem unattended_iff_within_thresholds:
  assumes "0 \<le> max_shrink_pct th"
    "\<forall>s \<in> set sources. \<forall>b. baselines (ss_slug s) = Some b \<longrightarrow> 0 \<le> cov_addresses b"
  shows "\<not> suspicious (analyse_change v6 sha current candidate sources baselines th list_key) \<longleftrightarrow>
    (\<forall>s \<in> set sources. \<not> ss_empty_parse s \<and>
      (\<forall>b. baselines (ss_slug s) = Some b \<longrightarrow>
         cov_prefixes (ss_coverage s) \<noteq> 0
         \<and> (100 * (cov_addresses b - cov_addresses (ss_coverage s)) \<le> max_shrink_pct th * cov_addresses b
            \<or> cov_addresses b = 0)
         \<and> (\<exists>age. ss_age_sec s = Some age \<and> age \<le> stale_after_sec th)))
    \<and> (\<forall>b. baselines list_key = Some b \<longrightarrow> 0 < cov_addresses b \<longrightarrow>
         100 * (int (card (text_space v6 candidate)) - cov_addresses b) \<le> max_growth_pct th * cov_addresses b)"
proof -
  have "source_holds th (baselines (ss_slug s)) s = [] \<longleftrightarrow> \<not> ss_empty_parse s \<and>
      (\<forall>b. baselines (ss_slug s) = Some b \<longrightarrow>
         cov_prefixes (ss_coverage s) \<noteq> 0
         \<and> (100 * (cov_addresses b - cov_addresses (ss_coverage s)) \<le> max_shrink_pct th * cov_addresses b
            \<or> cov_addresses b = 0)
         \<and> (\<exists>age. ss_age_sec s = Some age \<and> age \<le> stale_after_sec th))" if "s \<in> set sources" for s
    using assms that shrink_pct_le [OF assms(1), of _ th s] unfolding source_holds_Nil by auto
  then show ?thesis
    by (auto simp: suspicious_def analyse_change_def Let_def measure_of_def collapsed_networks_spec(3)
        list_holds_Nil)
qed

text \<open>
  \<open>same_space\<close> says exactly that both lists cover the same addresses, and the two address
  counts are the true sizes, whatever way the prefixes are cut, repeated or ordered.
\<close>

theorem same_space_iff:
  "(ca_same_space (analyse_change v6 sha current candidate sources baselines th list_key)
      \<longleftrightarrow> text_space v6 current = text_space v6 candidate)
   \<and> ca_addresses_before (analyse_change v6 sha current candidate sources baselines th list_key)
      = int (card (text_space v6 current))
   \<and> ca_addresses_after (analyse_change v6 sha current candidate sources baselines th list_key)
      = int (card (text_space v6 candidate))"
  using canonical_unique [OF collapsed_networks_spec(1) [of v6 current] collapsed_networks_spec(1) [of v6 candidate]]
  by (simp add: analyse_change_def Let_def measure_of_def collapsed_networks_spec(2,3))

lemma list_hash_set: "set ps = set qs \<Longrightarrow> list_hash sha ps = list_hash sha qs"
  by (metis list_hash_def sorted_list_of_set_sort_remdups)

text \<open>
  A candidate with the entries of the current list, in any order and with any repetition,
  is identical, re-cuts the same space, and hashes to the same value as the current list.
\<close>

theorem identical_iff_same_entries:
  "(identical (analyse_change v6 sha current candidate sources baselines th list_key)
      \<longleftrightarrow> set current = set candidate)
   \<and> (set current = set candidate \<longrightarrow>
       ca_list_hash (analyse_change v6 sha current candidate sources baselines th list_key) = list_hash sha current
       \<and> ca_same_space (analyse_change v6 sha current candidate sources baselines th list_key))"
proof -
  have "text_space v6 current = text_space v6 candidate" if "set current = set candidate"
    using that by (simp add: text_space_def)
  moreover have "collapsed_networks v6 current = collapsed_networks v6 candidate"
    if "text_space v6 current = text_space v6 candidate"
    using that canonical_unique collapsed_networks_spec by metis
  moreover have "sort (remdups ps) = [] \<longleftrightarrow> ps = []" for ps :: "string list"
    by (metis remdups_eq_nil_iff set_empty set_sort)
  moreover have "(filter (\<lambda>p. p \<notin> set current) candidate = [] \<and> filter (\<lambda>p. p \<notin> set candidate) current = [])
      \<longleftrightarrow> set current = set candidate"
    by (auto simp: filter_empty_conv)
  ultimately show ?thesis
    using list_hash_set [of current candidate sha]
    by (auto simp: identical_def analyse_change_def Let_def)
qed

section \<open>Witnesses\<close>

definition demo_state :: source_state where
  "demo_state = \<lparr>ss_slug = ''goog'', ss_mode = ''add'',
     ss_coverage = \<lparr>cov_prefixes = 1, cov_addresses = 90\<rparr>, ss_age_sec = Some 10, ss_empty_parse = False\<rparr>"

definition demo_baselines :: "string \<rightharpoonup> coverage" where
  "demo_baselines = [''goog'' \<mapsto> \<lparr>cov_prefixes = 1, cov_addresses = 100\<rparr>]"

lemma unattended_iff_within_thresholds_witness:
  "\<not> suspicious (analyse_change (\<lambda>_. False) id [] [] [demo_state] demo_baselines default_thresholds ''list'')"
  by (subst unattended_iff_within_thresholds) (simp_all add: default_thresholds_def demo_state_def demo_baselines_def)

lemma identical_iff_same_entries_witness:
  "ca_same_space (analyse_change (\<lambda>_. False) id [''10.0.0.0/8'', ''x''] [''x'', ''10.0.0.0/8''] []
     demo_baselines default_thresholds ''list'')"
  using identical_iff_same_entries [of "\<lambda>_. False" id "[''10.0.0.0/8'', ''x'']" "[''x'', ''10.0.0.0/8'']"
      "[]" demo_baselines default_thresholds "''list''"] by auto

end
