(* ===== verification/Health_Latch.thy ===== *)
theory Health_Latch
  imports Prelude
begin

text \<open>
  The up/down latch that \<open>warp/health.py\<close> and \<open>services/relay_health.py\<close> share: the interface
  (a monitor whose checks move a time-based latch by what the probe answered) and what every
  such monitor guarantees over a whole run of checks. The two monitors interpret it.
\<close>

record latch =
  l_healthy :: bool
  l_fail_since :: "rat option"
  l_success_since :: "rat option"

definition fresh_latch :: "bool \<Rightarrow> latch" where
  "fresh_latch b = \<lparr>l_healthy = b, l_fail_since = None, l_success_since = None\<rparr>"

definition since :: "rat option \<Rightarrow> rat \<Rightarrow> rat" where
  "since t now = (case t of None \<Rightarrow> now | Some u \<Rightarrow> u)"

definition latch_step :: "rat \<Rightarrow> rat \<Rightarrow> rat \<times> bool \<Rightarrow> latch \<Rightarrow> latch" where
  "latch_step fail_window recover_window probe l =
     (case probe of (now, ok) \<Rightarrow>
        if ok
        then (let start = since (l_success_since l) now
              in \<lparr>l_healthy = (l_healthy l \<or> now - start \<ge> recover_window),
                  l_fail_since = None, l_success_since = Some start\<rparr>)
        else (let start = since (l_fail_since l) now
              in \<lparr>l_healthy = (l_healthy l \<and> \<not> now - start \<ge> fail_window),
                  l_fail_since = Some start, l_success_since = None\<rparr>))"

section \<open>The reference: the latch as a function of the history of probes\<close>

text \<open>
  A history is the list of probes, newest first. \<open>run_start\<close> is the time of the oldest probe of
  the uninterrupted run of equal answers the newest probe belongs to.
\<close>

fun run_start :: "(rat \<times> bool) list \<Rightarrow> rat" where
  "run_start [] = 0"
| "run_start [(t, ok)] = t"
| "run_start ((t, ok) # (u, ok') # h) = (if ok' = ok then run_start ((u, ok') # h) else t)"

fun latch_ref :: "rat \<Rightarrow> rat \<Rightarrow> bool \<Rightarrow> (rat \<times> bool) list \<Rightarrow> bool" where
  "latch_ref fw rw b [] = b"
| "latch_ref fw rw b ((t, ok) # h) =
     (if ok then latch_ref fw rw b h \<or> t - run_start ((t, ok) # h) \<ge> rw
      else latch_ref fw rw b h \<and> \<not> t - run_start ((t, ok) # h) \<ge> fw)"

definition latch_of_history :: "rat \<Rightarrow> rat \<Rightarrow> bool \<Rightarrow> (rat \<times> bool) list \<Rightarrow> latch" where
  "latch_of_history fw rw b h =
     \<lparr>l_healthy = latch_ref fw rw b h,
      l_fail_since = (case h of [] \<Rightarrow> None | (t, ok) # _ \<Rightarrow> if ok then None else Some (run_start h)),
      l_success_since = (case h of [] \<Rightarrow> None | (t, ok) # _ \<Rightarrow> if ok then Some (run_start h) else None)\<rparr>"

lemma latch_step_history:
  "latch_step fw rw (t, ok) (latch_of_history fw rw b h) = latch_of_history fw rw b ((t, ok) # h)"
proof (cases h)
  case Nil
  then show ?thesis by (simp add: latch_step_def latch_of_history_def since_def)
next
  case (Cons p h')
  then show ?thesis
    by (cases p) (auto simp: latch_step_def latch_of_history_def since_def Let_def)
qed

lemma fold_latch_step:
  "fold (latch_step fw rw) obs (latch_of_history fw rw b h) = latch_of_history fw rw b (rev obs @ h)"
  by (induction obs arbitrary: h) (auto simp: latch_step_history)

lemma fresh_latch_history: "fresh_latch b = latch_of_history fw rw b []"
  by (simp add: fresh_latch_def latch_of_history_def)

text \<open>The run the newest probe belongs to.\<close>

lemma run_start_suffix:
  "h \<noteq> [] \<Longrightarrow> \<exists>n. 0 < n \<and> n \<le> length h \<and> (\<forall>p \<in> set (take n h). snd p = snd (hd h))
     \<and> run_start h = fst (h ! (n - 1))"
proof (induction h rule: run_start.induct)
  case 1
  then show ?case by simp
next
  case (2 t ok)
  then show ?case by (intro exI [of _ 1]) simp
next
  case (3 t ok u ok' h)
  show ?case
  proof (cases "ok' = ok")
    case True
    with 3(1) obtain n where n: "0 < n" "n \<le> length ((u, ok') # h)"
      "\<forall>p \<in> set (take n ((u, ok') # h)). snd p = snd (hd ((u, ok') # h))"
      "run_start ((u, ok') # h) = fst (((u, ok') # h) ! (n - 1))"
      by blast
    have "((t, ok) # (u, ok') # h) ! (Suc n - 1) = ((u, ok') # h) ! (n - 1)"
      using n(1) by (cases n) auto
    with True n show ?thesis by (intro exI [of _ "Suc n"]) auto
  next
    case False
    then show ?thesis by (intro exI [of _ 1]) simp
  qed
qed

lemma run_start_le:
  assumes "sorted_wrt (\<lambda>p q. fst q \<le> fst p) h" "0 < n" "n \<le> length h"
    "\<forall>p \<in> set (take n h). snd p = ok"
  shows "run_start h \<le> fst (h ! (n - 1))"
  using assms
proof (induction h arbitrary: n rule: run_start.induct)
  case 1
  then show ?case by simp
next
  case (2 t ok')
  then show ?case by (cases n) auto
next
  case (3 t ok1 u ok2 h)
  show ?case
  proof (cases n)
    case 0
    then show ?thesis using 3 by simp
  next
    case (Suc m)
    show ?thesis
    proof (cases "0 < m")
      case True
      then have "ok2 = ok1" using 3(5) Suc by (cases m) auto
      with 3(1) [of m] 3(2-5) Suc True show ?thesis by (cases m) auto
    next
      case False
      have "run_start ((u, ok2) # h) \<le> u" if "ok2 = ok1"
        using 3(1) [OF that, of 1] 3(2,5) by (cases n) (use that Suc in auto)
      with False Suc 3(2) show ?thesis by auto
    qed
  qed
qed

text \<open>A flip needs an uninterrupted run of answers as long as the window; such a run suffices.\<close>

definition sustained :: "bool \<Rightarrow> rat \<Rightarrow> (rat \<times> bool) list \<Rightarrow> bool" where
  "sustained ok w h \<longleftrightarrow> (\<exists>n. 0 < n \<and> n \<le> length h \<and> (\<forall>p \<in> set (take n h). snd p = ok)
      \<and> fst (hd h) - fst (h ! (n - 1)) \<ge> w)"

lemma sustained_run:
  assumes "h \<noteq> []" "snd (hd h) = ok" "fst (hd h) - run_start h \<ge> w"
  shows "sustained ok w h"
  using run_start_suffix [OF assms(1)] assms(2,3) unfolding sustained_def by metis

lemma run_sustained:
  assumes "sorted_wrt (\<lambda>p q. fst q \<le> fst p) h" "sustained ok w h"
  shows "h \<noteq> []" "snd (hd h) = ok" "fst (hd h) - run_start h \<ge> w"
proof -
  from assms(2) obtain n where n: "0 < n" "n \<le> length h" "\<forall>p \<in> set (take n h). snd p = ok"
    "fst (hd h) - fst (h ! (n - 1)) \<ge> w" by (auto simp: sustained_def)
  then show "h \<noteq> []" by auto
  with n(1,3) show "snd (hd h) = ok" by (cases h; cases n) auto
  show "fst (hd h) - run_start h \<ge> w"
    using run_start_le [OF assms(1) n(1-3)] n(4) by linarith
qed

lemma latch_goes_down:
  "latch_ref fw rw b h \<Longrightarrow> \<not> latch_ref fw rw b (p # h) \<Longrightarrow> sustained False fw (p # h)"
  by (cases p) (auto intro!: sustained_run split: if_splits)

lemma latch_comes_up:
  "\<not> latch_ref fw rw b h \<Longrightarrow> latch_ref fw rw b (p # h) \<Longrightarrow> sustained True rw (p # h)"
  by (cases p) (auto intro!: sustained_run split: if_splits)

lemma latch_down_if_sustained:
  assumes "sorted_wrt (\<lambda>p q. fst q \<le> fst p) h" "sustained False fw h"
  shows "\<not> latch_ref fw rw b h"
  using run_sustained [OF assms] by (cases h) auto

lemma latch_up_if_sustained:
  assumes "sorted_wrt (\<lambda>p q. fst q \<le> fst p) h" "sustained True rw h"
  shows "latch_ref fw rw b h"
  using run_sustained [OF assms] by (cases h) auto

section \<open>The interface of a monitor\<close>

text \<open>
  \<open>check\<close> is one iteration of the monitor, \<open>latch_of\<close> the latch in its state, \<open>probe_of\<close> the
  time and answer of the probe in an input (\<open>None\<close> if the iteration died before it answered).
\<close>

locale health_monitor =
  fixes check :: "'i \<Rightarrow> 's \<Rightarrow> 's"
    and latch_of :: "'s \<Rightarrow> latch"
    and probe_of :: "'i \<Rightarrow> (rat \<times> bool) option"
    and fail_window :: rat
    and recover_window :: rat
  assumes check_latch: "latch_of (check i s) =
    (case probe_of i of None \<Rightarrow> latch_of s
     | Some p \<Rightarrow> latch_step fail_window recover_window p (latch_of s))"
begin

definition history :: "'i list \<Rightarrow> (rat \<times> bool) list" where
  "history is = rev (List.map_filter probe_of is)"

lemma latch_of_run:
  "latch_of (fold check is s) =
     fold (latch_step fail_window recover_window) (List.map_filter probe_of is) (latch_of s)"
  by (induction "is" arbitrary: s) (auto simp: check_latch map_filter_simps split: option.split)

lemma healthy_run:
  assumes "latch_of s = fresh_latch b"
  shows "l_healthy (latch_of (fold check is s)) = latch_ref fail_window recover_window b (history is)"
  using fold_latch_step [of fail_window recover_window _ b "[]"]
  by (simp add: latch_of_run assms fresh_latch_history [of b fail_window recover_window]
      latch_of_history_def history_def)

lemma down_needs_sustained_failure:
  assumes "latch_of s = fresh_latch b" "l_healthy (latch_of (fold check is s))"
    "\<not> l_healthy (latch_of (check i (fold check is s)))"
  shows "sustained False fail_window (history (is @ [i]))"
proof -
  have "fold check (is @ [i]) s = check i (fold check is s)" by simp
  then have after: "\<not> latch_ref fail_window recover_window b (history (is @ [i]))"
    using assms(3) healthy_run [OF assms(1), of "is @ [i]"] by simp
  have "probe_of i \<noteq> None"
    using assms(2,3) check_latch [of i "fold check is s"] by (auto split: option.splits)
  then obtain p where "history (is @ [i]) = p # history is"
    by (auto simp: history_def map_filter_def)
  with after assms(2) healthy_run [OF assms(1), of "is"] show ?thesis
    by (metis latch_goes_down)
qed

lemma up_needs_sustained_success:
  assumes "latch_of s = fresh_latch b" "\<not> l_healthy (latch_of (fold check is s))"
    "l_healthy (latch_of (check i (fold check is s)))"
  shows "sustained True recover_window (history (is @ [i]))"
proof -
  have "fold check (is @ [i]) s = check i (fold check is s)" by simp
  then have after: "latch_ref fail_window recover_window b (history (is @ [i]))"
    using assms(3) healthy_run [OF assms(1), of "is @ [i]"] by simp
  have "probe_of i \<noteq> None"
    using assms(2,3) check_latch [of i "fold check is s"] by (auto split: option.splits)
  then obtain p where "history (is @ [i]) = p # history is"
    by (auto simp: history_def map_filter_def)
  with after assms(2) healthy_run [OF assms(1), of "is"] show ?thesis
    by (metis latch_comes_up)
qed

lemma sustained_failure_is_down:
  assumes "latch_of s = fresh_latch b" "sorted_wrt (\<lambda>p q. fst q \<le> fst p) (history is)"
    "sustained False fail_window (history is)"
  shows "\<not> l_healthy (latch_of (fold check is s))"
  using healthy_run [OF assms(1)] latch_down_if_sustained [OF assms(2,3)] by simp

lemma sustained_success_is_up:
  assumes "latch_of s = fresh_latch b" "sorted_wrt (\<lambda>p q. fst q \<le> fst p) (history is)"
    "sustained True recover_window (history is)"
  shows "l_healthy (latch_of (fold check is s))"
  using healthy_run [OF assms(1)] latch_up_if_sustained [OF assms(2,3)] by simp

end

end
