(* ===== verification/Warp_Health.thy ===== *)
theory Warp_Health
  imports Health_Latch
begin

text \<open>
  \<open>warp/health.py\<close>: one iteration of the WARP tunnel monitor. The injected callables (ping, the
  route commands, the source-rule check, the persistence callback) appear in the input of an
  iteration with what they answer or that they raise; a notification callback's own exception is
  suppressed by the code, so only its call is recorded, in \<open>w_log\<close>. Times are exact rationals.
\<close>

definition degraded_window_seconds :: rat where "degraded_window_seconds = 120"
definition degraded_min_samples :: nat where "degraded_min_samples = 10"
definition degraded_loss_threshold :: rat where "degraded_loss_threshold = 1 / 2"
definition degraded_clear_threshold :: rat where "degraded_clear_threshold = 1 / 5"

record health_snapshot =
  tunnel_up :: bool
  snap_routes_active :: bool
  snap_fail_streak :: int
  snap_success_streak :: int
  snap_degraded :: bool

datatype warp_call =
    ActivateRoutes | DeactivateRoutes | OnTunnelDown | OnTunnelRecovered
  | OnDegraded rat | OnDegradedCleared | OnRoutesMissing | OnRoutesRestored
  | OnUpdate health_snapshot

datatype warp_raise = PingRaised | RouteCommandRaised | RuleCheckRaised | UpdateRaised

record warp_config =
  wc_interval :: rat
  wc_fast_interval :: rat
  wc_fail_window :: rat
  wc_recover_window :: rat
  wc_observer_mode :: bool
  wc_rule_checker :: bool \<comment> \<open>\<open>check_source_rules\<close> is wired\<close>

record warp_monitor =
  w_fail_streak :: int
  w_success_streak :: int
  w_fail_since :: "rat option"
  w_success_since :: "rat option"
  w_last_ok :: "bool option"
  w_healthy :: bool
  w_routes_active :: bool
  w_samples :: "(rat \<times> bool) list"
  w_degraded :: bool
  w_rules_present :: bool
  w_log :: "warp_call list"

datatype rule_reading = RulesRaise | RulesUnknown | RulesPresent bool

record warp_input =
  wi_now :: rat
  wi_ping :: "bool option" \<comment> \<open>\<open>None\<close>: the ping callable raised\<close>
  wi_kill_switch :: bool
  wi_route_ok :: bool \<comment> \<open>the route command returns instead of raising\<close>
  wi_rules :: rule_reading
  wi_update_ok :: bool

type_synonym 'a warp_op = "(warp_monitor, warp_raise, 'a) op"

definition warp_init :: "bool \<Rightarrow> warp_monitor" where
  "warp_init initial_routes_active =
     \<lparr>w_fail_streak = 0, w_success_streak = 0, w_fail_since = None, w_success_since = None,
      w_last_ok = None, w_healthy = initial_routes_active, w_routes_active = initial_routes_active,
      w_samples = [], w_degraded = False, w_rules_present = True, w_log = []\<rparr>"

definition next_interval :: "warp_config \<Rightarrow> warp_monitor \<Rightarrow> rat" where
  "next_interval cfg s = (if w_last_ok s = Some False then wc_fast_interval cfg else wc_interval cfg)"

definition call :: "warp_call \<Rightarrow> unit warp_op" where
  "call c = op_modify (\<lambda>s. s\<lparr>w_log := w_log s @ [c]\<rparr>)"

definition mark_recovered :: "warp_config \<Rightarrow> warp_input \<Rightarrow> unit warp_op" where
  "mark_recovered cfg i =
     op_bind (op_modify (\<lambda>s. s\<lparr>w_healthy := True\<rparr>)) (\<lambda>_.
     op_bind (if wc_observer_mode cfg then op_return ()
              else op_bind (call ActivateRoutes) (\<lambda>_.
                   op_bind (op_guard (wi_route_ok i) RouteCommandRaised) (\<lambda>_.
                   op_modify (\<lambda>s. s\<lparr>w_routes_active := True\<rparr>)))) (\<lambda>_.
     call OnTunnelRecovered))"

definition mark_down :: "warp_config \<Rightarrow> warp_input \<Rightarrow> unit warp_op" where
  "mark_down cfg i =
     op_bind (op_modify (\<lambda>s. s\<lparr>w_healthy := False\<rparr>)) (\<lambda>_.
     op_bind (if wc_observer_mode cfg then op_return ()
              else if wi_kill_switch i then op_return ()
              else op_bind (call DeactivateRoutes) (\<lambda>_.
                   op_bind (op_guard (wi_route_ok i) RouteCommandRaised) (\<lambda>_.
                   op_modify (\<lambda>s. s\<lparr>w_routes_active := False\<rparr>)))) (\<lambda>_.
     call OnTunnelDown))"

text \<open>The first half of \<open>check_once\<close>: the streaks, the running window and the latch.\<close>

definition note_success :: "rat \<Rightarrow> warp_monitor \<Rightarrow> warp_monitor" where
  "note_success now s = s\<lparr>w_last_ok := Some True, w_success_streak := w_success_streak s + 1,
     w_fail_streak := 0, w_fail_since := None, w_success_since := Some (since (w_success_since s) now)\<rparr>"

definition note_failure :: "rat \<Rightarrow> warp_monitor \<Rightarrow> warp_monitor" where
  "note_failure now s = s\<lparr>w_last_ok := Some False, w_fail_streak := w_fail_streak s + 1,
     w_success_streak := 0, w_success_since := None, w_fail_since := Some (since (w_fail_since s) now)\<rparr>"

definition move_latch :: "warp_config \<Rightarrow> warp_input \<Rightarrow> bool \<Rightarrow> unit warp_op" where
  "move_latch cfg i ok =
     (if ok
      then op_bind (op_modify (note_success (wi_now i))) (\<lambda>_.
           op_bind (op_get (\<lambda>s. \<not> w_healthy s \<and> wi_now i - since (w_success_since s) (wi_now i) \<ge> wc_recover_window cfg))
             (\<lambda>crossed. if crossed then mark_recovered cfg i else op_return ()))
      else op_bind (op_modify (note_failure (wi_now i))) (\<lambda>_.
           op_bind (op_get (\<lambda>s. w_healthy s \<and> wi_now i - since (w_fail_since s) (wi_now i) \<ge> wc_fail_window cfg))
             (\<lambda>crossed. if crossed then mark_down cfg i else op_return ())))"

definition window_samples :: "rat \<Rightarrow> bool \<Rightarrow> (rat \<times> bool) list \<Rightarrow> (rat \<times> bool) list" where
  "window_samples now ok samples =
     dropWhile (\<lambda>(t, _). t < now - degraded_window_seconds) (samples @ [(now, ok)])"

definition loss_ratio :: "(rat \<times> bool) list \<Rightarrow> rat" where
  "loss_ratio samples = of_nat (length (filter (\<lambda>(_, ok). \<not> ok) samples)) / of_nat (length samples)"

definition evaluate_degraded :: "rat \<Rightarrow> bool \<Rightarrow> unit warp_op" where
  "evaluate_degraded now ok =
     op_bind (op_modify (\<lambda>s. s\<lparr>w_samples := window_samples now ok (w_samples s)\<rparr>)) (\<lambda>_.
     op_bind (op_get id) (\<lambda>s.
       let loss = loss_ratio (w_samples s)
       in if length (w_samples s) < degraded_min_samples then op_return ()
          else if \<not> w_degraded s \<and> w_healthy s \<and> loss \<ge> degraded_loss_threshold
          then op_bind (op_modify (\<lambda>s. s\<lparr>w_degraded := True\<rparr>)) (\<lambda>_. call (OnDegraded loss))
          else if w_degraded s \<and> loss < degraded_clear_threshold
          then op_bind (op_modify (\<lambda>s. s\<lparr>w_degraded := False\<rparr>)) (\<lambda>_. call OnDegradedCleared)
          else op_return ()))"

definition evaluate_source_rules :: "warp_config \<Rightarrow> rule_reading \<Rightarrow> bool warp_op" where
  "evaluate_source_rules cfg reading =
     (if \<not> wc_rule_checker cfg then op_return True
      else case reading of
        RulesRaise \<Rightarrow> op_raise RuleCheckRaised
      | RulesUnknown \<Rightarrow> op_get w_rules_present
      | RulesPresent True \<Rightarrow>
          op_bind (op_get w_rules_present) (\<lambda>known.
            if known then op_return True
            else op_bind (op_modify (\<lambda>s. s\<lparr>w_rules_present := True\<rparr>)) (\<lambda>_.
                 op_bind (call OnRoutesRestored) (\<lambda>_. op_return True)))
      | RulesPresent False \<Rightarrow>
          op_bind (op_get w_rules_present) (\<lambda>known.
            if known
            then op_bind (op_modify (\<lambda>s. s\<lparr>w_rules_present := False\<rparr>)) (\<lambda>_.
                 op_bind (call OnRoutesMissing) (\<lambda>_. op_return False))
            else op_return False))"

definition snapshot_of :: "bool \<Rightarrow> bool \<Rightarrow> warp_monitor \<Rightarrow> health_snapshot" where
  "snapshot_of ok rules_present s =
     \<lparr>tunnel_up = ok, snap_routes_active = (w_routes_active s \<and> rules_present),
      snap_fail_streak = w_fail_streak s, snap_success_streak = w_success_streak s,
      snap_degraded = (w_degraded s \<or> \<not> rules_present)\<rparr>"

definition check_once :: "warp_config \<Rightarrow> warp_input \<Rightarrow> health_snapshot warp_op" where
  "check_once cfg i =
     (case wi_ping i of None \<Rightarrow> op_raise PingRaised
      | Some ok \<Rightarrow>
          op_bind (move_latch cfg i ok) (\<lambda>_.
          op_bind (evaluate_degraded (wi_now i) ok) (\<lambda>_.
          op_bind (evaluate_source_rules cfg (wi_rules i)) (\<lambda>rules_present.
          op_bind (op_get (snapshot_of ok rules_present)) (\<lambda>snapshot.
          op_bind (call (OnUpdate snapshot)) (\<lambda>_.
          op_bind (op_guard (wi_update_ok i) UpdateRaised) (\<lambda>_. op_return snapshot)))))))"

text \<open>\<open>run\<close>: an iteration that raises is logged and the loop goes on with the state it left.\<close>

definition warp_check :: "warp_config \<Rightarrow> warp_input \<Rightarrow> warp_monitor \<Rightarrow> warp_monitor" where
  "warp_check cfg i s = snd (check_once cfg i s)"

definition warp_run :: "warp_config \<Rightarrow> warp_input list \<Rightarrow> warp_monitor \<Rightarrow> warp_monitor" where
  "warp_run cfg = fold (warp_check cfg)"

section \<open>The latch\<close>

definition warp_latch :: "warp_monitor \<Rightarrow> latch" where
  "warp_latch s = \<lparr>l_healthy = w_healthy s, l_fail_since = w_fail_since s, l_success_since = w_success_since s\<rparr>"

definition warp_probe :: "warp_input \<Rightarrow> (rat \<times> bool) option" where
  "warp_probe i = map_option (Pair (wi_now i)) (wi_ping i)"

definition is_latch_call :: "warp_call \<Rightarrow> bool" where
  "is_latch_call c \<longleftrightarrow> c \<in> {ActivateRoutes, DeactivateRoutes, OnTunnelDown, OnTunnelRecovered}"

definition latch_calls :: "warp_monitor \<Rightarrow> warp_call list" where
  "latch_calls s = filter is_latch_call (w_log s)"

text \<open>What the later stages of an iteration leave alone, whether or not they raise.\<close>

definition same_except_alerts :: "warp_monitor \<Rightarrow> warp_monitor \<Rightarrow> bool" where
  "same_except_alerts s t \<longleftrightarrow> warp_latch t = warp_latch s \<and> w_routes_active t = w_routes_active s
     \<and> latch_calls t = latch_calls s"

lemma same_refl [simp]: "same_except_alerts s s"
  by (simp add: same_except_alerts_def)

lemma same_trans: "same_except_alerts s t \<Longrightarrow> same_except_alerts t u \<Longrightarrow> same_except_alerts s u"
  by (simp add: same_except_alerts_def)

lemmas same_bind = op_rel_bind [of same_except_alerts, OF same_trans]

lemma degraded_same: "same_except_alerts s (snd (evaluate_degraded now ok s))"
  by (auto simp: evaluate_degraded_def call_def op_simps Let_def same_except_alerts_def warp_latch_def
      latch_calls_def is_latch_call_def)

lemma rules_same: "same_except_alerts s (snd (evaluate_source_rules cfg reading s))"
  by (auto simp: evaluate_source_rules_def call_def op_simps same_except_alerts_def warp_latch_def
      latch_calls_def is_latch_call_def split: rule_reading.splits bool.splits)

definition latch_stage :: "warp_config \<Rightarrow> warp_input \<Rightarrow> warp_monitor \<Rightarrow> warp_monitor" where
  "latch_stage cfg i s = (case wi_ping i of None \<Rightarrow> s | Some ok \<Rightarrow> snd (move_latch cfg i ok s))"

lemma alert_stage:
  "same_except_alerts s (snd (op_bind (evaluate_degraded now ok) (\<lambda>_.
          op_bind (evaluate_source_rules cfg reading) (\<lambda>rules_present.
          op_bind (op_get (snapshot_of ok rules_present)) (\<lambda>snapshot.
          op_bind (call (OnUpdate snapshot)) (\<lambda>_.
          op_bind (op_guard b UpdateRaised) (\<lambda>_. op_return snapshot))))) s))"
  by (intro same_bind degraded_same rules_same)
    (auto simp: call_def op_simps same_except_alerts_def warp_latch_def latch_calls_def is_latch_call_def)

lemma warp_check_stage: "same_except_alerts (latch_stage cfg i s) (warp_check cfg i s)"
proof (cases "wi_ping i")
  case None
  then show ?thesis by (simp add: warp_check_def check_once_def latch_stage_def op_raise_def)
next
  case (Some ok)
  then show ?thesis
    using alert_stage by (auto simp: warp_check_def check_once_def latch_stage_def
        snd_op_bind [of "move_latch cfg i ok"] split: prod.splits sum.splits)
qed

lemma latch_stage_latch:
  "warp_latch (latch_stage cfg i s) =
    (case warp_probe i of None \<Rightarrow> warp_latch s
     | Some p \<Rightarrow> latch_step (wc_fail_window cfg) (wc_recover_window cfg) p (warp_latch s))"
  by (auto simp: latch_stage_def warp_probe_def move_latch_def note_success_def note_failure_def
      mark_recovered_def mark_down_def call_def op_simps latch_step_def warp_latch_def since_def Let_def
      split: option.splits)

interpretation warp: health_monitor "warp_check cfg" warp_latch warp_probe "wc_fail_window cfg" "wc_recover_window cfg"
  for cfg
  using warp_check_stage latch_stage_latch
  by unfold_locales (simp add: same_except_alerts_def)

section \<open>Properties over runs\<close>

definition warp_history :: "warp_input list \<Rightarrow> (rat \<times> bool) list" where
  "warp_history is = rev (List.map_filter warp_probe is)"

lemma warp_history_eq [simp]: "warp.history is = warp_history is"
  by (simp add: warp.history_def warp_history_def)

lemma warp_latch_init: "warp_latch (warp_init b) = fresh_latch b"
  by (simp add: warp_latch_def warp_init_def fresh_latch_def)

lemma healthy_latch: "l_healthy (warp_latch s) = w_healthy s"
  by (simp add: warp_latch_def)

lemma warp_run_simps [simp]:
  "warp_run cfg [] s = s" "warp_run cfg (i # is) s = warp_run cfg is (warp_check cfg i s)"
  "warp_run cfg (is @ js) s = warp_run cfg js (warp_run cfg is s)"
  by (simp_all add: warp_run_def)

text \<open>
  C3: the tunnel latch flips only when the latest probes all answered the new way for the whole
  window (\<open>fail_window\<close> to go down, \<open>recover_window\<close> to come back); one opposite probe anywhere
  in that time prevents it.
\<close>

theorem warp_flip_needs_sustained_run:
  assumes "w_healthy (warp_run cfg (is @ [i]) (warp_init b)) \<noteq> w_healthy (warp_run cfg is (warp_init b))"
  shows "if w_healthy (warp_run cfg is (warp_init b))
    then sustained False (wc_fail_window cfg) (warp_history (is @ [i]))
    else sustained True (wc_recover_window cfg) (warp_history (is @ [i]))"
  using assms warp.down_needs_sustained_failure [OF warp_latch_init, of cfg "is" b i]
    warp.up_needs_sustained_success [OF warp_latch_init, of cfg "is" b i]
  by (simp add: warp_run_def healthy_latch)

text \<open>
  C4: with a clock that does not run backwards, an outage as long as the window is always
  detected, and so is a recovery, whatever happened before and whichever callbacks raised.
\<close>

theorem warp_sustained_run_flips:
  assumes "sorted_wrt (\<lambda>p q. fst q \<le> fst p) (warp_history is)"
  shows "(sustained False (wc_fail_window cfg) (warp_history is) \<longrightarrow> \<not> w_healthy (warp_run cfg is (warp_init b)))
    \<and> (sustained True (wc_recover_window cfg) (warp_history is) \<longrightarrow> w_healthy (warp_run cfg is (warp_init b)))"
  using assms warp.sustained_failure_is_down [OF warp_latch_init, of "is" cfg b]
    warp.sustained_success_is_up [OF warp_latch_init, of "is" cfg b]
  by (auto simp: warp_run_def healthy_latch)

text \<open>The calls one iteration makes on the routes and about the latch.\<close>

definition crossing_calls :: "warp_config \<Rightarrow> warp_input \<Rightarrow> bool \<Rightarrow> warp_call list" where
  "crossing_calls cfg i up =
     (if wc_observer_mode cfg then [] else if up then [ActivateRoutes]
      else if wi_kill_switch i then [] else [DeactivateRoutes])
     @ (if wc_observer_mode cfg \<or> wi_route_ok i \<or> \<not> up \<and> wi_kill_switch i
        then [if up then OnTunnelRecovered else OnTunnelDown] else [])"

lemma mark_recovered_effect:
  "latch_calls (snd (mark_recovered cfg i s)) = latch_calls s @ crossing_calls cfg i True"
  "w_routes_active (snd (mark_recovered cfg i s))
    = (if wc_observer_mode cfg \<or> \<not> wi_route_ok i then w_routes_active s else True)"
  "w_healthy (snd (mark_recovered cfg i s))"
  by (simp_all add: mark_recovered_def crossing_calls_def latch_calls_def is_latch_call_def call_def op_simps)

lemma mark_down_effect:
  "latch_calls (snd (mark_down cfg i s)) = latch_calls s @ crossing_calls cfg i False"
  "w_routes_active (snd (mark_down cfg i s))
    = (if wc_observer_mode cfg \<or> \<not> wi_route_ok i \<or> wi_kill_switch i then w_routes_active s else False)"
  "\<not> w_healthy (snd (mark_down cfg i s))"
  by (simp_all add: mark_down_def crossing_calls_def latch_calls_def is_latch_call_def call_def op_simps)

lemma note_effect [simp]:
  "latch_calls (note_success now s) = latch_calls s" "latch_calls (note_failure now s) = latch_calls s"
  "w_routes_active (note_success now s) = w_routes_active s" "w_routes_active (note_failure now s) = w_routes_active s"
  "w_healthy (note_success now s) = w_healthy s" "w_healthy (note_failure now s) = w_healthy s"
  by (simp_all add: note_success_def note_failure_def latch_calls_def)

lemma move_latch_state:
  "snd (move_latch cfg i True s) = (let t = note_success (wi_now i) s
     in if \<not> w_healthy t \<and> wi_now i - since (w_success_since t) (wi_now i) \<ge> wc_recover_window cfg
        then snd (mark_recovered cfg i t) else t)"
  "snd (move_latch cfg i False s) = (let t = note_failure (wi_now i) s
     in if w_healthy t \<and> wi_now i - since (w_fail_since t) (wi_now i) \<ge> wc_fail_window cfg
        then snd (mark_down cfg i t) else t)"
  by (simp_all add: move_latch_def Let_def op_bind_def op_modify_def op_get_def op_return_def)

lemma latch_stage_calls:
  "latch_calls (latch_stage cfg i s) = latch_calls s @
     (if w_healthy (latch_stage cfg i s) = w_healthy s then []
      else crossing_calls cfg i (w_healthy (latch_stage cfg i s)))
   \<and> w_routes_active (latch_stage cfg i s) =
     (if w_healthy (latch_stage cfg i s) = w_healthy s \<or> wc_observer_mode cfg \<or> \<not> wi_route_ok i
         \<or> w_healthy s \<and> wi_kill_switch i
      then w_routes_active s else \<not> w_healthy s)"
proof (cases "wi_ping i")
  case None
  then show ?thesis by (simp add: latch_stage_def)
next
  case (Some ok)
  then show ?thesis
    by (cases ok) (simp_all add: latch_stage_def move_latch_state Let_def mark_recovered_effect mark_down_effect)
qed

lemma warp_check_calls:
  "latch_calls (warp_check cfg i s) = latch_calls s @
     (if w_healthy (warp_check cfg i s) = w_healthy s then []
      else crossing_calls cfg i (w_healthy (warp_check cfg i s)))"
  "w_routes_active (warp_check cfg i s) =
     (if w_healthy (warp_check cfg i s) = w_healthy s \<or> wc_observer_mode cfg \<or> \<not> wi_route_ok i
         \<or> w_healthy s \<and> wi_kill_switch i
      then w_routes_active s else \<not> w_healthy s)"
  using warp_check_stage [of cfg i s] latch_stage_calls [of cfg i s]
  by (auto simp: same_except_alerts_def warp_latch_def)

text \<open>
  A check fires the route command and the notification of a crossing once, and only on a
  crossing; the reported routes follow the latch except in observer mode, under the kill-switch
  on the way down, or when the route command raised.
\<close>

theorem warp_one_call_per_transition:
  "latch_calls (warp_check cfg i s) = latch_calls s @
     (if w_healthy (warp_check cfg i s) = w_healthy s then []
      else crossing_calls cfg i (w_healthy (warp_check cfg i s)))
   \<and> w_routes_active (warp_check cfg i s) =
     (if w_healthy (warp_check cfg i s) = w_healthy s \<or> wc_observer_mode cfg
         \<or> w_healthy s \<and> wi_kill_switch i
      then w_routes_active s
      else if wi_route_ok i then \<not> w_healthy s else w_routes_active s)"
  using warp_check_calls [of cfg i s] by simp

definition route_commands :: "warp_monitor \<Rightarrow> warp_call list" where
  "route_commands s = filter (\<lambda>c. c \<in> {ActivateRoutes, DeactivateRoutes}) (w_log s)"

lemma route_commands_latch_calls:
  "route_commands s = filter (\<lambda>c. c \<in> {ActivateRoutes, DeactivateRoutes}) (latch_calls s)"
  by (auto simp: route_commands_def latch_calls_def is_latch_call_def intro: filter_cong)

text \<open>
  In observer mode the monitor never issues a route command and never changes the routes it
  reports as its own, over any run of checks.
\<close>

theorem warp_observer_never_routes:
  assumes "wc_observer_mode cfg"
  shows "route_commands (warp_run cfg is s) = route_commands s
    \<and> w_routes_active (warp_run cfg is s) = w_routes_active s"
proof (induction "is" arbitrary: s)
  case Nil
  then show ?case by simp
next
  case (Cons i "is")
  have "route_commands (warp_check cfg i s) = route_commands s"
    using assms by (simp add: route_commands_latch_calls warp_check_calls crossing_calls_def)
  moreover have "w_routes_active (warp_check cfg i s) = w_routes_active s"
    using assms by (simp add: warp_check_calls)
  ultimately show ?case using Cons.IH by simp
qed

text \<open>
  C5: while the kill-switch is on, an outage never takes the routes down: no run of checks
  issues the removal command or reports active routes as gone.
\<close>

theorem warp_kill_switch_keeps_routes:
  assumes "\<forall>i \<in> set is. wi_kill_switch i" "w_routes_active s"
  shows "filter (\<lambda>c. c = DeactivateRoutes) (latch_calls (warp_run cfg is s))
      = filter (\<lambda>c. c = DeactivateRoutes) (latch_calls s)
    \<and> w_routes_active (warp_run cfg is s)"
  using assms
proof (induction "is" arbitrary: s)
  case Nil
  then show ?case by simp
next
  case (Cons i "is")
  have "filter (\<lambda>c. c = DeactivateRoutes) (latch_calls (warp_check cfg i s))
      = filter (\<lambda>c. c = DeactivateRoutes) (latch_calls s)"
    using Cons.prems(1) by (auto simp: warp_check_calls crossing_calls_def)
  moreover have "w_routes_active (warp_check cfg i s)"
    using Cons.prems by (auto simp: warp_check_calls)
  ultimately show ?case using Cons.IH [of "warp_check cfg i s"] Cons.prems(1) by simp
qed

lemma success_keeps_healthy:
  assumes "w_healthy s" "wi_ping i = Some True"
  shows "w_healthy (warp_check cfg i s)"
  using latch_stage_latch [of cfg i s] warp_check_stage [of cfg i s] assms
  by (simp add: same_except_alerts_def warp_probe_def latch_step_def warp_latch_def Let_def)

lemma successes_after_up:
  assumes "w_healthy s" "\<forall>i \<in> set is. wi_ping i = Some True"
  shows "w_healthy (warp_run cfg is s) \<and> w_routes_active (warp_run cfg is s) = w_routes_active s
    \<and> latch_calls (warp_run cfg is s) = latch_calls s"
  using assms
proof (induction "is" arbitrary: s)
  case Nil
  then show ?case by simp
next
  case (Cons i "is")
  then have up: "w_healthy (warp_check cfg i s)" using success_keeps_healthy by simp
  with Cons.IH [OF up] Cons.prems show ?case by (simp add: warp_check_calls)
qed

text \<open>
  The routes are restored by one attempt only. If that command raises, every later
  successful check leaves the routes down although the latch says the tunnel is up; the next
  attempt comes only after another full outage.
\<close>

theorem failed_activation_not_retried:
  assumes "\<not> wc_observer_mode cfg" "\<not> w_healthy s" "\<not> w_routes_active s"
    "w_healthy (warp_check cfg i s)" "\<not> wi_route_ok i" "\<forall>j \<in> set is. wi_ping j = Some True"
  shows "w_healthy (warp_run cfg (i # is) s) \<and> \<not> w_routes_active (warp_run cfg (i # is) s)
    \<and> latch_calls (warp_run cfg (i # is) s) = latch_calls s @ [ActivateRoutes]"
  using assms successes_after_up [OF assms(4,6)]
  by (simp add: warp_check_calls crossing_calls_def)

section \<open>The degraded alert\<close>

definition same_window :: "warp_monitor \<Rightarrow> warp_monitor \<Rightarrow> bool" where
  "same_window s t \<longleftrightarrow> w_degraded t = w_degraded s \<and> w_samples t = w_samples s"

lemma same_window_trans: "same_window s t \<Longrightarrow> same_window t u \<Longrightarrow> same_window s u"
  by (simp add: same_window_def)

lemmas same_window_bind = op_rel_bind [of same_window, OF same_window_trans]

lemma mark_same_window:
  "same_window s (snd (mark_recovered cfg i s))" "same_window s (snd (mark_down cfg i s))"
  by (simp_all add: mark_recovered_def mark_down_def call_def op_simps same_window_def)

lemma move_latch_same_window: "same_window s (snd (move_latch cfg i ok s))"
proof -
  have "same_window s (note_success t s)" "same_window s (note_failure t s)" for t
    by (simp_all add: note_success_def note_failure_def same_window_def)
  then show ?thesis
    by (cases ok) (auto simp: move_latch_state Let_def
        intro: same_window_trans [OF _ mark_same_window(1)] same_window_trans [OF _ mark_same_window(2)])
qed

definition alerts :: "warp_config \<Rightarrow> warp_input \<Rightarrow> bool \<Rightarrow> health_snapshot warp_op" where
  "alerts cfg i ok =
     op_bind (evaluate_source_rules cfg (wi_rules i)) (\<lambda>rules_present.
     op_bind (op_get (snapshot_of ok rules_present)) (\<lambda>snapshot.
     op_bind (call (OnUpdate snapshot)) (\<lambda>_.
     op_bind (op_guard (wi_update_ok i) UpdateRaised) (\<lambda>_. op_return snapshot))))"

lemma alerts_same_window: "same_window s (snd (alerts cfg i ok s))"
  unfolding alerts_def
  by (intro same_window_bind)
    (auto simp: evaluate_source_rules_def call_def op_simps same_window_def split: rule_reading.splits bool.splits)

lemma alerts_same_latch: "w_healthy (snd (alerts cfg i ok s)) = w_healthy s"
proof -
  have "same_except_alerts s (snd (alerts cfg i ok s))"
    unfolding alerts_def
    by (intro same_bind rules_same)
      (auto simp: call_def op_simps same_except_alerts_def warp_latch_def latch_calls_def is_latch_call_def)
  then show ?thesis by (simp add: same_except_alerts_def warp_latch_def)
qed

lemma degraded_raise:
  assumes "\<not> w_degraded s" "w_degraded (snd (evaluate_degraded now ok s))"
  shows "degraded_min_samples \<le> length (window_samples now ok (w_samples s))
    \<and> loss_ratio (window_samples now ok (w_samples s)) \<ge> degraded_loss_threshold
    \<and> w_healthy (snd (evaluate_degraded now ok s))"
  using assms by (auto simp: evaluate_degraded_def call_def op_simps Let_def split: if_splits)

lemma loss_half:
  assumes "ws \<noteq> []" "loss_ratio ws \<ge> degraded_loss_threshold"
  shows "length ws \<le> 2 * length (filter (\<lambda>(_, ok). \<not> ok) ws)"
proof -
  have "(of_nat (length ws) :: rat) \<le> of_nat (2 * length (filter (\<lambda>(_, ok). \<not> ok) ws))"
    using assms by (simp add: loss_ratio_def degraded_loss_threshold_def field_simps)
  then show ?thesis by (simp only: of_nat_le_iff)
qed

text \<open>
  The degraded alert is never raised on less than ten probes in the window, on a window in
  which fewer than half of the probes failed, or on a tunnel that is already down.
\<close>

theorem warp_degraded_needs_evidence:
  assumes "\<not> w_degraded s" "w_degraded (warp_check cfg i s)"
  shows "\<exists>ok. wi_ping i = Some ok
    \<and> 10 \<le> length (window_samples (wi_now i) ok (w_samples s))
    \<and> length (window_samples (wi_now i) ok (w_samples s))
        \<le> 2 * length (filter (\<lambda>(_, ok). \<not> ok) (window_samples (wi_now i) ok (w_samples s)))
    \<and> w_healthy (warp_check cfg i s)"
proof (cases "wi_ping i")
  case None
  with assms show ?thesis by (simp add: warp_check_def check_once_def op_raise_def)
next
  case (Some ok)
  define t where "t = snd (move_latch cfg i ok s)"
  have t: "\<not> w_degraded t" "w_samples t = w_samples s"
    using move_latch_same_window [of s cfg i ok] assms(1) by (simp_all add: same_window_def t_def)
  have check: "warp_check cfg i s = snd (op_bind (move_latch cfg i ok) (\<lambda>_.
      op_bind (evaluate_degraded (wi_now i) ok) (\<lambda>_. alerts cfg i ok)) s)"
    by (simp add: warp_check_def check_once_def alerts_def Some)
  obtain r where r: "move_latch cfg i ok s = (r, t)" by (cases "move_latch cfg i ok s") (simp add: t_def)
  obtain r' u where u: "evaluate_degraded (wi_now i) ok t = (r', u)" by fastforce
  obtain x x' where ok: "r = Inr x" "r' = Inr x'"
  proof (cases r)
    case (Inl e)
    with assms(2) check r t(1) show ?thesis by (simp add: snd_op_bind)
  next
    case (Inr x)
    then show ?thesis
      using that u by (auto simp: evaluate_degraded_def call_def op_simps Let_def split: if_splits)
  qed
  have final: "warp_check cfg i s = snd (alerts cfg i ok u)"
    by (simp add: check snd_op_bind r u ok)
  have "w_degraded u"
    using assms(2) alerts_same_window [of u cfg i ok] by (simp add: final same_window_def)
  then have raised: "degraded_min_samples \<le> length (window_samples (wi_now i) ok (w_samples s))"
    "loss_ratio (window_samples (wi_now i) ok (w_samples s)) \<ge> degraded_loss_threshold" "w_healthy u"
    using degraded_raise [of t "wi_now i" ok] t u by auto
  moreover from raised(1) have "window_samples (wi_now i) ok (w_samples s) \<noteq> []"
    by (auto simp: degraded_min_samples_def)
  ultimately show ?thesis
    using loss_half Some by (auto simp: degraded_min_samples_def final alerts_same_latch)
qed

section \<open>Witnesses\<close>

definition demo_config :: warp_config where
  "demo_config = \<lparr>wc_interval = 10, wc_fast_interval = 3, wc_fail_window = 60, wc_recover_window = 60,
     wc_observer_mode = False, wc_rule_checker = False\<rparr>"

definition demo_input :: "rat \<Rightarrow> bool \<Rightarrow> warp_input" where
  "demo_input now ok = \<lparr>wi_now = now, wi_ping = Some ok, wi_kill_switch = True, wi_route_ok = False,
     wi_rules = RulesUnknown, wi_update_ok = True\<rparr>"

lemmas demo_eval = warp_check_def check_once_def demo_config_def demo_input_def move_latch_def
  note_success_def note_failure_def mark_down_def mark_recovered_def call_def evaluate_degraded_def
  evaluate_source_rules_def snapshot_of_def warp_init_def since_def window_samples_def
  degraded_window_seconds_def degraded_min_samples_def op_defs Let_def

lemma warp_flip_needs_sustained_run_witness:
  "sustained False 60 (warp_history [demo_input 0 False, demo_input 60 False])"
  using warp_flip_needs_sustained_run [of demo_config "[demo_input 0 False]" "demo_input 60 False" True]
  by (simp add: demo_eval)

lemma warp_sustained_run_flips_witness:
  "\<not> w_healthy (warp_run demo_config [demo_input 0 False, demo_input 60 False] (warp_init True))"
proof -
  have history: "warp_history [demo_input 0 False, demo_input 60 False] = [(60, False), (0, False)]"
    by (simp add: warp_history_def warp_probe_def demo_input_def map_filter_simps)
  then have "sustained False (wc_fail_window demo_config) (warp_history [demo_input 0 False, demo_input 60 False])"
    by (simp add: sustained_def demo_config_def exI [of _ 2])
  then show ?thesis
    using warp_sustained_run_flips [of "[demo_input 0 False, demo_input 60 False]" demo_config True]
    by (simp add: history)
qed

lemma warp_observer_never_routes_witness:
  "route_commands (warp_run (demo_config\<lparr>wc_observer_mode := True\<rparr>)
     [demo_input 0 False, demo_input 60 False] (warp_init True)) = []"
  using warp_observer_never_routes [of "demo_config\<lparr>wc_observer_mode := True\<rparr>"
      "[demo_input 0 False, demo_input 60 False]" "warp_init True"]
  by (simp add: route_commands_def warp_init_def)

lemma warp_kill_switch_keeps_routes_witness:
  "w_routes_active (warp_run demo_config [demo_input 0 False, demo_input 60 False] (warp_init True))"
  using warp_kill_switch_keeps_routes [of "[demo_input 0 False, demo_input 60 False]" "warp_init True" demo_config]
  by (simp add: demo_input_def warp_init_def)

lemma failed_activation_not_retried_witness:
  "\<not> w_routes_active (warp_run demo_config [demo_input 60 True, demo_input 70 True]
      (warp_check demo_config (demo_input 0 True) (warp_init False)))"
  using failed_activation_not_retried [of demo_config
      "warp_check demo_config (demo_input 0 True) (warp_init False)" "demo_input 60 True" "[demo_input 70 True]"]
  by (simp add: demo_eval)

lemma warp_degraded_needs_evidence_witness:
  "w_healthy (warp_check demo_config (demo_input 10 False)
     ((warp_init True)\<lparr>w_samples := replicate 9 (0, False)\<rparr>))"
  using warp_degraded_needs_evidence [of "(warp_init True)\<lparr>w_samples := replicate 9 (0, False)\<rparr>"
      demo_config "demo_input 10 False"]
  by (simp add: demo_eval loss_ratio_def degraded_loss_threshold_def numeral_eq_Suc)

end
