(* ===== verification/Model_Types.thy ===== *)
theory Model_Types
  imports Prelude Ipv4 Json
begin

text \<open>
  \<open>models/enums.py\<close> and \<open>models/dto.py\<close>: the enumerations with the source's members and the
  data transfer objects, one record per dataclass. A table is the list of its rows in rowid
  order; \<open>u_trial_quota_reset_at\<close>, \<open>vk_bundle_id\<close> and \<open>vk_expiry_notified_days\<close> are the columns
  that the classes leave out.
\<close>

datatype user_role = SUPERADMIN | MODERATOR | APPROVED_USER | PENDING_USER | BLOCKED_USER

datatype access_request_status = RequestPending | RequestApproved | RequestRejected

datatype vpn_key_type = XRAY | AWG | HYSTERIA2

datatype vpn_key_status =
    KeyPendingApply | KeyActive | KeyApplyFailed | KeyPendingRevoke | KeyRevoked
  | KeyPendingDelete | KeyDeleteFailed | KeyDeleted | KeyFailed

datatype key_bundle_status =
    BundleActive | BundlePendingRevoke | BundleRevoked | BundlePendingDelete | BundleDeleteFailed
  | BundleDeleted

datatype key_bundle_kind = Basic | Extended

datatype proxy_access_type = SOCKS5 | MTPROTO

datatype proxy_access_status =
    ProxyPendingApply | ProxyActive | ProxyApplyFailed | ProxyPendingRevoke | ProxyRevoked
  | ProxyRevokeFailed | ProxyInactive | ProxyPendingDelete | ProxyDeleteFailed | ProxyDeleted

definition user_role_value :: "user_role \<Rightarrow> string" where
  "user_role_value r = (case r of
     SUPERADMIN \<Rightarrow> ''SUPERADMIN'' | MODERATOR \<Rightarrow> ''MODERATOR'' | APPROVED_USER \<Rightarrow> ''APPROVED_USER''
   | PENDING_USER \<Rightarrow> ''PENDING_USER'' | BLOCKED_USER \<Rightarrow> ''BLOCKED_USER'')"

definition all_roles :: "user_role list" where
  "all_roles = [SUPERADMIN, MODERATOR, APPROVED_USER, PENDING_USER, BLOCKED_USER]"

text \<open>\<open>None\<close> for the \<open>ValueError\<close> of an unknown member.\<close>

definition parse_user_role :: "string \<Rightarrow> user_role option" where
  "parse_user_role v = find (\<lambda>r. user_role_value r = v) all_roles"

definition vpn_key_type_value :: "vpn_key_type \<Rightarrow> string" where
  "vpn_key_type_value t = (case t of XRAY \<Rightarrow> ''xray'' | AWG \<Rightarrow> ''awg'' | HYSTERIA2 \<Rightarrow> ''hysteria2'')"

definition proxy_access_type_value :: "proxy_access_type \<Rightarrow> string" where
  "proxy_access_type_value t = (case t of SOCKS5 \<Rightarrow> ''socks5'' | MTPROTO \<Rightarrow> ''mtproto'')"

lemma parse_user_role_value: "parse_user_role (user_role_value r) = Some r"
  by (cases r) (simp_all add: parse_user_role_def user_role_value_def all_roles_def)

record telegram_user_profile =
  pr_telegram_user_id :: int
  pr_username :: "string option"
  pr_first_name :: "string option"

record user =
  u_telegram_user_id :: int
  u_username :: "string option"
  u_first_name :: "string option"
  u_role :: user_role
  u_created_at :: string
  u_updated_at :: string
  u_blocked_at :: "string option"
  u_note :: "string option"
  u_language :: "string option"
  u_expiry_notifications_enabled :: bool
  u_trial_quota_reset_at :: "string option"

record access_request =
  ar_id :: int
  ar_telegram_user_id :: int
  ar_username :: "string option"
  ar_status :: access_request_status
  ar_requested_at :: string
  ar_decided_by :: "int option"
  ar_decided_at :: "string option"
  ar_decision_note :: "string option"

record vpn_key =
  vk_id :: int
  vk_owner_user_id :: int
  vk_username :: "string option"
  vk_key_type :: vpn_key_type
  vk_status :: vpn_key_status
  vk_note :: "string option"
  vk_uuid :: "string option"
  vk_email_label :: "string option"
  vk_public_key :: "string option"
  vk_client_ip :: "string option"
  vk_payload :: payload
  vk_public_payload :: payload
  vk_created_at :: string
  vk_updated_at :: string
  vk_revoked_at :: "string option"
  vk_deleted_at :: "string option"
  vk_created_by :: int
  vk_revoked_by :: "int option"
  vk_deleted_by :: "int option"
  vk_expires_at :: "string option"
  vk_transport :: string
  vk_xhttp_profile :: string
  vk_spider_x :: "string option"
  vk_relay :: "string option"
  vk_bundle_id :: "int option"
  vk_expiry_notified_days :: "string option"

record relay =
  ry_id :: int
  ry_name :: string
  ry_label :: string
  ry_host :: string
  ry_source_ips :: "ipv4net list"
  ry_enabled :: bool
  ry_in_subscriptions :: bool
  ry_note :: "string option"
  ry_created_at :: string
  ry_updated_at :: string
  ry_created_by :: "int option"
  ry_updated_by :: "int option"

record key_bundle =
  kb_id :: int
  kb_user_id :: int
  kb_label :: string
  kb_note :: "string option"
  kb_status :: key_bundle_status
  kb_token :: string
  kb_created_at :: string
  kb_updated_at :: string
  kb_revoked_at :: "string option"
  kb_deleted_at :: "string option"
  kb_display_no :: int
  kb_kind :: key_bundle_kind

record trial_key_request =
  tr_id :: int
  tr_telegram_user_id :: int
  tr_key_type :: vpn_key_type
  tr_status :: string
  tr_key_id :: "int option"
  tr_requested_at :: string
  tr_decided_by :: "int option"
  tr_decided_at :: "string option"

record traffic_stats =
  ts_key_id :: int
  ts_downloaded_bytes :: int
  ts_uploaded_bytes :: int
  ts_last_raw_downloaded_bytes :: "int option"
  ts_last_raw_uploaded_bytes :: "int option"
  ts_last_success_at :: "string option"
  ts_last_attempt_at :: "string option"
  ts_available :: bool
  ts_unavailable_reason :: "string option"
  ts_source :: "string option"

record proxy_access =
  pa_id :: int
  pa_owner_user_id :: int
  pa_username :: "string option"
  pa_access_type :: proxy_access_type
  pa_status :: proxy_access_status
  pa_payload :: payload
  pa_public_payload :: payload
  pa_created_at :: string
  pa_updated_at :: string
  pa_last_shown_at :: "string option"
  pa_revoked_at :: "string option"
  pa_deleted_at :: "string option"
  pa_created_by :: int
  pa_revoked_by :: "int option"
  pa_deleted_by :: "int option"
  pa_reason :: "string option"
  pa_error :: "string option"
  pa_secret_fingerprint :: "string option"
  pa_apply_generation :: int
  pa_activated_at :: "string option"
  pa_last_apply_at :: "string option"

text \<open>\<open>RecipientFilter\<close>: the audience of a segmented announcement.\<close>

definition targetable_roles :: "string list" where
  "targetable_roles = map user_role_value [SUPERADMIN, MODERATOR, APPROVED_USER, PENDING_USER]"

definition segment_protocols :: "string list" where
  "segment_protocols = map vpn_key_type_value [XRAY, AWG, HYSTERIA2] @ map proxy_access_type_value [SOCKS5, MTPROTO]"

definition segment_transports :: "string list" where
  "segment_transports = [''tcp'', ''http'']"

record recipient_filter =
  rf_roles :: "string list"
  rf_protocols :: "string list"
  rf_transports :: "string list"

definition rf_clean :: "string list \<Rightarrow> string list \<Rightarrow> string list" where
  "rf_clean values allowed = filter (\<lambda>v. v \<in> set values) allowed"

definition recipient_filter_create :: "string list \<Rightarrow> string list \<Rightarrow> string list \<Rightarrow> recipient_filter" where
  "recipient_filter_create roles protocols transports =
     (let protocols_t = rf_clean protocols segment_protocols;
          transports_t = rf_clean transports segment_transports
      in \<lparr>rf_roles = rf_clean roles targetable_roles, rf_protocols = protocols_t,
          rf_transports = (if vpn_key_type_value XRAY \<notin> set protocols_t then [] else transports_t)\<rparr>)"

definition is_unfiltered :: "recipient_filter \<Rightarrow> bool" where
  "is_unfiltered f \<longleftrightarrow> rf_roles f = [] \<and> rf_protocols f = [] \<and> rf_transports f = []"

end
