(* ===== verification/Relay_Health.thy ===== *)
theory Relay_Health
  imports Health_Latch Model_Types
begin

text \<open>
  \<open>services/relay_health.py\<close>: one latch per enabled relay, probed by one loop. The probe and the
  clocks are arguments of a pass (what the probe of each relay answers, \<open>None\<close> if it raises, and
  when); the alerts are recorded in \<open>rs_alerts\<close>. A callback's exception is caught by the code.
\<close>

record relay_monitor =
  rm_healthy :: bool
  rm_fail_since :: "rat option"
  rm_success_since :: "rat option"

definition new_relay_monitor :: relay_monitor where
  "new_relay_monitor = \<lparr>rm_healthy = True, rm_fail_since = None, rm_success_since = None\<rparr>"

datatype relay_alert = RelayDown relay | RelayRecovered relay

text \<open>\<open>RelayHealthMonitor.check_once\<close>: the monitor after the probe, and whether it crossed.\<close>

definition monitor_check :: "rat \<Rightarrow> rat \<Rightarrow> rat \<Rightarrow> bool option \<Rightarrow> relay_monitor \<Rightarrow> bool \<times> relay_monitor" where
  "monitor_check fail_window recover_window now probed m =
     (let ok = (case probed of None \<Rightarrow> False | Some b \<Rightarrow> b)
      in if ok
         then (let m' = m\<lparr>rm_fail_since := None, rm_success_since := Some (since (rm_success_since m) now)\<rparr>
               in if \<not> rm_healthy m' \<and> now - since (rm_success_since m) now \<ge> recover_window
                  then (True, m'\<lparr>rm_healthy := True\<rparr>) else (False, m'))
         else (let m' = m\<lparr>rm_success_since := None, rm_fail_since := Some (since (rm_fail_since m) now)\<rparr>
               in if rm_healthy m' \<and> now - since (rm_fail_since m) now \<ge> fail_window
                  then (True, m'\<lparr>rm_healthy := False\<rparr>) else (False, m')))"

record probe_result =
  pb_ok :: bool
  pb_checked_at :: string
  pb_host :: string

record relay_supervisor =
  rs_window :: rat
  rs_current :: "(int, relay) dict"
  rs_monitors :: "(int, relay_monitor) dict"
  rs_last :: "(int, probe_result) dict"
  rs_alerts :: "relay_alert list"

definition new_supervisor :: "rat \<Rightarrow> relay_supervisor" where
  "new_supervisor window =
     \<lparr>rs_window = window, rs_current = [], rs_monitors = [], rs_last = [], rs_alerts = []\<rparr>"

definition relay_healthy :: "relay_supervisor \<Rightarrow> int \<Rightarrow> bool option" where
  "relay_healthy s relay_id = map_option rm_healthy (map_of (rs_monitors s) relay_id)"

definition last_probe :: "relay_supervisor \<Rightarrow> int \<Rightarrow> probe_result option" where
  "last_probe s relay_id = map_of (rs_last s) relay_id"

text \<open>What a pass meets: the answer of each relay's probe, the monotonic and the wall clock.\<close>

record pass_input =
  pi_relays :: "relay list"
  pi_probe :: "relay \<Rightarrow> bool option"
  pi_now :: "relay \<Rightarrow> rat"
  pi_wall :: "relay \<Rightarrow> string"

definition record_probe :: "relay \<Rightarrow> bool option \<Rightarrow> string \<Rightarrow> relay_supervisor \<Rightarrow> relay_supervisor" where
  "record_probe r probed wall s =
     (case probed of None \<Rightarrow> s
      | Some ok \<Rightarrow> s\<lparr>rs_last := AList.update (ry_id r)
                         \<lparr>pb_ok = ok, pb_checked_at = wall, pb_host = ry_host r\<rparr> (rs_last s)\<rparr>)"

definition probe_now :: "relay \<Rightarrow> bool option \<Rightarrow> string \<Rightarrow> relay_supervisor \<Rightarrow> relay_supervisor" where
  "probe_now r probed wall s = record_probe r probed wall s"

definition monitor_for :: "relay_supervisor \<Rightarrow> int \<Rightarrow> relay_monitor" where
  "monitor_for s relay_id =
     (case map_of (rs_monitors s) relay_id of None \<Rightarrow> new_relay_monitor | Some m \<Rightarrow> m)"

definition check_relay :: "pass_input \<Rightarrow> relay \<Rightarrow> relay_supervisor \<Rightarrow> relay_supervisor" where
  "check_relay i r s =
     (let s1 = record_probe r (pi_probe i r) (pi_wall i r) s
      in case monitor_check (rs_window s) (rs_window s) (pi_now i r) (pi_probe i r) (monitor_for s (ry_id r)) of
          (crossed, m) \<Rightarrow>
            s1\<lparr>rs_monitors := AList.update (ry_id r) m (rs_monitors s1),
               rs_alerts := rs_alerts s1 @
                 (if crossed then [if rm_healthy m then RelayRecovered r else RelayDown r] else [])\<rparr>)"

definition refresh :: "relay list \<Rightarrow> relay_supervisor \<Rightarrow> relay_supervisor" where
  "refresh relays s =
     s\<lparr>rs_monitors := filter (\<lambda>(k, _). k \<in> ry_id ` set (filter ry_enabled relays)) (rs_monitors s),
       rs_last := filter (\<lambda>(k, _). k \<in> ry_id ` set relays) (rs_last s),
       rs_current := fold (\<lambda>r. AList.update (ry_id r) r) relays []\<rparr>"

definition supervisor_pass :: "pass_input \<Rightarrow> relay_supervisor \<Rightarrow> relay_supervisor" where
  "supervisor_pass i s = fold (check_relay i) (filter ry_enabled (pi_relays i)) (refresh (pi_relays i) s)"

section \<open>The monitor as an instance of the shared latch\<close>

definition monitor_latch :: "relay_monitor \<Rightarrow> latch" where
  "monitor_latch m = \<lparr>l_healthy = rm_healthy m, l_fail_since = rm_fail_since m, l_success_since = rm_success_since m\<rparr>"

definition probe_answer :: "rat \<times> bool option \<Rightarrow> (rat \<times> bool) option" where
  "probe_answer p = Some (fst p, case snd p of None \<Rightarrow> False | Some b \<Rightarrow> b)"

definition relay_check :: "rat \<Rightarrow> rat \<times> bool option \<Rightarrow> relay_monitor \<Rightarrow> relay_monitor" where
  "relay_check window p m = snd (monitor_check window window (fst p) (snd p) m)"

interpretation relay_latch: health_monitor "relay_check window" monitor_latch probe_answer window window
  for window
  by unfold_locales
    (auto simp: relay_check_def monitor_check_def monitor_latch_def probe_answer_def latch_step_def Let_def)

definition relay_history :: "(rat \<times> bool option) list \<Rightarrow> (rat \<times> bool) list" where
  "relay_history ps = map (\<lambda>p. (fst p, case snd p of None \<Rightarrow> False | Some b \<Rightarrow> b)) (rev ps)"

lemma relay_history_eq: "relay_latch.history ps = relay_history ps"
  by (simp add: relay_latch.history_def relay_history_def map_filter_def probe_answer_def comp_def rev_map)

lemma monitor_latch_new: "monitor_latch new_relay_monitor = fresh_latch True"
  by (simp add: monitor_latch_def new_relay_monitor_def fresh_latch_def)

lemma monitor_latch_healthy: "l_healthy (monitor_latch m) = rm_healthy m"
  by (simp add: monitor_latch_def)

section \<open>A pass\<close>

lemma record_probe_fields [simp]:
  "rs_window (record_probe r p w s) = rs_window s" "rs_monitors (record_probe r p w s) = rs_monitors s"
  "rs_alerts (record_probe r p w s) = rs_alerts s" "rs_current (record_probe r p w s) = rs_current s"
  by (simp_all add: record_probe_def split: option.splits)

lemma check_relay_fields:
  "rs_window (check_relay i r s) = rs_window s" "rs_current (check_relay i r s) = rs_current s"
  "map_of (rs_monitors (check_relay i r s)) = (map_of (rs_monitors s))(ry_id r \<mapsto>
     relay_check (rs_window s) (pi_now i r, pi_probe i r) (monitor_for s (ry_id r)))"
  by (simp_all add: check_relay_def Let_def relay_check_def update_conv' split: prod.splits)

lemma check_relays_monitors:
  assumes "distinct (map ry_id rs)"
  shows "map_of (rs_monitors (fold (check_relay i) rs s)) k =
      (case find (\<lambda>r. ry_id r = k) rs of
         None \<Rightarrow> map_of (rs_monitors s) k
       | Some r \<Rightarrow> Some (relay_check (rs_window s) (pi_now i r, pi_probe i r) (monitor_for s k)))"
  using assms
proof (induction rs arbitrary: s)
  case Nil
  then show ?case by simp
next
  case (Cons r rs)
  have "find (\<lambda>r. ry_id r = k) rs = None" if "ry_id r = k"
    using distinct_keyD [OF Cons.prems] that by (auto simp: find_None_iff)
  with Cons show ?case
    by (auto simp: check_relay_fields monitor_for_def split: option.splits)
qed

lemma map_of_filter_keys: "map_of (filter (\<lambda>(k, _). k \<in> A) d) k = (if k \<in> A then map_of d k else None)"
  by (induction d) auto

lemma supervisor_pass_monitors:
  assumes "distinct (map ry_id (pi_relays i))"
  shows "map_of (rs_monitors (supervisor_pass i s)) k =
      (case find (\<lambda>r. ry_id r = k) (filter ry_enabled (pi_relays i)) of
         None \<Rightarrow> None
       | Some r \<Rightarrow> Some (relay_check (rs_window s) (pi_now i r, pi_probe i r) (monitor_for s k)))"
proof -
  have "distinct (map ry_id (filter ry_enabled (pi_relays i)))"
    using assms by (simp add: distinct_map_filter)
  then have pass: "map_of (rs_monitors (supervisor_pass i s)) k =
      (case find (\<lambda>r. ry_id r = k) (filter ry_enabled (pi_relays i)) of
         None \<Rightarrow> map_of (rs_monitors (refresh (pi_relays i) s)) k
       | Some r \<Rightarrow> Some (relay_check (rs_window (refresh (pi_relays i) s)) (pi_now i r, pi_probe i r)
                     (monitor_for (refresh (pi_relays i) s) k)))"
    unfolding supervisor_pass_def by (rule check_relays_monitors)
  have kept: "map_of (rs_monitors (refresh (pi_relays i) s)) k =
      (if k \<in> ry_id ` set (filter ry_enabled (pi_relays i)) then map_of (rs_monitors s) k else None)"
    by (simp add: refresh_def map_of_filter_keys)
  show ?thesis
  proof (cases "find (\<lambda>r. ry_id r = k) (filter ry_enabled (pi_relays i))")
    case None
    then have "k \<notin> ry_id ` set (filter ry_enabled (pi_relays i))" by (auto simp: find_None_iff)
    with pass kept None show ?thesis by simp
  next
    case (Some r)
    then have "k \<in> ry_id ` set (filter ry_enabled (pi_relays i))" using find_Some_in [OF Some] by auto
    with pass kept Some show ?thesis by (simp add: monitor_for_def refresh_def)
  qed
qed

text \<open>
  After a pass exactly the enabled relays have a latch, and a relay's latch depends on its
  own previous latch and its own probe only: no other relay, slow, dead or raising, affects it.
\<close>

theorem relay_latches_independent:
  assumes "distinct (map ry_id (pi_relays i))" "distinct (map ry_id (pi_relays j))"
    "r \<in> set (pi_relays i)" "r \<in> set (pi_relays j)" "ry_enabled r"
    "rs_window s = rs_window t" "map_of (rs_monitors s) (ry_id r) = map_of (rs_monitors t) (ry_id r)"
    "pi_now i r = pi_now j r" "pi_probe i r = pi_probe j r"
  shows "map_of (rs_monitors (supervisor_pass i s)) (ry_id r) = map_of (rs_monitors (supervisor_pass j t)) (ry_id r)
    \<and> map_of (rs_monitors (supervisor_pass i s)) (ry_id r) \<noteq> None
    \<and> dom (map_of (rs_monitors (supervisor_pass i s))) = ry_id ` {r \<in> set (pi_relays i). ry_enabled r}"
proof -
  have found: "find (\<lambda>x. ry_id x = ry_id r) (filter ry_enabled (pi_relays k)) = Some r"
    if "distinct (map ry_id (pi_relays k))" "r \<in> set (pi_relays k)" for k :: pass_input
    using that assms(5) by (intro find_unique) (simp_all add: distinct_map_filter)
  have "dom (map_of (rs_monitors (supervisor_pass i s))) = ry_id ` {r \<in> set (pi_relays i). ry_enabled r}"
  proof (rule set_eqI)
    fix k
    show "k \<in> dom (map_of (rs_monitors (supervisor_pass i s))) \<longleftrightarrow> k \<in> ry_id ` {r \<in> set (pi_relays i). ry_enabled r}"
    proof (cases "find (\<lambda>r. ry_id r = k) (filter ry_enabled (pi_relays i))")
      case None
      then have "k \<notin> ry_id ` {r \<in> set (pi_relays i). ry_enabled r}" by (auto simp: find_None_iff)
      with None show ?thesis by (simp add: domIff supervisor_pass_monitors [OF assms(1)])
    next
      case (Some x)
      with find_Some_in [OF Some] show ?thesis
        by (auto simp: domIff supervisor_pass_monitors [OF assms(1)])
    qed
  qed
  with assms(6-9) show ?thesis
    by (simp add: supervisor_pass_monitors [OF assms(1)] supervisor_pass_monitors [OF assms(2)]
        found [OF assms(1,3)] found [OF assms(2,4)] monitor_for_def)
qed

text \<open>
  A relay that is new to the loop starts as healthy and is reported down only after probes
  that failed without interruption for the whole window; then it is, at the latest.
\<close>

theorem relay_latch_sound:
  assumes "sorted_wrt (\<lambda>p q. fst q \<le> fst p) (relay_history ps)"
  shows "(sustained False window (relay_history ps) \<longrightarrow> \<not> rm_healthy (fold (relay_check window) ps new_relay_monitor))
    \<and> (sustained True window (relay_history ps) \<longrightarrow> rm_healthy (fold (relay_check window) ps new_relay_monitor))
    \<and> rm_healthy (fold (relay_check window) ps new_relay_monitor) = latch_ref window window True (relay_history ps)"
  using relay_latch.sustained_failure_is_down [OF monitor_latch_new, of ps window]
    relay_latch.sustained_success_is_up [OF monitor_latch_new, of ps window]
    relay_latch.healthy_run [OF monitor_latch_new, of window ps] assms
  by (auto simp: relay_history_eq monitor_latch_healthy)

section \<open>Alerts\<close>

lemma check_relay_alerts:
  "rs_alerts (check_relay i r s) = rs_alerts s @
     (let m = monitor_for s (ry_id r); m' = relay_check (rs_window s) (pi_now i r, pi_probe i r) m
      in if rm_healthy m' = rm_healthy m then [] else [if rm_healthy m' then RelayRecovered r else RelayDown r])"
  by (auto simp: check_relay_def relay_check_def monitor_check_def Let_def)

lemma check_relays_alerts:
  assumes "distinct (map ry_id rs)"
  shows "rs_alerts (fold (check_relay i) rs s) = rs_alerts s @ concat (map (\<lambda>r.
     let m = monitor_for s (ry_id r); m' = relay_check (rs_window s) (pi_now i r, pi_probe i r) m
     in if rm_healthy m' = rm_healthy m then [] else [if rm_healthy m' then RelayRecovered r else RelayDown r]) rs)"
  using assms
proof (induction rs arbitrary: s)
  case Nil
  then show ?case by simp
next
  case (Cons r rs)
  have "monitor_for (check_relay i r s) (ry_id q) = monitor_for s (ry_id q)" if "q \<in> set rs" for q
  proof -
    have "ry_id q \<noteq> ry_id r" using distinct_keyD [OF Cons.prems that] .
    then show ?thesis by (simp add: monitor_for_def check_relay_fields)
  qed
  with Cons show ?case
    by (auto simp: check_relay_alerts check_relay_fields intro!: arg_cong [where f = concat] map_cong)
qed

text \<open>
  A pass alerts about an enabled relay exactly when its latch flips, once, and about no other
  relay; \<open>probe_now\<close> probes never alert and never touch a latch.
\<close>

theorem relay_alert_per_flip:
  assumes "distinct (map ry_id (pi_relays i))"
  shows "rs_alerts (supervisor_pass i s) = rs_alerts s @ concat (map (\<lambda>r.
      let was = rm_healthy (monitor_for s (ry_id r)); up = relay_healthy (supervisor_pass i s) (ry_id r)
      in if up = Some was then [] else [if up = Some True then RelayRecovered r else RelayDown r])
        (filter ry_enabled (pi_relays i)))
    \<and> rs_monitors (probe_now r p w s) = rs_monitors s \<and> rs_alerts (probe_now r p w s) = rs_alerts s"
proof -
  let ?rs = "filter ry_enabled (pi_relays i)"
  have d: "distinct (map ry_id ?rs)" using assms by (simp add: distinct_map_filter)
  have "monitor_for (refresh (pi_relays i) s) (ry_id r) = monitor_for s (ry_id r)" if "r \<in> set ?rs" for r
    using that by (auto simp: monitor_for_def refresh_def map_of_filter_keys)
  moreover have "relay_healthy (supervisor_pass i s) (ry_id r) =
      Some (rm_healthy (relay_check (rs_window s) (pi_now i r, pi_probe i r) (monitor_for s (ry_id r))))"
    if "r \<in> set ?rs" for r
    using find_unique [OF d that] by (simp add: relay_healthy_def supervisor_pass_monitors [OF assms])
  moreover have "rs_alerts (refresh (pi_relays i) s) = rs_alerts s" "rs_window (refresh (pi_relays i) s) = rs_window s"
    by (simp_all add: refresh_def)
  ultimately show ?thesis
    by (auto simp: supervisor_pass_def [THEN arg_cong [where f = rs_alerts]] check_relays_alerts [OF d] probe_now_def Let_def
        intro!: arg_cong [where f = concat] map_cong)
qed

section \<open>Witnesses\<close>

definition demo_relay :: "int \<Rightarrow> relay" where
  "demo_relay k = \<lparr>ry_id = k, ry_name = ''ams'', ry_label = ''ams'', ry_host = ''relay.example'',
     ry_source_ips = [Net 167772160 32], ry_enabled = True, ry_in_subscriptions = True, ry_note = None,
     ry_created_at = [], ry_updated_at = [], ry_created_by = None, ry_updated_by = None\<rparr>"

definition demo_pass :: "rat \<Rightarrow> bool option \<Rightarrow> pass_input" where
  "demo_pass now other = \<lparr>pi_relays = [demo_relay 1, demo_relay 2],
     pi_probe = (\<lambda>r. if ry_id r = 1 then Some False else other), pi_now = (\<lambda>_. now), pi_wall = (\<lambda>_. [])\<rparr>"

lemma relay_latches_independent_witness:
  "map_of (rs_monitors (supervisor_pass (demo_pass 0 None) (new_supervisor 60))) 1
   = map_of (rs_monitors (supervisor_pass (demo_pass 0 (Some True)) (new_supervisor 60))) 1"
  using relay_latches_independent [of "demo_pass 0 None" "demo_pass 0 (Some True)" "demo_relay 1"
      "new_supervisor 60" "new_supervisor 60"]
  by (simp add: demo_pass_def demo_relay_def new_supervisor_def)

lemma relay_latch_sound_witness:
  "\<not> rm_healthy (fold (relay_check 60) [(0, Some True), (10, Some False), (70, None)] new_relay_monitor)"
proof -
  have "sustained False 60 (relay_history [(0, Some True), (10, Some False), (70, None)])"
    by (simp add: sustained_def relay_history_def exI [of _ 2])
  then show ?thesis
    using relay_latch_sound [of "[(0, Some True), (10, Some False), (70, None)]" 60]
    by (simp add: relay_history_def)
qed

lemma relay_alert_per_flip_witness:
  "rs_alerts (supervisor_pass (demo_pass 0 None) (new_supervisor 0)) \<noteq> []"
  using relay_alert_per_flip [of "demo_pass 0 None" "new_supervisor 0" "demo_relay 1" None "[]"]
  by (simp add: demo_pass_def demo_relay_def new_supervisor_def supervisor_pass_def refresh_def check_relay_def
      record_probe_def monitor_check_def monitor_for_def new_relay_monitor_def since_def relay_healthy_def Let_def)

end
