(* ===== verification/World.thy ===== *)
theory World
  imports Model_Types Py_Strings
begin

text \<open>
  What the services share: the database (one list of rows per table of \<open>db/schema.sql\<close>, with the
  AUTOINCREMENT counters), the configuration and clock they read, the exceptions they raise
  (the classes of \<open>services/errors.py\<close>, \<open>db/exceptions.py\<close> and SQLite, with an ASCII tag for the
  message), and the audit log. A service reads the clock several times in one operation; the
  model reads it once.
\<close>

datatype service_error =
    AccessDenied string | NotFound string | InvalidOperation string | InvalidTransition string
  | RelayUnavailable string | ConcurrentModificationError | IntegrityError string
  | RuntimeFailure string | ValueError string | BackendFailure string

datatype audit_entity_type =
    EntityUser | EntityAccessRequest | EntityVpnKey | EntityKeyBundle | EntityRelay | EntityProxy | EntitySystem

record audit_entry =
  au_actor :: "int option"
  au_action :: string
  au_entity_type :: audit_entity_type
  au_entity_id :: "int option"
  au_error_count :: int \<comment> \<open>\<open>details["error_count"]\<close>, zero when absent\<close>
  au_created_at :: string

record archived_traffic =
  at_key_id :: int
  at_owner_user_id :: int
  at_key_type :: vpn_key_type
  at_downloaded_bytes :: int
  at_uploaded_bytes :: int
  at_deleted_at :: string

record world =
  db_users :: "user list"
  db_access_requests :: "access_request list"
  db_access_request_seq :: int
  db_vpn_keys :: "vpn_key list"
  db_vpn_key_seq :: "int option" \<comment> \<open>the row of \<open>sqlite_sequence\<close>, absent before the first insert\<close>
  db_key_bundles :: "key_bundle list"
  db_key_bundle_seq :: int
  db_relays :: "relay list"
  db_trial_requests :: "trial_key_request list"
  db_trial_request_seq :: int
  db_traffic_stats :: "traffic_stats list"
  db_traffic_archive :: "archived_traffic list"
  db_proxy_accesses :: "proxy_access list"
  db_proxy_access_seq :: int
  db_audit :: "audit_entry list"
  fsm_cleared :: "int list" \<comment> \<open>users whose FSM state was cleared\<close>

definition empty_world :: world where
  "empty_world = \<lparr>db_users = [], db_access_requests = [], db_access_request_seq = 0, db_vpn_keys = [],
     db_vpn_key_seq = None, db_key_bundles = [], db_key_bundle_seq = 0, db_relays = [],
     db_trial_requests = [], db_trial_request_seq = 0, db_traffic_stats = [], db_traffic_archive = [],
     db_proxy_accesses = [], db_proxy_access_seq = 0, db_audit = [], fsm_cleared = []\<rparr>"

record env =
  ev_admin_ids :: "int list"
  ev_now :: string
  ev_audit_ok :: bool \<comment> \<open>writing the audit log succeeds\<close>
  ev_instant :: "string \<Rightarrow> rat option" \<comment> \<open>\<open>datetime.fromisoformat\<close>, a naive time read as UTC\<close>

text \<open>\<open>str(exc)\<close>.\<close>

definition error_text :: "service_error \<Rightarrow> string" where
  "error_text err = (case err of AccessDenied m \<Rightarrow> m | NotFound m \<Rightarrow> m | InvalidOperation m \<Rightarrow> m
     | InvalidTransition m \<Rightarrow> m | RelayUnavailable m \<Rightarrow> m | ConcurrentModificationError \<Rightarrow> ''concurrent modification''
     | IntegrityError m \<Rightarrow> m | RuntimeFailure m \<Rightarrow> m | ValueError m \<Rightarrow> m | BackendFailure m \<Rightarrow> m)"

type_synonym 'a act = "(world, service_error, 'a) op"

section \<open>The audit log\<close>

definition audit_write ::
  "env \<Rightarrow> int option \<Rightarrow> string \<Rightarrow> audit_entity_type \<Rightarrow> int option \<Rightarrow> int \<Rightarrow> unit act" where
  "audit_write e actor action entity_type entity_id error_count =
     op_bind (op_guard (ev_audit_ok e) (RuntimeFailure ''audit'')) (\<lambda>_.
     op_modify (\<lambda>w. w\<lparr>db_audit := db_audit w @
       [\<lparr>au_actor = actor, au_action = action, au_entity_type = entity_type, au_entity_id = entity_id,
         au_error_count = error_count, au_created_at = ev_now e\<rparr>]\<rparr>))"

definition audit_write_best_effort ::
  "env \<Rightarrow> int option \<Rightarrow> string \<Rightarrow> audit_entity_type \<Rightarrow> int option \<Rightarrow> int \<Rightarrow> unit act" where
  "audit_write_best_effort e actor action entity_type entity_id error_count =
     op_try (audit_write e actor action entity_type entity_id error_count) (\<lambda>_. op_return ())"

lemma audit_write_run [op_simps]:
  "audit_write e actor action et eid n w =
     (if ev_audit_ok e
      then (Inr (), w\<lparr>db_audit := db_audit w @
        [\<lparr>au_actor = actor, au_action = action, au_entity_type = et, au_entity_id = eid,
          au_error_count = n, au_created_at = ev_now e\<rparr>]\<rparr>)
      else (Inl (RuntimeFailure ''audit''), w))"
  by (simp add: audit_write_def op_bind_def op_guard_def op_modify_def)

lemma audit_best_effort_run [op_simps]:
  "audit_write_best_effort e actor action et eid n w =
     (Inr (), if ev_audit_ok e
      then w\<lparr>db_audit := db_audit w @
        [\<lparr>au_actor = actor, au_action = action, au_entity_type = et, au_entity_id = eid,
          au_error_count = n, au_created_at = ev_now e\<rparr>]\<rparr>
      else w)"
  by (simp add: audit_write_best_effort_def op_try_def audit_write_run op_return_def)

text \<open>A predicate that neither the audit log nor the FSM clearing can change.\<close>

lemma op_keeps_audit:
  "(\<And>w f. I w \<Longrightarrow> I (w\<lparr>db_audit := f\<rparr>)) \<Longrightarrow> op_keeps I (audit_write e a b c d n)"
  by (rule op_keepsI) (simp add: audit_write_run)

lemma op_keeps_audit_best_effort:
  "(\<And>w f. I w \<Longrightarrow> I (w\<lparr>db_audit := f\<rparr>)) \<Longrightarrow> op_keeps I (audit_write_best_effort e a b c d n)"
  by (rule op_keepsI) (simp add: audit_best_effort_run)

end
