(* ===== verification/Users_Repo.thy ===== *)
theory Users_Repo
  imports World
begin

text \<open>
  \<open>models/access.py\<close> and \<open>repositories/users.py\<close>: the users table. A row is found by its primary
  key \<open>telegram_user_id\<close>; the invariant \<open>users_ok\<close> is that key's uniqueness.
\<close>

definition is_blocked_user :: "user \<Rightarrow> bool" where
  "is_blocked_user u \<longleftrightarrow>
     (if u_role u = SUPERADMIN then False else u_role u = BLOCKED_USER \<or> u_blocked_at u \<noteq> None)"

definition users_ok :: "world \<Rightarrow> bool" where
  "users_ok w \<longleftrightarrow> distinct (map u_telegram_user_id (db_users w))"

abbreviation has_id :: "int \<Rightarrow> user \<Rightarrow> bool" where
  "has_id uid \<equiv> (\<lambda>u. u_telegram_user_id u = uid)"

definition user_get_by_id :: "int \<Rightarrow> world \<Rightarrow> user option" where
  "user_get_by_id uid w = find (has_id uid) (db_users w)"

definition new_user :: "telegram_user_profile \<Rightarrow> user_role \<Rightarrow> string \<Rightarrow> user" where
  "new_user p role now =
     \<lparr>u_telegram_user_id = pr_telegram_user_id p, u_username = pr_username p, u_first_name = pr_first_name p,
      u_role = role, u_created_at = now, u_updated_at = now, u_blocked_at = None, u_note = None,
      u_language = None, u_expiry_notifications_enabled = True, u_trial_quota_reset_at = None\<rparr>"

definition upsert_profile :: "telegram_user_profile \<Rightarrow> user_role \<Rightarrow> string \<Rightarrow> user act" where
  "upsert_profile p role now =
     op_bind (op_modify (\<lambda>w. w\<lparr>db_users :=
       (if list_ex (has_id (pr_telegram_user_id p)) (db_users w)
        then update_where (has_id (pr_telegram_user_id p))
               (\<lambda>u. u\<lparr>u_username := pr_username p, u_first_name := pr_first_name p, u_updated_at := now\<rparr>)
               (db_users w)
        else db_users w @ [new_user p role now])\<rparr>)) (\<lambda>_.
     op_bind (op_get (user_get_by_id (pr_telegram_user_id p))) (\<lambda>found.
     case found of None \<Rightarrow> op_raise (RuntimeFailure ''User upsert failed'') | Some u \<Rightarrow> op_return u))"

definition insert_or_ignore_admin :: "string \<Rightarrow> int \<Rightarrow> user list \<Rightarrow> user list" where
  "insert_or_ignore_admin now uid rows =
     (if list_ex (has_id uid) rows then rows
      else rows @ [new_user \<lparr>pr_telegram_user_id = uid, pr_username = None, pr_first_name = None\<rparr> SUPERADMIN now])"

definition create_admin_placeholders :: "int list \<Rightarrow> string \<Rightarrow> unit act" where
  "create_admin_placeholders admin_ids now =
     op_modify (\<lambda>w. w\<lparr>db_users := fold (insert_or_ignore_admin now) admin_ids (db_users w)\<rparr>)"

text \<open>An \<open>UPDATE\<close> by primary key that raises \<open>NotFound\<close> when no row was there.\<close>

definition update_user :: "int \<Rightarrow> (user \<Rightarrow> user) \<Rightarrow> unit act" where
  "update_user uid f =
     op_bind (op_get (\<lambda>w. count_where (has_id uid) (db_users w))) (\<lambda>rowcount.
     op_bind (op_modify (\<lambda>w. w\<lparr>db_users := update_where (has_id uid) f (db_users w)\<rparr>)) (\<lambda>_.
     op_guard (rowcount = 1) (NotFound ''user'')))"

definition repo_set_role :: "int \<Rightarrow> user_role \<Rightarrow> string \<Rightarrow> string option \<Rightarrow> unit act" where
  "repo_set_role uid role now blocked_at =
     update_user uid (\<lambda>u. u\<lparr>u_role := role, u_updated_at := now, u_blocked_at := blocked_at\<rparr>)"

definition repo_update_note :: "int \<Rightarrow> string option \<Rightarrow> string \<Rightarrow> unit act" where
  "repo_update_note uid note now = update_user uid (\<lambda>u. u\<lparr>u_note := note, u_updated_at := now\<rparr>)"

definition repo_set_language :: "int \<Rightarrow> string option \<Rightarrow> string \<Rightarrow> unit act" where
  "repo_set_language uid language now = update_user uid (\<lambda>u. u\<lparr>u_language := language, u_updated_at := now\<rparr>)"

definition repo_set_expiry_notifications_enabled :: "int \<Rightarrow> bool \<Rightarrow> string \<Rightarrow> unit act" where
  "repo_set_expiry_notifications_enabled uid enabled now =
     update_user uid (\<lambda>u. u\<lparr>u_expiry_notifications_enabled := enabled, u_updated_at := now\<rparr>)"

definition reset_trial_quota :: "int \<Rightarrow> string \<Rightarrow> unit act" where
  "reset_trial_quota uid now =
     op_modify (\<lambda>w. w\<lparr>db_users := update_where (has_id uid)
       (\<lambda>u. u\<lparr>u_trial_quota_reset_at := Some now, u_updated_at := now\<rparr>) (db_users w)\<rparr>)"

definition get_trial_quota_reset_at :: "int \<Rightarrow> world \<Rightarrow> string option" where
  "get_trial_quota_reset_at uid w =
     (case user_get_by_id uid w of None \<Rightarrow> None | Some u \<Rightarrow> u_trial_quota_reset_at u)"

section \<open>Queries\<close>

definition repo_count_users :: "world \<Rightarrow> int" where
  "repo_count_users w = int (length (db_users w))"

definition repo_list_users :: "int \<Rightarrow> int \<Rightarrow> world \<Rightarrow> user list" where
  "repo_list_users limit offset w = page limit offset (sort_desc u_updated_at (db_users w))"

text \<open>
  \<open>search_users\<close>. SQLite's \<open>lower\<close> folds ASCII letters only. \<open>str.isdigit\<close> accepts the
  superscript digits of Latin-1, which \<open>int\<close> then refuses with \<open>ValueError\<close>.
\<close>

definition sql_lower :: "string \<Rightarrow> string" where
  "sql_lower s = map (\<lambda>c. let n = code_point c in if 65 \<le> n \<and> n \<le> 90 then char_of (n + 32) else c) s"

fun infix_of :: "string \<Rightarrow> string \<Rightarrow> bool" where
  "infix_of p [] = (p = [])"
| "infix_of p (c # cs) = (startswith p (c # cs) \<or> infix_of p cs)"

definition drop_at :: "string \<Rightarrow> string" where
  "drop_at s = (case s of c # cs \<Rightarrow> if c = CHR ''@'' then cs else s | [] \<Rightarrow> [])"

definition repo_search_users :: "string \<Rightarrow> int \<Rightarrow> world \<Rightarrow> service_error + user list" where
  "repo_search_users query limit w =
     (let needle = drop_at (strip query)
      in if needle = [] then Inr []
         else if str_isdigit needle
         then (if length needle > 19 then Inr []
               else if \<not> list_all ascii_digit needle then Inl (ValueError ''int'')
               else Inr (take 1 (filter (has_id (int (undec needle))) (db_users w))))
         else Inr (page limit 0 (sort_desc u_updated_at
                (filter (\<lambda>u. case u_username u of None \<Rightarrow> False
                           | Some name \<Rightarrow> infix_of (sql_lower (lower needle)) (sql_lower name)) (db_users w)))))"

definition list_by_ids :: "int list \<Rightarrow> world \<Rightarrow> (int, user) dict" where
  "list_by_ids ids w =
     fold (\<lambda>u. AList.update (u_telegram_user_id u) u)
       (filter (\<lambda>u. u_telegram_user_id u \<in> set ids) (db_users w)) []"

text \<open>Announcements: keyset pagination by user id.\<close>

definition announcement_recipient :: "user \<Rightarrow> bool" where
  "announcement_recipient u \<longleftrightarrow> u_blocked_at u = None \<and> u_role u \<in> {APPROVED_USER, SUPERADMIN}"

definition recipients_after :: "(user \<Rightarrow> bool) \<Rightarrow> int option \<Rightarrow> int \<Rightarrow> world \<Rightarrow> user list" where
  "recipients_after P last_seen limit w =
     take (nat (clamp_limit limit)) (sort_key u_telegram_user_id
       (filter (\<lambda>u. P u \<and> (case last_seen of None \<Rightarrow> True | Some k \<Rightarrow> u_telegram_user_id u > k)) (db_users w)))"

definition count_announcement_recipients :: "world \<Rightarrow> int" where
  "count_announcement_recipients w = count_where announcement_recipient (db_users w)"

definition list_announcement_recipients_after :: "int option \<Rightarrow> int \<Rightarrow> world \<Rightarrow> user list" where
  "list_announcement_recipients_after = recipients_after announcement_recipient"

definition is_announcement_recipient :: "int \<Rightarrow> world \<Rightarrow> bool" where
  "is_announcement_recipient uid w \<longleftrightarrow> list_ex (\<lambda>u. has_id uid u \<and> announcement_recipient u) (db_users w)"

text \<open>\<open>_build_segment_where\<close>.\<close>

definition owns_active_key :: "world \<Rightarrow> user \<Rightarrow> vpn_key_type \<Rightarrow> (vpn_key \<Rightarrow> bool) \<Rightarrow> bool" where
  "owns_active_key w u t P \<longleftrightarrow> list_ex (\<lambda>k. vk_owner_user_id k = u_telegram_user_id u
     \<and> vk_key_type k = t \<and> vk_status k = KeyActive \<and> P k) (db_vpn_keys w)"

definition owns_active_proxy :: "world \<Rightarrow> user \<Rightarrow> proxy_access_type \<Rightarrow> bool" where
  "owns_active_proxy w u t \<longleftrightarrow> list_ex (\<lambda>p. pa_owner_user_id p = u_telegram_user_id u
     \<and> pa_access_type p = t \<and> pa_status p = ProxyActive) (db_proxy_accesses w)"

definition protocol_clause :: "world \<Rightarrow> recipient_filter \<Rightarrow> user \<Rightarrow> string \<Rightarrow> bool" where
  "protocol_clause w f u protocol =
     (if protocol = ''xray''
      then owns_active_key w u XRAY (\<lambda>k. rf_transports f = [] \<or> vk_transport k \<in> set (rf_transports f))
      else if protocol = ''awg'' then owns_active_key w u AWG (\<lambda>_. True)
      else if protocol = ''hysteria2'' then owns_active_key w u HYSTERIA2 (\<lambda>_. True)
      else if protocol = ''socks5'' then owns_active_proxy w u SOCKS5
      else if protocol = ''mtproto'' then owns_active_proxy w u MTPROTO
      else False)"

definition known_protocols :: "recipient_filter \<Rightarrow> string list" where
  "known_protocols f = filter (\<lambda>p. p \<in> set segment_protocols) (rf_protocols f)"

definition segment_recipient :: "world \<Rightarrow> recipient_filter \<Rightarrow> user \<Rightarrow> bool" where
  "segment_recipient w f u \<longleftrightarrow> u_blocked_at u = None
     \<and> user_role_value (u_role u) \<in> set (if rf_roles f = [] then targetable_roles else rf_roles f)
     \<and> (known_protocols f = [] \<or> list_ex (protocol_clause w f u) (known_protocols f))"

definition count_segment_recipients :: "recipient_filter \<Rightarrow> world \<Rightarrow> int" where
  "count_segment_recipients f w = count_where (segment_recipient w f) (db_users w)"

definition list_segment_recipients_after :: "recipient_filter \<Rightarrow> int option \<Rightarrow> int \<Rightarrow> world \<Rightarrow> user list" where
  "list_segment_recipients_after f last_seen limit w = recipients_after (segment_recipient w f) last_seen limit w"

definition is_segment_recipient :: "int \<Rightarrow> recipient_filter \<Rightarrow> world \<Rightarrow> bool" where
  "is_segment_recipient uid f w \<longleftrightarrow> list_ex (\<lambda>u. segment_recipient w f u \<and> has_id uid u) (db_users w)"

section \<open>Facts about the rows\<close>

lemma user_unique:
  "users_ok w \<Longrightarrow> u \<in> set (db_users w) \<Longrightarrow> user_get_by_id (u_telegram_user_id u) w = Some u"
  unfolding users_ok_def user_get_by_id_def by (rule find_unique)

lemma user_get_Some: "user_get_by_id uid w = Some u \<Longrightarrow> u \<in> set (db_users w) \<and> u_telegram_user_id u = uid"
  unfolding user_get_by_id_def by (rule find_Some_in)

lemma update_user_run:
  assumes "users_ok w"
  shows "update_user uid f w = (case user_get_by_id uid w of
      None \<Rightarrow> (Inl (NotFound ''user''), w)
    | Some _ \<Rightarrow> (Inr (), w\<lparr>db_users := update_where (has_id uid) f (db_users w)\<rparr>))"
proof (cases "user_get_by_id uid w")
  case None
  then have "filter (has_id uid) (db_users w) = []"
    by (auto simp: user_get_by_id_def find_None_iff filter_empty_conv)
  with None show ?thesis
    by (simp add: update_user_def op_simps update_where_none count_where_def)
next
  case (Some u)
  then show ?thesis
    using count_key_row [of u_telegram_user_id "db_users w" uid u "\<lambda>_. True"] assms
    by (simp add: update_user_def op_simps users_ok_def user_get_by_id_def)
qed

definition keeps_id :: "(user \<Rightarrow> user) \<Rightarrow> bool" where
  "keeps_id f \<longleftrightarrow> (\<forall>u. u_telegram_user_id (f u) = u_telegram_user_id u)"

lemma map_id_update_where: "keeps_id f \<Longrightarrow> map u_telegram_user_id (update_where P f rows) = map u_telegram_user_id rows"
  by (simp add: keeps_id_def map_update_where)

lemma users_ok_update: "users_ok w \<Longrightarrow> keeps_id f \<Longrightarrow> users_ok (w\<lparr>db_users := update_where P f (db_users w)\<rparr>)"
  by (simp add: users_ok_def map_id_update_where)

lemma user_get_update:
  assumes "keeps_id f"
  shows "user_get_by_id uid (w\<lparr>db_users := update_where (has_id k) f (db_users w)\<rparr>) =
    (if uid = k then map_option f (user_get_by_id uid w) else user_get_by_id uid w)"
proof -
  have get: "user_get_by_id uid (w\<lparr>db_users := update_where (has_id k) f (db_users w)\<rparr>) =
      map_option (\<lambda>x. if u_telegram_user_id x = k then f x else x) (user_get_by_id uid w)"
    using assms by (simp add: user_get_by_id_def keeps_id_def find_update_key)
  show ?thesis
  proof (cases "user_get_by_id uid w")
    case None
    with get show ?thesis by auto
  next
    case (Some u)
    with get user_get_Some [OF Some] show ?thesis by auto
  qed
qed

lemma keeps_id_role [simp]: "keeps_id (\<lambda>u. u\<lparr>u_role := r, u_updated_at := t, u_blocked_at := b\<rparr>)"
  by (simp add: keeps_id_def)

lemma list_ex_has_id: "list_ex (has_id uid) (db_users w) \<longleftrightarrow> user_get_by_id uid w \<noteq> None"
  by (auto simp: user_get_by_id_def list_ex_iff find_None_iff)

lemma insert_or_ignore_ids:
  "distinct (map u_telegram_user_id rows) \<Longrightarrow> distinct (map u_telegram_user_id (insert_or_ignore_admin now uid rows))"
  by (auto simp: insert_or_ignore_admin_def new_user_def list_ex_iff)

lemma users_ok_placeholders: "op_keeps users_ok (create_admin_placeholders ids now)"
proof -
  have "distinct (map u_telegram_user_id (fold (insert_or_ignore_admin now) ids rows))"
    if "distinct (map u_telegram_user_id rows)" for rows
    using that by (induction ids arbitrary: rows) (auto simp: insert_or_ignore_ids)
  then show ?thesis
    by (auto simp: create_admin_placeholders_def users_ok_def intro!: op_keeps_modify)
qed

section \<open>Keyset pagination\<close>

lemma filter_greater_drop:
  assumes "sorted_wrt (<) (map key xs)" "0 < n" "n \<le> length xs"
  shows "filter (\<lambda>x. key x > (key (xs ! (n - 1)) :: int)) xs = drop n xs"
proof -
  have mono: "key (xs ! i) \<le> key (xs ! j)" if "i \<le> j" "j < length xs" for i j
    using that sorted_wrt_nth_less [OF assms(1), of i j] by (cases "i = j") (auto simp: nth_map)
  have "filter (\<lambda>x. key x > key (xs ! (n - 1))) (take n xs) = []"
  proof (rule filter_False, rule ballI)
    fix x assume "x \<in> set (take n xs)"
    then obtain i where "i < n" "x = xs ! i" using assms(3) by (auto simp: in_set_conv_nth)
    with mono [of i "n - 1"] assms(2,3) show "\<not> key x > key (xs ! (n - 1))" by (simp add: not_less)
  qed
  moreover have "filter (\<lambda>x. key x > key (xs ! (n - 1))) (drop n xs) = drop n xs"
  proof (rule filter_True, rule ballI)
    fix x assume "x \<in> set (drop n xs)"
    then obtain j where j: "j < length xs - n" "x = xs ! (n + j)" by (auto simp: in_set_conv_nth)
    then have "map key xs ! (n - 1) < map key xs ! (n + j)"
      using assms by (intro sorted_wrt_nth_less [OF assms(1)]) auto
    then show "key x > key (xs ! (n - 1))" using j assms by (simp add: nth_map)
  qed
  ultimately show ?thesis by (metis append_Nil append_take_drop_id filter_append)
qed

lemma strict_sorted_ids:
  assumes "users_ok w"
  shows "sorted_wrt (<) (map u_telegram_user_id (sort_key u_telegram_user_id (filter P (db_users w))))"
proof -
  have "distinct (map u_telegram_user_id (filter P (db_users w)))"
    using assms by (simp add: users_ok_def distinct_map_filter)
  then have "distinct (map u_telegram_user_id (sort_key u_telegram_user_id (filter P (db_users w))))"
    by (simp add: distinct_map)
  then show ?thesis by (simp add: strict_sorted_iff)
qed

lemma recipients_page:
  assumes "users_ok w" "full = sort_key u_telegram_user_id (filter P (db_users w))" "n \<le> length full"
    "last_seen = (if n = 0 then None else Some (u_telegram_user_id (full ! (n - 1))))"
  shows "recipients_after P last_seen limit w = take (nat (clamp_limit limit)) (drop n full)"
proof (cases "n = 0")
  case True
  with assms show ?thesis by (simp add: recipients_after_def)
next
  case False
  let ?k = "u_telegram_user_id (full ! (n - 1))"
  have "sort_key u_telegram_user_id (filter (\<lambda>u. P u \<and> u_telegram_user_id u > ?k) (db_users w))
      = filter (\<lambda>u. u_telegram_user_id u > ?k) full"
    using assms(2) by (simp add: filter_sort [symmetric] conj_commute)
  also have "\<dots> = drop n full"
    using strict_sorted_ids [OF assms(1), of P] assms(2,3) False
    by (intro filter_greater_drop) auto
  finally show ?thesis using assms(4) False by (simp add: recipients_after_def)
qed

text \<open>
  The pages of a segmented announcement, each fetched after the last user of the previous
  one, are consecutive slices of the list of all matching users by id: nobody is skipped, nobody
  is repeated.
\<close>

theorem segment_pages_partition:
  assumes "users_ok w" "full = sort_key u_telegram_user_id (filter (segment_recipient w f) (db_users w))"
    "n \<le> length full" "last_seen = (if n = 0 then None else Some (u_telegram_user_id (full ! (n - 1))))"
  shows "list_segment_recipients_after f last_seen limit w = take (nat (clamp_limit limit)) (drop n full)"
  unfolding list_segment_recipients_after_def by (rule recipients_page [OF assms])

definition demo_user :: "int \<Rightarrow> user_role \<Rightarrow> user" where
  "demo_user k r = \<lparr>u_telegram_user_id = k, u_username = Some ''u'', u_first_name = None, u_role = r,
     u_created_at = ''1'', u_updated_at = ''1'', u_blocked_at = None, u_note = None, u_language = None,
     u_expiry_notifications_enabled = True, u_trial_quota_reset_at = None\<rparr>"

lemma segment_pages_partition_witness:
  "list_segment_recipients_after \<lparr>rf_roles = [], rf_protocols = [], rf_transports = []\<rparr> (Some 1) 1
     (empty_world\<lparr>db_users := [demo_user 2 MODERATOR, demo_user 1 PENDING_USER, demo_user 3 BLOCKED_USER]\<rparr>)
   = [demo_user 2 MODERATOR]"
  using segment_pages_partition [of
      "empty_world\<lparr>db_users := [demo_user 2 MODERATOR, demo_user 1 PENDING_USER, demo_user 3 BLOCKED_USER]\<rparr>"
      "[demo_user 1 PENDING_USER, demo_user 2 MODERATOR]" "\<lparr>rf_roles = [], rf_protocols = [], rf_transports = []\<rparr>" 1 "Some 1" 1]
  by (simp add: users_ok_def empty_world_def demo_user_def segment_recipient_def known_protocols_def
      targetable_roles_def user_role_value_def clamp_limit_def)

end
