(* ===== verification/Users.thy ===== *)
theory Users
  imports Users_Repo
begin

text \<open>
  \<open>services/users.py\<close>, without the revocation loops of \<open>block_user\<close> (theory \<open>Blocking\<close>): the
  gates every service uses, the role changes, and the state they may reach. The FSM clearer is
  best effort; the users it was called for are recorded.
\<close>

definition clear_user_state :: "int \<Rightarrow> unit act" where
  "clear_user_state uid = op_modify (\<lambda>w. w\<lparr>fsm_cleared := fsm_cleared w @ [uid]\<rparr>)"

definition get_user :: "int \<Rightarrow> user act" where
  "get_user uid = op_bind (op_get (user_get_by_id uid)) (\<lambda>found.
     case found of None \<Rightarrow> op_raise (NotFound ''err_user_not_found'') | Some u \<Rightarrow> op_return u)"

definition bootstrap_admins :: "env \<Rightarrow> unit act" where
  "bootstrap_admins e = create_admin_placeholders (ev_admin_ids e) (ev_now e)"

definition ensure_user :: "env \<Rightarrow> telegram_user_profile \<Rightarrow> user act" where
  "ensure_user e p =
     op_bind (op_get (user_get_by_id (pr_telegram_user_id p))) (\<lambda>existing.
     let is_admin = pr_telegram_user_id p \<in> set (ev_admin_ids e);
         role = (if is_admin then SUPERADMIN
                 else case existing of None \<Rightarrow> PENDING_USER | Some u \<Rightarrow> u_role u)
     in op_bind (upsert_profile p role (ev_now e)) (\<lambda>u.
        if is_admin \<and> u_role u \<noteq> SUPERADMIN
        then op_bind (repo_set_role (pr_telegram_user_id p) SUPERADMIN (ev_now e) None) (\<lambda>_.
             get_user (pr_telegram_user_id p))
        else op_return u))"

definition require_superadmin :: "int \<Rightarrow> user act" where
  "require_superadmin actor = op_bind (get_user actor) (\<lambda>u.
     if u_role u \<noteq> SUPERADMIN then op_raise (AccessDenied ''err_insufficient_rights'') else op_return u)"

definition require_moderator_or_admin :: "int \<Rightarrow> user act" where
  "require_moderator_or_admin actor = op_bind (get_user actor) (\<lambda>u.
     if u_role u \<in> {SUPERADMIN, MODERATOR} then op_return u
     else op_raise (AccessDenied ''err_insufficient_rights''))"

definition require_approved_or_admin :: "int \<Rightarrow> user act" where
  "require_approved_or_admin actor = op_bind (get_user actor) (\<lambda>u.
     if u_role u \<in> {SUPERADMIN, MODERATOR} then op_return u
     else if is_blocked_user u then op_raise (AccessDenied ''err_access_blocked'')
     else if u_role u \<noteq> APPROVED_USER then op_raise (AccessDenied ''access_not_approved'')
     else op_return u)"

definition can_manage_owner :: "int \<Rightarrow> int \<Rightarrow> bool act" where
  "can_manage_owner actor owner = op_bind (get_user actor) (\<lambda>u.
     op_return (u_role u = SUPERADMIN \<or> actor = owner))"

definition set_language :: "env \<Rightarrow> int \<Rightarrow> string option \<Rightarrow> user act" where
  "set_language e actor language =
     op_bind (require_approved_or_admin actor) (\<lambda>_.
     op_bind (op_guard (case language of None \<Rightarrow> True | Some l \<Rightarrow> l \<in> {''ru'', ''en''})
                (InvalidOperation ''language'')) (\<lambda>_.
     op_bind (repo_set_language actor language (ev_now e)) (\<lambda>_. get_user actor)))"

definition set_expiry_notifications :: "env \<Rightarrow> int \<Rightarrow> bool \<Rightarrow> user act" where
  "set_expiry_notifications e actor enabled =
     op_bind (require_approved_or_admin actor) (\<lambda>_.
     op_bind (repo_set_expiry_notifications_enabled actor enabled (ev_now e)) (\<lambda>_. get_user actor))"

definition set_role :: "env \<Rightarrow> int \<Rightarrow> int \<Rightarrow> user_role \<Rightarrow> unit act" where
  "set_role e actor target role =
     op_bind (require_superadmin actor) (\<lambda>_.
     op_bind (op_guard (role \<noteq> BLOCKED_USER) (InvalidOperation ''use block_user'')) (\<lambda>_.
     op_bind (op_guard (\<not> (target \<in> set (ev_admin_ids e) \<and> role \<noteq> SUPERADMIN))
                (InvalidOperation ''superadmin from ADMIN_IDS'')) (\<lambda>_.
     op_bind (get_user target) (\<lambda>current.
     op_bind (op_guard (\<not> (u_role current = SUPERADMIN \<and> role \<noteq> SUPERADMIN))
                (InvalidOperation ''superadmin'')) (\<lambda>_.
     op_bind (op_transaction
        (op_bind (repo_set_role target role (ev_now e) None) (\<lambda>_.
         audit_write e (Some actor)
           (if role = APPROVED_USER \<and> is_blocked_user current then ''user_unblocked'' else ''user_role_changed'')
           EntityUser (Some target) 0))) (\<lambda>_.
     if role \<in> {APPROVED_USER, PENDING_USER} then clear_user_state target else op_return ()))))))"

definition request_is_after_block :: "env \<Rightarrow> string option \<Rightarrow> string \<Rightarrow> bool" where
  "request_is_after_block e blocked_at requested_at =
     (case blocked_at of None \<Rightarrow> False
      | Some b \<Rightarrow> if b = [] then False
          else (case (ev_instant e b, ev_instant e requested_at) of
             (Some blocked, Some requested) \<Rightarrow> requested > blocked | _ \<Rightarrow> False))"

definition approve_access_request_user :: "env \<Rightarrow> int \<Rightarrow> int \<Rightarrow> string \<Rightarrow> (user \<times> bool \<times> bool) act" where
  "approve_access_request_user e actor target requested_at =
     op_bind (require_moderator_or_admin actor) (\<lambda>_.
     op_bind (get_user target) (\<lambda>current.
     if target \<in> set (ev_admin_ids e) \<or> u_role current = SUPERADMIN then op_return (current, False, False)
     else let repeat_after_block = is_blocked_user current
     in op_bind (op_guard (\<not> (repeat_after_block \<and> \<not> request_is_after_block e (u_blocked_at current) requested_at))
                  (InvalidOperation ''user is blocked'')) (\<lambda>_.
        if u_role current = APPROVED_USER \<and> \<not> repeat_after_block then op_return (current, False, False)
        else if u_role current = MODERATOR then op_return (current, False, False)
        else op_bind (op_guard (u_role current \<in> {PENDING_USER, APPROVED_USER, BLOCKED_USER})
                       (InvalidOperation ''role not approvable'')) (\<lambda>_.
             op_bind (repo_set_role target APPROVED_USER (ev_now e) None) (\<lambda>_.
             op_bind (clear_user_state target) (\<lambda>_.
             op_bind (get_user target) (\<lambda>u. op_return (u, True, repeat_after_block))))))))"

definition reject_access_request_user :: "env \<Rightarrow> int \<Rightarrow> int \<Rightarrow> (user option \<times> bool) act" where
  "reject_access_request_user e actor target =
     op_bind (require_moderator_or_admin actor) (\<lambda>_.
     op_bind (op_get (user_get_by_id target)) (\<lambda>found.
     case found of None \<Rightarrow> op_return (None, False)
      | Some u \<Rightarrow>
          if u_role u \<in> {SUPERADMIN, MODERATOR, APPROVED_USER} \<or> is_blocked_user u then op_return (Some u, False)
          else op_bind (op_guard (u_role u = PENDING_USER) (InvalidOperation ''role not rejectable''))
                 (\<lambda>_. op_return (Some u, False))))"

definition unblock_user :: "env \<Rightarrow> int \<Rightarrow> int \<Rightarrow> user act" where
  "unblock_user e actor target =
     op_bind (require_moderator_or_admin actor) (\<lambda>_.
     op_bind (op_guard (target \<notin> set (ev_admin_ids e)) (InvalidOperation ''superadmin from ADMIN_IDS'')) (\<lambda>_.
     op_bind (get_user target) (\<lambda>u.
     op_bind (op_guard (u_role u \<noteq> SUPERADMIN) (InvalidOperation ''superadmin'')) (\<lambda>_.
     op_bind (op_transaction
        (op_bind (repo_set_role target APPROVED_USER (ev_now e) None) (\<lambda>_.
         audit_write e (Some actor) ''user_unblocked'' EntityUser (Some target) 0))) (\<lambda>_.
     op_bind (clear_user_state target) (\<lambda>_. get_user target))))))"

definition count_users :: "int \<Rightarrow> int act" where
  "count_users actor = op_bind (require_moderator_or_admin actor) (\<lambda>_. op_get repo_count_users)"

definition list_users :: "int \<Rightarrow> int \<Rightarrow> int \<Rightarrow> user list act" where
  "list_users actor limit offset = op_bind (require_moderator_or_admin actor) (\<lambda>_. op_get (repo_list_users limit offset))"

definition search_users :: "int \<Rightarrow> string \<Rightarrow> int \<Rightarrow> user list act" where
  "search_users actor query limit =
     op_bind (require_moderator_or_admin actor) (\<lambda>_.
     op_bind (op_get (repo_search_users query limit)) (\<lambda>r.
     case r of Inl err \<Rightarrow> op_raise err | Inr us \<Rightarrow> op_return us))"

section \<open>How the operations run\<close>

lemma get_user_run [op_simps]:
  "get_user uid w = (case user_get_by_id uid w of
     None \<Rightarrow> (Inl (NotFound ''err_user_not_found''), w) | Some u \<Rightarrow> (Inr u, w))"
  by (simp add: get_user_def op_bind_def op_get_def op_raise_def op_return_def split: option.split)

lemma require_superadmin_run [op_simps]:
  "require_superadmin a w = (case user_get_by_id a w of
     None \<Rightarrow> (Inl (NotFound ''err_user_not_found''), w)
   | Some u \<Rightarrow> if u_role u = SUPERADMIN then (Inr u, w) else (Inl (AccessDenied ''err_insufficient_rights''), w))"
  by (simp add: require_superadmin_def op_simps split: option.split)

lemma require_moderator_run [op_simps]:
  "require_moderator_or_admin a w = (case user_get_by_id a w of
     None \<Rightarrow> (Inl (NotFound ''err_user_not_found''), w)
   | Some u \<Rightarrow> if u_role u \<in> {SUPERADMIN, MODERATOR} then (Inr u, w)
              else (Inl (AccessDenied ''err_insufficient_rights''), w))"
  by (simp add: require_moderator_or_admin_def op_simps split: option.split)

lemma require_approved_run:
  "require_approved_or_admin a w = (case user_get_by_id a w of
     None \<Rightarrow> (Inl (NotFound ''err_user_not_found''), w)
   | Some u \<Rightarrow> if u_role u \<in> {SUPERADMIN, MODERATOR} then (Inr u, w)
       else if is_blocked_user u then (Inl (AccessDenied ''err_access_blocked''), w)
       else if u_role u \<noteq> APPROVED_USER then (Inl (AccessDenied ''access_not_approved''), w) else (Inr u, w))"
  by (simp add: require_approved_or_admin_def op_simps split: option.split)

lemma clear_user_state_run [op_simps]:
  "clear_user_state uid w = (Inr (), w\<lparr>fsm_cleared := fsm_cleared w @ [uid]\<rparr>)"
  by (simp add: clear_user_state_def op_modify_def)

lemma user_get_other_tables [simp]:
  "user_get_by_id k (w\<lparr>db_audit := a\<rparr>) = user_get_by_id k w"
  "user_get_by_id k (w\<lparr>fsm_cleared := c\<rparr>) = user_get_by_id k w"
  "user_get_by_id k (w\<lparr>db_access_requests := r\<rparr>) = user_get_by_id k w"
  by (simp_all add: user_get_by_id_def)

lemma users_ok_other_tables [simp]:
  "users_ok (w\<lparr>db_audit := a\<rparr>) = users_ok w" "users_ok (w\<lparr>fsm_cleared := c\<rparr>) = users_ok w"
  "users_ok (w\<lparr>db_access_requests := r\<rparr>) = users_ok w"
  by (simp_all add: users_ok_def)

text \<open>What an operation may do to the users table: a role it sets, or a row it adds or touches.\<close>

definition role_of :: "world \<Rightarrow> int \<Rightarrow> user_role option" where
  "role_of w uid = map_option u_role (user_get_by_id uid w)"

lemma role_of_set_role:
  assumes "users_ok w"
  shows "role_of (snd (repo_set_role t r now b w)) k = (if k = t \<and> role_of w t \<noteq> None then Some r else role_of w k)"
  using assms by (auto simp: repo_set_role_def update_user_run role_of_def user_get_update split: option.splits)

lemma users_ok_set_role: "users_ok w \<Longrightarrow> users_ok (snd (repo_set_role t r now b w))"
  by (auto simp: repo_set_role_def update_user_run users_ok_update split: option.splits)

lemma repo_set_role_run:
  assumes "users_ok w"
  shows "repo_set_role t r now b w = (case user_get_by_id t w of
      None \<Rightarrow> (Inl (NotFound ''user''), w)
    | Some _ \<Rightarrow> (Inr (), w\<lparr>db_users := update_where (has_id t)
         (\<lambda>u. u\<lparr>u_role := r, u_updated_at := now, u_blocked_at := b\<rparr>) (db_users w)\<rparr>))"
  using assms by (simp add: repo_set_role_def update_user_run)

abbreviation with_role :: "int \<Rightarrow> user_role \<Rightarrow> string \<Rightarrow> string option \<Rightarrow> world \<Rightarrow> world" where
  "with_role t r now b w \<equiv> w\<lparr>db_users := update_where (has_id t)
     (\<lambda>u. u\<lparr>u_role := r, u_updated_at := now, u_blocked_at := b\<rparr>) (db_users w)\<rparr>"

lemma get_with_role [simp]:
  "user_get_by_id k (with_role t r now b w) =
     (if k = t then map_option (\<lambda>u. u\<lparr>u_role := r, u_updated_at := now, u_blocked_at := b\<rparr>) (user_get_by_id k w)
      else user_get_by_id k w)"
  by (rule user_get_update) simp

lemma users_ok_with_role [simp]: "users_ok w \<Longrightarrow> users_ok (with_role t r now b w)"
  by (rule users_ok_update) simp_all

end
