(* ===== verification/Access_Requests.thy ===== *)
theory Access_Requests
  imports Users
begin

text \<open>
  \<open>repositories/access_requests.py\<close> and \<open>services/access_approval.py\<close>: the requests for access.
  The partial unique index \<open>idx_access_requests_one_pending\<close> makes an insert of a second pending
  request raise; the foreign key asks for the user's row.
\<close>

section \<open>The repository\<close>

definition pending_of :: "int \<Rightarrow> access_request \<Rightarrow> bool" where
  "pending_of uid r \<longleftrightarrow> ar_telegram_user_id r = uid \<and> ar_status r = RequestPending"

definition request_get_by_id :: "int \<Rightarrow> world \<Rightarrow> access_request option" where
  "request_get_by_id rid w = find (\<lambda>r. ar_id r = rid) (db_access_requests w)"

definition first_row :: "'a list \<Rightarrow> 'a option" where
  "first_row xs = (case xs of [] \<Rightarrow> None | x # _ \<Rightarrow> Some x)"

definition get_pending_for_user :: "int \<Rightarrow> world \<Rightarrow> access_request option" where
  "get_pending_for_user uid w =
     first_row (sort_desc ar_requested_at (filter (pending_of uid) (db_access_requests w)))"

definition get_latest_for_user :: "int \<Rightarrow> world \<Rightarrow> access_request option" where
  "get_latest_for_user uid w =
     first_row (sort_desc ar_requested_at (filter (\<lambda>r. ar_telegram_user_id r = uid) (db_access_requests w)))"

definition request_create :: "int \<Rightarrow> string option \<Rightarrow> string \<Rightarrow> access_request act" where
  "request_create uid username now =
     op_bind (op_get id) (\<lambda>w.
     op_bind (op_guard (user_get_by_id uid w \<noteq> None) (IntegrityError ''FOREIGN KEY'')) (\<lambda>_.
     op_bind (op_guard (\<not> list_ex (pending_of uid) (db_access_requests w))
                (IntegrityError ''idx_access_requests_one_pending'')) (\<lambda>_.
     let rid = db_access_request_seq w + 1;
         row = \<lparr>ar_id = rid, ar_telegram_user_id = uid, ar_username = username, ar_status = RequestPending,
                ar_requested_at = now, ar_decided_by = None, ar_decided_at = None, ar_decision_note = None\<rparr>
     in op_bind (op_modify (\<lambda>w. w\<lparr>db_access_requests := db_access_requests w @ [row],
                                  db_access_request_seq := rid\<rparr>)) (\<lambda>_.
        op_bind (op_get (request_get_by_id rid)) (\<lambda>found.
        case found of None \<Rightarrow> op_raise (RuntimeFailure ''insert'') | Some r \<Rightarrow> op_return r)))))"

definition create_pending_idempotent :: "int \<Rightarrow> string option \<Rightarrow> string \<Rightarrow> (access_request \<times> bool) act" where
  "create_pending_idempotent uid username now =
     op_try (op_bind (request_create uid username now) (\<lambda>r. op_return (r, True)))
       (\<lambda>err. if err \<noteq> IntegrityError ''idx_access_requests_one_pending'' then op_raise err
              else op_bind (op_get (get_pending_for_user uid)) (\<lambda>pending.
                case pending of None \<Rightarrow> op_raise err | Some r \<Rightarrow> op_return (r, False)))"

definition set_status_if_pending ::
  "int \<Rightarrow> access_request_status \<Rightarrow> int \<Rightarrow> string \<Rightarrow> string option \<Rightarrow> bool act" where
  "set_status_if_pending rid status actor now note =
     op_bind (op_get (\<lambda>w. count_where (\<lambda>r. ar_id r = rid \<and> ar_status r = RequestPending) (db_access_requests w)))
       (\<lambda>rowcount.
     op_bind (op_modify (\<lambda>w. w\<lparr>db_access_requests :=
         update_where (\<lambda>r. ar_id r = rid \<and> ar_status r = RequestPending)
           (\<lambda>r. r\<lparr>ar_status := status, ar_decided_by := Some actor, ar_decided_at := Some now,
                  ar_decision_note := note\<rparr>) (db_access_requests w)\<rparr>)) (\<lambda>_.
     op_return (rowcount = 1)))"

definition count_by_status :: "access_request_status \<Rightarrow> world \<Rightarrow> int" where
  "count_by_status status w = count_where (\<lambda>r. ar_status r = status) (db_access_requests w)"

definition list_by_status :: "access_request_status \<Rightarrow> int \<Rightarrow> int \<Rightarrow> world \<Rightarrow> access_request list" where
  "list_by_status status limit offset w =
     page limit offset (sort_key ar_requested_at (filter (\<lambda>r. ar_status r = status) (db_access_requests w)))"

section \<open>The service\<close>

type_synonym access_request_result = "user \<times> access_request option \<times> bool"

definition create_or_get_request :: "env \<Rightarrow> telegram_user_profile \<Rightarrow> access_request_result act" where
  "create_or_get_request e p = op_transaction (
     op_bind (ensure_user e p) (\<lambda>u.
     let blocked = is_blocked_user u
     in if u_role u = SUPERADMIN \<or> u_role u = APPROVED_USER \<and> \<not> blocked \<or> u_role u = MODERATOR \<and> \<not> blocked
        then op_return (u, None, False)
        else op_bind (op_get (get_pending_for_user (pr_telegram_user_id p))) (\<lambda>pending.
          case pending of Some r \<Rightarrow> op_return (u, Some r, False)
           | None \<Rightarrow>
             op_bind (create_pending_idempotent (pr_telegram_user_id p) (pr_username p) (ev_now e)) (\<lambda>(r, created).
             op_bind (if created
                      then audit_write e (Some (pr_telegram_user_id p)) ''access_requested'' EntityAccessRequest (Some (ar_id r)) 0
                      else op_return ()) (\<lambda>_.
             op_return (u, Some r, created))))))"

definition request_or_not_found :: "int \<Rightarrow> access_request act" where
  "request_or_not_found rid = op_bind (op_get (request_get_by_id rid)) (\<lambda>found.
     case found of None \<Rightarrow> op_raise (NotFound ''request'') | Some r \<Rightarrow> op_return r)"

definition approve :: "env \<Rightarrow> int \<Rightarrow> int \<Rightarrow> (access_request \<times> bool) act" where
  "approve e actor rid =
     op_bind (require_moderator_or_admin actor) (\<lambda>_.
     op_transaction (
       op_bind (request_or_not_found rid) (\<lambda>request.
       op_bind (set_status_if_pending rid RequestApproved actor (ev_now e) None) (\<lambda>changed.
       op_bind (if changed
                then op_bind (approve_access_request_user e actor (ar_telegram_user_id request) (ar_requested_at request)) (\<lambda>_.
                     audit_write e (Some actor) ''access_approved'' EntityAccessRequest (Some rid) 0)
                else op_return ()) (\<lambda>_.
       op_bind (request_or_not_found rid) (\<lambda>refreshed. op_return (refreshed, changed)))))))"

definition reject :: "env \<Rightarrow> int \<Rightarrow> int \<Rightarrow> (access_request \<times> bool) act" where
  "reject e actor rid =
     op_bind (require_moderator_or_admin actor) (\<lambda>_.
     op_transaction (
       op_bind (request_or_not_found rid) (\<lambda>request.
       op_bind (set_status_if_pending rid RequestRejected actor (ev_now e) None) (\<lambda>changed.
       op_bind (if changed
                then op_bind (reject_access_request_user e actor (ar_telegram_user_id request)) (\<lambda>_.
                     audit_write e (Some actor) ''access_rejected'' EntityAccessRequest (Some rid) 0)
                else op_return ()) (\<lambda>_.
       op_bind (request_or_not_found rid) (\<lambda>refreshed. op_return (refreshed, changed)))))))"

definition count_pending :: "int \<Rightarrow> int act" where
  "count_pending actor = op_bind (require_moderator_or_admin actor) (\<lambda>_. op_get (count_by_status RequestPending))"

definition list_pending :: "int \<Rightarrow> int \<Rightarrow> int \<Rightarrow> access_request list act" where
  "list_pending actor limit offset =
     op_bind (require_moderator_or_admin actor) (\<lambda>_. op_get (list_by_status RequestPending limit offset))"

definition get_request :: "int \<Rightarrow> int \<Rightarrow> access_request act" where
  "get_request actor rid = op_bind (require_moderator_or_admin actor) (\<lambda>_. request_or_not_found rid)"

definition check_access :: "int \<Rightarrow> user_role act" where
  "check_access actor = op_bind (get_user actor) (\<lambda>u.
     if is_blocked_user u then op_raise (InvalidOperation ''user is blocked'') else op_return (u_role u))"

section \<open>Invariant\<close>

text \<open>Request ids are unique and below the counter; a user has at most one pending request.\<close>

definition requests_ok :: "world \<Rightarrow> bool" where
  "requests_ok w \<longleftrightarrow> distinct (map ar_id (db_access_requests w))
     \<and> (\<forall>r \<in> set (db_access_requests w). ar_id r \<le> db_access_request_seq w)
     \<and> (\<forall>uid. length (filter (pending_of uid) (db_access_requests w)) \<le> 1)"

definition access_ok :: "world \<Rightarrow> bool" where
  "access_ok w \<longleftrightarrow> users_ok w \<and> requests_ok w"

lemma requests_ok_other [simp]:
  "requests_ok (w\<lparr>db_users := u\<rparr>) = requests_ok w" "requests_ok (w\<lparr>db_audit := a\<rparr>) = requests_ok w"
  "requests_ok (w\<lparr>fsm_cleared := c\<rparr>) = requests_ok w"
  by (simp_all add: requests_ok_def)

lemma request_get_other [simp]:
  "request_get_by_id k (w\<lparr>db_users := u\<rparr>) = request_get_by_id k w"
  "request_get_by_id k (w\<lparr>db_audit := a\<rparr>) = request_get_by_id k w"
  "request_get_by_id k (w\<lparr>fsm_cleared := c\<rparr>) = request_get_by_id k w"
  by (simp_all add: request_get_by_id_def)

text \<open>The rows after a decision, whatever it was.\<close>

definition decided :: "int \<Rightarrow> access_request_status \<Rightarrow> int \<Rightarrow> string \<Rightarrow> world \<Rightarrow> world" where
  "decided rid status actor now w = w\<lparr>db_access_requests :=
     update_where (\<lambda>r. ar_id r = rid \<and> ar_status r = RequestPending)
       (\<lambda>r. r\<lparr>ar_status := status, ar_decided_by := Some actor, ar_decided_at := Some now, ar_decision_note := None\<rparr>)
       (db_access_requests w)\<rparr>"

lemma pending_after_decided:
  assumes "status \<noteq> RequestPending"
  shows "length (filter (pending_of uid) (db_access_requests (decided rid status actor now w)))
    \<le> length (filter (pending_of uid) (db_access_requests w))"
proof -
  have "length (filter (pending_of uid) (update_where (\<lambda>r. ar_id r = rid \<and> ar_status r = RequestPending)
       (\<lambda>r. r\<lparr>ar_status := status, ar_decided_by := Some actor, ar_decided_at := Some now, ar_decision_note := None\<rparr>) rows))
     \<le> length (filter (pending_of uid) rows)" for rows
    using assms by (induction rows) (auto simp: update_where_def pending_of_def)
  then show ?thesis by (simp add: decided_def)
qed

lemma requests_ok_decided:
  assumes "requests_ok w" "status \<noteq> RequestPending"
  shows "requests_ok (decided rid status actor now w)"
proof -
  have "map ar_id (db_access_requests (decided rid status actor now w)) = map ar_id (db_access_requests w)"
    by (simp add: decided_def map_update_where)
  moreover have "ar_id r \<le> db_access_request_seq w" if "r \<in> set (db_access_requests (decided rid status actor now w))" for r
  proof -
    have "ar_id r \<in> set (map ar_id (db_access_requests (decided rid status actor now w)))" using that by simp
    then have "ar_id r \<in> ar_id ` set (db_access_requests w)" using calculation by simp
    with assms(1) show ?thesis by (auto simp: requests_ok_def)
  qed
  moreover have "db_access_request_seq (decided rid status actor now w) = db_access_request_seq w"
    by (simp add: decided_def)
  moreover have "length (filter (pending_of uid) (db_access_requests (decided rid status actor now w))) \<le> 1" for uid
    using pending_after_decided [OF assms(2), of uid rid actor now w] assms(1) unfolding requests_ok_def by (meson le_trans)
  ultimately show ?thesis using assms(1) by (simp add: requests_ok_def)
qed

lemmas count_pending_row = count_key_row [of ar_id _ _ _ "\<lambda>r. ar_status r = RequestPending"]

lemma set_status_run:
  assumes "requests_ok w" "request_get_by_id rid w = Some r"
  shows "set_status_if_pending rid status actor now None w =
    (Inr (ar_status r = RequestPending), decided rid status actor now w)"
  using count_pending_row [of "db_access_requests w" rid r] assms
  by (simp add: set_status_if_pending_def op_simps decided_def request_get_by_id_def requests_ok_def)

lemma request_get_decided:
  "request_get_by_id k (decided rid status actor now w) =
     map_option (\<lambda>r. if ar_id r = rid \<and> ar_status r = RequestPending
       then r\<lparr>ar_status := status, ar_decided_by := Some actor, ar_decided_at := Some now, ar_decision_note := None\<rparr>
       else r) (request_get_by_id k w)"
  unfolding request_get_by_id_def decided_def by (simp add: find_update_key)

lemma request_get_id: "request_get_by_id k w = Some r \<Longrightarrow> ar_id r = k"
  unfolding request_get_by_id_def by (drule find_Some_in) simp

lemma decided_users [simp]: "db_users (decided rid status actor now w) = db_users w"
  "user_get_by_id k (decided rid status actor now w) = user_get_by_id k w"
  "users_ok (decided rid status actor now w) = users_ok w"
  by (simp_all add: decided_def user_get_by_id_def users_ok_def)

lemma decided_not_pending:
  assumes "request_get_by_id rid w = Some r" "ar_status r \<noteq> RequestPending" "requests_ok w"
  shows "decided rid status actor now w = w"
proof -
  have "filter (\<lambda>r. ar_id r = rid \<and> ar_status r = RequestPending) (db_access_requests w) = []"
    using count_pending_row [of "db_access_requests w" rid r] assms
    by (simp add: request_get_by_id_def requests_ok_def count_where_def)
  then show ?thesis by (simp add: decided_def update_where_none)
qed

section \<open>Every operation keeps the invariant\<close>

lemma keeps_set_role: "op_keeps access_ok (repo_set_role t r now b)"
  by (rule op_keepsI) (auto simp: access_ok_def repo_set_role_run split: option.split)

lemma keeps_clear: "op_keeps access_ok (clear_user_state uid)"
  by (rule op_keepsI) (simp add: access_ok_def clear_user_state_run)

lemma keeps_audit: "op_keeps access_ok (audit_write e a b c d n)"
  by (rule op_keeps_audit) (simp add: access_ok_def)

lemma keeps_get_user: "op_keeps access_ok (get_user uid)"
  by (rule op_keepsI) (simp add: get_user_run split: option.split)

lemma keeps_require: "op_keeps access_ok (require_moderator_or_admin a)"
  by (rule op_keepsI) (simp add: require_moderator_run split: option.split)

lemma users_ok_upsert:
  "users_ok w \<Longrightarrow> users_ok (snd (upsert_profile p role now w))"
  by (auto simp: upsert_profile_def op_simps users_ok_def new_user_def list_ex_iff map_update_where
      split: option.splits)

lemma keeps_upsert: "op_keeps access_ok (upsert_profile p role now)"
proof (rule op_keepsI)
  fix w assume "access_ok w"
  moreover have "db_access_requests (snd (upsert_profile p role now w)) = db_access_requests w"
    "db_access_request_seq (snd (upsert_profile p role now w)) = db_access_request_seq w"
    by (simp_all add: upsert_profile_def op_simps split: option.splits)
  ultimately show "access_ok (snd (upsert_profile p role now w))"
    using users_ok_upsert [of w p role now] by (simp add: access_ok_def requests_ok_def)
qed

lemma keeps_ensure_user: "op_keeps access_ok (ensure_user e p)"
  unfolding ensure_user_def Let_def
  by (intro op_keeps_bind op_keeps_get op_keeps_if op_keeps_return keeps_upsert keeps_set_role keeps_get_user)

lemma keeps_request_create: "op_keeps access_ok (request_create uid username now)"
proof (rule op_keepsI)
  fix w assume ok: "access_ok w"
  define row where "row = \<lparr>ar_id = db_access_request_seq w + 1, ar_telegram_user_id = uid, ar_username = username,
    ar_status = RequestPending, ar_requested_at = now, ar_decided_by = None, ar_decided_at = None, ar_decision_note = None\<rparr>"
  define w' where "w' = w\<lparr>db_access_requests := db_access_requests w @ [row], db_access_request_seq := db_access_request_seq w + 1\<rparr>"
  have "access_ok w'" if "\<not> list_ex (pending_of uid) (db_access_requests w)"
  proof -
    have "filter (pending_of uid) (db_access_requests w) = []"
      using that by (auto simp: filter_empty_conv list_ex_iff)
    moreover have "pending_of k row \<longleftrightarrow> k = uid" for k by (auto simp: row_def pending_of_def)
    ultimately have "length (filter (pending_of k) (db_access_requests w @ [row])) \<le> 1" for k
      using ok by (cases "k = uid") (auto simp: access_ok_def requests_ok_def)
    moreover have "db_access_request_seq w + 1 \<notin> ar_id ` set (db_access_requests w)"
      using ok by (force simp: access_ok_def requests_ok_def)
    ultimately show ?thesis
      using ok by (auto simp: access_ok_def requests_ok_def users_ok_def w'_def row_def dest!: bspec)
  qed
  then show "access_ok (snd (request_create uid username now w))"
    using ok by (auto simp: request_create_def op_simps Let_def w'_def row_def split: option.splits)
qed

lemma keeps_create_pending: "op_keeps access_ok (create_pending_idempotent uid username now)"
  unfolding create_pending_idempotent_def
  by (intro op_keeps_try op_keeps_bind op_keeps_if keeps_request_create op_keeps_return op_keeps_raise op_keeps_get)
    (simp split: option.split)

lemma keeps_set_status: "status \<noteq> RequestPending \<Longrightarrow> op_keeps access_ok (set_status_if_pending rid status a now None)"
  using requests_ok_decided [of _ status rid a now]
  by (intro op_keepsI) (auto simp: set_status_if_pending_def op_simps access_ok_def decided_def users_ok_def)

lemma keeps_request_or_not_found: "op_keeps access_ok (request_or_not_found rid)"
  by (rule op_keepsI) (simp add: request_or_not_found_def op_simps split: option.split)

lemma keeps_approve_user: "op_keeps access_ok (approve_access_request_user e a t req_at)"
  unfolding approve_access_request_user_def Let_def
  by (intro op_keeps_bind op_keeps_if op_keeps_return op_keeps_guard keeps_require keeps_get_user keeps_set_role keeps_clear)

lemma keeps_reject_user: "op_keeps access_ok (reject_access_request_user e a t)"
  unfolding reject_access_request_user_def
  by (intro op_keeps_bind op_keeps_get keeps_require) (auto split: option.split intro!: op_keeps_if op_keeps_bind)

datatype access_cmd = Request telegram_user_profile | Approve int int | Reject int int

fun run_access :: "env \<Rightarrow> access_cmd \<Rightarrow> world \<Rightarrow> world" where
  "run_access e (Request p) w = snd (create_or_get_request e p w)"
| "run_access e (Approve actor rid) w = snd (approve e actor rid w)"
| "run_access e (Reject actor rid) w = snd (reject e actor rid w)"

lemma keeps_create_or_get: "op_keeps access_ok (create_or_get_request e p)"
  unfolding create_or_get_request_def Let_def
  by (intro op_keeps_transaction op_keeps_bind keeps_ensure_user op_keeps_if op_keeps_return op_keeps_get)
    (auto split: option.split prod.split
      intro!: op_keeps_bind op_keeps_if op_keeps_return keeps_create_pending keeps_audit)

lemma keeps_approve: "op_keeps access_ok (approve e a rid)"
  unfolding approve_def
  by (intro op_keeps_bind op_keeps_transaction keeps_require keeps_request_or_not_found keeps_set_status
      op_keeps_if keeps_approve_user keeps_audit op_keeps_return) simp

lemma keeps_reject: "op_keeps access_ok (reject e a rid)"
  unfolding reject_def
  by (intro op_keeps_bind op_keeps_transaction keeps_require keeps_request_or_not_found keeps_set_status
      op_keeps_if keeps_reject_user keeps_audit op_keeps_return) simp

lemma run_access_ok: "access_ok w \<Longrightarrow> access_ok (run_access e c w)"
  using keeps_create_or_get keeps_approve keeps_reject by (cases c) (auto simp: op_keeps_def)

text \<open>
  C6: whatever users request and moderators decide, in any order and with any failure on the way,
  no user ever has two pending requests, and request ids stay unique.
\<close>

theorem one_pending_request_per_user:
  assumes "access_ok w"
  shows "access_ok (fold (run_access e) cs w)
    \<and> length (filter (pending_of uid) (db_access_requests (fold (run_access e) cs w))) \<le> 1"
proof -
  have "access_ok (fold (run_access e) cs w)"
    using assms by (induction cs arbitrary: w) (simp_all add: run_access_ok)
  then show ?thesis by (simp add: access_ok_def requests_ok_def)
qed

section \<open>What a decision does\<close>

text \<open>The user an approval leaves, as the code's branches decide it.\<close>

definition approval_result :: "env \<Rightarrow> user \<Rightarrow> user" where
  "approval_result e u =
     (if u_telegram_user_id u \<in> set (ev_admin_ids e) \<or> u_role u \<in> {SUPERADMIN, MODERATOR}
         \<or> u_role u = APPROVED_USER \<and> \<not> is_blocked_user u
      then u else u\<lparr>u_role := APPROVED_USER, u_updated_at := ev_now e, u_blocked_at := None\<rparr>)"

definition approval_refused :: "env \<Rightarrow> user \<Rightarrow> access_request \<Rightarrow> bool" where
  "approval_refused e u r \<longleftrightarrow> u_telegram_user_id u \<notin> set (ev_admin_ids e) \<and> u_role u \<noteq> SUPERADMIN
     \<and> is_blocked_user u \<and> \<not> request_is_after_block e (u_blocked_at u) (ar_requested_at r)"

lemma approve_user_run:
  assumes "users_ok w" "user_get_by_id a w = Some m" "u_role m \<in> {SUPERADMIN, MODERATOR}"
    "user_get_by_id t w = Some u"
  shows "if approval_refused e u (r\<lparr>ar_requested_at := req_at\<rparr>)
    then fst (approve_access_request_user e a t req_at w) = Inl (InvalidOperation ''user is blocked'')
    else \<exists>x cs. approve_access_request_user e a t req_at w = (Inr x, snd (approve_access_request_user e a t req_at w))
      \<and> users_ok (snd (approve_access_request_user e a t req_at w))
      \<and> db_access_requests (snd (approve_access_request_user e a t req_at w)) = db_access_requests w
      \<and> (\<forall>k. user_get_by_id k (snd (approve_access_request_user e a t req_at w)) =
            (if k = t then Some (approval_result e u) else user_get_by_id k w))"
proof -
  have t: "u_telegram_user_id u = t" using user_get_Some [OF assms(4)] by simp
  show ?thesis
    using assms t
    by (cases "u_role u")
      (auto simp: approve_access_request_user_def op_simps repo_set_role_run approval_refused_def approval_result_def
        is_blocked_user_def Let_def)
qed

lemma approve_unfold:
  assumes "access_ok w" "user_get_by_id a w = Some m" "u_role m \<in> {SUPERADMIN, MODERATOR}"
    "request_get_by_id rid w = Some r"
  shows "approve e a rid w =
    (if ar_status r \<noteq> RequestPending then (Inr (r, False), w)
     else (case approve_access_request_user e a (ar_telegram_user_id r) (ar_requested_at r)
               (decided rid RequestApproved a (ev_now e) w) of
        (Inl err, _) \<Rightarrow> (Inl err, w)
      | (Inr _, w1) \<Rightarrow>
          if \<not> ev_audit_ok e then (Inl (RuntimeFailure ''audit''), w)
          else (let w2 = snd (audit_write e (Some a) ''access_approved'' EntityAccessRequest (Some rid) 0 w1)
                in case request_get_by_id rid w2 of None \<Rightarrow> (Inl (NotFound ''request''), w)
                   | Some r' \<Rightarrow> (Inr (r', True), w2))))"
proof -
  have rows: "requests_ok w" using assms(1) by (simp add: access_ok_def)
  have status: "set_status_if_pending rid RequestApproved a (ev_now e) None w =
      (Inr (ar_status r = RequestPending), decided rid RequestApproved a (ev_now e) w)"
    by (rule set_status_run [OF rows assms(4)])
  show ?thesis
  proof (cases "ar_status r = RequestPending")
    case False
    then have "decided rid RequestApproved a (ev_now e) w = w"
      using decided_not_pending [OF assms(4) _ rows] by simp
    with False status assms(2-4) show ?thesis
      by (simp add: approve_def op_simps request_or_not_found_def)
  next
    case True
    with status assms(2-4) show ?thesis
      by (auto simp: approve_def op_simps request_or_not_found_def Let_def
          split: prod.splits sum.splits option.splits)
  qed
qed

text \<open>
  C7: approving a pending request grants its user access unless they already have it, never
  changes a superadmin, a configured admin or a moderator, touches no other user, and rolls
  everything back if the user was blocked after the request.
\<close>

theorem approve_grants_access:
  assumes "access_ok w" "user_get_by_id a w = Some m" "u_role m \<in> {SUPERADMIN, MODERATOR}"
    "request_get_by_id rid w = Some r" "ar_status r = RequestPending"
    "user_get_by_id (ar_telegram_user_id r) w = Some u" "ev_audit_ok e"
  shows "if approval_refused e u r
    then approve e a rid w = (Inl (InvalidOperation ''user is blocked''), w)
    else \<exists>r' w'. approve e a rid w = (Inr (r', True), w') \<and> ar_status r' = RequestApproved
      \<and> ar_decided_by r' = Some a
      \<and> (\<forall>k. user_get_by_id k w' =
            (if k = ar_telegram_user_id r then Some (approval_result e u) else user_get_by_id k w))"
proof -
  let ?d = "decided rid RequestApproved a (ev_now e) w"
  let ?run = "approve_access_request_user e a (ar_telegram_user_id r) (ar_requested_at r) ?d"
  have ok: "users_ok ?d" "user_get_by_id a ?d = Some m" "user_get_by_id (ar_telegram_user_id r) ?d = Some u"
    using assms by (simp_all add: access_ok_def)
  note granted = approve_user_run [OF ok(1,2) assms(3) ok(3), where e = e and r = r and req_at = "ar_requested_at r"]
  have row: "request_get_by_id rid ?d =
      Some (r\<lparr>ar_status := RequestApproved, ar_decided_by := Some a, ar_decided_at := Some (ev_now e), ar_decision_note := None\<rparr>)"
    using assms(5) request_get_id [OF assms(4)] by (simp add: request_get_decided assms(4))
  show ?thesis
  proof (cases "approval_refused e u r")
    case True
    then show ?thesis
      using granted assms(5) by (auto simp: approve_unfold [OF assms(1-4)] split: prod.splits)
  next
    case False
    then obtain x w1 where w1: "?run = (Inr x, w1)" "db_access_requests w1 = db_access_requests ?d"
      "\<And>k. user_get_by_id k w1 = (if k = ar_telegram_user_id r then Some (approval_result e u) else user_get_by_id k ?d)"
      using granted by (cases ?run) auto
    have "request_get_by_id rid w1 = request_get_by_id rid ?d"
      using w1(2) by (simp add: request_get_by_id_def)
    with False w1 row assms(5,7) show ?thesis
      by (simp add: approve_unfold [OF assms(1-4)] audit_write_run Let_def)
  qed
qed

text \<open>
  A second decision on a request changes nothing: once it is not pending, approving it again
  returns it with the flag \<open>False\<close> and leaves the database as it was.
\<close>

theorem approve_idempotent:
  assumes "access_ok w" "approve e a rid w = (Inr (r, changed), w')"
    "user_get_by_id b w' = Some m" "u_role m \<in> {SUPERADMIN, MODERATOR}"
  shows "approve e' b rid w' = (Inr (r, False), w')"
proof -
  have ok: "access_ok w'"
    using keeps_approve [of e a rid] assms(1,2) by (auto simp: op_keeps_def dest: spec [of _ w])
  have "ar_status r \<noteq> RequestPending \<and> request_get_by_id rid w' = Some r"
  proof -
    obtain n where actor: "user_get_by_id a w = Some n" "u_role n \<in> {SUPERADMIN, MODERATOR}"
      using assms(2) by (auto simp: approve_def op_bind_def require_moderator_run split: option.splits if_splits)
    obtain q where q: "request_get_by_id rid w = Some q"
      using assms(2) actor by (auto simp: approve_def op_simps require_moderator_run request_or_not_found_def split: option.splits)
    show ?thesis
    proof (cases "ar_status q = RequestPending")
      case False
      then show ?thesis using assms(2) q by (simp add: approve_unfold [OF assms(1) actor q])
    next
      case True
      let ?d = "decided rid RequestApproved a (ev_now e) w"
      from True assms(2) obtain x w1 where
        w1: "approve_access_request_user e a (ar_telegram_user_id q) (ar_requested_at q) ?d = (Inr x, w1)"
          "w' = snd (audit_write e (Some a) ''access_approved'' EntityAccessRequest (Some rid) 0 w1)"
          "request_get_by_id rid w' = Some r"
        by (auto simp: approve_unfold [OF assms(1) actor q] Let_def split: prod.splits sum.splits if_splits option.splits)
      have "db_access_requests w1 = db_access_requests ?d"
        using w1(1) by (auto simp: approve_access_request_user_def op_simps repo_set_role_def update_user_def Let_def
            split: option.splits if_splits)
      then have "request_get_by_id rid w' = request_get_by_id rid ?d"
        using w1(2) by (simp add: request_get_by_id_def audit_write_run)
      moreover have "ar_id q = rid" by (rule request_get_id [OF q])
      ultimately show ?thesis using w1(3) q True by (auto simp: request_get_decided)
    qed
  qed
  then show ?thesis using approve_unfold [OF ok assms(3,4)] by simp
qed

section \<open>Witnesses\<close>

definition demo_env :: env where
  "demo_env = \<lparr>ev_admin_ids = [1], ev_now = ''2026'', ev_audit_ok = True, ev_instant = (\<lambda>_. None)\<rparr>"

definition demo_profile :: telegram_user_profile where
  "demo_profile = \<lparr>pr_telegram_user_id = 7, pr_username = Some ''ann'', pr_first_name = None\<rparr>"

definition demo_request :: access_request where
  "demo_request = \<lparr>ar_id = 1, ar_telegram_user_id = 7, ar_username = Some ''ann'', ar_status = RequestPending,
     ar_requested_at = ''2025'', ar_decided_by = None, ar_decided_at = None, ar_decision_note = None\<rparr>"

definition demo_world :: world where
  "demo_world = empty_world\<lparr>db_users := [demo_user 1 SUPERADMIN, demo_user 7 PENDING_USER],
     db_access_requests := [demo_request], db_access_request_seq := 1\<rparr>"

lemmas demo_defs = demo_world_def demo_env_def demo_request_def demo_user_def empty_world_def

lemma demo_access_ok: "access_ok demo_world"
  by (simp add: access_ok_def users_ok_def requests_ok_def demo_defs)

lemma demo_lookup:
  "user_get_by_id 1 demo_world = Some (demo_user 1 SUPERADMIN)"
  "user_get_by_id 7 demo_world = Some (demo_user 7 PENDING_USER)"
  "request_get_by_id 1 demo_world = Some demo_request"
  by (simp_all add: user_get_by_id_def request_get_by_id_def demo_defs)

lemma one_pending_request_per_user_witness:
  "length (filter (pending_of 7) (db_access_requests
     (fold (run_access demo_env) [Request demo_profile, Approve 1 1, Request demo_profile] demo_world))) \<le> 1"
  using one_pending_request_per_user [OF demo_access_ok] by blast

lemma approve_grants_access_witness:
  "\<exists>r' w'. approve demo_env 1 1 demo_world = (Inr (r', True), w')
     \<and> user_get_by_id 7 w' = Some (approval_result demo_env (demo_user 7 PENDING_USER))"
proof -
  have facts: "u_role (demo_user 1 SUPERADMIN) \<in> {SUPERADMIN, MODERATOR}" "ar_status demo_request = RequestPending"
    "user_get_by_id (ar_telegram_user_id demo_request) demo_world = Some (demo_user 7 PENDING_USER)"
    "ev_audit_ok demo_env" "\<not> approval_refused demo_env (demo_user 7 PENDING_USER) demo_request"
    "ar_telegram_user_id demo_request = 7"
    using demo_lookup by (simp_all add: demo_user_def demo_request_def demo_env_def approval_refused_def is_blocked_user_def)
  from approve_grants_access [OF demo_access_ok demo_lookup(1) facts(1) demo_lookup(3) facts(2,3,4)] facts(5,6)
  show ?thesis by auto
qed

lemma approve_idempotent_witness:
  "\<exists>r w'. approve demo_env 1 1 demo_world = (Inr (r, True), w') \<and> approve demo_env 1 1 w' = (Inr (r, False), w')"
proof -
  define w' where "w' = snd (approve demo_env 1 1 demo_world)"
  obtain r where r: "approve demo_env 1 1 demo_world = (Inr (r, True), w')" "user_get_by_id 1 w' = Some (demo_user 1 SUPERADMIN)"
    by (simp add: w'_def approve_def op_simps repo_set_role_def update_user_def request_or_not_found_def
        set_status_if_pending_def approve_access_request_user_def demo_defs is_blocked_user_def
        user_get_by_id_def request_get_by_id_def update_where_def count_where_def Let_def)
  have "u_role (demo_user 1 SUPERADMIN) \<in> {SUPERADMIN, MODERATOR}" by (simp add: demo_user_def)
  with approve_idempotent [OF demo_access_ok r] r(1) show ?thesis by blast
qed

end
