(* ===== verification/Vpn_Keys_Repo.thy ===== *)
theory Vpn_Keys_Repo
  imports Access_Requests Validators
begin

text \<open>
  \<open>repositories/vpn_keys.py\<close> and \<open>repositories/traffic_scope.py\<close>: the table of VPN keys with its
  status machine, the numbering it shares with the bundles, the reserved tunnel addresses and the
  traffic totals. \<open>keys_unique\<close> is the set of unique indexes of the table; a write that would
  break one raises \<open>IntegrityError\<close> and changes nothing. JSON columns are their parsed objects.
\<close>

section \<open>Constraints\<close>

definition reserved_statuses :: "vpn_key_status list" where
  "reserved_statuses = [KeyPendingApply, KeyActive, KeyApplyFailed, KeyPendingRevoke, KeyPendingDelete, KeyDeleteFailed]"

definition reserved_ip :: "vpn_key \<Rightarrow> string option" where
  "reserved_ip k = (if vk_key_type k = AWG \<and> vk_status k \<in> set reserved_statuses then vk_client_ip k else None)"

definition unique_column :: "('r \<Rightarrow> 'a option) \<Rightarrow> 'r list \<Rightarrow> bool" where
  "unique_column f rows \<longleftrightarrow> distinct (List.map_filter f rows)"

definition keys_unique :: "vpn_key list \<Rightarrow> bool" where
  "keys_unique ks \<longleftrightarrow> distinct (map vk_id ks) \<and> unique_column vk_uuid ks \<and> unique_column vk_email_label ks
     \<and> unique_column vk_public_key ks \<and> unique_column reserved_ip ks"

abbreviation has_key_id :: "int \<Rightarrow> vpn_key \<Rightarrow> bool" where
  "has_key_id kid \<equiv> (\<lambda>k. vk_id k = kid)"

definition write_keys :: "(vpn_key list \<Rightarrow> vpn_key list) \<Rightarrow> unit act" where
  "write_keys f = op_bind (op_get (\<lambda>w. f (db_vpn_keys w))) (\<lambda>ks.
     op_bind (op_guard (keys_unique ks) (IntegrityError ''vpn_keys'')) (\<lambda>_.
     op_modify (\<lambda>w. w\<lparr>db_vpn_keys := ks\<rparr>)))"

text \<open>An \<open>UPDATE vpn_keys ... WHERE\<close>, with its row count.\<close>

definition update_keys :: "(vpn_key \<Rightarrow> bool) \<Rightarrow> (vpn_key \<Rightarrow> vpn_key) \<Rightarrow> int act" where
  "update_keys P f = op_bind (op_get (\<lambda>w. count_where P (db_vpn_keys w))) (\<lambda>rowcount.
     op_bind (write_keys (update_where P f)) (\<lambda>_. op_return rowcount))"

definition key_get_by_id :: "int \<Rightarrow> world \<Rightarrow> vpn_key option" where
  "key_get_by_id kid w = find (has_key_id kid) (db_vpn_keys w)"

section \<open>Numbers and creation\<close>

definition max_key_id :: "world \<Rightarrow> int" where
  "max_key_id w = foldr max (map vk_id (db_vpn_keys w)) 0"

text \<open>The high-water mark, seeded by \<open>INSERT OR IGNORE\<close> when the counter row is missing.\<close>

definition key_seq :: "world \<Rightarrow> int" where
  "key_seq w = (case db_vpn_key_seq w of None \<Rightarrow> max_key_id w | Some n \<Rightarrow> n)"

definition reserve_key_number :: "int act" where
  "reserve_key_number =
     op_bind (op_modify (\<lambda>w. w\<lparr>db_vpn_key_seq := Some (key_seq w + 1)\<rparr>)) (\<lambda>_.
     op_bind (op_get db_vpn_key_seq) (\<lambda>seq.
     case seq of None \<Rightarrow> op_raise (RuntimeFailure ''counter'') | Some n \<Rightarrow> op_return n))"

record key_draft =
  kd_owner_user_id :: int
  kd_username :: "string option"
  kd_key_type :: vpn_key_type
  kd_note :: "string option"
  kd_payload :: payload
  kd_public_payload :: payload
  kd_created_by :: int
  kd_uuid :: "string option"
  kd_email_label :: "string option"
  kd_public_key :: "string option"
  kd_client_ip :: "string option"
  kd_expires_at :: "string option"
  kd_transport :: string
  kd_xhttp_profile :: string
  kd_spider_x :: "string option"
  kd_relay :: "string option"

definition checked_relay :: "string option \<Rightarrow> service_error + string option" where
  "checked_relay r = (case r of None \<Rightarrow> Inr None
     | Some name \<Rightarrow> if relay_name_pattern name then Inr (Some name) else Inl (ValueError ''relay name''))"

definition new_key_row :: "key_draft \<Rightarrow> string \<Rightarrow> int \<Rightarrow> vpn_key" where
  "new_key_row d now kid =
     \<lparr>vk_id = kid, vk_owner_user_id = kd_owner_user_id d, vk_username = kd_username d,
      vk_key_type = kd_key_type d, vk_status = KeyPendingApply, vk_note = kd_note d, vk_uuid = kd_uuid d,
      vk_email_label = kd_email_label d, vk_public_key = kd_public_key d, vk_client_ip = kd_client_ip d,
      vk_payload = kd_payload d, vk_public_payload = kd_public_payload d, vk_created_at = now,
      vk_updated_at = now, vk_revoked_at = None, vk_deleted_at = None, vk_created_by = kd_created_by d,
      vk_revoked_by = None, vk_deleted_by = None, vk_expires_at = kd_expires_at d,
      vk_transport = kd_transport d, vk_xhttp_profile = kd_xhttp_profile d, vk_spider_x = kd_spider_x d,
      vk_relay = kd_relay d, vk_bundle_id = None, vk_expiry_notified_days = None\<rparr>"

definition relay_enabled :: "string \<Rightarrow> world \<Rightarrow> bool" where
  "relay_enabled name w \<longleftrightarrow> list_ex (\<lambda>r. ry_name r = name \<and> ry_enabled r) (db_relays w)"

definition next_key_id :: "world \<Rightarrow> int" where
  "next_key_id w = max (max_key_id w) (case db_vpn_key_seq w of None \<Rightarrow> 0 | Some n \<Rightarrow> n) + 1"

definition insert_key :: "key_draft \<Rightarrow> string \<Rightarrow> int act" where
  "insert_key d now = op_bind (op_get id) (\<lambda>w.
     op_bind (op_guard (user_get_by_id (kd_owner_user_id d) w \<noteq> None) (IntegrityError ''FOREIGN KEY'')) (\<lambda>_.
     op_bind (write_keys (\<lambda>ks. ks @ [new_key_row d now (next_key_id w)])) (\<lambda>_.
     op_bind (op_modify (\<lambda>w'. w'\<lparr>db_vpn_key_seq := Some (next_key_id w)\<rparr>)) (\<lambda>_.
     op_return (next_key_id w)))))"

definition create_pending :: "key_draft \<Rightarrow> string \<Rightarrow> vpn_key act" where
  "create_pending d now =
     (case checked_relay (kd_relay d) of Inl err \<Rightarrow> op_raise err
      | Inr relay_name' \<Rightarrow>
          op_bind (op_get (\<lambda>w. case relay_name' of None \<Rightarrow> True | Some name \<Rightarrow> relay_enabled name w)) (\<lambda>open_now.
          if \<not> open_now then op_raise (RelayUnavailable (the relay_name'))
          else op_bind (insert_key d now) (\<lambda>kid.
               op_bind (op_get (key_get_by_id kid)) (\<lambda>found.
               case found of None \<Rightarrow> op_raise (RuntimeFailure ''insert'') | Some k \<Rightarrow> op_return k))))"

definition create_key :: "key_draft \<Rightarrow> string \<Rightarrow> vpn_key act" where
  "create_key = create_pending"

section \<open>Queries\<close>

definition is_live :: "vpn_key \<Rightarrow> bool" where
  "is_live k \<longleftrightarrow> vk_status k \<noteq> KeyDeleted"

text \<open>\<open>_BUNDLE_OWNED\<close>.\<close>

definition bundle_owned :: "world \<Rightarrow> vpn_key \<Rightarrow> bool" where
  "bundle_owned w k \<longleftrightarrow> list_ex (\<lambda>b. Some (kb_id b) = vk_bundle_id k) (db_key_bundles w)"

definition keys_newest_first :: "(vpn_key \<Rightarrow> bool) \<Rightarrow> int \<Rightarrow> int \<Rightarrow> world \<Rightarrow> vpn_key list" where
  "keys_newest_first P limit offset w = page limit offset (sort_desc vk_created_at (filter P (db_vpn_keys w)))"

definition owner_filter :: "world \<Rightarrow> int \<Rightarrow> bool \<Rightarrow> vpn_key \<Rightarrow> bool" where
  "owner_filter w owner exclude_bundled k \<longleftrightarrow>
     vk_owner_user_id k = owner \<and> is_live k \<and> \<not> (exclude_bundled \<and> bundle_owned w k)"

definition list_by_owner :: "int \<Rightarrow> int \<Rightarrow> int \<Rightarrow> bool \<Rightarrow> world \<Rightarrow> vpn_key list" where
  "list_by_owner owner limit offset exclude_bundled w =
     keys_newest_first (owner_filter w owner exclude_bundled) limit offset w"

definition list_recent_by_owner :: "int \<Rightarrow> int \<Rightarrow> world \<Rightarrow> vpn_key list" where
  "list_recent_by_owner owner limit w = list_by_owner owner limit 0 False w"

definition count_by_owner :: "int \<Rightarrow> bool \<Rightarrow> world \<Rightarrow> int" where
  "count_by_owner owner exclude_bundled w = count_where (owner_filter w owner exclude_bundled) (db_vpn_keys w)"

definition traffic_supported :: "vpn_key \<Rightarrow> bool" where
  "traffic_supported k \<longleftrightarrow> vk_key_type k \<in> {XRAY, AWG, HYSTERIA2} \<and> is_live k"

definition count_traffic_supported :: "world \<Rightarrow> int" where
  "count_traffic_supported w = count_where traffic_supported (db_vpn_keys w)"

definition list_traffic_supported :: "int \<Rightarrow> int \<Rightarrow> world \<Rightarrow> vpn_key list" where
  "list_traffic_supported = keys_newest_first traffic_supported"

definition is_bundle_member :: "int \<Rightarrow> world \<Rightarrow> bool" where
  "is_bundle_member kid w \<longleftrightarrow> list_ex (\<lambda>k. vk_id k = kid \<and> bundle_owned w k) (db_vpn_keys w)"

definition count_by_owner_and_type :: "int \<Rightarrow> vpn_key_type \<Rightarrow> world \<Rightarrow> int" where
  "count_by_owner_and_type owner t w =
     count_where (\<lambda>k. vk_owner_user_id k = owner \<and> vk_key_type k = t \<and> is_live k) (db_vpn_keys w)"

text \<open>\<open>GROUP BY owner_user_id\<close>: owners without a matching key are absent.\<close>

definition count_by_owners :: "int list \<Rightarrow> world \<Rightarrow> (int, int) dict" where
  "count_by_owners owners w =
     (let rows = filter (\<lambda>k. vk_owner_user_id k \<in> set owners \<and> is_live k) (db_vpn_keys w)
      in map (\<lambda>o'. (o', count_where (\<lambda>k. vk_owner_user_id k = o') rows)) (sort (remdups (map vk_owner_user_id rows))))"

definition count_by_owner_statuses :: "int \<Rightarrow> vpn_key_status list \<Rightarrow> world \<Rightarrow> int" where
  "count_by_owner_statuses owner statuses w =
     count_where (\<lambda>k. vk_owner_user_id k = owner \<and> vk_status k \<in> set statuses) (db_vpn_keys w)"

definition list_by_owner_and_type :: "int \<Rightarrow> vpn_key_type \<Rightarrow> int \<Rightarrow> int \<Rightarrow> world \<Rightarrow> vpn_key list" where
  "list_by_owner_and_type owner t =
     keys_newest_first (\<lambda>k. vk_owner_user_id k = owner \<and> vk_key_type k = t \<and> is_live k)"

definition list_by_owner_statuses :: "int \<Rightarrow> vpn_key_status list \<Rightarrow> int \<Rightarrow> int \<Rightarrow> world \<Rightarrow> vpn_key list" where
  "list_by_owner_statuses owner statuses limit offset w =
     page limit offset (sort_key vk_created_at
       (filter (\<lambda>k. vk_owner_user_id k = owner \<and> vk_status k \<in> set statuses) (db_vpn_keys w)))"

definition list_by_statuses :: "vpn_key_status list \<Rightarrow> int \<Rightarrow> int \<Rightarrow> world \<Rightarrow> vpn_key list" where
  "list_by_statuses statuses limit offset w =
     page limit offset (sort_key vk_updated_at (sort_key vk_id
       (filter (\<lambda>k. vk_status k \<in> set statuses) (db_vpn_keys w))))"

definition list_by_type_statuses ::
  "vpn_key_type \<Rightarrow> vpn_key_status list \<Rightarrow> int \<Rightarrow> int \<Rightarrow> int option \<Rightarrow> world \<Rightarrow> vpn_key list" where
  "list_by_type_statuses t statuses limit offset after_id w =
     page limit offset (sort_key vk_id (filter (\<lambda>k. vk_key_type k = t \<and> vk_status k \<in> set statuses
        \<and> (case after_id of None \<Rightarrow> True | Some a \<Rightarrow> vk_id k > a)) (db_vpn_keys w)))"

definition list_active_hysteria2 :: "world \<Rightarrow> vpn_key list" where
  "list_active_hysteria2 w =
     sort_key vk_id (filter (\<lambda>k. vk_key_type k = HYSTERIA2 \<and> vk_status k = KeyActive) (db_vpn_keys w))"

definition get_occupied_awg_ips :: "world \<Rightarrow> string list" where
  "get_occupied_awg_ips w = remdups (List.map_filter reserved_ip (db_vpn_keys w))"

definition find_by_uuid :: "string \<Rightarrow> world \<Rightarrow> vpn_key option" where
  "find_by_uuid v w = find (\<lambda>k. vk_uuid k = Some v) (db_vpn_keys w)"

definition find_by_email_label :: "string \<Rightarrow> world \<Rightarrow> vpn_key option" where
  "find_by_email_label v w = find (\<lambda>k. vk_email_label k = Some v) (db_vpn_keys w)"

definition find_by_public_key :: "string \<Rightarrow> world \<Rightarrow> vpn_key option" where
  "find_by_public_key v w = find (\<lambda>k. vk_public_key k = Some v) (db_vpn_keys w)"

definition find_by_client_ip :: "string \<Rightarrow> world \<Rightarrow> vpn_key option" where
  "find_by_client_ip v w = find (\<lambda>k. vk_client_ip k = Some v) (db_vpn_keys w)"

text \<open>\<open>',' || expiry_notified_days || ',' LIKE '%,N,%'\<close>.\<close>

definition notified_at :: "int \<Rightarrow> string \<Rightarrow> bool" where
  "notified_at threshold days = infix_of (CHR '','' # int_str threshold @ [CHR '','']) (CHR '','' # days @ [CHR '',''])"

definition expiring_unnotified :: "string \<Rightarrow> string \<Rightarrow> int \<Rightarrow> vpn_key \<Rightarrow> bool" where
  "expiring_unnotified now deadline threshold k \<longleftrightarrow> vk_status k = KeyActive
     \<and> (case vk_expires_at k of None \<Rightarrow> False | Some x \<Rightarrow> now < x \<and> x \<le> deadline)
     \<and> (case vk_expiry_notified_days k of None \<Rightarrow> True | Some days \<Rightarrow> \<not> notified_at threshold days)"

definition expiry_text :: "vpn_key \<Rightarrow> string" where
  "expiry_text k = (case vk_expires_at k of None \<Rightarrow> [] | Some x \<Rightarrow> x)"

definition list_not_notified_expiring :: "string \<Rightarrow> string \<Rightarrow> int \<Rightarrow> int \<Rightarrow> world \<Rightarrow> vpn_key list" where
  "list_not_notified_expiring now deadline threshold limit w =
     take (nat (clamp_limit limit)) (sort_key expiry_text (filter (expiring_unnotified now deadline threshold) (db_vpn_keys w)))"

definition list_expired_active :: "string \<Rightarrow> int \<Rightarrow> world \<Rightarrow> vpn_key list" where
  "list_expired_active now limit w =
     take (nat (clamp_limit limit)) (sort_key expiry_text
       (filter (\<lambda>k. vk_status k = KeyActive \<and> (case vk_expires_at k of None \<Rightarrow> False | Some x \<Rightarrow> x \<le> now)) (db_vpn_keys w)))"

definition list_active_trial_by_owner :: "int \<Rightarrow> world \<Rightarrow> vpn_key list" where
  "list_active_trial_by_owner owner w =
     sort_desc vk_created_at (concat (map (\<lambda>k. replicate
         (length (filter (\<lambda>t. tr_key_id t = Some (vk_id k) \<and> tr_status t = ''approved'') (db_trial_requests w))) k)
       (filter (\<lambda>k. vk_owner_user_id k = owner \<and> vk_status k = KeyActive) (db_vpn_keys w))))"

definition count_active_managed_short_id :: "string \<Rightarrow> int option \<Rightarrow> world \<Rightarrow> int" where
  "count_active_managed_short_id short_id exclude w =
     count_where (\<lambda>k. vk_key_type k = XRAY \<and> vk_status k \<in> set reserved_statuses
       \<and> json_get (vk_payload k) ''short_id'' = JStr short_id
       \<and> json_get (vk_payload k) ''short_id_managed'' \<in> {JBool True, JInt 1, JFloat 1}
       \<and> exclude \<noteq> Some (vk_id k)) (db_vpn_keys w)"

section \<open>Traffic totals\<close>

record traffic_scope =
  sc_include_archive :: bool
  sc_include_deleted_keys :: bool

text \<open>\<open>__post_init__\<close> refuses the combination that would count a deleted key twice.\<close>

definition traffic_scope :: "bool \<Rightarrow> bool \<Rightarrow> service_error + traffic_scope" where
  "traffic_scope archive deleted =
     (if archive \<and> deleted then Inl (ValueError ''double-counts deleted keys'')
      else Inr \<lparr>sc_include_archive = archive, sc_include_deleted_keys = deleted\<rparr>)"

definition current_keys :: traffic_scope where
  "current_keys = \<lparr>sc_include_archive = False, sc_include_deleted_keys = False\<rparr>"

definition all_time :: traffic_scope where
  "all_time = \<lparr>sc_include_archive = True, sc_include_deleted_keys = False\<rparr>"

type_synonym traffic_row = "int \<times> int" \<comment> \<open>downloaded, uploaded\<close>

text \<open>\<open>traffic_rows_query\<close>, the two byte columns of its rows: the join of the statistics with the
  keys, and the archive.\<close>

definition live_rows :: "traffic_scope \<Rightarrow> int option \<Rightarrow> world \<Rightarrow> traffic_row list" where
  "live_rows scope owner w =
     concat (map (\<lambda>t. map (\<lambda>_. (ts_downloaded_bytes t, ts_uploaded_bytes t))
       (filter (\<lambda>k. vk_id k = ts_key_id t
          \<and> (sc_include_deleted_keys scope \<or> is_live k)
          \<and> (case owner of None \<Rightarrow> True | Some o' \<Rightarrow> vk_owner_user_id k = o')) (db_vpn_keys w)))
       (db_traffic_stats w))"

definition archive_rows :: "traffic_scope \<Rightarrow> int option \<Rightarrow> world \<Rightarrow> traffic_row list" where
  "archive_rows scope owner w =
     (if sc_include_archive scope
      then map (\<lambda>a. (at_downloaded_bytes a, at_uploaded_bytes a))
        (filter (\<lambda>a. case owner of None \<Rightarrow> True | Some o' \<Rightarrow> at_owner_user_id a = o') (db_traffic_archive w))
      else [])"

definition traffic_rows_query :: "traffic_scope \<Rightarrow> int option \<Rightarrow> world \<Rightarrow> traffic_row list" where
  "traffic_rows_query scope owner w = live_rows scope owner w @ archive_rows scope owner w"

record traffic_scope_totals =
  tt_downloaded_bytes :: int
  tt_uploaded_bytes :: int
  tt_measured_keys :: int

definition sum_traffic_for_owner :: "int \<Rightarrow> traffic_scope \<Rightarrow> world \<Rightarrow> traffic_scope_totals" where
  "sum_traffic_for_owner owner scope w =
     (let rows = traffic_rows_query scope (Some owner) w
      in \<lparr>tt_downloaded_bytes = sum_list (map fst rows), tt_uploaded_bytes = sum_list (map snd rows),
          tt_measured_keys = int (length rows)\<rparr>)"

definition total_bytes :: "traffic_scope_totals \<Rightarrow> int" where
  "total_bytes t = tt_downloaded_bytes t + tt_uploaded_bytes t"

definition measured :: "traffic_scope_totals \<Rightarrow> bool" where
  "measured t \<longleftrightarrow> tt_measured_keys t > 0"

section \<open>Status changes\<close>

definition set_payloads :: "payload option \<Rightarrow> payload option \<Rightarrow> vpn_key \<Rightarrow> vpn_key" where
  "set_payloads p q k = k\<lparr>vk_payload := (case p of None \<Rightarrow> vk_payload k | Some x \<Rightarrow> x),
     vk_public_payload := (case q of None \<Rightarrow> vk_public_payload k | Some x \<Rightarrow> x)\<rparr>"

definition mark_active :: "int \<Rightarrow> string \<Rightarrow> payload option \<Rightarrow> payload option \<Rightarrow> unit act" where
  "mark_active kid now p q = op_transaction (
     op_bind (op_get (key_get_by_id kid)) (\<lambda>current.
     op_bind (op_guard (current \<noteq> None) (RuntimeFailure ''VPN key not found'')) (\<lambda>_.
     op_bind (update_keys (\<lambda>k. vk_id k = kid \<and> vk_status k \<in> {KeyPendingApply, KeyApplyFailed})
                (\<lambda>k. set_payloads p q (k\<lparr>vk_status := KeyActive, vk_updated_at := now\<rparr>))) (\<lambda>_.
     op_return ()))))"

definition set_status :: "int \<Rightarrow> vpn_key_status \<Rightarrow> string \<Rightarrow> vpn_key_status list option \<Rightarrow> unit act" where
  "set_status kid status now allowed =
     (case allowed of
        Some (s # ss) \<Rightarrow>
          op_bind (update_keys (\<lambda>k. vk_id k = kid \<and> vk_status k \<in> set (s # ss))
                     (\<lambda>k. k\<lparr>vk_status := status, vk_updated_at := now\<rparr>)) (\<lambda>rowcount.
          op_guard (rowcount \<noteq> 0) ConcurrentModificationError)
      | _ \<Rightarrow>
          op_bind (update_keys (has_key_id kid) (\<lambda>k. k\<lparr>vk_status := status, vk_updated_at := now\<rparr>)) (\<lambda>_.
          op_return ()))"

definition update_key_status :: "int \<Rightarrow> vpn_key_status \<Rightarrow> string \<Rightarrow> unit act" where
  "update_key_status kid status now = set_status kid status now None"

definition coalesce :: "'a option \<Rightarrow> 'a \<Rightarrow> 'a option" where
  "coalesce x y = (case x of None \<Rightarrow> Some y | Some v \<Rightarrow> Some v)"

definition mark_revoked :: "int \<Rightarrow> int \<Rightarrow> string \<Rightarrow> unit act" where
  "mark_revoked kid actor now =
     op_bind (update_keys (\<lambda>k. vk_id k = kid \<and> vk_status k \<notin> {KeyRevoked, KeyDeleted})
       (\<lambda>k. k\<lparr>vk_status := KeyRevoked, vk_updated_at := now, vk_revoked_at := coalesce (vk_revoked_at k) now,
              vk_revoked_by := coalesce (vk_revoked_by k) actor, vk_client_ip := None\<rparr>)) (\<lambda>rowcount.
     op_guard (rowcount = 1) (InvalidTransition ''already revoked or deleted''))"

definition mark_deleted :: "int \<Rightarrow> int \<Rightarrow> string \<Rightarrow> unit act" where
  "mark_deleted kid actor now =
     op_bind (update_keys (\<lambda>k. vk_id k = kid \<and> vk_status k \<noteq> KeyDeleted)
       (\<lambda>k. k\<lparr>vk_status := KeyDeleted, vk_updated_at := now, vk_deleted_at := coalesce (vk_deleted_at k) now,
              vk_deleted_by := coalesce (vk_deleted_by k) actor\<rparr>)) (\<lambda>rowcount.
     op_guard (rowcount = 1) (InvalidTransition ''already deleted''))"

text \<open>The statement of the archive, and the deletes; the foreign key of a trial request is set to null.\<close>

definition archive_of :: "int \<Rightarrow> string \<Rightarrow> world \<Rightarrow> archived_traffic list" where
  "archive_of kid now w =
     concat (map (\<lambda>t. map (\<lambda>k. \<lparr>at_key_id = ts_key_id t, at_owner_user_id = vk_owner_user_id k,
          at_key_type = vk_key_type k, at_downloaded_bytes = ts_downloaded_bytes t,
          at_uploaded_bytes = ts_uploaded_bytes t, at_deleted_at = now\<rparr>)
        (filter (\<lambda>k. vk_id k = ts_key_id t) (db_vpn_keys w)))
       (filter (\<lambda>t. ts_key_id t = kid) (db_traffic_stats w)))"

definition hard_delete_with_stats :: "int \<Rightarrow> string \<Rightarrow> unit act" where
  "hard_delete_with_stats kid now = op_transaction (
     op_bind (op_modify (\<lambda>w. w\<lparr>db_traffic_archive := db_traffic_archive w @ archive_of kid now w\<rparr>)) (\<lambda>_.
     op_bind (op_modify (\<lambda>w. w\<lparr>db_traffic_stats := filter (\<lambda>t. ts_key_id t \<noteq> kid) (db_traffic_stats w)\<rparr>)) (\<lambda>_.
     op_modify (\<lambda>w. w\<lparr>db_vpn_keys := filter (\<lambda>k. vk_id k \<noteq> kid) (db_vpn_keys w),
       db_trial_requests := update_where (\<lambda>t. tr_key_id t = Some kid) (\<lambda>t. t\<lparr>tr_key_id := None\<rparr>) (db_trial_requests w)\<rparr>))))"

definition key_update_note :: "int \<Rightarrow> string option \<Rightarrow> string \<Rightarrow> unit act" where
  "key_update_note kid note now =
     op_bind (update_keys (has_key_id kid) (\<lambda>k. k\<lparr>vk_note := note, vk_updated_at := now\<rparr>)) (\<lambda>_. op_return ())"

definition update_payload :: "int \<Rightarrow> payload \<Rightarrow> payload \<Rightarrow> string \<Rightarrow> unit act" where
  "update_payload kid p q now =
     op_bind (update_keys (has_key_id kid) (\<lambda>k. k\<lparr>vk_payload := p, vk_public_payload := q, vk_updated_at := now\<rparr>))
       (\<lambda>_. op_return ())"

text \<open>\<open>mark_expiry_notified\<close>: the set of thresholds kept as text.\<close>

definition day_items :: "string \<Rightarrow> string list" where
  "day_items raw = filter (\<lambda>d. str_isdigit (strip d)) (split_on (CHR '','') raw)"

definition mark_expiry_notified :: "int \<Rightarrow> int \<Rightarrow> unit act" where
  "mark_expiry_notified kid threshold = op_transaction (
     op_bind (op_get (key_get_by_id kid)) (\<lambda>row.
     let raw = (case row of None \<Rightarrow> [] | Some k \<Rightarrow> (case vk_expiry_notified_days k of None \<Rightarrow> [] | Some t \<Rightarrow> t));
         items = map strip (day_items raw)
     in op_bind (op_guard (list_all (list_all ascii_digit) items) (ValueError ''int'')) (\<lambda>_.
        let days = sort (remdups (threshold # map (\<lambda>d. int (undec d)) items))
        in op_bind (update_keys (has_key_id kid)
             (\<lambda>k. k\<lparr>vk_expiry_notified_days := Some (join '','' (map int_str days))\<rparr>)) (\<lambda>_. op_return ()))))"

section \<open>Numbers are never reused, addresses never shared\<close>

definition keys_ok :: "world \<Rightarrow> bool" where
  "keys_ok w \<longleftrightarrow> keys_unique (db_vpn_keys w) \<and> (\<forall>k \<in> set (db_vpn_keys w). vk_id k \<le> key_seq w)"

datatype key_cmd =
    CreateKey key_draft string | ReserveNumber
  | MarkActive int string "payload option" "payload option"
  | SetStatus int vpn_key_status string "vpn_key_status list option"
  | MarkRevoked int int string | MarkDeleted int int string | HardDelete int string
  | UpdateNote int "string option" string | UpdatePayload int payload payload string
  | MarkNotified int int

fun run_key_cmd :: "key_cmd \<Rightarrow> world \<Rightarrow> world" where
  "run_key_cmd (CreateKey d now) w = snd (create_pending d now w)"
| "run_key_cmd ReserveNumber w = snd (reserve_key_number w)"
| "run_key_cmd (MarkActive kid now p q) w = snd (mark_active kid now p q w)"
| "run_key_cmd (SetStatus kid s now a) w = snd (set_status kid s now a w)"
| "run_key_cmd (MarkRevoked kid actor now) w = snd (mark_revoked kid actor now w)"
| "run_key_cmd (MarkDeleted kid actor now) w = snd (mark_deleted kid actor now w)"
| "run_key_cmd (HardDelete kid now) w = snd (hard_delete_with_stats kid now w)"
| "run_key_cmd (UpdateNote kid n now) w = snd (key_update_note kid n now w)"
| "run_key_cmd (UpdatePayload kid p q now) w = snd (update_payload kid p q now w)"
| "run_key_cmd (MarkNotified kid t) w = snd (mark_expiry_notified kid t w)"

text \<open>Above a number: no key has it, and the counter has passed it.\<close>

definition retired :: "int \<Rightarrow> world \<Rightarrow> bool" where
  "retired n w \<longleftrightarrow> n \<le> key_seq w \<and> n \<notin> vk_id ` set (db_vpn_keys w)"

definition keeps_key_id :: "(vpn_key \<Rightarrow> vpn_key) \<Rightarrow> bool" where
  "keeps_key_id f \<longleftrightarrow> (\<forall>k. vk_id (f k) = vk_id k)"

lemma map_key_id_update: "keeps_key_id f \<Longrightarrow> map vk_id (update_where P f ks) = map vk_id ks"
  by (simp add: keeps_key_id_def map_update_where)

lemma max_key_id_ids: "max_key_id w = foldr max (map vk_id (db_vpn_keys w)) 0"
  by (rule max_key_id_def)

lemma key_seq_ids:
  "map vk_id (db_vpn_keys w) = map vk_id (db_vpn_keys w') \<Longrightarrow> db_vpn_key_seq w = db_vpn_key_seq w'
    \<Longrightarrow> key_seq w = key_seq w'"
  by (simp only: key_seq_def max_key_id_def)

lemma le_max_ids: "(x :: int) \<in> set xs \<Longrightarrow> x \<le> foldr max xs 0"
  by (induction xs) auto

lemma ids_le_next:
  assumes "k \<in> set (db_vpn_keys w)"
  shows "vk_id k < next_key_id w"
proof -
  have "vk_id k \<in> set (map vk_id (db_vpn_keys w))" using assms by simp
  then have "vk_id k \<le> max_key_id w" unfolding max_key_id_def by (rule le_max_ids)
  then show ?thesis by (simp add: next_key_id_def)
qed

lemma key_seq_less_next: "key_seq w < next_key_id w"
  by (simp add: key_seq_def next_key_id_def split: option.split)

lemma update_keys_run [op_simps]:
  "update_keys P f w =
     (if keys_unique (update_where P f (db_vpn_keys w))
      then (Inr (count_where P (db_vpn_keys w)), w\<lparr>db_vpn_keys := update_where P f (db_vpn_keys w)\<rparr>)
      else (Inl (IntegrityError ''vpn_keys''), w))"
  by (simp add: update_keys_def write_keys_def op_bind_def op_get_def op_guard_def op_modify_def op_return_def)

text \<open>A world as the invariants of the keys see it.\<close>

definition numbers_kept :: "int \<Rightarrow> world \<Rightarrow> world \<Rightarrow> bool" where
  "numbers_kept n w w' \<longleftrightarrow> (keys_ok w \<longrightarrow> keys_ok w' \<and> (retired n w \<longrightarrow> retired n w'))"

lemma numbers_kept_refl [simp]: "numbers_kept n w w"
  by (simp add: numbers_kept_def)

lemma numbers_kept_update:
  assumes "keeps_key_id f"
  shows "numbers_kept n w (snd (update_keys P f w))"
proof (cases "keys_unique (update_where P f (db_vpn_keys w))")
  case True
  let ?w' = "w\<lparr>db_vpn_keys := update_where P f (db_vpn_keys w)\<rparr>"
  have ids: "map vk_id (db_vpn_keys ?w') = map vk_id (db_vpn_keys w)"
    using assms by (simp add: map_key_id_update)
  then have ids': "vk_id ` set (db_vpn_keys ?w') = vk_id ` set (db_vpn_keys w)" by (metis set_map)
  have seq: "key_seq ?w' = key_seq w" by (rule key_seq_ids) (use ids in simp_all)
  have "vk_id k \<le> key_seq w" if "keys_ok w" "k \<in> set (db_vpn_keys ?w')" for k
  proof -
    have "vk_id k \<in> vk_id ` set (db_vpn_keys w)" using that(2) ids' by blast
    with that(1) show ?thesis by (auto simp: keys_ok_def)
  qed
  then have "keys_ok ?w'" if "keys_ok w"
    using that True seq by (simp add: keys_ok_def)
  moreover have "retired n ?w'" if "retired n w"
    using that ids' seq by (simp add: retired_def)
  ultimately have "numbers_kept n w ?w'" by (simp add: numbers_kept_def)
  with True show ?thesis by (simp add: update_keys_run)
next
  case False
  then show ?thesis by (simp add: update_keys_run)
qed

lemma snd_guard_after: "snd (op_bind m (\<lambda>x. op_guard (b x) e) w) = snd (m w)"
  "snd (op_bind m (\<lambda>x. op_return y) w) = snd (m w)"
  by (auto simp: op_bind_def op_guard_def op_return_def split: prod.splits sum.splits)

lemma snd_transaction: "snd (op_transaction m w) = (case m w of (Inl e, _) \<Rightarrow> w | (Inr x, w') \<Rightarrow> w')"
  by (simp add: op_transaction_def split: prod.splits sum.splits)

lemma numbers_kept_transaction:
  "numbers_kept n w (snd (m w)) \<Longrightarrow> numbers_kept n w (snd (op_transaction m w))"
  by (auto simp: snd_transaction split: prod.splits sum.splits)

lemma set_payloads_id [simp]: "vk_id (set_payloads p q k) = vk_id k"
  by (simp add: set_payloads_def)

lemma numbers_kept_create: "numbers_kept n w (snd (create_pending d now w))"
proof -
  let ?w' = "w\<lparr>db_vpn_keys := db_vpn_keys w @ [new_key_row d now (next_key_id w)], db_vpn_key_seq := Some (next_key_id w)\<rparr>"
  have "snd (create_pending d now w) = w \<or>
      snd (create_pending d now w) = ?w' \<and> keys_unique (db_vpn_keys ?w')"
    by (auto simp: create_pending_def insert_key_def write_keys_def op_simps checked_relay_def
        split: option.splits sum.splits prod.splits if_splits)
  moreover have "numbers_kept n w ?w'" if "keys_unique (db_vpn_keys ?w')"
    using that ids_le_next [of _ w] key_seq_less_next [of w]
    by (fastforce simp: numbers_kept_def keys_ok_def retired_def key_seq_def new_key_row_def less_imp_le)
  ultimately show ?thesis by auto
qed

lemma numbers_kept_reserve: "numbers_kept n w (snd (reserve_key_number w))"
  by (fastforce simp: reserve_key_number_def op_simps numbers_kept_def keys_ok_def retired_def key_seq_def)

lemma unique_column_filter: "unique_column f xs \<Longrightarrow> unique_column f (filter P xs)"
proof (induction xs)
  case Nil
  then show ?case by simp
next
  case (Cons x xs)
  have "set (List.map_filter f (filter P xs)) \<subseteq> set (List.map_filter f xs)"
    by (auto simp: map_filter_def)
  with Cons show ?case by (auto simp: unique_column_def map_filter_simps split: option.splits)
qed

lemma keys_unique_filter: "keys_unique ks \<Longrightarrow> keys_unique (filter P ks)"
  by (simp add: keys_unique_def unique_column_filter distinct_map_filter)

lemma hard_delete_run:
  "hard_delete_with_stats kid now w = (Inr (),
     w\<lparr>db_traffic_archive := db_traffic_archive w @ archive_of kid now w,
       db_traffic_stats := filter (\<lambda>t. ts_key_id t \<noteq> kid) (db_traffic_stats w),
       db_vpn_keys := filter (\<lambda>k. vk_id k \<noteq> kid) (db_vpn_keys w),
       db_trial_requests := update_where (\<lambda>t. tr_key_id t = Some kid) (\<lambda>t. t\<lparr>tr_key_id := None\<rparr>) (db_trial_requests w)\<rparr>)"
  by (simp add: hard_delete_with_stats_def op_simps)

text \<open>
  Deleting rows can only lower the number the counter restarts from when its row is missing, so
  the claim about numbers asks for the counter row, which every insert and reservation writes.
\<close>

lemma hard_delete_numbers:
  assumes "db_vpn_key_seq w \<noteq> None"
  shows "numbers_kept n w (snd (hard_delete_with_stats kid now w))"
  using assms keys_unique_filter [of "db_vpn_keys w" "\<lambda>k. vk_id k \<noteq> kid"]
  by (auto simp: hard_delete_run numbers_kept_def keys_ok_def retired_def key_seq_def)

lemma numbers_kept_cmd:
  assumes "db_vpn_key_seq w \<noteq> None"
  shows "numbers_kept n w (run_key_cmd c w)"
proof (cases c)
  case (CreateKey d now)
  then show ?thesis by (simp add: numbers_kept_create)
next
  case ReserveNumber
  then show ?thesis by (simp add: numbers_kept_reserve)
next
  case (MarkActive kid now p q)
  have "numbers_kept n w (snd (mark_active kid now p q w))"
    unfolding mark_active_def
    by (rule numbers_kept_transaction)
      (auto simp: op_bind_def [of "op_get _"] op_bind_def [of "op_guard _ _"] op_get_def op_guard_def snd_guard_after
        intro!: numbers_kept_update simp: keeps_key_id_def)
  with MarkActive show ?thesis by simp
next
  case (SetStatus kid s now a)
  then show ?thesis
    by (auto simp: set_status_def snd_guard_after keeps_key_id_def intro!: numbers_kept_update split: option.split list.split)
next
  case (MarkRevoked kid actor now)
  then show ?thesis by (simp add: mark_revoked_def snd_guard_after numbers_kept_update keeps_key_id_def)
next
  case (MarkDeleted kid actor now)
  then show ?thesis by (simp add: mark_deleted_def snd_guard_after numbers_kept_update keeps_key_id_def)
next
  case (HardDelete kid now)
  then show ?thesis using hard_delete_numbers [OF assms] by simp
next
  case (UpdateNote kid n now)
  then show ?thesis by (simp add: key_update_note_def snd_guard_after numbers_kept_update keeps_key_id_def)
next
  case (UpdatePayload kid p q now)
  then show ?thesis by (simp add: update_payload_def snd_guard_after numbers_kept_update keeps_key_id_def)
next
  case (MarkNotified kid t)
  have "numbers_kept n w (snd (mark_expiry_notified kid t w))"
    unfolding mark_expiry_notified_def Let_def
    by (rule numbers_kept_transaction)
      (auto simp: op_bind_def [of "op_get _"] op_bind_def [of "op_guard _ _"] op_get_def op_guard_def snd_guard_after
        intro!: numbers_kept_update simp: keeps_key_id_def)
  with MarkNotified show ?thesis by simp
qed

lemma counter_kept: "db_vpn_key_seq w \<noteq> None \<Longrightarrow> db_vpn_key_seq (run_key_cmd c w) \<noteq> None"
  by (cases c)
    (auto simp: create_pending_def insert_key_def write_keys_def reserve_key_number_def mark_active_def set_status_def
      mark_revoked_def mark_deleted_def hard_delete_run key_update_note_def update_payload_def
      mark_expiry_notified_def op_simps checked_relay_def Let_def
      split: option.splits sum.splits list.splits)

lemma numbers_kept_run:
  assumes "db_vpn_key_seq w \<noteq> None" "keys_ok w"
  shows "keys_ok (fold run_key_cmd cs w) \<and> (retired n w \<longrightarrow> retired n (fold run_key_cmd cs w))"
  using assms
proof (induction cs arbitrary: w)
  case Nil
  then show ?case by simp
next
  case (Cons c cs)
  from numbers_kept_cmd [OF Cons.prems(1), of n c] Cons.prems(2)
  have "keys_ok (run_key_cmd c w) \<and> (retired n w \<longrightarrow> retired n (run_key_cmd c w))"
    by (simp add: numbers_kept_def)
  with Cons.IH [of "run_key_cmd c w"] counter_kept [OF Cons.prems(1)] show ?case by simp
qed

text \<open>
  C8: a number reserved for a bundle is never the number of a key, in whatever way keys are then
  created, changed, deleted or numbered; and no two keys ever share an id.
\<close>

theorem reserved_number_never_reused:
  assumes "keys_ok w" "reserve_key_number w = (Inr n, w')"
  shows "n \<notin> vk_id ` set (db_vpn_keys (fold run_key_cmd cs w'))
    \<and> distinct (map vk_id (db_vpn_keys (fold run_key_cmd cs w')))"
proof -
  have w': "w' = w\<lparr>db_vpn_key_seq := Some (key_seq w + 1)\<rparr>" "n = key_seq w + 1"
    using assms(2) by (auto simp: reserve_key_number_def op_simps)
  then have "keys_ok w'" "retired n w'" "db_vpn_key_seq w' \<noteq> None"
    using assms(1) by (fastforce simp: keys_ok_def retired_def key_seq_def)+
  with numbers_kept_run [of w' cs n] show ?thesis
    by (simp add: retired_def keys_ok_def keys_unique_def)
qed

lemma unique_column_pair:
  assumes "unique_column f ks" "i < length ks" "j < length ks" "i \<noteq> j" "f (ks ! i) = Some x"
  shows "f (ks ! j) \<noteq> Some x"
  using assms
proof (induction ks arbitrary: i j)
  case Nil
  then show ?case by simp
next
  case (Cons k ks)
  have member: "x \<in> set (List.map_filter f ks)" if "f (ks ! m) = Some x" "m < length ks" for m
    using that by (force simp: map_filter_def)
  have tail: "unique_column f ks" and head: "f k = Some x \<Longrightarrow> x \<notin> set (List.map_filter f ks)"
    using Cons.prems(1) by (auto simp: unique_column_def map_filter_simps split: option.splits)
  show ?case
  proof (cases i)
    case 0
    then obtain j' where "j = Suc j'" using Cons.prems(4) by (cases j) auto
    with 0 head member [of j'] Cons.prems(3,5) show ?thesis by auto
  next
    case (Suc i')
    show ?thesis
    proof (cases j)
      case 0
      with Suc head member [of i'] Cons.prems(2,5) show ?thesis by auto
    next
      case (Suc j')
      with \<open>i = Suc i'\<close> Cons.IH [OF tail, of i' j'] Cons.prems show ?thesis by simp
    qed
  qed
qed


section \<open>Terminal statuses\<close>

definition terminal :: "vpn_key \<Rightarrow> bool" where
  "terminal k \<longleftrightarrow> vk_status k \<in> {KeyRevoked, KeyDeleted}"

definition ended :: "int \<Rightarrow> world \<Rightarrow> bool" where
  "ended kid w \<longleftrightarrow> db_vpn_key_seq w \<noteq> None \<and> kid \<le> key_seq w
     \<and> (\<forall>k \<in> set (db_vpn_keys w). vk_id k = kid \<longrightarrow> terminal k)"

fun sets_status :: "key_cmd \<Rightarrow> bool" where
  "sets_status (SetStatus kid s now a) = True"
| "sets_status c = False"

lemma ended_update:
  assumes "ended kid w" "keeps_key_id f" "\<And>k. P k \<Longrightarrow> vk_id k = kid \<Longrightarrow> terminal k \<Longrightarrow> terminal (f k)"
  shows "ended kid (snd (update_keys P f w))"
proof -
  have "key_seq (w\<lparr>db_vpn_keys := ks\<rparr>) = key_seq w" for ks
    using assms(1) by (auto simp: key_seq_def ended_def)
  with assms show ?thesis
    by (auto simp: update_keys_run ended_def set_update_where keeps_key_id_def)
qed

lemma ended_cmd:
  assumes "ended kid w" "\<not> sets_status c"
  shows "ended kid (run_key_cmd c w)"
proof (cases c)
  case (CreateKey d now)
  have "snd (create_pending d now w) = w \<or> snd (create_pending d now w) =
      w\<lparr>db_vpn_keys := db_vpn_keys w @ [new_key_row d now (next_key_id w)], db_vpn_key_seq := Some (next_key_id w)\<rparr>"
    by (auto simp: create_pending_def insert_key_def write_keys_def op_simps checked_relay_def
        split: option.splits sum.splits prod.splits if_splits)
  then show ?thesis
    using assms(1) key_seq_less_next [of w] CreateKey
    by (auto simp: ended_def new_key_row_def key_seq_def)
next
  case ReserveNumber
  then show ?thesis using assms(1) by (auto simp: reserve_key_number_def op_simps ended_def key_seq_def)
next
  case (MarkActive k now p q)
  have "ended kid (snd (update_keys P (\<lambda>k. set_payloads p q (k\<lparr>vk_status := KeyActive, vk_updated_at := now\<rparr>)) w))"
    if "P = (\<lambda>x. vk_id x = k \<and> vk_status x \<in> {KeyPendingApply, KeyApplyFailed})" for P
    using that by (intro ended_update [OF assms(1)]) (auto simp: keeps_key_id_def terminal_def)
  with MarkActive assms(1) show ?thesis
    by (auto simp: mark_active_def op_transaction_def op_bind_def op_get_def op_guard_def op_return_def
        split: prod.splits sum.splits)
next
  case (SetStatus k s now a)
  then show ?thesis using assms(2) by simp
next
  case (MarkRevoked k actor now)
  then show ?thesis using assms(1)
    by (auto simp: mark_revoked_def snd_guard_after keeps_key_id_def terminal_def intro!: ended_update)
next
  case (MarkDeleted k actor now)
  then show ?thesis using assms(1)
    by (auto simp: mark_deleted_def snd_guard_after keeps_key_id_def terminal_def intro!: ended_update)
next
  case (HardDelete k now)
  then show ?thesis using assms(1) by (auto simp: hard_delete_run ended_def key_seq_def)
next
  case (UpdateNote k n now)
  then show ?thesis using assms(1)
    by (auto simp: key_update_note_def snd_guard_after keeps_key_id_def terminal_def intro!: ended_update)
next
  case (UpdatePayload k p q now)
  then show ?thesis using assms(1)
    by (auto simp: update_payload_def snd_guard_after keeps_key_id_def terminal_def intro!: ended_update)
next
  case (MarkNotified k t)
  have "ended kid (snd (update_keys (has_key_id k) (\<lambda>k. k\<lparr>vk_expiry_notified_days := x\<rparr>) w))" for x
    by (intro ended_update [OF assms(1)]) (auto simp: keeps_key_id_def terminal_def)
  with MarkNotified assms(1) show ?thesis
    by (auto simp: mark_expiry_notified_def Let_def op_transaction_def op_bind_def op_get_def op_guard_def op_return_def
        split: prod.splits sum.splits) (metis snd_conv)+
qed

lemma key_get_unique: "keys_ok w \<Longrightarrow> x \<in> set (db_vpn_keys w) \<Longrightarrow> key_get_by_id (vk_id x) w = Some x"
  unfolding keys_ok_def keys_unique_def key_get_by_id_def by (rule find_unique) simp_all

lemma key_get_Some: "key_get_by_id kid w = Some k \<Longrightarrow> k \<in> set (db_vpn_keys w) \<and> vk_id k = kid"
  unfolding key_get_by_id_def by (rule find_Some_in)

lemma ended_run:
  "ended kid w \<Longrightarrow> list_all (\<lambda>c. \<not> sets_status c) cs \<Longrightarrow> ended kid (fold run_key_cmd cs w)"
  by (induction cs arbitrary: w) (simp_all add: ended_cmd)


end
