(* ===== verification/Vpn_Keys.thy ===== *)
theory Vpn_Keys
  imports Vpn_Keys_Repo "HOL-Library.Multiset"
begin

text \<open>
  What the repository of the keys guarantees: a revocation frees the address, deleting a key keeps
  the account's traffic, an expiry reminder is recorded once per threshold.
\<close>

section \<open>Revocation\<close>

lemma unique_column_map:
  assumes "\<And>k. k \<in> set ks \<Longrightarrow> f (g k) = f k \<or> f (g k) = None" "unique_column f ks"
  shows "unique_column f (map g ks)"
  using assms
proof (induction ks)
  case Nil
  then show ?case by (simp add: unique_column_def map_filter_simps)
next
  case (Cons k ks)
  have "set (List.map_filter f (map g ks)) \<subseteq> set (List.map_filter f ks)"
  proof
    fix x assume "x \<in> set (List.map_filter f (map g ks))"
    then obtain q where q: "q \<in> set ks" "f (g q) = Some x" by (auto simp: map_filter_def)
    with Cons.prems(1) [of q] have "f q = Some x" by auto
    with q(1) show "x \<in> set (List.map_filter f ks)" by (force simp: map_filter_def)
  qed
  with Cons show ?case
    by (fastforce simp: unique_column_def map_filter_simps split: option.splits)
qed

lemma keys_unique_map:
  assumes "keys_unique ks" "\<And>k. vk_id (g k) = vk_id k \<and> vk_uuid (g k) = vk_uuid k
      \<and> vk_email_label (g k) = vk_email_label k \<and> vk_public_key (g k) = vk_public_key k"
    "\<And>k. k \<in> set ks \<Longrightarrow> reserved_ip (g k) = reserved_ip k \<or> reserved_ip (g k) = None"
  shows "keys_unique (map g ks)"
  unfolding keys_unique_def
proof (intro conjI)
  show "distinct (map vk_id (map g ks))" using assms(1,2) by (simp add: keys_unique_def comp_def)
  show "unique_column vk_uuid (map g ks)" "unique_column vk_email_label (map g ks)"
    "unique_column vk_public_key (map g ks)"
    using assms(1,2) by (auto simp: keys_unique_def intro: unique_column_map)
  show "unique_column reserved_ip (map g ks)"
    using assms(1) by (intro unique_column_map) (auto simp: keys_unique_def dest: assms(3))
qed

definition revoked_row :: "int \<Rightarrow> string \<Rightarrow> vpn_key \<Rightarrow> vpn_key" where
  "revoked_row actor now k = k\<lparr>vk_status := KeyRevoked, vk_updated_at := now,
     vk_revoked_at := coalesce (vk_revoked_at k) now, vk_revoked_by := coalesce (vk_revoked_by k) actor,
     vk_client_ip := None\<rparr>"

lemma mark_revoked_run:
  assumes "keys_ok w" "key_get_by_id kid w = Some k"
  shows "mark_revoked kid actor now w =
    (if terminal k then (Inl (InvalidTransition ''already revoked or deleted''), w)
     else (Inr (), w\<lparr>db_vpn_keys := update_where (\<lambda>k. vk_id k = kid \<and> \<not> terminal k) (revoked_row actor now) (db_vpn_keys w)\<rparr>))"
proof -
  have d: "distinct (map vk_id (db_vpn_keys w))" and u: "keys_unique (db_vpn_keys w)"
    using assms(1) by (simp_all add: keys_ok_def keys_unique_def)
  have row: "find (has_key_id kid) (db_vpn_keys w) = Some k"
    using assms(2) by (simp add: key_get_by_id_def)
  have unique: "keys_unique (update_where (\<lambda>k. vk_id k = kid \<and> \<not> terminal k) (revoked_row actor now) (db_vpn_keys w))"
    unfolding update_where_def
    by (rule keys_unique_map [OF u]) (auto simp: revoked_row_def reserved_ip_def reserved_statuses_def)
  have count: "count_where (\<lambda>k. vk_id k = kid \<and> \<not> terminal k) (db_vpn_keys w) = (if terminal k then 0 else 1)"
    using count_key_row [OF d row, of "\<lambda>k. \<not> terminal k"] by simp
  have same: "terminal k \<Longrightarrow> update_where (\<lambda>k. vk_id k = kid \<and> \<not> terminal k) (revoked_row actor now) (db_vpn_keys w) = db_vpn_keys w"
    by (rule update_key_row_none [OF d row]) simp
  show ?thesis
    unfolding mark_revoked_def revoked_row_def [symmetric] terminal_def [symmetric]
    using unique count same by (simp add: op_bind_def update_keys_run op_guard_def)
qed

lemma mark_revoked_effect:
  assumes "keys_ok w" "key_get_by_id kid w = Some k"
  shows "if terminal k then mark_revoked kid actor now w = (Inl (InvalidTransition ''already revoked or deleted''), w)
    else \<exists>w'. mark_revoked kid actor now w = (Inr (), w') \<and> keys_ok w'
      \<and> key_get_by_id kid w' = Some (revoked_row actor now k)
      \<and> (\<forall>ip. reserved_ip k = Some ip \<longrightarrow> ip \<notin> set (get_occupied_awg_ips w'))
      \<and> (\<forall>j. j \<noteq> kid \<longrightarrow> key_get_by_id j w' = key_get_by_id j w)"
proof (cases "terminal k")
  case True
  then show ?thesis by (simp add: mark_revoked_run [OF assms])
next
  case False
  let ?ks = "update_where (\<lambda>k. vk_id k = kid \<and> \<not> terminal k) (revoked_row actor now) (db_vpn_keys w)"
  let ?w = "w\<lparr>db_vpn_keys := ?ks\<rparr>"
  have get: "key_get_by_id j ?w = map_option (\<lambda>x. if vk_id x = kid \<and> \<not> terminal x then revoked_row actor now x else x)
      (key_get_by_id j w)" for j
    by (simp add: key_get_by_id_def find_update_key revoked_row_def)
  have run: "mark_revoked kid actor now w = (Inr (), ?w)"
    using False by (simp add: mark_revoked_run [OF assms])
  have kid: "vk_id k = kid" using key_get_Some [OF assms(2)] by simp
  have ok: "keys_ok ?w"
  proof -
    have "numbers_kept 0 w (snd (mark_revoked kid actor now w))"
      by (simp add: mark_revoked_def snd_guard_after numbers_kept_update keeps_key_id_def)
    then show ?thesis using run assms(1) by (simp add: numbers_kept_def)
  qed
  have free: "ip \<notin> set (get_occupied_awg_ips ?w)" if ip: "reserved_ip k = Some ip" for ip
  proof
    assume "ip \<in> set (get_occupied_awg_ips ?w)"
    then obtain x where x: "x \<in> set (db_vpn_keys w)"
      "reserved_ip (if vk_id x = kid \<and> \<not> terminal x then revoked_row actor now x else x) = Some ip"
      by (auto simp: get_occupied_awg_ips_def map_filter_def set_update_where split: if_splits)
    then have other: "reserved_ip x = Some ip" "vk_id x \<noteq> kid"
      by (auto simp: revoked_row_def reserved_ip_def reserved_statuses_def terminal_def split: if_splits)
    obtain i j where ij: "i < length (db_vpn_keys w)" "db_vpn_keys w ! i = x" "j < length (db_vpn_keys w)" "db_vpn_keys w ! j = k"
      using x(1) key_get_Some [OF assms(2)] by (metis in_set_conv_nth)
    then have "i \<noteq> j" using other(2) kid by auto
    with unique_column_pair [of reserved_ip "db_vpn_keys w" i j ip] ij other(1) ip assms(1)
    show False by (simp add: keys_ok_def keys_unique_def)
  qed
  have others: "key_get_by_id j ?w = key_get_by_id j w" if "j \<noteq> kid" for j
    using get [of j] that key_get_Some [of j w] by (cases "key_get_by_id j w") auto
  have "key_get_by_id kid ?w = Some (revoked_row actor now k)"
    using get [of kid] assms(2) kid False by simp
  with run ok free others False show ?thesis by (simp only: if_False) blast
qed

text \<open>
  Revoking a key that is not revoked or deleted yet always succeeds: the row becomes revoked
  with the first time and actor kept, the address it held is free for the next key, and no other
  row changes. On a revoked or deleted key it raises and changes nothing.
\<close>

theorem revoke_frees_address:
  assumes "keys_ok w" "key_get_by_id kid w = Some k"
  shows "if terminal k then mark_revoked kid actor now w = (Inl (InvalidTransition ''already revoked or deleted''), w)
    else \<exists>w'. mark_revoked kid actor now w = (Inr (), w') \<and> keys_ok w'
      \<and> key_get_by_id kid w' = Some (revoked_row actor now k)
      \<and> (\<forall>ip. reserved_ip k = Some ip \<longrightarrow> ip \<notin> set (get_occupied_awg_ips w'))
      \<and> (\<forall>j. j \<noteq> kid \<longrightarrow> key_get_by_id j w' = key_get_by_id j w)"
  by (rule mark_revoked_effect [OF assms])

section \<open>Deleting a key keeps its traffic\<close>

lemma mset_concat_split:
  "mset (concat (map g xs)) = mset (concat (map g (filter P xs))) + mset (concat (map g (filter (\<lambda>x. \<not> P x) xs)))"
  by (induction xs) (auto simp: ac_simps)

lemma archived_rows:
  assumes "\<forall>k \<in> set ks. vk_id k = kid \<longrightarrow> is_live k"
  shows "concat (map (\<lambda>t. map (\<lambda>_. (ts_downloaded_bytes t, ts_uploaded_bytes t))
       (filter (\<lambda>k. vk_id k = ts_key_id t \<and> (b \<or> is_live k) \<and> vk_owner_user_id k = owner) ks))
       (filter (\<lambda>t. ts_key_id t = kid) ts))
    = map (\<lambda>a. (at_downloaded_bytes a, at_uploaded_bytes a)) (filter (\<lambda>a. at_owner_user_id a = owner)
       (concat (map (\<lambda>t. map (\<lambda>k. \<lparr>at_key_id = ts_key_id t, at_owner_user_id = vk_owner_user_id k,
          at_key_type = vk_key_type k, at_downloaded_bytes = ts_downloaded_bytes t,
          at_uploaded_bytes = ts_uploaded_bytes t, at_deleted_at = now\<rparr>)
        (filter (\<lambda>k. vk_id k = ts_key_id t) ks)) (filter (\<lambda>t. ts_key_id t = kid) ts))))"
proof (induction ts)
  case Nil
  then show ?case by simp
next
  case (Cons t ts)
  have "filter (\<lambda>k. vk_id k = kid \<and> (b \<or> is_live k) \<and> vk_owner_user_id k = owner) ks
      = filter (\<lambda>k. vk_owner_user_id k = owner) (filter (\<lambda>k. vk_id k = kid) ks)"
    using assms by (auto simp: filter_filter intro: filter_cong)
  with Cons show ?case by (simp add: filter_map comp_def)
qed

text \<open>
  C11: deleting a key for good keeps every account's all-time totals (bytes both ways and the
  number of measured keys), and takes exactly the deleted key's bytes out of the current ones.
\<close>

theorem hard_delete_keeps_traffic:
  assumes "\<forall>k \<in> set (db_vpn_keys w). vk_id k = kid \<longrightarrow> is_live k"
    "hard_delete_with_stats kid now w = (Inr (), w')"
  shows "sum_traffic_for_owner owner all_time w' = sum_traffic_for_owner owner all_time w
    \<and> total_bytes (sum_traffic_for_owner owner current_keys w')
      = total_bytes (sum_traffic_for_owner owner current_keys w)
        - sum_list (map (\<lambda>a. at_downloaded_bytes a + at_uploaded_bytes a)
            (filter (\<lambda>a. at_owner_user_id a = owner) (archive_of kid now w)))"
proof -
  let ?g = "\<lambda>ks t. map (\<lambda>_. (ts_downloaded_bytes t, ts_uploaded_bytes t))
       (filter (\<lambda>k. vk_id k = ts_key_id t \<and> (False \<or> is_live k) \<and> vk_owner_user_id k = owner) ks)"
  let ?bytes = "\<lambda>a. (at_downloaded_bytes a, at_uploaded_bytes a)"
  define moved where "moved = map ?bytes (filter (\<lambda>a. at_owner_user_id a = owner) (archive_of kid now w))"
  have w': "w' = snd (hard_delete_with_stats kid now w)" using assms(2) by simp
  have "live_rows s (Some owner) w' = concat (map (?g (db_vpn_keys w)) (filter (\<lambda>t. ts_key_id t \<noteq> kid) (db_traffic_stats w)))"
    if "\<not> sc_include_deleted_keys s" for s
    unfolding w' hard_delete_run using that
    by (auto simp: live_rows_def filter_filter intro!: arg_cong [where f = concat] map_cong filter_cong)
  then have live: "mset (live_rows s (Some owner) w) = mset moved + mset (live_rows s (Some owner) w')"
    if "\<not> sc_include_deleted_keys s" for s
    using mset_concat_split [of "?g (db_vpn_keys w)" "db_traffic_stats w" "\<lambda>t. ts_key_id t = kid"]
      archived_rows [OF assms(1), of False owner "db_traffic_stats w" now] that
    by (simp add: live_rows_def moved_def archive_of_def)
  have scopes: "\<not> sc_include_deleted_keys all_time" "\<not> sc_include_deleted_keys current_keys"
    by (simp_all add: all_time_def current_keys_def)
  have archive: "archive_rows all_time (Some owner) w' = archive_rows all_time (Some owner) w @ moved"
    "archive_rows current_keys (Some owner) w' = []" "archive_rows current_keys (Some owner) w = []"
    by (simp_all add: archive_rows_def w' hard_delete_run moved_def all_time_def current_keys_def)
  have all: "mset (traffic_rows_query all_time (Some owner) w') = mset (traffic_rows_query all_time (Some owner) w)"
    using live [OF scopes(1)] by (simp add: traffic_rows_query_def archive)
  have sums: "sum_list (map f xs) = sum_list (map f ys)" if "mset xs = mset ys" for f :: "traffic_row \<Rightarrow> int" and xs ys
    using that by (metis mset_map sum_mset_sum_list)
  have "sum_traffic_for_owner owner all_time w' = sum_traffic_for_owner owner all_time w"
    using sums [OF all] mset_eq_length [OF all] by (simp add: sum_traffic_for_owner_def Let_def)
  moreover have "sum_list (map f (traffic_rows_query current_keys (Some owner) w))
      = sum_list (map f moved) + sum_list (map f (traffic_rows_query current_keys (Some owner) w'))" for f :: "traffic_row \<Rightarrow> int"
    using sums [of "live_rows current_keys (Some owner) w" "moved @ live_rows current_keys (Some owner) w'" f]
      live [OF scopes(2)] by (simp add: traffic_rows_query_def archive)
  moreover have "sum_list (map fst moved) + sum_list (map snd moved) = sum_list (map (\<lambda>a. at_downloaded_bytes a + at_uploaded_bytes a)
      (filter (\<lambda>a. at_owner_user_id a = owner) (archive_of kid now w)))"
    by (simp add: moved_def comp_def sum_list_addf)
  ultimately show ?thesis
    by (simp add: total_bytes_def sum_traffic_for_owner_def Let_def)
qed

section \<open>Expiry reminders\<close>

lemma startswith_simps [simp]: "startswith [] s" "startswith (x # p) (y # s) \<longleftrightarrow> x = y \<and> startswith p s"
  "\<not> startswith (x # p) []"
  by (auto simp: startswith_def)

lemma startswith_token:
  "c \<notin> set p \<Longrightarrow> startswith (p @ [c]) (s @ [c]) \<longleftrightarrow> hd (split_on c s) = p"
proof (induction s arbitrary: p)
  case Nil
  then show ?case by (cases p) (auto simp: startswith_def)
next
  case (Cons x s)
  then show ?case by (cases p) (auto split: list.splits)
qed

lemma infix_token:
  assumes "c \<notin> set p"
  shows "infix_of (c # p @ [c]) (s @ [c]) \<longleftrightarrow> p \<in> set (tl (split_on c s))"
proof (induction s)
  case Nil
  then show ?case by (cases p) (auto simp: startswith_def)
next
  case (Cons x s)
  have "set (split_on c s) = insert (hd (split_on c s)) (set (tl (split_on c s)))"
    by (cases "split_on c s") (auto dest: arg_cong [where f = length])
  then show ?case
    using Cons startswith_token [OF assms, of s] by (auto split: list.splits)
qed

lemma infix_split:
  assumes "c \<notin> set p"
  shows "infix_of (c # p @ [c]) (c # s @ [c]) \<longleftrightarrow> p \<in> set (split_on c s)"
  using infix_token [OF assms, of "c # s"] by simp

definition thresholds_text :: "string option \<Rightarrow> int list \<Rightarrow> bool" where
  "thresholds_text days ds \<longleftrightarrow> (\<forall>d \<in> set ds. 0 \<le> d)
     \<and> (if ds = [] then days = None \<or> days = Some [] else days = Some (join '','' (map int_str ds)))"

definition notified_for :: "int \<Rightarrow> vpn_key \<Rightarrow> bool" where
  "notified_for t k \<longleftrightarrow> (case vk_expiry_notified_days k of None \<Rightarrow> False | Some days \<Rightarrow> notified_at t days)"

lemma int_str_digits: "0 \<le> d \<Longrightarrow> list_all ascii_digit (int_str d) \<and> int_str d \<noteq> [] \<and> int (undec (int_str d)) = d"
  using dec_digits by (simp add: int_str_def)

lemma digits_plain: "list_all ascii_digit s \<Longrightarrow> CHR '','' \<notin> set s \<and> strip s = s"
  using ascii_digit_not_space
  by (intro conjI strip_id) (auto simp: list_all_iff ascii_digit_def code_point_def)

lemma split_thresholds:
  assumes "\<forall>d \<in> set ds. 0 \<le> d" "ds \<noteq> []"
  shows "split_on (CHR '','') (join '','' (map int_str ds)) = map int_str ds"
  using assms int_str_digits digits_plain by (intro split_join) auto

lemma notified_for_iff:
  assumes "thresholds_text (vk_expiry_notified_days k) ds" "0 \<le> t"
  shows "notified_for t k \<longleftrightarrow> t \<in> set ds"
proof -
  have inj: "int_str t = int_str d \<longleftrightarrow> t = d" if "d \<in> set ds" for d
    using that assms int_str_digits by (metis thresholds_text_def)
  have comma: "CHR '','' \<notin> set (int_str t)" using int_str_digits [OF assms(2)] digits_plain by blast
  show ?thesis
  proof (cases "ds = []")
    case True
    then show ?thesis
      using assms infix_split [OF comma, of "[]"] int_str_digits [OF assms(2)]
      by (auto simp: thresholds_text_def notified_for_def notified_at_def)
  next
    case False
    then show ?thesis
      using assms infix_split [OF comma, of "join '','' (map int_str ds)"] split_thresholds [of ds] inj
      by (auto simp: thresholds_text_def notified_for_def notified_at_def)
  qed
qed

lemma recorded_days:
  assumes "thresholds_text days ds"
  shows "list_all (list_all ascii_digit) (map strip (day_items (case days of None \<Rightarrow> [] | Some t \<Rightarrow> t)))
    \<and> map (\<lambda>d. int (undec d)) (map strip (day_items (case days of None \<Rightarrow> [] | Some t \<Rightarrow> t))) = ds"
proof (cases "ds = []")
  case True
  with assms show ?thesis
    by (auto simp: thresholds_text_def day_items_def strip_def lstrip_def str_isdigit_def)
next
  case False
  have nonneg: "\<forall>d \<in> set ds. 0 \<le> d" using assms by (simp add: thresholds_text_def)
  have raw: "(case days of None \<Rightarrow> [] | Some t \<Rightarrow> t) = join '','' (map int_str ds)"
    using assms False by (simp add: thresholds_text_def)
  have item: "strip (int_str d) = int_str d" "str_isdigit (int_str d)" "list_all ascii_digit (int_str d)"
    "int (undec (int_str d)) = d" if "d \<in> set ds" for d
    using that nonneg int_str_digits [of d] digits_plain
    by (auto simp: str_isdigit_def char_isdigit_def list_all_iff)
  have "day_items (join '','' (map int_str ds)) = map int_str ds"
    unfolding day_items_def split_thresholds [OF nonneg False] using item by (auto intro: filter_True)
  with raw item show ?thesis by (auto simp: list_all_iff comp_def intro!: map_idI)
qed

text \<open>The list of thresholds after one more, and the whole effect of recording it.\<close>

definition with_threshold :: "int \<Rightarrow> int list \<Rightarrow> int list" where
  "with_threshold threshold ds = sort (remdups (threshold # ds))"

definition record_thresholds :: "int list \<Rightarrow> vpn_key \<Rightarrow> vpn_key" where
  "record_thresholds ds k = k\<lparr>vk_expiry_notified_days := Some (join '','' (map int_str ds))\<rparr>"

lemma with_threshold_set: "set (with_threshold t ds) = insert t (set ds)" "with_threshold t ds \<noteq> []"
proof -
  show "set (with_threshold t ds) = insert t (set ds)" unfolding with_threshold_def by (simp del: remdups.simps)
  then show "with_threshold t ds \<noteq> []" by auto
qed

lemma mark_expiry_run:
  assumes "keys_ok w" "key_get_by_id kid w = Some k" "thresholds_text (vk_expiry_notified_days k) ds"
  shows "mark_expiry_notified kid threshold w = (Inr (), w\<lparr>db_vpn_keys :=
     update_where (has_key_id kid) (record_thresholds (with_threshold threshold ds)) (db_vpn_keys w)\<rparr>)"
proof -
  have "keys_unique (update_where (has_key_id kid) (record_thresholds (with_threshold threshold ds)) (db_vpn_keys w))"
    unfolding update_where_def using assms(1)
    by (intro keys_unique_map) (auto simp: keys_ok_def record_thresholds_def reserved_ip_def)
  then show ?thesis
    using recorded_days [OF assms(3)]
    by (simp add: mark_expiry_notified_def op_simps assms(2) Let_def with_threshold_def record_thresholds_def [abs_def]
        del: remdups.simps map_map list.map_comp)
qed

lemma thresholds_recorded:
  assumes "thresholds_text (vk_expiry_notified_days k) ds" "0 \<le> threshold"
  shows "thresholds_text (vk_expiry_notified_days (record_thresholds (with_threshold threshold ds) k)) (with_threshold threshold ds)"
    "0 \<le> t \<Longrightarrow> notified_for t (record_thresholds (with_threshold threshold ds) k) \<longleftrightarrow> t = threshold \<or> notified_for t k"
proof -
  show new: "thresholds_text (vk_expiry_notified_days (record_thresholds (with_threshold threshold ds) k)) (with_threshold threshold ds)"
    using assms with_threshold_set by (auto simp: thresholds_text_def record_thresholds_def)
  show "notified_for t (record_thresholds (with_threshold threshold ds) k) \<longleftrightarrow> t = threshold \<or> notified_for t k" if "0 \<le> t"
    using notified_for_iff [OF new that] notified_for_iff [OF assms(1) that] with_threshold_set by auto
qed

text \<open>
  Recording that a key's expiry was announced at a threshold is remembered exactly: from then
  on the key counts as notified at that threshold, and at every other one as before.
\<close>

theorem expiry_notified_once:
  assumes "keys_ok w" "key_get_by_id kid w = Some k" "0 \<le> threshold"
    "thresholds_text (vk_expiry_notified_days k) ds"
  shows "\<exists>w' k' ds'. mark_expiry_notified kid threshold w = (Inr (), w') \<and> key_get_by_id kid w' = Some k'
    \<and> thresholds_text (vk_expiry_notified_days k') ds'
    \<and> (\<forall>t \<ge> 0. notified_for t k' \<longleftrightarrow> t = threshold \<or> notified_for t k)"
proof -
  let ?f = "record_thresholds (with_threshold threshold ds)"
  have "key_get_by_id kid (w\<lparr>db_vpn_keys := update_where (has_key_id kid) ?f (db_vpn_keys w)\<rparr>) = Some (?f k)"
    using assms(2) key_get_Some [OF assms(2)] by (simp add: key_get_by_id_def find_update_key record_thresholds_def)
  then show ?thesis
    using mark_expiry_run [OF assms(1,2,4)] thresholds_recorded [OF assms(4,3)] by blast
qed

section \<open>Witnesses\<close>

definition demo_key :: "int \<Rightarrow> vpn_key_status \<Rightarrow> vpn_key" where
  "demo_key i status = \<lparr>vk_id = i, vk_owner_user_id = 7, vk_username = None, vk_key_type = AWG, vk_status = status,
     vk_note = None, vk_uuid = None, vk_email_label = None, vk_public_key = None,
     vk_client_ip = (if i = 1 then Some ''10.8.0.2'' else Some ''10.8.0.3''), vk_payload = [], vk_public_payload = [],
     vk_created_at = ''1'', vk_updated_at = ''1'', vk_revoked_at = None, vk_deleted_at = None, vk_created_by = 7,
     vk_revoked_by = None, vk_deleted_by = None, vk_expires_at = None, vk_transport = ''tcp'',
     vk_xhttp_profile = ''base'', vk_spider_x = None, vk_relay = None, vk_bundle_id = None,
     vk_expiry_notified_days = Some ''3''\<rparr>"

definition demo_keys :: world where
  "demo_keys = empty_world\<lparr>db_vpn_keys := [demo_key 1 KeyActive, demo_key 2 KeyRevoked], db_vpn_key_seq := Some 2,
     db_traffic_stats := [\<lparr>ts_key_id = 1, ts_downloaded_bytes = 5, ts_uploaded_bytes = 6,
        ts_last_raw_downloaded_bytes = None, ts_last_raw_uploaded_bytes = None, ts_last_success_at = None,
        ts_last_attempt_at = None, ts_available = True, ts_unavailable_reason = None, ts_source = None\<rparr>]\<rparr>"

lemma demo_keys_ok: "keys_ok demo_keys" "db_vpn_key_seq demo_keys \<noteq> None"
  by (simp_all add: keys_ok_def keys_unique_def unique_column_def map_filter_simps demo_keys_def demo_key_def
      empty_world_def reserved_ip_def reserved_statuses_def key_seq_def)

lemma demo_keys_get: "key_get_by_id 1 demo_keys = Some (demo_key 1 KeyActive)"
  "key_get_by_id 2 demo_keys = Some (demo_key 2 KeyRevoked)"
  by (simp_all add: key_get_by_id_def demo_keys_def demo_key_def empty_world_def)

lemma reserved_number_never_reused_witness:
  "3 \<notin> vk_id ` set (db_vpn_keys (fold run_key_cmd [MarkDeleted 1 7 ''2'', ReserveNumber]
     (demo_keys\<lparr>db_vpn_key_seq := Some 3\<rparr>)))"
proof -
  have "reserve_key_number demo_keys = (Inr 3, demo_keys\<lparr>db_vpn_key_seq := Some 3\<rparr>)"
    by (simp add: reserve_key_number_def op_simps key_seq_def demo_keys_def)
  from reserved_number_never_reused [OF demo_keys_ok(1) this] show ?thesis by blast
qed



lemma revoke_frees_address_witness:
  "\<exists>w'. mark_revoked 1 7 ''2'' demo_keys = (Inr (), w') \<and> ''10.8.0.2'' \<notin> set (get_occupied_awg_ips w')"
  using revoke_frees_address [OF demo_keys_ok(1) demo_keys_get(1), of 7 "''2''"]
  by (auto simp: terminal_def demo_key_def reserved_ip_def reserved_statuses_def)

lemma hard_delete_keeps_traffic_witness:
  "total_bytes (sum_traffic_for_owner 7 all_time (snd (hard_delete_with_stats 1 ''2'' demo_keys)))
   = total_bytes (sum_traffic_for_owner 7 all_time demo_keys)"
proof -
  have "\<forall>k \<in> set (db_vpn_keys demo_keys). vk_id k = 1 \<longrightarrow> is_live k"
    by (simp add: demo_keys_def demo_key_def is_live_def)
  moreover have "hard_delete_with_stats 1 ''2'' demo_keys = (Inr (), snd (hard_delete_with_stats 1 ''2'' demo_keys))"
    by (simp add: hard_delete_run)
  ultimately show ?thesis using hard_delete_keeps_traffic [of demo_keys 1 "''2''" _ 7] by metis
qed

lemma expiry_notified_once_witness:
  "\<exists>w' k'. mark_expiry_notified 1 7 demo_keys = (Inr (), w') \<and> key_get_by_id 1 w' = Some k'
     \<and> notified_for 3 k' \<and> notified_for 7 k' \<and> \<not> notified_for 1 k'"
proof -
  have "digit_char 3 = CHR ''3''" unfolding digit_char_def by code_simp
  then have three: "dec 3 = ''3''" by (simp add: dec.simps)
  have days: "thresholds_text (vk_expiry_notified_days (demo_key 1 KeyActive)) [3]"
    by (simp add: thresholds_text_def demo_key_def int_str_def three)
  from expiry_notified_once [OF demo_keys_ok(1) demo_keys_get(1) _ days, of 7]
  show ?thesis
    using notified_for_iff [OF days, of 3] notified_for_iff [OF days, of 1] by fastforce
qed

end
