(* ===== verification/Ip_Allocator.thy ===== *)
theory Ip_Allocator
  imports Vpn_Keys Validators
begin

text \<open>
  \<open>adapters/ip_allocator.py\<close>: the allocator of tunnel addresses. The lists it reads, the addresses
  the keys hold and the \<open>AllowedIPs\<close> of the peers in the server's configuration, are an interface
  (\<open>address_registry\<close>): the allocator's correctness rests on what its provider promises, and the
  key table is shown to provide it.
\<close>

section \<open>The allocator\<close>

datatype allocation_error =
    BadNetworkSettings | OnlyIpv4 | ServerOutsideNetwork | ServerIsEdgeAddress
  | BadOccupiedAddress string | BadAllowedIps | ConfigUnreadable | PoolExhausted

record ip_allocator =
  al_network :: ipv4net
  al_server :: nat
  al_has_config :: bool

definition before_slash :: "string \<Rightarrow> string" where
  "before_slash s = hd (split_on (CHR ''/'') s)"

definition new_ip_allocator ::
  "(string \<Rightarrow> bool) \<Rightarrow> string \<Rightarrow> string \<Rightarrow> bool \<Rightarrow> allocation_error + ip_allocator" where
  "new_ip_allocator v6 network server_address has_config =
     (case (ip_network v6 False network, ip_address v6 (before_slash server_address)) of
        (Some (V4 n), Some (A4 a)) \<Rightarrow>
          if \<not> in_net a n then Inl ServerOutsideNetwork
          else if a = net_addr n \<or> a = broadcast n then Inl ServerIsEdgeAddress
          else Inr \<lparr>al_network = n, al_server = a, al_has_config = has_config\<rparr>
      | (Some _, Some _) \<Rightarrow> Inl OnlyIpv4
      | _ \<Rightarrow> Inl BadNetworkSettings)"

text \<open>\<open>IPv4Network.hosts()\<close>.\<close>

definition hosts :: "ipv4net \<Rightarrow> nat list" where
  "hosts n =
     (if prefixlen n = 32 then [net_addr n]
      else if prefixlen n = 31 then [net_addr n, broadcast n]
      else [net_addr n + 1 ..< broadcast n])"

text \<open>The addresses the keys hold: blank texts are skipped, an unreadable one stops the allocation.\<close>

fun occupied_addresses :: "(string \<Rightarrow> bool) \<Rightarrow> string list \<Rightarrow> allocation_error + ip_address list" where
  "occupied_addresses v6 [] = Inr []"
| "occupied_addresses v6 (value # rest) =
     (let txt = strip (before_slash value)
      in if txt = [] then occupied_addresses v6 rest
         else case ip_address v6 txt of
             None \<Rightarrow> Inl (BadOccupiedAddress value)
           | Some a \<Rightarrow> (case occupied_addresses v6 rest of Inl e \<Rightarrow> Inl e | Inr as \<Rightarrow> Inr (a # as)))"

text \<open>The peers' networks: empty texts and IPv6 are skipped, only those that meet the pool are kept.\<close>

fun occupied_networks ::
  "(string \<Rightarrow> bool) \<Rightarrow> ipv4net \<Rightarrow> string list \<Rightarrow> allocation_error + ipv4net list" where
  "occupied_networks v6 pool [] = Inr []"
| "occupied_networks v6 pool (value # rest) =
     (if value = [] then occupied_networks v6 pool rest
      else case ip_network v6 False value of
          None \<Rightarrow> Inl BadAllowedIps
        | Some V6 \<Rightarrow> occupied_networks v6 pool rest
        | Some (V4 n) \<Rightarrow>
            (case occupied_networks v6 pool rest of Inl e \<Rightarrow> Inl e
             | Inr ns \<Rightarrow> Inr (if overlaps n pool then n # ns else ns)))"

text \<open>
  \<open>next_free_ip\<close>. \<open>peers\<close> is the outcome of \<open>list_peer_allowed_ips\<close>: \<open>None\<close> when the read raised
  something other than \<open>ValueError\<close>.
\<close>

definition peer_networks ::
  "(string \<Rightarrow> bool) \<Rightarrow> ip_allocator \<Rightarrow> string list option \<Rightarrow> allocation_error + ipv4net list" where
  "peer_networks v6 al peers =
     (if \<not> al_has_config al then Inr []
      else case peers of None \<Rightarrow> Inl ConfigUnreadable
        | Some texts \<Rightarrow> occupied_networks v6 (al_network al) texts)"

definition free_for :: "ip_allocator \<Rightarrow> ip_address list \<Rightarrow> ipv4net list \<Rightarrow> nat \<Rightarrow> bool" where
  "free_for al occupied nets a \<longleftrightarrow>
     a \<noteq> al_server al \<and> A4 a \<notin> set occupied \<and> \<not> list_ex (in_net a) nets"

definition next_free_ip ::
  "(string \<Rightarrow> bool) \<Rightarrow> ip_allocator \<Rightarrow> string list \<Rightarrow> string list option \<Rightarrow> allocation_error + string" where
  "next_free_ip v6 al occupied_texts peers =
     (case occupied_addresses v6 occupied_texts of Inl e \<Rightarrow> Inl e
      | Inr occupied \<Rightarrow>
          (case peer_networks v6 al peers of Inl e \<Rightarrow> Inl e
           | Inr nets \<Rightarrow>
               (case find (free_for al occupied nets) (hosts (al_network al)) of
                  None \<Rightarrow> Inl PoolExhausted
                | Some a \<Rightarrow> Inr (addr_str a))))"

section \<open>What the lists contain\<close>

lemma occupied_addresses_set:
  "occupied_addresses v6 texts = Inr as \<Longrightarrow>
     A4 a \<in> set as \<longleftrightarrow> (\<exists>t \<in> set texts. parse_ipv4_int (strip (before_slash t)) = Some a)"
proof (induction texts arbitrary: as)
  case Nil
  then show ?case by simp
next
  case (Cons t texts)
  have "parse_ipv4_int [] = None" by (simp add: parse_ipv4_int_def parse_octet_def)
  with Cons show ?case
    by (fastforce simp: Let_def ip_address_def split: if_splits option.splits sum.splits)
qed

definition peer_net :: "(string \<Rightarrow> bool) \<Rightarrow> string list \<Rightarrow> ipv4net \<Rightarrow> bool" where
  "peer_net v6 texts n \<longleftrightarrow> (\<exists>t \<in> set texts. ip_network v6 False t = Some (V4 n))"

lemma ip_network_Nil: "ip_network v6 False [] \<noteq> Some (V4 n)"
  by (simp add: ip_network_def parse_addr_prefix_def parse_ipv4_int_def parse_octet_def)

lemma occupied_networks_set:
  "occupied_networks v6 pool texts = Inr ns \<Longrightarrow> set ns = {n. peer_net v6 texts n \<and> overlaps n pool}"
proof (induction texts arbitrary: ns)
  case Nil
  then show ?case by (simp add: peer_net_def)
next
  case (Cons t texts)
  then show ?case
    by (cases "t = []")
      (fastforce simp: peer_net_def ip_network_Nil split: if_splits option.splits sum.splits ip_network.splits)+
qed

lemma hosts_set:
  assumes "wf_net n"
  shows "set (hosts n) = (if prefixlen n < 31 then addrs n - {net_addr n, broadcast n} else addrs n)"
proof -
  have "prefixlen n \<le> 32" using assms by (simp add: wf_net_def)
  then consider "prefixlen n = 32" | "prefixlen n = 31" | "prefixlen n < 31" by linarith
  then show ?thesis
    by cases (auto simp: hosts_def addrs_def broadcast_def num_addresses_def)
qed

text \<open>The candidates are tried in increasing order.\<close>

lemma hosts_sorted: "sorted (hosts n)"
  by (auto simp: hosts_def broadcast_def num_addresses_def)

lemma find_sorted_least:
  "sorted xs \<Longrightarrow> find P xs = Some x \<longleftrightarrow> x \<in> set xs \<and> P x \<and> (\<forall>y \<in> set xs. P y \<longrightarrow> x \<le> (y :: nat))"
proof (induction xs)
  case Nil
  then show ?case by simp
next
  case (Cons y xs)
  then show ?case by (auto intro: antisym)
qed

lemma strip_addr_str [simp]: "strip (addr_str a) = addr_str a"
  using addr_str_chars plain_char by (intro strip_id) (fastforce simp: list_all_iff)

lemma address_text_nonempty [simp]: "addr_str a \<noteq> []" "net_str n \<noteq> []"
  by (simp_all add: addr_str_def net_str_def)

text \<open>The lists raise their own errors only.\<close>

lemma lists_not_exhausted:
  "occupied_addresses v6 texts \<noteq> Inl PoolExhausted" "peer_networks v6 al peers \<noteq> Inl PoolExhausted"
proof -
  show "occupied_addresses v6 texts \<noteq> Inl PoolExhausted"
    by (induction texts) (auto simp: Let_def split: option.splits sum.splits)
  have "occupied_networks v6 pool ts \<noteq> Inl PoolExhausted" for pool ts
    by (induction ts) (auto split: option.splits sum.splits ip_network.splits)
  then show "peer_networks v6 al peers \<noteq> Inl PoolExhausted"
    by (simp add: peer_networks_def split: option.splits)
qed

section \<open>The interface of the registry\<close>

text \<open>
  What the allocator asks of the source of the occupied addresses: the list names every address
  text that some record holds, and no other.
\<close>

locale address_registry =
  fixes occupied :: "'s \<Rightarrow> string list"
    and holds :: "'s \<Rightarrow> string \<Rightarrow> bool"
  assumes occupied_iff: "t \<in> set (occupied s) \<longleftrightarrow> holds s t"
begin

definition taken :: "(string \<Rightarrow> bool) \<Rightarrow> ip_allocator \<Rightarrow> 's \<Rightarrow> string list \<Rightarrow> nat \<Rightarrow> bool" where
  "taken v6 al s texts a \<longleftrightarrow> a = al_server al
     \<or> (\<exists>t. holds s t \<and> parse_ipv4_int (strip (before_slash t)) = Some a)
     \<or> (al_has_config al \<and> (\<exists>n. peer_net v6 texts n \<and> a \<in> addrs n))"

lemma free_iff_not_taken:
  assumes "wf_net (al_network al)" "a \<in> set (hosts (al_network al))"
    and "occupied_addresses v6 (occupied s) = Inr as" "peer_networks v6 al (Some texts) = Inr ns"
  shows "free_for al as ns a \<longleftrightarrow> \<not> taken v6 al s texts a"
proof -
  have nets: "list_ex (in_net a) ns \<longleftrightarrow> al_has_config al \<and> (\<exists>n. peer_net v6 texts n \<and> a \<in> addrs n)"
  proof (cases "al_has_config al")
    case False
    with assms(4) show ?thesis by (simp add: peer_networks_def)
  next
    case True
    have ns: "set ns = {n. peer_net v6 texts n \<and> overlaps n (al_network al)}"
      using assms(4) True by (simp add: peer_networks_def occupied_networks_set)
    have wf: "wf_net n" if "peer_net v6 texts n" for n
      using that ip_network_wf by (auto simp: peer_net_def)
    have "a \<in> addrs (al_network al)" using assms(1,2) by (auto simp: hosts_set split: if_splits)
    then have "overlaps n (al_network al)" if "peer_net v6 texts n" "a \<in> addrs n" for n
      using that wf assms(1) by (auto simp: overlaps_iff)
    then show ?thesis using wf True by (auto simp: list_ex_iff ns in_net_iff)
  qed
  show ?thesis
    unfolding free_for_def taken_def nets
    using occupied_addresses_set [OF assms(3)] by (auto simp: occupied_iff)
qed

lemma next_free_least:
  assumes "wf_net (al_network al)" "next_free_ip v6 al (occupied s) (Some texts) = Inr ip"
  shows "\<exists>a. ip = addr_str a \<and> a \<in> set (hosts (al_network al)) \<and> \<not> taken v6 al s texts a \<and> \<not> holds s ip
    \<and> (\<forall>b \<in> set (hosts (al_network al)). b < a \<longrightarrow> taken v6 al s texts b)"
proof -
  from assms(2) obtain as ns a where lists: "occupied_addresses v6 (occupied s) = Inr as"
      "peer_networks v6 al (Some texts) = Inr ns"
    and a: "find (free_for al as ns) (hosts (al_network al)) = Some a" "ip = addr_str a"
    by (auto simp: next_free_ip_def split: sum.splits option.splits)
  note free = free_iff_not_taken [OF assms(1) _ lists]
  from a(1) have best: "a \<in> set (hosts (al_network al))" "free_for al as ns a"
      "\<forall>b \<in> set (hosts (al_network al)). free_for al as ns b \<longrightarrow> a \<le> b"
    by (auto simp: find_sorted_least hosts_sorted)
  have "a < 2 ^ 32"
    using best(1) assms(1) wf_net_bounds [OF assms(1)] by (auto simp: hosts_set addrs_def split: if_splits)
  then have "parse_ipv4_int (strip (before_slash (addr_str a))) = Some a"
    by (simp add: before_slash_def split_on_no_sep slash_free strip_addr_str)
  moreover have fresh: "\<not> taken v6 al s texts a" using free best(1,2) by blast
  ultimately have "\<not> holds s (addr_str a)" by (auto simp: taken_def)
  moreover have "\<forall>b \<in> set (hosts (al_network al)). b < a \<longrightarrow> taken v6 al s texts b"
    using best(3) free leD by blast
  ultimately show ?thesis using a(2) best(1) fresh by blast
qed

lemma exhausted_all_taken:
  assumes "wf_net (al_network al)" "next_free_ip v6 al (occupied s) (Some texts) = Inl PoolExhausted"
  shows "\<forall>a \<in> set (hosts (al_network al)). taken v6 al s texts a"
proof -
  from assms(2) obtain as ns where lists: "occupied_addresses v6 (occupied s) = Inr as"
      "peer_networks v6 al (Some texts) = Inr ns"
    and none: "find (free_for al as ns) (hosts (al_network al)) = None"
    using lists_not_exhausted by (fastforce simp: next_free_ip_def split: sum.splits option.splits)
  then show ?thesis using free_iff_not_taken [OF assms(1) _ lists] by (auto simp: find_None_iff)
qed

end

definition address_held :: "world \<Rightarrow> string \<Rightarrow> bool" where
  "address_held w t \<longleftrightarrow> (\<exists>k \<in> set (db_vpn_keys w). reserved_ip k = Some t)"

lemma in_map_filter: "y \<in> set (List.map_filter f xs) \<longleftrightarrow> (\<exists>x \<in> set xs. f x = Some y)"
  by (induction xs) (auto simp: map_filter_simps split: option.splits)

interpretation key_registry: address_registry get_occupied_awg_ips address_held
  by unfold_locales (simp add: get_occupied_awg_ips_def address_held_def in_map_filter)

section \<open>Properties\<close>

text \<open>A constructed allocator has a pool with its host bits clear and a server address inside it.\<close>

lemma new_ip_allocator_ok:
  assumes "new_ip_allocator v6 network server_address hc = Inr al"
  shows "wf_net (al_network al)" "al_server al \<in> addrs (al_network al)"
    "al_server al \<noteq> net_addr (al_network al)" "al_server al \<noteq> broadcast (al_network al)" "al_has_config al = hc"
  using assms ip_network_wf [of v6 False network] in_net_iff
  by (auto simp: new_ip_allocator_def split: option.splits ip_network.splits ip_address.splits if_splits)

text \<open>
  C13: an address the allocator hands out is an IPv4 address of the pool, the least one that is free:
  not the server's, not the network or broadcast address, held by no key in a status that still
  reserves it (whether stored bare or with a prefix length), and inside no peer's network.
\<close>

theorem next_free_ip_sound:
  assumes "new_ip_allocator v6 network server_address True = Inr al"
    and "next_free_ip v6 al (get_occupied_awg_ips w) (Some texts) = Inr ip"
  shows "\<exists>a. ip = addr_str a \<and> a \<in> set (hosts (al_network al)) \<and> a \<noteq> al_server al
    \<and> (prefixlen (al_network al) < 31 \<longrightarrow> a \<noteq> net_addr (al_network al) \<and> a \<noteq> broadcast (al_network al))
    \<and> (\<forall>k \<in> set (db_vpn_keys w). reserved_ip k \<noteq> Some ip)
    \<and> (\<forall>n. peer_net v6 texts n \<longrightarrow> a \<notin> addrs n)
    \<and> (\<forall>b \<in> set (hosts (al_network al)). b < a \<longrightarrow> key_registry.taken v6 al w texts b)"
proof -
  note al = new_ip_allocator_ok [OF assms(1)]
  from key_registry.next_free_least [OF al(1) assms(2)] obtain a where
    a: "ip = addr_str a" "a \<in> set (hosts (al_network al))" "\<not> key_registry.taken v6 al w texts a"
      "\<not> address_held w ip" "\<forall>b \<in> set (hosts (al_network al)). b < a \<longrightarrow> key_registry.taken v6 al w texts b"
    by blast
  have "a \<noteq> al_server al" "\<forall>n. peer_net v6 texts n \<longrightarrow> a \<notin> addrs n"
    using a(3) al(5) by (auto simp: key_registry.taken_def)
  moreover have "\<forall>k \<in> set (db_vpn_keys w). reserved_ip k \<noteq> Some ip"
    using a(4) by (auto simp: address_held_def)
  moreover have "prefixlen (al_network al) < 31 \<longrightarrow> a \<noteq> net_addr (al_network al) \<and> a \<noteq> broadcast (al_network al)"
    using a(2) hosts_set [OF al(1)] by auto
  ultimately show ?thesis using a(1,2,5) by blast
qed

text \<open>
  The allocator gives up only when there is nothing left: with readable lists it reports an
  exhausted pool exactly when every host address of the pool is the server's, held by a key or
  inside a peer's network, and otherwise it returns an address.
\<close>

theorem pool_exhausted_iff:
  assumes "new_ip_allocator v6 network server_address True = Inr al"
    and "occupied_addresses v6 (get_occupied_awg_ips w) = Inr as"
    and "occupied_networks v6 (al_network al) texts = Inr ns"
  shows "(next_free_ip v6 al (get_occupied_awg_ips w) (Some texts) = Inl PoolExhausted
      \<longleftrightarrow> (\<forall>a \<in> set (hosts (al_network al)). key_registry.taken v6 al w texts a))
    \<and> (next_free_ip v6 al (get_occupied_awg_ips w) (Some texts) = Inl PoolExhausted
      \<or> (\<exists>ip. next_free_ip v6 al (get_occupied_awg_ips w) (Some texts) = Inr ip))"
proof -
  note al = new_ip_allocator_ok [OF assms(1)]
  have outcome: "next_free_ip v6 al (get_occupied_awg_ips w) (Some texts) = Inl PoolExhausted
      \<or> (\<exists>ip. next_free_ip v6 al (get_occupied_awg_ips w) (Some texts) = Inr ip)"
    using assms(2,3) al(5) by (auto simp: next_free_ip_def peer_networks_def split: option.splits)
  then show ?thesis
    using key_registry.exhausted_all_taken [OF al(1)] key_registry.next_free_least [OF al(1)] by blast
qed

definition demo_pool :: ip_allocator where
  "demo_pool = \<lparr>al_network = Net 168296448 29, al_server = 168296449, al_has_config = True\<rparr>"

lemma demo_pool_new:
  "new_ip_allocator (\<lambda>_. False) (net_str (Net 168296448 29)) (addr_str 168296449) True = Inr demo_pool"
  by (simp add: new_ip_allocator_def wf_net_def num_addresses_def before_slash_def split_on_no_sep slash_free
      ip_address_def in_net_def broadcast_def demo_pool_def)

definition demo_holder :: world where
  "demo_holder = demo_keys\<lparr>db_vpn_keys := [(demo_key 1 KeyActive)\<lparr>vk_client_ip := Some (addr_str 168296450)\<rparr>]\<rparr>"

lemma demo_holder_ips: "get_occupied_awg_ips demo_holder = [addr_str 168296450]"
  by (simp add: get_occupied_awg_ips_def demo_holder_def demo_key_def reserved_ip_def reserved_statuses_def
      map_filter_simps)

text \<open>The second host is held by a key, the third and fourth belong to a peer: the next is the fifth.\<close>

lemma demo_next_free:
  "next_free_ip (\<lambda>_. False) demo_pool (get_occupied_awg_ips demo_holder) (Some [[], net_str (Net 168296451 32), net_str (Net 168296452 32)])
     = Inr (addr_str 168296453)"
  unfolding demo_holder_ips
  by (simp add: next_free_ip_def before_slash_def split_on_no_sep slash_free ip_address_def demo_pool_def
      peer_networks_def wf_net_def num_addresses_def overlaps_def in_net_def broadcast_def hosts_def free_for_def
      upt_rec upt_conv_Cons net_str_def [symmetric] Let_def)

lemma next_free_ip_sound_witness:
  "Some (addr_str 168296453) \<notin> reserved_ip ` set (db_vpn_keys demo_holder)"
  using next_free_ip_sound [OF demo_pool_new demo_next_free] by force

lemma demo_lists:
  "occupied_addresses (\<lambda>_. False) (get_occupied_awg_ips demo_holder) = Inr [A4 168296450]"
  "occupied_networks (\<lambda>_. False) (al_network demo_pool) [net_str (Net 168296448 29)] = Inr [Net 168296448 29]"
  unfolding demo_holder_ips
  by (simp_all add: before_slash_def split_on_no_sep slash_free ip_address_def demo_pool_def wf_net_def
      num_addresses_def overlaps_def in_net_def broadcast_def)

text \<open>A peer that is given the whole pool leaves no address.\<close>

lemma pool_exhausted_iff_witness:
  "next_free_ip (\<lambda>_. False) demo_pool (get_occupied_awg_ips demo_holder) (Some [net_str (Net 168296448 29)])
     = Inl PoolExhausted"
proof -
  have wf: "wf_net (Net 168296448 29)" by (simp add: wf_net_def num_addresses_def)
  then have "peer_net (\<lambda>_. False) [net_str (Net 168296448 29)] (Net 168296448 29)" by (simp add: peer_net_def)
  then have "\<forall>a \<in> set (hosts (al_network demo_pool)).
      key_registry.taken (\<lambda>_. False) demo_pool demo_holder [net_str (Net 168296448 29)] a"
    using hosts_set [OF wf] by (fastforce simp: key_registry.taken_def demo_pool_def)
  with pool_exhausted_iff [OF demo_pool_new demo_lists] show ?thesis by blast
qed

end
