(* ===== verification/Py_Lines.thy ===== *)
theory Py_Lines
  imports Py_Strings
begin

text \<open>
  Lines and words of Python strings: \<open>rstrip\<close>, \<open>split()\<close>, \<open>int(text)\<close>, and what \<open>splitlines\<close>
  makes of texts that are put together from lines.
\<close>

definition rstrip :: "string \<Rightarrow> string" where
  "rstrip s = rev (lstrip (rev s))"

text \<open>\<open>s.split()\<close>.\<close>

fun words_from :: "string \<Rightarrow> string \<Rightarrow> string list" where
  "words_from cur [] = (if cur = [] then [] else [rev cur])"
| "words_from cur (c # cs) =
     (if is_space c then (if cur = [] then words_from [] cs else rev cur # words_from [] cs)
      else words_from (c # cur) cs)"

definition words :: "string \<Rightarrow> string list" where
  "words s = words_from [] s"

text \<open>\<open>int(text)\<close>: a sign, decimal digits, single underscores between them.\<close>

definition digits_value :: "string \<Rightarrow> nat option" where
  "digits_value s =
     (let groups = split_on (CHR ''_'') s
      in if list_all (\<lambda>g. g \<noteq> [] \<and> list_all ascii_digit g) groups then Some (undec (concat groups)) else None)"

definition py_int :: "string \<Rightarrow> int option" where
  "py_int s =
     (case strip s of [] \<Rightarrow> None
      | c # cs \<Rightarrow> if c = CHR ''-'' then map_option (\<lambda>n. - int n) (digits_value cs)
                 else if c = CHR ''+'' then map_option int (digits_value cs)
                 else map_option int (digits_value (c # cs)))"

definition line_free :: "string \<Rightarrow> bool" where
  "line_free s \<longleftrightarrow> list_all (\<lambda>c. \<not> line_break c) s"

text \<open>\<open>"\n".join(lines)\<close>.\<close>

definition newline :: char where
  "newline = CHR 0x0A"

definition unlines :: "string list \<Rightarrow> string" where
  "unlines ls = join [newline] ls"

section \<open>Splitting into lines\<close>

lemma line_break_newline [simp]: "line_break newline" "code_point newline = 10"
  by (simp_all add: newline_def line_break_def code_point_def)

lemma line_break_space: "line_break c \<Longrightarrow> is_space c"
  by (auto simp: line_break_def is_space_def Let_def)

lemma lines_from_free: "line_free s \<Longrightarrow> lines_from cur s = lines_from (rev s @ cur) []"
  by (induction s arbitrary: cur) (auto simp: line_free_def)

lemma lines_from_newline:
  "line_free s \<Longrightarrow> lines_from cur (s @ newline # t) = (rev cur @ s) # lines_from [] t"
proof (induction s arbitrary: cur)
  case Nil
  then show ?case by (cases t) simp_all
next
  case (Cons c s)
  then show ?case by (simp add: line_free_def)
qed

lemma splitlines_newline: "line_free s \<Longrightarrow> splitlines (s @ newline # t) = s # splitlines t"
  by (simp add: splitlines_def lines_from_newline)

lemma splitlines_free: "line_free s \<Longrightarrow> splitlines s = (if s = [] then [] else [s])"
  by (simp add: splitlines_def lines_from_free)

lemma unlines_simps [simp]:
  "unlines [] = []" "unlines [w] = w" "unlines (w # v # ws) = w @ newline # unlines (v # ws)"
  by (simp_all add: unlines_def)

lemma unlines_Cons: "ls \<noteq> [] \<Longrightarrow> unlines (w # ls) = w @ newline # unlines ls"
  by (cases ls) simp_all

lemma splitlines_unlines:
  "list_all line_free ls \<Longrightarrow> ls \<noteq> [] \<Longrightarrow> last ls \<noteq> [] \<Longrightarrow> splitlines (unlines ls) = ls"
proof (induction ls)
  case (Cons w ls)
  then show ?case by (cases ls) (auto simp: splitlines_free splitlines_newline)
qed simp

lemma splitlines_unlines_newline:
  "list_all line_free ls \<Longrightarrow> ls \<noteq> [] \<Longrightarrow> splitlines (unlines ls @ [newline]) = ls"
proof (induction ls)
  case (Cons w ls)
  then show ?case
    using splitlines_newline [of w "[]"] by (cases ls) (auto simp: splitlines_newline, simp_all add: splitlines_def)
qed simp

text \<open>The pieces of a text hold no line break.\<close>

lemma lines_from_pieces:
  "line_free (rev cur) \<Longrightarrow> list_all line_free (lines_from cur s)"
  by (induction cur s rule: lines_from.induct) (auto simp: line_free_def split: list.splits)

lemma splitlines_pieces: "list_all line_free (splitlines s)"
  unfolding splitlines_def by (rule lines_from_pieces) (simp add: line_free_def)

text \<open>A text that does not end in a line break keeps its lines when more text follows on a new line.\<close>

lemma lines_from_append:
  "s = [] \<or> \<not> line_break (last s) \<Longrightarrow> s @ cur \<noteq> [] \<Longrightarrow>
     lines_from cur (s @ newline # t) = lines_from cur s @ lines_from [] t"
proof (induction cur s rule: lines_from.induct)
  case (1 cur)
  then show ?case by (cases t) simp_all
next
  case (2 cur c cs)
  show ?case
  proof (cases "line_break c")
    case False
    with 2 show ?thesis by (auto split: if_splits)
  next
    case True
    then have "cs \<noteq> []" using 2(4) by auto
    then obtain d ds where cs: "cs = d # ds" by (cases cs) auto
    show ?thesis
    proof (cases "code_point c = 13 \<and> code_point d = 10")
      case crlf: True
      then have "line_break d" by (simp add: line_break_def)
      then have "ds \<noteq> []" using 2(4) cs by auto
      with 2(1) [OF True cs crlf] 2(4) True crlf show ?thesis by (simp add: cs)
    next
      case False
      with 2(2) [OF True cs False] 2(4) True show ?thesis by (auto simp: cs)
    qed
  qed
qed

lemma splitlines_append:
  "s \<noteq> [] \<Longrightarrow> \<not> line_break (last s) \<Longrightarrow> splitlines (s @ newline # t) = splitlines s @ splitlines t"
  by (simp add: splitlines_def lines_from_append)

section \<open>Stripped content\<close>

lemma strip_space_left: "is_space c \<Longrightarrow> strip (c # s) = strip s"
  by (simp add: strip_def lstrip_def)

lemma lstrip_append_space: "is_space c \<Longrightarrow> lstrip (s @ [c]) = (if lstrip s = [] then [] else lstrip s @ [c])"
  by (induction s) (auto simp: lstrip_def)

lemma strip_space_right: "is_space c \<Longrightarrow> strip (s @ [c]) = strip s"
  by (simp add: strip_def lstrip_append_space) (simp add: lstrip_def)

lemma strip_idem [simp]: "strip (strip s) = strip s"
proof -
  have l: "lstrip (lstrip x) = lstrip x" for x by (simp add: lstrip_def)
  have "lstrip (rev (lstrip (rev (lstrip x)))) = rev (lstrip (rev (lstrip x)))" for x
  proof (rule lstrip_id)
    let ?y = "lstrip x" and ?r = "rev (lstrip (rev (lstrip x)))"
    have pre: "\<exists>ws. ?y = ?r @ ws"
      unfolding lstrip_def by (metis rev_append rev_rev_ident takeWhile_dropWhile_id)
    show "?r = [] \<or> \<not> is_space (hd ?r)"
    proof (cases "?r = []")
      case False
      then have "hd ?y = hd ?r" "?y \<noteq> []" using pre by (metis hd_append2, metis append_is_Nil_conv)
      then show ?thesis unfolding lstrip_def by (metis hd_dropWhile)
    qed simp
  qed
  then show ?thesis by (simp add: strip_def l)
qed

lemma strip_hd: "\<not> is_space c \<Longrightarrow> \<exists>s'. strip (c # s) = c # s'"
  by (simp add: strip_def lstrip_def dropWhile_append3)

definition content :: "string list \<Rightarrow> string list" where
  "content ls = filter (\<lambda>l. l \<noteq> []) (map strip ls)"

lemma content_simps [simp]:
  "content [] = []" "content (l # ls) = (if strip l = [] then content ls else strip l # content ls)"
  "content (ls @ ms) = content ls @ content ms"
  by (simp_all add: content_def)

lemma strip_Nil [simp]: "strip [] = []"
  by (simp add: strip_def lstrip_def)

lemma content_spaces: "list_all is_space ws \<Longrightarrow> content (lines_from cur ws) = content [rev cur]"
proof (induction cur ws rule: lines_from.induct)
  case (2 cur c cs)
  have right: "content [rev cur @ [c]] = content [rev cur]" using 2(4) by (simp add: strip_space_right)
  show ?case
  proof (cases "line_break c")
    case False
    with 2 right show ?thesis by simp
  next
    case True
    with 2 show ?thesis by (cases cs) (simp, force)
  qed
qed simp

lemma content_from_append:
  assumes "list_all is_space ws" "s = [] \<or> \<not> is_space (last s)"
  shows "content (lines_from cur (s @ ws)) = content (lines_from cur s)"
  using assms
proof (induction cur s rule: lines_from.induct)
  case (1 cur)
  then show ?case using content_spaces [of ws cur] by simp
next
  case (2 cur c cs)
  show ?case
  proof (cases cs)
    case Nil
    then have "\<not> line_break c" using 2 line_break_space by auto
    with Nil 2 show ?thesis using content_spaces [of ws "c # cur"] by simp
  next
    case (Cons d ds)
    then have "\<not> is_space (last (d # ds))" using 2 by simp
    moreover have "ds \<noteq> []" if "code_point d = 10"
      using that calculation by (auto simp: is_space_def)
    ultimately show ?thesis using 2 by (auto simp: Cons)
  qed
qed

lemma rstrip_split: "\<exists>ws. s = rstrip s @ ws \<and> list_all is_space ws"
proof -
  have "rev s = takeWhile is_space (rev s) @ lstrip (rev s)" by (simp add: lstrip_def)
  then have "s = rev (lstrip (rev s)) @ rev (takeWhile is_space (rev s))" by (metis rev_append rev_rev_ident)
  then show ?thesis unfolding rstrip_def by (metis list_all_iff set_rev set_takeWhileD)
qed

lemma rstrip_last: "rstrip s = [] \<or> \<not> is_space (last (rstrip s))"
proof (cases "rstrip s = []")
  case False
  then have "lstrip (rev s) \<noteq> []" by (simp add: rstrip_def)
  then show ?thesis by (simp add: rstrip_def last_rev lstrip_def hd_dropWhile)
qed simp

lemma rstrip_id: "s = [] \<or> \<not> is_space (last s) \<Longrightarrow> rstrip s = s"
  by (cases s rule: rev_cases) (auto simp: rstrip_def lstrip_def)

lemma rstrip_append_spaces: "list_all is_space ws \<Longrightarrow> rstrip (s @ ws) = rstrip s"
  by (simp add: rstrip_def lstrip_def list_all_iff, subst dropWhile_append2) simp_all

lemma content_rstrip: "content (splitlines (rstrip t)) = content (splitlines t)"
proof -
  obtain ws where "t = rstrip t @ ws" "list_all is_space ws" using rstrip_split by blast
  then show ?thesis using content_from_append [of ws "rstrip t" "[]"] rstrip_last
    by (metis splitlines_def)
qed

lemma last_splitlines:
  assumes "s \<noteq> []" "\<not> line_break (last s)"
  shows "splitlines s \<noteq> [] \<and> last (splitlines s) \<noteq> [] \<and> last (last (splitlines s)) = last s"
proof -
  have "lines_from cur s \<noteq> [] \<and> last (lines_from cur s) \<noteq> [] \<and> last (last (lines_from cur s)) = last s" for cur
    using assms
  proof (induction cur s rule: lines_from.induct)
    case (2 cur c cs)
    show ?case
    proof (cases cs)
      case Nil
      with 2 show ?thesis by simp
    next
      case (Cons d ds)
      moreover have "ds \<noteq> []" if "code_point d = 10"
        using that 2 Cons by (auto simp: line_break_def)
      ultimately show ?thesis using 2 by auto
    qed
  qed simp
  then show ?thesis by (simp add: splitlines_def)
qed

lemma rstrip_unlines_blank:
  assumes "s \<noteq> []" "\<not> is_space (last s)"
  shows "splitlines (rstrip (unlines (splitlines s @ [[]])) @ [newline]) = splitlines s"
proof -
  let ?L = "splitlines s"
  have lb: "\<not> line_break (last s)" using assms(2) line_break_space by blast
  note L = last_splitlines [OF assms(1) lb]
  have u: "unlines (ls @ [[]]) = unlines ls @ [newline]" if "ls \<noteq> []" for ls
    using that
  proof (induction ls)
    case (Cons a ls)
    then show ?case by (cases ls) simp_all
  qed simp
  have last_u: "unlines ls \<noteq> [] \<and> last (unlines ls) = last (last ls)" if "ls \<noteq> []" "last ls \<noteq> []" for ls
    using that by (induction ls) (auto simp: unlines_Cons)
  have "rstrip (unlines (?L @ [[]])) = unlines ?L"
    using L last_u [of ?L] assms u [of ?L] rstrip_append_spaces [of "[newline]" "unlines ?L"]
    by (simp add: rstrip_id line_break_space)
  with L show ?thesis using splitlines_unlines_newline [of ?L] splitlines_pieces by simp
qed

end
