(* ===== verification/Awg_Config.thy ===== *)
theory Awg_Config
  imports Ip_Allocator Py_Lines
begin

text \<open>
  \<open>adapters/awg_config.py\<close>, the text of the tunnel's configuration file: sections and options,
  the peer blocks the bot writes between its start and end markers, the searches over them and the
  two ways a peer is taken out (by the markers of its key, or by its public key). The lemmas show
  that a block can be added and removed without touching anything else of the file, that it adds
  exactly one peer with exactly the options given, and where the list of peers loses a marker.
\<close>

datatype awg_error =
    AwgConfigError string | AwgApplyError string | AwgPeerAlreadyExistsError

type_synonym options = "(string, string) dict"

record awg_section =
  as_name :: string
  as_options :: options

section \<open>Sections\<close>

definition critical_peer_keys :: "string list" where
  "critical_peer_keys = [''PublicKey'', ''AllowedIPs'', ''PresharedKey'']"

definition critical_interface_keys :: "string list" where
  "critical_interface_keys = [''PrivateKey'', ''Address'', ''ListenPort'', ''Jc'', ''Jmin'', ''Jmax'', ''S1'', ''S2'',
     ''S3'', ''S4'', ''H1'', ''H2'', ''H3'', ''H4'', ''I1'', ''I2'', ''I3'', ''I4'', ''I5'']"

definition client_interface_keys :: "string list" where
  "client_interface_keys = [''DNS'', ''MTU'', ''Jc'', ''Jmin'', ''Jmax'', ''S1'', ''S2'', ''S3'', ''S4'', ''H1'', ''H2'',
     ''H3'', ''H4'', ''I1'', ''I2'', ''I3'', ''I4'', ''I5'']"

definition reject_duplicate_critical_key :: "awg_section \<Rightarrow> string \<Rightarrow> awg_error option" where
  "reject_duplicate_critical_key s key =
     (let critical = (if as_name s = ''Interface'' then critical_interface_keys else critical_peer_keys)
      in if key \<in> set critical \<and> map_of (as_options s) key \<noteq> None
         then Some (AwgConfigError ''duplicate critical option'') else None)"

definition is_header :: "string \<Rightarrow> bool" where
  "is_header line \<longleftrightarrow> startswith ''['' line \<and> line \<noteq> [] \<and> last line = CHR '']''"

text \<open>\<open>line[1:-1].strip()\<close>; of the single character \<open>[\<close> the slice is empty.\<close>

definition header_name :: "string \<Rightarrow> string" where
  "header_name line = strip (butlast (tl line))"

text \<open>\<open>key, value = [part.strip() for part in line.split("=", 1)]\<close>.\<close>

definition option_of :: "string \<Rightarrow> string \<times> string" where
  "option_of line = (strip (before_char (CHR ''='') line), strip (tl (dropWhile (\<lambda>c. c \<noteq> CHR ''='') line)))"

definition plain_line :: "string \<Rightarrow> bool" where
  "plain_line line \<longleftrightarrow> line = [] \<or> startswith ''#'' line \<or> CHR ''='' \<notin> set line"

definition put_option :: "awg_section \<Rightarrow> string \<Rightarrow> awg_error + awg_section" where
  "put_option s line =
     (let (key, value) = option_of line
      in case reject_duplicate_critical_key s key of
           Some e \<Rightarrow> Inl e
         | None \<Rightarrow> Inr (s\<lparr>as_options := AList.update key value (as_options s)\<rparr>))"

text \<open>
  The loop of \<open>_parse_sections\<close>. \<open>current\<close> is the section being read (the last of the list in the
  code), \<open>read\<close> the finished ones, newest first.
\<close>

definition read_line ::
  "awg_section list \<Rightarrow> awg_section option \<Rightarrow> string \<Rightarrow> awg_error + awg_section list \<times> awg_section option" where
  "read_line read current raw =
     (let line = strip raw;
          closed = (case current of None \<Rightarrow> read | Some s \<Rightarrow> s # read)
      in if is_header line
         then if header_name line \<notin> {''Interface'', ''Peer''} then Inl (AwgConfigError ''unknown section'')
              else Inr (closed, Some \<lparr>as_name = header_name line, as_options = []\<rparr>)
         else case current of
             None \<Rightarrow> if line \<noteq> [] \<and> \<not> startswith ''#'' line then Inl (AwgConfigError ''option before section'')
                     else Inr (read, None)
           | Some s \<Rightarrow>
               if plain_line line then Inr (read, Some s)
               else (case put_option s line of Inl e \<Rightarrow> Inl e | Inr s' \<Rightarrow> Inr (read, Some s')))"

fun sections_from :: "awg_section list \<Rightarrow> awg_section option \<Rightarrow> string list \<Rightarrow> awg_error + awg_section list" where
  "sections_from read current [] = Inr (rev read @ (case current of None \<Rightarrow> [] | Some s \<Rightarrow> [s]))"
| "sections_from read current (raw # rest) =
     (case read_line read current raw of Inl e \<Rightarrow> Inl e
      | Inr (read', current') \<Rightarrow> sections_from read' current' rest)"

definition has_interface :: "awg_section list \<Rightarrow> bool" where
  "has_interface ss \<longleftrightarrow> list_ex (\<lambda>s. as_name s = ''Interface'') ss"

definition parse_sections :: "string \<Rightarrow> awg_error + awg_section list" where
  "parse_sections t =
     (case sections_from [] None (splitlines t) of Inl e \<Rightarrow> Inl e
      | Inr ss \<Rightarrow> if has_interface ss then Inr ss else Inl (AwgConfigError ''no [Interface]''))"

section \<open>Peers\<close>

text \<open>\<open>_allowed_ips_contains\<close>; \<open>in6\<close> decides membership between texts of version 6.\<close>

definition allowed_ips_contains ::
  "(string \<Rightarrow> bool) \<Rightarrow> (string \<Rightarrow> string \<Rightarrow> bool) \<Rightarrow> string \<Rightarrow> string \<Rightarrow> bool" where
  "allowed_ips_contains v6 in6 allowed_ips client_ip =
     (case ip_address v6 client_ip of None \<Rightarrow> False
      | Some a \<Rightarrow> list_ex (\<lambda>part. let value = strip part in value \<noteq> [] \<and>
           (case (ip_network v6 False value, a) of
              (Some (V4 n), A4 x) \<Rightarrow> in_net x n
            | (Some V6, A6) \<Rightarrow> in6 client_ip value
            | _ \<Rightarrow> False)) (split_on (CHR '','') allowed_ips))"

definition option_or :: "string \<Rightarrow> options \<Rightarrow> string \<Rightarrow> string" where
  "option_or d opts key = (case map_of opts key of None \<Rightarrow> d | Some v \<Rightarrow> v)"

definition truthy_eq :: "string option \<Rightarrow> string option \<Rightarrow> bool" where
  "truthy_eq wanted have \<longleftrightarrow> (case wanted of None \<Rightarrow> False | Some w \<Rightarrow> w \<noteq> [] \<and> have = Some w)"

definition peer_matches ::
  "(string \<Rightarrow> bool) \<Rightarrow> (string \<Rightarrow> string \<Rightarrow> bool) \<Rightarrow> string option \<Rightarrow> string option \<Rightarrow> awg_section \<Rightarrow> bool" where
  "peer_matches v6 in6 public_key client_ip s \<longleftrightarrow> as_name s = ''Peer'' \<and>
     (truthy_eq public_key (map_of (as_options s) ''PublicKey'')
      \<or> (case client_ip of None \<Rightarrow> False
         | Some ip \<Rightarrow> ip \<noteq> [] \<and> allowed_ips_contains v6 in6 (option_or [] (as_options s) ''AllowedIPs'') ip))"

definition find_peer_in ::
  "(string \<Rightarrow> bool) \<Rightarrow> (string \<Rightarrow> string \<Rightarrow> bool) \<Rightarrow> awg_section list \<Rightarrow> string option \<Rightarrow> string option
     \<Rightarrow> options option" where
  "find_peer_in v6 in6 ss public_key client_ip =
     map_option as_options (find (peer_matches v6 in6 public_key client_ip) ss)"

definition find_peer ::
  "(string \<Rightarrow> bool) \<Rightarrow> (string \<Rightarrow> string \<Rightarrow> bool) \<Rightarrow> string \<Rightarrow> string option \<Rightarrow> string option
     \<Rightarrow> awg_error + options option" where
  "find_peer v6 in6 t public_key client_ip =
     (case parse_sections t of Inl e \<Rightarrow> Inl e | Inr ss \<Rightarrow> Inr (find_peer_in v6 in6 ss public_key client_ip))"

definition list_peer_allowed_ips :: "string \<Rightarrow> awg_error + string list" where
  "list_peer_allowed_ips t =
     (case parse_sections t of Inl e \<Rightarrow> Inl e
      | Inr ss \<Rightarrow> Inr (remdups (concat (map (\<lambda>s.
          if as_name s \<noteq> ''Peer'' then []
          else filter (\<lambda>v. v \<noteq> []) (map strip (split_on (CHR '','') (option_or [] (as_options s) ''AllowedIPs'')))) ss))))"

section \<open>The bot's own blocks\<close>

definition start_prefix :: string where
  "start_prefix = ''# vpn-bot peer start key_id=''"

definition start_marker :: "int \<Rightarrow> string" where
  "start_marker kid = start_prefix @ int_str kid @ '' ''"

definition end_marker :: "int \<Rightarrow> string" where
  "end_marker kid = ''# vpn-bot peer end key_id='' @ int_str kid"

text \<open>\<open>label.split("=", 1)[1].strip()\<close> of every word that begins with \<open>label=\<close>; the last one stays.\<close>

definition marker_label :: "string list \<Rightarrow> options" where
  "marker_label parts =
     fold (\<lambda>part m. if startswith ''label='' part
            then (let label = strip (drop 6 part)
                  in if label \<noteq> [] then AList.update ''_managed_label'' label m else m)
            else m) parts []"

definition managed_start_marker :: "string \<Rightarrow> options" where
  "managed_start_marker line =
     (if \<not> startswith start_prefix line then []
      else case words (drop (length start_prefix) line) of
          [] \<Rightarrow> []
        | first # parts \<Rightarrow>
            (case py_int first of None \<Rightarrow> []
             | Some kid \<Rightarrow> (''_managed_key_id'', int_str kid) # marker_label parts))"

text \<open>A peer's lines, up to the next section header, read as a section of their own.\<close>

definition peer_body :: "string list \<Rightarrow> string list" where
  "peer_body rest = takeWhile (\<lambda>l. \<not> is_header (strip l)) rest"

definition after_body :: "string list \<Rightarrow> string list" where
  "after_body rest = dropWhile (\<lambda>l. \<not> is_header (strip l)) rest"

definition block_section :: "string list \<Rightarrow> awg_error + awg_section" where
  "block_section block =
     (case parse_sections (unlines (''[Interface]'' # block)) of Inl e \<Rightarrow> Inl e | Inr ss \<Rightarrow> Inr (last ss))"

definition dict_update :: "options \<Rightarrow> options \<Rightarrow> options" where
  "dict_update d extra = fold (\<lambda>(k, v). AList.update k v) extra d"

lemma length_after_body: "length (after_body ls) \<le> length ls"
  by (simp add: after_body_def length_dropWhile_le)

function peer_blocks_from :: "options \<Rightarrow> string list \<Rightarrow> awg_error + options list" where
  "peer_blocks_from pending [] = Inr []"
| "peer_blocks_from pending (l # rest) =
     (let stripped = strip l; marker = managed_start_marker stripped
      in if marker \<noteq> [] then peer_blocks_from marker rest
         else if stripped = ''[Peer]''
         then (case block_section (l # peer_body rest) of Inl e \<Rightarrow> Inl e
               | Inr s \<Rightarrow> (case peer_blocks_from [] (after_body rest) of Inl e \<Rightarrow> Inl e
                           | Inr ps \<Rightarrow> Inr (dict_update (as_options s) pending # ps)))
         else peer_blocks_from (if stripped \<noteq> [] \<and> \<not> startswith ''#'' stripped then [] else pending) rest)"
  by pat_completeness auto
termination
  by (relation "measure (\<lambda>(_, ls). length ls)") (auto simp: le_imp_less_Suc length_after_body)

definition list_config_peers :: "string \<Rightarrow> awg_error + options list" where
  "list_config_peers t = peer_blocks_from [] (splitlines t)"

text \<open>\<open>_peer_block\<close>, its label first checked.\<close>

definition control_or_space :: "char \<Rightarrow> bool" where
  "control_or_space c \<longleftrightarrow> is_space c \<or> code_point c < 32 \<or> code_point c = 127"

definition label_part :: "string option \<Rightarrow> string" where
  "label_part label = (case label of None \<Rightarrow> [] | Some l \<Rightarrow> if l = [] then [] else '' label='' @ l)"

definition validate_label :: "string option \<Rightarrow> awg_error option" where
  "validate_label label =
     (case label of None \<Rightarrow> None
      | Some l \<Rightarrow> if list_ex control_or_space l then Some (AwgConfigError ''label'') else None)"

definition peer_block_lines ::
  "int \<Rightarrow> int \<Rightarrow> string \<Rightarrow> string option \<Rightarrow> string \<Rightarrow> string option \<Rightarrow> string list" where
  "peer_block_lines kid owner public_key psk client_ip label =
     [start_prefix @ int_str kid @ '' owner='' @ int_str owner @ label_part label,
      ''[Peer]'', ''PublicKey = '' @ public_key]
     @ (case psk of None \<Rightarrow> [] | Some k \<Rightarrow> if k = [] then [] else [''PresharedKey = '' @ k])
     @ [''AllowedIPs = '' @ client_ip @ ''/32'', end_marker kid]"

definition peer_block ::
  "int \<Rightarrow> int \<Rightarrow> string \<Rightarrow> string option \<Rightarrow> string \<Rightarrow> string option \<Rightarrow> awg_error + string" where
  "peer_block kid owner public_key psk client_ip label =
     (case validate_label label of Some e \<Rightarrow> Inl e
      | None \<Rightarrow> Inr (unlines (peer_block_lines kid owner public_key psk client_ip label @ [[]])))"

definition managed_block_exists :: "string \<Rightarrow> int \<Rightarrow> bool" where
  "managed_block_exists t kid \<longleftrightarrow> list_ex (startswith (start_marker kid)) (splitlines t)"

section \<open>Taking a peer out\<close>

text \<open>The lines before the start marker, then those from the end marker on.\<close>

definition is_start :: "int \<Rightarrow> string \<Rightarrow> bool" where
  "is_start kid line \<longleftrightarrow> startswith (start_marker kid) (strip line)"

definition is_end :: "int \<Rightarrow> string \<Rightarrow> bool" where
  "is_end kid line \<longleftrightarrow> strip line = end_marker kid"

definition remove_managed_block :: "string \<Rightarrow> int \<Rightarrow> awg_error + string" where
  "remove_managed_block t kid =
     (let ls = splitlines t; before = takeWhile (\<lambda>l. \<not> is_start kid l) ls
      in case dropWhile (\<lambda>l. \<not> is_start kid l) ls of
           [] \<Rightarrow> Inr t
         | _ # rest \<Rightarrow>
             (case dropWhile (\<lambda>l. \<not> is_end kid l) rest of
                [] \<Rightarrow> Inl (AwgConfigError ''start marker without end marker'')
              | _ # after \<Rightarrow> Inr (rstrip (unlines (before @ after)) @ [newline])))"

definition managed_block_lines :: "string \<Rightarrow> int \<Rightarrow> string list option" where
  "managed_block_lines t kid =
     (case dropWhile (\<lambda>l. \<not> is_start kid l) (splitlines t) of
        [] \<Rightarrow> None
      | s # rest \<Rightarrow>
          (case dropWhile (\<lambda>l. \<not> is_end kid l) rest of
             [] \<Rightarrow> None
           | e # _ \<Rightarrow> Some (s # takeWhile (\<lambda>l. \<not> is_end kid l) rest @ [e])))"

fun block_public_key :: "string list \<Rightarrow> string option" where
  "block_public_key [] = None"
| "block_public_key (raw # rest) =
     (let line = strip raw in
      if plain_line line then block_public_key rest
      else if fst (option_of line) = ''PublicKey'' \<and> snd (option_of line) \<noteq> [] then Some (snd (option_of line))
      else block_public_key rest)"

definition find_managed_peer_public_key :: "string \<Rightarrow> int \<Rightarrow> string option" where
  "find_managed_peer_public_key t kid =
     (case managed_block_lines t kid of None \<Rightarrow> None | Some block \<Rightarrow> block_public_key block)"

text \<open>\<open>_remove_peer_section_by_identity\<close>: the lines kept and whether a section was dropped.\<close>

function drop_peer_sections :: "string \<Rightarrow> string list \<Rightarrow> awg_error + string list \<times> bool" where
  "drop_peer_sections public_key [] = Inr ([], False)"
| "drop_peer_sections public_key (l # rest) =
     (if strip l \<noteq> ''[Peer]''
      then (case drop_peer_sections public_key rest of Inl e \<Rightarrow> Inl e
            | Inr (kept, removed) \<Rightarrow> Inr (l # kept, removed))
      else case block_section (l # peer_body rest) of Inl e \<Rightarrow> Inl e
         | Inr s \<Rightarrow> (case drop_peer_sections public_key (after_body rest) of Inl e \<Rightarrow> Inl e
             | Inr (kept, removed) \<Rightarrow>
                 if map_of (as_options s) ''PublicKey'' = Some public_key then Inr (kept, True)
                 else Inr (l # peer_body rest @ kept, removed)))"
  by pat_completeness auto
termination
  by (relation "measure (\<lambda>(_, ls). length ls)") (auto simp: le_imp_less_Suc length_after_body)

definition remove_peer_section_by_identity :: "string \<Rightarrow> string \<Rightarrow> awg_error + string" where
  "remove_peer_section_by_identity t public_key =
     (case drop_peer_sections public_key (splitlines t) of Inl e \<Rightarrow> Inl e
      | Inr (kept, removed) \<Rightarrow> Inr (if removed then rstrip (unlines kept) @ [newline] else t))"

section \<open>What parsing reads\<close>

text \<open>Only the stripped, non-blank lines count.\<close>

lemma header_nonblank: "\<not> is_header []"
  by (simp add: is_header_def)

lemma read_line_blank: "strip raw = [] \<Longrightarrow> read_line read cur raw = Inr (read, cur)"
  by (cases cur) (simp_all add: read_line_def header_nonblank plain_line_def)

lemma read_line_strip: "read_line read cur (strip raw) = read_line read cur raw"
  by (simp add: read_line_def)

lemma sections_content: "sections_from read cur ls = sections_from read cur (content ls)"
proof (induction ls arbitrary: read cur)
  case (Cons raw ls)
  show ?case
  proof (cases "strip raw = []")
    case True
    then show ?thesis using Cons.IH [of read cur] by (simp add: read_line_blank)
  next
    case False
    then show ?thesis
      using Cons.IH by (simp add: read_line_strip) (auto split: sum.splits)
  qed
qed simp

lemma parse_sections_content:
  "content (splitlines t) = content (splitlines u) \<Longrightarrow> parse_sections t = parse_sections u"
  unfolding parse_sections_def by (subst (1 2) sections_content) simp

lemma parse_rstrip [simp]: "parse_sections (rstrip t) = parse_sections t"
  by (rule parse_sections_content) (rule content_rstrip)

text \<open>Reading on after a readable beginning.\<close>

lemma sections_append:
  assumes "sections_from read cur ls = Inr ss"
  shows "\<exists>read' cur'. ss = rev read' @ (case cur' of None \<Rightarrow> [] | Some s \<Rightarrow> [s])
           \<and> (\<forall>ms. sections_from read cur (ls @ ms) = sections_from read' cur' ms)"
  using assms
proof (induction ls arbitrary: read cur)
  case Nil
  then show ?case by (intro exI [of _ read] exI [of _ cur]) simp
next
  case (Cons l ls)
  then obtain read1 cur1 where one: "read_line read cur l = Inr (read1, cur1)" "sections_from read1 cur1 ls = Inr ss"
    by (auto split: sum.splits)
  from Cons.IH [OF one(2)] show ?case by (simp add: one(1))
qed

text \<open>The lines of a peer block, one by one.\<close>

definition clean :: "string \<Rightarrow> bool" where
  "clean s \<longleftrightarrow> s \<noteq> [] \<and> list_all (\<lambda>c. \<not> control_or_space c) s"

lemma clean_no_space: "clean s \<Longrightarrow> list_all (\<lambda>c. \<not> is_space c) s"
  by (auto simp: clean_def list_all_iff control_or_space_def)

lemma clean_strip: "clean s \<Longrightarrow> strip s = s"
  by (rule strip_id [OF clean_no_space])

lemma not_space_literals [simp]: "is_space CHR '' ''" "\<not> is_space CHR ''#''" "\<not> is_space CHR ''P''"
  "\<not> is_space CHR ''A''" "\<not> is_space CHR ''[''" "\<not> is_space CHR '']''" "\<not> is_space CHR ''2''"
  by (simp_all add: is_space_def code_point_def)

lemma strip_last_id: "s \<noteq> [] \<Longrightarrow> \<not> is_space (hd s) \<Longrightarrow> \<not> is_space (last s) \<Longrightarrow> strip s = s"
  by (simp add: strip_def lstrip_id hd_rev)

lemma comment_line: "\<exists>s'. strip (CHR ''#'' # s) = CHR ''#'' # s'"
  by (rule strip_hd) simp

lemma comment_reads: "read_line read cur (CHR ''#'' # l) = Inr (read, cur)"
proof -
  obtain s' where "strip (CHR ''#'' # l) = CHR ''#'' # s'" using comment_line by blast
  then show ?thesis
    by (cases cur) (simp_all add: read_line_def Let_def is_header_def startswith_def plain_line_def)
qed

lemma option_of_line:
  assumes "strip name = name" "CHR ''='' \<notin> set name" "strip v = v"
  shows "option_of (name @ '' = '' @ v) = (name, v)"
proof -
  have "strip (name @ '' '') = name"
    using assms(1) strip_space_right [of "CHR '' ''" name] by simp
  moreover have "takeWhile (\<lambda>c. c \<noteq> CHR ''='') (name @ '' = '' @ v) = name @ '' ''"
    "dropWhile (\<lambda>c. c \<noteq> CHR ''='') (name @ '' = '' @ v) = ''= '' @ v"
    using assms(2) by (simp_all add: takeWhile_append2 dropWhile_append2 takeWhile_append dropWhile_append)
  ultimately show ?thesis
    using assms(3) strip_space_left [of "CHR '' ''" v] by (simp add: option_of_def before_char_def)
qed

lemma put_reads:
  assumes "list_all (\<lambda>c. \<not> is_space c) name" "CHR ''='' \<notin> set name" "name \<noteq> []" "hd name \<notin> {CHR ''#'', CHR 0x5B}" "clean v"
    and "as_name s = ''Peer''" "map_of (as_options s) name = None"
  shows "read_line read (Some s) (name @ '' = '' @ v)
    = Inr (read, Some (s\<lparr>as_options := as_options s @ [(name, v)]\<rparr>))"
proof -
  let ?l = "name @ '' = '' @ v"
  have hd: "\<not> is_space (hd name)" using assms(1,3) by (cases name) auto
  have "strip ?l = ?l"
    using assms(3,5) hd clean_no_space [OF assms(5)]
    by (intro strip_last_id) (auto simp: clean_def list_all_iff)
  moreover have "\<not> is_header ?l" "\<not> plain_line ?l"
    using assms(3,4) by (auto simp: is_header_def plain_line_def startswith_def neq_Nil_conv)
  moreover have "put_option s ?l = Inr (s\<lparr>as_options := as_options s @ [(name, v)]\<rparr>)"
    using option_of_line [OF strip_id [OF assms(1)] assms(2) clean_strip [OF assms(5)]] assms(7)
    by (simp add: put_option_def reject_duplicate_critical_key_def update_fresh map_of_eq_None_iff)
  ultimately show ?thesis by (simp add: read_line_def)
qed

section \<open>Adding a block\<close>

definition peer_options :: "string \<Rightarrow> string option \<Rightarrow> string \<Rightarrow> options" where
  "peer_options public_key psk client_ip =
     (''PublicKey'', public_key)
     # (case psk of None \<Rightarrow> [] | Some k \<Rightarrow> if k = [] then [] else [(''PresharedKey'', k)])
     @ [(''AllowedIPs'', client_ip @ ''/32'')]"

definition clean_peer :: "string \<Rightarrow> string option \<Rightarrow> string \<Rightarrow> bool" where
  "clean_peer public_key psk client_ip \<longleftrightarrow>
     clean public_key \<and> clean client_ip \<and> (case psk of None \<Rightarrow> True | Some k \<Rightarrow> k = [] \<or> clean k)"

lemma peer_header: "is_header ''[Peer]''" "header_name ''[Peer]'' = ''Peer''" "strip ''[Peer]'' = ''[Peer]''"
proof -
  show "strip ''[Peer]'' = ''[Peer]''" by (rule strip_last_id) simp_all
  have "strip ''Peer'' = ''Peer''" by (rule strip_last_id) (simp_all add: is_space_def code_point_def)
  then show "header_name ''[Peer]'' = ''Peer''" by (simp add: header_name_def)
qed (simp add: is_header_def startswith_def)

lemma option_names: "list_all (\<lambda>c. \<not> is_space c) ''PublicKey''" "list_all (\<lambda>c. \<not> is_space c) ''PresharedKey''"
  "list_all (\<lambda>c. \<not> is_space c) ''AllowedIPs''"
  by (simp_all add: is_space_def code_point_def)

lemma read_blank_line: "read_line read cur [] = Inr (read, cur)"
  by (rule read_line_blank) simp

text \<open>A blank line and the block read as one more section, whatever was being read before.\<close>

lemma block_reads:
  assumes "clean_peer public_key psk client_ip"
  shows "sections_from read cur ([] # peer_block_lines kid owner public_key psk client_ip label)
    = Inr (rev read @ (case cur of None \<Rightarrow> [] | Some s \<Rightarrow> [s])
        @ [\<lparr>as_name = ''Peer'', as_options = peer_options public_key psk client_ip\<rparr>])"
proof -
  have clean_ip: "clean (client_ip @ ''/32'')"
    using assms by (simp add: clean_peer_def clean_def control_or_space_def is_space_def code_point_def)
  have head: "read_line r c ''[Peer]'' = Inr ((case c of None \<Rightarrow> r | Some s \<Rightarrow> s # r), Some \<lparr>as_name = ''Peer'', as_options = []\<rparr>)" for r c
    by (simp add: read_line_def peer_header)
  let ?s = "\<lambda>opts. \<lparr>as_name = ''Peer'', as_options = opts\<rparr>"
  have pk: "read_line r (Some (?s [])) (''PublicKey = '' @ public_key) = Inr (r, Some (?s [(''PublicKey'', public_key)]))" for r
    using put_reads [OF option_names(1), of public_key "?s []"] assms by (simp add: clean_peer_def)
  have psk: "read_line r (Some (?s [(''PublicKey'', public_key)])) (''PresharedKey = '' @ k)
      = Inr (r, Some (?s [(''PublicKey'', public_key), (''PresharedKey'', k)]))" if "clean k" for r k
    using put_reads [OF option_names(2) _ _ _ that, of "?s [(''PublicKey'', public_key)]"] by simp
  have ips: "read_line r (Some (?s opts)) (''AllowedIPs = '' @ client_ip @ ''/32'')
      = Inr (r, Some (?s (opts @ [(''AllowedIPs'', client_ip @ ''/32'')])))" if "map_of opts ''AllowedIPs'' = None" for r opts
    using put_reads [OF option_names(3) _ _ _ clean_ip, of "?s opts"] that by simp
  have comments: "read_line r c (start_prefix @ x) = Inr (r, c)" "read_line r c (end_marker kid) = Inr (r, c)" for r c x
    by (simp_all add: start_prefix_def end_marker_def comment_reads)
  show ?thesis
  proof (cases psk)
    case None
    then show ?thesis
      using pk ips by (cases cur) (simp_all add: peer_block_lines_def peer_options_def comments head read_blank_line)
  next
    case (Some k)
    then have "k = [] \<or> clean k" using assms by (simp add: clean_peer_def)
    then show ?thesis
      using pk ips psk [of k]
      by (cases cur) (auto simp: Some peer_block_lines_def peer_options_def comments head read_blank_line)
  qed
qed

lemma clean_line_free: "clean s \<Longrightarrow> line_free s"
  using line_break_space by (auto simp: clean_def line_free_def list_all_iff control_or_space_def)

lemma line_free_append [simp]: "line_free (s @ t) \<longleftrightarrow> line_free s \<and> line_free t"
  by (simp add: line_free_def)

lemma line_free_simps [simp]: "line_free []" "line_free (c # s) \<longleftrightarrow> \<not> line_break c \<and> line_free s"
  by (simp_all add: line_free_def)

lemma line_free_int_str [simp]: "line_free (int_str i)"
proof -
  have "line_free (dec n)" for n
    using dec_digits [of n] line_break_space ascii_digit_not_space by (auto simp: line_free_def list_all_iff)
  then show ?thesis by (simp add: int_str_def) (simp add: line_free_def line_break_def code_point_def)
qed

lemma block_line_free:
  assumes "clean_peer public_key psk client_ip" "validate_label label = None"
  shows "list_all line_free (peer_block_lines kid owner public_key psk client_ip label)"
proof -
  have "line_free (label_part label)"
  proof (cases "label = None \<or> label = Some []")
    case False
    then obtain l where l: "label = Some l" "l \<noteq> []" by (cases label) auto
    then have "line_free l"
      using assms(2) line_break_space
      by (auto simp: validate_label_def line_free_def list_ex_iff list_all_iff control_or_space_def split: if_splits)
    with l show ?thesis by (simp add: label_part_def line_break_def code_point_def)
  qed (auto simp: label_part_def)
  moreover have "line_free public_key" "line_free client_ip" "\<And>k. psk = Some k \<Longrightarrow> line_free k"
    using assms(1) clean_line_free by (auto simp: clean_peer_def)
  ultimately show ?thesis
    by (cases psk) (auto simp: peer_block_lines_def start_prefix_def end_marker_def line_break_def code_point_def)
qed

text \<open>\<open>original.rstrip() + "\n\n" + block\<close>.\<close>

definition append_block :: "string \<Rightarrow> string \<Rightarrow> string" where
  "append_block t block = rstrip t @ [newline, newline] @ block"

lemma append_block_lines:
  assumes "parse_sections t = Inr ss" "list_all line_free bs" "bs \<noteq> []"
  shows "splitlines (append_block t (unlines (bs @ [[]]))) = splitlines (rstrip t) @ [] # bs" "rstrip t \<noteq> []"
proof -
  show ne: "rstrip t \<noteq> []"
  proof
    assume "rstrip t = []"
    then have "parse_sections [] = Inr ss" using assms(1) parse_rstrip [of t] by simp
    then show False by (auto simp: parse_sections_def splitlines_def has_interface_def)
  qed
  have u: "unlines (ls @ [[]]) = unlines ls @ [newline]" if "ls \<noteq> []" for ls
    using that
  proof (induction ls)
    case (Cons a ls)
    then show ?case by (cases ls) simp_all
  qed simp
  have "splitlines (newline # unlines (bs @ [[]])) = [] # bs"
    using splitlines_newline [of "[]"] splitlines_unlines_newline [OF assms(2,3)] u [OF assms(3)] by simp
  moreover have "\<not> line_break (last (rstrip t))" using rstrip_last [of t] ne line_break_space by blast
  ultimately show "splitlines (append_block t (unlines (bs @ [[]]))) = splitlines (rstrip t) @ [] # bs"
    using splitlines_append [OF ne, of "newline # unlines (bs @ [[]])"] by (simp add: append_block_def)
qed

lemma parse_append_block:
  assumes "parse_sections t = Inr ss" "clean_peer public_key psk client_ip" "validate_label label = None"
  shows "parse_sections (append_block t (unlines (peer_block_lines kid owner public_key psk client_ip label @ [[]])))
    = Inr (ss @ [\<lparr>as_name = ''Peer'', as_options = peer_options public_key psk client_ip\<rparr>])"
proof -
  let ?bs = "peer_block_lines kid owner public_key psk client_ip label"
  have lines: "splitlines (append_block t (unlines (?bs @ [[]]))) = splitlines (rstrip t) @ [] # ?bs"
    using append_block_lines [OF assms(1) block_line_free [OF assms(2,3)]] by (simp add: peer_block_lines_def)
  have "sections_from [] None (splitlines (rstrip t)) = Inr ss" "has_interface ss"
    using assms(1) parse_rstrip [of t] by (auto simp: parse_sections_def split: sum.splits if_splits)
  from sections_append [OF this(1)] obtain read' cur' where
    "ss = rev read' @ (case cur' of None \<Rightarrow> [] | Some s \<Rightarrow> [s])"
    "\<And>ms. sections_from [] None (splitlines (rstrip t) @ ms) = sections_from read' cur' ms" by blast
  then show ?thesis
    using block_reads [OF assms(2), of read' cur'] \<open>has_interface ss\<close>
    by (simp add: parse_sections_def lines has_interface_def)
qed

section \<open>Finding and removing the block\<close>

lemma int_str_last: "int_str i \<noteq> [] \<and> \<not> is_space (last (int_str i))"
proof -
  have "dec n \<noteq> [] \<and> \<not> is_space (last (dec n))" for n
    using dec_digits [of n] ascii_digit_not_space by (simp add: list_all_iff)
  then show ?thesis by (auto simp: int_str_def)
qed

lemma marker_lines:
  assumes "validate_label label = None"
  shows "startswith (start_marker kid) (strip (start_prefix @ int_str kid @ '' owner='' @ int_str owner @ label_part label))"
    "startswith (start_marker kid) (start_prefix @ int_str kid @ '' owner='' @ int_str owner @ label_part label)"
    "strip (end_marker kid) = end_marker kid"
proof -
  let ?l = "start_prefix @ int_str kid @ '' owner='' @ int_str owner @ label_part label"
  have "\<not> is_space (last ?l)"
  proof (cases "label = None \<or> label = Some []")
    case True
    then show ?thesis using int_str_last [of owner] by (auto simp: label_part_def)
  next
    case False
    then obtain l where "label = Some l" "l \<noteq> []" by (cases label) auto
    then show ?thesis using assms
      by (auto simp: label_part_def validate_label_def list_ex_iff control_or_space_def split: if_splits)
  qed
  then have "strip ?l = ?l" by (intro strip_last_id) (simp_all add: start_prefix_def)
  moreover show "startswith (start_marker kid) ?l"
    by (simp add: startswith_def start_marker_def start_prefix_def)
  ultimately show "startswith (start_marker kid) (strip ?l)" by simp
  show "strip (end_marker kid) = end_marker kid"
    using int_str_last [of kid] by (intro strip_last_id) (simp_all add: end_marker_def)
qed

lemma not_end_line: "\<not> is_space c \<Longrightarrow> c \<noteq> CHR ''#'' \<Longrightarrow> \<not> is_end kid (c # s)"
  using strip_hd [of c s] by (auto simp: is_end_def end_marker_def)

text \<open>The lines between the two markers of the block.\<close>

lemma block_between:
  assumes "validate_label label = None"
  shows "\<exists>start body. peer_block_lines kid owner public_key psk client_ip label = start # body @ [end_marker kid]
    \<and> is_start kid start \<and> startswith (start_marker kid) start \<and> list_all (\<lambda>l. \<not> is_end kid l) body \<and> is_end kid (end_marker kid)
    \<and> body = [''[Peer]'', ''PublicKey = '' @ public_key]
         @ (case psk of None \<Rightarrow> [] | Some k \<Rightarrow> if k = [] then [] else [''PresharedKey = '' @ k])
         @ [''AllowedIPs = '' @ client_ip @ ''/32'']"
proof -
  have "is_end kid (end_marker kid)" using marker_lines(3) [OF assms] by (simp add: is_end_def)
  then show ?thesis
    using marker_lines(1,2) [OF assms, of kid owner]
    by (auto simp: peer_block_lines_def is_start_def not_end_line split: option.splits)
qed

lemma scan_absent: "list_all (\<lambda>l. \<not> P l) xs \<Longrightarrow> takeWhile (\<lambda>l. \<not> P l) (xs @ ys) = xs @ takeWhile (\<lambda>l. \<not> P l) ys
  \<and> dropWhile (\<lambda>l. \<not> P l) (xs @ ys) = dropWhile (\<lambda>l. \<not> P l) ys"
  by (induction xs) auto

lemma is_start_blank: "\<not> is_start kid []"
  by (simp add: is_start_def startswith_def start_marker_def start_prefix_def)

lemma starts_in_content: "list_ex (is_start kid) ls \<longleftrightarrow> list_ex (startswith (start_marker kid)) (content ls)"
  by (induction ls) (auto simp: is_start_def startswith_def start_marker_def start_prefix_def)

lemma no_start_rstrip:
  "list_all (\<lambda>l. \<not> is_start kid l) (splitlines t) \<Longrightarrow> list_all (\<lambda>l. \<not> is_start kid l) (splitlines (rstrip t))"
  using starts_in_content [of kid "splitlines t"] starts_in_content [of kid "splitlines (rstrip t)"]
  by (simp add: content_rstrip list_ex_iff list_all_iff)

text \<open>
  The block of a new peer adds exactly one peer to the configuration, with exactly its public
  key, preshared key and address, after everything that was there; no value can smuggle in another
  option, section or peer. Looking the peer up by its public key finds these options.
\<close>

theorem peer_block_adds_one_peer:
  assumes "parse_sections t = Inr ss" "clean_peer public_key psk client_ip"
    and "peer_block kid owner public_key psk client_ip label = Inr block"
    and "find_peer_in v6 in6 ss (Some public_key) None = None"
  shows "parse_sections (append_block t block)
       = Inr (ss @ [\<lparr>as_name = ''Peer'', as_options = peer_options public_key psk client_ip\<rparr>])
    \<and> find_peer v6 in6 (append_block t block) (Some public_key) None = Inr (Some (peer_options public_key psk client_ip))"
proof -
  have block: "validate_label label = None"
    "block = unlines (peer_block_lines kid owner public_key psk client_ip label @ [[]])"
    using assms(3) by (auto simp: peer_block_def split: option.splits)
  have parsed: "parse_sections (append_block t block)
      = Inr (ss @ [\<lparr>as_name = ''Peer'', as_options = peer_options public_key psk client_ip\<rparr>])"
    using parse_append_block [OF assms(1,2) block(1)] block(2) by simp
  have "find (peer_matches v6 in6 (Some public_key) None) ss = None"
    using assms(4) by (simp add: find_peer_in_def)
  moreover have "peer_matches v6 in6 (Some public_key) None
      \<lparr>as_name = ''Peer'', as_options = peer_options public_key psk client_ip\<rparr>"
    using assms(2) by (simp add: peer_matches_def truthy_eq_def peer_options_def clean_peer_def clean_def)
  moreover have "find P (xs @ ys) = (case find P xs of None \<Rightarrow> find P ys | Some x \<Rightarrow> Some x)" for P and xs ys :: "awg_section list"
    by (induction xs) auto
  ultimately show ?thesis using parsed by (simp add: find_peer_def find_peer_in_def)
qed

text \<open>
  C14: taking a block out again by its markers restores the configuration line by line (up to blank
  space at its end), so it parses to the sections it had; in between, the markers give the block's
  public key back.
\<close>

theorem managed_block_round_trip:
  assumes "parse_sections t = Inr ss" "clean_peer public_key psk client_ip"
    and "peer_block kid owner public_key psk client_ip label = Inr block"
    and "list_all (\<lambda>l. \<not> is_start kid l) (splitlines t)"
  shows "\<exists>u. remove_managed_block (append_block t block) kid = Inr u
    \<and> splitlines u = splitlines (rstrip t) \<and> parse_sections u = Inr ss
    \<and> managed_block_exists (append_block t block) kid
    \<and> find_managed_peer_public_key (append_block t block) kid = Some public_key"
proof -
  have block: "validate_label label = None"
    "block = unlines (peer_block_lines kid owner public_key psk client_ip label @ [[]])"
    using assms(3) by (auto simp: peer_block_def split: option.splits)
  let ?L = "splitlines (rstrip t)"
  have lines: "splitlines (append_block t block) = ?L @ [] # peer_block_lines kid owner public_key psk client_ip label"
    and ne: "rstrip t \<noteq> []"
    using append_block_lines [OF assms(1) block_line_free [OF assms(2) block(1)]]
    by (simp_all add: block(2) peer_block_lines_def)
  from block_between [OF block(1)] obtain start body where b:
    "peer_block_lines kid owner public_key psk client_ip label = start # body @ [end_marker kid]"
    "is_start kid start" "startswith (start_marker kid) start" "list_all (\<lambda>l. \<not> is_end kid l) body" "is_end kid (end_marker kid)"
    "body = [''[Peer]'', ''PublicKey = '' @ public_key]
         @ (case psk of None \<Rightarrow> [] | Some k \<Rightarrow> if k = [] then [] else [''PresharedKey = '' @ k])
         @ [''AllowedIPs = '' @ client_ip @ ''/32'']" by blast
  have noL: "list_all (\<lambda>l. \<not> is_start kid l) (?L @ [[]])"
    using no_start_rstrip [OF assms(4)] is_start_blank by simp
  have whole: "splitlines (append_block t block) = (?L @ [[]]) @ start # body @ [end_marker kid]"
    using lines b(1) by simp
  have cut: "takeWhile (\<lambda>l. \<not> is_start kid l) (splitlines (append_block t block)) = ?L @ [[]]"
    "dropWhile (\<lambda>l. \<not> is_start kid l) (splitlines (append_block t block)) = start # body @ [end_marker kid]"
    unfolding whole using scan_absent [OF noL] b(2) by simp_all
  have rest: "dropWhile (\<lambda>l. \<not> is_end kid l) (body @ [end_marker kid]) = [end_marker kid]"
    "takeWhile (\<lambda>l. \<not> is_end kid l) (body @ [end_marker kid]) = body"
    using scan_absent [OF b(4)] b(5) by simp_all
  have removed: "remove_managed_block (append_block t block) kid = Inr (rstrip (unlines (?L @ [[]])) @ [newline])"
    by (simp add: remove_managed_block_def cut rest)
  have same: "splitlines (rstrip (unlines (?L @ [[]])) @ [newline]) = ?L"
    using rstrip_unlines_blank [OF ne] rstrip_last [of t] ne by blast
  then have "parse_sections (rstrip (unlines (?L @ [[]])) @ [newline]) = Inr ss"
    using assms(1) parse_rstrip [of t] by (simp add: parse_sections_def)
  moreover have "managed_block_exists (append_block t block) kid"
    using b(3) by (simp add: managed_block_exists_def whole)
  moreover have "find_managed_peer_public_key (append_block t block) kid = Some public_key"
  proof -
    have pk: "strip (''PublicKey = '' @ public_key) = ''PublicKey = '' @ public_key"
      using assms(2) clean_no_space [of public_key]
      by (intro strip_last_id) (auto simp: clean_peer_def clean_def list_all_iff)
    have "option_of (''PublicKey = '' @ public_key) = (''PublicKey'', public_key)"
      using option_of_line [of "''PublicKey''" public_key] strip_id [OF option_names(1)] clean_strip assms(2)
      by (simp add: clean_peer_def)
    moreover obtain s' where "strip start = CHR ''#'' # s'"
      using b(2) by (auto simp: is_start_def startswith_def start_marker_def start_prefix_def) (metis append_Cons append_take_drop_id)
    moreover have "managed_block_lines (append_block t block) kid = Some (start # body @ [end_marker kid])"
      by (simp add: managed_block_lines_def cut rest)
    ultimately show ?thesis
      using assms(2) pk
      by (simp add: find_managed_peer_public_key_def b(6) plain_line_def startswith_def peer_header Let_def
          clean_peer_def clean_def)
  qed
  ultimately show ?thesis using removed same by blast
qed

section \<open>The list of peers\<close>

lemma header_is_not_marker: "is_header l \<Longrightarrow> managed_start_marker l = []"
  by (cases l) (auto simp: is_header_def startswith_def managed_start_marker_def start_prefix_def)

lemma after_body_append:
  assumes "is_header (strip p)"
  shows "\<exists>A'. after_body (A @ p # rest) = A' @ p # rest \<and> length A' \<le> length A"
proof (induction A)
  case Nil
  with assms show ?case by (simp add: after_body_def)
next
  case (Cons a A)
  then obtain A' where "after_body (A @ p # rest) = A' @ p # rest" "length A' \<le> length A" by blast
  then show ?case
    by (cases "is_header (strip a)") (auto simp: after_body_def intro: exI [of _ "a # A"] exI [of _ A'] le_SucI)
qed

text \<open>A listing that reads a peer goes on, with no marker pending, at the next section header.\<close>

lemma listing_tail:
  assumes "strip p = ''[Peer]''" "peer_blocks_from pending (A @ p # rest) = Inr qs"
  shows "\<exists>qs1 qs2. qs = qs1 @ qs2 \<and> peer_blocks_from [] (after_body rest) = Inr qs2"
  using assms(2)
proof (induction A arbitrary: pending qs rule: length_induct)
  case (1 A)
  have p: "is_header (strip p)" using assms(1) peer_header by simp
  show ?case
  proof (cases A)
    case Nil
    with 1(2) assms(1) show ?thesis
      using header_is_not_marker [OF p] by (auto simp: Let_def split: sum.splits)
  next
    case (Cons a A1)
    note next_A = 1(1) [rule_format]
    obtain A' where A': "after_body (A1 @ p # rest) = A' @ p # rest" "length A' \<le> length A1"
      using after_body_append [OF p] by blast
    have line: "\<exists>qs1 qs2. qs = qs1 @ qs2 \<and> peer_blocks_from [] (after_body rest) = Inr qs2"
      if "peer_blocks_from m (A1 @ p # rest) = Inr qs" for m
      using next_A [of A1 m qs] that Cons by simp
    have body: "\<exists>qs1 qs2. q # qs' = qs1 @ qs2 \<and> peer_blocks_from [] (after_body rest) = Inr qs2"
      if "peer_blocks_from [] (A' @ p # rest) = Inr qs'" for q qs'
      using next_A [of A' "[]" qs'] that Cons A'(2) by (auto intro: exI [of _ "q # _"])
    show ?thesis using 1(2) line body
      by (auto simp: Cons Let_def A'(1) split: if_splits sum.splits)
  qed
qed

lemma block_alone:
  assumes "clean_peer public_key psk client_ip" "validate_label label = None"
    and "peer_block_lines kid owner public_key psk client_ip label = start # rest"
  shows "block_section rest = Inr \<lparr>as_name = ''Peer'', as_options = peer_options public_key psk client_ip\<rparr>"
proof -
  have start: "start = CHR ''#'' # tl start" "last rest = end_marker kid" "rest \<noteq> []"
    using assms(3) by (auto simp: peer_block_lines_def start_prefix_def split: option.splits if_splits)
  have free: "list_all line_free (''[Interface]'' # rest)"
    using block_line_free [OF assms(1,2), of kid owner] by (simp add: assms(3) line_break_def code_point_def)
  have lines: "splitlines (unlines (''[Interface]'' # rest)) = ''[Interface]'' # rest"
    using free start by (intro splitlines_unlines) (simp_all add: end_marker_def)
  have "strip ''[Interface]'' = ''[Interface]''" "strip ''Interface'' = ''Interface''"
    by (rule strip_last_id; simp add: is_space_def code_point_def)+
  then have head: "read_line [] None ''[Interface]'' = Inr ([], Some \<lparr>as_name = ''Interface'', as_options = []\<rparr>)"
    by (simp add: read_line_def is_header_def startswith_def header_name_def)
  have "sections_from [] (Some \<lparr>as_name = ''Interface'', as_options = []\<rparr>) rest
      = Inr [\<lparr>as_name = ''Interface'', as_options = []\<rparr>,
             \<lparr>as_name = ''Peer'', as_options = peer_options public_key psk client_ip\<rparr>]"
    using block_reads [OF assms(1), of "[]" "Some \<lparr>as_name = ''Interface'', as_options = []\<rparr>" kid owner label]
      comment_reads [of "[]" _ "tl start"] start(1)
    by (simp add: assms(3) read_blank_line)
  then show ?thesis
    by (simp add: block_section_def parse_sections_def lines head has_interface_def)
qed

text \<open>
  A block added behind a peer is listed without its marker. The scan that reads a \<open>[Peer]\<close>
  section runs on to the next header and swallows the start marker of the block that follows, so
  \<open>list_config_peers\<close> reports the new peer without key id and label, although the marker is in
  the file and \<open>find_managed_peer_public_key\<close> finds the block by it.
\<close>

theorem later_block_listed_without_marker:
  assumes "parse_sections t = Inr ss" "clean_peer public_key psk client_ip"
    and "peer_block kid owner public_key psk client_ip label = Inr block"
    and "splitlines (rstrip t) = A @ p # B" "strip p = ''[Peer]''" "list_all (\<lambda>l. \<not> is_header (strip l)) B"
    and "list_config_peers (append_block t block) = Inr ps"
  shows "\<exists>earlier. ps = earlier @ [peer_options public_key psk client_ip]
    \<and> managed_block_exists (append_block t block) kid
    \<and> map_of (peer_options public_key psk client_ip) ''_managed_key_id'' = None"
proof -
  have block: "validate_label label = None"
    "block = unlines (peer_block_lines kid owner public_key psk client_ip label @ [[]])"
    using assms(3) by (auto simp: peer_block_def split: option.splits)
  from block_between [OF block(1)] obtain start body where b:
    "peer_block_lines kid owner public_key psk client_ip label = start # body @ [end_marker kid]"
    "is_start kid start" "startswith (start_marker kid) start"
    "body = [''[Peer]'', ''PublicKey = '' @ public_key]
         @ (case psk of None \<Rightarrow> [] | Some k \<Rightarrow> if k = [] then [] else [''PresharedKey = '' @ k])
         @ [''AllowedIPs = '' @ client_ip @ ''/32'']" by blast
  have lines: "splitlines (append_block t block) = A @ p # B @ [] # start # body @ [end_marker kid]"
    using append_block_lines(1) [OF assms(1) block_line_free [OF assms(2) block(1)], of kid owner] b(1) assms(4)
    by (simp add: block(2))
  obtain s' where "strip start = CHR ''#'' # s'"
    using b(2) by (auto simp: is_start_def startswith_def start_marker_def start_prefix_def) (metis append_Cons append_take_drop_id)
  then have "\<not> is_header (strip start)" by (simp add: is_header_def startswith_def)
  then have skip: "after_body (B @ [] # start # body @ [end_marker kid]) = body @ [end_marker kid]"
    unfolding after_body_def using scan_absent [OF assms(6)] b(4) peer_header by (simp add: header_nonblank)
  have no_header: "\<not> is_header (strip (c # l))" if "\<not> is_space c" "c \<noteq> CHR 0x5B" for c l
    using strip_hd [OF that(1), of l] that(2) by (auto simp: is_header_def startswith_def)
  let ?tail = "tl body @ [end_marker kid]"
  have tail: "list_all (\<lambda>l. \<not> is_header (strip l)) ?tail"
    using no_header by (auto simp: b(4) end_marker_def split: option.splits)
  then have tail_body: "peer_body ?tail = ?tail" "after_body ?tail = []"
    using scan_absent [OF tail, of "[]"] by (simp_all add: peer_body_def after_body_def)
  have hd_body: "body @ [end_marker kid] = ''[Peer]'' # ?tail" by (simp add: b(4))
  have one_section: "block_section (''[Peer]'' # ?tail)
      = Inr \<lparr>as_name = ''Peer'', as_options = peer_options public_key psk client_ip\<rparr>"
    using block_alone [OF assms(2) block(1) b(1)] hd_body by simp
  have "peer_blocks_from [] (body @ [end_marker kid]) = Inr [peer_options public_key psk client_ip]"
    unfolding hd_body
    using header_is_not_marker [OF peer_header(1)]
    by (simp add: peer_header Let_def tail_body one_section dict_update_def)
  moreover have "peer_blocks_from [] (A @ p # B @ [] # start # body @ [end_marker kid]) = Inr ps"
    using assms(7) by (simp add: list_config_peers_def lines)
  from listing_tail [OF assms(5) this] obtain qs1 qs2 where
    "ps = qs1 @ qs2" "peer_blocks_from [] (after_body (B @ [] # start # body @ [end_marker kid])) = Inr qs2"
    by blast
  ultimately have "ps = qs1 @ [peer_options public_key psk client_ip]" by (simp add: skip)
  moreover have "managed_block_exists (append_block t block) kid"
    using b(3) by (simp add: managed_block_exists_def lines)
  ultimately show ?thesis by (auto simp: peer_options_def split: option.splits)
qed

section \<open>An example configuration\<close>

definition demo_conf :: string where
  "demo_conf = unlines [''[Interface]'', ''ListenPort = 51820'', [], ''[Peer]'', ''PublicKey = K1'', ''AllowedIPs = 10.8.0.2/32'']"

lemma demo_conf_lines: "splitlines demo_conf
    = [''[Interface]'', ''ListenPort = 51820'', [], ''[Peer]'', ''PublicKey = K1'', ''AllowedIPs = 10.8.0.2/32'']"
  unfolding demo_conf_def by (rule splitlines_unlines) (simp_all add: line_break_def code_point_def)

lemma demo_conf_parses: "parse_sections demo_conf = Inr [\<lparr>as_name = ''Interface'', as_options = [(''ListenPort'', ''51820'')]\<rparr>,
    \<lparr>as_name = ''Peer'', as_options = [(''PublicKey'', ''K1''), (''AllowedIPs'', ''10.8.0.2/32'')]\<rparr>]"
  by code_simp

definition demo_block :: string where
  "demo_block = unlines (peer_block_lines 5 7 ''K5'' None ''10.8.0.5'' (Some ''awg_a1b2c'') @ [[]])"

lemma demo_block_ok:
  "peer_block 5 7 ''K5'' None ''10.8.0.5'' (Some ''awg_a1b2c'') = Inr demo_block"
  "clean_peer ''K5'' None ''10.8.0.5''"
  by (simp_all add: peer_block_def demo_block_def validate_label_def clean_peer_def clean_def control_or_space_def
      is_space_def code_point_def)

lemma peer_block_adds_one_peer_witness:
  "find_peer (\<lambda>_. False) (\<lambda>_ _. False) (append_block demo_conf demo_block) (Some ''K5'') None
     = Inr (Some [(''PublicKey'', ''K5''), (''AllowedIPs'', ''10.8.0.5/32'')])"
  using peer_block_adds_one_peer [OF demo_conf_parses demo_block_ok(2,1), of "\<lambda>_. False" "\<lambda>_ _. False"]
  by (simp add: find_peer_in_def peer_matches_def truthy_eq_def peer_options_def)

lemma demo_conf_no_start: "list_all (\<lambda>l. \<not> is_start 5 l) (splitlines demo_conf)"
  unfolding demo_conf_lines by code_simp

lemma managed_block_round_trip_witness:
  "\<exists>u. remove_managed_block (append_block demo_conf demo_block) 5 = Inr u \<and> splitlines u = splitlines demo_conf"
proof -
  have "rstrip demo_conf = demo_conf" by (rule rstrip_id) (simp add: demo_conf_def is_space_def code_point_def newline_def)
  with managed_block_round_trip [OF demo_conf_parses demo_block_ok(2,1) demo_conf_no_start] show ?thesis by auto
qed

lemma demo_listing: "list_config_peers (append_block demo_conf demo_block)
   = Inr [[(''PublicKey'', ''K1''), (''AllowedIPs'', ''10.8.0.2/32'')], [(''PublicKey'', ''K5''), (''AllowedIPs'', ''10.8.0.5/32'')]]"
  by code_simp

lemma later_block_listed_without_marker_witness:
  "\<exists>ps. list_config_peers (append_block demo_conf demo_block) = Inr ps \<and> map_of (last ps) ''_managed_key_id'' = None
     \<and> managed_block_exists (append_block demo_conf demo_block) 5"
proof -
  have "rstrip demo_conf = demo_conf" by (rule rstrip_id) (simp add: demo_conf_def is_space_def code_point_def newline_def)
  then have lines: "splitlines (rstrip demo_conf) = [''[Interface]'', ''ListenPort = 51820'', []] @ ''[Peer]''
      # [''PublicKey = K1'', ''AllowedIPs = 10.8.0.2/32'']"
    by (simp add: demo_conf_lines)
  have "list_all (\<lambda>l. \<not> is_header (strip l)) [''PublicKey = K1'', ''AllowedIPs = 10.8.0.2/32'']" by code_simp
  from later_block_listed_without_marker [OF demo_conf_parses demo_block_ok(2,1) lines peer_header(3) this demo_listing]
  show ?thesis using demo_listing by auto
qed

text \<open>
  A peer taken out by its public key takes the start marker of the next block with it: the lines up
  to the next header belong to the section, and the marker is one of them.
\<close>

definition demo_cut :: string where
  "demo_cut = unlines [''[Interface]'', ''ListenPort = 51820'', [], ''[Peer]'', ''PublicKey = K5'',
     ''AllowedIPs = 10.8.0.5/32'', ''# vpn-bot peer end key_id=5'', []]"

lemma identity_removal_takes_next_marker:
  "remove_peer_section_by_identity (append_block demo_conf demo_block) ''K1'' = Inr demo_cut"
  by code_simp

section \<open>Reading the tool's output\<close>

text \<open>\<open>parse_transfer_output\<close>: the byte counts per public key; lines of another shape are skipped.\<close>

fun transfers_from :: "(string, int \<times> int) dict \<Rightarrow> string list \<Rightarrow> (string, int \<times> int) dict" where
  "transfers_from acc [] = acc"
| "transfers_from acc (raw # rest) =
     (case words raw of
        [public_key, received_raw, sent_raw] \<Rightarrow>
          (case (py_int received_raw, py_int sent_raw) of
             (Some received, Some sent) \<Rightarrow> transfers_from (AList.update public_key (received, sent) acc) rest
           | _ \<Rightarrow> transfers_from acc rest)
      | _ \<Rightarrow> transfers_from acc rest)"

definition parse_transfer_output :: "string \<Rightarrow> (string, int \<times> int) dict" where
  "parse_transfer_output t = transfers_from [] (map strip (splitlines t))"

text \<open>\<open>_parse_runtime_peers\<close>: \<open>current\<close> is the last peer of the list, still being filled.\<close>

definition after_char :: "char \<Rightarrow> string \<Rightarrow> string" where
  "after_char c s = tl (dropWhile (\<lambda>x. x \<noteq> c) s)"

definition runtime_option :: "string \<Rightarrow> options \<Rightarrow> options" where
  "runtime_option line current =
     (let key = strip (before_char (CHR '':'') line); val = strip (after_char (CHR '':'') line)
      in if key = ''allowed ips'' then AList.update ''AllowedIPs'' val current
         else if key = ''endpoint'' then AList.update ''Endpoint'' val current
         else current)"

fun runtime_from :: "options option \<Rightarrow> string list \<Rightarrow> options list" where
  "runtime_from current [] = (case current of None \<Rightarrow> [] | Some p \<Rightarrow> [p])"
| "runtime_from current (raw # rest) =
     (let line = strip raw in
      if line = [] then runtime_from current rest
      else if startswith ''peer: '' line
      then (case current of None \<Rightarrow> [] | Some p \<Rightarrow> [p])
           @ runtime_from (Some [(''PublicKey'', strip (drop 6 line))]) rest
      else case current of None \<Rightarrow> runtime_from None rest
        | Some p \<Rightarrow> if CHR '':'' \<notin> set line then runtime_from (Some p) rest
                    else runtime_from (Some (runtime_option line p)) rest)"

definition parse_runtime_peers :: "string \<Rightarrow> options list" where
  "parse_runtime_peers t = runtime_from None (splitlines t)"

text \<open>\<open>list_peer_endpoints\<close>: \<open>endpoint.rsplit(":", 1)[0].strip("[]")\<close>.\<close>

definition rsplit_head :: "char \<Rightarrow> string \<Rightarrow> string" where
  "rsplit_head c s = (if c \<in> set s then rev (tl (dropWhile (\<lambda>x. x \<noteq> c) (rev s))) else s)"

definition strip_brackets :: "string \<Rightarrow> string" where
  "strip_brackets s = (let b = (\<lambda>c. c \<in> {CHR 0x5B, CHR 0x5D}) in rev (dropWhile b (rev (dropWhile b s))))"

definition peer_endpoints :: "options list \<Rightarrow> (string, string) dict" where
  "peer_endpoints peers =
     fold (\<lambda>peer d. let pub = option_or [] peer ''PublicKey''; endpoint = option_or [] peer ''Endpoint''
       in if pub = [] \<or> endpoint = [] then d
          else let ip = strip_brackets (rsplit_head (CHR '':'') endpoint)
               in if ip \<noteq> [] then AList.update pub ip d else d) peers []"

text \<open>\<open>read_server_config\<close>, with the integer of \<open>ListenPort\<close> read by \<open>_parse_int\<close>.\<close>

record awg_server_config =
  sv_listen_port :: "int option"
  sv_public_key :: "string option"
  sv_interface_options :: options
  sv_address :: "string option"

definition parse_int_option :: "string option \<Rightarrow> awg_error + int option" where
  "parse_int_option v = (case v of None \<Rightarrow> Inr None
     | Some s \<Rightarrow> if s = [] then Inr None
         else (case py_int s of None \<Rightarrow> Inl (AwgConfigError ''integer option'') | Some i \<Rightarrow> Inr (Some i)))"

definition read_server_config :: "string \<Rightarrow> awg_error + awg_server_config" where
  "read_server_config t =
     (case parse_sections t of Inl e \<Rightarrow> Inl e
      | Inr ss \<Rightarrow> (case find (\<lambda>s. as_name s = ''Interface'') ss of
            None \<Rightarrow> Inl (AwgConfigError ''no [Interface]'')
          | Some s \<Rightarrow> (case parse_int_option (map_of (as_options s) ''ListenPort'') of Inl e \<Rightarrow> Inl e
              | Inr port \<Rightarrow> Inr \<lparr>sv_listen_port = port, sv_public_key = map_of (as_options s) ''PublicKey'',
                  sv_interface_options = filter (\<lambda>(k, _). k \<in> set client_interface_keys) (as_options s),
                  sv_address = map_of (as_options s) ''Address''\<rparr>)))"

end
