(* ===== verification/Op_Steps.thy ===== *)
theory Op_Steps
  imports Prelude
begin

text \<open>
  How the computations of the services run: what a step returns and leaves, as equivalences that
  \<open>auto\<close> applies to a whole operation, and the gates, which leave the state alone.
\<close>

section \<open>Runs\<close>

lemma op_get_run: "op_get f h = (r, h') \<longleftrightarrow> r = Inr (f h) \<and> h' = h"
  by (auto simp: op_get_def)

lemma op_return_run: "op_return x h = (r, h') \<longleftrightarrow> r = Inr x \<and> h' = h"
  by (auto simp: op_return_def)

lemma op_guard_Inl: "op_guard b e h = (Inl x, h') \<longleftrightarrow> \<not> b \<and> x = e \<and> h' = h"
  by (auto simp: op_simps)

lemma op_bind_Inl:
  "op_bind m f s = (Inl e, t) \<longleftrightarrow> m s = (Inl e, t) \<or> (\<exists>x s'. m s = (Inr x, s') \<and> f x s' = (Inl e, t))"
  by (auto simp: op_bind_def split: prod.splits sum.splits)

lemma op_raise_run: "op_raise e s = (r, s') \<longleftrightarrow> r = Inl e \<and> s' = s"
  by (auto simp: op_raise_def)

lemma op_modify_run: "op_modify f s = (r, s') \<longleftrightarrow> r = Inr () \<and> s' = f s"
  by (auto simp: op_modify_def)

lemma op_try_Inr: "op_try m h s = (Inr x, s') \<longleftrightarrow>
    m s = (Inr x, s') \<or> (\<exists>e s1. m s = (Inl e, s1) \<and> h e s1 = (Inr x, s'))"
  by (auto simp: op_try_def split: prod.splits sum.splits)

lemma op_try_Inl: "op_try m h s = (Inl x, s') \<longleftrightarrow> (\<exists>e s1. m s = (Inl e, s1) \<and> h e s1 = (Inl x, s'))"
  by (auto simp: op_try_def split: prod.splits sum.splits)

lemma bind_pure: "op_bind (op_return x) f s = f x s" "op_bind (op_get g) f s = f (g s) s"
  by (simp_all add: op_bind_def op_return_def op_get_def)

lemma bind_ok: "m s = (Inr x, t) \<Longrightarrow> op_bind m f s = f x t"
  by (simp add: op_bind_def)

lemma bind_guard: "op_bind (op_guard b e) f s = (if b then f () s else (Inl e, s))"
  by (simp add: op_bind_def op_guard_def)

lemma bind_raise: "op_bind (op_raise e) f s = (Inl e, s)"
  by (simp add: op_bind_def op_raise_def)

lemma bind_failed: "m s = (Inl e, t) \<Longrightarrow> op_bind m f s = (Inl e, t)"
  by (simp add: op_bind_def)

lemmas op_value_iffs = op_bind_Inl op_get_run op_return_run op_guard_Inr op_guard_Inl op_bind_Inr

lemmas op_effect_iffs = op_raise_run op_modify_run op_try_Inr op_try_Inl

lemmas op_iffs = op_value_iffs op_effect_iffs

section \<open>Attempts\<close>

text \<open>The result of a step as a value, for \<open>try\<close> statements with an \<open>else\<close> path.\<close>

definition op_attempt :: "('s, 'e, 'a) op \<Rightarrow> ('s, 'e, 'e + 'a) op" where
  "op_attempt m = (\<lambda>s. case m s of (r, s') \<Rightarrow> (Inr r, s'))"

lemma op_attempt_run: "op_attempt m s = (q, t) \<longleftrightarrow> (\<exists>r. m s = (r, t) \<and> q = Inr r)"
  by (auto simp: op_attempt_def split: prod.splits)

section \<open>Gates\<close>

text \<open>A gate that leaves the state alone either ends the operation or lets it go on.\<close>

definition gate :: "('s, 'e, 'a) op \<Rightarrow> bool" where
  "gate m \<longleftrightarrow> (\<forall>s. snd (m s) = s)"

lemma gate_bind:
  assumes "op_bind m f s = (r, s')" "gate m"
  obtains err where "r = Inl err" "s' = s" | x where "m s = (Inr x, s)" "f x s = (r, s')"
proof -
  obtain q t where q: "m s = (q, t)" by force
  then have "t = s" using assms(2) by (metis gate_def snd_conv)
  with q assms(1) that show thesis by (cases q) (auto simp: op_bind_def)
qed

lemma through_gate:
  assumes "op_bind m f s = (r, s')" "gate m" "\<And>err. Q (Inl err) s"
    "\<And>x. m s = (Inr x, s) \<Longrightarrow> f x s = (r, s') \<Longrightarrow> Q r s'"
  shows "Q r s'"
  using gate_bind [OF assms(1,2)] assms(3,4) by metis

lemma gateI: "(\<And>s r s'. m s = (r, s') \<Longrightarrow> s' = s) \<Longrightarrow> gate m"
  unfolding gate_def by (metis prod.exhaust_sel)

lemma gate_simple [simp]: "gate (op_guard b e)" "gate (op_get f)" "gate (op_return x)" "gate (op_raise e)"
  by (simp_all add: gate_def op_simps)

lemma gate_bindI: "gate m \<Longrightarrow> (\<And>x. gate (f x)) \<Longrightarrow> gate (op_bind m f)"
  by (simp add: gate_def op_bind_def split_beta split: sum.split)

lemma gate_if: "gate m \<Longrightarrow> gate n \<Longrightarrow> gate (if b then m else n)"
  by simp

end
