(* ===== verification/Awg_Peers.thy ===== *)
theory Awg_Peers
  imports Awg_Config Op_Steps
begin

text \<open>
  \<open>adapters/awg_config.py\<close>, the operations on the live tunnel without the privileged helper:
  adding and removing a peer in the file and in the running interface, each with its rollback.
  The \<open>awg\<close> tools are a parameter (\<open>awg_tool\<close>): what they do to the running interface
  is not read anywhere, only what they report. What can go wrong around them (a concurrent edit, a
  failing write or restore) is the argument \<open>io\<close>. The contract the key service rests on is the
  locale \<open>peer_backend\<close>; it holds of these operations because they check their own outcome.
\<close>

section \<open>The tunnel and its tools\<close>

record 'r awg_tool =
  tl_active :: "'r \<Rightarrow> bool"                    \<comment> \<open>\<open>awg show\<close> returns 0\<close>
  tl_shows :: "'r \<Rightarrow> string \<Rightarrow> bool"           \<comment> \<open>its output has the line \<open>peer: K\<close>\<close>
  tl_set :: "string \<Rightarrow> string option \<Rightarrow> string \<Rightarrow> 'r \<Rightarrow> bool \<times> 'r"
  tl_unset :: "string \<Rightarrow> 'r \<Rightarrow> bool \<times> 'r"
  tl_syncconf :: "string \<Rightarrow> 'r \<Rightarrow> bool \<times> 'r"
  tl_strip :: "string \<Rightarrow> bool"                  \<comment> \<open>\<open>awg-quick strip\<close> accepts the text\<close>

datatype write_outcome = Written | NotWritten | WrittenThenRaised

record awg_io =
  io_backup :: bool
  io_unchanged :: bool          \<comment> \<open>the two comparisons with the snapshot\<close>
  io_still_unchanged :: bool
  io_write :: write_outcome
  io_restore :: bool

record 'r tunnel =
  tn_config :: "string option"   \<comment> \<open>\<open>None\<close>: no such file\<close>
  tn_runtime :: 'r

type_synonym ('r, 'a) tunnel_op = "('r tunnel, awg_error, 'a) op"

definition validate_wireguard_key :: "string \<Rightarrow> bool" where
  "validate_wireguard_key k \<longleftrightarrow> k \<noteq> [] \<and> \<not> startswith ''-'' k \<and> \<not> list_ex control_or_space k"

definition read_text :: "('r, string) tunnel_op" where
  "read_text = op_bind (op_get tn_config) (\<lambda>c. case c of
     None \<Rightarrow> op_raise (AwgConfigError ''no config'') | Some t \<Rightarrow> op_return t)"

definition lift_sum :: "awg_error + 'a \<Rightarrow> ('r, 'a) tunnel_op" where
  "lift_sum x = (case x of Inl e \<Rightarrow> op_raise e | Inr y \<Rightarrow> op_return y)"

definition ensure_interface_active :: "'r awg_tool \<Rightarrow> ('r, unit) tunnel_op" where
  "ensure_interface_active tool = op_bind (op_get (\<lambda>h. tl_active tool (tn_runtime h)))
     (\<lambda>b. op_guard b (AwgApplyError ''interface down''))"

definition verify_runtime_peer :: "'r awg_tool \<Rightarrow> 'r tunnel \<Rightarrow> string \<Rightarrow> bool" where
  "verify_runtime_peer tool h public_key \<longleftrightarrow>
     tl_active tool (tn_runtime h) \<and> tl_shows tool (tn_runtime h) public_key"

definition run_tool :: "('r \<Rightarrow> bool \<times> 'r) \<Rightarrow> ('r, bool) tunnel_op" where
  "run_tool f = op_bind (op_get (\<lambda>h. f (tn_runtime h))) (\<lambda>(ok, r).
     op_bind (op_modify (\<lambda>h. h\<lparr>tn_runtime := r\<rparr>)) (\<lambda>_. op_return ok))"

definition write_config :: "awg_io \<Rightarrow> string \<Rightarrow> ('r, unit) tunnel_op" where
  "write_config io t =
     op_bind (if io_write io = NotWritten then op_return () else op_modify (\<lambda>h. h\<lparr>tn_config := Some t\<rparr>)) (\<lambda>_.
     op_guard (io_write io = Written) (AwgConfigError ''write failed''))"

definition validate_candidate_config :: "'r awg_tool \<Rightarrow> string \<Rightarrow> ('r, unit) tunnel_op" where
  "validate_candidate_config tool t =
     op_bind (lift_sum (parse_sections t)) (\<lambda>_.
     op_guard (tl_strip tool t) (AwgConfigError ''strip''))"

text \<open>\<open>_sync_runtime_from_config\<close>, used by the rollback of a removal.\<close>

definition sync_from_file :: "'r awg_tool \<Rightarrow> ('r, unit) tunnel_op" where
  "sync_from_file tool =
     op_bind read_text (\<lambda>t.
     op_bind (op_guard (tl_strip tool t) (AwgApplyError ''strip'')) (\<lambda>_.
     op_bind (run_tool (tl_syncconf tool t)) (\<lambda>ok.
     op_guard ok (AwgApplyError ''syncconf''))))"

text \<open>
  The body of a \<open>try\<close> block reports, next to its outcome, the flags its \<open>except\<close> clause looks
  at: whether the file was written, and whether the running interface was touched.
\<close>

type_synonym ('r, 'a) flagged = "'r tunnel \<Rightarrow> (awg_error + 'a) \<times> 'r tunnel \<times> bool \<times> bool"

definition flagged :: "bool \<Rightarrow> bool \<Rightarrow> ('r, 'a) tunnel_op \<Rightarrow> ('a \<Rightarrow> ('r, 'b) flagged) \<Rightarrow> ('r, 'b) flagged" where
  "flagged wrote touched m k = (\<lambda>h. case m h of
     (Inl e, h') \<Rightarrow> (Inl e, h', wrote, touched) | (Inr x, h') \<Rightarrow> k x h')"

definition finished :: "bool \<Rightarrow> bool \<Rightarrow> ('r, 'a) tunnel_op \<Rightarrow> ('r, 'a) flagged" where
  "finished wrote touched m = (\<lambda>h. case m h of (r, h') \<Rightarrow> (r, h', wrote, touched))"

section \<open>Adding a peer\<close>

definition apply_peer ::
  "'r awg_tool \<Rightarrow> string \<Rightarrow> string option \<Rightarrow> string \<Rightarrow> ('r, unit) tunnel_op" where
  "apply_peer tool public_key psk client_ip =
     op_bind (run_tool (tl_set tool public_key psk client_ip)) (\<lambda>ok.
     op_bind (op_guard ok (AwgApplyError ''not applied'')) (\<lambda>_.
     op_bind (op_get (\<lambda>h. verify_runtime_peer tool h public_key)) (\<lambda>seen.
     op_guard seen (AwgApplyError ''not in runtime''))))"

text \<open>When the block of the key is in the file already, only the running interface is brought up.\<close>

definition reapply_peer ::
  "'r awg_tool \<Rightarrow> string \<Rightarrow> string option \<Rightarrow> string \<Rightarrow> ('r, unit) flagged" where
  "reapply_peer tool public_key psk client_ip =
     flagged False False (op_get (\<lambda>h. verify_runtime_peer tool h public_key)) (\<lambda>seen.
       if seen then finished False False (op_return ())
       else finished False True
         (op_bind (run_tool (tl_set tool public_key psk client_ip)) (\<lambda>ok.
          op_guard ok (AwgApplyError ''in config but not applied''))))"

definition add_peer_body ::
  "(string \<Rightarrow> bool) \<Rightarrow> (string \<Rightarrow> string \<Rightarrow> bool) \<Rightarrow> 'r awg_tool \<Rightarrow> awg_io \<Rightarrow> int \<Rightarrow> int \<Rightarrow> string
     \<Rightarrow> string option \<Rightarrow> string \<Rightarrow> string option \<Rightarrow> ('r, unit) flagged" where
  "add_peer_body v6 in6 tool io kid owner public_key psk client_ip label =
     flagged False False read_text (\<lambda>original.
     flagged False False (op_guard (io_unchanged io) (AwgConfigError ''changed'')) (\<lambda>_.
     flagged False False (lift_sum (parse_sections original)) (\<lambda>ss.
     if managed_block_exists original kid then reapply_peer tool public_key psk client_ip
     else
     flagged False False (op_guard (find_peer_in v6 in6 ss (Some public_key) (Some client_ip) = None)
                            AwgPeerAlreadyExistsError) (\<lambda>_.
     flagged False False (lift_sum (peer_block kid owner public_key psk client_ip label)) (\<lambda>block.
     let updated = append_block original block in
     flagged False False (validate_candidate_config tool updated) (\<lambda>_.
     flagged False False (op_guard (io_still_unchanged io) (AwgConfigError ''changed'')) (\<lambda>_.
     flagged False False (write_config io updated) (\<lambda>_.
     finished True True (apply_peer tool public_key psk client_ip)))))))))"

text \<open>
  \<open>_rollback_add_peer\<close>: the backup holds the original text. The outcome of the clean-up
  command is not looked at.
\<close>

definition restore_config :: "awg_io \<Rightarrow> string option \<Rightarrow> 'r tunnel \<Rightarrow> 'r tunnel \<times> bool" where
  "restore_config io backup h = (if io_restore io then (h\<lparr>tn_config := backup\<rparr>, True) else (h, False))"

definition rollback_add_peer ::
  "'r awg_tool \<Rightarrow> awg_io \<Rightarrow> string option \<Rightarrow> string \<Rightarrow> bool \<Rightarrow> bool \<Rightarrow> 'r tunnel \<Rightarrow> 'r tunnel \<times> string list" where
  "rollback_add_peer tool io backup public_key wrote touched h =
     (let (h1, ok) = (if wrote then restore_config io backup h else (h, True));
          h2 = (if touched then h1\<lparr>tn_runtime := snd (tl_unset tool public_key (tn_runtime h1))\<rparr> else h1)
      in (h2, if ok then [] else [''restore config'']))"

definition raise_with_rollback_summary :: "awg_error \<Rightarrow> string list \<Rightarrow> awg_error" where
  "raise_with_rollback_summary primary errors = (if errors \<noteq> [] then AwgApplyError ''rollback failed'' else primary)"

text \<open>\<open>try: body except Exception: rollback, raise\<close>.\<close>

definition or_rollback ::
  "('r, 'a) flagged \<Rightarrow> (bool \<Rightarrow> bool \<Rightarrow> 'r tunnel \<Rightarrow> 'r tunnel \<times> string list) \<Rightarrow> ('r, 'a) tunnel_op" where
  "or_rollback body rollback = (\<lambda>h. case body h of (r, h', wrote, touched) \<Rightarrow>
     (case r of Inr x \<Rightarrow> (Inr x, h')
      | Inl e \<Rightarrow> (Inl (raise_with_rollback_summary e (snd (rollback wrote touched h'))), fst (rollback wrote touched h'))))"

definition add_peer ::
  "(string \<Rightarrow> bool) \<Rightarrow> (string \<Rightarrow> string \<Rightarrow> bool) \<Rightarrow> 'r awg_tool \<Rightarrow> awg_io \<Rightarrow> int \<Rightarrow> int \<Rightarrow> string
     \<Rightarrow> string option \<Rightarrow> string \<Rightarrow> string option \<Rightarrow> ('r, unit) tunnel_op" where
  "add_peer v6 in6 tool io kid owner public_key psk client_ip label =
     op_bind (op_guard (validate_wireguard_key public_key) (AwgConfigError ''public key'')) (\<lambda>_.
     op_bind (op_guard (case psk of None \<Rightarrow> True | Some k \<Rightarrow> validate_wireguard_key k) (AwgConfigError ''preshared key'')) (\<lambda>_.
     op_bind (op_guard (ip_address v6 client_ip \<noteq> None) (AwgConfigError ''client ip'')) (\<lambda>_.
     op_bind (ensure_interface_active tool) (\<lambda>_.
     op_bind read_text (\<lambda>backup.
     op_bind (op_guard (io_backup io) (AwgConfigError ''backup'')) (\<lambda>_.
     or_rollback (add_peer_body v6 in6 tool io kid owner public_key psk client_ip label)
       (rollback_add_peer tool io (Some backup) public_key)))))))"

section \<open>Removing a peer\<close>

definition without_peer :: "string \<Rightarrow> int \<Rightarrow> string option \<Rightarrow> awg_error + string" where
  "without_peer original kid public_key =
     (case remove_managed_block original kid of Inl e \<Rightarrow> Inl e
      | Inr updated \<Rightarrow>
          (case public_key of None \<Rightarrow> Inr updated
           | Some k \<Rightarrow> if updated = original \<and> k \<noteq> [] then remove_peer_section_by_identity original k
                       else Inr updated))"

definition write_if_changed :: "'r awg_tool \<Rightarrow> awg_io \<Rightarrow> string \<Rightarrow> string \<Rightarrow> ('r, unit) tunnel_op" where
  "write_if_changed tool io original updated =
     (if updated = original then op_return ()
      else op_bind (validate_candidate_config tool updated) (\<lambda>_.
           op_bind (op_guard (io_still_unchanged io) (AwgConfigError ''changed'')) (\<lambda>_.
           write_config io updated)))"

definition checked_absent ::
  "(string \<Rightarrow> bool) \<Rightarrow> (string \<Rightarrow> string \<Rightarrow> bool) \<Rightarrow> 'r awg_tool \<Rightarrow> string \<Rightarrow> ('r, unit) tunnel_op" where
  "checked_absent v6 in6 tool k =
     op_bind (op_get (\<lambda>h. verify_runtime_peer tool h k)) (\<lambda>seen.
     op_bind (op_guard (\<not> seen) (AwgApplyError ''still in runtime'')) (\<lambda>_.
     op_bind read_text (\<lambda>t.
     op_bind (lift_sum (find_peer v6 in6 t (Some k) None)) (\<lambda>found.
     op_guard (found = None) (AwgApplyError ''still in config'')))))"

definition remove_peer_body ::
  "(string \<Rightarrow> bool) \<Rightarrow> (string \<Rightarrow> string \<Rightarrow> bool) \<Rightarrow> 'r awg_tool \<Rightarrow> awg_io \<Rightarrow> int \<Rightarrow> string option
     \<Rightarrow> ('r, unit) flagged" where
  "remove_peer_body v6 in6 tool io kid public_key =
     flagged False False read_text (\<lambda>original.
     flagged False False (op_guard (io_unchanged io) (AwgConfigError ''changed'')) (\<lambda>_.
     flagged False False (lift_sum (without_peer original kid public_key)) (\<lambda>updated.
     flagged False False (write_if_changed tool io original updated) (\<lambda>_.
     let wrote = (updated \<noteq> original) in
     case public_key of None \<Rightarrow> finished wrote False (op_return ())
     | Some k \<Rightarrow>
         if k = [] then finished wrote True (op_return ())
         else flagged wrote False (run_tool (tl_unset tool k)) (\<lambda>ok.
              flagged wrote False (op_guard ok (AwgApplyError ''not removed'')) (\<lambda>_.
              finished wrote True (checked_absent v6 in6 tool k)))))))"

definition rollback_remove_peer ::
  "'r awg_tool \<Rightarrow> awg_io \<Rightarrow> string option \<Rightarrow> bool \<Rightarrow> bool \<Rightarrow> 'r tunnel \<Rightarrow> 'r tunnel \<times> string list" where
  "rollback_remove_peer tool io backup wrote removed h =
     (let (h1, ok) = (if wrote then restore_config io backup h else (h, True))
      in if removed
         then (case sync_from_file tool h1 of
             (Inl _, h2) \<Rightarrow> (h2, (if ok then [] else [''restore config'']) @ [''runtime sync''])
           | (Inr _, h2) \<Rightarrow> (h2, if ok then [] else [''restore config'']))
         else (h1, if ok then [] else [''restore config'']))"

definition remove_peer ::
  "(string \<Rightarrow> bool) \<Rightarrow> (string \<Rightarrow> string \<Rightarrow> bool) \<Rightarrow> 'r awg_tool \<Rightarrow> awg_io \<Rightarrow> int \<Rightarrow> string option
     \<Rightarrow> ('r, unit) tunnel_op" where
  "remove_peer v6 in6 tool io kid public_key =
     op_bind (op_guard (case public_key of None \<Rightarrow> True | Some k \<Rightarrow> validate_wireguard_key k) (AwgConfigError ''public key'')) (\<lambda>_.
     op_bind (ensure_interface_active tool) (\<lambda>_.
     op_bind read_text (\<lambda>backup.
     op_bind (op_guard (io_backup io) (AwgConfigError ''backup'')) (\<lambda>_.
     or_rollback (remove_peer_body v6 in6 tool io kid public_key) (rollback_remove_peer tool io (Some backup))))))"

section \<open>What the operations achieve\<close>

lemma flagged_Inr: "flagged w t m k h = (Inr x, h', w', t') \<longleftrightarrow> (\<exists>y h1. m h = (Inr y, h1) \<and> k y h1 = (Inr x, h', w', t'))"
  by (auto simp: flagged_def split: prod.splits sum.splits)

lemma flagged_Inl: "flagged w t m k h = (Inl e, h', w', t') \<longleftrightarrow>
    (m h = (Inl e, h') \<and> w' = w \<and> t' = t) \<or> (\<exists>y h1. m h = (Inr y, h1) \<and> k y h1 = (Inl e, h', w', t'))"
  by (auto simp: flagged_def split: prod.splits sum.splits)

lemma finished_eq: "finished w t m h = (r, h', w', t') \<longleftrightarrow> m h = (r, h') \<and> w' = w \<and> t' = t"
  by (auto simp: finished_def split: prod.splits)

lemma read_text_iff [simp]:
  "read_text h = (Inr t, h') \<longleftrightarrow> tn_config h = Some t \<and> h' = h"
  "read_text h = (Inl e, h') \<longleftrightarrow> tn_config h = None \<and> e = AwgConfigError ''no config'' \<and> h' = h"
  by (auto simp: read_text_def op_simps split: option.splits)

lemma lift_sum_iff [simp]:
  "lift_sum x h = (Inr y, h') \<longleftrightarrow> x = Inr y \<and> h' = h"
  "lift_sum x h = (Inl e, h') \<longleftrightarrow> x = Inl e \<and> h' = h"
  by (auto simp: lift_sum_def op_simps split: sum.splits)

lemma run_tool_iff [simp]:
  "run_tool f h = (Inr ok, h') \<longleftrightarrow> ok = fst (f (tn_runtime h)) \<and> h' = h\<lparr>tn_runtime := snd (f (tn_runtime h))\<rparr>"
  "run_tool f h \<noteq> (Inl e, h')"
  by (auto simp: run_tool_def op_simps split: prod.splits)

lemma ensure_active_iff [simp]:
  "ensure_interface_active tool h = (Inr x, h') \<longleftrightarrow> tl_active tool (tn_runtime h) \<and> h' = h"
  "ensure_interface_active tool h = (Inl e, h') \<longleftrightarrow> \<not> tl_active tool (tn_runtime h) \<and> e = AwgApplyError ''interface down'' \<and> h' = h"
  by (auto simp: ensure_interface_active_def op_simps)

lemma write_config_iff [simp]:
  "write_config io t h = (Inr x, h') \<longleftrightarrow> io_write io = Written \<and> h' = h\<lparr>tn_config := Some t\<rparr>"
  "write_config io t h = (Inl e, h') \<longleftrightarrow> io_write io \<noteq> Written \<and> e = AwgConfigError ''write failed''
     \<and> h' = (if io_write io = NotWritten then h else h\<lparr>tn_config := Some t\<rparr>)"
  by (auto simp: write_config_def op_simps)

lemma candidate_iff [simp]:
  "validate_candidate_config tool t h = (Inr x, h') \<longleftrightarrow> (\<exists>ss. parse_sections t = Inr ss) \<and> tl_strip tool t \<and> h' = h"
  "validate_candidate_config tool t h = (Inl e, h') \<Longrightarrow> h' = h"
  by (auto simp: validate_candidate_config_def op_simps lift_sum_def split: sum.splits if_splits)

lemma or_rollback_Inr: "or_rollback b rb h = (Inr x, h') \<longleftrightarrow> (\<exists>w t. b h = (Inr x, h', w, t))"
  by (auto simp: or_rollback_def split: prod.splits sum.splits)

lemma or_rollback_Inl: "or_rollback b rb h = (Inl e, h') \<longleftrightarrow>
    (\<exists>e1 h1 w t. b h = (Inl e1, h1, w, t) \<and> e = raise_with_rollback_summary e1 (snd (rb w t h1)) \<and> h' = fst (rb w t h1))"
  by (auto simp: or_rollback_def split: prod.splits sum.splits)

lemmas step_iffs = or_rollback_Inr or_rollback_Inl flagged_Inr flagged_Inl finished_eq op_value_iffs

text \<open>Success of the body: the block was there already, or it is written and the peer verified.\<close>

lemma add_body_ok:
  assumes "add_peer_body v6 in6 tool io kid owner public_key psk client_ip label h = (Inr (), h', w, t)"
  obtains (existing) original where "tn_config h = Some original" "managed_block_exists original kid"
      "tn_config h' = Some original"
    | (new) original block ss where "tn_config h = Some original" "parse_sections original = Inr ss"
      "\<not> managed_block_exists original kid" "find_peer_in v6 in6 ss (Some public_key) (Some client_ip) = None"
      "peer_block kid owner public_key psk client_ip label = Inr block"
      "tn_config h' = Some (append_block original block)" "verify_runtime_peer tool h' public_key"
proof -
  from assms obtain original ss where o: "tn_config h = Some original" "parse_sections original = Inr ss"
    and rest: "(if managed_block_exists original kid then reapply_peer tool public_key psk client_ip
      else
      flagged False False (op_guard (find_peer_in v6 in6 ss (Some public_key) (Some client_ip) = None)
                             AwgPeerAlreadyExistsError) (\<lambda>_.
      flagged False False (lift_sum (peer_block kid owner public_key psk client_ip label)) (\<lambda>block.
      let updated = append_block original block in
      flagged False False (validate_candidate_config tool updated) (\<lambda>_.
      flagged False False (op_guard (io_still_unchanged io) (AwgConfigError ''changed'')) (\<lambda>_.
      flagged False False (write_config io updated) (\<lambda>_.
      finished True True (apply_peer tool public_key psk client_ip))))))) h = (Inr (), h', w, t)"
    unfolding add_peer_body_def by (auto simp only: step_iffs read_text_iff lift_sum_iff)
  show ?thesis
  proof (cases "managed_block_exists original kid")
    case True
    with rest have "tn_config h' = tn_config h"
      by (auto simp: reapply_peer_def step_iffs split: if_splits)
    with True o show ?thesis by (auto intro: existing)
  next
    case False
    with rest obtain block h2 where new: "find_peer_in v6 in6 ss (Some public_key) (Some client_ip) = None"
      "peer_block kid owner public_key psk client_ip label = Inr block"
      "apply_peer tool public_key psk client_ip (h\<lparr>tn_config := Some (append_block original block)\<rparr>) = (Inr (), h')"
      by (auto simp: step_iffs Let_def)
    from new(3) have "tn_config h' = Some (append_block original block)" "verify_runtime_peer tool h' public_key"
      by (auto simp: apply_peer_def step_iffs)
    with new o False show ?thesis by (auto intro: that(2))
  qed
qed

lemma add_peer_body_of:
  assumes "add_peer v6 in6 tool io kid owner public_key psk client_ip label h = (Inr (), h')"
  shows "\<exists>w t. add_peer_body v6 in6 tool io kid owner public_key psk client_ip label h = (Inr (), h', w, t)"
    "validate_wireguard_key public_key" "ip_address v6 client_ip \<noteq> None"
  using assms by (auto simp: add_peer_def step_iffs)

text \<open>A failing body: what it left in the file, and what its flags say.\<close>

lemma add_body_failed:
  assumes "add_peer_body v6 in6 tool io kid owner public_key psk client_ip label h = (Inl e, h', w, t)"
    "io_write io \<noteq> WrittenThenRaised"
  shows "(w \<or> tn_config h' = tn_config h) \<and> (t \<or> tn_runtime h' = tn_runtime h)"
proof -
  have reapply: "tn_config g' = tn_config g \<and> (t' \<or> tn_runtime g' = tn_runtime g)"
    if "reapply_peer tool public_key psk client_ip g = (Inl e', g', w', t')" for g g' e' w' t'
    using that by (auto simp: reapply_peer_def step_iffs finished_def split: if_splits prod.splits)
  show ?thesis
    using assms
    by (cases "io_write io")
      (auto simp: add_peer_body_def step_iffs Let_def dest!: candidate_iff(2) reapply split: if_splits)
qed

lemma add_peer_failed:
  assumes "add_peer v6 in6 tool io kid owner public_key psk client_ip label h = (Inl e, h')"
    "io_write io \<noteq> WrittenThenRaised" "io_restore io"
  shows "tn_config h' = tn_config h \<and>
    (tn_runtime h' = tn_runtime h \<or> (\<exists>r. tn_runtime h' = snd (tl_unset tool public_key r)))"
proof -
  from assms(1) consider "h' = h"
    | backup e1 h1 w t where "tn_config h = Some backup"
      "add_peer_body v6 in6 tool io kid owner public_key psk client_ip label h = (Inl e1, h1, w, t)"
      "h' = fst (rollback_add_peer tool io (Some backup) public_key w t h1)"
    by (auto simp: add_peer_def step_iffs)
  then show ?thesis
  proof cases
    case 2
    with add_body_failed [OF 2(2) assms(2)] assms(3) show ?thesis
      by (auto simp: rollback_add_peer_def restore_config_def Let_def split: prod.splits)
  qed simp
qed

lemma checked_absent_ok:
  "checked_absent v6 in6 tool k h = (Inr (), h') \<Longrightarrow> h' = h \<and> \<not> verify_runtime_peer tool h k
     \<and> (\<exists>t. tn_config h = Some t \<and> find_peer v6 in6 t (Some k) None = Inr None)"
  by (auto simp: checked_absent_def step_iffs)

lemma remove_peer_ok:
  assumes "remove_peer v6 in6 tool io kid (Some k) h = (Inr (), h')"
  shows "\<not> verify_runtime_peer tool h' k" "\<exists>t. tn_config h' = Some t \<and> find_peer v6 in6 t (Some k) None = Inr None"
    "\<exists>t u. tn_config h = Some t \<and> without_peer t kid (Some k) = Inr u \<and> tn_config h' = Some u"
proof -
  from assms have "k \<noteq> []" by (auto simp: remove_peer_def step_iffs validate_wireguard_key_def)
  with assms obtain t u h1 where u: "tn_config h = Some t" "without_peer t kid (Some k) = Inr u"
      "write_if_changed tool io t u h = (Inr (), h1)"
    and last: "checked_absent v6 in6 tool k (h1\<lparr>tn_runtime := snd (tl_unset tool k (tn_runtime h1))\<rparr>) = (Inr (), h')"
    by (auto simp: remove_peer_def remove_peer_body_def step_iffs Let_def)
  have "tn_config h1 = Some u" using u by (auto simp: write_if_changed_def step_iffs split: if_splits)
  then show "\<exists>t u. tn_config h = Some t \<and> without_peer t kid (Some k) = Inr u \<and> tn_config h' = Some u"
    using u checked_absent_ok [OF last] by auto
  show "\<not> verify_runtime_peer tool h' k" "\<exists>t. tn_config h' = Some t \<and> find_peer v6 in6 t (Some k) None = Inr None"
    using checked_absent_ok [OF last] by auto
qed

lemma write_if_changed_failed:
  "write_if_changed tool io t u h = (Inl e, h') \<Longrightarrow> io_write io \<noteq> WrittenThenRaised \<Longrightarrow> h' = h"
  by (cases "io_write io") (auto simp: write_if_changed_def step_iffs split: if_splits dest!: candidate_iff(2))

lemma checked_absent_state: "checked_absent v6 in6 tool k h = (r, h') \<Longrightarrow> h' = h"
  by (cases r) (auto simp: checked_absent_def step_iffs)

lemma remove_body_failed:
  assumes "remove_peer_body v6 in6 tool io kid public_key h = (Inl e, h', w, t)" "io_write io \<noteq> WrittenThenRaised"
  shows "w \<or> tn_config h' = tn_config h"
proof -
  have wrote: "h1 = h" if "write_if_changed tool io t t h = (Inr y, h1)" for t y h1
    using that by (auto simp: write_if_changed_def step_iffs)
  show ?thesis
    using assms
    by (auto simp: remove_peer_body_def step_iffs Let_def
        dest!: write_if_changed_failed wrote checked_absent_state split: option.splits if_splits)
qed

lemma sync_from_file_config: "sync_from_file tool h = (r, h') \<Longrightarrow> tn_config h' = tn_config h"
  by (cases r) (auto simp: sync_from_file_def step_iffs)

lemma remove_peer_failed:
  assumes "remove_peer v6 in6 tool io kid public_key h = (Inl e, h')" "io_write io \<noteq> WrittenThenRaised" "io_restore io"
  shows "tn_config h' = tn_config h"
proof -
  from assms(1) consider "h' = h"
    | backup e1 h1 w t where "tn_config h = Some backup"
      "remove_peer_body v6 in6 tool io kid public_key h = (Inl e1, h1, w, t)"
      "h' = fst (rollback_remove_peer tool io (Some backup) w t h1)"
    by (auto simp: remove_peer_def step_iffs)
  then show ?thesis
  proof cases
    case 2
    with remove_body_failed [OF 2(2) assms(2)] assms(3) show ?thesis
      by (auto simp: rollback_remove_peer_def restore_config_def Let_def dest: sync_from_file_config split: prod.splits sum.splits)
  qed simp
qed

section \<open>The contract of the backend\<close>

text \<open>
  What a key service relies on. \<open>owned\<close> says that a block of the key id is in the configuration,
  \<open>listed\<close> that some peer of the configuration has the public key, \<open>live\<close> that the running
  interface shows it.
\<close>

locale peer_backend =
  fixes add :: "int \<Rightarrow> int \<Rightarrow> string \<Rightarrow> string option \<Rightarrow> string \<Rightarrow> string option \<Rightarrow> ('h, awg_error, unit) op"
    and remove :: "int \<Rightarrow> string option \<Rightarrow> ('h, awg_error, unit) op"
    and owned :: "'h \<Rightarrow> int \<Rightarrow> bool"
    and listed live :: "'h \<Rightarrow> string \<Rightarrow> bool"
  assumes add_owned: "add kid owner pk psk ip label h = (Inr (), h') \<Longrightarrow> owned h' kid"
    and add_live: "add kid owner pk psk ip label h = (Inr (), h') \<Longrightarrow> \<not> owned h kid \<Longrightarrow> live h' pk"
    and remove_gone: "remove kid (Some pk) h = (Inr (), h') \<Longrightarrow> \<not> live h' pk \<and> \<not> listed h' pk"
begin

text \<open>Adding and then removing a peer leaves neither of its two traces.\<close>

lemma add_then_remove:
  assumes "op_bind (add kid owner pk psk ip label) (\<lambda>_. remove kid (Some pk)) h = (Inr (), h')"
  shows "\<not> live h' pk \<and> \<not> listed h' pk"
proof -
  from assms obtain h1 where "remove kid (Some pk) h1 = (Inr (), h')" by (auto simp: op_bind_Inr)
  then show ?thesis by (rule remove_gone)
qed

end

definition block_in_file :: "'r tunnel \<Rightarrow> int \<Rightarrow> bool" where
  "block_in_file h kid \<longleftrightarrow> (\<exists>t. tn_config h = Some t \<and> managed_block_exists t kid)"

definition key_in_file :: "(string \<Rightarrow> bool) \<Rightarrow> (string \<Rightarrow> string \<Rightarrow> bool) \<Rightarrow> 'r tunnel \<Rightarrow> string \<Rightarrow> bool" where
  "key_in_file v6 in6 h pk \<longleftrightarrow> (\<exists>t opts. tn_config h = Some t \<and> find_peer v6 in6 t (Some pk) None = Inr (Some opts))"

lemma start_line_free:
  "validate_label label = None \<Longrightarrow> line_free (start_prefix @ int_str kid @ '' owner='' @ int_str owner @ label_part label)"
  using block_line_free [of "''K''" None "''1''" label kid owner]
  by (simp add: peer_block_lines_def clean_peer_def clean_def control_or_space_def is_space_def code_point_def)

lemma appended_block_exists:
  assumes "parse_sections t = Inr ss" "peer_block kid owner public_key psk client_ip label = Inr block"
  shows "managed_block_exists (append_block t block) kid"
proof -
  let ?start = "start_prefix @ int_str kid @ '' owner='' @ int_str owner @ label_part label"
  have label: "validate_label label = None"
    and block: "block = unlines (peer_block_lines kid owner public_key psk client_ip label @ [[]])"
    using assms(2) by (auto simp: peer_block_def split: option.splits)
  obtain rest where "block = ?start @ newline # rest"
    by (simp add: block peer_block_lines_def)
  then have "splitlines (newline # block) = [] # ?start # splitlines rest"
    using splitlines_newline [of "[]"] splitlines_newline [OF start_line_free [OF label], of kid owner rest] by simp
  moreover have ne: "rstrip t \<noteq> []"
    using append_block_lines(2) [OF assms(1), of "[[]]"] by simp
  moreover have "\<not> line_break (last (rstrip t))" using rstrip_last [of t] ne line_break_space by blast
  ultimately have "?start \<in> set (splitlines (append_block t block))"
    using splitlines_append [of "rstrip t" "newline # block"] by (simp add: append_block_def)
  then show ?thesis
    using marker_lines(2) [OF label] by (auto simp: managed_block_exists_def list_ex_iff)
qed

interpretation direct: peer_backend "add_peer v6 in6 tool io" "remove_peer v6 in6 tool io" block_in_file
    "key_in_file v6 in6" "verify_runtime_peer tool" for v6 in6 tool io
proof
  fix kid owner pk psk ip label h h'
  assume "add_peer v6 in6 tool io kid owner pk psk ip label h = (Inr (), h')"
  then obtain w t where body: "add_peer_body v6 in6 tool io kid owner pk psk ip label h = (Inr (), h', w, t)"
    using add_peer_body_of(1) by blast
  then show "block_in_file h' kid"
    by (cases rule: add_body_ok) (auto simp: block_in_file_def appended_block_exists)
  assume "\<not> block_in_file h kid"
  with body show "verify_runtime_peer tool h' pk"
    by (cases rule: add_body_ok) (auto simp: block_in_file_def)
next
  fix kid pk h h'
  assume "remove_peer v6 in6 tool io kid (Some pk) h = (Inr (), h')"
  from remove_peer_ok [OF this] show "\<not> verify_runtime_peer tool h' pk \<and> \<not> key_in_file v6 in6 h' pk"
    by (auto simp: key_in_file_def)
qed

text \<open>
  C15: an addition or removal that fails, at whatever step, leaves the configuration file as it
  was, provided the backup can be restored and a write that raises has not replaced the file.
\<close>

theorem peer_change_atomic:
  assumes "io_write io \<noteq> WrittenThenRaised" "io_restore io"
  shows "(add_peer v6 in6 tool io kid owner pk psk ip label h = (Inl e, h') \<longrightarrow> tn_config h' = tn_config h)
    \<and> (remove_peer v6 in6 tool io kid key h = (Inl e, h') \<longrightarrow> tn_config h' = tn_config h)"
  using add_peer_failed [OF _ assms] remove_peer_failed [OF _ assms] by blast

text \<open>
  An addition that returns has its block in the file and, unless the block was there before,
  exactly one peer more than before, with the key, and the running interface shows it; a removal
  that returns leaves the public key neither in the file nor in the running interface.
\<close>

theorem peer_change_effective:
  assumes "clean_peer pk psk ip"
  shows "(add_peer v6 in6 tool io kid owner pk psk ip label h = (Inr (), h') \<longrightarrow>
      block_in_file h' kid \<and> (block_in_file h kid \<or> verify_runtime_peer tool h' pk \<and>
        (\<exists>t ss u. tn_config h = Some t \<and> parse_sections t = Inr ss \<and> tn_config h' = Some u
          \<and> parse_sections u = Inr (ss @ [\<lparr>as_name = ''Peer'', as_options = peer_options pk psk ip\<rparr>]))))
    \<and> (remove_peer v6 in6 tool io kid (Some pk) h = (Inr (), h') \<longrightarrow>
      \<not> key_in_file v6 in6 h' pk \<and> \<not> verify_runtime_peer tool h' pk)"
proof (intro conjI impI)
  assume add: "add_peer v6 in6 tool io kid owner pk psk ip label h = (Inr (), h')"
  then show "block_in_file h' kid" by (rule direct.add_owned)
  obtain w t where "add_peer_body v6 in6 tool io kid owner pk psk ip label h = (Inr (), h', w, t)"
    using add add_peer_body_of(1) by blast
  then show "block_in_file h kid \<or> verify_runtime_peer tool h' pk \<and>
      (\<exists>t ss u. tn_config h = Some t \<and> parse_sections t = Inr ss \<and> tn_config h' = Some u
        \<and> parse_sections u = Inr (ss @ [\<lparr>as_name = ''Peer'', as_options = peer_options pk psk ip\<rparr>]))"
  proof (cases rule: add_body_ok)
    case (new original block ss)
    then have "validate_label label = None"
      "block = unlines (peer_block_lines kid owner pk psk ip label @ [[]])"
      by (auto simp: peer_block_def split: option.splits)
    with parse_append_block [OF new(2) assms] new show ?thesis by auto
  qed (auto simp: block_in_file_def)
qed (use direct.remove_gone in blast)+

section \<open>An example tunnel\<close>

text \<open>A tool whose runtime is the list of the public keys, and one that refuses every new peer.\<close>

definition demo_tool :: "bool \<Rightarrow> string list awg_tool" where
  "demo_tool accepts = \<lparr>tl_active = (\<lambda>_. True), tl_shows = (\<lambda>r k. k \<in> set r),
     tl_set = (\<lambda>k _ _ r. (accepts, if accepts then k # r else r)), tl_unset = (\<lambda>k r. (True, removeAll k r)),
     tl_syncconf = (\<lambda>_ r. (True, r)), tl_strip = (\<lambda>_. True)\<rparr>"

definition demo_io :: awg_io where
  "demo_io = \<lparr>io_backup = True, io_unchanged = True, io_still_unchanged = True, io_write = Written, io_restore = True\<rparr>"

definition demo_tunnel :: "string list tunnel" where
  "demo_tunnel = \<lparr>tn_config = Some demo_conf, tn_runtime = [''K1'']\<rparr>"

definition demo_add :: "bool \<Rightarrow> (string list, unit) tunnel_op" where
  "demo_add accepts = add_peer (\<lambda>_. False) (\<lambda>_ _. False) (demo_tool accepts) demo_io 5 7 ''K5'' None ''10.8.0.5'' (Some ''awg_a1b2c'')"

lemma demo_facts:
  "validate_wireguard_key ''K5''" "\<exists>a. ip_address (\<lambda>_. False) ''10.8.0.5'' = Some a" "\<not> managed_block_exists demo_conf 5"
  "find_peer_in (\<lambda>_. False) (\<lambda>_ _. False)
     [\<lparr>as_name = ''Interface'', as_options = [(''ListenPort'', ''51820'')]\<rparr>,
      \<lparr>as_name = ''Peer'', as_options = [(''PublicKey'', ''K1''), (''AllowedIPs'', ''10.8.0.2/32'')]\<rparr>]
     (Some ''K5'') (Some ''10.8.0.5'') = None"
  "\<exists>ss. parse_sections (append_block demo_conf demo_block) = Inr ss"
proof -
  show "validate_wireguard_key ''K5''"
    by (simp add: validate_wireguard_key_def startswith_def control_or_space_def is_space_def code_point_def)
  have octets: "parse_octet ''10'' = Some 10" "parse_octet ''8'' = Some 8" "parse_octet ''0'' = Some 0"
    "parse_octet ''5'' = Some 5" "parse_octet ''2'' = Some 2" and prefix: "parse_mask ''32'' = Some 32"
    and part: "strip ''10.8.0.2/32'' = ''10.8.0.2/32''"
    by code_simp+
  then have addr: "ip_address (\<lambda>_. False) ''10.8.0.5'' = Some (A4 168296453)"
    by (simp add: ip_address_def parse_ipv4_int_def)
  then show "\<exists>a. ip_address (\<lambda>_. False) ''10.8.0.5'' = Some a" by blast
  show "\<not> managed_block_exists demo_conf 5" by (simp add: managed_block_exists_def demo_conf_lines) code_simp
  show "find_peer_in (\<lambda>_. False) (\<lambda>_ _. False)
     [\<lparr>as_name = ''Interface'', as_options = [(''ListenPort'', ''51820'')]\<rparr>,
      \<lparr>as_name = ''Peer'', as_options = [(''PublicKey'', ''K1''), (''AllowedIPs'', ''10.8.0.2/32'')]\<rparr>]
     (Some ''K5'') (Some ''10.8.0.5'') = None"
    using octets addr prefix
    by (simp add: find_peer_in_def peer_matches_def truthy_eq_def option_or_def allowed_ips_contains_def
        ip_network_def parse_addr_prefix_def parse_ipv4_int_def part in_net_def num_addresses_def)
  show "\<exists>ss. parse_sections (append_block demo_conf demo_block) = Inr ss"
    using demo_block_ok by (auto simp: demo_block_def peer_block_def parse_append_block [OF demo_conf_parses] split: option.splits)
qed

lemma demo_add_runs:
  "\<exists>h'. demo_add True demo_tunnel = (Inr (), h')" "\<nexists>h'. demo_add False demo_tunnel = (Inr (), h')"
  using demo_facts(2,5)
  by (auto simp: demo_add_def add_peer_def add_peer_body_def apply_peer_def verify_runtime_peer_def step_iffs demo_tool_def
      demo_tunnel_def demo_io_def demo_facts(1,3,4) demo_conf_parses demo_block_ok(1) Let_def)

lemma peer_change_atomic_witness:
  "tn_config (snd (demo_add False demo_tunnel)) = tn_config demo_tunnel"
proof -
  obtain e h' where run: "demo_add False demo_tunnel = (Inl e, h')"
    using demo_add_runs(2) by (metis old.unit.exhaust prod.exhaust sum.exhaust)
  have "io_write demo_io \<noteq> WrittenThenRaised" "io_restore demo_io" by (simp_all add: demo_io_def)
  from peer_change_atomic [OF this] run have "tn_config h' = tn_config demo_tunnel" unfolding demo_add_def by blast
  with run show ?thesis by simp
qed

lemma peer_change_effective_witness:
  "verify_runtime_peer (demo_tool True) (snd (demo_add True demo_tunnel)) ''K5''"
proof -
  obtain h' where run: "demo_add True demo_tunnel = (Inr (), h')" using demo_add_runs(1) by blast
  have "\<not> block_in_file demo_tunnel 5" by (simp add: block_in_file_def demo_tunnel_def demo_facts(3))
  with peer_change_effective [OF demo_block_ok(2)] run have "verify_runtime_peer (demo_tool True) h' ''K5''"
    unfolding demo_add_def by blast
  with run show ?thesis by simp
qed

end
