(* ===== verification/Service_State.thy ===== *)
theory Service_State
  imports Awg_Peers Users Vpn_Keys
begin

text \<open>
  What the key services work on: the database, the host the access is applied to, and the health
  record of \<open>services/backend_health.py\<close> for their backend. A step on one of the three is lifted
  to the whole; the health record and the gates \<open>services/notes.py\<close> and the key services share
  are defined here. Locks only serialise: every operation below is one run under its lock.
\<close>

record 'h service_state =
  sv_db :: world
  sv_host :: 'h
  sv_degraded :: "string option"   \<comment> \<open>the reason, when the backend is degraded\<close>
  sv_uninstalled :: bool

type_synonym ('h, 'a) service_op = "('h service_state, service_error, 'a) op"

definition on_db :: "'a act \<Rightarrow> ('h, 'a) service_op" where
  "on_db m = (\<lambda>s. case m (sv_db s) of (r, w) \<Rightarrow> (r, s\<lparr>sv_db := w\<rparr>))"

definition awg_error_tag :: "awg_error \<Rightarrow> string" where
  "awg_error_tag e = (case e of AwgConfigError m \<Rightarrow> m | AwgApplyError m \<Rightarrow> m
     | AwgPeerAlreadyExistsError \<Rightarrow> ''peer already exists'')"

definition on_host :: "('h, awg_error, 'a) op \<Rightarrow> ('h, 'a) service_op" where
  "on_host m = (\<lambda>s. case m (sv_host s) of (r, h) \<Rightarrow>
     (case r of Inl e \<Rightarrow> Inl (BackendFailure (awg_error_tag e)) | Inr x \<Rightarrow> Inr x, s\<lparr>sv_host := h\<rparr>))"

definition from_host :: "('h \<Rightarrow> awg_error + 'a) \<Rightarrow> ('h, 'a) service_op" where
  "from_host f = (\<lambda>s. (case f (sv_host s) of Inl e \<Rightarrow> Inl (BackendFailure (awg_error_tag e)) | Inr x \<Rightarrow> Inr x, s))"

definition pure_sum :: "service_error + 'a \<Rightarrow> ('h, 'a) service_op" where
  "pure_sum r = (\<lambda>s. (r, s))"

text \<open>A statement that fails when the database does.\<close>

definition if_commits :: "bool \<Rightarrow> ('h, 'a) service_op \<Rightarrow> ('h, 'a) service_op" where
  "if_commits ok m = (if ok then m else op_raise (RuntimeFailure ''database''))"

definition mark_degraded :: "string \<Rightarrow> ('h, unit) service_op" where
  "mark_degraded reason = op_modify (\<lambda>s. if sv_uninstalled s then s else s\<lparr>sv_degraded := Some reason\<rparr>)"

definition mark_healthy :: "('h, unit) service_op" where
  "mark_healthy = op_modify (\<lambda>s. s\<lparr>sv_degraded := None\<rparr>)"

definition mark_uninstalled :: "('h, unit) service_op" where
  "mark_uninstalled = op_modify (\<lambda>s. s\<lparr>sv_uninstalled := True, sv_degraded := None\<rparr>)"

definition require_mutation_allowed :: "('h, unit) service_op" where
  "require_mutation_allowed =
     op_bind (op_get sv_uninstalled) (\<lambda>gone.
     op_bind (op_guard (\<not> gone) (InvalidOperation ''backend_uninstalled_blocked'')) (\<lambda>_.
     op_bind (op_get sv_degraded) (\<lambda>reason.
     op_guard (reason = None) (InvalidOperation ''backend degraded''))))"

section \<open>Notes\<close>

definition max_note_length :: nat where
  "max_note_length = 256"

definition normalize_note :: "string option \<Rightarrow> service_error + string option" where
  "normalize_note note = (case note of None \<Rightarrow> Inr None
     | Some n \<Rightarrow> let value = strip n in
         if value \<in> {[], ''-''} then Inr None
         else if newline \<in> set value \<or> CHR 0x0D \<in> set value then Inl (ValueError ''note lines'')
         else if length value > max_note_length then Inl (ValueError ''note length'')
         else Inr (Some value))"

text \<open>\<open>NotesService.update_key_note\<close>: the gate comes before the look-up.\<close>

definition update_key_note :: "env \<Rightarrow> int \<Rightarrow> int \<Rightarrow> string option \<Rightarrow> unit act" where
  "update_key_note e actor kid note =
     op_bind (require_approved_or_admin actor) (\<lambda>_.
     op_bind (op_get (key_get_by_id kid)) (\<lambda>found.
     case found of None \<Rightarrow> op_raise (NotFound ''err_key_not_found'')
      | Some k \<Rightarrow>
          op_bind (op_guard (vk_owner_user_id k = actor) (AccessDenied ''err_note_own_only'')) (\<lambda>_.
          case normalize_note note of Inl err \<Rightarrow> op_raise err
           | Inr clean_note \<Rightarrow>
               op_bind (key_update_note kid clean_note (ev_now e)) (\<lambda>_.
               audit_write_best_effort e (Some actor) ''note_updated'' EntityVpnKey (Some kid) 0))))"

definition update_user_note :: "env \<Rightarrow> int \<Rightarrow> int \<Rightarrow> string option \<Rightarrow> unit act" where
  "update_user_note e actor target note =
     op_bind (require_superadmin actor) (\<lambda>_.
     op_bind (op_get (user_get_by_id target)) (\<lambda>found.
     case found of None \<Rightarrow> op_raise (NotFound ''err_user_not_found'')
      | Some _ \<Rightarrow>
          (case normalize_note note of Inl err \<Rightarrow> op_raise err
           | Inr clean_note \<Rightarrow>
               op_bind (repo_update_note target clean_note (ev_now e)) (\<lambda>_.
               audit_write_best_effort e (Some actor) ''user_note_updated'' EntityUser (Some target) 0))))"

section \<open>Gates shared by the key services\<close>

definition get_key :: "int \<Rightarrow> vpn_key act" where
  "get_key kid = op_bind (op_get (key_get_by_id kid)) (\<lambda>found.
     case found of None \<Rightarrow> op_raise (NotFound ''err_key_not_found'') | Some k \<Rightarrow> op_return k)"

definition ensure_can_create :: "int \<Rightarrow> int \<Rightarrow> bool \<Rightarrow> unit act" where
  "ensure_can_create actor owner allow_pending_owner =
     op_bind (require_approved_or_admin actor) (\<lambda>a.
     op_bind (op_guard (u_role a = SUPERADMIN \<or> actor = owner) (AccessDenied ''err_create_for_other'')) (\<lambda>_.
     if allow_pending_owner
     then op_bind (op_guard (u_role a = SUPERADMIN) (AccessDenied ''err_guest_admin_only'')) (\<lambda>_.
          op_bind (get_user owner) (\<lambda>o'.
          op_guard (\<not> is_blocked_user o') (AccessDenied ''err_issue_to_blocked'')))
     else op_bind (require_approved_or_admin owner) (\<lambda>o'.
          op_guard (u_role o' \<in> {SUPERADMIN, APPROVED_USER}) (AccessDenied ''err_owner_no_access''))))"

definition get_typed_key_for_manage :: "vpn_key_type \<Rightarrow> int \<Rightarrow> int \<Rightarrow> vpn_key act" where
  "get_typed_key_for_manage t actor kid =
     op_bind (require_approved_or_admin actor) (\<lambda>a.
     op_bind (get_key kid) (\<lambda>k.
     op_bind (op_guard (vk_key_type k = t) (InvalidOperation ''err_not_typed_key'')) (\<lambda>_.
     op_bind (op_guard (u_role a = SUPERADMIN \<or> vk_owner_user_id k = actor)
                (AccessDenied ''err_foreign_key_manage'')) (\<lambda>_.
     op_return k))))"

definition list_user_typed_keys :: "vpn_key_type \<Rightarrow> int \<Rightarrow> int option \<Rightarrow> int \<Rightarrow> int \<Rightarrow> vpn_key list act" where
  "list_user_typed_keys t actor owner limit offset =
     op_bind (require_approved_or_admin actor) (\<lambda>a.
     let target = (case owner of None \<Rightarrow> actor | Some x \<Rightarrow> if x = 0 then actor else x)
     in op_bind (op_guard (u_role a = SUPERADMIN \<or> target = actor) (AccessDenied ''err_foreign_keys_view'')) (\<lambda>_.
        op_get (list_by_owner_and_type target t limit offset)))"

end
