(* ===== verification/Key_Rows.thy ===== *)
theory Key_Rows
  imports Service_State
begin

text \<open>
  What the key services share in their proofs: how a step on one part of the service state acts on
  the whole, and what a change of one row does to the table of the keys.
\<close>

section \<open>Steps on a part of the state\<close>

definition logged :: "env \<Rightarrow> int option \<Rightarrow> string \<Rightarrow> audit_entity_type \<Rightarrow> int option \<Rightarrow> int \<Rightarrow> world \<Rightarrow> world" where
  "logged e actor action et eid n w = snd (audit_write_best_effort e actor action et eid n w)"

lemma logged_tables [simp]:
  "db_vpn_keys (logged e a b c d n w) = db_vpn_keys w"
  "db_users (logged e a b c d n w) = db_users w"
  "db_traffic_archive (logged e a b c d n w) = db_traffic_archive w"
  "db_vpn_key_seq (logged e a b c d n w) = db_vpn_key_seq w"
  by (simp_all add: logged_def audit_best_effort_run)

lemma audit_best_effort_logged: "audit_write_best_effort e a b c d n w = (Inr (), logged e a b c d n w)"
  by (simp add: logged_def audit_best_effort_run)

lemma same_keys:
  assumes "db_vpn_keys w' = db_vpn_keys w"
  shows "key_get_by_id j w' = key_get_by_id j w"
    "db_vpn_key_seq w' = db_vpn_key_seq w \<Longrightarrow> keys_ok w' = keys_ok w"
proof -
  show "key_get_by_id j w' = key_get_by_id j w" by (simp add: key_get_by_id_def assms)
  assume "db_vpn_key_seq w' = db_vpn_key_seq w"
  then have "key_seq w' = key_seq w" by (intro key_seq_ids) (simp_all add: assms)
  then show "keys_ok w' = keys_ok w" by (simp add: keys_ok_def assms)
qed

lemma logged_rows [simp]:
  "key_get_by_id j (logged e a b c d n w) = key_get_by_id j w"
  "keys_ok (logged e a b c d n w) = keys_ok w"
  by (rule same_keys; simp)+

lemma on_db_Inr: "on_db m s = (Inr x, s') \<longleftrightarrow> (\<exists>w. m (sv_db s) = (Inr x, w) \<and> s' = s\<lparr>sv_db := w\<rparr>)"
  by (auto simp: on_db_def split: prod.splits)

lemma on_db_Inl: "on_db m s = (Inl x, s') \<longleftrightarrow> (\<exists>w. m (sv_db s) = (Inl x, w) \<and> s' = s\<lparr>sv_db := w\<rparr>)"
  by (auto simp: on_db_def split: prod.splits)

lemma on_host_Inr: "on_host m s = (Inr x, s') \<longleftrightarrow> (\<exists>h. m (sv_host s) = (Inr x, h) \<and> s' = s\<lparr>sv_host := h\<rparr>)"
  by (auto simp: on_host_def split: prod.splits sum.splits)

lemma on_host_Inl: "on_host m s = (Inl x, s') \<longleftrightarrow>
    (\<exists>e h. m (sv_host s) = (Inl e, h) \<and> x = BackendFailure (awg_error_tag e) \<and> s' = s\<lparr>sv_host := h\<rparr>)"
  by (auto simp: on_host_def split: prod.splits sum.splits)

lemma pure_sum_run: "pure_sum r s = (x, s') \<longleftrightarrow> x = r \<and> s' = s"
  by (auto simp: pure_sum_def)

lemma mutation_allowed_run:
  "require_mutation_allowed s = (Inr x, s') \<longleftrightarrow> \<not> sv_uninstalled s \<and> sv_degraded s = None \<and> s' = s"
  "require_mutation_allowed s = (Inl err, s') \<Longrightarrow> s' = s"
  by (auto simp: require_mutation_allowed_def step_iffs)

lemmas service_iffs = on_db_Inr on_db_Inl on_host_Inr on_host_Inl pure_sum_run step_iffs op_effect_iffs

lemma bind_on_db: "m (sv_db s) = (Inr x, w) \<Longrightarrow> op_bind (on_db m) f s = f x (s\<lparr>sv_db := w\<rparr>)"
  by (simp add: op_bind_def on_db_def)

lemma bind_on_db_failed: "m (sv_db s) = (Inl e, w) \<Longrightarrow> op_bind (on_db m) f s = (Inl e, s\<lparr>sv_db := w\<rparr>)"
  by (simp add: op_bind_def on_db_def)

section \<open>Gates change nothing\<close>

lemma get_user_keeps: "get_user a w = (r, w') \<Longrightarrow> w' = w"
  by (auto simp: get_user_run split: option.splits)

lemma require_approved_keeps: "require_approved_or_admin a w = (r, w') \<Longrightarrow> w' = w"
  by (auto simp: require_approved_run split: option.splits if_splits)

lemma require_superadmin_keeps: "require_superadmin a w = (r, w') \<Longrightarrow> w' = w"
  by (auto simp: require_superadmin_run split: option.splits if_splits)

lemma gate_on_db: "gate m \<Longrightarrow> gate (on_db m)"
  by (simp add: gate_def on_db_def split_beta)

lemma gate_pure_sum [simp]: "gate (pure_sum y)"
  by (simp add: gate_def pure_sum_def)

lemma gate_mutation_allowed [simp]: "gate require_mutation_allowed"
  by (simp add: gate_def require_mutation_allowed_def op_simps)

lemma get_key_run: "get_key kid w = (Inr k, w') \<longleftrightarrow> key_get_by_id kid w = Some k \<and> w' = w"
  "get_key kid w = (Inl err, w') \<longleftrightarrow> key_get_by_id kid w = None \<and> err = NotFound ''err_key_not_found'' \<and> w' = w"
  by (auto simp: get_key_def op_simps split: option.splits)

lemma ensure_can_create_keeps: "ensure_can_create a b c w = (r, w') \<Longrightarrow> w' = w"
  by (cases r) (auto simp: ensure_can_create_def step_iffs split: if_splits
      dest!: require_approved_keeps get_user_keeps)

lemma get_typed_key_ok:
  assumes "get_typed_key_for_manage t a kid w = (Inr k, w')"
  shows "w' = w" "key_get_by_id kid w = Some k" "vk_key_type k = t"
    "vk_owner_user_id k = a \<or> (\<exists>u. user_get_by_id a w = Some u \<and> u_role u = SUPERADMIN)"
  using assms by (auto simp: get_typed_key_for_manage_def step_iffs get_key_run require_approved_run
      split: option.splits if_splits)

lemma get_typed_key_keeps: "get_typed_key_for_manage t a kid w = (r, w') \<Longrightarrow> w' = w"
  by (cases r) (auto simp: get_typed_key_for_manage_def step_iffs get_key_run dest!: require_approved_keeps)

lemma gate_get_key [simp]: "gate (get_key kid)"
  by (simp add: gate_def get_key_def op_simps split: option.split)

lemma gate_typed_key [simp]: "gate (get_typed_key_for_manage t a kid)"
  by (rule gateI) (rule get_typed_key_keeps)

lemma gate_can_create [simp]: "gate (ensure_can_create a b c)"
  by (rule gateI) (rule ensure_can_create_keeps)

lemma gate_superadmin [simp]: "gate (require_superadmin a)"
  by (rule gateI) (rule require_superadmin_keeps)

lemmas gate_db [simp] = gate_get_key [THEN gate_on_db] gate_typed_key [THEN gate_on_db]
  gate_can_create [THEN gate_on_db] gate_superadmin [THEN gate_on_db] gate_simple(2) [THEN gate_on_db]

lemmas through_gates = through_gate [OF _ gate_mutation_allowed] through_gate [OF _ gate_db(1)]
  through_gate [OF _ gate_db(2)] through_gate [OF _ gate_db(3)] through_gate [OF _ gate_db(4)]
  through_gate [OF _ gate_simple(1)]

section \<open>One row\<close>

definition put_row :: "int \<Rightarrow> (vpn_key \<Rightarrow> vpn_key) \<Rightarrow> world \<Rightarrow> world" where
  "put_row kid f w = w\<lparr>db_vpn_keys := update_where (has_key_id kid) f (db_vpn_keys w)\<rparr>"

lemma put_row_get:
  assumes "\<And>k. vk_id (f k) = vk_id k"
  shows "key_get_by_id j (put_row kid f w) = map_option (\<lambda>k. if j = kid then f k else k) (key_get_by_id j w)"
proof -
  have "key_get_by_id j (put_row kid f w) = map_option (\<lambda>x. if vk_id x = kid then f x else x) (key_get_by_id j w)"
    by (simp add: key_get_by_id_def put_row_def find_update_key assms)
  also have "\<dots> = map_option (\<lambda>k. if j = kid then f k else k) (key_get_by_id j w)"
    using key_get_Some [of j w] by (cases "key_get_by_id j w") auto
  finally show ?thesis .
qed

definition with_status :: "vpn_key_status \<Rightarrow> string \<Rightarrow> vpn_key \<Rightarrow> vpn_key" where
  "with_status status now k = k\<lparr>vk_status := status, vk_updated_at := now\<rparr>"

lemma with_status_fields [simp]:
  "vk_id (with_status st now k) = vk_id k" "vk_status (with_status st now k) = st"
  "vk_key_type (with_status st now k) = vk_key_type k" "vk_client_ip (with_status st now k) = vk_client_ip k"
  "vk_public_key (with_status st now k) = vk_public_key k" "vk_payload (with_status st now k) = vk_payload k"
  "vk_owner_user_id (with_status st now k) = vk_owner_user_id k"
  by (simp_all add: with_status_def)

lemma key_set_status_run:
  "set_status kid status now None w =
     (if keys_unique (db_vpn_keys (put_row kid (with_status status now) w))
      then (Inr (), put_row kid (with_status status now) w) else (Inl (IntegrityError ''vpn_keys''), w))"
  by (simp add: set_status_def put_row_def with_status_def [abs_def] op_bind_def update_keys_run op_return_def)

lemma keys_ok_put_row:
  assumes "keys_ok w" "keys_unique (db_vpn_keys (put_row kid f w))" "\<And>k. vk_id (f k) = vk_id k"
  shows "keys_ok (put_row kid f w)"
  using assms numbers_kept_update [of f 0 w "has_key_id kid"]
  by (simp add: keeps_key_id_def update_keys_run put_row_def numbers_kept_def)

text \<open>A status that reserves the address follows one that does.\<close>

lemma set_status_reserved:
  assumes "keys_ok w" "key_get_by_id kid w = Some k" "vk_status k \<in> set reserved_statuses \<or> vk_client_ip k = None"
  shows "set_status kid status now None w = (Inr (), put_row kid (with_status status now) w)"
    "keys_ok (put_row kid (with_status status now) w)"
proof -
  have u: "keys_unique (db_vpn_keys w)" and k: "k \<in> set (db_vpn_keys w)" "vk_id k = kid"
    using assms(1) key_get_Some [OF assms(2)] by (simp_all add: keys_ok_def)
  have only: "x = k" if "x \<in> set (db_vpn_keys w)" "vk_id x = kid" for x
    using key_get_unique [OF assms(1) that(1)] that(2) assms(2) by simp
  have "keys_unique (update_where (has_key_id kid) (with_status status now) (db_vpn_keys w))"
    unfolding update_where_def
    by (rule keys_unique_map [OF u])
      (use only assms(3) in \<open>auto simp: with_status_def reserved_ip_def\<close>)
  then have unique: "keys_unique (db_vpn_keys (put_row kid (with_status status now) w))"
    by (simp add: put_row_def)
  then show "set_status kid status now None w = (Inr (), put_row kid (with_status status now) w)"
    by (simp add: key_set_status_run)
  from keys_ok_put_row [OF assms(1) unique] show "keys_ok (put_row kid (with_status status now) w)" by simp
qed

lemma put_row_tables [simp]:
  "db_users (put_row kid f w) = db_users w" "db_vpn_key_seq (put_row kid f w) = db_vpn_key_seq w"
  "db_traffic_archive (put_row kid f w) = db_traffic_archive w"
  by (simp_all add: put_row_def)

lemma set_status_keys:
  assumes "set_status kid status now None w = (r, w')"
  shows "(r = Inr () \<and> w' = put_row kid (with_status status now) w) \<or> ((\<exists>e. r = Inl e) \<and> w' = w)"
  using assms by (auto simp: key_set_status_run split: if_splits)

text \<open>Neither a status nor the log matters to what a deletion archives.\<close>

lemma archive_of_put_row [simp]:
  assumes "\<And>k. vk_id (f k) = vk_id k \<and> vk_owner_user_id (f k) = vk_owner_user_id k \<and> vk_key_type (f k) = vk_key_type k"
  shows "archive_of j now (put_row kid f w) = archive_of j now w"
proof -
  have "filter (\<lambda>k. vk_id k = i) (update_where P f ks) = update_where P f (filter (\<lambda>k. vk_id k = i) ks)" for P i ks
    by (induction ks) (auto simp: update_where_def assms)
  then show ?thesis
    by (auto simp: archive_of_def put_row_def update_where_def assms intro!: arg_cong [where f = concat] map_cong)
qed

lemma hard_delete_gone:
  assumes "hard_delete_with_stats kid now w = (r, w')"
  shows "r = Inr ()" "key_get_by_id kid w' = None" "db_traffic_archive w' = db_traffic_archive w @ archive_of kid now w"
  using assms by (auto simp: hard_delete_run key_get_by_id_def find_None_iff)

section \<open>A new row\<close>

definition add_row :: "vpn_key \<Rightarrow> world \<Rightarrow> world" where
  "add_row k w = w\<lparr>db_vpn_keys := db_vpn_keys w @ [k], db_vpn_key_seq := Some (vk_id k)\<rparr>"

lemma new_key_row_fields [simp]:
  "vk_id (new_key_row d now i) = i" "vk_status (new_key_row d now i) = KeyPendingApply"
  "vk_key_type (new_key_row d now i) = kd_key_type d" "vk_client_ip (new_key_row d now i) = kd_client_ip d"
  "vk_public_key (new_key_row d now i) = kd_public_key d" "vk_payload (new_key_row d now i) = kd_payload d"
  "vk_owner_user_id (new_key_row d now i) = kd_owner_user_id d"
  by (simp_all add: new_key_row_def)

lemma find_append: "find P (xs @ ys) = (case find P xs of None \<Rightarrow> find P ys | Some x \<Rightarrow> Some x)"
  by (induction xs) auto

lemma next_id_fresh: "find (has_key_id (next_key_id w)) (db_vpn_keys w) = None"
proof -
  have "vk_id k \<noteq> next_key_id w" if "k \<in> set (db_vpn_keys w)" for k
    using ids_le_next [OF that] by simp
  then show ?thesis by (simp add: find_None_iff)
qed

lemma create_pending_run:
  assumes "create_pending d now w = (r, w')" "kd_relay d = None"
  shows "(\<exists>k. r = Inr k \<and> k = new_key_row d now (next_key_id w) \<and> w' = add_row k w) \<or> ((\<exists>err. r = Inl err) \<and> w' = w)"
proof -
  let ?k = "new_key_row d now (next_key_id w)"
  have "find (has_key_id (next_key_id w)) (db_vpn_keys w @ [?k]) = Some ?k"
    by (simp add: find_append next_id_fresh)
  then show ?thesis
    using assms by (auto simp: create_pending_def insert_key_def write_keys_def op_simps checked_relay_def add_row_def
        key_get_by_id_def split: if_splits)
qed

lemma add_row_get:
  "key_get_by_id j (add_row (new_key_row d now (next_key_id w)) w)
    = (if j = next_key_id w then Some (new_key_row d now j) else key_get_by_id j w)"
  by (cases "find (has_key_id j) (db_vpn_keys w)")
    (auto simp: key_get_by_id_def add_row_def find_append next_id_fresh)

lemma keys_ok_add_row:
  assumes "keys_ok w" "create_pending d now w = (Inr k, w')"
  shows "keys_ok w'"
  using numbers_kept_create [of 0 w d now] assms by (simp add: numbers_kept_def)

definition activated :: "payload option \<Rightarrow> payload option \<Rightarrow> string \<Rightarrow> vpn_key \<Rightarrow> vpn_key" where
  "activated p q now k = set_payloads p q (with_status KeyActive now k)"

lemma activated_fields [simp]:
  "vk_id (activated p q now k) = vk_id k" "vk_status (activated p q now k) = KeyActive"
  "vk_key_type (activated p q now k) = vk_key_type k" "vk_client_ip (activated p q now k) = vk_client_ip k"
  "vk_public_key (activated p q now k) = vk_public_key k" "vk_owner_user_id (activated p q now k) = vk_owner_user_id k"
  by (simp_all add: activated_def set_payloads_def)

lemma mark_active_run:
  assumes "keys_ok w" "key_get_by_id kid w = Some k" "vk_status k \<in> {KeyPendingApply, KeyApplyFailed}"
  shows "mark_active kid now p q w = (Inr (), put_row kid (activated p q now) w)"
    "keys_ok (put_row kid (activated p q now) w)"
proof -
  have u: "keys_unique (db_vpn_keys w)" using assms(1) by (simp add: keys_ok_def)
  have only: "x = k" if "x \<in> set (db_vpn_keys w)" "vk_id x = kid" for x
    using key_get_unique [OF assms(1) that(1)] that(2) assms(2) by simp
  have "update_where (\<lambda>k. vk_id k = kid \<and> vk_status k \<in> {KeyPendingApply, KeyApplyFailed}) (activated p q now) (db_vpn_keys w)
      = update_where (has_key_id kid) (activated p q now) (db_vpn_keys w)"
    unfolding update_where_def using only assms(3) by (intro map_cong) auto
  moreover have unique: "keys_unique (update_where (has_key_id kid) (activated p q now) (db_vpn_keys w))"
    unfolding update_where_def
    by (rule keys_unique_map [OF u])
      (use only assms(3) in \<open>auto simp: activated_def set_payloads_def with_status_def reserved_ip_def reserved_statuses_def\<close>)
  ultimately show "mark_active kid now p q w = (Inr (), put_row kid (activated p q now) w)"
    using assms(2) by (simp add: mark_active_def op_transaction_def op_bind_def op_get_def op_guard_def op_return_def
        update_keys_run activated_def [abs_def] with_status_def [abs_def] put_row_def)
  from unique keys_ok_put_row [OF assms(1)] show "keys_ok (put_row kid (activated p q now) w)"
    by (simp add: put_row_def)
qed

end
