(* ===== verification/Awg_Client.thy ===== *)
theory Awg_Client
  imports Key_Rows
begin

text \<open>
  The client side of \<open>services/awg.py\<close>: the checks of the settings and of a stored key, the
  configuration text a client gets and the \<open>vpn://\<close> link made of it. What the standard library
  computes and the program only passes on (IPv6 texts, \<open>str\<close> of a decoded JSON value that is no
  string, \<open>zlib.compress\<close>) is the record \<open>library\<close>.
\<close>

record library =
  lb_v6 :: "string \<Rightarrow> bool"
  lb_in6 :: "string \<Rightarrow> string \<Rightarrow> bool"
  lb_str :: "json \<Rightarrow> string"
  lb_compress :: "nat list \<Rightarrow> nat list"

record awg_settings =
  st_network :: string
  st_server_address :: string
  st_endpoint_host :: string
  st_endpoint_port :: int
  st_server_public_key :: string
  st_client_dns :: string
  st_mtu :: "int option"
  st_allowed_ips :: string
  st_persistent_keepalive :: int
  st_use_preshared_key :: bool

section \<open>The settings\<close>

text \<open>\<open>SettingsError\<close> is a \<open>RuntimeError\<close>.\<close>

definition validate_awg_ready :: "awg_settings \<Rightarrow> service_error + unit" where
  "validate_awg_ready st =
     (if st_endpoint_host st = [] \<or> st_server_public_key st = [] then Inl (RuntimeFailure ''AWG settings missing'')
      else if \<not> (1 \<le> st_endpoint_port st \<and> st_endpoint_port st \<le> 65535) then Inl (RuntimeFailure ''AWG_ENDPOINT_PORT'')
      else Inr ())"

definition ensure_ipv4_network :: "library \<Rightarrow> awg_settings \<Rightarrow> service_error + unit" where
  "ensure_ipv4_network lib st =
     (case (ip_network (lb_v6 lib) False (st_network st), ip_address (lb_v6 lib) (before_slash (st_server_address st))) of
        (Some (V4 n), Some (A4 a)) \<Rightarrow>
          if \<not> in_net a n then Inl (InvalidOperation ''server address outside the network'')
          else if a = net_addr n \<or> a = broadcast n then Inl (InvalidOperation ''edge address'')
          else Inr ()
      | (Some _, Some _) \<Rightarrow> Inl (InvalidOperation ''IPv4 only'')
      | _ \<Rightarrow> Inl (InvalidOperation ''AWG_NETWORK and AWG_SERVER_ADDRESS''))"

text \<open>\<open>ip_interface\<close>: the address of a version 4 interface, \<open>Some None\<close> for version 6.\<close>

definition ip_interface :: "library \<Rightarrow> string \<Rightarrow> (nat \<times> nat) option option" where
  "ip_interface lib s = (case parse_addr_prefix s of Some ap \<Rightarrow> Some (Some ap)
     | None \<Rightarrow> if lb_v6 lib s then Some None else None)"

fun config_addresses :: "library \<Rightarrow> string list \<Rightarrow> nat list option" where
  "config_addresses lib [] = Some []"
| "config_addresses lib (part # rest) =
     (if strip part = [] then config_addresses lib rest
      else case ip_interface lib (strip part) of
          None \<Rightarrow> None
        | Some None \<Rightarrow> config_addresses lib rest
        | Some (Some (a, _)) \<Rightarrow> map_option ((#) a) (config_addresses lib rest))"

definition ensure_server_address_matches_config ::
  "library \<Rightarrow> awg_settings \<Rightarrow> string option \<Rightarrow> service_error + unit" where
  "ensure_server_address_matches_config lib st address =
     (case address of None \<Rightarrow> Inr ()
      | Some raw \<Rightarrow>
          if raw = [] then Inr ()
          else case ip_address (lb_v6 lib) (before_slash (st_server_address st)) of
              None \<Rightarrow> Inl (ValueError ''ip_address'')
            | Some expected \<Rightarrow>
                (case config_addresses lib (split_on (CHR '','') raw) of
                   None \<Rightarrow> Inl (InvalidOperation ''Address'')
                 | Some [] \<Rightarrow> Inl (InvalidOperation ''no IPv4 Address'')
                 | Some (a # as) \<Rightarrow>
                     if expected \<notin> A4 ` set (a # as) then Inl (InvalidOperation ''Address differs'') else Inr ()))"

definition server_public_key :: "awg_settings \<Rightarrow> string option \<Rightarrow> service_error + string" where
  "server_public_key st config_key =
     (if st_server_public_key st \<noteq> [] then Inr (st_server_public_key st)
      else case config_key of None \<Rightarrow> Inl (InvalidOperation ''no server public key'')
        | Some k \<Rightarrow> if k = [] then Inl (InvalidOperation ''no server public key'') else Inr k)"

definition endpoint_port :: "awg_settings \<Rightarrow> int option \<Rightarrow> service_error + int" where
  "endpoint_port st config_port =
     (if st_endpoint_port st \<noteq> 0 then Inr (st_endpoint_port st)
      else case config_port of None \<Rightarrow> Inl (InvalidOperation ''no endpoint port'')
        | Some p \<Rightarrow> if p = 0 then Inl (InvalidOperation ''no endpoint port'') else Inr p)"

section \<open>The stored key\<close>

text \<open>\<open>str(payload.get(field) or column or "")\<close>.\<close>

definition py_str :: "library \<Rightarrow> json \<Rightarrow> string" where
  "py_str lib v = (case v of JStr s \<Rightarrow> s | JInt i \<Rightarrow> int_str i | _ \<Rightarrow> lb_str lib v)"

definition payload_or :: "library \<Rightarrow> payload \<Rightarrow> string \<Rightarrow> string option \<Rightarrow> string" where
  "payload_or lib p field column =
     (if json_truthy (json_get p field) then py_str lib (json_get p field)
      else case column of None \<Rightarrow> [] | Some s \<Rightarrow> s)"

definition b64_char :: "char \<Rightarrow> bool" where
  "b64_char c \<longleftrightarrow> (let n = code_point c in
     (65 \<le> n \<and> n \<le> 90) \<or> (97 \<le> n \<and> n \<le> 122) \<or> (48 \<le> n \<and> n \<le> 57) \<or> n = 43 \<or> n = 47)"

text \<open>
  \<open>base64.b64decode(text, validate=True)\<close>, the length of what it returns: \<open>quad\<close> is the position
  in the group of four, \<open>pads\<close> counts the padding, \<open>padding\<close> says that it has begun.
\<close>

fun b64_scan :: "nat \<Rightarrow> nat \<Rightarrow> bool \<Rightarrow> nat \<Rightarrow> string \<Rightarrow> nat option" where
  "b64_scan quad pads padding bytes [] = (if quad = 0 then Some bytes else None)"
| "b64_scan quad pads padding bytes (c # cs) =
     (if c = CHR ''='' then
        (if quad \<ge> 2 then
           (if quad + (pads + 1) \<ge> 4 then (if cs = [] then Some bytes else None)
            else b64_scan quad (pads + 1) True bytes cs)
         else b64_scan quad pads True bytes cs)
      else if \<not> b64_char c \<or> padding then None
      else b64_scan ((quad + 1) mod 4) 0 padding (if quad = 0 then bytes else bytes + 1) cs)"

definition b64_decoded_length :: "string \<Rightarrow> nat option" where
  "b64_decoded_length s = (if s \<noteq> [] \<and> hd s = CHR ''='' then None else b64_scan 0 0 False 0 s)"

definition placeholder_keys :: "string list" where
  "placeholder_keys = [''...'', ''<KEY>'', ''<PRIVATE_KEY>'', ''PRIVATE_KEY'', ''CHANGE_ME'']"

definition required_private_key :: "library \<Rightarrow> vpn_key \<Rightarrow> service_error + string" where
  "required_private_key lib k =
     (let private_key = payload_or lib (vk_payload k) ''private_key'' None in
      if private_key = [] \<or> list_ex is_space private_key
         \<or> lower private_key \<in> set (map lower placeholder_keys)
         \<or> b64_decoded_length private_key \<noteq> Some 32
      then Inl (InvalidOperation ''private key'') else Inr private_key)"

definition required_client_ip :: "library \<Rightarrow> vpn_key \<Rightarrow> service_error + string" where
  "required_client_ip lib k =
     (let client_ip = strip (payload_or lib (vk_payload k) ''client_ip'' (vk_client_ip k)) in
      case ip_address (lb_v6 lib) client_ip of
        Some (A4 _) \<Rightarrow> Inr client_ip
      | _ \<Rightarrow> Inl (InvalidOperation ''client IP''))"

section \<open>The adapter\<close>

text \<open>
  What the service calls on \<open>AwgConfigAdapter\<close>, over a host state of any type. \<open>read_server_config\<close>
  and the other reads raise an adapter error; \<open>client_interface_options\<close> is empty when the file
  does not exist.
\<close>

record 'h awg_adapter =
  ad_read_server_config :: "'h \<Rightarrow> awg_error + awg_server_config"
  ad_client_interface_options :: "'h \<Rightarrow> awg_error + options"
  ad_peer_allowed_ips :: "'h \<Rightarrow> awg_error + string list"
  ad_find_peer :: "string option \<Rightarrow> string option \<Rightarrow> 'h \<Rightarrow> awg_error + options option"
  ad_managed_public_key :: "int \<Rightarrow> 'h \<Rightarrow> awg_error + string option"
  ad_config_peers :: "'h \<Rightarrow> awg_error + options list"
  ad_runtime_peers :: "'h \<Rightarrow> awg_error + options list"
  ad_verify_runtime_peer :: "string \<Rightarrow> 'h \<Rightarrow> bool"
  ad_add_peer :: "int \<Rightarrow> int \<Rightarrow> string \<Rightarrow> string option \<Rightarrow> string \<Rightarrow> string option \<Rightarrow> ('h, awg_error, unit) op"
  ad_remove_peer :: "int \<Rightarrow> string option \<Rightarrow> ('h, awg_error, unit) op"
  ad_sync_runtime :: "('h, awg_error, unit) op"

section \<open>The configuration of a client\<close>

definition backend :: "awg_error + 'a \<Rightarrow> service_error + 'a" where
  "backend r = (case r of Inl e \<Rightarrow> Inl (BackendFailure (awg_error_tag e)) | Inr x \<Rightarrow> Inr x)"

definition sum_bind :: "'e + 'a \<Rightarrow> ('a \<Rightarrow> 'e + 'b) \<Rightarrow> 'e + 'b" where
  "sum_bind r f = (case r of Inl e \<Rightarrow> Inl e | Inr x \<Rightarrow> f x)"

text \<open>The MTU of the key, else that of the settings, replaces the one of the server's interface.\<close>

definition client_options :: "library \<Rightarrow> awg_settings \<Rightarrow> payload \<Rightarrow> options \<Rightarrow> service_error + options" where
  "client_options lib st p interface_options =
     (case json_get p ''mtu'' of
        JNull \<Rightarrow> Inr (case st_mtu st of None \<Rightarrow> interface_options
                   | Some m \<Rightarrow> AList.update ''MTU'' (int_str m) interface_options)
      | mtu \<Rightarrow> (case py_int (py_str lib mtu) of None \<Rightarrow> Inl (ValueError ''mtu'')
          | Some m \<Rightarrow> Inr (AList.update ''MTU'' (int_str m) interface_options)))"

definition option_lines :: "options \<Rightarrow> string list" where
  "option_lines opts =
     map (\<lambda>(k, v). k @ '' = '' @ v) (filter (\<lambda>(k, v). k \<noteq> ''DNS'' \<and> strip v \<noteq> []) opts)"

definition config_lines ::
  "library \<Rightarrow> awg_settings \<Rightarrow> vpn_key \<Rightarrow> string \<Rightarrow> string \<Rightarrow> string \<Rightarrow> int \<Rightarrow> options \<Rightarrow> string list" where
  "config_lines lib st k private_key client_ip public_key port opts =
     [''[Interface]'', ''PrivateKey = '' @ private_key, ''Address = '' @ client_ip @ ''/32'',
      ''DNS = '' @ st_client_dns st]
     @ option_lines opts
     @ [[], ''[Peer]'', ''PublicKey = '' @ public_key]
     @ (if json_truthy (json_get (vk_payload k) ''preshared_key'')
        then [''PresharedKey = '' @ py_str lib (json_get (vk_payload k) ''preshared_key'')] else [])
     @ [''AllowedIPs = '' @ st_allowed_ips st,
        ''Endpoint = '' @ st_endpoint_host st @ '':'' @ int_str port,
        ''PersistentKeepalive = '' @ int_str (st_persistent_keepalive st)]"

definition client_config ::
  "library \<Rightarrow> awg_settings \<Rightarrow> 'h awg_adapter \<Rightarrow> vpn_key \<Rightarrow> 'h \<Rightarrow> service_error + string" where
  "client_config lib st ad k h =
     sum_bind (backend (ad_read_server_config ad h)) (\<lambda>sc.
     sum_bind (ensure_server_address_matches_config lib st (sv_address sc)) (\<lambda>_.
     sum_bind (server_public_key st (sv_public_key sc)) (\<lambda>public_key.
     sum_bind (endpoint_port st (sv_listen_port sc)) (\<lambda>port.
     sum_bind (required_private_key lib k) (\<lambda>private_key.
     sum_bind (required_client_ip lib k) (\<lambda>client_ip.
     sum_bind (backend (ad_client_interface_options ad h)) (\<lambda>interface_options.
     sum_bind (client_options lib st (vk_payload k) interface_options) (\<lambda>opts.
     Inr (join [newline] (config_lines lib st k private_key client_ip public_key port opts))))))))))"

section \<open>The link\<close>

text \<open>\<open>text.encode("utf-8")\<close> for code points below 256, and \<open>struct.pack(">I", n)\<close>.\<close>

definition utf8 :: "string \<Rightarrow> nat list" where
  "utf8 s = concat (map (\<lambda>c. let n = code_point c in
     if n < 128 then [n] else [192 + n div 64, 128 + n mod 64]) s)"

definition pack_u32 :: "nat \<Rightarrow> nat list option" where
  "pack_u32 n = (if n < 2 ^ 32 then Some [n div 16777216, n div 65536 mod 256, n div 256 mod 256, n mod 256] else None)"

definition b64_urlsafe_char :: "nat \<Rightarrow> char" where
  "b64_urlsafe_char n = char_of (if n < 26 then 65 + n else if n < 52 then 71 + n
     else if n < 62 then n - 4 else if n = 62 then 45 else 95)"

fun urlsafe_b64encode :: "nat list \<Rightarrow> string" where
  "urlsafe_b64encode [] = []"
| "urlsafe_b64encode [a] = map b64_urlsafe_char [a div 4, a mod 4 * 16] @ ''==''"
| "urlsafe_b64encode [a, b] = map b64_urlsafe_char [a div 4, a mod 4 * 16 + b div 16, b mod 16 * 4] @ ''=''"
| "urlsafe_b64encode (a # b # c # rest) =
     map b64_urlsafe_char [a div 4, a mod 4 * 16 + b div 16, b mod 16 * 4 + c div 64, c mod 64]
     @ urlsafe_b64encode rest"

definition amnezia_link :: "library \<Rightarrow> string \<Rightarrow> service_error + string" where
  "amnezia_link lib config_text =
     (let config_bytes = utf8 config_text in
      case pack_u32 (length config_bytes) of
        None \<Rightarrow> Inl (RuntimeFailure ''struct.error'')
      | Some header \<Rightarrow> Inr (''vpn://'' @ urlsafe_b64encode (header @ lb_compress lib config_bytes)))"

definition build_amnezia_link ::
  "library \<Rightarrow> awg_settings \<Rightarrow> 'h awg_adapter \<Rightarrow> vpn_key \<Rightarrow> 'h \<Rightarrow> service_error + string" where
  "build_amnezia_link lib st ad k h = sum_bind (client_config lib st ad k h) (amnezia_link lib)"

text \<open>
  \<open>_format_config\<close>: the message is translated text around these parts. A note is shown to its
  owner only (\<open>key_note_for_viewer\<close>).
\<close>

record shown_config =
  sh_key_id :: int
  sh_status :: vpn_key_status
  sh_label :: "string option"
  sh_note :: "string option"
  sh_link :: string

definition key_note_for_viewer :: "vpn_key \<Rightarrow> int \<Rightarrow> string option" where
  "key_note_for_viewer k viewer =
     (case vk_note k of None \<Rightarrow> None
      | Some n \<Rightarrow> if n \<noteq> [] \<and> vk_owner_user_id k = viewer then Some n else None)"

definition nonempty :: "string option \<Rightarrow> string option" where
  "nonempty v = (case v of None \<Rightarrow> None | Some s \<Rightarrow> if s = [] then None else Some s)"

definition format_config ::
  "library \<Rightarrow> awg_settings \<Rightarrow> 'h awg_adapter \<Rightarrow> vpn_key \<Rightarrow> int \<Rightarrow> 'h \<Rightarrow> service_error + shown_config" where
  "format_config lib st ad k viewer h =
     sum_bind (build_amnezia_link lib st ad k h) (\<lambda>link.
     Inr \<lparr>sh_key_id = vk_id k, sh_status = vk_status k, sh_label = nonempty (vk_email_label k),
          sh_note = key_note_for_viewer k viewer, sh_link = link\<rparr>)"

end
