(* ===== verification/Awg_Service.thy ===== *)
theory Awg_Service
  imports Awg_Client
begin

text \<open>
  \<open>services/awg.py\<close>: keys created, revoked, deleted and shown over the database and the adapter.
  What the operating system supplies to one creation (generated keys and labels, whether the
  module is on, whether the two writes after the peer is applied go through) is the record
  \<open>create_inputs\<close>. A handler of an exception that raises itself replaces the exception.
\<close>

record create_inputs =
  ci_module_on :: bool
  ci_keypair :: "nat \<Rightarrow> awg_error + string \<times> string"
  ci_label :: "nat \<Rightarrow> string"
  ci_preshared :: "awg_error + string"
  ci_activates :: bool      \<comment> \<open>the database accepts \<open>mark_active\<close>\<close>
  ci_marks_failed :: bool   \<comment> \<open>and the \<open>set_status\<close> of the compensation\<close>

definition awg_access_may_exist :: "vpn_key_status list" where
  "awg_access_may_exist =
     [KeyActive, KeyPendingApply, KeyApplyFailed, KeyPendingRevoke, KeyPendingDelete, KeyDeleteFailed]"

definition on_host_value :: "('h \<Rightarrow> service_error + 'a) \<Rightarrow> ('h, 'a) service_op" where
  "on_host_value f = (\<lambda>s. (f (sv_host s), s))"

definition awg_audit :: "env \<Rightarrow> int option \<Rightarrow> string \<Rightarrow> int \<Rightarrow> ('h, unit) service_op" where
  "awg_audit e actor action kid = on_db (audit_write_best_effort e actor action EntityVpnKey (Some kid) 0)"

section \<open>Creation\<close>

fun unique_keypair :: "(nat \<Rightarrow> awg_error + string \<times> string) \<Rightarrow> nat list \<Rightarrow> ('h, string \<times> string) service_op" where
  "unique_keypair gen [] = op_raise (InvalidOperation ''no unique public key'')"
| "unique_keypair gen (i # is) =
     op_bind (pure_sum (backend (gen i))) (\<lambda>(private_key, public_key).
     op_bind (on_db (op_get (find_by_public_key public_key))) (\<lambda>found.
     if found = None then op_return (private_key, public_key) else unique_keypair gen is))"

definition generate_unique_keypair :: "create_inputs \<Rightarrow> ('h, string \<times> string) service_op" where
  "generate_unique_keypair ci = unique_keypair (ci_keypair ci) [0 ..< 3]"

fun unique_label :: "(nat \<Rightarrow> string) \<Rightarrow> nat list \<Rightarrow> ('h, string) service_op" where
  "unique_label gen [] = op_raise (InvalidOperation ''no unique label'')"
| "unique_label gen (i # is) =
     op_bind (on_db (op_get (find_by_email_label (gen i)))) (\<lambda>found.
     if found = None then op_return (gen i) else unique_label gen is)"

definition generate_unique_label :: "create_inputs \<Rightarrow> ('h, string) service_op" where
  "generate_unique_label ci = unique_label (ci_label ci) [0 ..< 5]"

definition allocate_ip :: "library \<Rightarrow> ip_allocator \<Rightarrow> 'h awg_adapter \<Rightarrow> ('h, string) service_op" where
  "allocate_ip lib al ad =
     op_bind (on_db (op_get get_occupied_awg_ips)) (\<lambda>occupied.
     op_bind (on_host_value (\<lambda>h. Inr (case ad_peer_allowed_ips ad h of Inl _ \<Rightarrow> None | Inr ips \<Rightarrow> Some ips))) (\<lambda>peers.
     pure_sum (case next_free_ip (lb_v6 lib) al occupied peers of
         Inl _ \<Rightarrow> Inl (BackendFailure ''ip allocation'') | Inr ip \<Rightarrow> Inr ip)))"

definition psk_json :: "string option \<Rightarrow> json" where
  "psk_json psk = (case psk of None \<Rightarrow> JNull | Some k \<Rightarrow> JStr k)"

definition awg_payload :: "string \<Rightarrow> string \<Rightarrow> string option \<Rightarrow> string \<Rightarrow> string \<Rightarrow> int option \<Rightarrow> payload" where
  "awg_payload private_key public_key psk client_ip label mtu =
     [(''private_key'', JStr private_key), (''public_key'', JStr public_key), (''preshared_key'', psk_json psk),
      (''client_ip'', JStr client_ip), (''email_label'', JStr label)]
     @ (case mtu of None \<Rightarrow> [] | Some m \<Rightarrow> [(''mtu'', JInt m)])"

definition awg_public_payload :: "awg_settings \<Rightarrow> int \<Rightarrow> string \<Rightarrow> string \<Rightarrow> string \<Rightarrow> payload" where
  "awg_public_payload st port public_key client_ip label =
     [(''public_key'', JStr public_key), (''client_ip'', JStr client_ip),
      (''endpoint'', JStr (st_endpoint_host st @ '':'' @ int_str port)), (''email_label'', JStr label)]"

definition awg_draft ::
  "telegram_user_profile \<Rightarrow> string option \<Rightarrow> payload \<Rightarrow> payload \<Rightarrow> int \<Rightarrow> string \<Rightarrow> string \<Rightarrow> string
     \<Rightarrow> string option \<Rightarrow> key_draft" where
  "awg_draft owner note p q actor label public_key client_ip expires_at =
     \<lparr>kd_owner_user_id = pr_telegram_user_id owner, kd_username = pr_username owner, kd_key_type = AWG,
      kd_note = note, kd_payload = p, kd_public_payload = q, kd_created_by = actor, kd_uuid = None,
      kd_email_label = Some label, kd_public_key = Some public_key, kd_client_ip = Some client_ip,
      kd_expires_at = expires_at, kd_transport = ''tcp'', kd_xhttp_profile = ''base'',
      kd_spider_x = None, kd_relay = None\<rparr>"

text \<open>The row and the access that belongs to it.\<close>

record new_access =
  na_key :: vpn_key
  na_public_key :: string
  na_preshared :: "string option"
  na_client_ip :: string
  na_label :: string
  na_payload :: payload
  na_public_payload :: payload

definition insert_awg_key ::
  "env \<Rightarrow> int \<Rightarrow> telegram_user_profile \<Rightarrow> string option \<Rightarrow> string option \<Rightarrow> payload \<Rightarrow> payload \<Rightarrow> string \<Rightarrow> string
     \<Rightarrow> string option \<Rightarrow> string \<Rightarrow> ('h, new_access) service_op" where
  "insert_awg_key e actor owner note expires_at p q label public_key psk client_ip =
     op_bind (on_db (create_pending (awg_draft owner note p q actor label public_key client_ip expires_at) (ev_now e))) (\<lambda>k.
     op_return \<lparr>na_key = k, na_public_key = public_key, na_preshared = psk, na_client_ip = client_ip,
                na_label = label, na_payload = p, na_public_payload = q\<rparr>)"

definition prepare_awg_key ::
  "env \<Rightarrow> library \<Rightarrow> awg_settings \<Rightarrow> ip_allocator \<Rightarrow> 'h awg_adapter \<Rightarrow> create_inputs \<Rightarrow> int
     \<Rightarrow> telegram_user_profile \<Rightarrow> string option \<Rightarrow> string option \<Rightarrow> int option \<Rightarrow> ('h, new_access) service_op" where
  "prepare_awg_key e lib st al ad ci actor owner note expires_at mtu =
     op_bind (on_host_value (\<lambda>h. backend (ad_read_server_config ad h))) (\<lambda>sc.
     op_bind (pure_sum (ensure_server_address_matches_config lib st (sv_address sc))) (\<lambda>_.
     op_bind (pure_sum (server_public_key st (sv_public_key sc))) (\<lambda>_.
     op_bind (pure_sum (endpoint_port st (sv_listen_port sc))) (\<lambda>port.
     op_bind (allocate_ip lib al ad) (\<lambda>client_ip.
     op_bind (generate_unique_keypair ci) (\<lambda>(private_key, public_key).
     op_bind (generate_unique_label ci) (\<lambda>label.
     op_bind (if st_use_preshared_key st then op_bind (pure_sum (backend (ci_preshared ci))) (\<lambda>k. op_return (Some k))
              else op_return None) (\<lambda>psk.
     insert_awg_key e actor owner note expires_at (awg_payload private_key public_key psk client_ip label mtu)
       (awg_public_payload st port public_key client_ip label) label public_key psk client_ip))))))))"

definition apply_awg_key ::
  "env \<Rightarrow> 'h awg_adapter \<Rightarrow> int \<Rightarrow> int \<Rightarrow> bool \<Rightarrow> new_access \<Rightarrow> ('h, unit) service_op" where
  "apply_awg_key e ad actor owner allow_pending na =
     op_try
       (op_bind (on_db (ensure_can_create actor owner allow_pending)) (\<lambda>_.
        on_host (ad_add_peer ad (vk_id (na_key na)) owner (na_public_key na) (na_preshared na) (na_client_ip na)
          (Some (na_label na)))))
       (\<lambda>err.
        op_bind (on_db (set_status (vk_id (na_key na)) KeyApplyFailed (ev_now e) None)) (\<lambda>_.
        op_bind (awg_audit e (Some actor) ''awg_create_failed'' (vk_id (na_key na))) (\<lambda>_.
        op_raise err)))"

definition compensate_failed_create_after_apply ::
  "env \<Rightarrow> 'h awg_adapter \<Rightarrow> create_inputs \<Rightarrow> int \<Rightarrow> int \<Rightarrow> string \<Rightarrow> ('h, unit) service_op" where
  "compensate_failed_create_after_apply e ad ci actor kid public_key =
     op_bind (op_attempt (on_host (ad_remove_peer ad kid (Some public_key)))) (\<lambda>removed.
     case removed of
       Inl _ \<Rightarrow>
         op_bind (mark_degraded ''post-apply mark_active failed and compensation failed'') (\<lambda>_.
         awg_audit e (Some actor) ''awg_create_compensation_failed'' kid)
     | Inr _ \<Rightarrow>
         op_bind (op_try (if_commits (ci_marks_failed ci) (on_db (set_status kid KeyApplyFailed (ev_now e) None)))
                    (\<lambda>_. op_return ())) (\<lambda>_.
         awg_audit e (Some actor) ''awg_create_compensated_after_db_failure'' kid))"

definition activate_awg_key ::
  "env \<Rightarrow> 'h awg_adapter \<Rightarrow> create_inputs \<Rightarrow> int \<Rightarrow> new_access \<Rightarrow> ('h, unit) service_op" where
  "activate_awg_key e ad ci actor na =
     op_try
       (if_commits (ci_activates ci)
          (on_db (mark_active (vk_id (na_key na)) (ev_now e) (Some (na_payload na)) (Some (na_public_payload na)))))
       (\<lambda>err.
        op_bind (compensate_failed_create_after_apply e ad ci actor (vk_id (na_key na)) (na_public_key na)) (\<lambda>_.
        op_raise err))"

definition create_gates ::
  "library \<Rightarrow> awg_settings \<Rightarrow> create_inputs \<Rightarrow> string option \<Rightarrow> ('h, string option) service_op" where
  "create_gates lib st ci note =
     op_bind require_mutation_allowed (\<lambda>_.
     op_bind (op_guard (ci_module_on ci) (InvalidOperation ''protocol_unavailable'')) (\<lambda>_.
     op_bind (pure_sum (validate_awg_ready st)) (\<lambda>_.
     op_bind (pure_sum (ensure_ipv4_network lib st)) (\<lambda>_.
     pure_sum (normalize_note note)))))"

definition create_awg_key ::
  "env \<Rightarrow> library \<Rightarrow> awg_settings \<Rightarrow> ip_allocator \<Rightarrow> 'h awg_adapter \<Rightarrow> create_inputs \<Rightarrow> int
     \<Rightarrow> telegram_user_profile \<Rightarrow> string option \<Rightarrow> string option \<Rightarrow> bool \<Rightarrow> int option
     \<Rightarrow> ('h, vpn_key \<times> shown_config) service_op" where
  "create_awg_key e lib st al ad ci actor owner note expires_at allow_pending mtu =
     op_bind (create_gates lib st ci note) (\<lambda>clean_note.
     op_bind (on_db (ensure_can_create actor (pr_telegram_user_id owner) allow_pending)) (\<lambda>_.
     op_bind require_mutation_allowed (\<lambda>_.
     op_bind (on_db (ensure_can_create actor (pr_telegram_user_id owner) allow_pending)) (\<lambda>_.
     op_bind (prepare_awg_key e lib st al ad ci actor owner clean_note expires_at mtu) (\<lambda>na.
     op_bind (apply_awg_key e ad actor (pr_telegram_user_id owner) allow_pending na) (\<lambda>_.
     op_bind (activate_awg_key e ad ci actor na) (\<lambda>_.
     op_bind (awg_audit e (Some actor) ''awg_key_created'' (vk_id (na_key na))) (\<lambda>_.
     op_bind (on_db (get_key (vk_id (na_key na)))) (\<lambda>k.
     op_bind (on_host_value (format_config lib st ad k actor)) (\<lambda>shown.
     op_return (k, shown)))))))))))"

section \<open>Removal of the access\<close>

definition stored_awg_public_key :: "library \<Rightarrow> vpn_key \<Rightarrow> string" where
  "stored_awg_public_key lib k = strip (payload_or lib (vk_payload k) ''public_key'' (vk_public_key k))"

definition managed_awg_public_key :: "'h awg_adapter \<Rightarrow> vpn_key \<Rightarrow> 'h \<Rightarrow> service_error + string" where
  "managed_awg_public_key ad k h =
     (case ad_managed_public_key ad (vk_id k) h of Inl e \<Rightarrow> Inl (BackendFailure (awg_error_tag e))
      | Inr None \<Rightarrow> Inr [] | Inr (Some pk) \<Rightarrow> Inr (strip pk))"

definition removal_public_key :: "library \<Rightarrow> 'h awg_adapter \<Rightarrow> vpn_key \<Rightarrow> ('h, string) service_op" where
  "removal_public_key lib ad k =
     (if stored_awg_public_key lib k \<noteq> [] then op_return (stored_awg_public_key lib k)
      else on_host_value (managed_awg_public_key ad k))"

definition remove_awg_access :: "library \<Rightarrow> 'h awg_adapter \<Rightarrow> vpn_key \<Rightarrow> ('h, unit) service_op" where
  "remove_awg_access lib ad k =
     op_bind (removal_public_key lib ad k) (\<lambda>public_key.
     op_bind (op_guard (public_key \<noteq> []) (InvalidOperation ''no public key to remove'')) (\<lambda>_.
     on_host (ad_remove_peer ad (vk_id k) (Some public_key))))"

section \<open>Revocation and deletion\<close>

text \<open>
  The part the two revocations share: \<open>on_failure\<close> is the rest of the \<open>except\<close> clause.
\<close>

definition pending_then_remove ::
  "env \<Rightarrow> library \<Rightarrow> 'h awg_adapter \<Rightarrow> vpn_key \<Rightarrow> ('h, unit) service_op \<Rightarrow> ('h, unit) service_op" where
  "pending_then_remove e lib ad k on_failure =
     op_bind (on_db (set_status (vk_id k) KeyPendingRevoke (ev_now e) None)) (\<lambda>_.
     op_try (remove_awg_access lib ad k) (\<lambda>err.
       op_bind (on_db (set_status (vk_id k) (vk_status k) (ev_now e) None)) (\<lambda>_.
       op_bind on_failure (\<lambda>_. op_raise err))))"

definition revoke_awg_key ::
  "env \<Rightarrow> library \<Rightarrow> 'h awg_adapter \<Rightarrow> int \<Rightarrow> int \<Rightarrow> ('h, vpn_key) service_op" where
  "revoke_awg_key e lib ad actor kid =
     op_bind require_mutation_allowed (\<lambda>_.
     op_bind require_mutation_allowed (\<lambda>_.
     op_bind (on_db (get_typed_key_for_manage AWG actor kid)) (\<lambda>k.
     if vk_status k \<in> {KeyRevoked, KeyDeleted} then op_return k
     else
     op_bind (op_guard (vk_status k \<in> set awg_access_may_exist) (InvalidOperation ''err_revoke_active_awg_only'')) (\<lambda>_.
     op_bind (pending_then_remove e lib ad k (awg_audit e (Some actor) ''awg_revoke_failed'' kid)) (\<lambda>_.
     op_bind (on_db (mark_revoked kid actor (ev_now e))) (\<lambda>_.
     op_bind (awg_audit e (Some actor) ''awg_key_revoked'' kid) (\<lambda>_.
     on_db (get_key kid))))))))"

definition revoke_awg_key_system ::
  "env \<Rightarrow> library \<Rightarrow> 'h awg_adapter \<Rightarrow> int \<Rightarrow> int option \<Rightarrow> string \<Rightarrow> ('h, vpn_key) service_op" where
  "revoke_awg_key_system e lib ad kid actor action =
     op_bind require_mutation_allowed (\<lambda>_.
     op_bind require_mutation_allowed (\<lambda>_.
     op_bind (on_db (get_key kid)) (\<lambda>k.
     op_bind (op_guard (vk_key_type k = AWG) (InvalidOperation ''err_not_awg_key'')) (\<lambda>_.
     if vk_status k \<in> {KeyRevoked, KeyDeleted} then op_return k
     else
     op_bind (op_guard (vk_status k \<in> set awg_access_may_exist) (InvalidOperation ''err_revoke_active_awg_only'')) (\<lambda>_.
     op_bind (pending_then_remove e lib ad k (op_return ())) (\<lambda>_.
     op_bind (on_db (mark_revoked kid (case actor of Some a \<Rightarrow> a | None \<Rightarrow> vk_created_by k) (ev_now e))) (\<lambda>_.
     op_bind (awg_audit e actor action kid) (\<lambda>_.
     on_db (get_key kid)))))))))"

definition delete_awg_key :: "env \<Rightarrow> library \<Rightarrow> 'h awg_adapter \<Rightarrow> int \<Rightarrow> int \<Rightarrow> ('h, unit) service_op" where
  "delete_awg_key e lib ad actor kid =
     op_bind require_mutation_allowed (\<lambda>_.
     op_bind require_mutation_allowed (\<lambda>_.
     op_bind (on_db (get_typed_key_for_manage AWG actor kid)) (\<lambda>k.
     op_bind (on_db (set_status kid KeyPendingDelete (ev_now e) None)) (\<lambda>_.
     op_bind
       (op_try
         (if vk_status k \<in> set awg_access_may_exist then remove_awg_access lib ad k else op_return ())
         (\<lambda>err.
          op_bind (on_db (set_status kid KeyDeleteFailed (ev_now e) None)) (\<lambda>_.
          op_bind (awg_audit e (Some actor) ''awg_delete_failed'' kid) (\<lambda>_.
          op_raise err)))) (\<lambda>_.
     op_bind (on_db (hard_delete_with_stats kid (ev_now e))) (\<lambda>_.
     awg_audit e (Some actor) ''awg_key_hard_deleted'' kid))))))"

section \<open>Reading\<close>

text \<open>A corrupted payload is reported in the audit log, whose failure here replaces the error.\<close>

definition client_payload_valid :: "library \<Rightarrow> vpn_key \<Rightarrow> service_error + unit" where
  "client_payload_valid lib k =
     sum_bind (required_private_key lib k) (\<lambda>_. sum_bind (required_client_ip lib k) (\<lambda>_. Inr ()))"

definition ensure_client_payload_valid :: "env \<Rightarrow> library \<Rightarrow> int \<Rightarrow> vpn_key \<Rightarrow> ('h, unit) service_op" where
  "ensure_client_payload_valid e lib actor k =
     op_try (pure_sum (client_payload_valid lib k)) (\<lambda>err.
       op_bind (on_db (audit_write e (Some actor) ''awg_config_corrupted'' EntityVpnKey (Some (vk_id k)) 0)) (\<lambda>_.
       op_raise err))"

definition active_only :: "vpn_key \<Rightarrow> ('h, unit) service_op" where
  "active_only k = op_guard (vk_status k = KeyActive) (InvalidOperation ''err_config_active_only'')"

definition get_awg_client_config ::
  "env \<Rightarrow> library \<Rightarrow> awg_settings \<Rightarrow> 'h awg_adapter \<Rightarrow> int \<Rightarrow> int \<Rightarrow> ('h, shown_config) service_op" where
  "get_awg_client_config e lib st ad actor kid =
     op_bind (on_db (get_typed_key_for_manage AWG actor kid)) (\<lambda>k.
     op_bind (active_only k) (\<lambda>_.
     op_bind (ensure_client_payload_valid e lib actor k) (\<lambda>_.
     op_bind (awg_audit e (Some actor) ''awg_config_shown'' kid) (\<lambda>_.
     on_host_value (format_config lib st ad k actor)))))"

definition get_awg_client_config_plain ::
  "env \<Rightarrow> library \<Rightarrow> awg_settings \<Rightarrow> 'h awg_adapter \<Rightarrow> int \<Rightarrow> int \<Rightarrow> bool \<Rightarrow> ('h, string) service_op" where
  "get_awg_client_config_plain e lib st ad actor kid audit =
     op_bind (on_db (get_typed_key_for_manage AWG actor kid)) (\<lambda>k.
     op_bind (active_only k) (\<lambda>_.
     op_bind (ensure_client_payload_valid e lib actor k) (\<lambda>_.
     op_bind (if audit then awg_audit e (Some actor) ''awg_config_file_shown'' kid else op_return ()) (\<lambda>_.
     on_host_value (client_config lib st ad k)))))"

definition owned_active_awg_key :: "env \<Rightarrow> library \<Rightarrow> int \<Rightarrow> int \<Rightarrow> ('h, vpn_key) service_op" where
  "owned_active_awg_key e lib owner kid =
     op_bind (on_db (get_key kid)) (\<lambda>k.
     op_bind (op_guard (vk_key_type k = AWG) (InvalidOperation ''err_not_awg_key'')) (\<lambda>_.
     op_bind (op_guard (vk_owner_user_id k = owner) (AccessDenied ''err_foreign_key_view'')) (\<lambda>_.
     op_bind (active_only k) (\<lambda>_.
     op_bind (ensure_client_payload_valid e lib owner k) (\<lambda>_. op_return k)))))"

definition get_awg_client_config_for_owner ::
  "env \<Rightarrow> library \<Rightarrow> awg_settings \<Rightarrow> 'h awg_adapter \<Rightarrow> int \<Rightarrow> int \<Rightarrow> ('h, string) service_op" where
  "get_awg_client_config_for_owner e lib st ad owner kid =
     op_bind (owned_active_awg_key e lib owner kid) (\<lambda>k. on_host_value (client_config lib st ad k))"

definition get_awg_formatted_config_for_owner ::
  "env \<Rightarrow> library \<Rightarrow> awg_settings \<Rightarrow> 'h awg_adapter \<Rightarrow> int \<Rightarrow> int \<Rightarrow> ('h, shown_config) service_op" where
  "get_awg_formatted_config_for_owner e lib st ad owner kid =
     op_bind (owned_active_awg_key e lib owner kid) (\<lambda>k. on_host_value (format_config lib st ad k owner))"

definition list_user_awg_keys :: "int \<Rightarrow> int option \<Rightarrow> int \<Rightarrow> int \<Rightarrow> ('h, vpn_key list) service_op" where
  "list_user_awg_keys actor owner limit offset = on_db (list_user_typed_keys AWG actor owner limit offset)"

definition update_awg_note :: "env \<Rightarrow> int \<Rightarrow> int \<Rightarrow> string option \<Rightarrow> ('h, vpn_key) service_op" where
  "update_awg_note e actor kid note =
     op_bind (on_db (get_typed_key_for_manage AWG actor kid)) (\<lambda>k.
     op_bind (op_guard (vk_owner_user_id k = actor) (AccessDenied ''err_note_own_only'')) (\<lambda>_.
     op_bind (pure_sum (normalize_note note)) (\<lambda>clean_note.
     op_bind (on_db (key_update_note (vk_id k) clean_note (ev_now e))) (\<lambda>_.
     op_bind (awg_audit e (Some actor) ''awg_note_updated'' kid) (\<lambda>_.
     on_db (get_key kid))))))"

definition reconcile_key_status ::
  "env \<Rightarrow> library \<Rightarrow> 'h awg_adapter \<Rightarrow> int \<Rightarrow> int \<Rightarrow> ('h, vpn_key) service_op" where
  "reconcile_key_status e lib ad actor kid =
     op_bind (on_db (require_superadmin actor)) (\<lambda>_.
     op_bind require_mutation_allowed (\<lambda>_.
     op_bind (on_db (get_key kid)) (\<lambda>k.
     op_bind (op_guard (vk_key_type k = AWG) (InvalidOperation ''err_not_awg_key'')) (\<lambda>_.
     op_bind (if stored_awg_public_key lib k = [] then op_return None
              else on_host_value (\<lambda>h. backend (ad_find_peer ad (Some (stored_awg_public_key lib k)) None h))) (\<lambda>peer.
     op_bind (if peer \<noteq> None \<and> vk_status k \<in> {KeyPendingApply, KeyApplyFailed}
              then on_db (mark_active kid (ev_now e) None None)
              else if peer = None \<and> vk_status k = KeyPendingApply
              then on_db (set_status kid KeyApplyFailed (ev_now e) None) else op_return ()) (\<lambda>_.
     op_bind (on_db (audit_write e (Some actor) ''awg_key_reconciled'' EntityVpnKey (Some kid) 0)) (\<lambda>_.
     on_db (get_key kid))))))))"

end
