(* ===== verification/Awg_Lifecycle.thy ===== *)
theory Awg_Lifecycle
  imports Awg_Service
begin

text \<open>
  The life of an AmneziaWG key over the tunnel of \<open>Awg_Peers\<close>: what a creation, a revocation and a
  deletion leave in the database and on the host, in every outcome. The proofs use the contract
  \<open>peer_backend\<close> of the adapter only.
\<close>

section \<open>The adapter on the tunnel\<close>

definition config_or :: "(string \<Rightarrow> awg_error + 'a) \<Rightarrow> 'r tunnel \<Rightarrow> awg_error + 'a" where
  "config_or f h = (case tn_config h of None \<Rightarrow> Inl (AwgConfigError ''no config'') | Some t \<Rightarrow> f t)"

definition client_interface_options :: "'r tunnel \<Rightarrow> awg_error + options" where
  "client_interface_options h = (case tn_config h of None \<Rightarrow> Inr []
     | Some t \<Rightarrow> (case read_server_config t of Inl e \<Rightarrow> Inl e | Inr sc \<Rightarrow> Inr (sv_interface_options sc)))"

definition list_runtime_peers :: "'r awg_tool \<Rightarrow> ('r \<Rightarrow> string) \<Rightarrow> 'r tunnel \<Rightarrow> awg_error + options list" where
  "list_runtime_peers tool output h =
     (if tl_active tool (tn_runtime h) then Inr (parse_runtime_peers (output (tn_runtime h)))
      else Inl (AwgApplyError ''runtime peers''))"

definition sync_runtime_from_config :: "'r awg_tool \<Rightarrow> ('r, unit) tunnel_op" where
  "sync_runtime_from_config tool =
     op_bind (ensure_interface_active tool) (\<lambda>_.
     op_bind read_text (\<lambda>t.
     op_bind (validate_candidate_config tool t) (\<lambda>_. sync_from_file tool)))"

definition tunnel_adapter :: "library \<Rightarrow> 'r awg_tool \<Rightarrow> awg_io \<Rightarrow> ('r \<Rightarrow> string) \<Rightarrow> 'r tunnel awg_adapter" where
  "tunnel_adapter lib tool io output =
     \<lparr>ad_read_server_config = config_or read_server_config,
      ad_client_interface_options = client_interface_options,
      ad_peer_allowed_ips = config_or list_peer_allowed_ips,
      ad_find_peer = (\<lambda>pk ip. config_or (\<lambda>t. find_peer (lb_v6 lib) (lb_in6 lib) t pk ip)),
      ad_managed_public_key = (\<lambda>kid. config_or (\<lambda>t. Inr (find_managed_peer_public_key t kid))),
      ad_config_peers = config_or list_config_peers,
      ad_runtime_peers = list_runtime_peers tool output,
      ad_verify_runtime_peer = (\<lambda>pk h. verify_runtime_peer tool h pk),
      ad_add_peer = add_peer (lb_v6 lib) (lb_in6 lib) tool io,
      ad_remove_peer = remove_peer (lb_v6 lib) (lb_in6 lib) tool io,
      ad_sync_runtime = sync_runtime_from_config tool\<rparr>"

section \<open>The service on a backend that keeps the contract\<close>

text \<open>Of the public key the removal went by, the stored one if there is one, no trace is left.\<close>

definition peer_gone :: "('h \<Rightarrow> string \<Rightarrow> bool) \<Rightarrow> ('h \<Rightarrow> string \<Rightarrow> bool) \<Rightarrow> library \<Rightarrow> vpn_key \<Rightarrow> 'h \<Rightarrow> bool" where
  "peer_gone live listed lib k h \<longleftrightarrow> (\<exists>pk. pk \<noteq> [] \<and> \<not> live h pk \<and> \<not> listed h pk
     \<and> (stored_awg_public_key lib k \<noteq> [] \<longrightarrow> pk = stored_awg_public_key lib k))"

locale awg_host = peer_backend "ad_add_peer ad" "ad_remove_peer ad" owned listed live
  for ad :: "'h awg_adapter" and owned :: "'h \<Rightarrow> int \<Rightarrow> bool" and listed live :: "'h \<Rightarrow> string \<Rightarrow> bool"
begin

lemma remove_access_ok:
  assumes "remove_awg_access lib ad k s = (Inr x, s')"
  shows "sv_db s' = sv_db s" "\<exists>pk. pk \<noteq> [] \<and> \<not> live (sv_host s') pk \<and> \<not> listed (sv_host s') pk
    \<and> (stored_awg_public_key lib k \<noteq> [] \<longrightarrow> pk = stored_awg_public_key lib k)"
proof -
  from assms obtain pk h where "ad_remove_peer ad (vk_id k) (Some pk) (sv_host s) = (Inr x, h)"
    "s' = s\<lparr>sv_host := h\<rparr>" "pk \<noteq> []" "stored_awg_public_key lib k \<noteq> [] \<longrightarrow> pk = stored_awg_public_key lib k"
    by (auto simp: remove_awg_access_def removal_public_key_def service_iffs on_host_value_def split: if_splits)
  moreover from this have "\<not> live h pk \<and> \<not> listed h pk" using remove_gone by simp
  ultimately show "sv_db s' = sv_db s" "\<exists>pk. pk \<noteq> [] \<and> \<not> live (sv_host s') pk \<and> \<not> listed (sv_host s') pk
    \<and> (stored_awg_public_key lib k \<noteq> [] \<longrightarrow> pk = stored_awg_public_key lib k)" by auto
qed

lemma remove_access_db: "remove_awg_access lib ad k s = (r, s') \<Longrightarrow> sv_db s' = sv_db s"
  by (cases r) (auto simp: remove_awg_access_def removal_public_key_def service_iffs on_host_value_def split: if_splits)

lemma pending_then_remove_run:
  assumes ok: "keys_ok (sv_db s)" "key_get_by_id kid (sv_db s) = Some k" "vk_status k \<in> set reserved_statuses"
    and on_failure: "\<And>s1. \<exists>w. on_failure s1 = (Inr (), s1\<lparr>sv_db := w\<rparr>) \<and> db_vpn_keys w = db_vpn_keys (sv_db s1)"
    and run: "pending_then_remove e lib ad k on_failure s = (r, s')"
  shows "(r = Inr () \<and> keys_ok (sv_db s') \<and> key_get_by_id kid (sv_db s') = Some (with_status KeyPendingRevoke (ev_now e) k)
        \<and> peer_gone live listed lib k (sv_host s'))
    \<or> ((\<exists>err. r = Inl err) \<and> key_get_by_id kid (sv_db s') = Some (with_status (vk_status k) (ev_now e) k))"
    (is "?done \<or> ?restored")
proof -
  let ?pending = "with_status KeyPendingRevoke (ev_now e)"
  let ?w = "put_row kid ?pending (sv_db s)"
  have kid: "vk_id k = kid" using key_get_Some [OF ok(2)] by simp
  note pending = set_status_reserved [OF ok(1,2) disjI1 [OF ok(3)], of KeyPendingRevoke "ev_now e"]
  have row: "key_get_by_id kid ?w = Some (?pending k)" by (simp add: put_row_get ok(2))
  then have "vk_status (?pending k) \<in> set reserved_statuses \<or> vk_client_ip (?pending k) = None"
    by (simp add: reserved_statuses_def)
  note restored = set_status_reserved [OF pending(2) row this, of "vk_status k" "ev_now e"]
  let ?w' = "put_row kid (with_status (vk_status k) (ev_now e)) ?w"
  have again: "key_get_by_id kid ?w' = Some (with_status (vk_status k) (ev_now e) k)"
    by (simp add: put_row_get row) (simp add: with_status_def)
  obtain r1 s1 where remove: "remove_awg_access lib ad k (s\<lparr>sv_db := ?w\<rparr>) = (r1, s1)" by force
  then have db: "sv_db s1 = ?w" using remove_access_db by fastforce
  show ?thesis
  proof (cases r1)
    case (Inr u)
    with remove have "peer_gone live listed lib k (sv_host s1)" using remove_access_ok(2) by (auto simp: peer_gone_def)
    moreover have "r = Inr () \<and> s' = s1"
      using run remove Inr by (simp add: pending_then_remove_def op_bind_def on_db_def kid pending(1) op_try_def)
    ultimately show ?thesis using pending(2) row db by simp
  next
    case (Inl err)
    obtain w where w: "on_failure (s1\<lparr>sv_db := ?w'\<rparr>) = (Inr (), s1\<lparr>sv_db := w\<rparr>)" "db_vpn_keys w = db_vpn_keys ?w'"
      using on_failure [of "s1\<lparr>sv_db := ?w'\<rparr>"] by auto
    have "r = Inl err \<and> s' = s1\<lparr>sv_db := w\<rparr>"
      using run remove Inl restored(1) w(1)
      by (simp add: pending_then_remove_def op_bind_def on_db_def kid pending(1) op_try_def db op_raise_def)
    then show ?thesis using again same_keys(1) [OF w(2)] by simp
  qed
qed

text \<open>What a revocation of a key that is not over yet leaves.\<close>

definition revoked_outcome ::
  "env \<Rightarrow> library \<Rightarrow> int \<Rightarrow> vpn_key \<Rightarrow> service_error + vpn_key \<Rightarrow> 'h service_state \<Rightarrow> bool" where
  "revoked_outcome e lib who k r s' \<longleftrightarrow>
     (case r of
        Inr k' \<Rightarrow> k' = revoked_row who (ev_now e) (with_status KeyPendingRevoke (ev_now e) k)
          \<and> key_get_by_id (vk_id k) (sv_db s') = Some k' \<and> keys_ok (sv_db s') \<and> peer_gone live listed lib k (sv_host s')
      | Inl _ \<Rightarrow> \<exists>k'. key_get_by_id (vk_id k) (sv_db s') = Some k' \<and> vk_status k' = vk_status k)"

lemma finish_revocation:
  assumes "keys_ok (sv_db s)" "key_get_by_id kid (sv_db s) = Some k" "\<not> terminal k"
  shows "op_bind (on_db (mark_revoked kid who (ev_now e))) (\<lambda>_.
     op_bind (awg_audit e actor action kid) (\<lambda>_. on_db (get_key kid))) s = (r, s')
   \<Longrightarrow> r = Inr (revoked_row who (ev_now e) k) \<and> key_get_by_id kid (sv_db s') = Some (revoked_row who (ev_now e) k)
     \<and> keys_ok (sv_db s') \<and> sv_host s' = sv_host s"
proof -
  obtain w where w: "mark_revoked kid who (ev_now e) (sv_db s) = (Inr (), w)" "keys_ok w"
    "key_get_by_id kid w = Some (revoked_row who (ev_now e) k)"
    using mark_revoked_effect [OF assms(1,2), of who "ev_now e"] assms(3) by auto
  assume "op_bind (on_db (mark_revoked kid who (ev_now e))) (\<lambda>_.
     op_bind (awg_audit e actor action kid) (\<lambda>_. on_db (get_key kid))) s = (r, s')"
  with w show ?thesis
    by (auto simp: op_bind_def on_db_def awg_audit_def audit_best_effort_logged get_key_def op_get_def op_return_def)
qed

lemma removal_then_revoked:
  assumes ok: "keys_ok (sv_db s)" "key_get_by_id kid (sv_db s) = Some k" "\<not> terminal k"
    and on_failure: "\<And>s1. \<exists>w. on_failure s1 = (Inr (), s1\<lparr>sv_db := w\<rparr>) \<and> db_vpn_keys w = db_vpn_keys (sv_db s1)"
    and run: "op_bind (op_guard (vk_status k \<in> set awg_access_may_exist) err) (\<lambda>_.
      op_bind (pending_then_remove e lib ad k on_failure) (\<lambda>_.
      op_bind (on_db (mark_revoked kid who (ev_now e))) (\<lambda>_.
      op_bind (awg_audit e actor action kid) (\<lambda>_. on_db (get_key kid))))) s = (r, s')"
  shows "revoked_outcome e lib who k r s'"
proof (cases "vk_status k \<in> set awg_access_may_exist")
  case False
  with run ok key_get_Some [OF ok(2)] show ?thesis by (auto simp: op_bind_def op_guard_def revoked_outcome_def)
next
  case True
  then have reserved: "vk_status k \<in> set reserved_statuses" by (auto simp: awg_access_may_exist_def reserved_statuses_def)
  obtain r1 s1 where removed: "pending_then_remove e lib ad k on_failure s = (r1, s1)" by force
  have kid: "vk_id k = kid" using key_get_Some [OF ok(2)] by simp
  from pending_then_remove_run [OF ok(1,2) reserved on_failure removed] show ?thesis
  proof (elim disjE conjE exE)
    assume r1: "r1 = Inr ()" and s1: "keys_ok (sv_db s1)"
      "key_get_by_id kid (sv_db s1) = Some (with_status KeyPendingRevoke (ev_now e) k)" and gone: "peer_gone live listed lib k (sv_host s1)"
    have "\<not> terminal (with_status KeyPendingRevoke (ev_now e) k)" by (simp add: terminal_def)
    moreover have "op_bind (on_db (mark_revoked kid who (ev_now e))) (\<lambda>_.
        op_bind (awg_audit e actor action kid) (\<lambda>_. on_db (get_key kid))) s1 = (r, s')"
      using run removed r1 True by (simp add: op_bind_def [of "op_guard b x" for b x] op_bind_def [of "pending_then_remove a b c d f" for a b c d f] op_guard_def)
    ultimately have "r = Inr (revoked_row who (ev_now e) (with_status KeyPendingRevoke (ev_now e) k))"
      "key_get_by_id kid (sv_db s') = Some (revoked_row who (ev_now e) (with_status KeyPendingRevoke (ev_now e) k))"
      "keys_ok (sv_db s')" "sv_host s' = sv_host s1"
      using finish_revocation [OF s1] by blast+
    with gone kid show ?thesis by (simp add: revoked_outcome_def)
  next
    fix x assume "r1 = Inl x" "key_get_by_id kid (sv_db s1) = Some (with_status (vk_status k) (ev_now e) k)"
    with run removed True kid show ?thesis by (auto simp: op_bind_def op_guard_def revoked_outcome_def)
  qed
qed

lemma audit_is_log: "\<exists>w. awg_audit e actor action kid s = (Inr (), s\<lparr>sv_db := w\<rparr>) \<and> db_vpn_keys w = db_vpn_keys (sv_db s)"
  by (rule exI [of _ "logged e actor action EntityVpnKey (Some kid) 0 (sv_db s)"])
    (simp add: awg_audit_def on_db_def audit_best_effort_logged)

lemma no_op: "\<exists>w. op_return () s = (Inr (), s\<lparr>sv_db := w\<rparr>) \<and> db_vpn_keys w = db_vpn_keys (sv_db s)"
  by (rule exI [of _ "sv_db s"]) (simp add: op_return_def)

lemma unchanged_outcome: "key_get_by_id kid (sv_db s) = Some k \<Longrightarrow> revoked_outcome e lib who k (Inl err) s"
  using key_get_Some [of kid "sv_db s" k] by (simp add: revoked_outcome_def)

lemma revoke_run:
  assumes ok: "keys_ok (sv_db s)" "key_get_by_id kid (sv_db s) = Some k" "\<not> terminal k"
    and run: "revoke_awg_key e lib ad actor kid s = (r, s')"
  shows "revoked_outcome e lib actor k r s'"
proof -
  from run show ?thesis unfolding revoke_awg_key_def
  proof (elim through_gates [where Q = "revoked_outcome e lib actor k"], simp_all add: unchanged_outcome [OF ok(2)])
    fix k1 assume key: "on_db (get_typed_key_for_manage AWG actor kid) s = (Inr k1, s)"
      and rest: "(if vk_status k1 = KeyRevoked \<or> vk_status k1 = KeyDeleted then op_return k1 else
       op_bind (op_guard (vk_status k1 \<in> set awg_access_may_exist) (InvalidOperation ''err_revoke_active_awg_only'')) (\<lambda>_.
       op_bind (pending_then_remove e lib ad k1 (awg_audit e (Some actor) ''awg_revoke_failed'' kid)) (\<lambda>_.
       op_bind (on_db (mark_revoked kid actor (ev_now e))) (\<lambda>_.
       op_bind (awg_audit e (Some actor) ''awg_key_revoked'' kid) (\<lambda>_. on_db (get_key kid)))))) s = (r, s')"
    from key have "k1 = k" using get_typed_key_ok(2) ok(2) by (fastforce simp: on_db_Inr)
    with rest ok(3) show ?thesis
      by (intro removal_then_revoked [OF ok audit_is_log]) (simp add: terminal_def)
  qed
qed

lemma revoke_system_run:
  assumes ok: "keys_ok (sv_db s)" "key_get_by_id kid (sv_db s) = Some k" "\<not> terminal k"
    and run: "revoke_awg_key_system e lib ad kid actor action s = (r, s')"
  shows "revoked_outcome e lib (case actor of Some a \<Rightarrow> a | None \<Rightarrow> vk_created_by k) k r s'"
  using run unfolding revoke_awg_key_system_def
proof (elim through_gates [where Q = "revoked_outcome e lib (case actor of Some a \<Rightarrow> a | None \<Rightarrow> vk_created_by k) k"],
    simp_all add: unchanged_outcome [OF ok(2)])
  fix k1 x assume key: "on_db (get_key kid) s = (Inr k1, s)"
    and rest: "(if vk_status k1 = KeyRevoked \<or> vk_status k1 = KeyDeleted then op_return k1 else
       op_bind (op_guard (vk_status k1 \<in> set awg_access_may_exist) (InvalidOperation ''err_revoke_active_awg_only'')) (\<lambda>_.
       op_bind (pending_then_remove e lib ad k1 (op_return ())) (\<lambda>_.
       op_bind (on_db (mark_revoked kid (case actor of None \<Rightarrow> vk_created_by k1 | Some a \<Rightarrow> a) (ev_now e))) (\<lambda>_.
       op_bind (awg_audit e actor action kid) (\<lambda>_. on_db (get_key kid)))))) s = (r, s')"
  from key have same: "k1 = k" using get_key_run(1) ok(2) by (fastforce simp: on_db_Inr)
  from rest [unfolded same] ok(3)
  show "revoked_outcome e lib (case actor of Some a \<Rightarrow> a | None \<Rightarrow> vk_created_by k) k r s'"
    by (intro removal_then_revoked [OF ok no_op]) (simp add: terminal_def)
qed

text \<open>What a deletion leaves.\<close>

lemma delete_run:
  assumes ok: "keys_ok (sv_db s)" "key_get_by_id kid (sv_db s) = Some k"
    and reserved: "vk_status k \<in> set reserved_statuses \<or> vk_client_ip k = None"
    and run: "delete_awg_key e lib ad actor kid s = (r, s')"
  shows "case r of
      Inr _ \<Rightarrow> key_get_by_id kid (sv_db s') = None
        \<and> (vk_status k \<in> set awg_access_may_exist \<longrightarrow> peer_gone live listed lib k (sv_host s'))
        \<and> db_traffic_archive (sv_db s') = db_traffic_archive (sv_db s) @ archive_of kid (ev_now e) (sv_db s)
    | Inl _ \<Rightarrow> s' = s \<or> key_get_by_id kid (sv_db s') = Some (with_status KeyDeleteFailed (ev_now e) k)"
    (is "?goal r s'")
  using run unfolding delete_awg_key_def
proof (elim through_gates [where Q = ?goal], simp_all)
  fix k1 assume key: "on_db (get_typed_key_for_manage AWG actor kid) s = (Inr k1, s)"
  then have same: "k1 = k" and typed: "vk_key_type k = AWG"
    using get_typed_key_ok(2,3) ok(2) by (fastforce simp: on_db_Inr)+
  assume rest: "op_bind (on_db (set_status kid KeyPendingDelete (ev_now e) None)) (\<lambda>_. op_bind
       (op_try (if vk_status k1 \<in> set awg_access_may_exist then remove_awg_access lib ad k1 else op_return ())
         (\<lambda>err. op_bind (on_db (set_status kid KeyDeleteFailed (ev_now e) None)) (\<lambda>_.
            op_bind (awg_audit e (Some actor) ''awg_delete_failed'' kid) (\<lambda>_. op_raise err))))
       (\<lambda>_. op_bind (on_db (hard_delete_with_stats kid (ev_now e))) (\<lambda>_. awg_audit e (Some actor) ''awg_key_hard_deleted'' kid))) s
      = (r, s')"
  let ?w = "put_row kid (with_status KeyPendingDelete (ev_now e)) (sv_db s)"
  note pending = set_status_reserved [OF ok reserved, of KeyPendingDelete "ev_now e"]
  have row: "key_get_by_id kid ?w = Some (with_status KeyPendingDelete (ev_now e) k)" by (simp add: put_row_get ok(2))
  have "vk_status (with_status KeyPendingDelete (ev_now e) k) \<in> set reserved_statuses \<or> vk_client_ip k = None"
    by (simp add: reserved_statuses_def)
  note failed = set_status_reserved [OF pending(2) row, of KeyDeleteFailed "ev_now e"]
  let ?w' = "put_row kid (with_status KeyDeleteFailed (ev_now e)) ?w"
  have "key_get_by_id kid ?w' = Some (with_status KeyDeleteFailed (ev_now e) (with_status KeyPendingDelete (ev_now e) k))"
    by (simp add: put_row_get row)
  then have failed_row: "key_get_by_id kid ?w' = Some (with_status KeyDeleteFailed (ev_now e) k)" by (simp add: with_status_def)
  obtain r1 s1 where remove: "(if vk_status k \<in> set awg_access_may_exist then remove_awg_access lib ad k else op_return ())
      (s\<lparr>sv_db := ?w\<rparr>) = (r1, s1)" by force
  then have db: "sv_db s1 = ?w" by (fastforce simp: op_return_def dest: remove_access_db split: if_splits)
  show "?goal r s'"
  proof (cases r1)
    case (Inl err)
    have "r = Inl err \<and> sv_db s' = logged e (Some actor) ''awg_delete_failed'' EntityVpnKey (Some kid) 0 ?w'"
      using rest [unfolded same] remove Inl failed(1)
      by (auto simp: op_bind_def on_db_def pending(1) op_try_def db reserved_statuses_def awg_audit_def
          audit_best_effort_logged op_raise_def)
    then show ?thesis using failed_row by simp
  next
    case (Inr u)
    have gone: "vk_status k \<in> set awg_access_may_exist \<longrightarrow> peer_gone live listed lib k (sv_host s1)"
      using remove Inr remove_access_ok(2) by (auto simp: peer_gone_def)
    obtain w where w: "hard_delete_with_stats kid (ev_now e) ?w = (Inr (), w)"
      by (simp add: hard_delete_run)
    have "r = Inr () \<and> sv_db s' = logged e (Some actor) ''awg_key_hard_deleted'' EntityVpnKey (Some kid) 0 w
        \<and> sv_host s' = sv_host s1"
      using rest [unfolded same] remove Inr w
      by (auto simp: op_bind_def on_db_def pending(1) op_try_def db awg_audit_def audit_best_effort_logged)
    then show ?thesis using hard_delete_gone(2,3) [OF w] gone by simp
  qed
qed

end

end
