(* ===== verification/Awg_Creation.thy ===== *)
theory Awg_Creation
  imports Awg_Lifecycle
begin

text \<open>
  The creation of an AmneziaWG key, followed through its steps: nothing is written before the row is
  inserted, the row becomes active only when the peer was applied, and what a later failure leaves
  behind is either undone or recorded.
\<close>

section \<open>Before anything is written\<close>

lemma gate_on_host_value [simp]: "gate (on_host_value f)"
  by (simp add: gate_def on_host_value_def)

lemma gate_unique_keypair [simp]: "gate (unique_keypair gen is)"
proof (induction "is")
  case (Cons i "is")
  then show ?case by (auto intro!: gate_bindI gate_on_db simp: split_beta)
qed simp

lemma gate_unique_label [simp]: "gate (unique_label gen is)"
proof (induction "is")
  case (Cons i "is")
  then show ?case by (auto intro!: gate_bindI gate_on_db)
qed simp

lemma gate_preparations [simp]:
  "gate (allocate_ip lib al ad)" "gate (generate_unique_keypair ci)" "gate (generate_unique_label ci)"
  "gate (create_gates lib st ci note)"
  by (auto simp: allocate_ip_def generate_unique_keypair_def generate_unique_label_def create_gates_def
      intro!: gate_bindI gate_on_db)

lemma gate_preshared [simp]:
  "gate (if b then op_bind (pure_sum (backend x)) (\<lambda>k. op_return (Some k)) else op_return None)"
  by (auto intro!: gate_bindI)

text \<open>What was prepared: the row just inserted, with an address the allocator called free.\<close>

definition prepared :: "env \<Rightarrow> library \<Rightarrow> ip_allocator \<Rightarrow> 'h awg_adapter \<Rightarrow> int \<Rightarrow> telegram_user_profile \<Rightarrow> string option
    \<Rightarrow> string option \<Rightarrow> 'h service_state \<Rightarrow> new_access \<Rightarrow> bool" where
  "prepared e lib al ad actor owner note expires_at s na \<longleftrightarrow>
     na_key na = new_key_row (awg_draft owner note (na_payload na) (na_public_payload na) actor (na_label na)
        (na_public_key na) (na_client_ip na) expires_at) (ev_now e) (next_key_id (sv_db s))
     \<and> next_free_ip (lb_v6 lib) al (get_occupied_awg_ips (sv_db s))
         (case ad_peer_allowed_ips ad (sv_host s) of Inl _ \<Rightarrow> None | Inr ips \<Rightarrow> Some ips) = Inr (na_client_ip na)"

lemma allocate_ip_ok:
  "allocate_ip lib al ad s = (Inr ip, s') \<Longrightarrow> next_free_ip (lb_v6 lib) al (get_occupied_awg_ips (sv_db s))
         (case ad_peer_allowed_ips ad (sv_host s) of Inl _ \<Rightarrow> None | Inr ips \<Rightarrow> Some ips) = Inr ip"
  by (auto simp: allocate_ip_def op_bind_def on_db_def op_get_def on_host_value_def pure_sum_def split: sum.splits)

lemma prepare_run:
  assumes "prepare_awg_key e lib st al ad ci actor owner note expires_at mtu s = (r, s')" "keys_ok (sv_db s)"
  shows "((\<exists>err. r = Inl err) \<and> s' = s)
    \<or> (\<exists>na. r = Inr na \<and> prepared e lib al ad actor owner note expires_at s na
        \<and> s' = s\<lparr>sv_db := add_row (na_key na) (sv_db s)\<rparr> \<and> keys_ok (sv_db s'))"
proof -
  define P where "P = (\<lambda>(r :: service_error + new_access) s'. ((\<exists>err. r = Inl err) \<and> s' = s)
    \<or> (\<exists>na. r = Inr na \<and> prepared e lib al ad actor owner note expires_at s na
        \<and> s' = s\<lparr>sv_db := add_row (na_key na) (sv_db s)\<rparr> \<and> keys_ok (sv_db s')))"
  have stopped: "P (Inl err) s" for err by (simp add: P_def)
  note through = through_gate [where Q = P, OF _ _ stopped]
  have inserted: "P r s'" if "insert_awg_key e actor owner note expires_at p q label public_key psk ip s = (r, s')"
    "next_free_ip (lb_v6 lib) al (get_occupied_awg_ips (sv_db s))
         (case ad_peer_allowed_ips ad (sv_host s) of Inl _ \<Rightarrow> None | Inr ips \<Rightarrow> Some ips) = Inr ip"
    for r s' p q label public_key psk ip
  proof -
    let ?d = "awg_draft owner note p q actor label public_key ip expires_at"
    obtain r1 w where run: "create_pending ?d (ev_now e) (sv_db s) = (r1, w)" by force
    have "kd_relay ?d = None" by (simp add: awg_draft_def)
    from create_pending_run [OF run this] show ?thesis
    proof (elim disjE exE conjE)
      fix k assume k: "r1 = Inr k" "k = new_key_row ?d (ev_now e) (next_key_id (sv_db s))" "w = add_row k (sv_db s)"
      let ?na = "\<lparr>na_key = k, na_public_key = public_key, na_preshared = psk, na_client_ip = ip,
                   na_label = label, na_payload = p, na_public_payload = q\<rparr>"
      have "keys_ok w" using keys_ok_add_row [OF assms(2)] run k(1) by blast
      moreover have "r = Inr ?na \<and> s' = s\<lparr>sv_db := w\<rparr>"
        using that(1) run k(1) by (simp add: insert_awg_key_def op_bind_def on_db_def op_return_def)
      moreover have "prepared e lib al ad actor owner note expires_at s ?na"
        using k(2) that(2) by (simp add: prepared_def)
      ultimately show ?thesis unfolding P_def using k(3) by auto
    next
      fix err assume "r1 = Inl err" "w = sv_db s"
      with that(1) run show ?thesis by (auto simp: insert_awg_key_def op_bind_def on_db_def P_def)
    qed
  qed
  from assms(1) have "P r s'" unfolding prepare_awg_key_def
  proof (elim through [OF _ gate_on_host_value] through [OF _ gate_pure_sum] through [OF _ gate_preparations(1)]
      through [OF _ gate_preparations(2)] through [OF _ gate_preparations(3)] through [OF _ gate_preshared], goal_cases)
    case (1 sc _ _ port ip pair)
    then show ?case
      by (cases pair) (auto elim!: through [OF _ gate_preparations(3)] through [OF _ gate_preshared]
        dest!: allocate_ip_ok intro: inserted)
  qed
  then show ?thesis by (simp add: P_def)
qed

section \<open>Applying and activating\<close>

text \<open>
  What a creation leaves of its row: active only with the peer applied, and an error only when the
  configuration could not be shown; otherwise an error and a row marked as failed, unless that mark
  could not be written or the applied peer could not be removed, which degrades the backend.
\<close>

context awg_host
begin

definition applied :: "'h \<Rightarrow> 'h \<Rightarrow> int \<Rightarrow> string \<Rightarrow> bool" where
  "applied h h' kid pk \<longleftrightarrow> owned h' kid \<and> (owned h kid \<or> live h' pk)"

lemma apply_run:
  assumes ok: "keys_ok (sv_db s)" "key_get_by_id (vk_id (na_key na)) (sv_db s) = Some k" "vk_status k = KeyPendingApply"
    and run: "apply_awg_key e ad actor owner allow na s = (r, s')"
  shows "sv_uninstalled s' = sv_uninstalled s \<and> ((r = Inr () \<and> sv_db s' = sv_db s \<and> applied (sv_host s) (sv_host s') (vk_id (na_key na)) (na_public_key na))
    \<or> ((\<exists>err. r = Inl err) \<and> db_vpn_keys (sv_db s')
        = db_vpn_keys (put_row (vk_id (na_key na)) (with_status KeyApplyFailed (ev_now e)) (sv_db s))))"
proof -
  let ?body = "op_bind (on_db (ensure_can_create actor owner allow)) (\<lambda>_.
        on_host (ad_add_peer ad (vk_id (na_key na)) owner (na_public_key na) (na_preshared na) (na_client_ip na)
          (Some (na_label na))))"
  obtain r1 s1 where body: "?body s = (r1, s1)" by force
  note failed = set_status_reserved [OF ok(1,2), of KeyApplyFailed "ev_now e"]
  have "sv_db s1 = sv_db s \<and> sv_uninstalled s1 = sv_uninstalled s"
    using body by (cases r1) (auto simp: service_iffs dest!: ensure_can_create_keeps)
  then have db: "sv_db s1 = sv_db s" "sv_uninstalled s1 = sv_uninstalled s" by auto
  show ?thesis
  proof (cases r1)
    case (Inr u)
    from body Inr obtain h where "ad_add_peer ad (vk_id (na_key na)) owner (na_public_key na) (na_preshared na) (na_client_ip na)
        (Some (na_label na)) (sv_host s) = (Inr (), h)" "s1 = s\<lparr>sv_host := h\<rparr>"
      by (auto simp: service_iffs dest!: ensure_can_create_keeps)
    moreover from this have "owned h (vk_id (na_key na))"
      "\<not> owned (sv_host s) (vk_id (na_key na)) \<Longrightarrow> live h (na_public_key na)"
      by (blast intro: add_owned, blast intro: add_live)
    ultimately have "applied (sv_host s) (sv_host s1) (vk_id (na_key na)) (na_public_key na)"
      by (auto simp: applied_def)
    then show ?thesis using run body Inr db by (simp add: apply_awg_key_def op_try_def)
  next
    case (Inl err)
    let ?w = "put_row (vk_id (na_key na)) (with_status KeyApplyFailed (ev_now e)) (sv_db s)"
    have handled: "op_bind (on_db (set_status (vk_id (na_key na)) KeyApplyFailed (ev_now e) None)) (\<lambda>_.
        op_bind (awg_audit e (Some actor) ''awg_create_failed'' (vk_id (na_key na))) (\<lambda>_. op_raise err)) s1
      = (Inl err, s1\<lparr>sv_db := logged e (Some actor) ''awg_create_failed'' EntityVpnKey (Some (vk_id (na_key na))) 0 ?w\<rparr>)"
      using failed(1) ok(3)
      by (simp add: op_bind_def on_db_def db reserved_statuses_def awg_audit_def audit_best_effort_logged op_raise_def)
    have "apply_awg_key e ad actor owner allow na s = op_bind (on_db (set_status (vk_id (na_key na)) KeyApplyFailed (ev_now e) None)) (\<lambda>_.
        op_bind (awg_audit e (Some actor) ''awg_create_failed'' (vk_id (na_key na))) (\<lambda>_. op_raise err)) s1"
      using body Inl by (simp add: apply_awg_key_def op_try_def)
    note this [unfolded handled run]
    then show ?thesis using db(2) by auto
  qed
qed

lemma compensate_run:
  assumes ok: "keys_ok (sv_db s)" "key_get_by_id kid (sv_db s) = Some k" "vk_status k = KeyPendingApply" "\<not> sv_uninstalled s"
    and run: "compensate_failed_create_after_apply e ad ci actor kid pk s = (r, s')"
  shows "r = Inr () \<and>
    (db_vpn_keys (sv_db s') = db_vpn_keys (sv_db s) \<and> sv_degraded s' \<noteq> None
     \<or> \<not> live (sv_host s') pk \<and> \<not> listed (sv_host s') pk \<and>
       (if ci_marks_failed ci
        then db_vpn_keys (sv_db s') = db_vpn_keys (put_row kid (with_status KeyApplyFailed (ev_now e)) (sv_db s))
        else db_vpn_keys (sv_db s') = db_vpn_keys (sv_db s)))"
proof -
  obtain q h where remove: "ad_remove_peer ad kid (Some pk) (sv_host s) = (q, h)" by force
  note failed = set_status_reserved [OF ok(1,2), of KeyApplyFailed "ev_now e"]
  note unfold = compensate_failed_create_after_apply_def op_bind_def op_attempt_def on_host_def awg_audit_def on_db_def
    audit_best_effort_logged
  show ?thesis
  proof (cases q)
    case (Inl err)
    with run remove ok(4) show ?thesis by (auto simp: unfold mark_degraded_def op_modify_def)
  next
    case (Inr u)
    then have "\<not> live h pk \<and> \<not> listed h pk" using remove remove_gone by simp
    with Inr run remove failed(1) ok(3) show ?thesis
      by (auto simp: unfold if_commits_def op_try_def op_raise_def op_return_def reserved_statuses_def)
  qed
qed

lemma activate_run:
  assumes ok: "keys_ok (sv_db s)" "key_get_by_id (vk_id (na_key na)) (sv_db s) = Some k" "vk_status k = KeyPendingApply"
      "\<not> sv_uninstalled s"
    and run: "activate_awg_key e ad ci actor na s = (r, s')"
  shows "(r = Inr () \<and> sv_host s' = sv_host s \<and> sv_db s' = put_row (vk_id (na_key na))
        (activated (Some (na_payload na)) (Some (na_public_payload na)) (ev_now e)) (sv_db s))
    \<or> (\<exists>err. r = Inl err) \<and>
      (db_vpn_keys (sv_db s') = db_vpn_keys (put_row (vk_id (na_key na)) (with_status KeyApplyFailed (ev_now e)) (sv_db s))
       \<or> db_vpn_keys (sv_db s') = db_vpn_keys (sv_db s) \<and> (sv_degraded s' \<noteq> None \<or> \<not> ci_marks_failed ci))"
proof (cases "ci_activates ci")
  case True
  have "vk_status k \<in> {KeyPendingApply, KeyApplyFailed}" using ok(3) by simp
  from mark_active_run(1) [OF ok(1,2) this] run True show ?thesis
    by (auto simp add: activate_awg_key_def op_try_def if_commits_def on_db_def)
next
  case False
  obtain q s1 where comp: "compensate_failed_create_after_apply e ad ci actor (vk_id (na_key na)) (na_public_key na) s = (q, s1)"
    by force
  have "\<exists>err. r = Inl err \<and> s' = s1"
    using run False comp compensate_run [OF ok comp]
    by (auto simp: activate_awg_key_def op_try_def if_commits_def op_raise_def op_bind_def)
  with compensate_run [OF ok comp] show ?thesis by (auto split: if_splits)
qed

text \<open>The three ways a created row can end up.\<close>

definition row_outcome ::
  "library \<Rightarrow> awg_settings \<Rightarrow> create_inputs \<Rightarrow> int \<Rightarrow> 'h \<Rightarrow> vpn_key \<Rightarrow> string
     \<Rightarrow> service_error + vpn_key \<times> shown_config \<Rightarrow> 'h service_state \<Rightarrow> bool" where
  "row_outcome lib st ci actor h k pk r s' \<longleftrightarrow>
     vk_status k = KeyActive \<and> applied h (sv_host s') (vk_id k) pk
        \<and> r = sum_bind (format_config lib st ad k actor (sv_host s')) (\<lambda>sh. Inr (k, sh))
     \<or> (\<exists>err. r = Inl err) \<and>
       (vk_status k = KeyApplyFailed \<or> vk_status k = KeyPendingApply \<and> (sv_degraded s' \<noteq> None \<or> \<not> ci_marks_failed ci))"

definition created_row :: "library \<Rightarrow> ip_allocator \<Rightarrow> int \<Rightarrow> 'h service_state \<Rightarrow> vpn_key \<Rightarrow> string \<Rightarrow> bool" where
  "created_row lib al owner s k pk \<longleftrightarrow> vk_key_type k = AWG \<and> vk_owner_user_id k = owner \<and> vk_public_key k = Some pk
     \<and> (\<exists>ip. vk_client_ip k = Some ip \<and> next_free_ip (lb_v6 lib) al (get_occupied_awg_ips (sv_db s))
          (case ad_peer_allowed_ips ad (sv_host s) of Inl _ \<Rightarrow> None | Inr ips \<Rightarrow> Some ips) = Inr ip)"

definition creation_outcome ::
  "library \<Rightarrow> awg_settings \<Rightarrow> ip_allocator \<Rightarrow> create_inputs \<Rightarrow> int \<Rightarrow> int \<Rightarrow> 'h service_state
     \<Rightarrow> service_error + vpn_key \<times> shown_config \<Rightarrow> 'h service_state \<Rightarrow> bool" where
  "creation_outcome lib st al ci actor owner s r s' \<longleftrightarrow>
     (\<exists>err. r = Inl err) \<and> s' = s
     \<or> (\<exists>k pk. key_get_by_id (next_key_id (sv_db s)) (sv_db s') = Some k \<and> created_row lib al owner s k pk
          \<and> (\<forall>j. j \<noteq> next_key_id (sv_db s) \<longrightarrow> key_get_by_id j (sv_db s') = key_get_by_id j (sv_db s))
          \<and> row_outcome lib st ci actor (sv_host s) k pk r s')"

lemma finish_creation:
  assumes "key_get_by_id kid (sv_db s) = Some k"
  shows "op_bind (awg_audit e actor action kid) (\<lambda>_. op_bind (on_db (get_key kid)) (\<lambda>k.
       op_bind (on_host_value (format_config lib st ad k who)) (\<lambda>shown. op_return (k, shown)))) s
     = (sum_bind (format_config lib st ad k who (sv_host s)) (\<lambda>sh. Inr (k, sh)),
        s\<lparr>sv_db := logged e actor action EntityVpnKey (Some kid) 0 (sv_db s)\<rparr>)"
  using assms by (simp add: awg_audit_def op_bind_def on_db_def audit_best_effort_logged get_key_def op_get_def op_return_def
      on_host_value_def sum_bind_def split: sum.split)

text \<open>The steps after the row is inserted.\<close>

lemma after_insert:
  assumes ok: "keys_ok (sv_db s1)" "key_get_by_id kid (sv_db s1) = Some (na_key na)" "vk_id (na_key na) = kid"
      "vk_status (na_key na) = KeyPendingApply" "\<not> sv_uninstalled s1"
    and run: "op_bind (apply_awg_key e ad actor owner allow na) (\<lambda>_.
       op_bind (activate_awg_key e ad ci actor na) (\<lambda>_.
       op_bind (awg_audit e (Some actor) ''awg_key_created'' kid) (\<lambda>_.
       op_bind (on_db (get_key kid)) (\<lambda>k.
       op_bind (on_host_value (format_config lib st ad k actor)) (\<lambda>shown. op_return (k, shown)))))) s1 = (r, s')"
  shows "\<exists>k. key_get_by_id kid (sv_db s') = Some k \<and> row_outcome lib st ci actor (sv_host s1) k (na_public_key na) r s'
    \<and> k \<in> {na_key na, with_status KeyApplyFailed (ev_now e) (na_key na),
         activated (Some (na_payload na)) (Some (na_public_payload na)) (ev_now e) (na_key na)}
    \<and> (\<forall>j. j \<noteq> kid \<longrightarrow> key_get_by_id j (sv_db s') = key_get_by_id j (sv_db s1))"
proof -
  let ?failed = "put_row kid (with_status KeyApplyFailed (ev_now e))"
  have ok2: "key_get_by_id (vk_id (na_key na)) (sv_db s1) = Some (na_key na)" using ok(2,3) by simp
  have rows: "key_get_by_id j (?failed (sv_db s1)) = (if j = kid then Some (with_status KeyApplyFailed (ev_now e) (na_key na))
      else key_get_by_id j (sv_db s1))" for j using ok(2) by (auto simp: put_row_get option.map_ident)
  obtain r1 s2 where step1: "apply_awg_key e ad actor owner allow na s1 = (r1, s2)" by force
  note facts1 = apply_run [OF ok(1) ok2 ok(4) step1, unfolded ok(3)]
  show ?thesis
  proof (cases r1)
    case (Inl err)
    then have db: "db_vpn_keys (sv_db s2) = db_vpn_keys (?failed (sv_db s1))" using facts1 by auto
    have "r = Inl err \<and> s' = s2" using run step1 Inl by (simp add: op_bind_def)
    then show ?thesis using same_keys(1) [OF db] by (auto simp: rows row_outcome_def)
  next
    case (Inr u)
    then have db: "sv_db s2 = sv_db s1" and applied: "applied (sv_host s1) (sv_host s2) kid (na_public_key na)"
      and up: "\<not> sv_uninstalled s2" using facts1 ok(5) by auto
    obtain r2 s3 where step2: "activate_awg_key e ad ci actor na s2 = (r2, s3)" by force
    have "keys_ok (sv_db s2)" "key_get_by_id (vk_id (na_key na)) (sv_db s2) = Some (na_key na)"
      using ok(1) ok2 by (simp_all add: db)
    note facts2 = activate_run [OF this ok(4) up step2, unfolded db ok(3)]
    have rest: "op_bind (activate_awg_key e ad ci actor na) (\<lambda>_.
       op_bind (awg_audit e (Some actor) ''awg_key_created'' kid) (\<lambda>_. op_bind (on_db (get_key kid)) (\<lambda>k.
       op_bind (on_host_value (format_config lib st ad k actor)) (\<lambda>shown. op_return (k, shown))))) s2 = (r, s')"
      using run step1 Inr by (simp add: op_bind_def)
    show ?thesis
    proof (cases r2)
      case (Inl err)
      have err: "r = Inl err" "s' = s3" using rest step2 Inl by (simp_all add: op_bind_def)
      have "db_vpn_keys (sv_db s3) = db_vpn_keys (?failed (sv_db s1))
          \<or> db_vpn_keys (sv_db s3) = db_vpn_keys (sv_db s1) \<and> (sv_degraded s3 \<noteq> None \<or> \<not> ci_marks_failed ci)"
        using facts2 Inl by auto
      then show ?thesis
      proof (rule disjE)
        assume db: "db_vpn_keys (sv_db s3) = db_vpn_keys (?failed (sv_db s1))"
        show ?thesis by (simp add: same_keys(1) [OF db] rows row_outcome_def err)
      next
        assume "db_vpn_keys (sv_db s3) = db_vpn_keys (sv_db s1) \<and> (sv_degraded s3 \<noteq> None \<or> \<not> ci_marks_failed ci)"
        then have db: "db_vpn_keys (sv_db s3) = db_vpn_keys (sv_db s1)"
          and noted: "sv_degraded s3 \<noteq> None \<or> \<not> ci_marks_failed ci" by auto
        show ?thesis using ok(2,4) noted by (simp add: same_keys(1) [OF db] row_outcome_def err)
      qed
    next
      case (Inr v)
      let ?a = "activated (Some (na_payload na)) (Some (na_public_payload na)) (ev_now e)"
      have s3: "sv_host s3 = sv_host s2" "sv_db s3 = put_row kid ?a (sv_db s1)" using facts2 Inr by auto
      have rows3: "key_get_by_id j (sv_db s3) = (if j = kid then Some (?a (na_key na)) else key_get_by_id j (sv_db s1))" for j
        using ok(2) by (auto simp: s3 put_row_get option.map_ident)
      have "key_get_by_id kid (sv_db s3) = Some (?a (na_key na))" by (simp add: rows3)
      note last = finish_creation [OF this, of e "Some actor" "''awg_key_created''" lib st actor]
      have "op_bind (awg_audit e (Some actor) ''awg_key_created'' kid) (\<lambda>_. op_bind (on_db (get_key kid)) (\<lambda>k.
         op_bind (on_host_value (format_config lib st ad k actor)) (\<lambda>shown. op_return (k, shown)))) s3 = (r, s')"
        using rest step2 Inr by (simp add: op_bind_def [of "activate_awg_key a b c d f" for a b c d f])
      from this [unfolded last] have "r = sum_bind (format_config lib st ad (?a (na_key na)) actor (sv_host s3)) (\<lambda>sh. Inr (?a (na_key na), sh))"
        "s' = s3\<lparr>sv_db := logged e (Some actor) ''awg_key_created'' EntityVpnKey (Some kid) 0 (sv_db s3)\<rparr>" by auto
      then show ?thesis using applied ok(3) by (simp add: rows3 row_outcome_def s3(1))
    qed
  qed
qed

lemma create_run:
  assumes ok: "keys_ok (sv_db s)"
    and run: "create_awg_key e lib st al ad ci actor owner note expires_at allow mtu s = (r, s')"
  shows "creation_outcome lib st al ci actor (pr_telegram_user_id owner) s r s'"
proof -
  have stopped: "creation_outcome lib st al ci actor (pr_telegram_user_id owner) s (Inl err) s" for err
    by (simp add: creation_outcome_def)
  note through = through_gates [where Q = "creation_outcome lib st al ci actor (pr_telegram_user_id owner) s"]
    through_gate [OF _ gate_preparations(4), where Q = "creation_outcome lib st al ci actor (pr_telegram_user_id owner) s"]
  from run show ?thesis unfolding create_awg_key_def
  proof (elim through, simp_all add: stopped)
    fix clean assume up': "require_mutation_allowed s = (Inr (), s)"
      and rest: "op_bind (prepare_awg_key e lib st al ad ci actor owner clean expires_at mtu) (\<lambda>na.
       op_bind (apply_awg_key e ad actor (pr_telegram_user_id owner) allow na) (\<lambda>_.
       op_bind (activate_awg_key e ad ci actor na) (\<lambda>_.
       op_bind (awg_audit e (Some actor) ''awg_key_created'' (vk_id (na_key na))) (\<lambda>_.
       op_bind (on_db (get_key (vk_id (na_key na)))) (\<lambda>k.
       op_bind (on_host_value (format_config lib st ad k actor)) (\<lambda>shown. op_return (k, shown))))))) s = (r, s')"
    have up: "\<not> sv_uninstalled s" using up' mutation_allowed_run(1) by blast
    obtain r1 s1 where step: "prepare_awg_key e lib st al ad ci actor owner clean expires_at mtu s = (r1, s1)" by force
    from prepare_run [OF step ok] show ?thesis
    proof (elim disjE exE conjE)
      fix err assume "r1 = Inl err" "s1 = s"
      with rest step show ?thesis by (auto simp: op_bind_def creation_outcome_def)
    next
      fix na assume na: "r1 = Inr na" "prepared e lib al ad actor owner clean expires_at s na"
        "s1 = s\<lparr>sv_db := add_row (na_key na) (sv_db s)\<rparr>" "keys_ok (sv_db s1)"
      let ?kid = "next_key_id (sv_db s)"
      have key: "vk_id (na_key na) = ?kid" "vk_status (na_key na) = KeyPendingApply"
        using na(2) by (simp_all add: prepared_def)
      have get: "key_get_by_id j (sv_db s1) = (if j = ?kid then Some (na_key na) else key_get_by_id j (sv_db s))" for j
        using na(2,3) by (simp add: prepared_def add_row_get)
      have "\<not> sv_uninstalled s1" using na(3) up by simp
      from after_insert [OF na(4) _ key this] rest step na(1) get [of ?kid]
      obtain k where k: "key_get_by_id ?kid (sv_db s') = Some k" "row_outcome lib st ci actor (sv_host s1) k (na_public_key na) r s'"
        "k \<in> {na_key na, with_status KeyApplyFailed (ev_now e) (na_key na),
           activated (Some (na_payload na)) (Some (na_public_payload na)) (ev_now e) (na_key na)}"
        "\<forall>j. j \<noteq> ?kid \<longrightarrow> key_get_by_id j (sv_db s') = key_get_by_id j (sv_db s1)"
        by (fastforce simp: op_bind_def [of "prepare_awg_key a b c d f g h i j l m" for a b c d f g h i j l m] key(1))
      have "created_row lib al (pr_telegram_user_id owner) s k (na_public_key na)"
        using k(3) na(2) by (auto simp: created_row_def prepared_def awg_draft_def)
      moreover have "\<forall>j. j \<noteq> ?kid \<longrightarrow> key_get_by_id j (sv_db s') = key_get_by_id j (sv_db s)" using k(4) get by simp
      moreover have "row_outcome lib st ci actor (sv_host s) k (na_public_key na) r s'" using k(2) na(3) by simp
      ultimately show ?thesis unfolding creation_outcome_def using k(1) by blast
    qed
  qed
qed

end

section \<open>On the tunnel\<close>

interpretation tunnel: awg_host "tunnel_adapter lib tool io dump" block_in_file
    "key_in_file (lb_v6 lib) (lb_in6 lib)" "verify_runtime_peer tool" for lib tool io dump
  unfolding awg_host_def tunnel_adapter_def by (simp add: direct.peer_backend_axioms)

text \<open>
  C16: a creation either raises and changes nothing, or inserts exactly one row, an AmneziaWG key of
  the owner with an address the allocator called free, and leaves every other row alone. The row is
  active only if the peer was applied: its block is in the configuration and the running interface
  shows it (unless a block of that number was there before); an error is then the failure to render
  the client configuration. In every other case the error is raised and the row is marked as failed,
  unless the mark itself could not be written or the backend is left degraded.
\<close>

theorem awg_create_outcome:
  assumes "keys_ok (sv_db s)"
    and "create_awg_key e lib st al (tunnel_adapter lib tool io dump) ci actor owner note expires_at allow mtu s = (r, s')"
  shows "(\<exists>err. r = Inl err) \<and> s' = s
    \<or> (\<exists>k pk ip. key_get_by_id (next_key_id (sv_db s)) (sv_db s') = Some k
        \<and> (\<forall>j. j \<noteq> next_key_id (sv_db s) \<longrightarrow> key_get_by_id j (sv_db s') = key_get_by_id j (sv_db s))
        \<and> vk_key_type k = AWG \<and> vk_owner_user_id k = pr_telegram_user_id owner
        \<and> vk_public_key k = Some pk \<and> vk_client_ip k = Some ip
        \<and> next_free_ip (lb_v6 lib) al (get_occupied_awg_ips (sv_db s))
             (case config_or list_peer_allowed_ips (sv_host s) of Inl _ \<Rightarrow> None | Inr ips \<Rightarrow> Some ips) = Inr ip
        \<and> (vk_status k = KeyActive \<and> block_in_file (sv_host s') (vk_id k)
             \<and> (block_in_file (sv_host s) (vk_id k) \<or> verify_runtime_peer tool (sv_host s') pk)
             \<and> r = sum_bind (format_config lib st (tunnel_adapter lib tool io dump) k actor (sv_host s')) (\<lambda>sh. Inr (k, sh))
           \<or> (\<exists>err. r = Inl err) \<and> (vk_status k = KeyApplyFailed
             \<or> vk_status k = KeyPendingApply \<and> (sv_degraded s' \<noteq> None \<or> \<not> ci_marks_failed ci))))"
  using tunnel.create_run [OF assms]
  unfolding tunnel.creation_outcome_def tunnel.created_row_def tunnel.row_outcome_def tunnel.applied_def
  by (auto simp: tunnel_adapter_def)

text \<open>
  C17: revoking a key that is not over yet, by a user or by the system, has two outcomes: the row is
  revoked without its address, and the public key the removal went by (the stored one, if there is
  one) is neither in the configuration nor in the running interface; or an error, and the row has
  the status it had before.
\<close>

theorem awg_revoke_outcome:
  assumes "keys_ok (sv_db s)" "key_get_by_id kid (sv_db s) = Some k" "\<not> terminal k"
    and "op \<in> {revoke_awg_key e lib (tunnel_adapter lib tool io dump) actor kid,
           revoke_awg_key_system e lib (tunnel_adapter lib tool io dump) kid (Some actor) action}"
    and "op s = (r, s')"
  shows "case r of
      Inr k' \<Rightarrow> key_get_by_id kid (sv_db s') = Some k' \<and> vk_status k' = KeyRevoked \<and> vk_client_ip k' = None \<and> keys_ok (sv_db s')
        \<and> (\<exists>pk. pk \<noteq> [] \<and> (stored_awg_public_key lib k \<noteq> [] \<longrightarrow> pk = stored_awg_public_key lib k)
             \<and> \<not> verify_runtime_peer tool (sv_host s') pk \<and> \<not> key_in_file (lb_v6 lib) (lb_in6 lib) (sv_host s') pk)
    | Inl _ \<Rightarrow> \<exists>k'. key_get_by_id kid (sv_db s') = Some k' \<and> vk_status k' = vk_status k"
proof -
  have "tunnel.revoked_outcome lib tool e lib actor k r s'"
    using assms(4,5) tunnel.revoke_run [OF assms(1-3)] tunnel.revoke_system_run [OF assms(1-3), where actor = "Some actor"]
    by auto
  moreover have "vk_id k = kid" using key_get_Some [OF assms(2)] by simp
  ultimately show ?thesis
    by (auto simp: tunnel.revoked_outcome_def revoked_row_def peer_gone_def split: sum.splits)
qed

text \<open>
  C18: deleting a key whose address is reserved for it (or that has none) has three outcomes: it
  raises before it writes; the row is gone, its traffic is archived and, unless the key was over
  already, its peer is in neither place; or the peer could not be removed and the row says so.
\<close>

theorem awg_delete_outcome:
  assumes "keys_ok (sv_db s)" "key_get_by_id kid (sv_db s) = Some k"
    and "vk_status k \<in> set reserved_statuses \<or> vk_client_ip k = None"
    and "delete_awg_key e lib (tunnel_adapter lib tool io dump) actor kid s = (r, s')"
  shows "case r of
      Inr _ \<Rightarrow> key_get_by_id kid (sv_db s') = None
        \<and> db_traffic_archive (sv_db s') = db_traffic_archive (sv_db s) @ archive_of kid (ev_now e) (sv_db s)
        \<and> (vk_status k \<in> set awg_access_may_exist \<longrightarrow> (\<exists>pk. pk \<noteq> []
             \<and> (stored_awg_public_key lib k \<noteq> [] \<longrightarrow> pk = stored_awg_public_key lib k)
             \<and> \<not> verify_runtime_peer tool (sv_host s') pk \<and> \<not> key_in_file (lb_v6 lib) (lb_in6 lib) (sv_host s') pk))
    | Inl _ \<Rightarrow> s' = s \<or> key_get_by_id kid (sv_db s') = Some (with_status KeyDeleteFailed (ev_now e) k)"
  using tunnel.delete_run [OF assms] by (auto simp: peer_gone_def split: sum.splits)

section \<open>An example service\<close>

definition service_env :: env where
  "service_env = \<lparr>ev_admin_ids = [1], ev_now = ''2026'', ev_audit_ok = True, ev_instant = (\<lambda>_. None)\<rparr>"

definition plain_library :: library where
  "plain_library = \<lparr>lb_v6 = (\<lambda>_. False), lb_in6 = (\<lambda>_ _. False), lb_str = (\<lambda>_. []), lb_compress = id\<rparr>"

definition demo_peer_key :: vpn_key where
  "demo_peer_key = (demo_key 1 KeyActive)\<lparr>vk_public_key := Some ''K1''\<rparr>"

definition demo_service :: "string list tunnel service_state" where
  "demo_service = \<lparr>sv_db = demo_keys\<lparr>db_vpn_keys := [demo_peer_key, demo_key 2 KeyRevoked], db_users := [demo_user 1 SUPERADMIN]\<rparr>,
     sv_host = demo_tunnel, sv_degraded = None, sv_uninstalled = False\<rparr>"

definition demo_awg_settings :: awg_settings where
  "demo_awg_settings = \<lparr>st_network = ''10.8.0.0/24'', st_server_address = ''10.8.0.1'', st_endpoint_host = ''h'',
     st_endpoint_port = 51820, st_server_public_key = ''S'', st_client_dns = ''1.1.1.1'', st_mtu = None,
     st_allowed_ips = ''0.0.0.0/0'', st_persistent_keepalive = 25, st_use_preshared_key = False\<rparr>"

definition demo_inputs :: create_inputs where
  "demo_inputs = \<lparr>ci_module_on = True, ci_keypair = (\<lambda>_. Inr (''P'', ''K9'')), ci_label = (\<lambda>_. ''awg_abcde''),
     ci_preshared = Inr ''T'', ci_activates = True, ci_marks_failed = True\<rparr>"

abbreviation demo_adapter :: "string list tunnel awg_adapter" where
  "demo_adapter \<equiv> tunnel_adapter plain_library (demo_tool True) demo_io (\<lambda>_. [])"

lemma demo_service_ok:
  "keys_ok (sv_db demo_service)" "key_get_by_id 1 (sv_db demo_service) = Some demo_peer_key" "\<not> terminal demo_peer_key"
  "stored_awg_public_key plain_library demo_peer_key = ''K1''" "next_key_id (sv_db demo_service) = 3"
  "vk_status demo_peer_key = KeyActive"
  by (simp_all add: keys_ok_def keys_unique_def unique_column_def map_filter_simps demo_service_def demo_peer_key_def
      demo_keys_def demo_key_def empty_world_def reserved_ip_def reserved_statuses_def key_seq_def key_get_by_id_def
      terminal_def stored_awg_public_key_def payload_or_def json_get_def strip_def lstrip_def is_space_def code_point_def
      next_key_id_def max_key_id_def)

text \<open>Whatever the creation does in the example, an active row three has its block in the file.\<close>

lemma awg_create_outcome_witness:
  "\<exists>r s'. create_awg_key service_env plain_library demo_awg_settings demo_pool demo_adapter demo_inputs 1
      \<lparr>pr_telegram_user_id = 1, pr_username = None, pr_first_name = None\<rparr> None None False None demo_service = (r, s')
    \<and> (s' = demo_service \<or> (\<exists>k. key_get_by_id 3 (sv_db s') = Some k \<and> (vk_status k \<noteq> KeyActive \<or> block_in_file (sv_host s') (vk_id k))))"
proof -
  obtain r s' where run: "create_awg_key service_env plain_library demo_awg_settings demo_pool demo_adapter demo_inputs 1
      \<lparr>pr_telegram_user_id = 1, pr_username = None, pr_first_name = None\<rparr> None None False None demo_service = (r, s')"
    by force
  from awg_create_outcome [OF demo_service_ok(1) this] show ?thesis
    using run unfolding demo_service_ok(5) by (elim disjE exE conjE) auto
qed

lemma awg_revoke_outcome_witness:
  "\<exists>r s'. revoke_awg_key service_env plain_library demo_adapter 1 1 demo_service = (r, s')
    \<and> (case r of Inr k' \<Rightarrow> vk_client_ip k' = None \<and> \<not> verify_runtime_peer (demo_tool True) (sv_host s') ''K1''
       | Inl _ \<Rightarrow> \<exists>k'. key_get_by_id 1 (sv_db s') = Some k' \<and> vk_status k' = KeyActive)"
proof -
  obtain r s' where run: "revoke_awg_key service_env plain_library demo_adapter 1 1 demo_service = (r, s')" by force
  from awg_revoke_outcome [where action = "[]", OF demo_service_ok(1-3) insertI1 run] show ?thesis
    using run by (auto simp: demo_service_ok(4,6) split: sum.splits)
qed

lemma awg_delete_outcome_witness:
  "\<exists>r s'. delete_awg_key service_env plain_library demo_adapter 1 1 demo_service = (r, s')
    \<and> (case r of Inr _ \<Rightarrow> key_get_by_id 1 (sv_db s') = None \<and> \<not> verify_runtime_peer (demo_tool True) (sv_host s') ''K1''
       | Inl _ \<Rightarrow> s' = demo_service \<or> (\<exists>k'. key_get_by_id 1 (sv_db s') = Some k' \<and> vk_status k' = KeyDeleteFailed))"
proof -
  obtain r s' where run: "delete_awg_key service_env plain_library demo_adapter 1 1 demo_service = (r, s')" by force
  have "vk_status demo_peer_key \<in> set reserved_statuses \<or> vk_client_ip demo_peer_key = None"
    by (simp add: demo_service_ok(6) reserved_statuses_def)
  from awg_delete_outcome [OF demo_service_ok(1,2) this run] show ?thesis
    using run by (auto simp: demo_service_ok(4,6) awg_access_may_exist_def split: sum.splits)
qed

end
