(* ===== verification/Awg_Reconcile.thy ===== *)
theory Awg_Reconcile
  imports Awg_Creation
begin

text \<open>
  The start-up reconciliation of \<open>services/awg.py\<close>: keys left in a passing status are finished one
  by one, then the configuration and the running interface are compared with the active keys.
  The loops over pages of keys ask for the rows above the last number seen; the one that changes
  rows on its way takes fuel, and one more page than there are rows is enough.
\<close>

definition awg_startup_statuses :: "vpn_key_status list" where
  "awg_startup_statuses = [KeyPendingApply, KeyApplyFailed, KeyPendingRevoke, KeyPendingDelete, KeyDeleteFailed]"

definition system_audit :: "env \<Rightarrow> string \<Rightarrow> int \<Rightarrow> ('h, unit) service_op" where
  "system_audit e action kid = awg_audit e None action kid"

section \<open>One key\<close>

definition runtime_peer_present :: "'h awg_adapter \<Rightarrow> vpn_key \<Rightarrow> 'h \<Rightarrow> bool" where
  "runtime_peer_present ad k h \<longleftrightarrow>
     (case vk_public_key k of None \<Rightarrow> False | Some pk \<Rightarrow> pk \<noteq> [] \<and> ad_verify_runtime_peer ad pk h)"

definition reconcile_unapplied :: "env \<Rightarrow> library \<Rightarrow> 'h awg_adapter \<Rightarrow> vpn_key \<Rightarrow> ('h, bool) service_op" where
  "reconcile_unapplied e lib ad k =
     op_bind (op_get (\<lambda>s. runtime_peer_present ad k (sv_host s))) (\<lambda>present.
     if present then
       op_bind (remove_awg_access lib ad k) (\<lambda>_.
       op_bind (if vk_status k = KeyPendingApply then on_db (set_status (vk_id k) KeyApplyFailed (ev_now e) None)
                else op_return ()) (\<lambda>_.
       op_bind (system_audit e ''awg_startup_runtime_orphan_removed'' (vk_id k)) (\<lambda>_. op_return True)))
     else if vk_status k = KeyPendingApply then
       op_bind (on_db (set_status (vk_id k) KeyApplyFailed (ev_now e) None)) (\<lambda>_.
       op_bind (system_audit e ''awg_startup_pending_apply_failed'' (vk_id k)) (\<lambda>_. op_return True))
     else op_return False)"

text \<open>Python's \<open>revoked_by or deleted_by or created_by\<close>.\<close>

definition first_actor :: "vpn_key \<Rightarrow> int" where
  "first_actor k = (case vk_revoked_by k of
       Some a \<Rightarrow> if a \<noteq> 0 then a else (case vk_deleted_by k of Some b \<Rightarrow> if b \<noteq> 0 then b else vk_created_by k
                                        | None \<Rightarrow> vk_created_by k)
     | None \<Rightarrow> (case vk_deleted_by k of Some b \<Rightarrow> if b \<noteq> 0 then b else vk_created_by k | None \<Rightarrow> vk_created_by k))"

definition startup_reconcile_key :: "env \<Rightarrow> library \<Rightarrow> 'h awg_adapter \<Rightarrow> vpn_key \<Rightarrow> ('h, bool) service_op" where
  "startup_reconcile_key e lib ad k =
     (if vk_status k \<in> {KeyPendingApply, KeyApplyFailed} then
        op_bind (on_host_value (\<lambda>h. backend (ad_find_peer ad (vk_public_key k) (vk_client_ip k) h))) (\<lambda>peer.
        if peer = None then reconcile_unapplied e lib ad k
        else op_bind (on_db (mark_active (vk_id k) (ev_now e) None None)) (\<lambda>_.
             op_bind (system_audit e ''awg_startup_apply_recovered'' (vk_id k)) (\<lambda>_. op_return True)))
      else if vk_status k = KeyPendingRevoke then
        op_bind (remove_awg_access lib ad k) (\<lambda>_.
        op_bind (on_db (mark_revoked (vk_id k) (first_actor k) (ev_now e))) (\<lambda>_.
        op_bind (system_audit e ''awg_startup_revoke_completed'' (vk_id k)) (\<lambda>_. op_return True)))
      else if vk_status k \<in> {KeyPendingDelete, KeyDeleteFailed} then
        op_bind (op_try (remove_awg_access lib ad k) (\<lambda>err.
            op_bind (on_db (set_status (vk_id k) KeyDeleteFailed (ev_now e) None)) (\<lambda>_. op_raise err))) (\<lambda>_.
        op_bind (on_db (hard_delete_with_stats (vk_id k) (ev_now e))) (\<lambda>_.
        op_bind (system_audit e ''awg_startup_delete_completed'' (vk_id k)) (\<lambda>_. op_return True)))
      else op_return False)"

section \<open>Pages of keys\<close>

record recon_summary =
  su_checked :: nat
  su_recovered :: nat
  su_failed :: nat

definition next_page :: "vpn_key_status list \<Rightarrow> int \<Rightarrow> world \<Rightarrow> vpn_key list" where
  "next_page statuses last_id w = list_by_type_statuses AWG statuses 500 0 (Some last_id) w"

definition keys_above :: "vpn_key_status list \<Rightarrow> int \<Rightarrow> world \<Rightarrow> vpn_key list" where
  "keys_above statuses last_id w =
     sort_key vk_id (filter (\<lambda>k. vk_key_type k = AWG \<and> vk_status k \<in> set statuses \<and> vk_id k > last_id) (db_vpn_keys w))"

lemma next_page_take: "next_page statuses last_id w = take 500 (keys_above statuses last_id w)"
  by (simp add: next_page_def list_by_type_statuses_def page_def clamp_limit_def clamp_offset_def keys_above_def)

lemma last_of_page:
  assumes "next_page statuses last_id w \<noteq> []"
  shows "last (next_page statuses last_id w) \<in> set (keys_above statuses last_id w)"
    "last (next_page statuses last_id w) \<in> set (db_vpn_keys w)" "vk_id (last (next_page statuses last_id w)) > last_id"
proof -
  show "last (next_page statuses last_id w) \<in> set (keys_above statuses last_id w)"
    using assms next_page_take by (metis in_set_takeD last_in_set)
  then show "last (next_page statuses last_id w) \<in> set (db_vpn_keys w)" "vk_id (last (next_page statuses last_id w)) > last_id"
    by (auto simp: keys_above_def)
qed

lemma page_shrinks:
  assumes "next_page statuses last_id w \<noteq> []"
  shows "length (keys_above statuses (vk_id (last (next_page statuses last_id w))) w) < length (keys_above statuses last_id w)"
proof -
  obtain k where k: "k = last (next_page statuses last_id w)" "k \<in> set (keys_above statuses last_id w)" "vk_id k > last_id"
    using last_of_page [OF assms] by auto
  let ?P = "\<lambda>a k. vk_key_type k = AWG \<and> vk_status k \<in> set statuses \<and> vk_id k > a"
  have "filter (?P (vk_id k)) (db_vpn_keys w) = filter (?P (vk_id k)) (filter (?P last_id) (db_vpn_keys w))"
    unfolding filter_filter by (rule filter_cong) (use k(3) in auto)
  also have "length \<dots> < length (filter (?P last_id) (db_vpn_keys w))"
    by (rule length_filter_less [of k]) (use k(2) in \<open>auto simp: keys_above_def\<close>)
  finally show ?thesis by (simp add: keys_above_def k(1))
qed

function awg_keys_from :: "vpn_key_status list \<Rightarrow> int \<Rightarrow> world \<Rightarrow> vpn_key list" where
  "awg_keys_from statuses last_id w =
     (let batch = next_page statuses last_id w
      in if batch = [] then [] else batch @ awg_keys_from statuses (vk_id (last batch)) w)"
  by pat_completeness auto
termination
  by (relation "measure (\<lambda>(statuses, last_id, w). length (keys_above statuses last_id w))") (auto dest: page_shrinks)

lemma keys_above_page:
  assumes "keys_ok w" "n < length (keys_above statuses a w)"
  shows "keys_above statuses (vk_id (keys_above statuses a w ! n)) w = drop (Suc n) (keys_above statuses a w)"
proof -
  let ?xs = "keys_above statuses a w" and ?k = "keys_above statuses a w ! n"
  have "distinct (map vk_id (filter P (db_vpn_keys w)))" for P
    using assms(1) by (simp add: keys_ok_def keys_unique_def distinct_map_filter)
  then have "distinct (map vk_id ?xs)" by (simp add: keys_above_def distinct_map)
  moreover have "sorted (map vk_id ?xs)" by (simp add: keys_above_def)
  ultimately have "sorted_wrt (<) (map vk_id ?xs)" by (simp add: strict_sorted_iff)
  then have "filter (\<lambda>k. vk_id k > vk_id ?k) ?xs = drop (Suc n) ?xs"
    using filter_greater_drop [of vk_id ?xs "Suc n"] assms(2) by simp
  moreover have "vk_id ?k > a" using nth_mem [OF assms(2)] by (simp add: keys_above_def)
  then have "keys_above statuses (vk_id ?k) w = filter (\<lambda>k. vk_id k > vk_id ?k) ?xs"
    by (auto simp: keys_above_def filter_sort [symmetric] intro!: arg_cong [where f = "sort_key vk_id"] filter_cong)
  ultimately show ?thesis by simp
qed

text \<open>
  The pages by number, each read after the last key of the previous one until a page is empty,
  are all the keys with the wanted statuses, in the order of their numbers and each once: the loop
  ends and skips nothing.
\<close>

theorem key_pages_complete:
  assumes "keys_ok w"
  shows "awg_keys_from statuses last_id w = keys_above statuses last_id w"
  using assms
proof (induction statuses last_id w rule: awg_keys_from.induct)
  case (1 statuses last_id w)
  let ?xs = "keys_above statuses last_id w" and ?batch = "next_page statuses last_id w"
  show ?case
  proof (cases "?batch = []")
    case True
    then show ?thesis by (simp add: next_page_take)
  next
    case False
    then have "?xs \<noteq> []" by (simp add: next_page_take)
    define n where "n = min (length ?xs) 500 - 1"
    have n: "n < length ?xs" "last ?batch = ?xs ! n" "take 500 ?xs = take (Suc n) ?xs"
      using \<open>?xs \<noteq> []\<close> by (auto simp: n_def next_page_take last_conv_nth min_def)
    from 1(1) [OF refl False 1(2)] have "awg_keys_from statuses (vk_id (last ?batch)) w = drop (Suc n) ?xs"
      using keys_above_page [OF 1(2) n(1)] n(2) by simp
    then show ?thesis using False n(3) by (simp add: Let_def next_page_take)
  qed
qed

declare awg_keys_from.simps [simp del]

section \<open>The first pass\<close>

definition tally :: "service_error + bool \<Rightarrow> recon_summary \<Rightarrow> recon_summary" where
  "tally r su = (case r of
       Inl _ \<Rightarrow> su\<lparr>su_checked := su_checked su + 1, su_failed := su_failed su + 1\<rparr>
     | Inr changed \<Rightarrow> su\<lparr>su_checked := su_checked su + 1,
                         su_recovered := su_recovered su + (if changed then 1 else 0)\<rparr>)"

fun reconcile_batch ::
  "env \<Rightarrow> library \<Rightarrow> 'h awg_adapter \<Rightarrow> vpn_key list \<Rightarrow> recon_summary \<Rightarrow> ('h, recon_summary) service_op" where
  "reconcile_batch e lib ad [] su = op_return su"
| "reconcile_batch e lib ad (k # ks) su =
     op_bind (op_attempt (startup_reconcile_key e lib ad k)) (\<lambda>r.
     op_bind (case r of Inl _ \<Rightarrow> system_audit e ''awg_startup_reconcile_failed'' (vk_id k) | Inr _ \<Rightarrow> op_return ()) (\<lambda>_.
     reconcile_batch e lib ad ks (tally r su)))"

fun startup_pages ::
  "nat \<Rightarrow> env \<Rightarrow> library \<Rightarrow> 'h awg_adapter \<Rightarrow> int \<Rightarrow> recon_summary \<Rightarrow> ('h, recon_summary option) service_op" where
  "startup_pages 0 e lib ad last_id su = op_return None"
| "startup_pages (Suc fuel) e lib ad last_id su =
     op_bind (on_db (op_get (next_page awg_startup_statuses last_id))) (\<lambda>batch.
     if batch = [] then op_return (Some su)
     else op_bind (reconcile_batch e lib ad batch su) (\<lambda>su'.
          startup_pages fuel e lib ad (vk_id (last batch)) su'))"

section \<open>Identities\<close>

definition peer_text :: "options \<Rightarrow> string \<Rightarrow> string" where
  "peer_text peer field = strip (option_or [] peer field)"

definition awg_restore_values ::
  "library \<Rightarrow> bool \<Rightarrow> vpn_key \<Rightarrow> service_error + string \<times> string \<times> string option" where
  "awg_restore_values lib require_private k =
     (let public_key = stored_awg_public_key lib k;
          client_ip = strip (payload_or lib (vk_payload k) ''client_ip'' (vk_client_ip k));
          raw = json_get (vk_payload k) ''preshared_key'';
          values = (public_key, client_ip, if json_truthy raw then Some (strip (py_str lib raw)) else None)
      in if require_private then
           sum_bind (required_private_key lib k) (\<lambda>_.
           if public_key = [] \<or> client_ip = [] then Inl (InvalidOperation ''missing public key or client IP'')
           else sum_bind (required_client_ip lib k) (\<lambda>_. Inr values))
         else if client_ip \<noteq> [] then sum_bind (required_client_ip lib k) (\<lambda>_. Inr values)
         else if public_key = [] then Inl (InvalidOperation ''missing public key and client IP'')
         else Inr values)"

definition runtime_public_keys :: "options list \<Rightarrow> string list" where
  "runtime_public_keys peers =
     map (\<lambda>p. peer_text p ''PublicKey'') (filter (\<lambda>p. option_or [] p ''PublicKey'' \<noteq> []) peers)"

fun first_host_ip :: "library \<Rightarrow> string list \<Rightarrow> string" where
  "first_host_ip lib [] = []"
| "first_host_ip lib (part # rest) =
     (if strip part = [] then first_host_ip lib rest
      else case ip_interface lib (strip part) of
          Some (Some (a, p)) \<Rightarrow> if p = 32 then addr_str a else first_host_ip lib rest
        | _ \<Rightarrow> first_host_ip lib rest)"

definition client_ip_from_peer :: "library \<Rightarrow> options \<Rightarrow> string" where
  "client_ip_from_peer lib peer = first_host_ip lib (split_on (CHR '','') (option_or [] peer ''AllowedIPs''))"

definition runtime_peer_for_identity :: "library \<Rightarrow> options list \<Rightarrow> string \<Rightarrow> string \<Rightarrow> options option" where
  "runtime_peer_for_identity lib peers public_key client_ip =
     find (\<lambda>p. (public_key \<noteq> [] \<and> peer_text p ''PublicKey'' = public_key)
             \<or> (client_ip \<noteq> [] \<and> client_ip_from_peer lib p = client_ip)) peers"

definition awg_active_identities :: "library \<Rightarrow> vpn_key list \<Rightarrow> string list \<times> string list" where
  "awg_active_identities lib ks =
     (filter (\<lambda>v. v \<noteq> []) (map (stored_awg_public_key lib) ks),
      filter (\<lambda>v. v \<noteq> []) (map (\<lambda>k. strip (payload_or lib (vk_payload k) ''client_ip'' (vk_client_ip k))) ks))"

definition awg_peer_owned_by_active_key :: "string \<Rightarrow> string \<Rightarrow> string list \<times> string list \<Rightarrow> bool" where
  "awg_peer_owned_by_active_key public_key client_ip identities \<longleftrightarrow>
     (public_key \<noteq> [] \<and> public_key \<in> set (fst identities)) \<or> (client_ip \<noteq> [] \<and> client_ip \<in> set (snd identities))"

definition find_awg_historical_owner :: "string \<Rightarrow> string \<Rightarrow> world \<Rightarrow> vpn_key option" where
  "find_awg_historical_owner public_key client_ip w =
     (let by_key = (if public_key \<noteq> [] then find_by_public_key public_key w else None);
          found = (if by_key = None \<and> client_ip \<noteq> [] then find_by_client_ip client_ip w else by_key)
      in case found of None \<Rightarrow> None | Some k \<Rightarrow> if vk_key_type k = AWG then Some k else None)"

definition managed_key_id_from_peer :: "options \<Rightarrow> int option" where
  "managed_key_id_from_peer peer =
     (if peer_text peer ''_managed_key_id'' = [] then None else py_int (peer_text peer ''_managed_key_id''))"

definition label_char :: "char \<Rightarrow> bool" where
  "label_char c \<longleftrightarrow> (let n = code_point c in (65 \<le> n \<and> n \<le> 90) \<or> (97 \<le> n \<and> n \<le> 122) \<or> (48 \<le> n \<and> n \<le> 57))"

definition awg_managed_label :: "string \<Rightarrow> bool" where
  "awg_managed_label s \<longleftrightarrow> startswith ''awg_'' s \<and> length s = 9 \<and> list_all label_char (drop 4 s)"

section \<open>Drift\<close>

definition mark_awg_degraded :: "env \<Rightarrow> string \<Rightarrow> ('h, unit) service_op" where
  "mark_awg_degraded e reason =
     op_bind (mark_degraded reason) (\<lambda>_.
     on_db (audit_write_best_effort e None ''awg_startup_drift_degraded'' EntitySystem None 0))"

definition remove_awg_access_for_reconcile ::
  "library \<Rightarrow> 'h awg_adapter \<Rightarrow> vpn_key \<Rightarrow> string \<Rightarrow> ('h, unit) service_op" where
  "remove_awg_access_for_reconcile lib ad k fallback =
     (if stored_awg_public_key lib k \<noteq> [] \<or> fallback = [] then remove_awg_access lib ad k
      else op_bind (on_db (op_get (find_by_public_key fallback))) (\<lambda>owner.
           op_bind (op_guard (case owner of None \<Rightarrow> True | Some x \<Rightarrow> vk_id x = vk_id k)
                      (InvalidOperation ''fallback key of another row'')) (\<lambda>_.
           on_host (ad_remove_peer ad (vk_id k) (Some fallback)))))"

text \<open>The public key to go by: the stored one, else that of the managed block.\<close>

definition safe_public_key :: "'h awg_adapter \<Rightarrow> string \<Rightarrow> vpn_key \<Rightarrow> ('h, string) service_op" where
  "safe_public_key ad public_key k =
     (if public_key \<noteq> [] then op_return public_key else on_host_value (managed_awg_public_key ad k))"

fun remove_non_live_awg_peers ::
  "env \<Rightarrow> library \<Rightarrow> 'h awg_adapter \<Rightarrow> options list \<Rightarrow> vpn_key list \<Rightarrow> nat \<Rightarrow> ('h, nat) service_op" where
  "remove_non_live_awg_peers e lib ad runtime [] recovered = op_return recovered"
| "remove_non_live_awg_peers e lib ad runtime (k # ks) recovered =
     (if vk_status k = KeyActive then remove_non_live_awg_peers e lib ad runtime ks recovered
      else
      op_bind (pure_sum (awg_restore_values lib False k)) (\<lambda>(public_key, client_ip, _).
      op_bind (safe_public_key ad public_key k) (\<lambda>safe.
      if safe = [] then
        op_bind (system_audit e ''awg_startup_non_live_skipped_missing_public_key'' (vk_id k)) (\<lambda>_.
        remove_non_live_awg_peers e lib ad runtime ks recovered)
      else
      op_bind (on_host_value (\<lambda>h. backend (ad_find_peer ad (Some safe) None h))) (\<lambda>config_peer.
      if config_peer = None \<and> runtime_peer_for_identity lib runtime safe [] = None \<and> safe \<notin> set (runtime_public_keys runtime)
      then remove_non_live_awg_peers e lib ad runtime ks recovered
      else
        op_bind (remove_awg_access_for_reconcile lib ad k safe) (\<lambda>_.
        op_bind (system_audit e ''awg_startup_non_live_removed'' (vk_id k)) (\<lambda>_.
        remove_non_live_awg_peers e lib ad runtime ks (recovered + 1)))))))"

fun restore_or_sync_active_awg_peers ::
  "env \<Rightarrow> library \<Rightarrow> 'h awg_adapter \<Rightarrow> string list \<Rightarrow> vpn_key list \<Rightarrow> nat \<Rightarrow> ('h, nat) service_op" where
  "restore_or_sync_active_awg_peers e lib ad known [] recovered = op_return recovered"
| "restore_or_sync_active_awg_peers e lib ad known (k # ks) recovered =
     op_bind (pure_sum (awg_restore_values lib False k)) (\<lambda>(public_key, client_ip, psk).
     op_bind (op_guard (public_key \<noteq> [] \<and> client_ip \<noteq> []) (InvalidOperation ''active key cannot be restored'')) (\<lambda>_.
     op_bind (on_host_value (\<lambda>h. backend (ad_find_peer ad (Some public_key) (Some client_ip) h))) (\<lambda>config_peer.
     if config_peer = None then
       op_bind (on_host (ad_add_peer ad (vk_id k) (vk_owner_user_id k) public_key psk client_ip (vk_email_label k))) (\<lambda>_.
       op_bind (system_audit e ''awg_startup_active_restored'' (vk_id k)) (\<lambda>_.
       restore_or_sync_active_awg_peers e lib ad (public_key # known) ks (recovered + 1)))
     else if public_key \<notin> set known then
       op_bind (on_host (ad_sync_runtime ad)) (\<lambda>_.
       op_bind (op_get (\<lambda>s. ad_verify_runtime_peer ad public_key (sv_host s))) (\<lambda>seen.
       op_bind (op_guard seen (InvalidOperation ''active peer still missing'')) (\<lambda>_.
       op_bind (system_audit e ''awg_startup_runtime_synced'' (vk_id k)) (\<lambda>_.
       restore_or_sync_active_awg_peers e lib ad (public_key # known) ks (recovered + 1)))))
     else restore_or_sync_active_awg_peers e lib ad known ks recovered)))"

text \<open>The two orphan passes return the recovered peers and whether they stopped at a doubtful one.\<close>

fun config_orphans ::
  "env \<Rightarrow> library \<Rightarrow> 'h awg_adapter \<Rightarrow> string list \<times> string list \<Rightarrow> options list \<Rightarrow> nat \<Rightarrow> ('h, nat \<times> bool) service_op" where
  "config_orphans e lib ad active [] recovered = op_return (recovered, False)"
| "config_orphans e lib ad active (peer # rest) recovered =
     (let public_key = peer_text peer ''PublicKey''; client_ip = client_ip_from_peer lib peer;
          managed = managed_key_id_from_peer peer
      in if awg_peer_owned_by_active_key public_key client_ip active
         then config_orphans e lib ad active rest recovered
         else
         op_bind (on_db (op_get (find_awg_historical_owner public_key client_ip))) (\<lambda>historical.
         case historical of
           Some k \<Rightarrow>
             if vk_status k = KeyActive then config_orphans e lib ad active rest recovered
             else op_bind (remove_awg_access_for_reconcile lib ad k public_key) (\<lambda>_.
                  op_bind (system_audit e ''awg_startup_orphan_removed'' (vk_id k)) (\<lambda>_.
                  config_orphans e lib ad active rest (recovered + 1)))
         | None \<Rightarrow>
             if managed \<noteq> None \<or> awg_managed_label (peer_text peer ''_managed_label'') then
               (if public_key = [] then
                  op_bind (mark_awg_degraded e ''bot-managed orphan AWG config peer has no public key'') (\<lambda>_.
                  op_return (recovered, True))
                else
                  op_bind (on_host (ad_remove_peer ad (case managed of None \<Rightarrow> 0 | Some i \<Rightarrow> i) (Some public_key))) (\<lambda>_.
                  op_bind (on_db (audit_write_best_effort e None ''awg_startup_orphan_removed'' EntitySystem None 0)) (\<lambda>_.
                  config_orphans e lib ad active rest (recovered + 1))))
             else
               op_bind (mark_awg_degraded e ''ambiguous orphan AWG config peer'') (\<lambda>_. op_return (recovered, True))))"

fun runtime_orphans ::
  "env \<Rightarrow> library \<Rightarrow> 'h awg_adapter \<Rightarrow> string list \<Rightarrow> string list \<Rightarrow> options list \<Rightarrow> nat \<Rightarrow> ('h, nat \<times> bool) service_op" where
  "runtime_orphans e lib ad active configured [] recovered = op_return (recovered, False)"
| "runtime_orphans e lib ad active configured (peer # rest) recovered =
     (let public_key = peer_text peer ''PublicKey''
      in if public_key = [] \<or> public_key \<in> set active \<or> public_key \<in> set configured
         then runtime_orphans e lib ad active configured rest recovered
         else
         op_bind (on_db (op_get (find_awg_historical_owner public_key []))) (\<lambda>historical.
         case historical of
           Some k \<Rightarrow>
             if vk_status k \<noteq> KeyActive then
               op_bind (remove_awg_access_for_reconcile lib ad k public_key) (\<lambda>_.
               op_bind (system_audit e ''awg_startup_runtime_orphan_removed'' (vk_id k)) (\<lambda>_.
               runtime_orphans e lib ad active configured rest (recovered + 1)))
             else op_bind (mark_awg_degraded e ''ambiguous orphan AWG runtime peer'') (\<lambda>_. op_return (recovered, True))
         | None \<Rightarrow> op_bind (mark_awg_degraded e ''ambiguous orphan AWG runtime peer'') (\<lambda>_. op_return (recovered, True))))"

definition remove_or_degrade_awg_config_orphans ::
  "env \<Rightarrow> library \<Rightarrow> 'h awg_adapter \<Rightarrow> options list \<Rightarrow> vpn_key list \<Rightarrow> ('h, nat \<times> bool) service_op" where
  "remove_or_degrade_awg_config_orphans e lib ad peers active =
     config_orphans e lib ad (awg_active_identities lib active) peers 0"

definition remove_or_degrade_awg_runtime_orphans ::
  "env \<Rightarrow> library \<Rightarrow> 'h awg_adapter \<Rightarrow> options list \<Rightarrow> vpn_key list \<Rightarrow> ('h, nat \<times> bool) service_op" where
  "remove_or_degrade_awg_runtime_orphans e lib ad peers active =
     op_bind (on_host_value (\<lambda>h. backend (ad_config_peers ad h))) (\<lambda>config_peers.
     runtime_orphans e lib ad (fst (awg_active_identities lib active))
       (map (\<lambda>p. peer_text p ''PublicKey'') config_peers) peers 0)"

text \<open>
  \<open>_startup_reconcile_drift\<close>: the counts survive an exception, so the body is written with the
  summary in hand and \<open>drift_step\<close> is one statement of its \<open>try\<close>.
\<close>

definition drift_step ::
  "env \<Rightarrow> recon_summary \<Rightarrow> ('h, 'a) service_op \<Rightarrow> ('a \<Rightarrow> ('h, recon_summary) service_op) \<Rightarrow> ('h, recon_summary) service_op" where
  "drift_step e su m f =
     op_bind (op_attempt m) (\<lambda>r. case r of
         Inr x \<Rightarrow> f x
       | Inl _ \<Rightarrow> op_bind (mark_awg_degraded e ''startup drift reconciliation failed'') (\<lambda>_.
                   op_return (su\<lparr>su_failed := su_failed su + 1\<rparr>)))"

definition runtime_peers_now :: "'h awg_adapter \<Rightarrow> ('h, options list) service_op" where
  "runtime_peers_now ad = on_host_value (\<lambda>h. backend (ad_runtime_peers ad h))"

definition config_peers_now :: "'h awg_adapter \<Rightarrow> ('h, options list) service_op" where
  "config_peers_now ad = on_host_value (\<lambda>h. backend (ad_config_peers ad h))"

definition add_recovered :: "nat \<Rightarrow> bool \<Rightarrow> recon_summary \<Rightarrow> recon_summary" where
  "add_recovered n stopped su =
     su\<lparr>su_recovered := su_recovered su + n, su_failed := su_failed su + (if stopped then 1 else 0)\<rparr>"

definition all_key_statuses :: "vpn_key_status list" where
  "all_key_statuses = [KeyPendingApply, KeyActive, KeyApplyFailed, KeyPendingRevoke, KeyRevoked,
     KeyPendingDelete, KeyDeleteFailed, KeyDeleted, KeyFailed]"

definition restore_pass ::
  "env \<Rightarrow> library \<Rightarrow> 'h awg_adapter \<Rightarrow> vpn_key list \<Rightarrow> recon_summary \<Rightarrow> ('h, recon_summary) service_op" where
  "restore_pass e lib ad active su =
     drift_step e su (runtime_peers_now ad) (\<lambda>runtime.
     drift_step e su (restore_or_sync_active_awg_peers e lib ad (runtime_public_keys runtime) active 0) (\<lambda>n.
     let su1 = add_recovered n False su in
     drift_step e su1 (runtime_peers_now ad) (\<lambda>runtime'.
     drift_step e su1 (remove_or_degrade_awg_runtime_orphans e lib ad runtime' active) (\<lambda>(m, stopped).
     op_return (add_recovered m stopped su1)))))"

definition startup_reconcile_drift :: "env \<Rightarrow> library \<Rightarrow> 'h awg_adapter \<Rightarrow> ('h, recon_summary) service_op" where
  "startup_reconcile_drift e lib ad =
     (let su = \<lparr>su_checked = 0, su_recovered = 0, su_failed = 0\<rparr> in
     op_bind (op_get (\<lambda>s. awg_keys_from [KeyActive] 0 (sv_db s))) (\<lambda>active.
     op_bind (op_get (\<lambda>s. awg_keys_from all_key_statuses 0 (sv_db s))) (\<lambda>all.
     drift_step e su (config_peers_now ad) (\<lambda>config.
     drift_step e su (runtime_peers_now ad) (\<lambda>runtime.
     let su0 = su\<lparr>su_checked := length active + length config + length runtime\<rparr> in
     drift_step e su0 (remove_non_live_awg_peers e lib ad runtime all 0) (\<lambda>n.
     let su1 = add_recovered n False su0 in
     drift_step e su1 (config_peers_now ad) (\<lambda>config'.
     drift_step e su1 (remove_or_degrade_awg_config_orphans e lib ad config' active) (\<lambda>(m, stopped).
     let su2 = add_recovered m stopped su1 in
     if stopped then op_return su2 else restore_pass e lib ad active su2))))))))"

definition startup_reconcile :: "nat \<Rightarrow> env \<Rightarrow> library \<Rightarrow> 'h awg_adapter \<Rightarrow> ('h, recon_summary option) service_op" where
  "startup_reconcile fuel e lib ad =
     op_bind (startup_pages fuel e lib ad 0 \<lparr>su_checked = 0, su_recovered = 0, su_failed = 0\<rparr>) (\<lambda>first.
     case first of
       None \<Rightarrow> op_return None
     | Some su \<Rightarrow>
         if su_failed su \<noteq> 0 then op_return (Some su)
         else op_bind (startup_reconcile_drift e lib ad) (\<lambda>drift.
              op_return (Some \<lparr>su_checked = su_checked su + su_checked drift, su_recovered = su_recovered su + su_recovered drift,
                               su_failed = su_failed su + su_failed drift\<rparr>)))"

section \<open>The first pass ends\<close>

text \<open>Neither a reconciliation step nor the removal of a peer adds a row.\<close>

definition rows_above :: "int \<Rightarrow> world \<Rightarrow> nat" where
  "rows_above a w = length (filter (\<lambda>k. vk_id k > a) (db_vpn_keys w))"

definition no_new_rows :: "('h, 'a) service_op \<Rightarrow> bool" where
  "no_new_rows m \<longleftrightarrow> (\<forall>s a. rows_above a (sv_db (snd (m s))) \<le> rows_above a (sv_db s))"

lemma no_new_rows_bind: "no_new_rows m \<Longrightarrow> (\<And>x. no_new_rows (f x)) \<Longrightarrow> no_new_rows (op_bind m f)"
  unfolding no_new_rows_def by (simp add: op_bind_def split_beta split: sum.split) (meson order_trans)

lemma no_new_rows_try: "no_new_rows m \<Longrightarrow> (\<And>x. no_new_rows (h x)) \<Longrightarrow> no_new_rows (op_try m h)"
  unfolding no_new_rows_def by (simp add: op_try_def split_beta split: sum.split) (meson order_trans)

lemma no_new_rows_attempt: "no_new_rows m \<Longrightarrow> no_new_rows (op_attempt m)"
  by (simp add: no_new_rows_def op_attempt_def split_beta)

lemma no_new_rows_gate: "gate m \<Longrightarrow> no_new_rows m"
  by (simp add: no_new_rows_def gate_def)

lemma no_new_rows_on_host: "no_new_rows (on_host m)"
  by (simp add: no_new_rows_def on_host_def split_beta)

lemma no_new_rows_simple: "no_new_rows (op_raise x)" "no_new_rows (op_return y)" "no_new_rows (op_get f)"
  "no_new_rows (op_guard b err)" "no_new_rows (on_host_value g)"
  by (simp_all add: no_new_rows_gate)

lemma rows_above_update: "(\<And>k. vk_id (f k) = vk_id k) \<Longrightarrow>
    rows_above a (w\<lparr>db_vpn_keys := update_where P f (db_vpn_keys w)\<rparr>) = rows_above a w"
  unfolding rows_above_def update_where_def by (induction "db_vpn_keys w" arbitrary: w) (simp_all add: filter_map comp_def)

lemma no_new_rows_update: "(\<And>k. vk_id (f k) = vk_id k) \<Longrightarrow> rows_above a (snd (update_keys P f w)) \<le> rows_above a w"
  by (simp add: update_keys_run rows_above_update)

lemma no_new_rows_status: "no_new_rows (on_db (set_status kid st now None))"
  by (simp add: no_new_rows_def on_db_def split_beta key_set_status_run put_row_def rows_above_update)

lemma no_new_rows_revoked: "no_new_rows (on_db (mark_revoked kid actor now))"
  by (simp add: no_new_rows_def on_db_def split_beta mark_revoked_def snd_guard_after no_new_rows_update)

lemma no_new_rows_active: "no_new_rows (on_db (mark_active kid now p q))"
  by (auto simp: no_new_rows_def on_db_def split_beta mark_active_def op_transaction_def op_bind_def op_get_def op_guard_def
      op_return_def update_keys_run rows_above_update)

lemma no_new_rows_delete: "no_new_rows (on_db (hard_delete_with_stats kid now))"
proof -
  have "length (filter (\<lambda>k. vk_id k > a) (filter P ks)) \<le> length (filter (\<lambda>k. vk_id k > a) ks)" for a P and ks :: "vpn_key list"
    by (induction ks) auto
  then show ?thesis by (simp only: no_new_rows_def on_db_def hard_delete_run rows_above_def) simp
qed

lemma no_new_rows_audit: "no_new_rows (system_audit e action kid)"
  by (simp add: no_new_rows_def system_audit_def awg_audit_def on_db_def audit_best_effort_logged rows_above_def)

lemmas no_new_rows_intros = no_new_rows_bind no_new_rows_try no_new_rows_attempt no_new_rows_on_host no_new_rows_simple
  no_new_rows_status no_new_rows_revoked no_new_rows_active no_new_rows_delete no_new_rows_audit

lemma reconcile_key_rows: "no_new_rows (startup_reconcile_key e lib ad k)"
  unfolding startup_reconcile_key_def reconcile_unapplied_def remove_awg_access_def removal_public_key_def
  by (auto intro!: no_new_rows_intros)

lemma reconcile_batch_rows: "no_new_rows (reconcile_batch e lib ad ks su)"
  by (induction ks arbitrary: su) (auto intro!: no_new_rows_intros reconcile_key_rows split: sum.split)

lemma reconcile_batch_returns: "\<exists>su' s'. reconcile_batch e lib ad ks su s = (Inr su', s') \<and> su_checked su' = su_checked su + length ks"
proof (induction ks arbitrary: su s)
  case Nil
  then show ?case by (simp add: op_return_def)
next
  case (Cons k ks)
  obtain r s1 where "startup_reconcile_key e lib ad k s = (r, s1)" by force
  then have "\<exists>s2. reconcile_batch e lib ad (k # ks) su s = reconcile_batch e lib ad ks (tally r su) s2"
    by (cases r) (simp_all add: op_bind_def op_attempt_def system_audit_def awg_audit_def on_db_def audit_best_effort_logged
        op_return_def, blast+)
  moreover have "su_checked (tally r su) = su_checked su + 1" by (simp add: tally_def split: sum.split)
  ultimately show ?case using Cons.IH [of "tally r su"] by auto
qed

lemma batch_drops_rows:
  assumes "next_page statuses last_id w \<noteq> []"
  shows "rows_above (vk_id (last (next_page statuses last_id w))) w < rows_above last_id w"
proof -
  obtain k where k: "k = last (next_page statuses last_id w)" "k \<in> set (db_vpn_keys w)" "vk_id k > last_id"
    using last_of_page [OF assms] by auto
  have "filter (\<lambda>x. vk_id x > vk_id k) (db_vpn_keys w) = filter (\<lambda>x. vk_id x > vk_id k) (filter (\<lambda>x. vk_id x > last_id) (db_vpn_keys w))"
    unfolding filter_filter by (rule filter_cong) (use k(3) in auto)
  also have "length \<dots> < length (filter (\<lambda>x. vk_id x > last_id) (db_vpn_keys w))"
    by (rule length_filter_less [of k]) (use k in auto)
  finally show ?thesis by (simp add: rows_above_def k(1))
qed

lemma enough_fuel:
  assumes "rows_above last_id (sv_db s) < fuel"
  shows "\<exists>su' s'. startup_pages fuel e lib ad last_id su s = (Inr (Some su'), s') \<and> su_checked su \<le> su_checked su'"
  using assms
proof (induction fuel arbitrary: last_id s su)
  case 0
  then show ?case by simp
next
  case (Suc fuel)
  let ?batch = "next_page awg_startup_statuses last_id (sv_db s)"
  show ?case
  proof (cases "?batch = []")
    case True
    then show ?thesis by (simp add: op_bind_def on_db_def op_get_def op_return_def)
  next
    case False
    obtain su1 s1 where batch: "reconcile_batch e lib ad ?batch su s = (Inr su1, s1)" "su_checked su1 = su_checked su + length ?batch"
      using reconcile_batch_returns by metis
    have "rows_above (vk_id (last ?batch)) (sv_db s1) \<le> rows_above (vk_id (last ?batch)) (sv_db s)"
      using reconcile_batch_rows [of e lib ad ?batch su] batch(1) by (metis no_new_rows_def snd_conv)
    then have "rows_above (vk_id (last ?batch)) (sv_db s1) < fuel"
      using batch_drops_rows [OF False] Suc.prems by simp
    from Suc.IH [OF this, of su1] batch False show ?thesis
      by (auto simp: op_bind_def on_db_def op_get_def)
  qed
qed

text \<open>
  C19: the first pass of the reconciliation always ends: with one more page than there are rows,
  whatever the peers do and whichever keys fail, it returns a summary.
\<close>

theorem startup_pass_ends:
  assumes "length (db_vpn_keys (sv_db s)) < fuel"
  shows "\<exists>su' s'. startup_pages fuel e lib ad last_id su s = (Inr (Some su'), s')"
proof -
  have "rows_above last_id (sv_db s) < fuel" using assms le_less_trans [OF length_filter_le] by (simp add: rows_above_def)
  from enough_fuel [OF this] show ?thesis by blast
qed

section \<open>What becomes of a key\<close>

lemma remove_access_keeps_db: "remove_awg_access lib ad k s = (r, s') \<Longrightarrow> sv_db s' = sv_db s"
  by (cases r) (auto simp: remove_awg_access_def removal_public_key_def service_iffs on_host_value_def split: if_splits)

lemma bind_host_value: "g (sv_host s) = Inr x \<Longrightarrow> op_bind (on_host_value g) f s = f x s"
  by (simp add: op_bind_def on_host_value_def)

lemma logged_bind:
  "op_bind (system_audit e action kid) (\<lambda>_. op_return x) s
    = (Inr x, s\<lparr>sv_db := logged e None action EntityVpnKey (Some kid) 0 (sv_db s)\<rparr>)"
  by (simp add: op_bind_def system_audit_def awg_audit_def on_db_def audit_best_effort_logged op_return_def)

lemma settle_row:
  assumes "keys_ok (sv_db s)" "key_get_by_id kid (sv_db s) = Some k"
    "vk_status k \<in> set reserved_statuses \<or> vk_client_ip k = None"
    "op_bind (on_db (set_status kid st now None)) (\<lambda>_. m) s = (r, s')"
  shows "m (s\<lparr>sv_db := put_row kid (with_status st now) (sv_db s)\<rparr>) = (r, s')"
    "key_get_by_id kid (put_row kid (with_status st now) (sv_db s)) = Some (with_status st now k)"
  using assms(4) set_status_reserved [OF assms(1-3)]
  by (simp_all add: op_bind_def on_db_def put_row_get assms(2))

definition status_in :: "int \<Rightarrow> vpn_key_status set \<Rightarrow> 'h service_state \<Rightarrow> bool" where
  "status_in kid sts s \<longleftrightarrow> (\<exists>k. key_get_by_id kid (sv_db s) = Some k \<and> vk_status k \<in> sts)"

lemma unapplied_run:
  assumes ok: "keys_ok (sv_db s)" "key_get_by_id (vk_id k) (sv_db s) = Some k"
    and st: "vk_status k \<in> {KeyPendingApply, KeyApplyFailed}"
    and run: "reconcile_unapplied e lib ad k s = (r, s')"
  shows "case r of Inr _ \<Rightarrow> status_in (vk_id k) {KeyApplyFailed} s' | Inl _ \<Rightarrow> status_in (vk_id k) {vk_status k} s'"
proof -
  have reserved: "vk_status k \<in> set reserved_statuses \<or> vk_client_ip k = None" using st by (auto simp: reserved_statuses_def)
  have settle: "status_in (vk_id k) {KeyApplyFailed} t'" "\<exists>x. q = Inr x"
    if "sv_db t = sv_db s" "op_bind (if vk_status k = KeyPendingApply then on_db (set_status (vk_id k) KeyApplyFailed (ev_now e) None)
                else op_return ()) (\<lambda>_. op_bind (system_audit e action (vk_id k)) (\<lambda>_. op_return True)) t = (q, t')"
    for action t t' and q :: "service_error + bool"
  proof -
    have "status_in (vk_id k) {KeyApplyFailed} t' \<and> (\<exists>x. q = Inr x)"
    proof (cases "vk_status k = KeyPendingApply")
      case True
      with that(2) have step: "op_bind (on_db (set_status (vk_id k) KeyApplyFailed (ev_now e) None)) (\<lambda>_.
          op_bind (system_audit e action (vk_id k)) (\<lambda>_. op_return True)) t = (q, t')" by simp
      have "keys_ok (sv_db t)" "key_get_by_id (vk_id k) (sv_db t) = Some k" using ok that(1) by simp_all
      from settle_row [OF this reserved step] show ?thesis by (auto simp: logged_bind status_in_def)
    next
      case False
      then have "op_bind (system_audit e action (vk_id k)) (\<lambda>_. op_return True) t = (q, t')"
        using that(2) by (simp add: op_bind_def [of "op_return ()"] op_return_def [of "()"])
      with False that(1) ok(2) st show ?thesis by (auto simp: logged_bind status_in_def)
    qed
    then show "status_in (vk_id k) {KeyApplyFailed} t'" "\<exists>x. q = Inr x" by auto
  qed
  show ?thesis
  proof (cases "runtime_peer_present ad k (sv_host s)")
    case True
    obtain r1 s1 where rm: "remove_awg_access lib ad k s = (r1, s1)" by force
    then have db: "sv_db s1 = sv_db s" by (rule remove_access_keeps_db)
    show ?thesis
    proof (cases r1)
      case (Inl err)
      with run rm True db ok(2) show ?thesis
        by (auto simp: reconcile_unapplied_def op_bind_def op_get_def status_in_def)
    next
      case (Inr u)
      with run rm True have "op_bind (if vk_status k = KeyPendingApply then on_db (set_status (vk_id k) KeyApplyFailed (ev_now e) None)
                else op_return ()) (\<lambda>_. op_bind (system_audit e ''awg_startup_runtime_orphan_removed'' (vk_id k)) (\<lambda>_. op_return True)) s1 = (r, s')"
        by (simp add: reconcile_unapplied_def op_bind_def [of "op_get f" for f] op_get_def op_bind_def [of "remove_awg_access a b c" for a b c])
      from settle [OF db this] show ?thesis by auto
    qed
  next
    case False
    show ?thesis
    proof (cases "vk_status k = KeyPendingApply")
      case True
      with run False have "op_bind (if vk_status k = KeyPendingApply then on_db (set_status (vk_id k) KeyApplyFailed (ev_now e) None)
                else op_return ()) (\<lambda>_. op_bind (system_audit e ''awg_startup_pending_apply_failed'' (vk_id k)) (\<lambda>_. op_return True)) s = (r, s')"
        by (simp add: reconcile_unapplied_def op_bind_def [of "op_get f" for f] op_get_def)
      from settle [OF refl this] show ?thesis by auto
    next
      case False
      with run \<open>\<not> runtime_peer_present _ _ _\<close> ok(2) st show ?thesis
        by (auto simp: reconcile_unapplied_def op_bind_def op_get_def op_return_def status_in_def)
    qed
  qed
qed

lemma removal_then:
  assumes "op_bind (remove_awg_access lib ad k) (\<lambda>_. m) s = (r, s')"
  shows "(\<exists>err. r = Inl err \<and> sv_db s' = sv_db s) \<or> (\<exists>s1. sv_db s1 = sv_db s \<and> m s1 = (r, s'))"
proof -
  obtain q t where step: "remove_awg_access lib ad k s = (q, t)" by force
  with assms remove_access_keeps_db [OF step] show ?thesis by (cases q) (auto simp: op_bind_def)
qed

lemma revoking_run:
  assumes "keys_ok (sv_db s)" "key_get_by_id (vk_id k) (sv_db s) = Some k" "vk_status k = KeyPendingRevoke"
    and run: "op_bind (remove_awg_access lib ad k) (\<lambda>_. op_bind (on_db (mark_revoked (vk_id k) actor (ev_now e))) (\<lambda>_.
        op_bind (system_audit e action (vk_id k)) (\<lambda>_. op_return True))) s = (r, s')"
  shows "case r of Inr _ \<Rightarrow> status_in (vk_id k) {KeyRevoked} s' | Inl _ \<Rightarrow> status_in (vk_id k) {KeyPendingRevoke} s'"
  using removal_then [OF run]
proof (elim disjE exE conjE)
  fix err assume "r = Inl err" "sv_db s' = sv_db s"
  then show ?thesis using assms(2,3) by (simp add: status_in_def)
next
  fix s1 assume db: "sv_db s1 = sv_db s" and rest: "op_bind (on_db (mark_revoked (vk_id k) actor (ev_now e))) (\<lambda>_.
        op_bind (system_audit e action (vk_id k)) (\<lambda>_. op_return True)) s1 = (r, s')"
  obtain w where "mark_revoked (vk_id k) actor (ev_now e) (sv_db s) = (Inr (), w)"
    "key_get_by_id (vk_id k) w = Some (revoked_row actor (ev_now e) k)"
    using mark_revoked_effect [OF assms(1,2), of actor "ev_now e"] assms(3) by (auto simp: terminal_def)
  with rest show ?thesis
    by (auto simp: bind_on_db db logged_bind status_in_def revoked_row_def)
qed

lemma deleting_run:
  assumes ok: "keys_ok (sv_db s)" "key_get_by_id (vk_id k) (sv_db s) = Some k" "vk_status k \<in> {KeyPendingDelete, KeyDeleteFailed}"
    and run: "op_bind (op_try (remove_awg_access lib ad k) (\<lambda>err.
            op_bind (on_db (set_status (vk_id k) KeyDeleteFailed (ev_now e) None)) (\<lambda>_. op_raise err))) (\<lambda>_.
        op_bind (on_db (hard_delete_with_stats (vk_id k) (ev_now e))) (\<lambda>_.
        op_bind (system_audit e action (vk_id k)) (\<lambda>_. op_return True))) s = (r, s')"
  shows "case r of Inr _ \<Rightarrow> key_get_by_id (vk_id k) (sv_db s') = None | Inl _ \<Rightarrow> status_in (vk_id k) {KeyDeleteFailed} s'"
proof -
  have reserved: "vk_status k \<in> set reserved_statuses \<or> vk_client_ip k = None" using ok(3) by (auto simp: reserved_statuses_def)
  obtain q t where step: "remove_awg_access lib ad k s = (q, t)" by force
  then have db: "sv_db t = sv_db s" by (rule remove_access_keeps_db)
  show ?thesis
  proof (cases q)
    case (Inl err)
    have "keys_ok (sv_db t)" "key_get_by_id (vk_id k) (sv_db t) = Some k" using ok db by simp_all
    note failed = set_status_reserved [OF this reserved, of KeyDeleteFailed "ev_now e"]
    from run step Inl have "r = Inl err \<and> sv_db s' = put_row (vk_id k) (with_status KeyDeleteFailed (ev_now e)) (sv_db t)"
      by (auto simp: op_bind_def op_try_def on_db_def failed(1) op_raise_def)
    then show ?thesis by (simp add: status_in_def put_row_get db ok(2))
  next
    case (Inr u)
    obtain w where w: "hard_delete_with_stats (vk_id k) (ev_now e) (sv_db s) = (Inr (), w)" by (simp add: hard_delete_run)
    from run step Inr have "op_bind (on_db (hard_delete_with_stats (vk_id k) (ev_now e))) (\<lambda>_.
        op_bind (system_audit e action (vk_id k)) (\<lambda>_. op_return True)) t = (r, s')"
      by (simp add: bind_ok op_try_def)
    with w have "r = Inr True \<and> key_get_by_id (vk_id k) (sv_db s') = key_get_by_id (vk_id k) w"
      by (auto simp: bind_on_db db logged_bind)
    then show ?thesis using hard_delete_gone(2) [OF w] by simp
  qed
qed

text \<open>
  C20: a key met by the first pass is settled, or the pass reports it: when the step returns, the row
  is active (only if a peer of the configuration answers to it), marked as failed, revoked (only
  from a pending revocation) or gone (only from a deletion); when it raises, the status is the one
  before, or that of a failed deletion.
\<close>

theorem startup_settles_key:
  assumes "keys_ok (sv_db s)" "key_get_by_id (vk_id k) (sv_db s) = Some k" "vk_status k \<in> set awg_startup_statuses"
    and "startup_reconcile_key e lib ad k s = (r, s')"
  shows "case r of
      Inr _ \<Rightarrow> key_get_by_id (vk_id k) (sv_db s') = None \<and> vk_status k \<in> {KeyPendingDelete, KeyDeleteFailed}
        \<or> status_in (vk_id k) {KeyActive} s' \<and> vk_status k \<in> {KeyPendingApply, KeyApplyFailed}
          \<and> (\<exists>peer. ad_find_peer ad (vk_public_key k) (vk_client_ip k) (sv_host s) = Inr (Some peer))
        \<or> status_in (vk_id k) {KeyApplyFailed} s' \<and> vk_status k \<in> {KeyPendingApply, KeyApplyFailed}
        \<or> status_in (vk_id k) {KeyRevoked} s' \<and> vk_status k = KeyPendingRevoke
    | Inl _ \<Rightarrow> status_in (vk_id k) {vk_status k, KeyDeleteFailed} s'"
proof -
  from assms(3) consider "vk_status k \<in> {KeyPendingApply, KeyApplyFailed}" | "vk_status k = KeyPendingRevoke"
    | "vk_status k \<in> {KeyPendingDelete, KeyDeleteFailed}" by (auto simp: awg_startup_statuses_def)
  then show ?thesis
  proof cases
    case 1
    then have run: "op_bind (on_host_value (\<lambda>h. backend (ad_find_peer ad (vk_public_key k) (vk_client_ip k) h))) (\<lambda>peer.
        if peer = None then reconcile_unapplied e lib ad k
        else op_bind (on_db (mark_active (vk_id k) (ev_now e) None None)) (\<lambda>_.
             op_bind (system_audit e ''awg_startup_apply_recovered'' (vk_id k)) (\<lambda>_. op_return True))) s = (r, s')"
      using assms(4) by (simp add: startup_reconcile_key_def)
    show ?thesis
    proof (cases "ad_find_peer ad (vk_public_key k) (vk_client_ip k) (sv_host s)")
      case (Inl err)
      with run assms(2) show ?thesis by (auto simp: op_bind_def on_host_value_def backend_def status_in_def)
    next
      case (Inr peer)
      show ?thesis
      proof (cases peer)
        case None
        with run Inr have "reconcile_unapplied e lib ad k s = (r, s')" by (simp add: op_bind_def on_host_value_def backend_def)
        from unapplied_run [OF assms(1,2) 1 this] 1 show ?thesis by (auto simp: status_in_def split: sum.splits)
      next
        case (Some p)
        note active = mark_active_run(1) [OF assms(1,2) 1, of "ev_now e" None None]
        from run Inr Some have "op_bind (on_db (mark_active (vk_id k) (ev_now e) None None)) (\<lambda>_.
             op_bind (system_audit e ''awg_startup_apply_recovered'' (vk_id k)) (\<lambda>_. op_return True)) s = (r, s')"
          by (simp add: bind_ok on_host_value_def backend_def)
        then have "r = Inr True \<and> status_in (vk_id k) {KeyActive} s'"
          using active by (auto simp: bind_on_db logged_bind status_in_def put_row_get assms(2))
        with Inr Some 1 show ?thesis by auto
      qed
    qed
  next
    case 2
    with assms(4) have "op_bind (remove_awg_access lib ad k) (\<lambda>_. op_bind (on_db (mark_revoked (vk_id k) (first_actor k) (ev_now e)))
        (\<lambda>_. op_bind (system_audit e ''awg_startup_revoke_completed'' (vk_id k)) (\<lambda>_. op_return True))) s = (r, s')"
      by (simp add: startup_reconcile_key_def)
    from revoking_run [OF assms(1,2) 2 this] 2 show ?thesis by (auto simp: status_in_def split: sum.splits)
  next
    case 3
    with assms(4) have "op_bind (op_try (remove_awg_access lib ad k) (\<lambda>err.
            op_bind (on_db (set_status (vk_id k) KeyDeleteFailed (ev_now e) None)) (\<lambda>_. op_raise err))) (\<lambda>_.
        op_bind (on_db (hard_delete_with_stats (vk_id k) (ev_now e))) (\<lambda>_.
        op_bind (system_audit e ''awg_startup_delete_completed'' (vk_id k)) (\<lambda>_. op_return True))) s = (r, s')"
      by (auto simp: startup_reconcile_key_def)
    from deleting_run [OF assms(1,2) 3 this] 3 show ?thesis by (auto simp: status_in_def split: sum.splits)
  qed
qed

text \<open>
  A key whose creation failed becomes active at the next start as soon as any peer of the
  configuration has its address, whatever that peer's public key and owner: the look-up matches the
  public key or the address. The configuration is not touched, so the key may own no peer at all.
\<close>

theorem startup_activates_by_address:
  assumes "keys_ok (sv_db s)" "key_get_by_id (vk_id k) (sv_db s) = Some k" "vk_status k = KeyApplyFailed"
    and "tn_config (sv_host s) = Some t" "find_peer (lb_v6 lib) (lb_in6 lib) t None (vk_client_ip k) = Inr (Some peer)"
  shows "\<exists>s'. startup_reconcile_key e lib (tunnel_adapter lib tool io dump) k s = (Inr True, s')
    \<and> status_in (vk_id k) {KeyActive} s' \<and> sv_host s' = sv_host s"
proof -
  obtain ss where ss: "parse_sections t = Inr ss" "find_peer_in (lb_v6 lib) (lb_in6 lib) ss None (vk_client_ip k) = Some peer"
    using assms(5) by (auto simp: find_peer_def split: sum.splits)
  then obtain x where "x \<in> set ss" "peer_matches (lb_v6 lib) (lb_in6 lib) None (vk_client_ip k) x"
    by (auto simp: find_peer_in_def find_Some_iff set_conv_nth)
  then have "find (peer_matches (lb_v6 lib) (lb_in6 lib) (vk_public_key k) (vk_client_ip k)) ss \<noteq> None"
    by (auto simp: find_None_iff peer_matches_def truthy_eq_def)
  then obtain p where found: "ad_find_peer (tunnel_adapter lib tool io dump) (vk_public_key k) (vk_client_ip k) (sv_host s) = Inr (Some p)"
    using ss(1) assms(4) by (auto simp: tunnel_adapter_def config_or_def find_peer_def find_peer_in_def)
  have "vk_status k \<in> {KeyPendingApply, KeyApplyFailed}" using assms(3) by simp
  from mark_active_run(1) [OF assms(1,2) this, of "ev_now e" None None] found assms(2,3) show ?thesis
    by (simp add: startup_reconcile_key_def bind_host_value backend_def bind_on_db logged_bind status_in_def put_row_get)
qed

section \<open>Examples\<close>

definition demo_failed_key :: vpn_key where
  "demo_failed_key = (demo_key 1 KeyApplyFailed)\<lparr>vk_public_key := Some ''K9''\<rparr>"

definition demo_startup :: "string list tunnel service_state" where
  "demo_startup = demo_service\<lparr>sv_db := demo_keys\<lparr>db_vpn_keys := [demo_failed_key, demo_key 2 KeyRevoked]\<rparr>\<rparr>"

lemma demo_startup_ok:
  "keys_ok (sv_db demo_startup)" "key_get_by_id (vk_id demo_failed_key) (sv_db demo_startup) = Some demo_failed_key"
  "vk_status demo_failed_key = KeyApplyFailed" "tn_config (sv_host demo_startup) = Some demo_conf"
  "vk_client_ip demo_failed_key = Some ''10.8.0.2''" "vk_id demo_failed_key = 1"
  by (simp_all add: keys_ok_def keys_unique_def unique_column_def map_filter_simps demo_startup_def demo_failed_key_def
      demo_keys_def demo_key_def empty_world_def reserved_ip_def reserved_statuses_def key_seq_def key_get_by_id_def
      demo_service_def demo_tunnel_def)

lemma demo_peer_found:
  "find_peer (\<lambda>_. False) (\<lambda>_ _. False) demo_conf None (Some ''10.8.0.2'')
    = Inr (Some [(''PublicKey'', ''K1''), (''AllowedIPs'', ''10.8.0.2/32'')])"
proof -
  have octets: "parse_octet ''10'' = Some 10" "parse_octet ''8'' = Some 8" "parse_octet ''0'' = Some 0"
    "parse_octet ''2'' = Some 2" and prefix: "parse_mask ''32'' = Some 32" and part: "strip ''10.8.0.2/32'' = ''10.8.0.2/32''"
    by code_simp+
  then show ?thesis
    by (simp add: find_peer_def demo_conf_parses find_peer_in_def peer_matches_def truthy_eq_def option_or_def
        allowed_ips_contains_def ip_network_def ip_address_def parse_addr_prefix_def parse_ipv4_int_def in_net_def num_addresses_def)
qed

lemma startup_activates_by_address_witness:
  "\<exists>s'. startup_reconcile_key service_env plain_library demo_adapter demo_failed_key demo_startup = (Inr True, s')
    \<and> status_in 1 {KeyActive} s' \<and> sv_host s' = demo_tunnel"
proof -
  have host: "sv_host demo_startup = demo_tunnel" by (simp add: demo_startup_def demo_service_def)
  from startup_activates_by_address [OF demo_startup_ok(1-4), of plain_library] demo_peer_found show ?thesis
    by (simp add: demo_startup_ok(5,6) plain_library_def host)
qed

lemma startup_settles_key_witness:
  "\<not> status_in 1 {KeyPendingApply} (snd (startup_reconcile_key service_env plain_library demo_adapter demo_failed_key demo_startup))"
proof -
  obtain r s' where run: "startup_reconcile_key service_env plain_library demo_adapter demo_failed_key demo_startup = (r, s')"
    by force
  have "vk_status demo_failed_key \<in> set awg_startup_statuses" by (simp add: demo_startup_ok(3) awg_startup_statuses_def)
  from startup_settles_key [OF demo_startup_ok(1,2) this run] run show ?thesis
    by (auto simp: demo_startup_ok(3,6) status_in_def split: sum.splits)
qed

lemma startup_pass_ends_witness:
  "\<exists>su' s'. startup_pages 3 service_env plain_library demo_adapter 0 \<lparr>su_checked = 0, su_recovered = 0, su_failed = 0\<rparr> demo_startup
    = (Inr (Some su'), s')"
  by (rule startup_pass_ends) (simp add: demo_startup_def demo_keys_def)

lemma key_pages_complete_witness: "awg_keys_from all_key_statuses 0 (sv_db demo_startup) = [demo_failed_key, demo_key 2 KeyRevoked]"
proof -
  have "keys_above all_key_statuses 0 (sv_db demo_startup) = [demo_failed_key, demo_key 2 KeyRevoked]"
    by (simp add: keys_above_def demo_startup_def demo_keys_def demo_failed_key_def demo_key_def all_key_statuses_def)
  with key_pages_complete [OF demo_startup_ok(1)] show ?thesis by simp
qed

end
