(* ===== verification/Proxy_Repo.thy ===== *)
theory Proxy_Repo
  imports Vpn_Keys
begin

text \<open>
  \<open>repositories/proxy_accesses.py\<close>: the table of SOCKS5 and MTProto accesses, its status changes
  and the queries and totals over it. The partial unique index of \<open>db/database.py\<close> lets an owner
  have one access of each type that is pending, active or being revoked; a write that would break
  it raises \<open>IntegrityError\<close>. JSON columns are their parsed objects.
\<close>

section \<open>Constraints and writes\<close>

definition live_proxy_statuses :: "proxy_access_status list" where
  "live_proxy_statuses = [ProxyPendingApply, ProxyActive, ProxyPendingRevoke]"

text \<open>The columns of \<open>idx_proxy_accesses_one_live_per_user_type\<close>, for a row the index covers.\<close>

definition live_slot :: "proxy_access \<Rightarrow> (int \<times> proxy_access_type) option" where
  "live_slot p = (if pa_status p \<in> set live_proxy_statuses then Some (pa_owner_user_id p, pa_access_type p) else None)"

definition proxies_unique :: "proxy_access list \<Rightarrow> bool" where
  "proxies_unique ps \<longleftrightarrow> distinct (map pa_id ps) \<and> unique_column live_slot ps"

abbreviation has_proxy_id :: "int \<Rightarrow> proxy_access \<Rightarrow> bool" where
  "has_proxy_id i \<equiv> (\<lambda>p. pa_id p = i)"

definition write_proxies :: "(proxy_access list \<Rightarrow> proxy_access list) \<Rightarrow> unit act" where
  "write_proxies f = op_bind (op_get (\<lambda>w. f (db_proxy_accesses w))) (\<lambda>ps.
     op_bind (op_guard (proxies_unique ps) (IntegrityError ''proxy_accesses'')) (\<lambda>_.
     op_modify (\<lambda>w. w\<lparr>db_proxy_accesses := ps\<rparr>)))"

definition update_proxies :: "(proxy_access \<Rightarrow> bool) \<Rightarrow> (proxy_access \<Rightarrow> proxy_access) \<Rightarrow> int act" where
  "update_proxies P f = op_bind (op_get (\<lambda>w. count_where P (db_proxy_accesses w))) (\<lambda>rowcount.
     op_bind (write_proxies (update_where P f)) (\<lambda>_. op_return rowcount))"

definition proxy_get_by_id :: "int \<Rightarrow> world \<Rightarrow> proxy_access option" where
  "proxy_get_by_id i w = find (has_proxy_id i) (db_proxy_accesses w)"

record proxy_draft =
  pd_owner_user_id :: int
  pd_username :: "string option"
  pd_access_type :: proxy_access_type
  pd_status :: proxy_access_status
  pd_payload :: payload
  pd_public_payload :: payload
  pd_created_by :: int
  pd_secret_fingerprint :: "string option"

definition new_proxy_row :: "proxy_draft \<Rightarrow> string \<Rightarrow> int \<Rightarrow> proxy_access" where
  "new_proxy_row d now i =
     \<lparr>pa_id = i, pa_owner_user_id = pd_owner_user_id d, pa_username = pd_username d,
      pa_access_type = pd_access_type d, pa_status = pd_status d, pa_payload = pd_payload d,
      pa_public_payload = pd_public_payload d, pa_created_at = now, pa_updated_at = now,
      pa_last_shown_at = None, pa_revoked_at = None, pa_deleted_at = None, pa_created_by = pd_created_by d,
      pa_revoked_by = None, pa_deleted_by = None, pa_reason = None, pa_error = None,
      pa_secret_fingerprint = pd_secret_fingerprint d, pa_apply_generation = 0, pa_activated_at = None,
      pa_last_apply_at = None\<rparr>"

definition proxy_create :: "proxy_draft \<Rightarrow> string \<Rightarrow> proxy_access act" where
  "proxy_create d now = op_bind (op_get id) (\<lambda>w.
     op_bind (op_guard (user_get_by_id (pd_owner_user_id d) w \<noteq> None \<and> user_get_by_id (pd_created_by d) w \<noteq> None)
                (IntegrityError ''FOREIGN KEY'')) (\<lambda>_.
     let i = db_proxy_access_seq w + 1
     in op_bind (write_proxies (\<lambda>ps. ps @ [new_proxy_row d now i])) (\<lambda>_.
        op_bind (op_modify (\<lambda>w'. w'\<lparr>db_proxy_access_seq := i\<rparr>)) (\<lambda>_.
        op_bind (op_get (proxy_get_by_id i)) (\<lambda>found.
        case found of None \<Rightarrow> op_raise (RuntimeFailure ''insert'') | Some p \<Rightarrow> op_return p)))))"

section \<open>Queries\<close>

definition proxies_oldest_first :: "(proxy_access \<Rightarrow> bool) \<Rightarrow> (proxy_access \<Rightarrow> string) \<Rightarrow> int \<Rightarrow> int \<Rightarrow> world \<Rightarrow> proxy_access list" where
  "proxies_oldest_first P key limit offset w =
     page limit offset (sort_key key (sort_key pa_id (filter P (db_proxy_accesses w))))"

definition proxy_list_by_owner :: "int \<Rightarrow> bool \<Rightarrow> int \<Rightarrow> int \<Rightarrow> world \<Rightarrow> proxy_access list" where
  "proxy_list_by_owner owner include_deleted =
     proxies_oldest_first (\<lambda>p. pa_owner_user_id p = owner \<and> (include_deleted \<or> pa_status p \<noteq> ProxyDeleted)) pa_created_at"

definition proxy_list_by_owner_statuses ::
  "int \<Rightarrow> proxy_access_status list \<Rightarrow> int \<Rightarrow> int \<Rightarrow> world \<Rightarrow> proxy_access list" where
  "proxy_list_by_owner_statuses owner statuses =
     proxies_oldest_first (\<lambda>p. pa_owner_user_id p = owner \<and> pa_status p \<in> set statuses) pa_updated_at"

definition find_user_access_by_type_statuses ::
  "int \<Rightarrow> proxy_access_type \<Rightarrow> proxy_access_status list \<Rightarrow> world \<Rightarrow> proxy_access option" where
  "find_user_access_by_type_statuses owner t statuses w =
     (case sort_key pa_id (filter (\<lambda>p. pa_owner_user_id p = owner \<and> pa_access_type p = t \<and> pa_status p \<in> set statuses)
        (db_proxy_accesses w)) of [] \<Rightarrow> None | p # _ \<Rightarrow> Some p)"

definition newest_proxy :: "(proxy_access \<Rightarrow> bool) \<Rightarrow> world \<Rightarrow> proxy_access option" where
  "newest_proxy P w = (case sort_desc pa_created_at (filter (\<lambda>p. P p \<and> pa_status p \<notin> {ProxyDeleted, ProxyInactive})
        (db_proxy_accesses w)) of [] \<Rightarrow> None | p # _ \<Rightarrow> Some p)"

definition find_by_socks5_login :: "string \<Rightarrow> world \<Rightarrow> proxy_access option" where
  "find_by_socks5_login login =
     newest_proxy (\<lambda>p. pa_access_type p = SOCKS5 \<and> json_get (pa_payload p) ''login'' = JStr login)"

definition find_by_secret_fingerprint :: "string \<Rightarrow> world \<Rightarrow> proxy_access option" where
  "find_by_secret_fingerprint fingerprint =
     newest_proxy (\<lambda>p. pa_access_type p = MTPROTO \<and> pa_secret_fingerprint p = Some fingerprint)"

definition proxy_list_by_type_statuses ::
  "proxy_access_type \<Rightarrow> proxy_access_status list \<Rightarrow> int \<Rightarrow> int \<Rightarrow> world \<Rightarrow> proxy_access list" where
  "proxy_list_by_type_statuses t statuses limit after_id w =
     take (nat (clamp_limit limit)) (sort_key pa_id
       (filter (\<lambda>p. pa_access_type p = t \<and> pa_status p \<in> set statuses \<and> pa_id p > after_id) (db_proxy_accesses w)))"

section \<open>Status changes\<close>

text \<open>The error column: at most 512 characters, an empty text is no error.\<close>

definition stored_error :: "string option \<Rightarrow> string option" where
  "stored_error error = (case error of None \<Rightarrow> None | Some t \<Rightarrow> if t = [] then None else Some (take 512 t))"

definition first_of :: "'a option \<Rightarrow> 'a option \<Rightarrow> 'a option" where
  "first_of a b = (case a of None \<Rightarrow> b | Some _ \<Rightarrow> a)"

definition active_proxy :: "string \<Rightarrow> payload option \<Rightarrow> payload option \<Rightarrow> int option \<Rightarrow> proxy_access \<Rightarrow> proxy_access" where
  "active_proxy now p q generation a =
     a\<lparr>pa_status := ProxyActive, pa_updated_at := now, pa_activated_at := first_of (pa_activated_at a) (Some now),
       pa_last_apply_at := Some now,
       pa_apply_generation := (case generation of None \<Rightarrow> pa_apply_generation a | Some g \<Rightarrow> g), pa_error := None,
       pa_payload := (case p of None \<Rightarrow> pa_payload a | Some x \<Rightarrow> x),
       pa_public_payload := (case q of None \<Rightarrow> pa_public_payload a | Some x \<Rightarrow> x)\<rparr>"

definition proxy_mark_active :: "int \<Rightarrow> string \<Rightarrow> payload option \<Rightarrow> payload option \<Rightarrow> int option \<Rightarrow> unit act" where
  "proxy_mark_active i now p q generation = op_transaction (
     op_bind (op_get (proxy_get_by_id i)) (\<lambda>current.
     op_bind (op_guard (current \<noteq> None) (RuntimeFailure ''Proxy access not found'')) (\<lambda>_.
     op_bind (update_proxies (\<lambda>a. pa_id a = i \<and> pa_status a \<in> {ProxyPendingApply, ProxyApplyFailed})
                (active_proxy now p q generation)) (\<lambda>_.
     op_return ()))))"

definition proxy_update_payloads :: "int \<Rightarrow> string \<Rightarrow> payload \<Rightarrow> payload \<Rightarrow> string option \<Rightarrow> unit act" where
  "proxy_update_payloads i now p q fingerprint =
     op_bind (update_proxies (has_proxy_id i)
       (\<lambda>a. a\<lparr>pa_payload := p, pa_public_payload := q,
              pa_secret_fingerprint := first_of fingerprint (pa_secret_fingerprint a), pa_updated_at := now\<rparr>)) (\<lambda>_.
     op_return ())"

definition status_proxy :: "proxy_access_status \<Rightarrow> string \<Rightarrow> string option \<Rightarrow> string option \<Rightarrow> proxy_access \<Rightarrow> proxy_access" where
  "status_proxy status now error reason a =
     a\<lparr>pa_status := status, pa_updated_at := now, pa_error := stored_error error,
       pa_reason := first_of reason (pa_reason a)\<rparr>"

definition proxy_set_status ::
  "int \<Rightarrow> proxy_access_status \<Rightarrow> string \<Rightarrow> string option \<Rightarrow> string option \<Rightarrow> proxy_access_status list option \<Rightarrow> unit act" where
  "proxy_set_status i status now error reason allowed =
     (case allowed of
        Some (s # ss) \<Rightarrow>
          op_bind (update_proxies (\<lambda>a. pa_id a = i \<and> pa_status a \<in> set (s # ss)) (status_proxy status now error reason))
            (\<lambda>rowcount. op_guard (rowcount \<noteq> 0) ConcurrentModificationError)
      | _ \<Rightarrow> op_bind (update_proxies (has_proxy_id i) (status_proxy status now error reason)) (\<lambda>_. op_return ()))"

definition proxy_mark_shown :: "int \<Rightarrow> string \<Rightarrow> unit act" where
  "proxy_mark_shown i now =
     op_bind (update_proxies (has_proxy_id i) (\<lambda>a. a\<lparr>pa_last_shown_at := Some now, pa_updated_at := now\<rparr>)) (\<lambda>_.
     op_return ())"

definition revoked_proxy :: "int \<Rightarrow> string \<Rightarrow> string option \<Rightarrow> proxy_access \<Rightarrow> proxy_access" where
  "revoked_proxy actor now reason a =
     a\<lparr>pa_status := ProxyRevoked, pa_updated_at := now, pa_revoked_at := first_of (pa_revoked_at a) (Some now),
       pa_revoked_by := first_of (pa_revoked_by a) (Some actor), pa_reason := first_of reason (pa_reason a),
       pa_last_apply_at := Some now, pa_error := None\<rparr>"

definition proxy_mark_revoked :: "int \<Rightarrow> int \<Rightarrow> string \<Rightarrow> string option \<Rightarrow> unit act" where
  "proxy_mark_revoked i actor now reason =
     op_bind (update_proxies (\<lambda>a. pa_id a = i \<and> pa_status a \<notin> {ProxyRevoked, ProxyDeleted})
       (revoked_proxy actor now reason)) (\<lambda>rowcount.
     op_guard (rowcount = 1) (InvalidTransition ''already revoked or deleted''))"

definition inactive_proxy :: "int \<Rightarrow> string \<Rightarrow> string option \<Rightarrow> proxy_access \<Rightarrow> proxy_access" where
  "inactive_proxy actor now reason a =
     a\<lparr>pa_status := ProxyInactive, pa_updated_at := now, pa_revoked_at := first_of (pa_revoked_at a) (Some now),
       pa_revoked_by := first_of (pa_revoked_by a) (Some actor), pa_reason := first_of reason (pa_reason a),
       pa_error := None\<rparr>"

definition proxy_mark_inactive :: "int \<Rightarrow> int \<Rightarrow> string \<Rightarrow> string option \<Rightarrow> unit act" where
  "proxy_mark_inactive i actor now reason =
     op_bind (update_proxies (\<lambda>a. pa_id a = i \<and> pa_status a \<notin> {ProxyInactive, ProxyRevoked, ProxyDeleted})
       (inactive_proxy actor now reason)) (\<lambda>rowcount.
     op_guard (rowcount = 1) (InvalidTransition ''already inactive, revoked or deleted''))"

definition deleted_proxy :: "int \<Rightarrow> string \<Rightarrow> string option \<Rightarrow> proxy_access \<Rightarrow> proxy_access" where
  "deleted_proxy actor now reason a =
     a\<lparr>pa_status := ProxyDeleted, pa_updated_at := now, pa_deleted_at := first_of (pa_deleted_at a) (Some now),
       pa_deleted_by := first_of (pa_deleted_by a) (Some actor), pa_reason := first_of reason (pa_reason a),
       pa_error := None\<rparr>"

definition proxy_mark_deleted :: "int \<Rightarrow> int \<Rightarrow> string \<Rightarrow> string option \<Rightarrow> unit act" where
  "proxy_mark_deleted i actor now reason =
     op_bind (update_proxies (\<lambda>a. pa_id a = i \<and> pa_status a \<noteq> ProxyDeleted) (deleted_proxy actor now reason)) (\<lambda>rowcount.
     op_guard (rowcount = 1) (InvalidTransition ''already deleted''))"

end
