(* ===== verification/Blocking.thy ===== *)
theory Blocking
  imports Service_State Key_Rows Proxy_Repo Op_Steps
begin

text \<open>
  \<open>UserService.block_user\<close> of \<open>services/users.py\<close>: the user is blocked first, then every key and proxy
  access that may still let it in is revoked through the service of its type, whatever the single
  revocations raise; and \<open>inspect_unblock_risk\<close>, which reads what a block left. The services are
  arguments: a table from the type to the revoker, absent when none was attached.
\<close>

datatype access_kind = KeyKind vpn_key_type | ProxyKind proxy_access_type

record access_error =
  ke_id :: int
  ke_kind :: access_kind
  ke_error :: string

record 'h revokers =
  bk_keys :: "(vpn_key_type \<times> (int \<Rightarrow> int \<Rightarrow> ('h, vpn_key) service_op)) list option"
  bk_proxies :: "(proxy_access_type \<times> (int \<Rightarrow> int \<Rightarrow> string option \<Rightarrow> ('h, proxy_access) service_op)) list option"

definition access_key_statuses :: "vpn_key_status list" where
  "access_key_statuses = [KeyActive, KeyPendingApply, KeyApplyFailed, KeyPendingRevoke, KeyPendingDelete, KeyDeleteFailed]"

definition access_proxy_statuses :: "proxy_access_status list" where
  "access_proxy_statuses = [ProxyActive, ProxyPendingApply, ProxyApplyFailed, ProxyPendingRevoke, ProxyRevokeFailed,
     ProxyPendingDelete, ProxyDeleteFailed]"

section \<open>The revocation loops\<close>

record revoke_progress =
  rp_revoked :: "int list"
  rp_failed :: "int list"
  rp_errors :: "access_error list"

definition revoke_failed :: "int \<Rightarrow> access_kind \<Rightarrow> string \<Rightarrow> revoke_progress \<Rightarrow> revoke_progress" where
  "revoke_failed i kind m p = p\<lparr>rp_failed := rp_failed p @ [i], rp_errors := rp_errors p @ [\<lparr>ke_id = i, ke_kind = kind, ke_error = m\<rparr>]\<rparr>"

definition revoke_done :: "int \<Rightarrow> revoke_progress \<Rightarrow> revoke_progress" where
  "revoke_done i p = p\<lparr>rp_revoked := rp_revoked p @ [i]\<rparr>"

fun attempt_all ::
  "('r \<Rightarrow> int) \<Rightarrow> ('r \<Rightarrow> access_kind) \<Rightarrow> ('r \<Rightarrow> ('h, unit) service_op option) \<Rightarrow> 'r list \<Rightarrow> revoke_progress
     \<Rightarrow> ('h, revoke_progress) service_op" where
  "attempt_all rid kind attempt [] p = op_return p"
| "attempt_all rid kind attempt (r # rs) p = (case attempt r of
     None \<Rightarrow> attempt_all rid kind attempt rs (revoke_failed (rid r) (kind r) ''no revoker'' p)
   | Some m \<Rightarrow> op_bind (op_attempt m) (\<lambda>out.
       attempt_all rid kind attempt rs (case out of
         Inr _ \<Rightarrow> revoke_done (rid r) p | Inl err \<Rightarrow> revoke_failed (rid r) (kind r) (error_text err) p)))"

definition stuck_errors :: "('r \<Rightarrow> int) \<Rightarrow> ('r \<Rightarrow> access_kind) \<Rightarrow> 'r list \<Rightarrow> revoke_progress \<Rightarrow> access_error list" where
  "stuck_errors rid kind rows p = map (\<lambda>r. \<lparr>ke_id = rid r, ke_kind = kind r, ke_error = ''stuck in re-list''\<rparr>)
     (filter (\<lambda>r. rid r \<in> set (rp_revoked p)) rows)"

definition untried :: "('r \<Rightarrow> int) \<Rightarrow> 'r list \<Rightarrow> revoke_progress \<Rightarrow> 'r list" where
  "untried rid rows p = filter (\<lambda>r. rid r \<notin> set (rp_revoked p) \<and> rid r \<notin> set (rp_failed p)) rows"

text \<open>The \<open>while True\<close> of both loops; out of fuel is \<open>None\<close>.\<close>

fun revoke_rounds ::
  "nat \<Rightarrow> (world \<Rightarrow> 'r list) \<Rightarrow> ('r \<Rightarrow> int) \<Rightarrow> ('r \<Rightarrow> access_kind) \<Rightarrow> ('r \<Rightarrow> ('h, unit) service_op option) \<Rightarrow> revoke_progress
     \<Rightarrow> ('h, revoke_progress option) service_op" where
  "revoke_rounds 0 listed rid kind attempt p = op_return None"
| "revoke_rounds (Suc fuel) listed rid kind attempt p =
     op_bind (on_db (op_get listed)) (\<lambda>rows.
     if rows = [] then op_return (Some p)
     else if untried rid rows p = [] then op_return (Some (p\<lparr>rp_errors := rp_errors p @ stuck_errors rid kind rows p\<rparr>))
     else op_bind (attempt_all rid kind attempt (untried rid rows p) p) (\<lambda>p'.
          revoke_rounds fuel listed rid kind attempt p'))"

definition no_progress :: "access_error list \<Rightarrow> revoke_progress" where
  "no_progress errors = \<lparr>rp_revoked = [], rp_failed = [], rp_errors = errors\<rparr>"

definition key_attempt :: "(vpn_key_type \<times> (int \<Rightarrow> int \<Rightarrow> ('h, vpn_key) service_op)) list \<Rightarrow> int \<Rightarrow> vpn_key \<Rightarrow> ('h, unit) service_op option" where
  "key_attempt table actor k = map_option (\<lambda>f. op_bind (f actor (vk_id k)) (\<lambda>_. op_return ())) (map_of table (vk_key_type k))"

definition proxy_attempt ::
  "(proxy_access_type \<times> (int \<Rightarrow> int \<Rightarrow> string option \<Rightarrow> ('h, proxy_access) service_op)) list \<Rightarrow> int \<Rightarrow> proxy_access \<Rightarrow> ('h, unit) service_op option" where
  "proxy_attempt table actor a =
     map_option (\<lambda>f. op_bind (f actor (pa_id a) (Some ''hard_block'')) (\<lambda>_. op_return ())) (map_of table (pa_access_type a))"

definition revoke_all_access_keys ::
  "nat \<Rightarrow> 'h revokers \<Rightarrow> int \<Rightarrow> int \<Rightarrow> ('h, revoke_progress option) service_op" where
  "revoke_all_access_keys fuel rv actor target = (case bk_keys rv of
     Some (x # table) \<Rightarrow> revoke_rounds fuel (list_by_owner_statuses target access_key_statuses 500 0) vk_id
       (\<lambda>k. KeyKind (vk_key_type k)) (key_attempt (x # table) actor) (no_progress [])
   | _ \<Rightarrow> op_return (Some (no_progress [\<lparr>ke_id = 0, ke_kind = KeyKind XRAY, ke_error = ''revokers not attached''\<rparr>])))"

definition revoke_all_proxy_accesses ::
  "nat \<Rightarrow> 'h revokers \<Rightarrow> int \<Rightarrow> int \<Rightarrow> access_error list \<Rightarrow> ('h, revoke_progress option) service_op" where
  "revoke_all_proxy_accesses fuel rv actor target errors = (case bk_proxies rv of
     Some (x # table) \<Rightarrow> revoke_rounds fuel (proxy_list_by_owner_statuses target access_proxy_statuses 500 0) pa_id
       (\<lambda>a. ProxyKind (pa_access_type a)) (proxy_attempt (x # table) actor) (no_progress errors)
   | _ \<Rightarrow> op_return (Some (no_progress errors)))"

section \<open>Blocking\<close>

record block_result =
  br_user :: user
  br_revoked_keys :: "int list"
  br_errors :: "access_error list"
  br_revoked_proxies :: "int list"

definition block_gates :: "env \<Rightarrow> int \<Rightarrow> int \<Rightarrow> unit act" where
  "block_gates e actor target =
     op_bind (require_moderator_or_admin actor) (\<lambda>a.
     op_bind (op_guard (target \<notin> set (ev_admin_ids e)) (InvalidOperation ''superadmin from ADMIN_IDS'')) (\<lambda>_.
     op_bind (get_user target) (\<lambda>u.
     op_bind (op_guard (u_role u \<noteq> SUPERADMIN) (InvalidOperation ''superadmin'')) (\<lambda>_.
     op_guard (\<not> (u_role a = MODERATOR \<and> u_role u = MODERATOR)) (AccessDenied ''moderator blocks moderator'')))))"

definition mark_blocked :: "env \<Rightarrow> int \<Rightarrow> int \<Rightarrow> unit act" where
  "mark_blocked e actor target =
     op_bind (repo_set_role target BLOCKED_USER (ev_now e) (Some (ev_now e))) (\<lambda>_.
     op_bind (audit_write_best_effort e (Some actor) ''user_blocked'' EntityUser (Some target) 0) (\<lambda>_.
     clear_user_state target))"

text \<open>
  The last entry of the log; \<open>fits\<close> tells whether its details stay below the 32 KB of
  \<open>repositories/audit_log.py\<close>, above which they are dropped and the error count with them.
\<close>

definition report_block :: "env \<Rightarrow> bool \<Rightarrow> int \<Rightarrow> int \<Rightarrow> access_error list \<Rightarrow> unit act" where
  "report_block e fits actor target errors =
     audit_write_best_effort e (Some actor) (if errors = [] then ''user_blocked'' else ''user_blocked_with_revoke_errors'')
       EntityUser (Some target) (if fits then int (length errors) else 0)"

definition block_user ::
  "nat \<Rightarrow> env \<Rightarrow> 'h revokers \<Rightarrow> (access_error list \<Rightarrow> bool) \<Rightarrow> int \<Rightarrow> int \<Rightarrow> bool \<Rightarrow> ('h, block_result option) service_op" where
  "block_user fuel e rv fits actor target revoke_active_keys =
     op_bind (on_db (block_gates e actor target)) (\<lambda>_.
     op_bind (on_db (mark_blocked e actor target)) (\<lambda>_.
     op_bind (if revoke_active_keys then revoke_all_access_keys fuel rv actor target else op_return (Some (no_progress []))) (\<lambda>keys.
     case keys of None \<Rightarrow> op_return None | Some k \<Rightarrow>
     op_bind (if revoke_active_keys then revoke_all_proxy_accesses fuel rv actor target (rp_errors k)
              else op_return (Some (no_progress (rp_errors k)))) (\<lambda>proxies.
     case proxies of None \<Rightarrow> op_return None | Some p \<Rightarrow>
     op_bind (on_db (report_block e (fits (rp_errors p)) actor target (rp_errors p))) (\<lambda>_.
     op_bind (on_db (get_user target)) (\<lambda>u.
     op_return (Some \<lparr>br_user = u, br_revoked_keys = rp_revoked k, br_errors = rp_errors p, br_revoked_proxies = rp_revoked p\<rparr>)))))))"

section \<open>The risk of unblocking\<close>

text \<open>\<open>list_recent_for_entity\<close> of \<open>repositories/audit_log.py\<close>: newest first, the later entry first on a tie.\<close>

definition recent_for_entity :: "audit_entity_type \<Rightarrow> int \<Rightarrow> string list \<Rightarrow> int \<Rightarrow> world \<Rightarrow> audit_entry list" where
  "recent_for_entity t i actions limit w = take (nat (max 1 (min limit 50))) (rev (sort_key au_created_at
     (filter (\<lambda>x. au_entity_type x = t \<and> au_entity_id x = Some i \<and> (actions = [] \<or> au_action x \<in> set actions)) (db_audit w))))"

definition block_error_actions :: "string list" where
  "block_error_actions = [''user_blocked_with_revoke_errors'', ''user_block_failed'']"

definition positive_int :: "int \<Rightarrow> int" where
  "positive_int n = max n 0"

definition last_block_revoke_error :: "int \<Rightarrow> world \<Rightarrow> int \<times> string option" where
  "last_block_revoke_error target w =
     (case find (\<lambda>x. au_action x \<in> set block_error_actions \<or> positive_int (au_error_count x) > 0)
             (recent_for_entity EntityUser target (block_error_actions @ [''user_blocked'']) 5 w) of
        None \<Rightarrow> (0, None)
      | Some x \<Rightarrow> (max (positive_int (au_error_count x)) 1, if au_created_at x = [] then None else Some (au_created_at x)))"

datatype unblock_reason = PreviousRevokeErrors int | AccessMayRemain int | StaticSecretWorks int

record unblock_warning =
  uw_user :: user
  uw_has_warning :: bool
  uw_access_count :: int
  uw_error_count :: int
  uw_error_at :: "string option"
  uw_reasons :: "unblock_reason list"

definition inspect_unblock_risk :: "env \<Rightarrow> bool \<Rightarrow> bool \<Rightarrow> int \<Rightarrow> int \<Rightarrow> unblock_warning act" where
  "inspect_unblock_risk e keys_attached proxies_attached actor target =
     op_bind (require_moderator_or_admin actor) (\<lambda>_.
     op_bind (op_guard (target \<notin> set (ev_admin_ids e)) (InvalidOperation ''superadmin from ADMIN_IDS'')) (\<lambda>_.
     op_bind (get_user target) (\<lambda>u.
     op_bind (op_guard (u_role u \<noteq> SUPERADMIN) (InvalidOperation ''superadmin'')) (\<lambda>_.
     op_bind (op_get id) (\<lambda>w.
     let keys = (if keys_attached then count_by_owner_statuses target access_key_statuses w else 0);
         accesses = (if proxies_attached
           then proxy_list_by_owner_statuses target (access_proxy_statuses @ [ProxyInactive]) 500 0 w else []);
         left = keys + int (length accesses);
         static = int (length (filter (\<lambda>a. pa_status a = ProxyInactive \<and> pa_access_type a = MTPROTO) accesses));
         (errors, since) = last_block_revoke_error target w;
         reasons = (if errors \<noteq> 0 then [PreviousRevokeErrors errors] else [])
           @ (if left \<noteq> 0 then [AccessMayRemain left] else []) @ (if static \<noteq> 0 then [StaticSecretWorks static] else [])
     in op_return \<lparr>uw_user = u, uw_has_warning = (reasons \<noteq> []), uw_access_count = left, uw_error_count = errors,
          uw_error_at = since, uw_reasons = reasons\<rparr>)))))"

definition count_keys_for_users :: "bool \<Rightarrow> int \<Rightarrow> int list \<Rightarrow> (int, int) dict act" where
  "count_keys_for_users keys_attached actor owners =
     op_bind (require_moderator_or_admin actor) (\<lambda>_.
     if keys_attached then op_get (count_by_owners owners) else op_return [])"

end
