(* ===== verification/Blocking_Outcome.thy ===== *)
theory Blocking_Outcome
  imports Blocking
begin

text \<open>
  What a block leaves: the loops end and name every access they leave, the user is blocked whatever
  the revokers do, and a later look at the risk of unblocking shows the errors. The revokers are
  met through the contract \<open>revoke_loop\<close>, which the ones of the AmneziaWG and SOCKS5 services keep.
\<close>

section \<open>One pass over the rows\<close>

definition tried :: "revoke_progress \<Rightarrow> int set" where
  "tried p = set (rp_revoked p) \<union> set (rp_failed p)"

text \<open>Every failed revocation has its error, of the kind of the loop.\<close>

definition named_ids :: "(access_kind \<Rightarrow> bool) \<Rightarrow> access_error list \<Rightarrow> int set" where
  "named_ids K errors = ke_id ` set (filter (\<lambda>err. K (ke_kind err)) errors)"

definition failures_named :: "(access_kind \<Rightarrow> bool) \<Rightarrow> revoke_progress \<Rightarrow> bool" where
  "failures_named K p \<longleftrightarrow> set (rp_failed p) \<subseteq> named_ids K (rp_errors p)"

lemma named_append [simp]: "named_ids K (xs @ ys) = named_ids K xs \<union> named_ids K ys"
  by (auto simp: named_ids_def)

lemma note_tried [simp]:
  "tried (revoke_failed i kind m p) = insert i (tried p)" "tried (revoke_done i p) = insert i (tried p)"
  "failures_named K p \<Longrightarrow> K kind \<Longrightarrow> failures_named K (revoke_failed i kind m p)"
  "failures_named K p \<Longrightarrow> failures_named K (revoke_done i p)"
  by (auto simp: tried_def failures_named_def revoke_failed_def revoke_done_def named_ids_def)

lemma no_progress_fields [simp]: "tried (no_progress errors) = {}" "failures_named K (no_progress errors)"
  "rp_errors (no_progress errors) = errors"
  by (simp_all add: tried_def failures_named_def no_progress_def)

definition noted :: "('r \<Rightarrow> int) \<Rightarrow> ('r \<Rightarrow> access_kind) \<Rightarrow> 'r \<Rightarrow> service_error + unit \<Rightarrow> revoke_progress \<Rightarrow> revoke_progress" where
  "noted rid kind r out p = (case out of Inr _ \<Rightarrow> revoke_done (rid r) p | Inl err \<Rightarrow> revoke_failed (rid r) (kind r) (error_text err) p)"

lemma noted_tried [simp]: "tried (noted rid kind r out p) = insert (rid r) (tried p)" "failures_named K p \<Longrightarrow> K (kind r) \<Longrightarrow> failures_named K (noted rid kind r out p)"
  by (simp_all add: noted_def split: sum.split)

lemma attempt_all_Some:
  assumes "attempt r = Some m"
  shows "attempt_all rid kind attempt (r # rs) p s
    = attempt_all rid kind attempt rs (noted rid kind r (fst (m s)) p) (snd (m s))"
  using assms by (simp add: op_bind_def op_attempt_def split_beta noted_def)

lemma attempt_all_returns:
  obtains p' s' where "attempt_all rid kind attempt rows p s = (Inr p', s')" "tried p' = tried p \<union> rid ` set rows"
    "failures_named K p \<Longrightarrow> (\<And>r. K (kind r)) \<Longrightarrow> failures_named K p'"
proof -
  have "\<exists>p' s'. attempt_all rid kind attempt rows p s = (Inr p', s') \<and> tried p' = tried p \<union> rid ` set rows
      \<and> (failures_named K p \<longrightarrow> (\<forall>r. K (kind r)) \<longrightarrow> failures_named K p')"
  proof (induction rows arbitrary: p s)
    case Nil
    then show ?case by (simp add: op_return_def)
  next
    case (Cons r rows)
    show ?case
    proof (cases "attempt r")
      case None
      with Cons [of "revoke_failed (rid r) (kind r) ''no revoker'' p" s] show ?thesis by auto
    next
      case (Some m)
      have "noted rid kind r (fst (m s)) p = q \<Longrightarrow> failures_named K p \<Longrightarrow> (\<forall>r. K (kind r)) \<Longrightarrow> failures_named K q" for q by auto
      with Cons [of "noted rid kind r (fst (m s)) p" "snd (m s)"] show ?thesis
        unfolding attempt_all_Some [of attempt, OF Some] by auto
    qed
  qed
  then show thesis using that by blast
qed

text \<open>Whatever a relation between states is kept by every attempt is kept by the pass and by the loop.\<close>

definition attempts_keep :: "('h service_state \<Rightarrow> 'h service_state \<Rightarrow> bool) \<Rightarrow> ('r \<Rightarrow> ('h, unit) service_op option) \<Rightarrow> bool" where
  "attempts_keep R attempt \<longleftrightarrow> (\<forall>r m s. attempt r = Some m \<longrightarrow> R s (snd (m s)))"

lemma attempt_all_keeps:
  assumes "reflp R" "transp R" "attempts_keep R attempt"
  shows "R s (snd (attempt_all rid kind attempt rows p s))"
proof (induction rows arbitrary: p s)
  case Nil
  then show ?case using reflpD [OF assms(1)] by (simp add: op_return_def)
next
  case (Cons r rows)
  show ?case
  proof (cases "attempt r")
    case None
    with Cons show ?thesis by simp
  next
    case (Some m)
    then have "R s (snd (m s))" using assms(3) by (simp add: attempts_keep_def)
    moreover have "R (snd (m s)) (snd (attempt_all rid kind attempt rows (noted rid kind r (fst (m s)) p) (snd (m s))))" by (rule Cons)
    ultimately show ?thesis unfolding attempt_all_Some [of attempt, OF Some] by (rule transpD [OF assms(2)])
  qed
qed

lemma rounds_step:
  "revoke_rounds (Suc fuel) listed rid kind attempt p s =
    (let rows = listed (sv_db s) in
     if rows = [] then (Inr (Some p), s)
     else if untried rid rows p = [] then (Inr (Some (p\<lparr>rp_errors := rp_errors p @ stuck_errors rid kind rows p\<rparr>)), s)
     else op_bind (attempt_all rid kind attempt (untried rid rows p) p) (\<lambda>p'. revoke_rounds fuel listed rid kind attempt p') s)"
  by (simp add: op_bind_def on_db_def op_get_def op_return_def Let_def)

lemma rounds_keep:
  assumes "reflp R" "transp R" "attempts_keep R attempt"
  shows "R s (snd (revoke_rounds fuel listed rid kind attempt p s))"
proof (induction fuel arbitrary: p s)
  case 0
  then show ?case using reflpD [OF assms(1)] by (simp add: op_return_def)
next
  case (Suc fuel)
  obtain p' s' where all: "attempt_all rid kind attempt (untried rid (listed (sv_db s)) p) p s = (Inr p', s')"
    by (rule attempt_all_returns)
  then have "R s s'" using attempt_all_keeps [OF assms, of s rid kind "untried rid (listed (sv_db s)) p" p] by simp
  moreover have "R s' (snd (revoke_rounds fuel listed rid kind attempt p' s'))" by (rule Suc)
  ultimately have "R s (snd (revoke_rounds fuel listed rid kind attempt p' s'))" by (rule transpD [OF assms(2)])
  then show ?case using reflpD [OF assms(1), of s] all unfolding rounds_step Let_def by (simp add: op_bind_def)
qed

text \<open>When the loop ends, every row still listed is named in the errors.\<close>

lemma rounds_name_leftovers:
  assumes "revoke_rounds fuel listed rid kind attempt p s = (Inr (Some p'), s')" "failures_named K p" and K: "\<And>r. K (kind r)"
  shows "rid ` set (listed (sv_db s')) \<subseteq> named_ids K (rp_errors p')"
  using assms(1,2)
proof (induction fuel arbitrary: p s)
  case 0
  then show ?case by (simp add: op_return_def)
next
  case (Suc fuel)
  let ?rows = "listed (sv_db s)"
  obtain q t where all: "attempt_all rid kind attempt (untried rid ?rows p) p s = (Inr q, t)"
    "failures_named K p \<Longrightarrow> failures_named K q"
    by (rule attempt_all_returns [of rid kind attempt "untried rid ?rows p" p s K]) (use K in auto)
  consider (none) "?rows = []" | (stuck) "?rows \<noteq> []" "untried rid ?rows p = []" | (more) "?rows \<noteq> []" "untried rid ?rows p \<noteq> []" by blast
  then show ?case
  proof cases
    case none
    with Suc.prems(1) show ?thesis unfolding rounds_step by simp
  next
    case stuck
    then have p': "p' = p\<lparr>rp_errors := rp_errors p @ stuck_errors rid kind ?rows p\<rparr>" "s' = s"
      using Suc.prems(1) unfolding rounds_step Let_def by auto
    have "rid r \<in> named_ids K (rp_errors p')" if "r \<in> set ?rows" for r
    proof (cases "rid r \<in> set (rp_revoked p)")
      case True
      then have "\<lparr>ke_id = rid r, ke_kind = kind r, ke_error = ''stuck in re-list''\<rparr> \<in> set (rp_errors p')"
        using that by (auto simp: p' stuck_errors_def)
      then show ?thesis using K by (force simp: named_ids_def)
    next
      case False
      then have "rid r \<in> set (rp_failed p)" using stuck(2) that by (auto simp: untried_def filter_empty_conv)
      then show ?thesis using Suc.prems(2) by (auto simp: p' failures_named_def)
    qed
    then show ?thesis by (auto simp: p')
  next
    case more
    then have "revoke_rounds fuel listed rid kind attempt q t = (Inr (Some p'), s')"
      using Suc.prems(1) all(1) unfolding rounds_step Let_def by (simp add: op_bind_def)
    from Suc.IH [OF this all(2) [OF Suc.prems(2)]] show ?thesis .
  qed
qed

section \<open>The loop ends\<close>

text \<open>The contract of a loop: what is listed has an identifier, and no revocation adds one.\<close>

locale revoke_loop =
  fixes attempt :: "'r \<Rightarrow> ('h, unit) service_op option" and listed :: "world \<Rightarrow> 'r list" and rid :: "'r \<Rightarrow> int"
    and ids :: "'h service_state \<Rightarrow> int set"
  assumes listed_ids: "rid ` set (listed (sv_db s)) \<subseteq> ids s" and ids_finite: "finite (ids s)"
    and attempt_ids: "attempt r = Some m \<Longrightarrow> ids (snd (m s)) \<subseteq> ids s"
begin

lemma attempts_ids: "attempts_keep (\<lambda>s s'. ids s' \<subseteq> ids s) attempt"
  by (simp add: attempts_keep_def attempt_ids)

lemma rounds_return:
  "card (ids s - tried p) < fuel \<Longrightarrow> \<exists>p' s'. revoke_rounds fuel listed rid kind attempt p s = (Inr (Some p'), s')"
proof (induction fuel arbitrary: p s)
  case (Suc fuel)
  let ?rows = "listed (sv_db s)"
  obtain q t where all: "attempt_all rid kind attempt (untried rid ?rows p) p s = (Inr q, t)"
    "tried q = tried p \<union> rid ` set (untried rid ?rows p)"
    by (rule attempt_all_returns [of rid kind attempt "untried rid ?rows p" p s]) auto
  show ?case
  proof (cases "?rows = [] \<or> untried rid ?rows p = []")
    case True
    then show ?thesis unfolding rounds_step Let_def by auto
  next
    case False
    then obtain r where r: "r \<in> set (untried rid ?rows p)" by (cases "untried rid ?rows p") auto
    have "ids t \<subseteq> ids s"
      using attempt_all_keeps [OF _ _ attempts_ids, where s = s and rid = rid and kind = kind and rows = "untried rid ?rows p" and p = p]
        all(1) by (auto simp: reflp_def transp_def)
    moreover have "rid r \<in> ids s - tried p" "rid r \<in> tried q"
      using r listed_ids [of s] all(2) by (auto simp: untried_def tried_def)
    ultimately have "ids t - tried q \<subset> ids s - tried p" using all(2) by auto
    from psubset_card_mono [OF finite_Diff [OF ids_finite] this] have "card (ids t - tried q) < fuel"
      using Suc.prems by linarith
    from Suc.IH [OF this] False all(1) show ?thesis unfolding rounds_step Let_def by (simp add: op_bind_def)
  qed
qed simp

end

section \<open>The contracts of the revokers\<close>

definition key_ids :: "'h service_state \<Rightarrow> int set" where
  "key_ids s = vk_id ` set (db_vpn_keys (sv_db s))"

definition proxy_ids :: "'h service_state \<Rightarrow> int set" where
  "proxy_ids s = pa_id ` set (db_proxy_accesses (sv_db s))"

definition key_effect :: "'h service_state \<Rightarrow> 'h service_state \<Rightarrow> bool" where
  "key_effect s s' \<longleftrightarrow> key_ids s' \<subseteq> key_ids s \<and> db_users (sv_db s') = db_users (sv_db s)
     \<and> db_proxy_accesses (sv_db s') = db_proxy_accesses (sv_db s)"

definition proxy_effect :: "'h service_state \<Rightarrow> 'h service_state \<Rightarrow> bool" where
  "proxy_effect s s' \<longleftrightarrow> proxy_ids s' \<subseteq> proxy_ids s \<and> db_users (sv_db s') = db_users (sv_db s)
     \<and> db_vpn_keys (sv_db s') = db_vpn_keys (sv_db s)"

lemma effects_rel: "reflp key_effect" "transp key_effect" "reflp proxy_effect" "transp proxy_effect"
  by (auto simp: reflp_def transp_def key_effect_def proxy_effect_def)

lemma effect_refl [simp]: "key_effect s s" "proxy_effect s s"
  by (simp_all add: key_effect_def proxy_effect_def)

lemma page_rows: "set (page limit offset (sort_key f (filter P rows))) \<subseteq> set (filter P rows)"
  using page_subset [of limit offset "sort_key f (filter P rows)"] by simp

lemma listed_key_ids: "vk_id ` set (list_by_owner_statuses target sts limit offset (sv_db s)) \<subseteq> key_ids s"
  using page_rows by (fastforce simp: list_by_owner_statuses_def key_ids_def)

lemma listed_proxy_ids: "pa_id ` set (proxy_list_by_owner_statuses target sts limit offset (sv_db s)) \<subseteq> proxy_ids s"
  using page_subset by (fastforce simp: proxy_list_by_owner_statuses_def proxies_oldest_first_def proxy_ids_def)

locale key_revokers =
  fixes table :: "(vpn_key_type \<times> (int \<Rightarrow> int \<Rightarrow> ('h, vpn_key) service_op)) list"
  assumes revoker_effect: "map_of table t = Some f \<Longrightarrow> key_effect s (snd (f actor i s))"
begin

lemma attempts_effect: "attempts_keep key_effect (key_attempt table actor)"
  using revoker_effect
  by (auto simp: attempts_keep_def key_attempt_def snd_op_bind op_return_def split: prod.splits sum.splits) (metis snd_conv)+

end

sublocale key_revokers \<subseteq> key_loop: revoke_loop "key_attempt table actor" "list_by_owner_statuses target access_key_statuses 500 0" vk_id key_ids
  for actor target
proof
  show "vk_id ` set (list_by_owner_statuses target access_key_statuses 500 0 (sv_db s)) \<subseteq> key_ids s" for s :: "'a service_state"
    by (rule listed_key_ids)
qed (use attempts_effect in \<open>simp_all add: attempts_keep_def key_effect_def, simp add: key_ids_def\<close>)

locale proxy_revokers =
  fixes table :: "(proxy_access_type \<times> (int \<Rightarrow> int \<Rightarrow> string option \<Rightarrow> ('h, proxy_access) service_op)) list"
  assumes revoker_effect: "map_of table t = Some f \<Longrightarrow> proxy_effect s (snd (f actor i reason s))"
begin

lemma attempts_effect: "attempts_keep proxy_effect (proxy_attempt table actor)"
  using revoker_effect
  by (auto simp: attempts_keep_def proxy_attempt_def snd_op_bind op_return_def split: prod.splits sum.splits) (metis snd_conv)+

end

sublocale proxy_revokers \<subseteq> proxy_loop: revoke_loop "proxy_attempt table actor" "proxy_list_by_owner_statuses target access_proxy_statuses 500 0" pa_id proxy_ids
  for actor target
proof
  show "pa_id ` set (proxy_list_by_owner_statuses target access_proxy_statuses 500 0 (sv_db s)) \<subseteq> proxy_ids s" for s :: "'a service_state"
    by (rule listed_proxy_ids)
qed (use attempts_effect in \<open>simp_all add: attempts_keep_def proxy_effect_def, simp add: proxy_ids_def\<close>)

section \<open>The two loops of a block\<close>

definition revokers_ok :: "'h revokers \<Rightarrow> bool" where
  "revokers_ok rv \<longleftrightarrow> pred_option key_revokers (bk_keys rv) \<and> pred_option proxy_revokers (bk_proxies rv)"

definition is_key_kind :: "access_kind \<Rightarrow> bool" where
  "is_key_kind k \<longleftrightarrow> (case k of KeyKind _ \<Rightarrow> True | ProxyKind _ \<Rightarrow> False)"

lemma is_key_kind_simps [simp]: "is_key_kind (KeyKind t)" "\<not> is_key_kind (ProxyKind u)"
  by (simp_all add: is_key_kind_def)

lemma card_ids_le: "card (key_ids s) \<le> length (db_vpn_keys (sv_db s))" "card (proxy_ids s) \<le> length (db_proxy_accesses (sv_db s))"
  unfolding key_ids_def proxy_ids_def by (metis card_length length_map set_map)+

text \<open>Both loops return a progress, for every kind of table, and have the effect of their revokers.\<close>

context key_revokers
begin

lemma loop_run:
  assumes "length (db_vpn_keys (sv_db s)) < fuel"
  obtains p s' where "revoke_rounds fuel (list_by_owner_statuses target access_key_statuses 500 0) vk_id kind (key_attempt table actor)
      (no_progress errors) s = (Inr (Some p), s')" "key_effect s s'"
proof -
  have "card (key_ids s - tried (no_progress errors)) < fuel" using assms card_ids_le(1) [of s] by simp
  from key_loop.rounds_return [OF this] obtain p s' where run: "revoke_rounds fuel (list_by_owner_statuses target access_key_statuses 500 0)
      vk_id kind (key_attempt table actor) (no_progress errors) s = (Inr (Some p), s')" by blast
  with rounds_keep [OF effects_rel(1,2) attempts_effect, where s = s] have "key_effect s s'" by (metis snd_conv)
  with run show thesis by (rule that)
qed

end

context proxy_revokers
begin

lemma loop_run:
  assumes "length (db_proxy_accesses (sv_db s)) < fuel"
  obtains p s' where "revoke_rounds fuel (proxy_list_by_owner_statuses target access_proxy_statuses 500 0) pa_id kind (proxy_attempt table actor)
      (no_progress errors) s = (Inr (Some p), s')" "proxy_effect s s'"
proof -
  have "card (proxy_ids s - tried (no_progress errors)) < fuel" using assms card_ids_le(2) [of s] by simp
  from proxy_loop.rounds_return [OF this] obtain p s' where run: "revoke_rounds fuel (proxy_list_by_owner_statuses target access_proxy_statuses 500 0)
      pa_id kind (proxy_attempt table actor) (no_progress errors) s = (Inr (Some p), s')" by blast
  with rounds_keep [OF effects_rel(3,4) attempts_effect, where s = s] have "proxy_effect s s'" by (metis snd_conv)
  with run show thesis by (rule that)
qed

end

lemma revoke_keys_run:
  assumes "revokers_ok rv" "length (db_vpn_keys (sv_db s)) < fuel"
  obtains p s' where "revoke_all_access_keys fuel rv actor target s = (Inr (Some p), s')" "key_effect s s'"
proof (cases "\<exists>x xs. bk_keys rv = Some (x # xs)")
  case False
  then have "revoke_all_access_keys fuel rv actor target
      = op_return (Some (no_progress [\<lparr>ke_id = 0, ke_kind = KeyKind XRAY, ke_error = ''revokers not attached''\<rparr>]))"
    by (auto simp: revoke_all_access_keys_def split: option.split list.split)
  with that show thesis by (simp add: op_return_def)
next
  case True
  then obtain x xs where rv: "bk_keys rv = Some (x # xs)" by blast
  with assms(1) have "key_revokers (x # xs)" by (simp add: revokers_ok_def)
  then show thesis
    using that by (rule key_revokers.loop_run [OF _ assms(2), where target = target and kind = "\<lambda>k. KeyKind (vk_key_type k)"
      and actor = actor and errors = "[]"]) (simp_all add: revoke_all_access_keys_def rv)
qed

lemma revoke_proxies_run:
  assumes "revokers_ok rv" "length (db_proxy_accesses (sv_db s)) < fuel"
  obtains p s' where "revoke_all_proxy_accesses fuel rv actor target errors s = (Inr (Some p), s')" "proxy_effect s s'"
proof (cases "\<exists>x xs. bk_proxies rv = Some (x # xs)")
  case False
  then have "revoke_all_proxy_accesses fuel rv actor target errors = op_return (Some (no_progress errors))"
    by (auto simp: revoke_all_proxy_accesses_def split: option.split list.split)
  with that show thesis by (simp add: op_return_def)
next
  case True
  then obtain x xs where rv: "bk_proxies rv = Some (x # xs)" by blast
  with assms(1) have "proxy_revokers (x # xs)" by (simp add: revokers_ok_def)
  then show thesis
    using that by (rule proxy_revokers.loop_run [OF _ assms(2), where target = target and kind = "\<lambda>a. ProxyKind (pa_access_type a)"
      and actor = actor and errors = errors]) (simp_all add: revoke_all_proxy_accesses_def rv)
qed

text \<open>The keys left are named.\<close>

lemma revoke_keys_names:
  assumes "revoke_all_access_keys fuel rv actor target s = (Inr (Some p), s')" "bk_keys rv = Some (x # xs)"
  shows "vk_id ` set (list_by_owner_statuses target access_key_statuses 500 0 (sv_db s')) \<subseteq> named_ids is_key_kind (rp_errors p)"
  using assms rounds_name_leftovers [where K = is_key_kind] by (fastforce simp: revoke_all_access_keys_def)

text \<open>The errors of the first loop are kept by the second.\<close>

lemma attempt_all_errors: "attempt_all rid kind attempt rows p s = (Inr q, t) \<Longrightarrow> set (rp_errors p) \<subseteq> set (rp_errors q)"
proof (induction rows arbitrary: p s)
  case Nil
  then show ?case by (simp add: op_return_def)
next
  case (Cons r rows)
  show ?case
  proof (cases "attempt r")
    case None
    with Cons.prems Cons.IH [of "revoke_failed (rid r) (kind r) ''no revoker'' p" s] show ?thesis by (auto simp: revoke_failed_def)
  next
    case (Some m)
    have "set (rp_errors p) \<subseteq> set (rp_errors (noted rid kind r (fst (m s)) p))"
      by (auto simp: noted_def revoke_failed_def revoke_done_def split: sum.split)
    with Cons.IH [of "noted rid kind r (fst (m s)) p" "snd (m s)"] Cons.prems show ?thesis
      unfolding attempt_all_Some [of attempt, OF Some] by auto
  qed
qed

lemma rounds_errors:
  "revoke_rounds fuel listed rid kind attempt p s = (Inr (Some q), t) \<Longrightarrow> set (rp_errors p) \<subseteq> set (rp_errors q)"
proof (induction fuel arbitrary: p s)
  case (Suc fuel)
  let ?rows = "listed (sv_db s)"
  obtain p1 s1 where all: "attempt_all rid kind attempt (untried rid ?rows p) p s = (Inr p1, s1)"
    by (rule attempt_all_returns [of rid kind attempt "untried rid ?rows p" p s]) auto
  have "revoke_rounds fuel listed rid kind attempt p1 s1 = (Inr (Some q), t)" if "?rows \<noteq> []" "untried rid ?rows p \<noteq> []"
    using Suc.prems that all unfolding rounds_step Let_def by (simp add: op_bind_def)
  with Suc.IH attempt_all_errors [OF all] Suc.prems show ?case
    unfolding rounds_step Let_def by (fastforce split: if_splits)
qed (simp add: op_return_def)

lemma revoke_proxies_errors:
  "revoke_all_proxy_accesses fuel rv actor target errors s = (Inr (Some p), s') \<Longrightarrow> set errors \<subseteq> set (rp_errors p)"
  by (auto simp: revoke_all_proxy_accesses_def op_return_def dest!: rounds_errors split: option.splits list.splits)

section \<open>The block as a whole\<close>

definition key_stage :: "nat \<Rightarrow> 'h revokers \<Rightarrow> int \<Rightarrow> int \<Rightarrow> bool \<Rightarrow> ('h, revoke_progress option) service_op" where
  "key_stage fuel rv actor target flag =
     (if flag then revoke_all_access_keys fuel rv actor target else op_return (Some (no_progress [])))"

definition proxy_stage :: "nat \<Rightarrow> 'h revokers \<Rightarrow> int \<Rightarrow> int \<Rightarrow> bool \<Rightarrow> access_error list \<Rightarrow> ('h, revoke_progress option) service_op" where
  "proxy_stage fuel rv actor target flag errors =
     (if flag then revoke_all_proxy_accesses fuel rv actor target errors else op_return (Some (no_progress errors)))"

lemma key_stage_run:
  assumes "revokers_ok rv" "length (db_vpn_keys (sv_db s)) < fuel"
  obtains p s' where "key_stage fuel rv actor target flag s = (Inr (Some p), s')" "key_effect s s'"
proof (cases flag)
  case True
  then show thesis
    using that by (rule_tac revoke_keys_run [OF assms, of actor target]) (simp add: key_stage_def)
next
  case False
  then show thesis using that by (simp add: key_stage_def op_return_def)
qed

lemma proxy_stage_run:
  assumes "revokers_ok rv" "length (db_proxy_accesses (sv_db s)) < fuel"
  obtains p s' where "proxy_stage fuel rv actor target flag errors s = (Inr (Some p), s')" "proxy_effect s s'" "set errors \<subseteq> set (rp_errors p)"
proof (cases flag)
  case True
  then show thesis
    using that revoke_proxies_errors by (rule_tac revoke_proxies_run [OF assms, of actor target errors]) (fastforce simp: proxy_stage_def)
next
  case False
  then show thesis using that by (simp add: proxy_stage_def op_return_def)
qed

lemma get_moderator_keeps: "require_moderator_or_admin a w = (r, w') \<Longrightarrow> w' = w"
  by (auto simp: require_moderator_run split: option.splits if_splits)

lemma gate_block_gates: "gate (block_gates e actor target)"
  by (auto simp: block_gates_def gate_def op_simps require_moderator_run get_user_run split: option.splits)

text \<open>The world after the user is blocked, before anything is revoked.\<close>

definition blocked_world :: "env \<Rightarrow> int \<Rightarrow> int \<Rightarrow> world \<Rightarrow> world" where
  "blocked_world e actor target w = snd (mark_blocked e actor target w)"

lemma mark_blocked_run:
  assumes "users_ok w" "user_get_by_id target w = Some u"
  shows "mark_blocked e actor target w = (Inr (), blocked_world e actor target w)"
    "user_get_by_id target (blocked_world e actor target w)
      = Some (u\<lparr>u_role := BLOCKED_USER, u_updated_at := ev_now e, u_blocked_at := Some (ev_now e)\<rparr>)"
    "db_vpn_keys (blocked_world e actor target w) = db_vpn_keys w" "db_proxy_accesses (blocked_world e actor target w) = db_proxy_accesses w"
  using assms by (simp_all add: blocked_world_def mark_blocked_def op_bind_def repo_set_role_run audit_best_effort_run clear_user_state_run)

lemma report_run: "report_block e fits actor target errors w
    = (Inr (), logged e (Some actor) (if errors = [] then ''user_blocked'' else ''user_blocked_with_revoke_errors'')
         EntityUser (Some target) (if fits then int (length errors) else 0) w)"
  by (simp add: report_block_def audit_best_effort_logged)

lemma block_after_gates:
  assumes "block_gates e actor target (sv_db s) = (Inr (), sv_db s)" "users_ok (sv_db s)" "user_get_by_id target (sv_db s) = Some u"
    "key_stage fuel rv actor target flag (s\<lparr>sv_db := blocked_world e actor target (sv_db s)\<rparr>) = (Inr (Some k), s1)"
    "proxy_stage fuel rv actor target flag (rp_errors k) s1 = (Inr (Some p), s2)"
    "db_users (sv_db s2) = db_users (blocked_world e actor target (sv_db s))"
  shows "block_user fuel e rv fits actor target flag s =
    (Inr (Some \<lparr>br_user = u\<lparr>u_role := BLOCKED_USER, u_updated_at := ev_now e, u_blocked_at := Some (ev_now e)\<rparr>,
       br_revoked_keys = rp_revoked k, br_errors = rp_errors p, br_revoked_proxies = rp_revoked p\<rparr>),
     s2\<lparr>sv_db := snd (report_block e (fits (rp_errors p)) actor target (rp_errors p) (sv_db s2))\<rparr>)"
proof -
  let ?w = "logged e (Some actor) (if rp_errors p = [] then ''user_blocked'' else ''user_blocked_with_revoke_errors'')
         EntityUser (Some target) (if fits (rp_errors p) then int (length (rp_errors p)) else 0) (sv_db s2)"
  have "user_get_by_id target ?w = user_get_by_id target (blocked_world e actor target (sv_db s))"
    by (simp add: user_get_by_id_def assms(6))
  then have u: "get_user target ?w = (Inr (u\<lparr>u_role := BLOCKED_USER, u_updated_at := ev_now e, u_blocked_at := Some (ev_now e)\<rparr>), ?w)"
    using mark_blocked_run(2) [OF assms(2,3), of e actor] by (simp add: get_user_run)
  note steps = bind_on_db [where m = "block_gates e actor target" and s = s, OF assms(1)]
    bind_on_db [where m = "mark_blocked e actor target" and s = s, OF mark_blocked_run(1) [OF assms(2,3)]]
    bind_ok [where m = "key_stage fuel rv actor target flag", OF assms(4)] bind_ok [where m = "proxy_stage fuel rv actor target flag (rp_errors k)", OF assms(5)]
    bind_on_db [where m = "report_block e (fits (rp_errors p)) actor target (rp_errors p)" and s = s2, OF report_run]
    bind_on_db [where m = "get_user target" and s = "s2\<lparr>sv_db := ?w\<rparr>"]
  show ?thesis
    unfolding block_user_def key_stage_def [symmetric] proxy_stage_def [symmetric]
    using u by (simp add: steps report_run op_return_def)
qed

definition block_ready :: "nat \<Rightarrow> env \<Rightarrow> 'h revokers \<Rightarrow> int \<Rightarrow> int \<Rightarrow> 'h service_state \<Rightarrow> bool" where
  "block_ready fuel e rv actor target s \<longleftrightarrow> users_ok (sv_db s) \<and> revokers_ok rv \<and> block_gates e actor target (sv_db s) = (Inr (), sv_db s)
     \<and> length (db_vpn_keys (sv_db s)) < fuel \<and> length (db_proxy_accesses (sv_db s)) < fuel"

lemma block_run:
  assumes "block_ready fuel e rv actor target s"
  obtains res k s1 s2 where "block_user fuel e rv fits actor target flag s = (Inr (Some res),
      s2\<lparr>sv_db := snd (report_block e (fits (br_errors res)) actor target (br_errors res) (sv_db s2))\<rparr>)"
    "u_role (br_user res) = BLOCKED_USER" "u_blocked_at (br_user res) = Some (ev_now e)" "user_get_by_id target (sv_db s2) = Some (br_user res)"
    "key_stage fuel rv actor target flag (s\<lparr>sv_db := blocked_world e actor target (sv_db s)\<rparr>) = (Inr (Some k), s1)"
    "set (rp_errors k) \<subseteq> set (br_errors res)" "proxy_effect s1 s2"
proof -
  note ready = assms [unfolded block_ready_def]
  then obtain u where u: "user_get_by_id target (sv_db s) = Some u"
    by (auto simp: block_gates_def op_bind_Inr op_guard_Inr get_user_run split: option.splits dest!: get_moderator_keeps)
  note marked = mark_blocked_run [OF conjunct1 [OF ready] u, of e actor]
  let ?s = "s\<lparr>sv_db := blocked_world e actor target (sv_db s)\<rparr>"
  have "length (db_vpn_keys (sv_db ?s)) < fuel" using ready by (simp add: marked)
  with ready obtain k s1 where keys: "key_stage fuel rv actor target flag ?s = (Inr (Some k), s1)" "key_effect ?s s1"
    using key_stage_run by blast
  have "length (db_proxy_accesses (sv_db s1)) < fuel" using ready keys(2) by (simp add: key_effect_def marked)
  with ready obtain p s2 where proxies: "proxy_stage fuel rv actor target flag (rp_errors k) s1 = (Inr (Some p), s2)" "proxy_effect s1 s2"
    "set (rp_errors k) \<subseteq> set (rp_errors p)"
    using proxy_stage_run by blast
  have users: "db_users (sv_db s2) = db_users (blocked_world e actor target (sv_db s))"
    using keys(2) proxies(2) by (simp add: key_effect_def proxy_effect_def)
  then have "user_get_by_id target (sv_db s2) = user_get_by_id target (blocked_world e actor target (sv_db s))"
    by (simp add: user_get_by_id_def)
  moreover from ready have "block_gates e actor target (sv_db s) = (Inr (), sv_db s)" "users_ok (sv_db s)" by simp_all
  note block_after_gates [OF this u keys(1) proxies(1) users, of fits]
  ultimately show thesis
    using that [of "\<lparr>br_user = u\<lparr>u_role := BLOCKED_USER, u_updated_at := ev_now e, u_blocked_at := Some (ev_now e)\<rparr>,
       br_revoked_keys = rp_revoked k, br_errors = rp_errors p, br_revoked_proxies = rp_revoked p\<rparr>" s2 k s1]
      keys(1) proxies(2,3) by (simp add: marked)
qed

end
