(* ===== verification/Proxy_Rows.thy ===== *)
theory Proxy_Rows
  imports Proxy_Repo Key_Rows
begin

text \<open>
  What the proxy services share in their proofs: one row of the table of accesses rewritten, and
  when the partial unique index lets it be.
\<close>

definition proxies_ok :: "world \<Rightarrow> bool" where
  "proxies_ok w \<longleftrightarrow> proxies_unique (db_proxy_accesses w)
     \<and> list_all (\<lambda>p. pa_id p \<le> db_proxy_access_seq w) (db_proxy_accesses w)"

lemma proxy_get_Some: "proxy_get_by_id i w = Some p \<Longrightarrow> p \<in> set (db_proxy_accesses w) \<and> pa_id p = i"
  unfolding proxy_get_by_id_def by (rule find_Some_in)

lemma proxy_get_unique: "proxies_ok w \<Longrightarrow> p \<in> set (db_proxy_accesses w) \<Longrightarrow> proxy_get_by_id (pa_id p) w = Some p"
  unfolding proxies_ok_def proxies_unique_def proxy_get_by_id_def by (rule find_unique) simp_all

lemma update_proxies_run [op_simps]:
  "update_proxies P f w =
     (if proxies_unique (update_where P f (db_proxy_accesses w))
      then (Inr (count_where P (db_proxy_accesses w)), w\<lparr>db_proxy_accesses := update_where P f (db_proxy_accesses w)\<rparr>)
      else (Inl (IntegrityError ''proxy_accesses''), w))"
  by (simp add: update_proxies_def write_proxies_def op_bind_def op_get_def op_guard_def op_modify_def op_return_def)

section \<open>One row\<close>

definition put_proxy :: "int \<Rightarrow> (proxy_access \<Rightarrow> proxy_access) \<Rightarrow> world \<Rightarrow> world" where
  "put_proxy i f w = w\<lparr>db_proxy_accesses := update_where (has_proxy_id i) f (db_proxy_accesses w)\<rparr>"

definition keeps_proxy_id :: "(proxy_access \<Rightarrow> proxy_access) \<Rightarrow> bool" where
  "keeps_proxy_id f \<longleftrightarrow> (\<forall>a. pa_id (f a) = pa_id a)"

lemma put_proxy_get:
  assumes "keeps_proxy_id f"
  shows "proxy_get_by_id j (put_proxy i f w) = map_option (\<lambda>p. if j = i then f p else p) (proxy_get_by_id j w)"
proof -
  have "proxy_get_by_id j (put_proxy i f w) = map_option (\<lambda>x. if pa_id x = i then f x else x) (proxy_get_by_id j w)"
    using assms by (simp add: proxy_get_by_id_def put_proxy_def find_update_key keeps_proxy_id_def)
  also have "\<dots> = map_option (\<lambda>p. if j = i then f p else p) (proxy_get_by_id j w)"
    using proxy_get_Some [of j w] by (cases "proxy_get_by_id j w") auto
  finally show ?thesis .
qed

lemma put_proxy_tables [simp]:
  "db_users (put_proxy i f w) = db_users w" "db_vpn_keys (put_proxy i f w) = db_vpn_keys w"
  "db_audit (put_proxy i f w) = db_audit w"
  by (simp_all add: put_proxy_def)

text \<open>No other row holds the place in the index.\<close>

definition slot_free :: "int \<Rightarrow> (int \<times> proxy_access_type) option \<Rightarrow> world \<Rightarrow> bool" where
  "slot_free i slot w \<longleftrightarrow> slot = None \<or> list_all (\<lambda>q. pa_id q = i \<or> live_slot q \<noteq> slot) (db_proxy_accesses w)"

lemma map_filter_append: "List.map_filter g (xs @ ys) = List.map_filter g xs @ List.map_filter g ys"
  by (simp add: map_filter_def)

lemma put_proxy_unique:
  assumes "proxies_ok w" "proxy_get_by_id i w = Some p" "keeps_proxy_id f"
  shows "proxies_unique (db_proxy_accesses (put_proxy i f w)) \<longleftrightarrow> slot_free i (live_slot (f p)) w"
proof -
  have mem: "p \<in> set (db_proxy_accesses w)" and p: "pa_id p = i" using proxy_get_Some [OF assms(2)] by simp_all
  obtain xs ys where rows: "db_proxy_accesses w = xs @ p # ys" using split_list [OF mem] by blast
  have d: "distinct (map pa_id (xs @ p # ys))" and u: "unique_column live_slot (xs @ p # ys)"
    using assms(1) by (simp_all add: proxies_ok_def proxies_unique_def rows)
  have others: "pa_id q \<noteq> i" if "q \<in> set xs \<union> set ys" for q
    using d p that by (force simp: image_iff)
  have new: "db_proxy_accesses (put_proxy i f w) = xs @ f p # ys"
    using others p by (simp add: put_proxy_def rows update_where_def map_idI)
  let ?taken = "set (List.map_filter live_slot xs) \<union> set (List.map_filter live_slot ys)"
  have rest: "distinct (List.map_filter live_slot xs @ List.map_filter live_slot ys)"
    using u by (auto simp: unique_column_def map_filter_simps map_filter_append split: option.splits)
  have "proxies_unique (xs @ f p # ys) \<longleftrightarrow> (\<forall>s. live_slot (f p) = Some s \<longrightarrow> s \<notin> ?taken)"
    using rest d assms(3)
    by (auto simp: proxies_unique_def unique_column_def map_filter_simps map_filter_append keeps_proxy_id_def split: option.splits)
  moreover have "s \<in> ?taken \<longleftrightarrow> (\<exists>q \<in> set xs \<union> set ys. live_slot q = Some s)" for s
    by (force simp: map_filter_def)
  ultimately show ?thesis
    using others p by (cases "live_slot (f p)") (auto simp: new slot_free_def rows list_all_iff)
qed

lemma slot_free_same: "proxies_ok w \<Longrightarrow> proxy_get_by_id i w = Some p \<Longrightarrow> slot_free i (live_slot p) w"
  using put_proxy_unique [of w i p id] by (simp add: keeps_proxy_id_def put_proxy_def update_where_def proxies_ok_def cong: if_cong)

lemma slot_free_None [simp]: "slot_free i None w"
  by (simp add: slot_free_def)

lemma proxies_ok_put:
  assumes "proxies_ok w" "proxy_get_by_id i w = Some p" "keeps_proxy_id f" "slot_free i (live_slot (f p)) w"
  shows "proxies_ok (put_proxy i f w)"
  using put_proxy_unique [OF assms(1-3)] assms
  by (auto simp: proxies_ok_def put_proxy_def list_all_iff set_update_where keeps_proxy_id_def)

lemma update_proxy_row:
  assumes "proxies_ok w" "proxy_get_by_id i w = Some p" "keeps_proxy_id f"
  shows "update_proxies (\<lambda>a. pa_id a = i \<and> Q a) f w =
    (if \<not> Q p then (Inr 0, w) else if slot_free i (live_slot (f p)) w then (Inr 1, put_proxy i f w)
     else (Inl (IntegrityError ''proxy_accesses''), w))"
proof -
  have d: "distinct (map pa_id (db_proxy_accesses w))" and u: "proxies_unique (db_proxy_accesses w)"
    using assms(1) by (simp_all add: proxies_ok_def proxies_unique_def)
  note row = assms(2) [unfolded proxy_get_by_id_def]
  have only: "x = p" if "x \<in> set (db_proxy_accesses w)" "pa_id x = i" for x
    using proxy_get_unique [OF assms(1) that(1)] that(2) assms(2) by simp
  show ?thesis
  proof (cases "Q p")
    case True
    then have "update_where (\<lambda>a. pa_id a = i \<and> Q a) f (db_proxy_accesses w) = update_where (has_proxy_id i) f (db_proxy_accesses w)"
      unfolding update_where_def using only by (intro map_cong) auto
    with True show ?thesis
      using put_proxy_unique [OF assms] count_key_row [OF d row, of Q]
      by (simp add: update_proxies_run put_proxy_def)
  next
    case False
    with update_key_row_none [OF d row, of Q f] count_key_row [OF d row, of Q] u show ?thesis
      by (simp add: update_proxies_run)
  qed
qed

lemmas update_proxy_row_any = update_proxy_row [where Q = "\<lambda>_. True", simplified]

section \<open>The status changes\<close>

lemma keeps_proxy_id_rows [simp]:
  "keeps_proxy_id (status_proxy st now err reason)" "keeps_proxy_id (active_proxy now p q g)"
  "keeps_proxy_id (revoked_proxy a now reason)" "keeps_proxy_id (inactive_proxy a now reason)"
  "keeps_proxy_id (deleted_proxy a now reason)"
  by (simp_all add: keeps_proxy_id_def status_proxy_def active_proxy_def revoked_proxy_def inactive_proxy_def deleted_proxy_def)

lemma proxy_row_statuses [simp]:
  "pa_status (status_proxy st now err reason x) = st" "pa_status (active_proxy now p q g x) = ProxyActive"
  "pa_status (revoked_proxy a now reason x) = ProxyRevoked" "pa_status (inactive_proxy a now reason x) = ProxyInactive"
  "pa_status (deleted_proxy a now reason x) = ProxyDeleted"
  by (simp_all add: status_proxy_def active_proxy_def revoked_proxy_def inactive_proxy_def deleted_proxy_def)

lemma proxy_row_fields [simp]:
  "pa_owner_user_id (status_proxy st now err reason x) = pa_owner_user_id x"
  "pa_access_type (status_proxy st now err reason x) = pa_access_type x"
  "pa_payload (status_proxy st now err reason x) = pa_payload x"
  "pa_owner_user_id (active_proxy now p q g x) = pa_owner_user_id x"
  "pa_access_type (active_proxy now p q g x) = pa_access_type x"
  "pa_owner_user_id (revoked_proxy a now reason x) = pa_owner_user_id x"
  "pa_access_type (revoked_proxy a now reason x) = pa_access_type x"
  "pa_payload (revoked_proxy a now reason x) = pa_payload x"
  "pa_owner_user_id (deleted_proxy a now reason x) = pa_owner_user_id x"
  "pa_access_type (deleted_proxy a now reason x) = pa_access_type x"
  by (simp_all add: status_proxy_def active_proxy_def revoked_proxy_def deleted_proxy_def)

lemma ended_slot [simp]:
  "live_slot (revoked_proxy a now reason x) = None" "live_slot (deleted_proxy a now reason x) = None"
  "live_slot (inactive_proxy a now reason x) = None"
  by (simp_all add: live_slot_def live_proxy_statuses_def)

lemma proxy_set_status_run:
  assumes "proxies_ok w" "proxy_get_by_id i w = Some p"
  shows "proxy_set_status i st now err reason None w =
    (if slot_free i (live_slot (status_proxy st now err reason p)) w
     then (Inr (), put_proxy i (status_proxy st now err reason) w) else (Inl (IntegrityError ''proxy_accesses''), w))"
  by (simp add: proxy_set_status_def op_bind_def update_proxy_row_any [OF assms] op_return_def)

lemma proxy_mark_active_run:
  assumes "proxies_ok w" "proxy_get_by_id i w = Some p"
  shows "proxy_mark_active i now pl q g w =
    (if pa_status p \<notin> {ProxyPendingApply, ProxyApplyFailed} then (Inr (), w)
     else if slot_free i (live_slot (active_proxy now pl q g p)) w then (Inr (), put_proxy i (active_proxy now pl q g) w)
     else (Inl (IntegrityError ''proxy_accesses''), w))"
  using update_proxy_row [OF assms, where Q = "\<lambda>a. pa_status a \<in> {ProxyPendingApply, ProxyApplyFailed}"
      and f = "active_proxy now pl q g"]
  by (simp add: proxy_mark_active_def op_transaction_def op_bind_def op_get_def op_guard_def op_return_def assms(2))

lemma proxy_mark_revoked_run:
  assumes "proxies_ok w" "proxy_get_by_id i w = Some p"
  shows "proxy_mark_revoked i a now reason w =
    (if pa_status p \<in> {ProxyRevoked, ProxyDeleted} then (Inl (InvalidTransition ''already revoked or deleted''), w)
     else (Inr (), put_proxy i (revoked_proxy a now reason) w))"
  using update_proxy_row [OF assms, where Q = "\<lambda>x. pa_status x \<notin> {ProxyRevoked, ProxyDeleted}"
      and f = "revoked_proxy a now reason"]
  by (auto simp: proxy_mark_revoked_def op_bind_def op_guard_def)

lemma proxy_mark_deleted_run:
  assumes "proxies_ok w" "proxy_get_by_id i w = Some p"
  shows "proxy_mark_deleted i a now reason w =
    (if pa_status p = ProxyDeleted then (Inl (InvalidTransition ''already deleted''), w)
     else (Inr (), put_proxy i (deleted_proxy a now reason) w))"
  using update_proxy_row [OF assms, where Q = "\<lambda>x. pa_status x \<noteq> ProxyDeleted" and f = "deleted_proxy a now reason"]
  by (auto simp: proxy_mark_deleted_def op_bind_def op_guard_def)

end
