(* ===== verification/Dante_Users.thy ===== *)
theory Dante_Users
  imports Py_Strings Op_Steps
begin

text \<open>
  \<open>adapters/dante_users.py\<close>: the Linux users behind the SOCKS5 accesses, managed either through the
  privileged helper or through the system's own commands. How a command acts on the host is an
  argument: it gives the return code, or the text of an exception of the runner.
\<close>

datatype dante_error = DanteUserError string | DanteUserNotFoundError | RunnerRaised string

datatype dante_command = CmdExists | CmdCreate | CmdSetPassword string | CmdLock | CmdDelete

record 'd dante_tool =
  dt_run :: "string list \<Rightarrow> string option \<Rightarrow> 'd \<Rightarrow> (string + int) \<times> 'd"
  dt_helper :: "string option" \<comment> \<open>the helper's path, when there is a helper runner\<close>
  dt_login_prefix :: string
  dt_user_shell :: string

definition newline_char :: char where
  "newline_char = CHR 0x0A"

text \<open>The arguments and the standard input of a command.\<close>

definition dante_argv :: "'d dante_tool \<Rightarrow> string \<Rightarrow> dante_command \<Rightarrow> string list" where
  "dante_argv t login c = (case dt_helper t of
     Some path \<Rightarrow> path # (case c of CmdExists \<Rightarrow> [''exists'', login] | CmdCreate \<Rightarrow> [''create'', login]
        | CmdSetPassword _ \<Rightarrow> [''set-password'', login] | CmdLock \<Rightarrow> [''lock'', login] | CmdDelete \<Rightarrow> [''delete'', login])
   | None \<Rightarrow> (case c of CmdExists \<Rightarrow> [''getent'', ''passwd'', login]
        | CmdCreate \<Rightarrow> [''useradd'', ''-r'', ''-s'', dt_user_shell t, login]
        | CmdSetPassword _ \<Rightarrow> [''chpasswd''] | CmdLock \<Rightarrow> [''passwd'', ''-l'', login] | CmdDelete \<Rightarrow> [''userdel'', login]))"

definition dante_stdin :: "'d dante_tool \<Rightarrow> string \<Rightarrow> dante_command \<Rightarrow> string option" where
  "dante_stdin t login c = (case c of
     CmdSetPassword password \<Rightarrow>
       Some (case dt_helper t of Some _ \<Rightarrow> password @ [newline_char] | None \<Rightarrow> login @ '':'' @ password @ [newline_char])
   | _ \<Rightarrow> None)"

definition run_dante :: "'d dante_tool \<Rightarrow> string \<Rightarrow> dante_command \<Rightarrow> ('d, dante_error, int) op" where
  "run_dante t login c = (\<lambda>d. case dt_run t (dante_argv t login c) (dante_stdin t login c) d of
     (Inl m, d') \<Rightarrow> (Inl (RunnerRaised m), d') | (Inr rc, d') \<Rightarrow> (Inr rc, d'))"

text \<open>\<open>^[A-Za-z_][A-Za-z0-9_]{0,31}$\<close>, matched in full.\<close>

definition ascii_letter :: "char \<Rightarrow> bool" where
  "ascii_letter c \<longleftrightarrow> (let n = code_point c in 65 \<le> n \<and> n \<le> 90 \<or> 97 \<le> n \<and> n \<le> 122)"

definition login_pattern :: "string \<Rightarrow> bool" where
  "login_pattern login \<longleftrightarrow> (case login of [] \<Rightarrow> False
     | c # cs \<Rightarrow> (ascii_letter c \<or> c = CHR ''_'') \<and> length cs \<le> 31
         \<and> list_all (\<lambda>x. ascii_letter x \<or> ascii_digit x \<or> x = CHR ''_'') cs)"

definition managed_login :: "'d dante_tool \<Rightarrow> string \<Rightarrow> bool" where
  "managed_login t login \<longleftrightarrow> startswith (dt_login_prefix t) login \<and> login_pattern login"

definition ensure_managed_login :: "'d dante_tool \<Rightarrow> string \<Rightarrow> ('d, dante_error, unit) op" where
  "ensure_managed_login t login =
     op_bind (op_guard (startswith (dt_login_prefix t) login) (DanteUserError ''not a managed prefix'')) (\<lambda>_.
     op_guard (login_pattern login) (DanteUserError ''invalid login''))"

definition safe_password :: "string \<Rightarrow> bool" where
  "safe_password password \<longleftrightarrow> password \<noteq> [] \<and> set password \<inter> {newline_char, CHR 0x0D, CHR 0x00, CHR '':''} = {}"

definition ensure_safe_password :: "string \<Rightarrow> ('d, dante_error, unit) op" where
  "ensure_safe_password password =
     op_bind (op_guard (password \<noteq> []) (DanteUserError ''empty password'')) (\<lambda>_.
     op_guard (safe_password password) (DanteUserError ''unsafe password''))"

definition user_exists :: "'d dante_tool \<Rightarrow> string \<Rightarrow> ('d, dante_error, bool) op" where
  "user_exists t login =
     op_bind (ensure_managed_login t login) (\<lambda>_.
     op_bind (run_dante t login CmdExists) (\<lambda>rc.
     if rc = 0 then op_return True else if rc = 2 then op_return False
     else op_raise (DanteUserError ''exists'')))"

definition run_ok :: "'d dante_tool \<Rightarrow> string \<Rightarrow> dante_command \<Rightarrow> string \<Rightarrow> ('d, dante_error, unit) op" where
  "run_ok t login c what = op_bind (run_dante t login c) (\<lambda>rc. op_guard (rc = 0) (DanteUserError what))"

definition create_user :: "'d dante_tool \<Rightarrow> string \<Rightarrow> string \<Rightarrow> ('d, dante_error, unit) op" where
  "create_user t login password =
     op_bind (ensure_managed_login t login) (\<lambda>_.
     op_bind (ensure_safe_password password) (\<lambda>_.
     op_bind (user_exists t login) (\<lambda>found.
     op_bind (op_guard (\<not> found) (DanteUserError ''already exists'')) (\<lambda>_.
     op_bind (run_ok t login CmdCreate ''create'') (\<lambda>_.
     run_ok t login (CmdSetPassword password) ''set password'')))))"

definition lock_user :: "'d dante_tool \<Rightarrow> string \<Rightarrow> ('d, dante_error, unit) op" where
  "lock_user t login =
     op_bind (ensure_managed_login t login) (\<lambda>_.
     op_bind (user_exists t login) (\<lambda>found.
     op_bind (op_guard found DanteUserNotFoundError) (\<lambda>_.
     run_ok t login CmdLock ''lock'')))"

definition delete_user :: "'d dante_tool \<Rightarrow> string \<Rightarrow> ('d, dante_error, unit) op" where
  "delete_user t login =
     op_bind (ensure_managed_login t login) (\<lambda>_.
     op_bind (user_exists t login) (\<lambda>found.
     if \<not> found then op_return () else run_ok t login CmdDelete ''delete''))"

section \<open>What the commands do to the users of the host\<close>

record linux_user =
  lu_password :: "string option"
  lu_locked :: bool

lemma not_found_only [simp]:
  "user_exists t login d \<noteq> (Inl DanteUserNotFoundError, d')"
  "run_ok t login c what d \<noteq> (Inl DanteUserNotFoundError, d')"
  by (auto simp: user_exists_def run_ok_def ensure_managed_login_def run_dante_def op_iffs split: prod.splits sum.splits if_splits)

definition may_login :: "linux_user option \<Rightarrow> bool" where
  "may_login u = (case u of None \<Rightarrow> False | Some v \<Rightarrow> lu_password v \<noteq> None \<and> \<not> lu_locked v)"

definition allowed :: "('d \<Rightarrow> string \<Rightarrow> linux_user option) \<Rightarrow> 'd \<Rightarrow> string set" where
  "allowed users d = {login. may_login (users d login)}"

lemma allowed_step:
  assumes "\<And>other. other \<noteq> login \<Longrightarrow> users d' other = users d other"
  shows "allowed users d' = (if may_login (users d' login) then insert login (allowed users d) else allowed users d - {login})"
proof (rule set_eqI)
  fix x
  show "x \<in> allowed users d' \<longleftrightarrow>
      x \<in> (if may_login (users d' login) then insert login (allowed users d) else allowed users d - {login})"
    using assms [of x] by (cases "x = login") (simp_all add: allowed_def)
qed

definition safe_command :: "dante_command \<Rightarrow> bool" where
  "safe_command c = (case c of CmdSetPassword p \<Rightarrow> safe_password p | _ \<Rightarrow> True)"

text \<open>
  The documented behaviour of \<open>getent\<close>, \<open>useradd\<close>, \<open>chpasswd\<close>, \<open>passwd -l\<close> and \<open>userdel\<close> (and of the
  helper's verbs), of which only the successful outcomes are assumed: a command that fails may have
  done anything to its own user, and none touches another user.
\<close>

locale dante_host =
  fixes t :: "'d dante_tool" and users :: "'d \<Rightarrow> string \<Rightarrow> linux_user option"
  assumes exists_pure: "login_pattern login \<Longrightarrow> run_dante t login CmdExists d = (r, d') \<Longrightarrow> users d' = users d"
    and exists_true: "login_pattern login \<Longrightarrow> run_dante t login CmdExists d = (Inr 0, d') \<Longrightarrow> users d login \<noteq> None"
    and exists_false: "login_pattern login \<Longrightarrow> run_dante t login CmdExists d = (Inr 2, d') \<Longrightarrow> users d login = None"
    and set_password_ok: "login_pattern login \<Longrightarrow> safe_password p \<Longrightarrow> run_dante t login (CmdSetPassword p) d = (Inr 0, d')
      \<Longrightarrow> users d login \<noteq> None \<Longrightarrow> users d' login = Some \<lparr>lu_password = Some p, lu_locked = False\<rparr>"
    and create_ok: "login_pattern login \<Longrightarrow> run_dante t login CmdCreate d = (Inr 0, d')
      \<Longrightarrow> users d' login = Some \<lparr>lu_password = None, lu_locked = True\<rparr>"
    and lock_ok: "login_pattern login \<Longrightarrow> run_dante t login CmdLock d = (Inr 0, d')
      \<Longrightarrow> \<exists>u. users d' login = Some u \<and> lu_locked u"
    and delete_ok: "login_pattern login \<Longrightarrow> run_dante t login CmdDelete d = (Inr 0, d') \<Longrightarrow> users d' login = None"
    and others_kept: "login_pattern login \<Longrightarrow> safe_command c \<Longrightarrow> run_dante t login c d = (r, d') \<Longrightarrow> other \<noteq> login
      \<Longrightarrow> users d' other = users d other"
begin

lemma user_exists_run:
  assumes "user_exists t login d = (Inr found, d')"
  shows "users d' = users d" "found \<longleftrightarrow> users d login \<noteq> None" "managed_login t login"
  using assms exists_true exists_false
  by (auto simp: user_exists_def ensure_managed_login_def managed_login_def op_iffs split: if_splits
      dest: exists_pure)

lemma create_user_ok:
  assumes "create_user t login password d = (Inr x, d')"
  shows "users d' login = Some \<lparr>lu_password = Some password, lu_locked = False\<rparr>" "users d login = None"
    "managed_login t login" "safe_password password"
proof -
  from assms obtain d1 d2 where steps: "user_exists t login d = (Inr False, d1)" "run_dante t login CmdCreate d1 = (Inr 0, d2)"
    "run_dante t login (CmdSetPassword password) d2 = (Inr 0, d')" "safe_password password" "login_pattern login"
    by (auto simp: create_user_def ensure_managed_login_def ensure_safe_password_def run_ok_def op_iffs)
  show "users d' login = Some \<lparr>lu_password = Some password, lu_locked = False\<rparr>"
    using set_password_ok [OF steps(5,4,3)] create_ok [OF steps(5,2)] by simp
  show "users d login = None" "managed_login t login" using user_exists_run [OF steps(1)] by simp_all
  show "safe_password password" by (rule steps(4))
qed

lemma lock_user_ok: "lock_user t login d = (Inr x, d') \<Longrightarrow> \<not> may_login (users d' login)"
  by (auto simp: lock_user_def ensure_managed_login_def run_ok_def op_iffs may_login_def dest!: lock_ok)

lemma lock_user_missing:
  assumes "lock_user t login d = (Inl DanteUserNotFoundError, d')"
  shows "\<not> may_login (users d' login)"
proof -
  have "user_exists t login d = (Inr False, d')"
    using assms by (auto simp: lock_user_def ensure_managed_login_def op_iffs)
  from user_exists_run [OF this] show ?thesis by (simp add: may_login_def)
qed

lemma delete_user_ok: "delete_user t login d = (Inr x, d') \<Longrightarrow> users d' login = None"
  using user_exists_run(1,2) [of login d False d']
  by (auto simp: delete_user_def ensure_managed_login_def run_ok_def op_iffs split: if_splits dest: delete_ok)

text \<open>No operation touches another user.\<close>

lemma others_exists: "user_exists t login d = (r, d') \<Longrightarrow> users d' = users d"
  by (cases r) (auto simp: user_exists_def ensure_managed_login_def op_iffs split: if_splits dest: exists_pure)

lemma others_run_ok: "run_ok t login c what d = (r, d') \<Longrightarrow> login_pattern login \<Longrightarrow> safe_command c \<Longrightarrow> other \<noteq> login
    \<Longrightarrow> users d' other = users d other"
  by (cases r) (auto simp: run_ok_def op_iffs dest: others_kept)

lemma others_untouched:
  assumes "other \<noteq> login"
  shows "create_user t login p d = (r, d') \<Longrightarrow> users d' other = users d other"
    "lock_user t login d = (r, d') \<Longrightarrow> users d' other = users d other"
    "delete_user t login d = (r, d') \<Longrightarrow> users d' other = users d other"
  by (cases r; auto simp: create_user_def lock_user_def delete_user_def ensure_managed_login_def ensure_safe_password_def
      op_iffs safe_command_def split: if_splits
      dest!: others_exists others_run_ok [OF _ _ _ assms])+

end

end
