(* ===== verification/Py_Replace.thy ===== *)
theory Py_Replace
  imports Users_Repo
begin

text \<open>
  \<open>str.replace\<close> with a text that is not empty, as the services use it to take a secret out of an
  error message, and \<open>urllib.parse.quote\<close> with no safe characters.
\<close>

function str_replace :: "string \<Rightarrow> string \<Rightarrow> string \<Rightarrow> string" where
  "str_replace old new [] = []"
| "str_replace old new (c # cs) =
     (if old \<noteq> [] \<and> startswith old (c # cs) then new @ str_replace old new (drop (length old) (c # cs))
      else c # str_replace old new cs)"
  by pat_completeness auto
termination by (relation "measure (\<lambda>(old, new, s). length s)") auto

text \<open>\<open>_redact_value\<close> of the services: the empty secret is never replaced.\<close>

definition redact_secret :: "string \<Rightarrow> string \<Rightarrow> string" where
  "redact_secret s secret = (if secret = [] then s else str_replace secret ''***'' s)"

definition unreserved :: "char \<Rightarrow> bool" where
  "unreserved c \<longleftrightarrow> (let n = code_point c in 65 \<le> n \<and> n \<le> 90 \<or> 97 \<le> n \<and> n \<le> 122)
     \<or> ascii_digit c \<or> c \<in> {CHR ''_'', CHR ''.'', CHR ''-'', CHR ''~''}"

definition hex_char :: "nat \<Rightarrow> char" where
  "hex_char d = (if d < 10 then char_of (48 + d) else char_of (55 + d))"

definition percent_byte :: "nat \<Rightarrow> string" where
  "percent_byte n = [CHR ''%'', hex_char (n div 16), hex_char (n mod 16)]"

definition quote_char :: "char \<Rightarrow> string" where
  "quote_char c = (let n = code_point c
     in if unreserved c then [c]
        else if n < 128 then percent_byte n
        else percent_byte (192 + n div 64) @ percent_byte (128 + n mod 64))"

definition quote_text :: "string \<Rightarrow> string" where
  "quote_text s = concat (map quote_char s)"

section \<open>Nothing is left of a replaced secret\<close>

lemma startswith_Nil [simp]: "startswith [] s"
  by (simp add: startswith_def)

lemma startswith_Cons: "startswith (x # xs) (c # cs) \<longleftrightarrow> x = c \<and> startswith xs cs"
  by (auto simp: startswith_def)

text \<open>A text without the mark that the result starts with was there before.\<close>

lemma startswith_replaced:
  assumes "startswith w (str_replace old (m # new) s)" "m \<notin> set w"
  shows "startswith w s"
  using assms
proof (induction w arbitrary: s)
  case (Cons x w)
  then obtain c cs where s: "s = c # cs" by (cases s) (auto simp: startswith_def)
  with Cons.prems have "\<not> (old \<noteq> [] \<and> startswith old s)" by (auto simp: startswith_Cons)
  with Cons.prems(1) have "x = c" "startswith w (str_replace old (m # new) cs)" by (auto simp: s startswith_Cons)
  with Cons show ?case by (simp add: s startswith_Cons)
qed simp

lemma infix_append_free: "infix_of p (m @ s) \<Longrightarrow> p \<noteq> [] \<Longrightarrow> set m \<inter> set p = {} \<Longrightarrow> infix_of p s"
proof (induction m)
  case (Cons c m)
  then show ?case by (cases p) (auto simp: startswith_Cons)
qed simp

lemma replaced_free:
  assumes "old \<noteq> []" "m \<notin> set old" "set new \<subseteq> {m}"
  shows "\<not> infix_of old (str_replace old (m # new) s)"
  using assms
proof (induction old "m # new" s rule: str_replace.induct)
  case (2 old c cs)
  show ?case
  proof (cases "startswith old (c # cs)")
    case True
    have "\<not> infix_of old (m # new @ str_replace old (m # new) (drop (length old) (c # cs)))"
      using 2(1) [OF conjI] 2(3-) True infix_append_free [of old "m # new"] by fastforce
    then show ?thesis using True 2(3) by simp
  next
    case False
    have "startswith old (c # str_replace old (m # new) cs) \<Longrightarrow> startswith old (c # cs)"
      using startswith_replaced [of old old m new "c # cs"] False 2(4) by simp
    then show ?thesis using False 2(2) [OF _ 2(3-)] by auto
  qed
qed simp

lemma redacted_free: "secret \<noteq> [] \<Longrightarrow> CHR ''*'' \<notin> set secret \<Longrightarrow> \<not> infix_of secret (redact_secret s secret)"
  using replaced_free [of secret "CHR ''*''" "''**''" s] by (simp add: redact_secret_def)

end
