(* ===== verification/Socks5.thy ===== *)
theory Socks5
  imports Awg_Client Proxy_Rows Dante_Users Py_Replace
begin

text \<open>
  \<open>services/socks5.py\<close>: SOCKS5 accesses issued, shown, revoked and deleted over the table of accesses
  and the Linux users of \<open>Dante_Users\<close>, and the start-up reconciliation. The generated suffixes and
  password, and whether the database accepts the two writes after the user is created, are the
  record \<open>socks_inputs\<close>.
\<close>

record socks_settings =
  so_enabled :: bool
  so_host :: string
  so_port :: "int option"
  so_public_name :: string
  so_note :: string
  so_login_prefix :: string

record socks_inputs =
  si_suffix :: "nat \<Rightarrow> nat \<Rightarrow> string" \<comment> \<open>the hex text of the i-th draw of n bytes\<close>
  si_password :: string
  si_activates :: bool
  si_marks_failed :: bool

definition dante_error_text :: "dante_error \<Rightarrow> string" where
  "dante_error_text err = (case err of DanteUserError m \<Rightarrow> m | DanteUserNotFoundError \<Rightarrow> ''user not found''
     | RunnerRaised m \<Rightarrow> m)"

definition on_dante :: "('d, dante_error, 'a) op \<Rightarrow> ('d, 'a) service_op" where
  "on_dante m = (\<lambda>s. case m (sv_host s) of (r, d) \<Rightarrow>
     (case r of Inl err \<Rightarrow> Inl (BackendFailure (dante_error_text err)) | Inr x \<Rightarrow> Inr x, s\<lparr>sv_host := d\<rparr>))"

definition socks_audit :: "env \<Rightarrow> int option \<Rightarrow> string \<Rightarrow> int \<Rightarrow> ('d, unit) service_op" where
  "socks_audit e actor action i = on_db (audit_write_best_effort e actor action EntityProxy (Some i) 0)"

section \<open>Gates and parts\<close>

definition socks_ensure_enabled :: "socks_settings \<Rightarrow> ('d, unit) service_op" where
  "socks_ensure_enabled st =
     op_bind (op_guard (so_enabled st) (InvalidOperation ''err_socks5_unavailable'')) (\<lambda>_.
     op_guard (so_host st \<noteq> [] \<and> so_port st \<noteq> None) (InvalidOperation ''err_socks5_not_configured''))"

definition socks_port :: "socks_settings \<Rightarrow> service_error + int" where
  "socks_port st = (case so_port st of None \<Rightarrow> Inl (InvalidOperation ''SOCKS5_PORT'') | Some p \<Rightarrow> Inr p)"

definition ensure_can_issue :: "int \<Rightarrow> int \<Rightarrow> unit act" where
  "ensure_can_issue actor owner =
     op_bind (require_approved_or_admin actor) (\<lambda>a.
     op_bind (require_approved_or_admin owner) (\<lambda>o'.
     op_bind (op_guard (u_role a = SUPERADMIN \<or> actor = owner) (AccessDenied ''err_create_proxy_for_other'')) (\<lambda>_.
     op_guard (u_role o' \<in> {SUPERADMIN, APPROVED_USER}) (AccessDenied ''err_proxy_owner_no_access''))))"

definition get_access :: "int \<Rightarrow> proxy_access act" where
  "get_access i = op_bind (op_get (proxy_get_by_id i)) (\<lambda>found.
     case found of None \<Rightarrow> op_raise (NotFound ''err_proxy_access_not_found'') | Some p \<Rightarrow> op_return p)"

definition active_access :: "int \<Rightarrow> world \<Rightarrow> proxy_access option" where
  "active_access owner = find_user_access_by_type_statuses owner SOCKS5 [ProxyActive]"

definition socks_mark_shown :: "env \<Rightarrow> proxy_access \<Rightarrow> int \<Rightarrow> ('d, unit) service_op" where
  "socks_mark_shown e a actor =
     op_bind (on_db (proxy_mark_shown (pa_id a) (ev_now e))) (\<lambda>_. socks_audit e (Some actor) ''socks5_proxy_shown'' (pa_id a))"

definition payload_login :: "library \<Rightarrow> proxy_access \<Rightarrow> string" where
  "payload_login lib a = (let v = json_get (pa_payload a) ''login'' in if json_truthy v then py_str lib v else [])"

fun try_logins :: "'d dante_tool \<Rightarrow> (nat \<Rightarrow> string) \<Rightarrow> nat list \<Rightarrow> ('d, string) service_op" where
  "try_logins t gen [] = op_raise (InvalidOperation ''no unique SOCKS5 login'')"
| "try_logins t gen (i # is) =
     op_bind (on_db (op_get (find_by_socks5_login (gen i)))) (\<lambda>found.
     if found \<noteq> None then try_logins t gen is
     else op_bind (on_dante (user_exists t (gen i))) (\<lambda>taken.
          if taken then try_logins t gen is else op_return (gen i)))"

definition unique_login :: "socks_settings \<Rightarrow> 'd dante_tool \<Rightarrow> socks_inputs \<Rightarrow> int \<Rightarrow> ('d, string) service_op" where
  "unique_login st t si owner =
     (let prefix = so_login_prefix st;
          max_suffix_len = 32 - int (length prefix) - int (length (int_str owner)) - 1
      in if max_suffix_len < 4 then op_raise (InvalidOperation ''SOCKS5_LOGIN_PREFIX too long'')
         else try_logins t
           (\<lambda>i. prefix @ int_str owner @ ''_'' @ si_suffix si i (nat (min 4 (max_suffix_len div 2)))) [0 ..< 10])"

definition socks_payload :: "socks_settings \<Rightarrow> int \<Rightarrow> string \<Rightarrow> string \<Rightarrow> payload" where
  "socks_payload st port login password =
     [(''type'', JStr ''socks5''), (''host'', JStr (so_host st)), (''port'', JInt port), (''login'', JStr login),
      (''password'', JStr password),
      (''url'', JStr (''socks5://'' @ quote_text login @ '':'' @ quote_text password @ ''@'' @ so_host st @ '':'' @ int_str port)),
      (''public_name'', JStr (so_public_name st)), (''note'', JStr (so_note st))]"

definition socks_public_payload :: "socks_settings \<Rightarrow> int \<Rightarrow> string \<Rightarrow> payload" where
  "socks_public_payload st port login =
     [(''type'', JStr ''socks5''), (''host'', JStr (so_host st)), (''port'', JInt port), (''login'', JStr login),
      (''public_name'', JStr (so_public_name st)), (''note'', JStr (so_note st))]"

section \<open>Issue\<close>

definition disable_after_failure :: "env \<Rightarrow> 'd dante_tool \<Rightarrow> int \<Rightarrow> int \<Rightarrow> string \<Rightarrow> ('d, bool) service_op" where
  "disable_after_failure e t actor i login =
     op_bind (op_attempt (on_dante (delete_user t login))) (\<lambda>deleted.
     case deleted of Inr _ \<Rightarrow> op_return True
     | Inl _ \<Rightarrow>
         op_bind (op_attempt (on_dante (lock_user t login))) (\<lambda>locked.
         case locked of Inr _ \<Rightarrow> op_return True
         | Inl _ \<Rightarrow>
             op_bind (mark_degraded ''post-apply mark_active failed and compensation failed'') (\<lambda>_.
             op_bind (socks_audit e (Some actor) ''socks5_create_compensation_failed'' i) (\<lambda>_. op_return False))))"

definition compensate_failed_issue ::
  "env \<Rightarrow> 'd dante_tool \<Rightarrow> socks_inputs \<Rightarrow> int \<Rightarrow> int \<Rightarrow> string \<Rightarrow> ('d, unit) service_op" where
  "compensate_failed_issue e t si actor i login =
     op_bind (disable_after_failure e t actor i login) (\<lambda>disabled.
     if \<not> disabled then op_return ()
     else op_bind (op_try
            (if_commits (si_marks_failed si)
              (on_db (proxy_set_status i ProxyApplyFailed (ev_now e) (Some ''user was disabled'') None None)))
            (\<lambda>_. op_return ())) (\<lambda>_.
          socks_audit e (Some actor) ''socks5_create_compensated_after_db_failure'' i))"

definition provision_user ::
  "env \<Rightarrow> 'd dante_tool \<Rightarrow> socks_inputs \<Rightarrow> int \<Rightarrow> int \<Rightarrow> int \<Rightarrow> string \<Rightarrow> ('d, unit) service_op" where
  "provision_user e t si actor owner i login =
     op_try
       (op_bind (on_db (ensure_can_issue actor owner)) (\<lambda>_. on_dante (create_user t login (si_password si))))
       (\<lambda>exc. let error = redact_secret (error_text exc) (si_password si) in
          op_bind (on_db (proxy_set_status i ProxyApplyFailed (ev_now e) (Some error) None None)) (\<lambda>_.
          op_bind (socks_audit e (Some actor) ''socks5_proxy_apply_failed'' i) (\<lambda>_.
          if error \<noteq> error_text exc then op_raise (InvalidOperation ''SOCKS5 apply failed'') else op_raise exc)))"

definition activate_access ::
  "env \<Rightarrow> 'd dante_tool \<Rightarrow> socks_inputs \<Rightarrow> int \<Rightarrow> int \<Rightarrow> string \<Rightarrow> payload \<Rightarrow> payload \<Rightarrow> ('d, unit) service_op" where
  "activate_access e t si actor i login p q =
     op_try (if_commits (si_activates si) (on_db (proxy_mark_active i (ev_now e) (Some p) (Some q) None)))
       (\<lambda>exc. op_bind (compensate_failed_issue e t si actor i login) (\<lambda>_. op_raise exc))"

definition insert_access ::
  "env \<Rightarrow> socks_settings \<Rightarrow> 'd dante_tool \<Rightarrow> socks_inputs \<Rightarrow> int \<Rightarrow> telegram_user_profile
     \<Rightarrow> ('d, string \<times> payload \<times> payload \<times> proxy_access) service_op" where
  "insert_access e st t si actor profile =
     op_bind (unique_login st t si (pr_telegram_user_id profile)) (\<lambda>login.
     op_bind (pure_sum (socks_port st)) (\<lambda>port.
     let p = socks_payload st port login (si_password si); q = socks_public_payload st port login
     in op_bind (on_db (proxy_create \<lparr>pd_owner_user_id = pr_telegram_user_id profile, pd_username = pr_username profile,
            pd_access_type = SOCKS5, pd_status = ProxyPendingApply, pd_payload = p, pd_public_payload = q,
            pd_created_by = actor, pd_secret_fingerprint = None\<rparr> (ev_now e))) (\<lambda>access.
        op_return (login, p, q, access))))"

text \<open>From the inserted row to the access that is returned.\<close>

definition provision_access ::
  "env \<Rightarrow> 'd dante_tool \<Rightarrow> socks_inputs \<Rightarrow> int \<Rightarrow> int \<Rightarrow> int \<Rightarrow> string \<Rightarrow> payload \<Rightarrow> payload \<Rightarrow> ('d, proxy_access) service_op" where
  "provision_access e t si actor owner i login p q =
     op_bind (provision_user e t si actor owner i login) (\<lambda>_.
     op_bind (activate_access e t si actor i login p q) (\<lambda>_.
     op_bind (socks_audit e (Some actor) ''socks5_proxy_created'' i) (\<lambda>_.
     op_bind (on_db (get_access i)) (\<lambda>active.
     op_bind (socks_mark_shown e active actor) (\<lambda>_. on_db (get_access i))))))"

text \<open>The part under the lock of the service.\<close>

definition issue_new_access ::
  "env \<Rightarrow> socks_settings \<Rightarrow> 'd dante_tool \<Rightarrow> socks_inputs \<Rightarrow> int \<Rightarrow> telegram_user_profile \<Rightarrow> ('d, proxy_access) service_op" where
  "issue_new_access e st t si actor profile =
     op_bind require_mutation_allowed (\<lambda>_.
     op_bind (on_db (ensure_can_issue actor (pr_telegram_user_id profile))) (\<lambda>_.
     op_bind (insert_access e st t si actor profile) (\<lambda>(login, p, q, access).
     provision_access e t si actor (pr_telegram_user_id profile) (pa_id access) login p q)))"

definition show_existing :: "env \<Rightarrow> int \<Rightarrow> proxy_access \<Rightarrow> ('d, proxy_access) service_op" where
  "show_existing e actor a = op_bind (socks_mark_shown e a actor) (\<lambda>_. on_db (get_access (pa_id a)))"

definition issue_socks5_proxy ::
  "env \<Rightarrow> socks_settings \<Rightarrow> 'd dante_tool \<Rightarrow> socks_inputs \<Rightarrow> int \<Rightarrow> telegram_user_profile \<Rightarrow> ('d, proxy_access) service_op" where
  "issue_socks5_proxy e st t si actor profile =
     op_bind (socks_ensure_enabled st) (\<lambda>_.
     op_bind require_mutation_allowed (\<lambda>_.
     op_bind (on_db (ensure_can_issue actor (pr_telegram_user_id profile))) (\<lambda>_.
     op_bind (on_db (op_get (active_access (pr_telegram_user_id profile)))) (\<lambda>existing.
     case existing of
       Some a \<Rightarrow> show_existing e actor a
     | None \<Rightarrow> issue_new_access e st t si actor profile))))"

definition get_socks5_proxy_config :: "env \<Rightarrow> int \<Rightarrow> ('d, proxy_access) service_op" where
  "get_socks5_proxy_config e actor =
     op_bind (on_db (require_approved_or_admin actor)) (\<lambda>_.
     op_bind (on_db (op_get (active_access actor))) (\<lambda>found.
     case found of None \<Rightarrow> op_raise (NotFound ''err_socks5_access_not_found'')
     | Some a \<Rightarrow> show_existing e actor a))"

definition socks_list_user_accesses :: "int \<Rightarrow> proxy_access list act" where
  "socks_list_user_accesses actor =
     op_bind (require_approved_or_admin actor) (\<lambda>_. op_get (proxy_list_by_owner actor False 50 0))"

section \<open>Revocation and deletion\<close>

definition finished_statuses :: "proxy_access_status list" where
  "finished_statuses = [ProxyRevoked, ProxyInactive, ProxyDeleted]"

definition lock_if_exists :: "'d dante_tool \<Rightarrow> string \<Rightarrow> ('d, dante_error, unit) op" where
  "lock_if_exists t login =
     (if login = [] then op_return ()
      else op_try (lock_user t login) (\<lambda>exc. if exc = DanteUserNotFoundError then op_return () else op_raise exc))"

definition revoke_socks5_access ::
  "env \<Rightarrow> library \<Rightarrow> 'd dante_tool \<Rightarrow> int \<Rightarrow> int \<Rightarrow> string option \<Rightarrow> ('d, proxy_access) service_op" where
  "revoke_socks5_access e lib t actor i reason =
     op_bind (on_db (get_access i)) (\<lambda>a0.
     op_bind (op_guard (pa_access_type a0 = SOCKS5) (InvalidOperation ''err_not_socks5_access'')) (\<lambda>_.
     op_bind (on_db (get_access i)) (\<lambda>a.
     if pa_status a \<in> set finished_statuses then op_return a
     else
     op_bind require_mutation_allowed (\<lambda>_.
     op_bind (on_db (proxy_set_status i ProxyPendingRevoke (ev_now e) None reason None)) (\<lambda>_.
     op_bind
       (op_try (on_dante (lock_if_exists t (payload_login lib a))) (\<lambda>exc.
          op_bind (on_db (proxy_set_status i (pa_status a) (ev_now e) (Some (error_text exc)) reason None)) (\<lambda>_.
          op_bind (socks_audit e (Some actor) ''socks5_proxy_revoke_failed'' i) (\<lambda>_.
          op_raise exc)))) (\<lambda>_.
     op_bind (on_db (proxy_mark_revoked i actor (ev_now e) reason)) (\<lambda>_.
     op_bind (socks_audit e (Some actor) ''socks5_proxy_revoked'' i) (\<lambda>_.
     on_db (get_access i)))))))))"

definition revoke_socks5_proxy ::
  "env \<Rightarrow> library \<Rightarrow> 'd dante_tool \<Rightarrow> int \<Rightarrow> int \<Rightarrow> string option \<Rightarrow> ('d, proxy_access) service_op" where
  "revoke_socks5_proxy e lib t actor i reason =
     op_bind (on_db (require_superadmin actor)) (\<lambda>_. revoke_socks5_access e lib t actor i reason)"

definition revoke_socks5_proxy_system ::
  "env \<Rightarrow> library \<Rightarrow> 'd dante_tool \<Rightarrow> int \<Rightarrow> int \<Rightarrow> string option \<Rightarrow> ('d, proxy_access) service_op" where
  "revoke_socks5_proxy_system = revoke_socks5_access"

definition delete_socks5_proxy ::
  "env \<Rightarrow> library \<Rightarrow> 'd dante_tool \<Rightarrow> int \<Rightarrow> int \<Rightarrow> string option \<Rightarrow> ('d, proxy_access) service_op" where
  "delete_socks5_proxy e lib t actor i reason =
     op_bind (on_db (require_superadmin actor)) (\<lambda>_.
     op_bind (on_db (get_access i)) (\<lambda>a0.
     op_bind (op_guard (pa_access_type a0 = SOCKS5) (InvalidOperation ''err_not_socks5_access'')) (\<lambda>_.
     op_bind (on_db (get_access i)) (\<lambda>a.
     if pa_status a = ProxyDeleted then op_return a
     else
     op_bind require_mutation_allowed (\<lambda>_.
     op_bind (on_db (proxy_set_status i ProxyPendingDelete (ev_now e) None reason None)) (\<lambda>_.
     op_bind
       (op_try (if payload_login lib a = [] then op_return () else on_dante (delete_user t (payload_login lib a))) (\<lambda>exc.
          op_bind (on_db (proxy_set_status i ProxyDeleteFailed (ev_now e) (Some (error_text exc)) reason None)) (\<lambda>_.
          op_bind (socks_audit e (Some actor) ''socks5_proxy_delete_failed'' i) (\<lambda>_.
          op_raise exc)))) (\<lambda>_.
     op_bind (on_db (proxy_mark_deleted i actor (ev_now e) reason)) (\<lambda>_.
     op_bind (socks_audit e (Some actor) ''socks5_proxy_deleted'' i) (\<lambda>_.
     on_db (get_access i))))))))))"

section \<open>Start-up reconciliation\<close>

definition socks_startup_statuses :: "proxy_access_status list" where
  "socks_startup_statuses = [ProxyPendingApply, ProxyApplyFailed, ProxyPendingRevoke, ProxyPendingDelete, ProxyDeleteFailed]"

text \<open>\<open>a or b\<close> of optional user ids, of which zero is false.\<close>

definition or_id :: "int option \<Rightarrow> int \<Rightarrow> int" where
  "or_id x y = (case x of None \<Rightarrow> y | Some i \<Rightarrow> if i = 0 then y else i)"

definition startup_reconcile_access ::
  "env \<Rightarrow> library \<Rightarrow> 'd dante_tool \<Rightarrow> proxy_access \<Rightarrow> ('d, bool) service_op" where
  "startup_reconcile_access e lib t a =
     (let i = pa_id a; login = payload_login lib a in
      if login = [] then op_return False
      else op_bind (on_dante (user_exists t login)) (\<lambda>there.
        if pa_status a \<in> {ProxyPendingApply, ProxyApplyFailed} then
          if there then
            op_bind (on_db (proxy_mark_active i (ev_now e) (Some (pa_payload a)) (Some (pa_public_payload a)) None)) (\<lambda>_.
            op_bind (socks_audit e None ''socks5_startup_apply_recovered'' i) (\<lambda>_. op_return True))
          else if pa_status a \<noteq> ProxyApplyFailed then
            op_bind (on_db (proxy_set_status i ProxyApplyFailed (ev_now e) (Some ''Linux user not found'') None None)) (\<lambda>_.
            op_return True)
          else op_return False
        else if pa_status a = ProxyPendingRevoke then
          op_bind (if there then on_dante (lock_if_exists t login) else op_return ()) (\<lambda>_.
          op_bind (on_db (proxy_mark_revoked i (or_id (pa_revoked_by a) (pa_created_by a)) (ev_now e) (pa_reason a))) (\<lambda>_.
          op_bind (socks_audit e None ''socks5_startup_revoke_completed'' i) (\<lambda>_. op_return True)))
        else if pa_status a \<in> {ProxyPendingDelete, ProxyDeleteFailed} then
          op_bind (if there then on_dante (op_try (delete_user t login)
                     (\<lambda>exc. if exc = DanteUserNotFoundError then op_return () else op_raise exc)) else op_return ()) (\<lambda>_.
          op_bind (on_db (proxy_mark_deleted i (or_id (pa_deleted_by a) (or_id (pa_revoked_by a) (pa_created_by a)))
                     (ev_now e) (pa_reason a))) (\<lambda>_.
          op_bind (socks_audit e None ''socks5_startup_delete_completed'' i) (\<lambda>_. op_return True)))
        else op_return False))"

text \<open>The three counters of a pass: checked, recovered, failed.\<close>

type_synonym pass_counts = "nat \<times> nat \<times> nat"

fun reconcile_accesses :: "('a \<Rightarrow> ('d, bool) service_op) \<Rightarrow> 'a list \<Rightarrow> pass_counts \<Rightarrow> ('d, pass_counts) service_op" where
  "reconcile_accesses step [] c = op_return c"
| "reconcile_accesses step (a # as) (checked, recovered, failed) =
     op_bind (op_attempt (step a)) (\<lambda>r.
     reconcile_accesses step as (checked + 1, if r = Inr True then recovered + 1 else recovered,
       case r of Inl _ \<Rightarrow> failed + 1 | Inr _ \<Rightarrow> failed))"

fun socks_pages ::
  "nat \<Rightarrow> env \<Rightarrow> library \<Rightarrow> 'd dante_tool \<Rightarrow> int \<Rightarrow> pass_counts \<Rightarrow> ('d, pass_counts option) service_op" where
  "socks_pages 0 e lib t last_id c = op_return None"
| "socks_pages (Suc fuel) e lib t last_id c =
     op_bind (on_db (op_get (proxy_list_by_type_statuses SOCKS5 socks_startup_statuses 500 last_id))) (\<lambda>batch.
     if batch = [] then op_return (Some c)
     else op_bind (reconcile_accesses (startup_reconcile_access e lib t) batch c) (\<lambda>c'.
          socks_pages fuel e lib t (pa_id (last batch)) c'))"

definition reconcile_socks5_state :: "nat \<Rightarrow> env \<Rightarrow> library \<Rightarrow> 'd dante_tool \<Rightarrow> ('d, pass_counts option) service_op" where
  "reconcile_socks5_state fuel e lib t = socks_pages fuel e lib t 0 (0, 0, 0)"

end
