(* ===== verification/Socks5_Access.thy ===== *)
theory Socks5_Access
  imports Socks5
begin

text \<open>
  What the SOCKS5 service leaves behind: which rows it writes and who can log in on the host, for
  every outcome of an issue, a revocation and a deletion. The proofs use the contract \<open>dante_host\<close>
  of the commands only.
\<close>

section \<open>How the steps run\<close>

lemma on_dante_Inr: "on_dante m s = (Inr x, s') \<longleftrightarrow> (\<exists>d. m (sv_host s) = (Inr x, d) \<and> s' = s\<lparr>sv_host := d\<rparr>)"
  by (auto simp: on_dante_def split: prod.splits sum.splits)

lemma on_dante_Inl: "on_dante m s = (Inl x, s') \<longleftrightarrow>
    (\<exists>exc d. m (sv_host s) = (Inl exc, d) \<and> x = BackendFailure (dante_error_text exc) \<and> s' = s\<lparr>sv_host := d\<rparr>)"
  by (auto simp: on_dante_def split: prod.splits sum.splits)

lemmas socks_iffs = on_dante_Inr on_dante_Inl service_iffs

lemma same_proxies:
  assumes "db_proxy_accesses w' = db_proxy_accesses w"
  shows "proxy_get_by_id j w' = proxy_get_by_id j w" "slot_free j slot w' = slot_free j slot w"
    "db_proxy_access_seq w' = db_proxy_access_seq w \<Longrightarrow> proxies_ok w' = proxies_ok w"
  by (simp_all add: proxy_get_by_id_def slot_free_def proxies_ok_def assms)

lemma logged_proxies [simp]:
  "proxy_get_by_id j (logged e a b c d n w) = proxy_get_by_id j w"
  "proxies_ok (logged e a b c d n w) = proxies_ok w"
  by (rule same_proxies; simp add: logged_def audit_best_effort_run)+

lemma socks_audit_run:
  "socks_audit e a b i s = (Inr (), s\<lparr>sv_db := logged e a b EntityProxy (Some i) 0 (sv_db s)\<rparr>)"
  by (simp add: socks_audit_def on_db_def audit_best_effort_logged)

lemma get_access_run: "get_access i w = (Inr p, w') \<longleftrightarrow> proxy_get_by_id i w = Some p \<and> w' = w"
  "get_access i w = (Inl err, w') \<longleftrightarrow> proxy_get_by_id i w = None \<and> err = NotFound ''err_proxy_access_not_found'' \<and> w' = w"
  by (auto simp: get_access_def op_iffs split: option.splits)

definition shown_proxy :: "string \<Rightarrow> proxy_access \<Rightarrow> proxy_access" where
  "shown_proxy now a = a\<lparr>pa_last_shown_at := Some now, pa_updated_at := now\<rparr>"

lemma shown_proxy_fields [simp]:
  "keeps_proxy_id (shown_proxy now)" "pa_status (shown_proxy now a) = pa_status a"
  "pa_payload (shown_proxy now a) = pa_payload a" "pa_owner_user_id (shown_proxy now a) = pa_owner_user_id a"
  "pa_access_type (shown_proxy now a) = pa_access_type a" "live_slot (shown_proxy now a) = live_slot a"
  "pa_id (shown_proxy now a) = pa_id a"
  by (simp_all add: shown_proxy_def keeps_proxy_id_def live_slot_def)

lemma proxy_mark_shown_run:
  assumes "proxies_ok w" "proxy_get_by_id i w = Some p"
  shows "proxy_mark_shown i now w = (Inr (), put_proxy i (shown_proxy now) w)"
    "proxies_ok (put_proxy i (shown_proxy now) w)"
proof -
  have "slot_free i (live_slot (shown_proxy now p)) w" using slot_free_same [OF assms] by simp
  moreover have "(\<lambda>a. a\<lparr>pa_last_shown_at := Some now, pa_updated_at := now\<rparr>) = shown_proxy now"
    by (simp add: shown_proxy_def [abs_def])
  ultimately show "proxy_mark_shown i now w = (Inr (), put_proxy i (shown_proxy now) w)" "proxies_ok (put_proxy i (shown_proxy now) w)"
    using update_proxy_row_any [OF assms, of "shown_proxy now"] proxies_ok_put [OF assms, of "shown_proxy now"]
    by (simp_all add: proxy_mark_shown_def op_bind_def op_return_def)
qed

lemma require_approved_gate [simp]: "gate (require_approved_or_admin a)"
  by (rule gateI) (rule require_approved_keeps)

lemma issue_gates [simp]:
  "gate (ensure_can_issue a b)" "gate (get_access i)" "gate (socks_ensure_enabled st)"
  by (auto simp: ensure_can_issue_def get_access_def socks_ensure_enabled_def intro!: gate_bindI split: option.split)

definition status_at :: "int \<Rightarrow> world \<Rightarrow> proxy_access_status option" where
  "status_at j w = map_option pa_status (proxy_get_by_id j w)"

lemma status_at_put [simp]:
  "status_at j (put_proxy i (status_proxy st now err reason) w)
    = (if j = i then map_option (\<lambda>_. st) (status_at i w) else status_at j w)"
  "status_at j (put_proxy i (shown_proxy now) w) = status_at j w"
  "status_at j (put_proxy i (active_proxy now p q g) w) = (if j = i then map_option (\<lambda>_. ProxyActive) (status_at i w) else status_at j w)"
  by (cases "j = i"; simp add: status_at_def put_proxy_get option.map_comp comp_def)+

definition login_at :: "int \<Rightarrow> world \<Rightarrow> json option" where
  "login_at j w = map_option (\<lambda>a. json_get (pa_payload a) ''login'') (proxy_get_by_id j w)"

lemma login_at_put [simp]:
  "login_at j (put_proxy i (status_proxy st now err reason) w) = login_at j w"
  "login_at j (put_proxy i (shown_proxy now) w) = login_at j w"
  "login_at j (logged e a b c d n w) = login_at j w"
  by (cases "j = i"; simp add: login_at_def put_proxy_get option.map_comp comp_def)+

lemma status_at_logged [simp]: "status_at j (logged e a b c d n w) = status_at j w"
  by (simp add: status_at_def)

text \<open>What the services read of a row: its type, its status and the login in its payload.\<close>

definition access_view :: "world \<Rightarrow> int \<Rightarrow> (proxy_access_type \<times> proxy_access_status \<times> json) option" where
  "access_view w j = map_option (\<lambda>a. (pa_access_type a, pa_status a, json_get (pa_payload a) ''login'')) (proxy_get_by_id j w)"

lemma access_view_same: "db_proxy_accesses w' = db_proxy_accesses w \<Longrightarrow> access_view w' = access_view w"
  by (simp add: access_view_def [abs_def] proxy_get_by_id_def)

lemma access_view_logged [simp]: "access_view (logged e a b c d n w) = access_view w"
  by (rule ext) (simp add: access_view_def)

lemma access_view_here: "proxy_get_by_id i w = Some a
    \<Longrightarrow> (access_view w)(i \<mapsto> (pa_access_type a, pa_status a, json_get (pa_payload a) ''login'')) = access_view w"
  by (auto simp: access_view_def)

lemma access_view_put:
  assumes "keeps_proxy_id f" "proxy_get_by_id i w = Some a"
  shows "access_view (put_proxy i f w) = (access_view w)(i \<mapsto> (pa_access_type (f a), pa_status (f a), json_get (pa_payload (f a)) ''login''))"
  using assms by (auto simp: access_view_def put_proxy_get fun_eq_iff option.map_comp comp_def)

section \<open>A new row\<close>

definition add_proxy :: "proxy_access \<Rightarrow> world \<Rightarrow> world" where
  "add_proxy p w = w\<lparr>db_proxy_accesses := db_proxy_accesses w @ [p], db_proxy_access_seq := pa_id p\<rparr>"

lemma new_proxy_fields [simp]:
  "pa_id (new_proxy_row d now i) = i" "pa_status (new_proxy_row d now i) = pd_status d"
  "pa_owner_user_id (new_proxy_row d now i) = pd_owner_user_id d" "pa_access_type (new_proxy_row d now i) = pd_access_type d"
  "pa_payload (new_proxy_row d now i) = pd_payload d"
  by (simp_all add: new_proxy_row_def)

lemma fresh_proxy_id: "proxies_ok w \<Longrightarrow> proxy_get_by_id (db_proxy_access_seq w + 1) w = None"
  by (fastforce simp: proxies_ok_def proxy_get_by_id_def find_None_iff list_all_iff)

lemma proxy_create_run:
  assumes "proxies_ok w" "proxy_create d now w = (r, w')"
  shows "(\<exists>p. r = Inr p \<and> p = new_proxy_row d now (db_proxy_access_seq w + 1) \<and> w' = add_proxy p w \<and> proxies_ok w')
    \<or> ((\<exists>err. r = Inl err) \<and> w' = w)"
proof -
  let ?p = "new_proxy_row d now (db_proxy_access_seq w + 1)"
  have "find (has_proxy_id (db_proxy_access_seq w + 1)) (db_proxy_accesses w @ [?p]) = Some ?p"
    using fresh_proxy_id [OF assms(1)] by (simp add: find_append proxy_get_by_id_def)
  moreover have "proxies_ok (add_proxy ?p w)" if "proxies_unique (db_proxy_accesses w @ [?p])"
    using that assms(1) by (force simp: proxies_ok_def add_proxy_def list_all_iff)
  ultimately show ?thesis
    using assms(2) by (auto simp: proxy_create_def write_proxies_def op_simps Let_def proxy_get_by_id_def add_proxy_def
        split: if_splits)
qed

lemma add_proxy_get:
  assumes "proxies_ok w"
  shows "proxy_get_by_id j (add_proxy (new_proxy_row d now (db_proxy_access_seq w + 1)) w)
    = (if j = db_proxy_access_seq w + 1 then Some (new_proxy_row d now j) else proxy_get_by_id j w)"
  using fresh_proxy_id [OF assms] by (cases "proxy_get_by_id j w") (auto simp: proxy_get_by_id_def add_proxy_def find_append)


section \<open>Who can log in\<close>

context dante_host
begin

lemma allowed_after_lock:
  assumes "lock_if_exists t login d = (Inr x, d')" "login \<noteq> []"
  shows "allowed users d' = allowed users d - {login}"
proof -
  from assms have run: "lock_user t login d = (Inr x, d') \<or> lock_user t login d = (Inl DanteUserNotFoundError, d')"
    by (auto simp: lock_if_exists_def op_iffs split: if_splits)
  then have out: "\<not> may_login (users d' login)" using lock_user_ok lock_user_missing by blast
  have "users d' other = users d other" if "other \<noteq> login" for other
    using run others_untouched(2) [OF that] by blast
  then show "allowed users d' = allowed users d - {login}" using allowed_step out by metis
qed

lemma lock_user_allowed: "lock_user t login d = (Inr x, d') \<Longrightarrow> login \<notin> allowed users d'"
  using lock_user_ok by (simp add: allowed_def)

lemma allowed_after_delete:
  assumes "delete_user t login d = (Inr x, d')"
  shows "allowed users d' = allowed users d - {login}"
proof -
  have out: "\<not> may_login (users d' login)" using delete_user_ok [OF assms] by (simp add: may_login_def)
  have "users d' other = users d other" if "other \<noteq> login" for other
    using others_untouched(3) [OF that assms] .
  then show "allowed users d' = allowed users d - {login}" using allowed_step out by metis
qed

lemma allowed_after_create:
  assumes "create_user t login p d = (Inr x, d')"
  shows "allowed users d' = insert login (allowed users d)"
    "users d' login = Some \<lparr>lu_password = Some p, lu_locked = False\<rparr>"
proof -
  show new: "users d' login = Some \<lparr>lu_password = Some p, lu_locked = False\<rparr>" using create_user_ok [OF assms] by simp
  have "users d' other = users d other" if "other \<noteq> login" for other
    using others_untouched(1) [OF that assms] .
  then show "allowed users d' = insert login (allowed users d)"
    using allowed_step [of login users d' d] new by (simp add: may_login_def)
qed

end

section \<open>Revocation and deletion\<close>

text \<open>A status written over a row, when the index lets it be; the error column apart, twice is once.\<close>

lemma restored_slot:
  assumes "proxies_ok w" "proxy_get_by_id i w = Some a"
    "put_proxy i (status_proxy ProxyPendingRevoke now err reason) w = w'" "slot_free i (Some (pa_owner_user_id a, pa_access_type a)) w"
  shows "slot_free i (live_slot (status_proxy st now err' reason' (status_proxy ProxyPendingRevoke now err reason a))) w'"
  using assms(4) by (auto simp: assms(3) [symmetric] slot_free_def put_proxy_def live_slot_def list_all_iff set_update_where
      keeps_proxy_id_def status_proxy_def)

lemma revoke_access_unfold:
  assumes "proxies_ok (sv_db s)" "proxy_get_by_id i (sv_db s) = Some a" "pa_access_type a = SOCKS5"
    "pa_status a \<notin> set finished_statuses" "\<not> sv_uninstalled s" "sv_degraded s = None"
  shows "revoke_socks5_access e lib t actor i reason s =
    (if \<not> slot_free i (Some (pa_owner_user_id a, SOCKS5)) (sv_db s) then (Inl (IntegrityError ''proxy_accesses''), s)
     else op_bind
       (op_try (on_dante (lock_if_exists t (payload_login lib a))) (\<lambda>exc.
          op_bind (on_db (proxy_set_status i (pa_status a) (ev_now e) (Some (error_text exc)) reason None)) (\<lambda>_.
          op_bind (socks_audit e (Some actor) ''socks5_proxy_revoke_failed'' i) (\<lambda>_.
          op_raise exc)))) (\<lambda>_.
       op_bind (on_db (proxy_mark_revoked i actor (ev_now e) reason)) (\<lambda>_.
       op_bind (socks_audit e (Some actor) ''socks5_proxy_revoked'' i) (\<lambda>_.
       on_db (get_access i))))
       (s\<lparr>sv_db := put_proxy i (status_proxy ProxyPendingRevoke (ev_now e) None reason) (sv_db s)\<rparr>))"
proof -
  have get: "op_bind (on_db (get_access i)) f s = f a s" for f :: "proxy_access \<Rightarrow> ('a, 'b) service_op"
    using bind_on_db [of "get_access i" s a "sv_db s" f] assms(2) by (simp add: get_access_run)
  have gate: "op_bind require_mutation_allowed f s = f () s" for f :: "unit \<Rightarrow> ('a, 'b) service_op"
    using assms(5,6) by (simp add: bind_ok [of _ _ "()" s] mutation_allowed_run)
  let ?pending = "status_proxy ProxyPendingRevoke (ev_now e) None reason"
  show ?thesis
  proof (cases "slot_free i (Some (pa_owner_user_id a, SOCKS5)) (sv_db s)")
    case True
    then have "proxy_set_status i ProxyPendingRevoke (ev_now e) None reason None (sv_db s) = (Inr (), put_proxy i ?pending (sv_db s))"
      using proxy_set_status_run [OF assms(1,2)] assms(3) by (simp add: live_slot_def live_proxy_statuses_def)
    from bind_on_db [where m = "proxy_set_status i ProxyPendingRevoke (ev_now e) None reason None" and s = s, OF this] True assms(3,4) show ?thesis
      by (simp add: revoke_socks5_access_def get gate bind_guard)
  next
    case False
    then have "proxy_set_status i ProxyPendingRevoke (ev_now e) None reason None (sv_db s) = (Inl (IntegrityError ''proxy_accesses''), sv_db s)"
      using proxy_set_status_run [OF assms(1,2)] assms(3) by (simp add: live_slot_def live_proxy_statuses_def)
    from bind_on_db_failed [where m = "proxy_set_status i ProxyPendingRevoke (ev_now e) None reason None" and s = s, OF this] False assms(3,4) show ?thesis
      by (simp add: revoke_socks5_access_def get gate bind_guard)
  qed
qed

context dante_host
begin

lemma revoke_access_run:
  assumes ok: "proxies_ok (sv_db s)" "proxy_get_by_id i (sv_db s) = Some a" "pa_access_type a = SOCKS5"
      "pa_status a \<notin> set finished_statuses"
    and free: "slot_free i (Some (pa_owner_user_id a, SOCKS5)) (sv_db s)"
    and allowed_now: "\<not> sv_uninstalled s" "sv_degraded s = None"
    and run: "revoke_socks5_access e lib t actor i reason s = (r, s')"
  shows "(\<exists>p. r = Inr p \<and> pa_status p = ProxyRevoked \<and> proxy_get_by_id i (sv_db s') = Some p
        \<and> access_view (sv_db s') = (access_view (sv_db s))(i \<mapsto> (SOCKS5, ProxyRevoked, json_get (pa_payload a) ''login''))
        \<and> (payload_login lib a \<noteq> [] \<longrightarrow> allowed users (sv_host s') = allowed users (sv_host s) - {payload_login lib a}))
    \<or> (\<exists>err p. r = Inl err \<and> proxy_get_by_id i (sv_db s') = Some p \<and> pa_status p = pa_status a)"
    (is "?revoked \<or> ?kept")
proof -
  let ?login = "payload_login lib a"
  let ?w = "put_proxy i (status_proxy ProxyPendingRevoke (ev_now e) None reason) (sv_db s)"
  let ?pending = "status_proxy ProxyPendingRevoke (ev_now e) None reason a"
  have row: "proxy_get_by_id i ?w = Some ?pending" by (simp add: put_proxy_get ok(2))
  have slot: "live_slot ?pending = Some (pa_owner_user_id a, SOCKS5)"
    using ok(3) by (simp add: live_slot_def live_proxy_statuses_def)
  then have ok_w: "proxies_ok ?w" using proxies_ok_put [OF ok(1,2)] free by simp
  obtain q d where lock: "lock_if_exists t ?login (sv_host s) = (q, d)" by force
  show ?thesis
  proof (cases q)
    case (Inr x)
    have "allowed users d = allowed users (sv_host s) - {?login}" if "?login \<noteq> []"
      using allowed_after_lock [OF lock [unfolded Inr] that] .
    moreover have "on_dante (lock_if_exists t ?login) (s\<lparr>sv_db := ?w\<rparr>) = (Inr x, s\<lparr>sv_db := ?w, sv_host := d\<rparr>)"
      using lock Inr by (simp add: on_dante_def)
    ultimately show ?thesis
      using run proxy_mark_revoked_run [OF ok_w row] row free
      by (simp add: revoke_access_unfold [OF ok allowed_now] op_bind_def op_try_def on_db_def socks_audit_run)
        (auto simp: get_access_def op_simps put_proxy_get access_view_put [OF _ row] access_view_put [OF _ ok(2)] ok(3))
  next
    case (Inl exc)
    let ?restored = "status_proxy (pa_status a) (ev_now e) (Some (dante_error_text exc)) reason"
    have "slot_free i (live_slot (?restored ?pending)) ?w"
      using restored_slot [OF ok(1,2) refl, where reason = reason and now = "ev_now e"] free ok(3) by simp
    then have "proxy_set_status i (pa_status a) (ev_now e) (Some (dante_error_text exc)) reason None ?w = (Inr (), put_proxy i ?restored ?w)"
      using proxy_set_status_run [OF ok_w row] by simp
    moreover have "on_dante (lock_if_exists t ?login) (s\<lparr>sv_db := ?w\<rparr>)
        = (Inl (BackendFailure (dante_error_text exc)), s\<lparr>sv_db := ?w, sv_host := d\<rparr>)"
      using lock Inl by (simp add: on_dante_def)
    ultimately show ?thesis
      using run free row
      by (simp add: revoke_access_unfold [OF ok allowed_now] op_bind_def op_try_def on_db_def socks_audit_run error_text_def
          op_raise_def) (auto simp: put_proxy_get)
  qed
qed

end

section \<open>Issue\<close>

text \<open>The row of a new access.\<close>

definition fresh_access :: "socks_settings \<Rightarrow> socks_inputs \<Rightarrow> int \<Rightarrow> string \<Rightarrow> payload \<Rightarrow> proxy_access \<Rightarrow> bool" where
  "fresh_access st si owner login p a \<longleftrightarrow> pa_status a = ProxyPendingApply \<and> pa_owner_user_id a = owner
     \<and> pa_access_type a = SOCKS5 \<and> json_get p ''login'' = JStr login \<and> pa_payload a = p \<and> json_get p ''password'' = JStr (si_password si)"

text \<open>What an issue that raises may leave of the access it inserted.\<close>

definition unusable :: "('d \<Rightarrow> string \<Rightarrow> linux_user option) \<Rightarrow> int \<Rightarrow> string \<Rightarrow> 'd service_state \<Rightarrow> bool" where
  "unusable users i login s' \<longleftrightarrow> login_at i (sv_db s') = Some (JStr login)
     \<and> (status_at i (sv_db s') = Some ProxyApplyFailed
        \<or> status_at i (sv_db s') = Some ProxyPendingApply \<and> (login \<notin> allowed users (sv_host s') \<or> sv_degraded s' \<noteq> None))"

context dante_host
begin

lemma try_logins_run:
  "try_logins t gen is s = (r, s') \<Longrightarrow> \<exists>d. s' = s\<lparr>sv_host := d\<rparr> \<and> users d = users (sv_host s)
    \<and> (\<forall>login. r = Inr login \<longrightarrow> find_by_socks5_login login (sv_db s) = None)"
proof (induction "is" arbitrary: s)
  case Nil
  then show ?case by (auto simp: op_raise_def intro: exI [of _ "sv_host s"])
next
  case (Cons i "is")
  obtain q d where probe: "user_exists t (gen i) (sv_host s) = (q, d)" by force
  note same = others_exists [OF probe]
  have step: "on_dante (user_exists t (gen i)) s =
      (case q of Inl x \<Rightarrow> Inl (BackendFailure (dante_error_text x)) | Inr x \<Rightarrow> Inr x, s\<lparr>sv_host := d\<rparr>)"
    by (simp add: on_dante_def probe)
  show ?case
  proof (cases "find_by_socks5_login (gen i) (sv_db s)")
    case None
    show ?thesis
    proof (cases q)
      case (Inl x)
      with Cons.prems None show ?thesis
        using same by (auto simp: op_bind_def on_db_def op_get_def step)
    next
      case (Inr taken)
      show ?thesis
      proof (cases taken)
        case True
        with Cons.prems None Inr have "try_logins t gen is (s\<lparr>sv_host := d\<rparr>) = (r, s')"
          by (simp add: op_bind_def on_db_def op_get_def step)
        from Cons.IH [OF this] same show ?thesis by auto
      next
        case False
        with Cons.prems None Inr same show ?thesis by (auto simp: op_bind_def on_db_def op_get_def step op_return_def)
      qed
    qed
  next
    case (Some p)
    with Cons.prems have "try_logins t gen is s = (r, s')" by (simp add: op_bind_def on_db_def op_get_def)
    from Cons.IH [OF this] show ?thesis .
  qed
qed

lemma unique_login_run:
  "unique_login st t si owner s = (r, s') \<Longrightarrow> \<exists>d. s' = s\<lparr>sv_host := d\<rparr> \<and> users d = users (sv_host s)
    \<and> (\<forall>login. r = Inr login \<longrightarrow> find_by_socks5_login login (sv_db s) = None)"
  unfolding unique_login_def Let_def
  by (auto simp: op_raise_def split: if_splits intro: exI [of _ "sv_host s"] dest: try_logins_run)

lemma insert_access_run:
  assumes "proxies_ok (sv_db s)" "insert_access e st t si actor profile s = (r, s')"
  obtains (refused) err d where "r = Inl err" "s' = s\<lparr>sv_host := d\<rparr>" "users d = users (sv_host s)"
  | (inserted) login p q a d where "r = Inr (login, p, q, a)" "pa_id a = db_proxy_access_seq (sv_db s) + 1"
      "fresh_access st si (pr_telegram_user_id profile) login p a" "s' = s\<lparr>sv_db := add_proxy a (sv_db s), sv_host := d\<rparr>"
      "users d = users (sv_host s)" "proxies_ok (sv_db s')" "proxy_get_by_id (pa_id a) (sv_db s') = Some a"
      "\<And>j. j \<noteq> pa_id a \<Longrightarrow> proxy_get_by_id j (sv_db s') = proxy_get_by_id j (sv_db s)"
      "find_by_socks5_login login (sv_db s) = None"
proof -
  obtain q1 s1 where login: "unique_login st t si (pr_telegram_user_id profile) s = (q1, s1)" by force
  from unique_login_run [OF this] obtain d where s1: "s1 = s\<lparr>sv_host := d\<rparr>" "users d = users (sv_host s)"
    and free: "\<And>l. q1 = Inr l \<Longrightarrow> find_by_socks5_login l (sv_db s) = None" by auto
  show thesis
  proof (cases q1)
    case (Inl err)
    with assms(2) login s1 refused show thesis by (auto simp: insert_access_def op_bind_def)
  next
    case (Inr l)
    show thesis
    proof (cases "socks_port st")
      case (Inl err)
      with assms(2) login s1 \<open>q1 = Inr l\<close> refused show thesis by (auto simp: insert_access_def op_bind_def pure_sum_def)
    next
      case (Inr port)
      let ?p = "socks_payload st port l (si_password si)"
      define draft where "draft = \<lparr>pd_owner_user_id = pr_telegram_user_id profile, pd_username = pr_username profile,
        pd_access_type = SOCKS5, pd_status = ProxyPendingApply, pd_payload = ?p,
        pd_public_payload = socks_public_payload st port l, pd_created_by = actor, pd_secret_fingerprint = None\<rparr>"
      obtain c w where create: "proxy_create draft (ev_now e) (sv_db s) = (c, w)" by force
      have fresh: "fresh_access st si (pr_telegram_user_id profile) l ?p (new_proxy_row draft (ev_now e) i)" for i
        by (simp add: fresh_access_def draft_def socks_payload_def json_get_def)
      have r: "(r, s') = (case c of Inl err \<Rightarrow> Inl err
          | Inr a \<Rightarrow> Inr (l, ?p, socks_public_payload st port l, a), s\<lparr>sv_db := w, sv_host := d\<rparr>)"
        using assms(2) login s1 Inr \<open>q1 = Inr l\<close> create
        by (cases c) (auto simp: insert_access_def op_bind_def pure_sum_def on_db_def draft_def op_return_def Let_def)
      show thesis
        using proxy_create_run [OF assms(1) create]
      proof (elim disjE exE conjE)
        fix a assume a: "c = Inr a" "a = new_proxy_row draft (ev_now e) (db_proxy_access_seq (sv_db s) + 1)"
          "w = add_proxy a (sv_db s)" "proxies_ok w"
        show thesis
          by (rule inserted [of l ?p "socks_public_payload st port l" a d])
            (use r a s1 fresh free [OF \<open>q1 = Inr l\<close>] in \<open>auto simp: add_proxy_get [OF assms(1)]\<close>)
      next
        fix err assume "w = sv_db s" "c = Inl err"
        with r s1 refused show thesis by auto
      qed
    qed
  qed
qed

end

context dante_host
begin

lemma provision_user_run:
  assumes ok: "proxies_ok (sv_db s)" "proxy_get_by_id i (sv_db s) = Some a"
    and run: "provision_user e t si actor owner i login s = (r, s')"
  shows "(r = Inr () \<and> (\<exists>d. s' = s\<lparr>sv_host := d\<rparr> \<and> users d login = Some \<lparr>lu_password = Some (si_password si), lu_locked = False\<rparr>
        \<and> allowed users d = insert login (allowed users (sv_host s))))
    \<or> (\<exists>exc err. r = Inl err \<and> sv_db s' = logged e (Some actor) ''socks5_proxy_apply_failed'' EntityProxy (Some i) 0
          (put_proxy i (status_proxy ProxyApplyFailed (ev_now e) (Some (redact_secret (error_text exc) (si_password si))) None) (sv_db s))
        \<and> (err \<noteq> InvalidOperation ''SOCKS5 apply failed'' \<longrightarrow>
           err = exc \<and> redact_secret (error_text exc) (si_password si) = error_text exc))"
proof -
  define body where "body = op_bind (on_db (ensure_can_issue actor owner)) (\<lambda>_. on_dante (create_user t login (si_password si)))"
  obtain q s1 where b: "body s = (q, s1)" by force
  then have s1: "\<exists>d. s1 = s\<lparr>sv_host := d\<rparr>"
    unfolding body_def by (rule through_gate [OF _ gate_on_db [OF issue_gates(1)]])
      (auto simp: on_dante_def split: prod.splits intro: exI [of _ "sv_host s"])
  show ?thesis
  proof (cases q)
    case (Inr x)
    from b have "on_dante (create_user t login (si_password si)) s = (Inr x, s1)"
      unfolding body_def Inr by (rule gate_bind [OF _ gate_on_db [OF issue_gates(1)]]) auto
    with allowed_after_create have "\<exists>d. s1 = s\<lparr>sv_host := d\<rparr> \<and> users d login = Some \<lparr>lu_password = Some (si_password si), lu_locked = False\<rparr>
        \<and> allowed users d = insert login (allowed users (sv_host s))" by (fastforce simp: on_dante_Inr)
    with run b Inr show ?thesis by (simp add: provision_user_def body_def op_try_def)
  next
    case (Inl exc)
    from s1 obtain d where d: "s1 = s\<lparr>sv_host := d\<rparr>" by blast
    have "proxy_set_status i ProxyApplyFailed (ev_now e) (Some m) None None (sv_db s1)
        = (Inr (), put_proxy i (status_proxy ProxyApplyFailed (ev_now e) (Some m) None) (sv_db s))" for m
      using proxy_set_status_run [OF ok] by (simp add: d live_slot_def live_proxy_statuses_def)
    note failed = this
    have "provision_user e t si actor owner i login s = (let error = redact_secret (error_text exc) (si_password si) in
          op_bind (on_db (proxy_set_status i ProxyApplyFailed (ev_now e) (Some error) None None)) (\<lambda>_.
          op_bind (socks_audit e (Some actor) ''socks5_proxy_apply_failed'' i) (\<lambda>_.
          if error \<noteq> error_text exc then op_raise (InvalidOperation ''SOCKS5 apply failed'') else op_raise exc))) s1"
      using b Inl by (simp add: provision_user_def body_def op_try_def)
    with run failed d show ?thesis
      by (intro disjI2 exI [of _ exc] exI [of _ "projl r"])
        (auto simp: op_bind_def on_db_def socks_audit_run op_raise_def Let_def split: if_splits)
  qed
qed

lemma disable_run:
  assumes "disable_after_failure e t actor i login s = (r, s')" "\<not> sv_uninstalled s"
  shows "(r = Inr True \<and> (\<exists>d. s' = s\<lparr>sv_host := d\<rparr> \<and> login \<notin> allowed users d))
    \<or> (r = Inr False \<and> sv_degraded s' \<noteq> None \<and> sv_db s' = logged e (Some actor) ''socks5_create_compensation_failed'' EntityProxy (Some i) 0 (sv_db s))"
proof -
  obtain q d where del: "delete_user t login (sv_host s) = (q, d)" by force
  obtain q' d' where lock: "lock_user t login d = (q', d')" by force
  show ?thesis
    using assms del lock lock_user_allowed [of login d _ d'] allowed_after_delete [of login "sv_host s" _ d]
    by (cases q; cases q') (auto simp: disable_after_failure_def op_bind_def op_attempt_def on_dante_def op_return_def
        mark_degraded_def op_modify_def socks_audit_run)
qed

lemma activate_access_run:
  assumes ok: "proxies_ok (sv_db s)" "proxy_get_by_id i (sv_db s) = Some a" "pa_status a = ProxyPendingApply" "\<not> sv_uninstalled s"
    and run: "activate_access e t si actor i login p q s = (r, s')"
  shows "(r = Inr () \<and> s' = s\<lparr>sv_db := put_proxy i (active_proxy (ev_now e) (Some p) (Some q) None) (sv_db s)\<rparr>)
    \<or> ((\<exists>err. r = Inl err)
        \<and> (\<forall>j. status_at j (sv_db s') = status_at j (sv_db s) \<or> j = i \<and> status_at j (sv_db s') = Some ProxyApplyFailed)
        \<and> login_at i (sv_db s') = login_at i (sv_db s)
        \<and> \<not> (login \<in> allowed users (sv_host s') \<and> sv_degraded s' = None))"
proof (cases "si_activates si")
  case True
  have "slot_free i (live_slot (active_proxy (ev_now e) (Some p) (Some q) None a)) (sv_db s)"
    using slot_free_same [OF ok(1,2)] ok(3) by (simp add: live_slot_def live_proxy_statuses_def)
  with proxy_mark_active_run [OF ok(1,2), of "ev_now e" "Some p" "Some q" None] ok(3) run True show ?thesis
    by (simp add: activate_access_def op_try_def if_commits_def on_db_def)
next
  case False
  obtain q1 s1 where dis: "disable_after_failure e t actor i login s = (q1, s1)" by force
  let ?failed = "put_proxy i (status_proxy ProxyApplyFailed (ev_now e) (Some ''user was disabled'') None) (sv_db s)"
  have "proxy_set_status i ProxyApplyFailed (ev_now e) (Some ''user was disabled'') None None (sv_db s) = (Inr (), ?failed)"
    using proxy_set_status_run [OF ok(1,2)] by (simp add: live_slot_def live_proxy_statuses_def)
  with disable_run [OF dis ok(4)] run False dis show ?thesis
    by (auto simp: activate_access_def compensate_failed_issue_def op_try_def op_bind_def if_commits_def on_db_def op_raise_def
        op_return_def socks_audit_run status_at_def [of i "sv_db s"] ok(2) split: if_splits)
qed

end

section \<open>The outcome of an issue\<close>

context dante_host
begin

lemma get_active_access:
  assumes "active_access owner w = Some a"
  shows "a \<in> set (db_proxy_accesses w)" "pa_status a = ProxyActive" "pa_owner_user_id a = owner"
proof -
  let ?P = "\<lambda>p. pa_owner_user_id p = owner \<and> pa_access_type p = SOCKS5 \<and> pa_status p \<in> set [ProxyActive]"
  obtain ps where "sort_key pa_id (filter ?P (db_proxy_accesses w)) = a # ps"
    using assms unfolding active_access_def find_user_access_by_type_statuses_def by (auto split: list.splits)
  then have "a \<in> set (sort_key pa_id (filter ?P (db_proxy_accesses w)))" by (metis list.set_intros(1))
  then show "a \<in> set (db_proxy_accesses w)" "pa_status a = ProxyActive" "pa_owner_user_id a = owner" by simp_all
qed

lemma show_access_run:
  assumes "proxies_ok (sv_db s)" "proxy_get_by_id (pa_id a) (sv_db s) = Some a"
  shows "show_existing e actor a s
    = (Inr (shown_proxy (ev_now e) a), s\<lparr>sv_db := logged e (Some actor) ''socks5_proxy_shown'' EntityProxy (Some (pa_id a)) 0
        (put_proxy (pa_id a) (shown_proxy (ev_now e)) (sv_db s))\<rparr>)"
proof -
  have "get_access (pa_id a) (logged e b c d f n (put_proxy (pa_id a) (shown_proxy (ev_now e)) (sv_db s)))
      = (Inr (shown_proxy (ev_now e) a), logged e b c d f n (put_proxy (pa_id a) (shown_proxy (ev_now e)) (sv_db s)))"
    for b c d f n by (simp add: get_access_run put_proxy_get assms(2))
  then show ?thesis
    using proxy_mark_shown_run [OF assms] by (simp add: show_existing_def socks_mark_shown_def op_bind_def on_db_def socks_audit_run)
qed

end

text \<open>An access that was issued, and what an issue that raises may leave.\<close>

definition provisioned :: "('d \<Rightarrow> string \<Rightarrow> linux_user option) \<Rightarrow> socks_inputs \<Rightarrow> string \<Rightarrow> 'd \<Rightarrow> proxy_access \<Rightarrow> 'd \<Rightarrow> bool" where
  "provisioned users si login d b d' \<longleftrightarrow> json_get (pa_payload b) ''login'' = JStr login
     \<and> json_get (pa_payload b) ''password'' = JStr (si_password si)
     \<and> users d' login = Some \<lparr>lu_password = Some (si_password si), lu_locked = False\<rparr>
     \<and> allowed users d' = insert login (allowed users d)"

definition granted :: "('d \<Rightarrow> string \<Rightarrow> linux_user option) \<Rightarrow> socks_inputs \<Rightarrow> 'd service_state \<Rightarrow> proxy_access \<Rightarrow> 'd service_state \<Rightarrow> bool" where
  "granted users si s b s' \<longleftrightarrow> proxy_get_by_id (pa_id b) (sv_db s) = None
     \<and> (\<exists>login. find_by_socks5_login login (sv_db s) = None \<and> provisioned users si login (sv_host s) b (sv_host s')
        \<and> access_view (sv_db s') = (access_view (sv_db s))(pa_id b \<mapsto> (SOCKS5, ProxyActive, JStr login)))"

definition issued :: "('d \<Rightarrow> string \<Rightarrow> linux_user option) \<Rightarrow> socks_inputs \<Rightarrow> int \<Rightarrow> 'd service_state \<Rightarrow> proxy_access \<Rightarrow> 'd service_state \<Rightarrow> bool" where
  "issued users si owner s b s' \<longleftrightarrow> pa_status b = ProxyActive \<and> pa_owner_user_id b = owner
     \<and> proxy_get_by_id (pa_id b) (sv_db s') = Some b
     \<and> (if status_at (pa_id b) (sv_db s) = Some ProxyActive
        then sv_host s' = sv_host s \<and> access_view (sv_db s') = access_view (sv_db s) else granted users si s b s')"

definition issue_left :: "('d \<Rightarrow> string \<Rightarrow> linux_user option) \<Rightarrow> 'd service_state \<Rightarrow> 'd service_state \<Rightarrow> bool" where
  "issue_left users s s' \<longleftrightarrow> sv_db s' = sv_db s \<and> users (sv_host s') = users (sv_host s)
     \<or> (\<exists>i login. status_at i (sv_db s) = None \<and> unusable users i login s'
          \<and> (\<forall>j. j \<noteq> i \<longrightarrow> status_at j (sv_db s') = status_at j (sv_db s)))"

definition issue_outcome ::
  "('d \<Rightarrow> string \<Rightarrow> linux_user option) \<Rightarrow> socks_inputs \<Rightarrow> int \<Rightarrow> 'd service_state \<Rightarrow> service_error + proxy_access \<Rightarrow> 'd service_state \<Rightarrow> bool" where
  "issue_outcome users si owner s r s' = (case r of Inl err \<Rightarrow> issue_left users s s' | Inr b \<Rightarrow> issued users si owner s b s')"

context dante_host
begin

text \<open>The end of a successful issue: the access is logged, read again and marked as shown.\<close>

lemma finish_access_run:
  assumes ok: "proxies_ok (sv_db s)" "proxy_get_by_id i (sv_db s) = Some b" "pa_id b = i"
  shows "op_bind (socks_audit e (Some actor) ''socks5_proxy_created'' i) (\<lambda>_.
      op_bind (on_db (get_access i)) (\<lambda>active.
      op_bind (socks_mark_shown e active actor) (\<lambda>_. on_db (get_access i)))) s
    = (Inr (shown_proxy (ev_now e) b), s\<lparr>sv_db := logged e (Some actor) ''socks5_proxy_shown'' EntityProxy (Some i) 0
        (put_proxy i (shown_proxy (ev_now e)) (logged e (Some actor) ''socks5_proxy_created'' EntityProxy (Some i) 0 (sv_db s)))\<rparr>)"
proof -
  let ?s = "s\<lparr>sv_db := logged e (Some actor) ''socks5_proxy_created'' EntityProxy (Some i) 0 (sv_db s)\<rparr>"
  have "get_access i (sv_db ?s) = (Inr b, sv_db ?s)" by (simp add: get_access_run ok(2))
  then have "op_bind (socks_audit e (Some actor) ''socks5_proxy_created'' i) (\<lambda>_.
      op_bind (on_db (get_access i)) (\<lambda>active.
      op_bind (socks_mark_shown e active actor) (\<lambda>_. on_db (get_access i)))) s = show_existing e actor b ?s"
    by (simp add: show_existing_def ok(3) op_bind_def socks_audit_run on_db_def)
  also have "\<dots> = (Inr (shown_proxy (ev_now e) b), ?s\<lparr>sv_db := logged e (Some actor) ''socks5_proxy_shown'' EntityProxy (Some i) 0
      (put_proxy i (shown_proxy (ev_now e)) (sv_db ?s))\<rparr>)"
    using show_access_run [of ?s b e actor] ok by simp
  finally show ?thesis by simp
qed

text \<open>From the inserted row on: the steps that may undo it.\<close>

lemma provision_access_run:
  assumes ok: "proxies_ok (sv_db s)" "proxy_get_by_id i (sv_db s) = Some a" "pa_id a = i" "\<not> sv_uninstalled s"
    and a: "fresh_access st si owner login p a"
    and run: "provision_access e t si actor owner i login p q s = (r, s')"
  shows "(\<exists>b. r = Inr b \<and> pa_status b = ProxyActive \<and> pa_owner_user_id b = owner \<and> pa_id b = i
        \<and> proxy_get_by_id i (sv_db s') = Some b \<and> provisioned users si login (sv_host s) b (sv_host s')
        \<and> access_view (sv_db s') = (access_view (sv_db s))(i \<mapsto> (SOCKS5, ProxyActive, JStr login)))
    \<or> (\<exists>err. r = Inl err \<and> unusable users i login s' \<and> (\<forall>j. j \<noteq> i \<longrightarrow> status_at j (sv_db s') = status_at j (sv_db s)))"
    (is "?issued \<or> ?left")
proof -
  have here: "status_at i (sv_db s) = Some ProxyPendingApply" "login_at i (sv_db s) = Some (JStr login)"
    using ok(2) a by (simp_all add: status_at_def login_at_def fresh_access_def)
  obtain q1 s1 where provision: "provision_user e t si actor owner i login s = (q1, s1)" by force
  from provision_user_run [OF ok(1,2) this] show ?thesis
  proof (elim disjE conjE exE)
    fix exc err
    assume "q1 = Inl err" and db: "sv_db s1 = logged e (Some actor) ''socks5_proxy_apply_failed'' EntityProxy (Some i) 0
      (put_proxy i (status_proxy ProxyApplyFailed (ev_now e) (Some (redact_secret (error_text exc) (si_password si))) None) (sv_db s))"
    with run provision have "r = Inl err" "s' = s1" by (simp_all add: provision_access_def op_bind_def)
    with here show ?thesis by (auto simp: db unusable_def)
  next
    fix d
    assume created: "q1 = Inr ()" "s1 = s\<lparr>sv_host := d\<rparr>" "allowed users d = insert login (allowed users (sv_host s))"
      "users d login = Some \<lparr>lu_password = Some (si_password si), lu_locked = False\<rparr>"
    obtain q2 s2 where activate: "activate_access e t si actor i login p q s1 = (q2, s2)" by force
    have s1: "proxies_ok (sv_db s1)" "proxy_get_by_id i (sv_db s1) = Some a" "pa_status a = ProxyPendingApply" "\<not> sv_uninstalled s1"
      using ok a by (simp_all add: created(2) fresh_access_def)
    from activate_access_run [OF s1 activate] show ?thesis
    proof (elim disjE conjE exE)
      assume act: "q2 = Inr ()" "s2 = s1\<lparr>sv_db := put_proxy i (active_proxy (ev_now e) (Some p) (Some q) None) (sv_db s1)\<rparr>"
      let ?b = "active_proxy (ev_now e) (Some p) (Some q) None a"
      have b: "pa_id ?b = i" "pa_payload ?b = p" "pa_owner_user_id ?b = owner" "pa_access_type ?b = SOCKS5"
        using ok(3) a by (simp_all add: active_proxy_def fresh_access_def)
      have row: "proxy_get_by_id i (sv_db s2) = Some ?b" by (simp add: act(2) put_proxy_get s1(2))
      have "slot_free i (live_slot ?b) (sv_db s1)"
        using slot_free_same [OF s1(1,2)] s1(3) by (simp add: live_slot_def live_proxy_statuses_def)
      then have ok2: "proxies_ok (sv_db s2)" using proxies_ok_put [OF s1(1,2)] by (simp add: act(2))
      have "access_view (sv_db s2) = (access_view (sv_db s))(i \<mapsto> (SOCKS5, ProxyActive, JStr login))"
        using s1(2) a b by (simp add: act(2) access_view_put created(2) fresh_access_def)
      moreover have "(r, s') = (Inr (shown_proxy (ev_now e) ?b), s2\<lparr>sv_db := logged e (Some actor) ''socks5_proxy_shown'' EntityProxy (Some i) 0
          (put_proxy i (shown_proxy (ev_now e)) (logged e (Some actor) ''socks5_proxy_created'' EntityProxy (Some i) 0 (sv_db s2)))\<rparr>)"
        unfolding run [symmetric] provision_access_def finish_access_run [OF ok2 row b(1), symmetric]
        by (subst bind_ok [where x = "()"], rule provision [unfolded created(1)], subst bind_ok [where x = "()"],
            rule activate [unfolded act(1)]) (rule refl)
      ultimately have ?issued
        using created act(2) b row a by (auto simp: put_proxy_get access_view_put provisioned_def fresh_access_def)
      then show ?thesis ..
    next
      fix err
      assume "q2 = Inl err"
      with run provision created(1) activate have "r = Inl err" "s' = s2" by (simp_all add: provision_access_def op_bind_def)
      moreover assume st: "\<forall>j. status_at j (sv_db s2) = status_at j (sv_db s1) \<or> j = i \<and> status_at j (sv_db s2) = Some ProxyApplyFailed"
        and "login_at i (sv_db s2) = login_at i (sv_db s1)" "\<not> (login \<in> allowed users (sv_host s2) \<and> sv_degraded s2 = None)"
      ultimately show ?thesis using here st [THEN spec, of i] by (auto simp: unusable_def created(2))
    qed
  qed
qed

end

context dante_host
begin

lemma issue_new_run:
  assumes ok: "proxies_ok (sv_db s)" and run: "issue_new_access e st t si actor profile s = (r, s')"
  shows "issue_outcome users si (pr_telegram_user_id profile) s r s'"
  using run unfolding issue_new_access_def
proof (elim through_gates [where Q = "issue_outcome users si (pr_telegram_user_id profile) s"]
    through_gate [where Q = "issue_outcome users si (pr_telegram_user_id profile) s", OF _ gate_on_db [OF issue_gates(1)]])
  fix x
  assume "require_mutation_allowed s = (Inr x, s)"
  then have up: "\<not> sv_uninstalled s" by (simp add: mutation_allowed_run)
  assume tail: "op_bind (insert_access e st t si actor profile) (\<lambda>(login, p, q, access).
      provision_access e t si actor (pr_telegram_user_id profile) (pa_id access) login p q) s = (r, s')"
  obtain q1 s1 where ins: "insert_access e st t si actor profile s = (q1, s1)" by force
  show "issue_outcome users si (pr_telegram_user_id profile) s r s'"
    using ok ins
  proof (cases rule: insert_access_run)
    case (refused err d)
    with tail ins show ?thesis by (auto simp: op_bind_def issue_outcome_def issue_left_def)
  next
    case (inserted login p q a d)
    then have "provision_access e t si actor (pr_telegram_user_id profile) (pa_id a) login p q s1 = (r, s')"
      using tail ins by (simp add: op_bind_def)
    note provision_access_run [OF inserted(6,7) refl _ inserted(3) this]
    moreover have fresh: "proxy_get_by_id (pa_id a) (sv_db s) = None" "\<not> sv_uninstalled s1"
      using fresh_proxy_id [OF ok] inserted(2,4) up by simp_all
    moreover have "\<And>j. j \<noteq> pa_id a \<Longrightarrow> status_at j (sv_db s1) = status_at j (sv_db s)" using inserted(8) by (simp add: status_at_def)
    moreover have "allowed users (sv_host s1) = allowed users (sv_host s)" using inserted(4,5) by (simp add: allowed_def)
    moreover have "(access_view (sv_db s1))(pa_id a \<mapsto> x) = (access_view (sv_db s))(pa_id a \<mapsto> x)" for x
      using inserted(8) by (auto simp: access_view_def)
    ultimately show ?thesis using inserted(9)
      by (auto simp: issue_outcome_def issue_left_def issued_def granted_def provisioned_def status_at_def intro!: exI [of _ "pa_id a"])
  qed
qed (simp_all add: issue_outcome_def issue_left_def)

lemma issue_run:
  assumes ok: "proxies_ok (sv_db s)" and run: "issue_socks5_proxy e st t si actor profile s = (r, s')"
  shows "issue_outcome users si (pr_telegram_user_id profile) s r s'"
  using run unfolding issue_socks5_proxy_def
proof (elim through_gate [where Q = "issue_outcome users si (pr_telegram_user_id profile) s", OF _ issue_gates(3)]
    through_gates [where Q = "issue_outcome users si (pr_telegram_user_id profile) s"]
    through_gate [where Q = "issue_outcome users si (pr_telegram_user_id profile) s", OF _ gate_db(5)]
    through_gate [where Q = "issue_outcome users si (pr_telegram_user_id profile) s", OF _ gate_on_db [OF issue_gates(1)]])
  fix found
  assume found: "on_db (op_get (active_access (pr_telegram_user_id profile))) s = (Inr found, s)"
    and rest: "(case found of None \<Rightarrow> issue_new_access e st t si actor profile | Some a \<Rightarrow> show_existing e actor a) s = (r, s')"
  show "issue_outcome users si (pr_telegram_user_id profile) s r s'"
  proof (cases found)
    case None
    then show ?thesis using rest issue_new_run [OF ok] by simp
  next
    case (Some a)
    then have "active_access (pr_telegram_user_id profile) (sv_db s) = Some a"
      using found by (simp add: on_db_def op_get_def)
    note a = get_active_access [OF this]
    have row: "proxy_get_by_id (pa_id a) (sv_db s) = Some a" by (rule proxy_get_unique [OF ok a(1)])
    then show ?thesis
      using rest Some a show_access_run [OF ok row, of e actor]
      by (auto simp: put_proxy_get status_at_def issue_outcome_def issued_def access_view_put [OF _ row] access_view_here [OF row, unfolded Some a(2)])
  qed
qed (simp_all add: issue_outcome_def issue_left_def)

end

end
