(* ===== verification/Linux_Users.thy ===== *)
theory Linux_Users
  imports Dante_Users "HOL-Library.AList"
begin

text \<open>
  A Linux host for the contract \<open>dante_host\<close>: its accounts as an association list, the commands the
  adapter runs without the helper, and the programs of a list that fail without touching anything,
  with an exception that quotes their standard input. It meets the contract whatever programs fail.
\<close>

type_synonym linux_host = "(string \<times> linux_user) list"

text \<open>A line \<open>login:password\<close> as \<open>chpasswd\<close> reads it.\<close>

definition chpasswd_line :: "string \<Rightarrow> string \<times> string" where
  "chpasswd_line line = (takeWhile (\<lambda>c. c \<noteq> CHR '':'') line, takeWhile (\<lambda>c. c \<noteq> newline_char) (tl (dropWhile (\<lambda>c. c \<noteq> CHR '':'') line)))"

definition linux_command :: "string list \<Rightarrow> string option \<Rightarrow> linux_host \<Rightarrow> int \<times> linux_host" where
  "linux_command argv stdin d = (let program = hd argv; login = last argv; present = map_of d login in
     if program = ''getent'' then (if present = None then 2 else 0, d)
     else if program = ''useradd'' then
       if present = None then (0, AList.update login \<lparr>lu_password = None, lu_locked = True\<rparr> d) else (9, d)
     else if program = ''chpasswd'' then
       (case chpasswd_line (case stdin of None \<Rightarrow> [] | Some line \<Rightarrow> line) of (l, p) \<Rightarrow>
          if map_of d l = None then (1, d) else (0, AList.update l \<lparr>lu_password = Some p, lu_locked = False\<rparr> d))
     else if program = ''passwd'' then
       (case present of None \<Rightarrow> (1, d) | Some u \<Rightarrow> (0, AList.update login (u\<lparr>lu_locked := True\<rparr>) d))
     else if program = ''userdel'' then if present = None then (6, d) else (0, AList.delete login d)
     else (127, d))"

definition linux_tool :: "string list \<Rightarrow> linux_host dante_tool" where
  "linux_tool failing = \<lparr>dt_run = (\<lambda>argv stdin d. if hd argv \<in> set failing then (Inl (''failed '' @ (case stdin of None \<Rightarrow> [] | Some line \<Rightarrow> line)), d)
       else case linux_command argv stdin d of (rc, d') \<Rightarrow> (Inr rc, d')),
     dt_helper = None, dt_login_prefix = ''s5_'', dt_user_shell = ''/usr/sbin/nologin''\<rparr>"

lemma login_pattern_no_colon: "login_pattern login \<Longrightarrow> CHR '':'' \<notin> set login"
proof -
  have colon: "code_point CHR '':'' = 58" by code_simp
  assume "login_pattern login"
  then show ?thesis
    by (cases login) (auto simp: login_pattern_def Let_def ascii_letter_def ascii_digit_def list_all_iff colon)
qed

lemma chpasswd_line_reads:
  assumes "login_pattern login" "safe_password p"
  shows "chpasswd_line (login @ CHR '':'' # p @ [newline_char]) = (login, p)"
proof -
  have "takeWhile (\<lambda>c. c \<noteq> CHR '':'') (login @ CHR '':'' # r) = login" "dropWhile (\<lambda>c. c \<noteq> CHR '':'') (login @ CHR '':'' # r) = CHR '':'' # r" for r
    using login_pattern_no_colon [OF assms(1)] by (auto simp: takeWhile_append dropWhile_append3 takeWhile_append2 dropWhile_append2)
  moreover have "takeWhile (\<lambda>c. c \<noteq> newline_char) (p @ [newline_char]) = p"
    using assms(2) by (subst takeWhile_append2) (auto simp: safe_password_def)
  ultimately show ?thesis by (simp add: chpasswd_line_def)
qed

lemmas linux_run = run_dante_def linux_tool_def dante_argv_def dante_stdin_def linux_command_def Let_def

interpretation linux: dante_host "linux_tool failing" map_of for failing
proof
  fix login p d d' r c other
  assume pattern: "login_pattern login"
  show "run_dante (linux_tool failing) login CmdExists d = (r, d') \<Longrightarrow> map_of d' = map_of d"
    "run_dante (linux_tool failing) login CmdExists d = (Inr 0, d') \<Longrightarrow> map_of d login \<noteq> None"
    "run_dante (linux_tool failing) login CmdExists d = (Inr 2, d') \<Longrightarrow> map_of d login = None"
    "run_dante (linux_tool failing) login CmdCreate d = (Inr 0, d') \<Longrightarrow> map_of d' login = Some \<lparr>lu_password = None, lu_locked = True\<rparr>"
    "run_dante (linux_tool failing) login CmdLock d = (Inr 0, d') \<Longrightarrow> \<exists>u. map_of d' login = Some u \<and> lu_locked u"
    "run_dante (linux_tool failing) login CmdDelete d = (Inr 0, d') \<Longrightarrow> map_of d' login = None"
    by (auto simp: linux_run update_conv' delete_conv' split: if_splits option.splits)
  show "map_of d' login = Some \<lparr>lu_password = Some p, lu_locked = False\<rparr>"
    if "safe_password p" "run_dante (linux_tool failing) login (CmdSetPassword p) d = (Inr 0, d')"
    using that chpasswd_line_reads [OF pattern that(1)] by (auto simp: linux_run update_conv' split: if_splits option.splits)
  show "map_of d' other = map_of d other"
    if "safe_command c" "run_dante (linux_tool failing) login c d = (r, d')" "other \<noteq> login"
    using that chpasswd_line_reads [OF pattern] by (cases c) (auto simp: linux_run update_conv' delete_conv' safe_command_def
        split: if_splits option.splits)
qed

end
