(* ===== verification/Socks5_Outcomes.thy ===== *)
theory Socks5_Outcomes
  imports Socks5_Access Linux_Users
begin

text \<open>
  The SOCKS5 service as a whole: the invariant of its table under every operation, a Linux host
  whose commands meet the contract \<open>dante_host\<close>, and the register of who holds a SOCKS5 access,
  which the operations refine.
\<close>

section \<open>The table stays well formed\<close>

definition socks_payload_typed :: "payload \<Rightarrow> bool" where
  "socks_payload_typed p \<longleftrightarrow> (case json_get p ''login'' of JStr l \<Rightarrow> l \<noteq> [] | _ \<Rightarrow> False)
     \<and> (case json_get p ''password'' of JStr _ \<Rightarrow> True | _ \<Rightarrow> False) \<and> (case json_get p ''port'' of JInt _ \<Rightarrow> True | _ \<Rightarrow> False)"

definition socks_row_typed :: "proxy_access \<Rightarrow> bool" where
  "socks_row_typed a \<longleftrightarrow> pa_access_type a \<noteq> SOCKS5 \<or> socks_payload_typed (pa_payload a)"

definition proxy_table_ok :: "world \<Rightarrow> bool" where
  "proxy_table_ok w \<longleftrightarrow> proxies_ok w \<and> list_all socks_row_typed (db_proxy_accesses w)"

lemma proxy_table_ok_same:
  "db_proxy_accesses w' = db_proxy_accesses w \<Longrightarrow> db_proxy_access_seq w' = db_proxy_access_seq w \<Longrightarrow> proxy_table_ok w' = proxy_table_ok w"
  by (simp add: proxy_table_ok_def proxies_ok_def)

lemma table_ok_logged [simp]: "proxy_table_ok (logged e a b c d n w) = proxy_table_ok w"
  by (rule proxy_table_ok_same) (simp_all add: logged_def audit_best_effort_run)

lemma keeps_update:
  assumes "keeps_proxy_id f" "\<And>a. socks_row_typed a \<Longrightarrow> socks_row_typed (f a)"
  shows "op_keeps proxy_table_ok (update_proxies P f)"
proof (rule op_keepsI)
  fix w assume "proxy_table_ok w"
  with assms show "proxy_table_ok (snd (update_proxies P f w))"
    by (auto simp: update_proxies_run proxy_table_ok_def proxies_ok_def list_all_iff set_update_where keeps_proxy_id_def)
qed

lemma typed_rows [simp]:
  "socks_row_typed (status_proxy st now err reason a) = socks_row_typed a"
  "socks_row_typed (revoked_proxy actor now reason a) = socks_row_typed a"
  "socks_row_typed (deleted_proxy actor now reason a) = socks_row_typed a"
  "socks_row_typed (a\<lparr>pa_last_shown_at := x, pa_updated_at := y\<rparr>) = socks_row_typed a"
  by (simp_all add: socks_row_typed_def status_proxy_def revoked_proxy_def deleted_proxy_def)

lemma typed_active [simp]: "socks_payload_typed p \<Longrightarrow> socks_row_typed (active_proxy now (Some p) q g a)"
  by (simp add: socks_row_typed_def active_proxy_def)

lemma keeps_proxy_writes [simp]:
  "op_keeps proxy_table_ok (proxy_set_status i st now err reason sts)"
  "op_keeps proxy_table_ok (proxy_mark_shown i now)"
  "op_keeps proxy_table_ok (proxy_mark_revoked i actor now reason)"
  "op_keeps proxy_table_ok (proxy_mark_deleted i actor now reason)"
  unfolding proxy_set_status_def proxy_mark_shown_def proxy_mark_revoked_def proxy_mark_deleted_def
  by (auto intro!: op_keeps_bind keeps_update simp: keeps_proxy_id_def status_proxy_def revoked_proxy_def deleted_proxy_def
      socks_row_typed_def split: option.split list.split)

lemma keeps_mark_active [simp]:
  "socks_payload_typed p \<Longrightarrow> op_keeps proxy_table_ok (proxy_mark_active i now (Some p) q g)"
  unfolding proxy_mark_active_def by (intro op_keeps_transaction op_keeps_bind keeps_update) (simp_all add: op_keeps_get op_keeps_guard op_keeps_return)

lemma keeps_create [simp]:
  assumes "socks_payload_typed (pd_payload d)"
  shows "op_keeps proxy_table_ok (proxy_create d now)"
proof (rule op_keepsI)
  fix w assume w: "proxy_table_ok w"
  obtain r w' where run: "proxy_create d now w = (r, w')" by force
  from w have "proxies_ok w" by (simp add: proxy_table_ok_def)
  from proxy_create_run [OF this run] w assms show "proxy_table_ok (snd (proxy_create d now w))"
    by (auto simp: run proxy_table_ok_def add_proxy_def socks_row_typed_def)
qed

text \<open>Lifted to the service.\<close>

abbreviation service_table_ok :: "'d service_state \<Rightarrow> bool" where
  "service_table_ok s \<equiv> proxy_table_ok (sv_db s)"

lemma keeps_on_db [simp]: "op_keeps I m \<Longrightarrow> op_keeps (\<lambda>s. I (sv_db s)) (on_db m)"
  by (simp add: op_keeps_def on_db_def split_beta)

lemma op_keeps_snd: "op_keeps I m \<Longrightarrow> I s \<Longrightarrow> I (snd (m s))"
  by (simp add: op_keeps_def)

lemma keeps_gate: "gate m \<Longrightarrow> op_keeps I m"
  by (simp add: gate_def op_keeps_def)

lemma keeps_on_dante [simp]: "op_keeps (\<lambda>s. I (sv_db s)) (on_dante m)"
  by (simp add: op_keeps_def on_dante_def split_beta)

lemma keeps_socks_audit [simp]: "op_keeps service_table_ok (socks_audit e actor action i)"
  by (simp add: op_keeps_def socks_audit_run)

lemma keeps_attempt [simp]: "op_keeps I m \<Longrightarrow> op_keeps I (op_attempt m)"
  by (simp add: op_keeps_def op_attempt_def split_beta)

lemma keeps_degraded [simp]: "op_keeps service_table_ok (mark_degraded reason)"
  by (simp add: op_keeps_def mark_degraded_def op_modify_def)

lemma keeps_if_commits [simp]: "op_keeps I m \<Longrightarrow> op_keeps I (if_commits b m)"
  by (simp add: if_commits_def)

lemma keeps_query:
  assumes "\<And>s. I s \<Longrightarrow> op_keeps I (g (f (sv_db s)))"
  shows "op_keeps I (op_bind (on_db (op_get f)) g)"
  using assms by (simp add: op_keeps_def op_bind_def on_db_def op_get_def)

lemma keeps_result:
  assumes "op_keeps I m" "\<And>s x s'. m s = (Inr x, s') \<Longrightarrow> op_keeps I (f x)"
  shows "op_keeps I (op_bind m f)"
  using assms by (fastforce simp: op_keeps_def op_bind_def split: prod.splits sum.splits)

lemmas keeps_issue_gates [simp] = issue_gates [THEN keeps_gate] gate_mutation_allowed [THEN keeps_gate]

lemma keeps_try_logins [simp]: "op_keeps service_table_ok (try_logins t gen is)"
  by (induction "is") (auto intro!: op_keeps_bind split: option.split)

lemma keeps_unique_login [simp]: "op_keeps service_table_ok (unique_login st t si owner)"
  by (simp add: unique_login_def Let_def)

lemma unique_login_value:
  assumes "unique_login st t si owner s = (Inr login, s')"
  shows "login \<noteq> []"
proof -
  have gen: "try_logins t gen is s = (Inr login, s') \<Longrightarrow> login \<in> range gen" for gen "is"
    by (induction "is" arbitrary: s) (auto simp: op_iffs split: if_splits option.splits)
  from assms show ?thesis by (auto simp: unique_login_def Let_def op_iffs split: if_splits dest!: gen)
qed

lemma keeps_insert [simp]: "op_keeps service_table_ok (insert_access e st t si actor profile)"
  unfolding insert_access_def Let_def
proof (rule keeps_result [OF keeps_unique_login])
  fix s login s'
  assume "unique_login st t si (pr_telegram_user_id profile) s = (Inr login, s')"
  then have "socks_payload_typed (socks_payload st port login (si_password si))" for port
    using unique_login_value by (simp add: socks_payload_typed_def socks_payload_def json_get_def)
  then show "op_keeps service_table_ok (op_bind (pure_sum (socks_port st)) (\<lambda>port. op_bind (on_db (proxy_create
      \<lparr>pd_owner_user_id = pr_telegram_user_id profile, pd_username = pr_username profile, pd_access_type = SOCKS5,
        pd_status = ProxyPendingApply, pd_payload = socks_payload st port login (si_password si),
        pd_public_payload = socks_public_payload st port login, pd_created_by = actor, pd_secret_fingerprint = None\<rparr> (ev_now e)))
      (\<lambda>access. op_return (login, socks_payload st port login (si_password si), socks_public_payload st port login, access))))"
    by (intro op_keeps_bind op_keeps_return keeps_on_db keeps_create) (simp_all add: keeps_gate)
qed

lemma insert_access_payload:
  "insert_access e st t si actor profile s = (Inr (login, p, q, access), s') \<Longrightarrow> socks_payload_typed p"
  by (auto simp: insert_access_def Let_def op_iffs pure_sum_def socks_payload_typed_def socks_payload_def json_get_def
      dest: unique_login_value)

lemma keeps_shown [simp]: "op_keeps service_table_ok (socks_mark_shown e a actor)"
  "op_keeps service_table_ok (show_existing e actor a)"
  by (auto simp: socks_mark_shown_def show_existing_def intro!: op_keeps_bind)

lemma keeps_provision [simp]:
  "op_keeps service_table_ok (provision_user e t si actor owner i login)"
  "socks_payload_typed p \<Longrightarrow> op_keeps service_table_ok (activate_access e t si actor i login p q)"
  by (auto simp: provision_user_def activate_access_def compensate_failed_issue_def disable_after_failure_def Let_def
      intro!: op_keeps_bind op_keeps_try split: sum.split)

lemma keeps_issue [simp]: "op_keeps service_table_ok (issue_socks5_proxy e st t si actor profile)"
  by (auto simp: issue_socks5_proxy_def issue_new_access_def provision_access_def intro!: op_keeps_bind keeps_result [OF keeps_insert]
      keeps_provision keeps_gate [OF gate_on_db] split: option.split dest: insert_access_payload)

lemma keeps_revoke [simp]: "op_keeps service_table_ok (revoke_socks5_access e lib t actor i reason)"
  by (auto simp: revoke_socks5_access_def intro!: op_keeps_bind op_keeps_try)

lemma keeps_superadmin [simp]: "op_keeps I (on_db (require_superadmin a))"
  by (rule keeps_gate [OF gate_on_db [OF gateI]]) (rule require_superadmin_keeps)

lemma keeps_delete [simp]: "op_keeps service_table_ok (delete_socks5_proxy e lib t actor i reason)"
  by (auto simp: delete_socks5_proxy_def intro!: op_keeps_bind op_keeps_try)

lemma keeps_config [simp]: "op_keeps service_table_ok (get_socks5_proxy_config e actor)"
  by (auto simp: get_socks5_proxy_config_def intro!: op_keeps_bind keeps_gate [OF gate_on_db] split: option.split)

lemma keeps_startup_access:
  assumes "socks_payload_typed (pa_payload a)"
  shows "op_keeps service_table_ok (startup_reconcile_access e lib t a)"
  using assms by (auto simp: startup_reconcile_access_def Let_def intro!: op_keeps_bind)

lemma keeps_reconcile:
  "list_all (\<lambda>a. socks_payload_typed (pa_payload a)) as \<Longrightarrow>
    op_keeps service_table_ok (reconcile_accesses (startup_reconcile_access e lib t) as c)"
  by (induction as c rule: reconcile_accesses.induct [of "\<lambda>_ as c. P as c" for P, case_names Nil Cons])
    (auto intro!: op_keeps_bind keeps_attempt keeps_startup_access)

lemma listed_typed:
  assumes "proxy_table_ok w"
  shows "list_all (\<lambda>a. socks_payload_typed (pa_payload a)) (proxy_list_by_type_statuses SOCKS5 sts limit after_id w)"
  using assms by (auto simp: proxy_list_by_type_statuses_def proxy_table_ok_def list_all_iff socks_row_typed_def dest!: in_set_takeD)

lemma keeps_pages [simp]: "op_keeps service_table_ok (socks_pages fuel e lib t last_id c)"
proof (induction fuel arbitrary: last_id c)
  case (Suc fuel)
  then show ?case
    by (auto intro!: keeps_query op_keeps_bind keeps_reconcile listed_typed)
qed simp

section \<open>The pass over the pages ends\<close>

definition rows_are :: "int list \<Rightarrow> world \<Rightarrow> bool" where
  "rows_are ids w \<longleftrightarrow> map pa_id (db_proxy_accesses w) = ids"

lemma rows_update:
  assumes "\<And>a. pa_id (f a) = pa_id a"
  shows "op_keeps (rows_are ids) (update_proxies P f)"
proof -
  have "map pa_id (update_where P f as) = map pa_id as" for as
    using assms by (simp add: update_where_def)
  then show ?thesis
    by (auto simp: rows_are_def op_keeps_def update_proxies_def write_proxies_def op_simps split: prod.splits sum.splits)
qed

lemma rows_marked [simp]:
  "op_keeps (rows_are ids) (proxy_set_status i st now err reason al)" "op_keeps (rows_are ids) (proxy_mark_active i now p q g)"
  "op_keeps (rows_are ids) (proxy_mark_revoked i actor now reason)" "op_keeps (rows_are ids) (proxy_mark_deleted i actor now reason)"
  by (auto simp: proxy_set_status_def proxy_mark_active_def proxy_mark_revoked_def proxy_mark_deleted_def status_proxy_def
      active_proxy_def revoked_proxy_def deleted_proxy_def
      intro!: op_keeps_bind op_keeps_transaction rows_update split: option.split list.split)

lemma rows_audit [simp]: "op_keeps (\<lambda>s. rows_are ids (sv_db s)) (socks_audit e actor action i)"
  by (simp add: op_keeps_def rows_are_def socks_audit_run logged_def audit_best_effort_run)

lemma rows_startup [simp]: "op_keeps (\<lambda>s. rows_are ids (sv_db s)) (startup_reconcile_access e lib t a)"
  by (auto simp: startup_reconcile_access_def Let_def intro!: op_keeps_bind)

lemma rows_reconcile [simp]: "op_keeps (\<lambda>s. rows_are ids (sv_db s)) (reconcile_accesses (startup_reconcile_access e lib t) as c)"
  by (induction as c rule: reconcile_accesses.induct [of "\<lambda>_ as c. P as c" for P, case_names Nil Cons])
    (auto intro!: op_keeps_bind)

lemma reconcile_returns: fixes c :: pass_counts
  shows "\<exists>c' s'. reconcile_accesses step as c s = (Inr c', s')"
proof (induction as arbitrary: c s)
  case Nil
  then show ?case by (cases c) (simp add: op_return_def)
next
  case (Cons a as)
  obtain checked recovered failed where c: "c = (checked, recovered, failed)" using prod_cases3 by blast
  obtain r s1 where "step a s = (r, s1)" by force
  with Cons.IH show ?case by (simp add: c op_bind_def op_attempt_def)
qed

definition proxies_beyond :: "int \<Rightarrow> int list \<Rightarrow> nat" where
  "proxies_beyond last_id ids = length (filter (\<lambda>i. last_id < i) ids)"

lemma socks_pages_end:
  assumes "proxies_beyond last_id (map pa_id (db_proxy_accesses (sv_db s))) < fuel"
  shows "\<exists>c' s'. socks_pages fuel e lib t last_id c s = (Inr (Some c'), s')"
  using assms
proof (induction fuel arbitrary: last_id c s)
  case 0
  then show ?case by simp
next
  case (Suc fuel)
  let ?ids = "map pa_id (db_proxy_accesses (sv_db s))"
  let ?batch = "proxy_list_by_type_statuses SOCKS5 socks_startup_statuses 500 last_id (sv_db s)"
  show ?case
  proof (cases "?batch = []")
    case True
    then show ?thesis by (cases c) (simp add: op_bind_def on_db_def op_get_def op_return_def)
  next
    case False
    obtain c1 s1 where batch: "reconcile_accesses (startup_reconcile_access e lib t) ?batch c s = (Inr c1, s1)"
      using reconcile_returns by blast
    have ids: "map pa_id (db_proxy_accesses (sv_db s1)) = ?ids"
      using op_keepsD [OF rows_reconcile [of ?ids] batch] by (simp add: rows_are_def)
    let ?last = "pa_id (last ?batch)"
    have "last ?batch \<in> set (db_proxy_accesses (sv_db s)) \<and> last_id < ?last"
      using last_in_set [OF False] by (auto simp: proxy_list_by_type_statuses_def dest!: in_set_takeD)
    then have last: "?last \<in> set ?ids" "last_id < ?last" by auto
    have "filter (\<lambda>i. ?last < i) ?ids = filter (\<lambda>i. ?last < i) (filter (\<lambda>i. last_id < i) ?ids)"
      unfolding filter_filter by (rule filter_cong) (use last(2) in auto)
    also have "length \<dots> < length (filter (\<lambda>i. last_id < i) ?ids)"
      by (rule length_filter_less [of ?last]) (use last in auto)
    finally have "proxies_beyond ?last ?ids < fuel"
      using Suc.prems by (simp add: proxies_beyond_def)
    with Suc.IH [of ?last s1 c1] ids batch False show ?thesis
      by (auto simp: op_bind_def on_db_def op_get_def)
  qed
qed

section \<open>Successful revocations and deletions\<close>

lemma deleted_payload [simp]: "pa_payload (deleted_proxy actor now reason a) = pa_payload a"
  by (simp add: deleted_proxy_def)

context dante_host
begin

lemma delete_access_run:
  assumes ok: "proxies_ok (sv_db s)" and run: "delete_socks5_proxy e lib t actor i reason s = (Inr p, s')"
  obtains (already) "s' = s"
  | (deleted) a where "proxy_get_by_id i (sv_db s) = Some a" "pa_access_type a = SOCKS5" "pa_status a \<noteq> ProxyDeleted"
      "access_view (sv_db s') = (access_view (sv_db s))(i \<mapsto> (SOCKS5, ProxyDeleted, json_get (pa_payload a) ''login''))"
      "allowed users (sv_host s') = allowed users (sv_host s) - {payload_login lib a} \<or> payload_login lib a = [] \<and> sv_host s' = sv_host s"
proof -
  from run obtain a where a: "proxy_get_by_id i (sv_db s) = Some a" "pa_access_type a = SOCKS5"
    by (auto simp: delete_socks5_proxy_def op_bind_Inr op_guard_Inr socks_iffs get_access_run dest!: require_superadmin_keeps)
  show thesis
  proof (cases "pa_status a = ProxyDeleted")
    case True
    with run a have "s' = s"
      by (auto simp: delete_socks5_proxy_def op_bind_Inr op_guard_Inr socks_iffs get_access_run op_return_run dest!: require_superadmin_keeps)
    then show thesis by (rule already)
  next
    case False
    let ?login = "payload_login lib a"
    let ?w = "put_proxy i (status_proxy ProxyPendingDelete (ev_now e) None reason) (sv_db s)"
    have row: "proxy_get_by_id i ?w = Some (status_proxy ProxyPendingDelete (ev_now e) None reason a)" by (simp add: put_proxy_get a)
    have slot: "live_slot (status_proxy ProxyPendingDelete (ev_now e) None reason a) = None"
      by (simp add: live_slot_def live_proxy_statuses_def)
    have ok_w: "proxies_ok ?w" by (rule proxies_ok_put [OF ok a(1)]) (simp_all add: slot)
    have "proxy_set_status i ProxyPendingDelete (ev_now e) None reason None (sv_db s) = (Inr (), ?w)"
      using proxy_set_status_run [OF ok a(1)] slot by simp
    with run a False obtain d w2 where body: "if ?login = [] then d = sv_host s else delete_user t ?login (sv_host s) = (Inr (), d)"
      and rest: "proxy_mark_deleted i actor (ev_now e) reason ?w = (Inr (), w2)" "sv_host s' = d"
        "sv_db s' = logged e (Some actor) ''socks5_proxy_deleted'' EntityProxy (Some i) 0 w2"
      by (auto simp: delete_socks5_proxy_def op_bind_Inr op_guard_Inr socks_iffs get_access_run op_return_run op_raise_run op_try_Inr
        socks_audit_run mutation_allowed_run split: if_splits dest!: require_superadmin_keeps)
    from proxy_mark_deleted_run [OF ok_w row] rest(1) have w2: "w2 = put_proxy i (deleted_proxy actor (ev_now e) reason) ?w"
      by simp
    have "allowed users (sv_host s') = allowed users (sv_host s) - {?login} \<or> ?login = [] \<and> sv_host s' = sv_host s"
      using body rest(2) by (auto dest: allowed_after_delete split: if_splits)
    with deleted [OF a False] show thesis
      by (simp add: rest(3) w2 access_view_put [OF _ row] access_view_put [OF _ a(1)] a(2))
  qed
qed

end

context dante_host
begin

lemma revoke_access_ok:
  assumes ok: "proxies_ok (sv_db s)" and run: "revoke_socks5_access e lib t actor i reason s = (Inr p, s')"
  obtains (already) "s' = s"
  | (revoked) a where "proxy_get_by_id i (sv_db s) = Some a" "pa_access_type a = SOCKS5" "pa_status a \<notin> set finished_statuses"
      "access_view (sv_db s') = (access_view (sv_db s))(i \<mapsto> (SOCKS5, ProxyRevoked, json_get (pa_payload a) ''login''))"
      "payload_login lib a \<noteq> [] \<Longrightarrow> allowed users (sv_host s') = allowed users (sv_host s) - {payload_login lib a}"
proof -
  from run obtain a where a: "proxy_get_by_id i (sv_db s) = Some a" "pa_access_type a = SOCKS5"
    by (auto simp: revoke_socks5_access_def op_bind_Inr op_guard_Inr socks_iffs get_access_run)
  show thesis
  proof (cases "pa_status a \<in> set finished_statuses")
    case True
    with run a have "s' = s" by (auto simp: revoke_socks5_access_def op_bind_Inr op_guard_Inr socks_iffs get_access_run op_return_run)
    then show thesis by (rule already)
  next
    case False
    with run a have up: "\<not> sv_uninstalled s" "sv_degraded s = None"
      by (auto simp: revoke_socks5_access_def op_bind_Inr op_guard_Inr socks_iffs get_access_run mutation_allowed_run)
    have free: "slot_free i (Some (pa_owner_user_id a, SOCKS5)) (sv_db s)"
      using run revoke_access_unfold [OF ok a False up, of e lib t actor reason] by (auto split: if_splits)
    from revoke_access_run [OF ok a False free up run] revoked [OF a False] show thesis by blast
  qed
qed

end

section \<open>The register of accesses\<close>

text \<open>
  What an administrator means by the SOCKS5 accesses: which access has which login and status, and
  which logins the host lets in. An operation that succeeds grants a fresh login, withdraws one, or
  leaves the register alone.
\<close>

type_synonym register = "(int \<Rightarrow> (proxy_access_status \<times> string) option) \<times> string set"

inductive register_step :: "register \<Rightarrow> register \<Rightarrow> bool" where
  unchanged: "register_step reg reg"
| grant: "accesses i = None \<Longrightarrow> (\<And>j st. accesses j = Some (st, login) \<Longrightarrow> st \<in> {ProxyDeleted, ProxyInactive}) \<Longrightarrow>
    register_step (accesses, logins) (accesses(i \<mapsto> (ProxyActive, login)), insert login logins)"
| withdraw: "accesses i = Some (st, login) \<Longrightarrow> st \<notin> {ProxyDeleted, st'} \<Longrightarrow> st' \<in> {ProxyRevoked, ProxyDeleted} \<Longrightarrow>
    register_step (accesses, logins) (accesses(i \<mapsto> (st', login)), logins - {login})"

definition register_of :: "('d \<Rightarrow> string \<Rightarrow> linux_user option) \<Rightarrow> 'd service_state \<Rightarrow> register" where
  "register_of users s = (\<lambda>i. case access_view (sv_db s) i of Some (SOCKS5, st, JStr login) \<Rightarrow> Some (st, login) | _ \<Rightarrow> None,
     allowed users (sv_host s))"

text \<open>Every login of an active access is let in and no other one; live accesses share no login.\<close>

definition register_ok :: "register \<Rightarrow> bool" where
  "register_ok reg \<longleftrightarrow> snd reg = {login. \<exists>i. fst reg i = Some (ProxyActive, login)}
     \<and> (\<forall>i j st st' login. fst reg i = Some (st, login) \<and> fst reg j = Some (st', login) \<and> ProxyDeleted \<notin> {st, st'} \<longrightarrow> i = j)
     \<and> (\<forall>i login. fst reg i \<noteq> Some (ProxyInactive, login))"

lemma register_okD:
  assumes "register_ok (accesses, logins)"
  shows "logins = {login. \<exists>i. accesses i = Some (ProxyActive, login)}" "accesses i \<noteq> Some (ProxyInactive, login)"
    "accesses i = Some (st, login) \<Longrightarrow> accesses j = Some (st', login) \<Longrightarrow> st \<noteq> ProxyDeleted \<Longrightarrow> st' \<noteq> ProxyDeleted \<Longrightarrow> i = j"
  using assms unfolding register_ok_def by auto

lemma register_okI:
  assumes "logins = {login. \<exists>i. accesses i = Some (ProxyActive, login)}" "\<And>i login. accesses i \<noteq> Some (ProxyInactive, login)"
    "\<And>i j st st' login. accesses i = Some (st, login) \<Longrightarrow> accesses j = Some (st', login) \<Longrightarrow> st \<noteq> ProxyDeleted
      \<Longrightarrow> st' \<noteq> ProxyDeleted \<Longrightarrow> i = j"
  shows "register_ok (accesses, logins)"
  unfolding register_ok_def fst_conv snd_conv
proof (intro conjI allI impI)
  show "logins = {login. \<exists>i. accesses i = Some (ProxyActive, login)}" by (rule assms(1))
  fix i j st st' login
  assume "accesses i = Some (st, login) \<and> accesses j = Some (st', login) \<and> ProxyDeleted \<notin> {st, st'}"
  with assms(3) [of i st login j st'] show "i = j" by auto
qed (rule assms(2))

lemma register_step_ok: "register_step r r' \<Longrightarrow> register_ok r \<Longrightarrow> register_ok r'"
proof (induction rule: register_step.induct)
  case (grant accesses i login logins)
  note inv = register_okD [OF grant.prems]
  have fresh: "st = ProxyDeleted" if "accesses j = Some (st, login)" for j st
    using grant.hyps(2) [OF that] inv(2) that by auto
  have "insert login logins = {l. \<exists>j. (accesses(i \<mapsto> (ProxyActive, login))) j = Some (ProxyActive, l)}"
    using grant.hyps(1) inv(1) by (auto intro: exI [of _ i]) (metis option.distinct(1))
  then show ?case
    by (rule register_okI) (use inv(2) inv(3) fresh in \<open>auto split: if_splits\<close>)
next
  case (withdraw accesses i st login st' logins)
  note inv = register_okD [OF withdraw.prems]
  have only: "j = i" if "accesses j = Some (ProxyActive, login)" for j
    using inv(3) [OF withdraw.hyps(1) that] withdraw.hyps(2) by simp
  have "logins - {login} = {l. \<exists>j. (accesses(i \<mapsto> (st', login))) j = Some (ProxyActive, l)}"
  proof -
    have "j \<noteq> i" if "accesses j = Some (ProxyActive, l)" "l \<noteq> login" for j l
      using that withdraw.hyps(1) by auto
    then show ?thesis using inv(1) only withdraw.hyps(3) by (auto split: if_splits)
  qed
  then show ?case
    by (rule register_okI) (use withdraw.hyps inv(2) inv(3) in \<open>auto split: if_splits\<close>)
qed

section \<open>The service refines the register\<close>

inductive socks_step :: "'d dante_tool \<Rightarrow> library \<Rightarrow> 'd service_state \<Rightarrow> 'd service_state \<Rightarrow> bool" for t lib where
  issue: "issue_socks5_proxy e st t si actor profile s = (Inr b, s') \<Longrightarrow> socks_step t lib s s'"
| config: "get_socks5_proxy_config e actor s = (Inr b, s') \<Longrightarrow> socks_step t lib s s'"
| revoke: "revoke_socks5_access e lib t actor i reason s = (Inr b, s') \<Longrightarrow> socks_step t lib s s'"
| delete: "delete_socks5_proxy e lib t actor i reason s = (Inr b, s') \<Longrightarrow> socks_step t lib s s'"

inductive socks_run :: "'d dante_tool \<Rightarrow> library \<Rightarrow> 'd service_state \<Rightarrow> 'd service_state \<Rightarrow> bool" for t lib s where
  start: "socks_run t lib s s"
| more: "socks_run t lib s s1 \<Longrightarrow> socks_step t lib s1 s2 \<Longrightarrow> socks_run t lib s s2"

lemma socks_step_table: "socks_step t lib s s' \<Longrightarrow> service_table_ok s \<Longrightarrow> service_table_ok s'"
  by (induction rule: socks_step.induct)
    (blast dest: op_keepsD [OF keeps_issue] op_keepsD [OF keeps_config] op_keepsD [OF keeps_revoke] op_keepsD [OF keeps_delete])+

lemma typed_login:
  assumes "proxy_table_ok w" "proxy_get_by_id i w = Some a" "pa_access_type a = SOCKS5"
  obtains login where "json_get (pa_payload a) ''login'' = JStr login" "payload_login lib a = login" "login \<noteq> []"
proof -
  have "a \<in> set (db_proxy_accesses w)" using proxy_get_Some [OF assms(2)] by simp
  with assms(1,3) have "socks_payload_typed (pa_payload a)" by (auto simp: proxy_table_ok_def list_all_iff socks_row_typed_def)
  then show thesis using that by (auto simp: socks_payload_typed_def payload_login_def py_str_def split: json.splits)
qed

lemma sort_desc_empty: "sort_desc f xs = [] \<longleftrightarrow> xs = []"
  by (metis length_0_conv length_sort_desc)

lemma free_login:
  assumes "find_by_socks5_login login w = None" "access_view w j = Some (SOCKS5, st, JStr login)"
  shows "st \<in> {ProxyDeleted, ProxyInactive}"
proof -
  obtain a where a: "proxy_get_by_id j w = Some a" "pa_access_type a = SOCKS5" "pa_status a = st" "json_get (pa_payload a) ''login'' = JStr login"
    using assms(2) by (auto simp: access_view_def)
  let ?rows = "filter (\<lambda>p. (pa_access_type p = SOCKS5 \<and> json_get (pa_payload p) ''login'' = JStr login)
    \<and> pa_status p \<notin> {ProxyDeleted, ProxyInactive}) (db_proxy_accesses w)"
  have "sort_desc pa_created_at ?rows = []" using assms(1) by (simp add: find_by_socks5_login_def newest_proxy_def split: list.splits)
  then have none: "\<forall>p \<in> set (db_proxy_accesses w). \<not> ((pa_access_type p = SOCKS5 \<and> json_get (pa_payload p) ''login'' = JStr login)
    \<and> pa_status p \<notin> {ProxyDeleted, ProxyInactive})"
    unfolding sort_desc_empty filter_empty_conv .
  show ?thesis using bspec [OF none, of a] proxy_get_Some [OF a(1)] a(2-4) by blast
qed

text \<open>The register after the view of one row is rewritten.\<close>

lemma register_view:
  assumes "access_view (sv_db s') = (access_view (sv_db s))(i \<mapsto> (SOCKS5, st, JStr login))"
  shows "register_of users s' = ((fst (register_of users s))(i \<mapsto> (st, login)), allowed users (sv_host s'))"
  unfolding register_of_def assms by (simp add: fun_eq_iff)

lemma register_entry:
  "fst (register_of users s) i = Some (st, login) \<longleftrightarrow> access_view (sv_db s) i = Some (SOCKS5, st, JStr login)"
  by (auto simp: register_of_def split: option.splits prod.splits proxy_access_type.splits json.splits)

lemma withdrawn_register:
  assumes "proxy_get_by_id i (sv_db s) = Some a" "pa_access_type a = SOCKS5" "json_get (pa_payload a) ''login'' = JStr login"
    "access_view (sv_db s') = (access_view (sv_db s))(i \<mapsto> (SOCKS5, st', JStr login))"
    "pa_status a \<notin> {ProxyDeleted, st'}" "st' \<in> {ProxyRevoked, ProxyDeleted}"
    "allowed users (sv_host s') = allowed users (sv_host s) - {login}"
  shows "register_step (register_of users s) (register_of users s')"
proof -
  have "fst (register_of users s) i = Some (pa_status a, login)" using assms(1-3) by (simp add: register_of_def access_view_def)
  from register_step.withdraw [where accesses = "fst (register_of users s)" and logins = "allowed users (sv_host s)", OF this assms(5,6)] show ?thesis
    unfolding register_view [OF assms(4)] assms(7) by (simp add: register_of_def)
qed

context dante_host
begin

lemma socks_step_refines:
  assumes "socks_step t lib s s'" "service_table_ok s"
  shows "register_step (register_of users s) (register_of users s')"
  using assms
proof (induction rule: socks_step.induct)
  case (issue e st si actor profile s b s')
  then have ok: "proxies_ok (sv_db s)" by (simp add: proxy_table_ok_def)
  from issue_run [OF ok issue.hyps] have "issued users si (pr_telegram_user_id profile) s b s'" by (simp add: issue_outcome_def)
  then show ?case
  proof (cases "status_at (pa_id b) (sv_db s) = Some ProxyActive")
    case True
    then show ?thesis using \<open>issued _ _ _ _ _ _\<close> by (simp add: issued_def register_of_def register_step.unchanged)
  next
    case False
    then obtain login where g: "proxy_get_by_id (pa_id b) (sv_db s) = None" "find_by_socks5_login login (sv_db s) = None"
      "allowed users (sv_host s') = insert login (allowed users (sv_host s))"
      "access_view (sv_db s') = (access_view (sv_db s))(pa_id b \<mapsto> (SOCKS5, ProxyActive, JStr login))"
      using \<open>issued _ _ _ _ _ _\<close> by (auto simp: issued_def granted_def provisioned_def)
    have "fst (register_of users s) (pa_id b) = None" by (simp add: register_of_def access_view_def g(1))
    moreover have "st \<in> {ProxyDeleted, ProxyInactive}" if "fst (register_of users s) j = Some (st, login)" for j st
      using free_login [OF g(2), of j st] that by (simp add: register_entry)
    ultimately have "register_step (fst (register_of users s), allowed users (sv_host s)) (register_of users s')"
      using register_step.grant by (simp add: register_view [OF g(4)] g(3))
    then show ?thesis by (simp add: register_of_def)
  qed
next
  case (config e actor s b s')
  then have ok: "proxies_ok (sv_db s)" by (simp add: proxy_table_ok_def)
  from config.hyps obtain a where a: "active_access actor (sv_db s) = Some a" and "show_existing e actor a s = (Inr b, s')"
    by (auto simp: get_socks5_proxy_config_def op_bind_Inr op_raise_run on_db_Inr op_get_run split: option.splits
        dest!: require_approved_keeps)
  moreover have row: "proxy_get_by_id (pa_id a) (sv_db s) = Some a"
    using proxy_get_unique [OF ok] get_active_access(1) [OF a] by blast
  ultimately have "s' = s\<lparr>sv_db := logged e (Some actor) ''socks5_proxy_shown'' EntityProxy (Some (pa_id a)) 0
      (put_proxy (pa_id a) (shown_proxy (ev_now e)) (sv_db s))\<rparr>"
    using show_access_run [OF ok] by simp
  then have "register_of users s' = register_of users s"
    using access_view_here [OF row] by (simp add: register_of_def access_view_put [OF _ row])
  then show ?case by (simp add: register_step.unchanged)
next
  case (revoke e actor i reason s b s')
  then have ok: "proxies_ok (sv_db s)" by (simp add: proxy_table_ok_def)
  show ?case
    using ok revoke.hyps
  proof (cases rule: revoke_access_ok)
    case already
    then show ?thesis by (simp add: register_step.unchanged)
  next
    case (revoked a)
    obtain login where "json_get (pa_payload a) ''login'' = JStr login" "payload_login lib a = login" "login \<noteq> []"
      using typed_login [OF revoke.prems revoked(1,2)] .
    with revoked show ?thesis
      using withdrawn_register [OF revoked(1,2), of login s' ProxyRevoked] by (auto simp: finished_statuses_def)
  qed
next
  case (delete e actor i reason s b s')
  then have ok: "proxies_ok (sv_db s)" by (simp add: proxy_table_ok_def)
  show ?case
    using ok delete.hyps
  proof (cases rule: delete_access_run)
    case already
    then show ?thesis by (simp add: register_step.unchanged)
  next
    case (deleted a)
    obtain login where "json_get (pa_payload a) ''login'' = JStr login" "payload_login lib a = login" "login \<noteq> []"
      using typed_login [OF delete.prems deleted(1,2)] .
    with deleted show ?thesis
      using withdrawn_register [OF deleted(1,2), of login s' ProxyDeleted] by auto
  qed
qed

end

section \<open>Texts within texts\<close>

lemma startswith_iff: "startswith p s \<longleftrightarrow> (\<exists>v. s = p @ v)"
  by (auto simp: startswith_def) (metis append_take_drop_id)

lemma infix_iff: "infix_of p s \<longleftrightarrow> (\<exists>u v. s = u @ p @ v)"
proof (induction s)
  case (Cons c s)
  show ?case
  proof
    assume "infix_of p (c # s)"
    then show "\<exists>u v. c # s = u @ p @ v"
      unfolding infix_of.simps Cons.IH startswith_iff by (metis append_Cons append_Nil)
  next
    assume "\<exists>u v. c # s = u @ p @ v"
    then obtain u v where "c # s = u @ p @ v" by blast
    then show "infix_of p (c # s)"
      unfolding infix_of.simps Cons.IH startswith_iff by (cases u) auto
  qed
qed auto

lemma infix_take: "infix_of p (take n s) \<Longrightarrow> infix_of p s"
  unfolding infix_iff by (metis append.assoc append_take_drop_id)

section \<open>Properties\<close>

text \<open>
  C21: whatever the host's commands and the database do, an issue ends in one of these ways. It returns
  an active access of the owner: the one there was, with nothing changed on the host, or a new one whose
  login and password, which are those of its payload, are let in and nothing else is. Or it raises, and
  then nothing has changed, or one new access is left that no status calls active, and one still
  called pending has no usable login unless the backend is marked as degraded.
\<close>

theorem socks5_issue_outcome:
  assumes "dante_host t users" "proxies_ok (sv_db s)" "issue_socks5_proxy e st t si actor profile s = (r, s')"
  shows "issue_outcome users si (pr_telegram_user_id profile) s r s'"
  using dante_host.issue_run [OF assms] .

text \<open>
  C22: a revocation that returns leaves the row revoked and its login, if the payload has one, locked out, with no
  other login touched; one that raises leaves the row with the status it had.
\<close>

theorem socks5_revoke_outcome:
  assumes "dante_host t users" "proxies_ok (sv_db s)" "proxy_get_by_id i (sv_db s) = Some a" "pa_access_type a = SOCKS5"
    "pa_status a \<notin> set finished_statuses" "slot_free i (Some (pa_owner_user_id a, SOCKS5)) (sv_db s)"
    "\<not> sv_uninstalled s" "sv_degraded s = None" "revoke_socks5_access e lib t actor i reason s = (r, s')"
  shows "case r of
      Inr p \<Rightarrow> pa_status p = ProxyRevoked \<and> proxy_get_by_id i (sv_db s') = Some p
        \<and> (if payload_login lib a = [] then True
           else allowed users (sv_host s') = allowed users (sv_host s) - {payload_login lib a})
    | Inl err \<Rightarrow> status_at i (sv_db s') = Some (pa_status a)"
  using dante_host.revoke_access_run [OF assms]
proof (elim disjE exE conjE)
  fix p
  assume "r = Inr p" "pa_status p = ProxyRevoked" "proxy_get_by_id i (sv_db s') = Some p"
    and "payload_login lib a \<noteq> [] \<longrightarrow> allowed users (sv_host s') = allowed users (sv_host s) - {payload_login lib a}"
  then show ?thesis by simp
qed (simp add: status_at_def)

text \<open>
  C25: revoking an access whose creation failed, while its owner has another access that is live, raises the
  database's \<open>IntegrityError\<close> before anything is done: the status written first, \<open>pending_revoke\<close>, counts as live.
\<close>

theorem revoke_failed_access_conflict:
  assumes "proxies_ok (sv_db s)" "proxy_get_by_id i (sv_db s) = Some a" "pa_access_type a = SOCKS5" "pa_status a = ProxyApplyFailed"
    "proxy_get_by_id j (sv_db s) = Some b" "j \<noteq> i" "live_slot b = Some (pa_owner_user_id a, SOCKS5)"
    "\<not> sv_uninstalled s" "sv_degraded s = None"
  shows "revoke_socks5_access e lib t actor i reason s = (Inl (IntegrityError ''proxy_accesses''), s)"
proof -
  have "\<not> slot_free i (Some (pa_owner_user_id a, SOCKS5)) (sv_db s)"
    using proxy_get_Some [OF assms(5)] assms(6,7) by (auto simp: slot_free_def list_all_iff)
  then show ?thesis
    using revoke_access_unfold [OF assms(1-3) _ assms(8,9)] assms(4) by (simp add: finished_statuses_def)
qed

text \<open>
  The start-up pass marks an access whose creation failed as active as soon as its Linux user exists, although
  that user may be locked or without a password: who can log in does not change.
\<close>

theorem socks5_startup_activates_unusable:
  assumes "dante_host t users" "proxies_ok (sv_db s)" "proxy_get_by_id (pa_id a) (sv_db s) = Some a" "pa_status a = ProxyApplyFailed"
    "slot_free (pa_id a) (Some (pa_owner_user_id a, pa_access_type a)) (sv_db s)"
    "payload_login lib a \<notin> allowed users (sv_host s)" "user_exists t (payload_login lib a) (sv_host s) = (Inr True, d)"
    "payload_login lib a \<noteq> []"
  shows "\<exists>s'. startup_reconcile_access e lib t a s = (Inr True, s') \<and> status_at (pa_id a) (sv_db s') = Some ProxyActive
    \<and> payload_login lib a \<notin> allowed users (sv_host s')"
proof -
  have same: "users d = users (sv_host s)" using dante_host.user_exists_run(1) [OF assms(1,7)] .
  have "live_slot (active_proxy (ev_now e) (Some (pa_payload a)) (Some (pa_public_payload a)) None a) = Some (pa_owner_user_id a, pa_access_type a)"
    by (simp add: live_slot_def live_proxy_statuses_def)
  with proxy_mark_active_run [OF assms(2,3), of "ev_now e" "Some (pa_payload a)" "Some (pa_public_payload a)" None] assms(4,5)
  have "proxy_mark_active (pa_id a) (ev_now e) (Some (pa_payload a)) (Some (pa_public_payload a)) None (sv_db s)
      = (Inr (), put_proxy (pa_id a) (active_proxy (ev_now e) (Some (pa_payload a)) (Some (pa_public_payload a)) None) (sv_db s))"
    by simp
  with assms show ?thesis
    by (simp add: startup_reconcile_access_def Let_def op_bind_def on_dante_def on_db_def socks_audit_run op_return_def
        status_at_def [of "pa_id a" "sv_db s"] allowed_def same)
qed

text \<open>
  Whatever text an error of the host or the database carries, the generated password is in no
  message of an issue that fails at the Linux user: not in the error stored in the row, nor in the exception.
\<close>

theorem socks5_error_redacted:
  assumes "dante_host t users" "proxies_ok (sv_db s)" "proxy_get_by_id i (sv_db s) = Some a"
    and "provision_user e t si actor owner i login s = (Inl err, s')"
    and "si_password si \<noteq> []" "CHR ''*'' \<notin> set (si_password si)" "\<not> infix_of (si_password si) ''SOCKS5 apply failed''"
  shows "\<not> infix_of (si_password si) (error_text err)
    \<and> (\<exists>b. proxy_get_by_id i (sv_db s') = Some b \<and> pa_status b = ProxyApplyFailed
      \<and> \<not> infix_of (si_password si) (case pa_error b of None \<Rightarrow> [] | Some m \<Rightarrow> m))"
proof (intro conjI)
  note free = redacted_free [OF assms(5,6)]
  from dante_host.provision_user_run [OF assms(1-4)] obtain exc where
    db: "sv_db s' = logged e (Some actor) ''socks5_proxy_apply_failed'' EntityProxy (Some i) 0
        (put_proxy i (status_proxy ProxyApplyFailed (ev_now e) (Some (redact_secret (error_text exc) (si_password si))) None) (sv_db s))"
    and err: "err = InvalidOperation ''SOCKS5 apply failed'' \<or> err = exc \<and> redact_secret (error_text exc) (si_password si) = error_text exc"
    by auto
  show "\<not> infix_of (si_password si) (error_text err)"
    using err
  proof
    assume "err = InvalidOperation ''SOCKS5 apply failed''"
    then show ?thesis using assms(7) by (simp add: error_text_def)
  next
    assume "err = exc \<and> redact_secret (error_text exc) (si_password si) = error_text exc"
    then show ?thesis using free [of "error_text exc"] by metis
  qed
  let ?b = "status_proxy ProxyApplyFailed (ev_now e) (Some (redact_secret (error_text exc) (si_password si))) None a"
  have "proxy_get_by_id i (sv_db s') = Some ?b" by (simp add: db put_proxy_get assms(3))
  moreover have "\<not> infix_of (si_password si) (take 512 (redact_secret (error_text exc) (si_password si)))"
    using free infix_take by blast
  then have "\<not> infix_of (si_password si) (case pa_error ?b of None \<Rightarrow> [] | Some m \<Rightarrow> m)"
    using assms(5) by (simp add: status_proxy_def stored_error_def split: option.split)
  ultimately show "\<exists>b. proxy_get_by_id i (sv_db s') = Some b \<and> pa_status b = ProxyApplyFailed
      \<and> \<not> infix_of (si_password si) (case pa_error b of None \<Rightarrow> [] | Some m \<Rightarrow> m)" by simp
qed

text \<open>
  C23: every row of a SOCKS5 access carries a payload with a login, a password and a port of the right JSON types,
  ids and live places in the table stay unique: no operation breaks this, whatever it returns or raises.
\<close>

theorem socks5_table_typed:
  assumes "proxy_table_ok (sv_db s)"
  shows "proxy_table_ok (sv_db (snd (issue_socks5_proxy e st t si actor profile s)))
    \<and> proxy_table_ok (sv_db (snd (get_socks5_proxy_config e actor s)))
    \<and> proxy_table_ok (sv_db (snd (revoke_socks5_access e lib t actor i reason s)))
    \<and> proxy_table_ok (sv_db (snd (delete_socks5_proxy e lib t actor i reason s)))
    \<and> proxy_table_ok (sv_db (snd (reconcile_socks5_state fuel e lib t s)))"
  unfolding reconcile_socks5_state_def
  by (intro conjI; rule op_keeps_snd [where I = "\<lambda>s. proxy_table_ok (sv_db s)", OF _ assms], simp)


text \<open>
  Over any run of operations that return, the logins the host lets in are exactly the logins of the active
  accesses, and accesses that are not deleted never share one.
\<close>

theorem socks5_logins_are_active:
  assumes "dante_host t users" "socks_run t lib s s'" "proxy_table_ok (sv_db s)" "register_ok (register_of users s)"
  shows "register_ok (register_of users s')
    \<and> allowed users (sv_host s') = {login. \<exists>i. access_view (sv_db s') i = Some (SOCKS5, ProxyActive, JStr login)}"
proof -
  have "proxy_table_ok (sv_db s') \<and> register_ok (register_of users s')"
    using assms(2)
  proof (induction rule: socks_run.induct)
    case start
    then show ?case using assms(3,4) by simp
  next
    case (more s1 s2)
    then show ?case
      using socks_step_table register_step_ok dante_host.socks_step_refines [OF assms(1)] by metis
  qed
  then have *: "register_ok (register_of users s')" by simp
  have "snd (register_of users s') = {login. \<exists>i. fst (register_of users s') i = Some (ProxyActive, login)}"
    using * by (simp add: register_ok_def)
  then have "allowed users (sv_host s') = {login. \<exists>i. fst (register_of users s') i = Some (ProxyActive, login)}"
    by (simp add: register_of_def)
  then have "allowed users (sv_host s') = {login. \<exists>i. access_view (sv_db s') i = Some (SOCKS5, ProxyActive, JStr login)}"
    by (simp add: register_entry)
  with * show ?thesis ..
qed

section \<open>Examples\<close>

definition socks_env :: env where
  "socks_env = \<lparr>ev_admin_ids = [1], ev_now = ''2026'', ev_audit_ok = True, ev_instant = (\<lambda>_. None)\<rparr>"

definition socks_library :: library where
  "socks_library = \<lparr>lb_v6 = (\<lambda>_. False), lb_in6 = (\<lambda>_ _. False), lb_str = (\<lambda>_. []), lb_compress = id\<rparr>"

definition socks_demo_settings :: socks_settings where
  "socks_demo_settings = \<lparr>so_enabled = True, so_host = ''h'', so_port = Some 1080, so_public_name = ''p'', so_note = ''n'',
     so_login_prefix = ''s5_''\<rparr>"

definition socks_demo_inputs :: "bool \<Rightarrow> socks_inputs" where
  "socks_demo_inputs activates = \<lparr>si_suffix = (\<lambda>i n. ''ab''), si_password = ''secret'', si_activates = activates, si_marks_failed = True\<rparr>"

definition socks_demo_profile :: telegram_user_profile where
  "socks_demo_profile = \<lparr>pr_telegram_user_id = 7, pr_username = None, pr_first_name = None\<rparr>"

definition socks_demo :: "linux_host service_state" where
  "socks_demo = \<lparr>sv_db = empty_world\<lparr>db_users := [demo_user 1 SUPERADMIN, demo_user 7 APPROVED_USER]\<rparr>,
     sv_host = [], sv_degraded = None, sv_uninstalled = False\<rparr>"

definition socks_demo_issue :: "string list \<Rightarrow> bool \<Rightarrow> (service_error + proxy_access) \<times> linux_host service_state" where
  "socks_demo_issue failing activates =
     issue_socks5_proxy socks_env socks_demo_settings (linux_tool failing) (socks_demo_inputs activates) 7 socks_demo_profile socks_demo"

lemma socks_demo_ok: "proxies_ok (sv_db socks_demo)" "proxy_table_ok (sv_db socks_demo)"
  by (simp_all add: socks_demo_def empty_world_def proxy_table_ok_def proxies_ok_def proxies_unique_def unique_column_def map_filter_simps)

lemma socks_demo_issued: "map_sum (\<lambda>_. ()) pa_id (fst (socks_demo_issue [] True)) = Inr 1"
  by code_simp

lemma socks5_issue_outcome_witness:
  "\<exists>b. fst (socks_demo_issue [] True) = Inr b \<and> issued map_of (socks_demo_inputs True) 7 socks_demo b (snd (socks_demo_issue [] True))"
proof -
  obtain b where "fst (socks_demo_issue [] True) = Inr b" using socks_demo_issued by (cases "fst (socks_demo_issue [] True)") auto
  moreover have "issue_socks5_proxy socks_env socks_demo_settings (linux_tool []) (socks_demo_inputs True) 7 socks_demo_profile socks_demo
      = (fst (socks_demo_issue [] True), snd (socks_demo_issue [] True))" by (simp add: socks_demo_issue_def)
  from socks5_issue_outcome [OF linux.dante_host_axioms socks_demo_ok(1) this]
  have "issue_outcome map_of (socks_demo_inputs True) 7 socks_demo (fst (socks_demo_issue [] True)) (snd (socks_demo_issue [] True))"
    by (simp add: socks_demo_profile_def)
  ultimately show ?thesis by (simp add: issue_outcome_def)
qed

text \<open>A row of user seven, with the login \<open>s5_7_ab\<close>, and the host that knows it.\<close>

definition socks_demo_row :: "int \<Rightarrow> proxy_access_status \<Rightarrow> proxy_access" where
  "socks_demo_row i st = new_proxy_row \<lparr>pd_owner_user_id = 7, pd_username = None, pd_access_type = SOCKS5, pd_status = st,
     pd_payload = [(''login'', JStr ''s5_7_ab''), (''password'', JStr ''secret''), (''port'', JInt 1080)],
     pd_public_payload = [], pd_created_by = 7, pd_secret_fingerprint = None\<rparr> ''2025'' i"

definition socks_demo_table :: "proxy_access list \<Rightarrow> linux_host \<Rightarrow> linux_host service_state" where
  "socks_demo_table rows accounts = socks_demo\<lparr>sv_db := (sv_db socks_demo)\<lparr>db_proxy_accesses := rows, db_proxy_access_seq := 9\<rparr>,
     sv_host := accounts\<rparr>"

lemmas socks_demo_defs = socks_demo_table_def socks_demo_row_def socks_demo_def empty_world_def proxies_ok_def proxies_unique_def
  unique_column_def map_filter_simps live_slot_def live_proxy_statuses_def proxy_get_by_id_def new_proxy_row_def

lemma socks_demo_login: "payload_login socks_library (socks_demo_row i st) = ''s5_7_ab''"
  by (simp add: payload_login_def socks_demo_row_def py_str_def json_get_def)

definition socks_demo_accounts :: "string option \<Rightarrow> linux_host" where
  "socks_demo_accounts password = [(''s5_7_ab'', \<lparr>lu_password = password, lu_locked = (password = None)\<rparr>)]"

lemma socks_demo_exists: "user_exists (linux_tool []) ''s5_7_ab'' (socks_demo_accounts password) = (Inr True, socks_demo_accounts password)"
proof -
  have "managed_login (linux_tool []) ''s5_7_ab''" by code_simp
  then show ?thesis
    by (simp add: user_exists_def ensure_managed_login_def managed_login_def op_simps linux_run socks_demo_accounts_def)
qed

definition socks_demo_active :: "linux_host service_state" where
  "socks_demo_active = socks_demo_table [socks_demo_row 4 ProxyActive] (socks_demo_accounts (Some ''secret''))"

definition socks_demo_revoke :: "(service_error + proxy_access) \<times> linux_host service_state" where
  "socks_demo_revoke = revoke_socks5_access socks_env socks_library (linux_tool []) 1 4 None socks_demo_active"

lemma socks5_revoke_outcome_witness:
  "case fst socks_demo_revoke of
     Inr p \<Rightarrow> pa_status p = ProxyRevoked \<and> ''s5_7_ab'' \<notin> allowed map_of (sv_host (snd socks_demo_revoke))
   | Inl err \<Rightarrow> status_at 4 (sv_db (snd socks_demo_revoke)) = Some ProxyActive"
proof -
  let ?a = "socks_demo_row 4 ProxyActive"
  have run: "revoke_socks5_access socks_env socks_library (linux_tool []) 1 4 None socks_demo_active
      = (fst socks_demo_revoke, snd socks_demo_revoke)" by (simp add: socks_demo_revoke_def)
  have "proxies_ok (sv_db socks_demo_active)" "proxy_get_by_id 4 (sv_db socks_demo_active) = Some ?a"
    "slot_free 4 (Some (pa_owner_user_id ?a, SOCKS5)) (sv_db socks_demo_active)" "\<not> sv_uninstalled socks_demo_active"
    "sv_degraded socks_demo_active = None" "pa_access_type ?a = SOCKS5" "pa_status ?a \<notin> set finished_statuses" "pa_status ?a = ProxyActive"
    by (simp_all add: socks_demo_active_def socks_demo_defs slot_free_def finished_statuses_def)
  from socks5_revoke_outcome [OF linux.dante_host_axioms this(1,2,6,7,3,4,5) run] this(8) show ?thesis
    by (auto simp: socks_demo_login split: sum.splits)
qed

lemma revoke_failed_access_conflict_witness:
  "fst (revoke_socks5_access socks_env socks_library (linux_tool []) 1 4 None
     (socks_demo_table [socks_demo_row 4 ProxyApplyFailed, socks_demo_row 5 ProxyActive] [])) = Inl (IntegrityError ''proxy_accesses'')"
proof -
  let ?s = "socks_demo_table [socks_demo_row 4 ProxyApplyFailed, socks_demo_row 5 ProxyActive] []"
  have "proxies_ok (sv_db ?s)" "proxy_get_by_id 4 (sv_db ?s) = Some (socks_demo_row 4 ProxyApplyFailed)"
    "proxy_get_by_id 5 (sv_db ?s) = Some (socks_demo_row 5 ProxyActive)" "\<not> sv_uninstalled ?s" "sv_degraded ?s = None"
    "live_slot (socks_demo_row 5 ProxyActive) = Some (pa_owner_user_id (socks_demo_row 4 ProxyApplyFailed), SOCKS5)"
    "pa_access_type (socks_demo_row 4 ProxyApplyFailed) = SOCKS5" "pa_status (socks_demo_row 4 ProxyApplyFailed) = ProxyApplyFailed"
    by (simp_all add: socks_demo_defs)
  from revoke_failed_access_conflict [OF this(1,2,7,8,3) _ this(6,4,5)] show ?thesis by simp
qed

lemma socks5_startup_activates_unusable_witness:
  "\<exists>s'. startup_reconcile_access socks_env socks_library (linux_tool []) (socks_demo_row 4 ProxyApplyFailed)
       (socks_demo_table [socks_demo_row 4 ProxyApplyFailed] (socks_demo_accounts None)) = (Inr True, s')
     \<and> status_at 4 (sv_db s') = Some ProxyActive \<and> ''s5_7_ab'' \<notin> allowed map_of (sv_host s')"
proof -
  let ?a = "socks_demo_row 4 ProxyApplyFailed"
  let ?s = "socks_demo_table [?a] (socks_demo_accounts None)"
  have "proxies_ok (sv_db ?s)" "proxy_get_by_id (pa_id ?a) (sv_db ?s) = Some ?a" "pa_status ?a = ProxyApplyFailed" "pa_id ?a = 4"
    "slot_free (pa_id ?a) (Some (pa_owner_user_id ?a, pa_access_type ?a)) (sv_db ?s)"
    by (simp_all add: socks_demo_defs slot_free_def)
  moreover have "payload_login socks_library ?a \<notin> allowed map_of (sv_host ?s)" "payload_login socks_library ?a \<noteq> []"
    "user_exists (linux_tool []) (payload_login socks_library ?a) (sv_host ?s) = (Inr True, socks_demo_accounts None)"
    by (simp_all add: socks_demo_login socks_demo_table_def socks_demo_exists) (simp add: allowed_def may_login_def socks_demo_accounts_def)
  ultimately show ?thesis
    using socks5_startup_activates_unusable [OF linux.dante_host_axioms, of ?s ?a socks_library "[]" "socks_demo_accounts None" socks_env]
    by (simp add: socks_demo_login)
qed

text \<open>The runner quotes the standard input of \<open>chpasswd\<close>, which holds the password.\<close>

definition socks_demo_provision :: "(service_error + unit) \<times> linux_host service_state" where
  "socks_demo_provision = provision_user socks_env (linux_tool [''chpasswd'']) (socks_demo_inputs True) 7 7 4 ''s5_7_ab''
     (socks_demo_table [socks_demo_row 4 ProxyPendingApply] [])"

lemma socks_demo_provision_fails: "fst socks_demo_provision = Inl (InvalidOperation ''SOCKS5 apply failed'')"
  by code_simp

lemma socks5_error_redacted_witness:
  "\<exists>b. proxy_get_by_id 4 (sv_db (snd socks_demo_provision)) = Some b \<and> pa_status b = ProxyApplyFailed
     \<and> \<not> infix_of ''secret'' (case pa_error b of None \<Rightarrow> [] | Some m \<Rightarrow> m)"
proof -
  let ?s = "socks_demo_table [socks_demo_row 4 ProxyPendingApply] []"
  have run: "provision_user socks_env (linux_tool [''chpasswd'']) (socks_demo_inputs True) 7 7 4 ''s5_7_ab'' ?s
      = (Inl (InvalidOperation ''SOCKS5 apply failed''), snd socks_demo_provision)"
    using socks_demo_provision_fails by (simp add: socks_demo_provision_def prod_eq_iff)
  have "proxies_ok (sv_db ?s)" "proxy_get_by_id 4 (sv_db ?s) = Some (socks_demo_row 4 ProxyPendingApply)"
    by (simp_all add: socks_demo_defs)
  from socks5_error_redacted [OF linux.dante_host_axioms this run] show ?thesis
    by (simp add: socks_demo_inputs_def startswith_def)
qed

lemma socks5_table_typed_witness: "proxy_table_ok (sv_db (snd (socks_demo_issue [''userdel'', ''chpasswd''] False)))"
  unfolding socks_demo_issue_def using socks5_table_typed [OF socks_demo_ok(2)] by (rule conjunct1)

lemma socks_demo_step: "socks_step (linux_tool []) socks_library socks_demo (snd (socks_demo_issue [] True))"
proof -
  obtain b where "fst (socks_demo_issue [] True) = Inr b" using socks_demo_issued by (cases "fst (socks_demo_issue [] True)") auto
  then have "issue_socks5_proxy socks_env socks_demo_settings (linux_tool []) (socks_demo_inputs True) 7 socks_demo_profile socks_demo
      = (Inr b, snd (socks_demo_issue [] True))" by (simp add: socks_demo_issue_def prod_eq_iff)
  then show ?thesis by (rule socks_step.issue)
qed


lemma socks5_logins_are_active_witness:
  "allowed map_of (sv_host (snd (socks_demo_issue [] True)))
    = {login. \<exists>i. access_view (sv_db (snd (socks_demo_issue [] True))) i = Some (SOCKS5, ProxyActive, JStr login)}"
proof -
  have "register_ok (register_of map_of socks_demo)"
    by (simp add: register_ok_def register_of_def access_view_def proxy_get_by_id_def socks_demo_def empty_world_def allowed_def may_login_def)
  from socks5_logins_are_active [OF linux.dante_host_axioms socks_run.more [OF socks_run.start socks_demo_step] socks_demo_ok(2) this]
  show ?thesis by (rule conjunct2)
qed

end
