(* ===== verification/Blocking_Properties.thy ===== *)
theory Blocking_Properties
  imports Blocking_Outcome Awg_Creation Socks5_Outcomes
begin

text \<open>
  The revokers of the AmneziaWG and SOCKS5 services meet the contracts of the loops of a block, and the
  properties of a block over any revokers that do.
\<close>

section \<open>What a step may do\<close>

definition steps_in :: "('s \<Rightarrow> 's \<Rightarrow> bool) \<Rightarrow> ('s, 'e, 'a) op \<Rightarrow> bool" where
  "steps_in R m \<longleftrightarrow> (\<forall>s. R s (snd (m s)))"

lemma steps_bind:
  assumes "transp R" "steps_in R m" "\<And>x. steps_in R (f x)"
  shows "steps_in R (op_bind m f)"
  unfolding steps_in_def
proof
  fix s
  show "R s (snd (op_bind m f s))"
    by (rule op_rel_bind [where R = R]) (use assms in \<open>auto simp: steps_in_def elim: transpE\<close>)
qed

lemma steps_gate: "reflp R \<Longrightarrow> gate m \<Longrightarrow> steps_in R m"
  by (simp add: steps_in_def gate_def reflpD)

lemma steps_try: "transp R \<Longrightarrow> steps_in R m \<Longrightarrow> (\<And>x. steps_in R (h x)) \<Longrightarrow> steps_in R (op_try m h)"
  by (auto simp: steps_in_def op_try_def split_beta split: sum.split) (metis transpD)

lemma steps_effects [simp]:
  "steps_in key_effect (on_host m)" "steps_in key_effect (from_host f)" "steps_in proxy_effect (on_dante d)"
  "steps_in key_effect (on_db (audit_write_best_effort e a b c i n))" "steps_in proxy_effect (on_db (audit_write_best_effort e a b c i n))"
  by (simp_all add: steps_in_def key_effect_def proxy_effect_def key_ids_def proxy_ids_def on_host_def from_host_def on_dante_def on_db_def
      audit_best_effort_run split_beta)

lemma ids_kept: "(\<And>x. key (f x) = key x) \<Longrightarrow> key ` set (update_where P f rows) = key ` set rows"
  unfolding update_where_def set_map image_comp by (rule image_cong) auto

lemma steps_update_keys: "(\<And>k. vk_id (f k) = vk_id k) \<Longrightarrow> key_effect s (s\<lparr>sv_db := snd (update_keys P f (sv_db s))\<rparr>)"
  by (simp add: key_effect_def key_ids_def update_keys_run ids_kept)

lemma steps_key_writes [simp]:
  "steps_in key_effect (on_db (set_status i st now None))" "steps_in key_effect (on_db (mark_revoked i actor now))"
  by (simp_all add: steps_in_def on_db_def split_beta key_set_status_run mark_revoked_def snd_guard_after steps_update_keys,
      simp add: key_effect_def key_ids_def put_row_def ids_kept)

lemma steps_update_proxies: "keeps_proxy_id f \<Longrightarrow> proxy_effect s (s\<lparr>sv_db := snd (update_proxies P f (sv_db s))\<rparr>)"
  by (simp add: proxy_effect_def proxy_ids_def update_proxies_run ids_kept keeps_proxy_id_def)

lemma steps_proxy_writes [simp]:
  "steps_in proxy_effect (on_db (proxy_set_status i st now err reason None))"
  "steps_in proxy_effect (on_db (proxy_mark_revoked i actor now reason))"
  using steps_update_proxies [OF keeps_proxy_id_rows(1)] steps_update_proxies [OF keeps_proxy_id_rows(3)]
  by (auto simp: steps_in_def on_db_def split_beta proxy_set_status_def proxy_mark_revoked_def snd_guard_after)

lemma steps_gates [simp]:
  assumes "reflp R"
  shows "steps_in R (op_return x)" "steps_in R (op_raise err)" "steps_in R (op_guard b err)" "steps_in R (op_get f)"
  using assms by (simp_all add: steps_gate)

lemma service_gates [simp]:
  assumes "reflp R"
  shows "steps_in R require_mutation_allowed" "steps_in R (on_db (get_key kid))" "steps_in R (on_db (get_access i))"
    "steps_in R (on_host_value g)"
  using assms by (simp_all add: steps_gate gate_on_db)

lemma effects_reflp [simp]: "reflp key_effect" "reflp proxy_effect"
  by (rule effects_rel)+

lemma lock_steps [simp]: "steps_in proxy_effect (on_dante m)"
  by simp

lemma awg_steps: "steps_in key_effect (revoke_awg_key_system e lib ad kid (Some actor) action)"
  unfolding revoke_awg_key_system_def pending_then_remove_def remove_awg_access_def removal_public_key_def awg_audit_def
  by (auto intro!: steps_bind steps_try effects_rel)

lemma socks_steps: "steps_in proxy_effect (revoke_socks5_access e lib t actor i reason)"
  unfolding revoke_socks5_access_def socks_audit_def
  by (auto intro!: steps_bind steps_try effects_rel)

interpretation awg_blocking: key_revokers "[(AWG, \<lambda>actor kid. revoke_awg_key_system e lib ad kid (Some actor) ''awg_key_revoked'')]" for e lib ad
  by unfold_locales (auto simp: awg_steps [unfolded steps_in_def, rule_format] split: if_splits)

interpretation socks_blocking: proxy_revokers "[(SOCKS5, revoke_socks5_proxy_system e lib t)]" for e lib t
  by unfold_locales (auto simp: socks_steps [unfolded steps_in_def, rule_format] revoke_socks5_proxy_system_def split: if_splits)

section \<open>The newest entry of the log\<close>

lemma insort_key_last: "f y \<le> f x \<Longrightarrow> insort_key f y (ys @ [x]) = insort_key f y ys @ [x]"
  by (induction ys) auto

lemma sort_key_last: "(\<And>y. y \<in> set xs \<Longrightarrow> f y \<le> f x) \<Longrightarrow> sort_key f (xs @ [x]) = sort_key f xs @ [x]"
  by (induction xs) (simp_all add: insort_key_last)

lemma newest_entry:
  assumes "db_audit w = older @ [x]" "\<And>y. y \<in> set older \<Longrightarrow> au_created_at y \<le> au_created_at x"
    "au_entity_type x = EntityUser" "au_entity_id x = Some target" "au_action x \<in> set block_error_actions"
  shows "last_block_revoke_error target w
    = (max (positive_int (au_error_count x)) 1, if au_created_at x = [] then None else Some (au_created_at x))"
proof -
  let ?P = "\<lambda>x. au_entity_type x = EntityUser \<and> au_entity_id x = Some target
    \<and> (block_error_actions @ [''user_blocked''] = [] \<or> au_action x \<in> set (block_error_actions @ [''user_blocked'']))"
  have "sort_key au_created_at (filter ?P (older @ [x])) = sort_key au_created_at (filter ?P older) @ [x]"
    using assms(2-5) sort_key_last [of "filter ?P older" au_created_at x] by simp
  then have "recent_for_entity EntityUser target (block_error_actions @ [''user_blocked'']) 5 w
      = x # take 4 (rev (sort_key au_created_at (filter ?P older)))"
    by (simp add: recent_for_entity_def assms(1) numeral_eq_Suc)
  then show ?thesis using assms(5) by (simp add: last_block_revoke_error_def)
qed

section \<open>Properties\<close>

text \<open>
  C26: once the gates let a moderator through, a block returns whatever the revokers do to the access of the user, as
  long as they add no access and leave the table of users alone; and the user it returns is the stored one, blocked.
\<close>

theorem block_user_blocks:
  assumes "block_ready fuel e rv actor target s"
  shows "\<exists>res s'. block_user fuel e rv fits actor target revoke_active s = (Inr (Some res), s')
    \<and> user_get_by_id target (sv_db s') = Some (br_user res) \<and> u_role (br_user res) = BLOCKED_USER
    \<and> u_blocked_at (br_user res) = Some (ev_now e)"
proof -
  obtain res s2 where "block_user fuel e rv fits actor target revoke_active s = (Inr (Some res),
      s2\<lparr>sv_db := snd (report_block e (fits (br_errors res)) actor target (br_errors res) (sv_db s2))\<rparr>)"
    "u_role (br_user res) = BLOCKED_USER" "u_blocked_at (br_user res) = Some (ev_now e)" "user_get_by_id target (sv_db s2) = Some (br_user res)"
    by (rule block_run [OF assms, of fits revoke_active])
  then show ?thesis by (simp add: report_run user_get_by_id_def)
qed

text \<open>
  C27: a key of the user that a block leaves in a state in which it may still work is named in the errors of
  the result, if at most 500 such keys are left, the size of the page the loop reads.
\<close>

theorem block_names_leftovers:
  assumes "block_ready fuel e rv actor target s" "bk_keys rv = Some (x # xs)"
    and "block_user fuel e rv fits actor target True s = (Inr (Some res), s')"
    and "k \<in> set (db_vpn_keys (sv_db s'))" "vk_owner_user_id k = target" "vk_status k \<in> set access_key_statuses"
    and "length (filter (\<lambda>k. vk_owner_user_id k = target \<and> vk_status k \<in> set access_key_statuses) (db_vpn_keys (sv_db s'))) \<le> 500"
  shows "\<exists>err \<in> set (br_errors res). ke_id err = vk_id k \<and> is_key_kind (ke_kind err)"
proof -
  obtain p s1 s2 where run: "s' = s2\<lparr>sv_db := snd (report_block e (fits (br_errors res)) actor target (br_errors res) (sv_db s2))\<rparr>"
    "revoke_all_access_keys fuel rv actor target (s\<lparr>sv_db := blocked_world e actor target (sv_db s)\<rparr>) = (Inr (Some p), s1)"
    "set (rp_errors p) \<subseteq> set (br_errors res)" "proxy_effect s1 s2"
    by (rule block_run [OF assms(1), of fits True]) (use assms(3) in \<open>simp add: key_stage_def\<close>)
  have keys: "db_vpn_keys (sv_db s1) = db_vpn_keys (sv_db s')"
    using run(4) by (simp add: run(1) report_run proxy_effect_def)
  have "k \<in> set (list_by_owner_statuses target access_key_statuses 500 0 (sv_db s1))"
    using assms(4-7) by (simp add: list_by_owner_statuses_def page_def clamp_limit_def clamp_offset_def keys)
  then have "vk_id k \<in> named_ids is_key_kind (rp_errors p)" using revoke_keys_names [OF run(2) assms(2)] by blast
  then show ?thesis using run(3) by (auto simp: named_ids_def)
qed

text \<open>
  After a block with errors, with the log working and no entry of it from the future, the look at the risk of
  unblocking warns, and counts the errors of that block unless their details were too long for the log.
\<close>

theorem unblock_warns_after_errors:
  assumes "block_ready fuel e rv actor target s" "block_user fuel e rv fits actor target flag s = (Inr (Some res), s')"
    and "br_errors res \<noteq> []" "ev_audit_ok e" "list_all (\<lambda>x. au_created_at x \<le> ev_now e) (db_audit (sv_db s'))"
    and "inspect_unblock_risk e' keys_attached proxies_attached actor' target (sv_db s') = (Inr uw, w)"
  shows "uw_has_warning uw \<and> uw_error_count uw = (if fits (br_errors res) then int (length (br_errors res)) else 1)"
proof -
  let ?n = "if fits (br_errors res) then int (length (br_errors res)) else 0"
  obtain s2 where "s' = s2\<lparr>sv_db := snd (report_block e (fits (br_errors res)) actor target (br_errors res) (sv_db s2))\<rparr>"
    by (rule block_run [OF assms(1), of fits flag]) (use assms(2) in auto)
  then have log: "db_audit (sv_db s') = db_audit (sv_db s2) @ [\<lparr>au_actor = Some actor, au_action = ''user_blocked_with_revoke_errors'',
      au_entity_type = EntityUser, au_entity_id = Some target, au_error_count = ?n, au_created_at = ev_now e\<rparr>]"
    using assms(3,4) by (simp add: report_block_def audit_best_effort_run)
  have "last_block_revoke_error target (sv_db s') = (max (positive_int ?n) 1, if ev_now e = [] then None else Some (ev_now e))"
    by (subst newest_entry [OF log]) (use assms(5) log in \<open>auto simp: list_all_iff block_error_actions_def\<close>)
  moreover have "length (br_errors res) \<ge> 1" using assms(3) by (cases "br_errors res") simp_all
  ultimately show ?thesis
    using assms(6) by (auto simp: inspect_unblock_risk_def op_bind_Inr op_guard_Inr op_get_run op_return_run get_user_run positive_int_def Let_def
        split: option.splits if_splits dest!: get_moderator_keeps)
qed

section \<open>An example\<close>

definition down_revoker :: "int \<Rightarrow> int \<Rightarrow> (unit, vpn_key) service_op" where
  "down_revoker actor kid = op_raise (BackendFailure ''backend down'')"

definition down_revokers :: "unit revokers" where
  "down_revokers = \<lparr>bk_keys = Some [(AWG, down_revoker)], bk_proxies = None\<rparr>"

lemma down_revokers_ok: "revokers_ok down_revokers"
  by (simp add: revokers_ok_def down_revokers_def) (unfold_locales, simp add: down_revoker_def op_raise_def split: if_splits)

definition block_demo :: "unit service_state" where
  "block_demo = \<lparr>sv_db = demo_keys\<lparr>db_vpn_keys := [demo_key 1 KeyActive],
       db_users := [demo_user 1 MODERATOR, demo_user 7 APPROVED_USER]\<rparr>, sv_host = (), sv_degraded = None, sv_uninstalled = False\<rparr>"

definition block_demo_run :: "(service_error + block_result option) \<times> unit service_state" where
  "block_demo_run = block_user 2 service_env down_revokers (\<lambda>_. True) 1 7 True block_demo"

lemma block_demo_ready: "block_ready 2 service_env down_revokers 1 7 block_demo"
  by (simp add: block_ready_def down_revokers_ok block_demo_def users_ok_def demo_user_def demo_keys_def empty_world_def block_gates_def
      op_simps require_moderator_run get_user_run user_get_by_id_def service_env_def)

lemma block_user_blocks_witness:
  "\<exists>res s'. block_user 2 service_env down_revokers (\<lambda>_. True) 1 7 True block_demo = (Inr (Some res), s')
    \<and> u_role (br_user res) = BLOCKED_USER"
  using block_user_blocks [OF block_demo_ready] by blast

lemma block_demo_value:
  "map_sum (\<lambda>_. ()) (map_option (\<lambda>res. map ke_id (br_errors res))) (fst block_demo_run) = Inr (Some [1])"
  "map (\<lambda>k. (vk_id k, vk_owner_user_id k, vk_status k)) (db_vpn_keys (sv_db (snd block_demo_run))) = [(1, 7, KeyActive)]"
  "list_all (\<lambda>x. au_created_at x \<le> ev_now service_env) (db_audit (sv_db (snd block_demo_run)))"
  by code_simp+

lemma block_demo_result:
  obtains res s' where "block_user 2 service_env down_revokers (\<lambda>_. True) 1 7 True block_demo = (Inr (Some res), s')"
    "s' = snd block_demo_run" "map ke_id (br_errors res) = [1]"
  using block_demo_value(1) by (cases block_demo_run) (auto simp: block_demo_run_def map_sum_def split: sum.splits option.splits)

lemma block_names_leftovers_witness:
  "\<exists>res s'. block_user 2 service_env down_revokers (\<lambda>_. True) 1 7 True block_demo = (Inr (Some res), s')
    \<and> (\<exists>err \<in> set (br_errors res). ke_id err = 1 \<and> is_key_kind (ke_kind err))"
proof -
  obtain res s' where run: "block_user 2 service_env down_revokers (\<lambda>_. True) 1 7 True block_demo = (Inr (Some res), s')"
    "s' = snd block_demo_run" by (rule block_demo_result)
  obtain k where k: "db_vpn_keys (sv_db s') = [k]" "vk_id k = 1" "vk_owner_user_id k = 7" "vk_status k = KeyActive"
    using block_demo_value(2) by (auto simp: run(2))
  have keys: "bk_keys down_revokers = Some ((AWG, down_revoker) # [])" by (simp add: down_revokers_def)
  have "\<exists>err \<in> set (br_errors res). ke_id err = vk_id k \<and> is_key_kind (ke_kind err)"
    by (rule block_names_leftovers [OF block_demo_ready keys run(1)]) (simp_all add: k access_key_statuses_def)
  with run(1) k(2) show ?thesis by auto
qed

lemma unblock_warns_after_errors_witness:
  "\<exists>uw w. inspect_unblock_risk service_env True True 1 7 (sv_db (snd block_demo_run)) = (Inr uw, w)
    \<and> uw_has_warning uw \<and> uw_error_count uw = 1"
proof -
  obtain res s' where run: "block_user 2 service_env down_revokers (\<lambda>_. True) 1 7 True block_demo = (Inr (Some res), s')"
    "s' = snd block_demo_run" "map ke_id (br_errors res) = [1]" by (rule block_demo_result)
  have "isl (fst (inspect_unblock_risk service_env True True 1 7 (sv_db (snd block_demo_run)))) = False" by code_simp
  then obtain uw w where look: "inspect_unblock_risk service_env True True 1 7 (sv_db s') = (Inr uw, w)"
    by (cases "fst (inspect_unblock_risk service_env True True 1 7 (sv_db s'))") (auto simp: run(2) prod_eq_iff)
  have "br_errors res \<noteq> []" "ev_audit_ok service_env" "length (br_errors res) = 1"
    using run(3) by (auto simp: service_env_def)
  from unblock_warns_after_errors [OF block_demo_ready run(1) this(1,2) _ look] block_demo_value(3) this(3) show ?thesis
    using look by (simp add: run(2))
qed

end
