(* ===== verification/Traffic_Stats.thy ===== *)
theory Traffic_Stats
  imports Service_State Py_Lines Op_Steps
begin

text \<open>
  \<open>services/traffic_stats.py\<close>, \<open>repositories/traffic_stats.py\<close> and the readers of the two HTTP and
  command-line statistics interfaces (\<open>adapters/xray_stats.py\<close>, \<open>adapters/hysteria_stats.py\<close>). The
  lifetime totals of a key are a row of \<open>vpn_key_traffic_stats\<close> (in the database of \<open>World\<close>); the
  hourly history and the hour of the last retention pass are kept beside it. What the three
  backends answer is an argument, read anew by every refresh.
\<close>

section \<open>The readers of the backends\<close>

text \<open>\<open>XrayStatsAdapter.parse_statsquery_output\<close>, over the parsed JSON: \<open>int(value)\<close> of a counter
  that is no number is 0, and so is a missing value.\<close>

definition truncate_rat :: "rat \<Rightarrow> int" where
  "truncate_rat x = (if 0 \<le> x then floor x else - floor (- x))"

definition json_int :: "json \<Rightarrow> int option" where
  "json_int v = (case v of JInt i \<Rightarrow> Some i | JBool b \<Rightarrow> Some (if b then 1 else 0)
     | JFloat r \<Rightarrow> Some (truncate_rat r) | JStr s \<Rightarrow> py_int s | _ \<Rightarrow> None)"

fun statsquery_counters :: "(string, int) dict \<Rightarrow> json list \<Rightarrow> (string, int) dict" where
  "statsquery_counters acc [] = acc"
| "statsquery_counters acc (item # rest) =
     (case item of
        JObj d \<Rightarrow> (case json_get d ''name'' of
             JStr name \<Rightarrow> statsquery_counters
                (AList.update name (case json_int (json_get d ''value'') of None \<Rightarrow> 0 | Some i \<Rightarrow> i) acc) rest
           | _ \<Rightarrow> statsquery_counters acc rest)
      | _ \<Rightarrow> statsquery_counters acc rest)"

definition parse_statsquery_output :: "(string \<Rightarrow> json option) \<Rightarrow> string \<Rightarrow> string + (string, int) dict" where
  "parse_statsquery_output loads t =
     (if strip t = [] then Inr []
      else case loads t of None \<Rightarrow> Inl ''invalid JSON''
       | Some (JObj d) \<Rightarrow> (case json_get d ''stat'' of JArr items \<Rightarrow> Inr (statsquery_counters [] items) | _ \<Rightarrow> Inr [])
       | Some _ \<Rightarrow> Inr [])"

text \<open>\<open>XrayStatsAdapter.query_all\<close>; the run of the command is an argument (\<open>None\<close> when it failed).\<close>

definition xray_query_all ::
  "(string \<Rightarrow> json option) \<Rightarrow> string \<Rightarrow> (string \<Rightarrow> string option) \<Rightarrow> string + (string, int) dict" where
  "xray_query_all loads stats_server run =
     (if strip stats_server = [] then Inl ''XRAY_STATS_SERVER not set''
      else case run (strip stats_server) of None \<Rightarrow> Inl ''stats API unavailable''
       | Some out \<Rightarrow> parse_statsquery_output loads out)"

text \<open>\<open>adapters/hysteria_stats.py\<close>: the reply of the HTTP server, its body parsed by \<open>json.loads\<close>.\<close>

datatype stats_reply = StatsUnreachable | StatsReply (reply_status: int) (reply_bytes: nat) (reply_json: "json option")

definition max_response_bytes :: nat where
  "max_response_bytes = 8 * 1024 * 1024"

definition get_json :: "stats_reply \<Rightarrow> string + json" where
  "get_json reply = (case reply of StatsUnreachable \<Rightarrow> Inl ''unreachable''
     | StatsReply status received body \<Rightarrow>
         if status \<noteq> 200 then Inl ''HTTP status''
         else if received > max_response_bytes then Inl ''response too large''
         else (case body of None \<Rightarrow> Inl ''invalid JSON'' | Some v \<Rightarrow> Inr v))"

definition coerce_int :: "json \<Rightarrow> int" where
  "coerce_int v = (case v of JBool _ \<Rightarrow> 0 | _ \<Rightarrow> (case json_int v of None \<Rightarrow> 0 | Some i \<Rightarrow> max i 0))"

fun traffic_entries :: "(string \<times> json) list \<Rightarrow> (string, int \<times> int) dict" where
  "traffic_entries [] = []"
| "traffic_entries ((label, entry) # rest) =
     (case entry of
        JObj d \<Rightarrow> (label, (coerce_int (json_get d ''tx''), coerce_int (json_get d ''rx''))) # traffic_entries rest
      | _ \<Rightarrow> traffic_entries rest)"

definition hysteria_query_all :: "stats_reply \<Rightarrow> string + (string, int \<times> int) dict" where
  "hysteria_query_all reply = (case get_json reply of Inl err \<Rightarrow> Inl err
     | Inr (JObj d) \<Rightarrow> Inr (traffic_entries d) | Inr _ \<Rightarrow> Inr [])"

definition hysteria_query_online :: "stats_reply \<Rightarrow> string + (string, int) dict" where
  "hysteria_query_online reply = (case get_json reply of Inl err \<Rightarrow> Inl err
     | Inr (JObj d) \<Rightarrow> Inr (map (\<lambda>(label, count). (label, coerce_int count)) d) | Inr _ \<Rightarrow> Inr [])"

text \<open>\<open>kick\<close>: the labels it posts (nothing is posted for none) and its outcome for a reply.\<close>

definition kick_labels :: "string list \<Rightarrow> string list" where
  "kick_labels labels = filter (\<lambda>l. l \<noteq> []) labels"

definition hysteria_kick :: "(string list \<Rightarrow> int option) \<Rightarrow> string list \<Rightarrow> string + unit" where
  "hysteria_kick post labels =
     (if kick_labels labels = [] then Inr ()
      else case post (kick_labels labels) of None \<Rightarrow> Inl ''unreachable''
       | Some status \<Rightarrow> if status \<noteq> 200 then Inl ''HTTP status'' else Inr ())"

section \<open>The repository\<close>

record hourly_bucket =
  hb_hour_utc :: int
  hb_key_id :: int
  hb_protocol :: string
  hb_downloaded_bytes :: int
  hb_uploaded_bytes :: int

record traffic_state =
  tf_db :: world
  tf_hourly :: "hourly_bucket list"
  tf_pruned_hour :: "int option"

type_synonym 'a traffic_op = "(traffic_state, service_error, 'a) op"

definition on_tf :: "'a act \<Rightarrow> 'a traffic_op" where
  "on_tf m = (\<lambda>s. case m (tf_db s) of (r, w) \<Rightarrow> (r, s\<lparr>tf_db := w\<rparr>))"

definition traffic_hourly_retention_days :: int where
  "traffic_hourly_retention_days = 400"

definition hour_utc_from_iso :: "env \<Rightarrow> string \<Rightarrow> service_error + int" where
  "hour_utc_from_iso e timestamp = (case ev_instant e timestamp of None \<Rightarrow> Inl (ValueError ''isoformat'')
     | Some x \<Rightarrow> Inr (truncate_rat x div 3600))"

record hourly_delta =
  hd_protocol :: string
  hd_downloaded_bytes :: int
  hd_uploaded_bytes :: int

definition stats_by_key_id :: "int \<Rightarrow> world \<Rightarrow> traffic_stats option" where
  "stats_by_key_id kid w = find (\<lambda>t. ts_key_id t = kid) (db_traffic_stats w)"

definition stats_by_key_ids :: "int list \<Rightarrow> world \<Rightarrow> (int, traffic_stats) dict" where
  "stats_by_key_ids kids w =
     map (\<lambda>t. (ts_key_id t, t)) (filter (\<lambda>t. ts_key_id t \<in> set kids) (db_traffic_stats w))"

text \<open>\<open>INSERT ... ON CONFLICT(key_id) DO UPDATE\<close>; the foreign key is checked on the insertion.\<close>

definition put_stats :: "int \<Rightarrow> traffic_stats \<Rightarrow> (traffic_stats \<Rightarrow> traffic_stats) \<Rightarrow> unit act" where
  "put_stats kid fresh upd = op_bind (op_get id) (\<lambda>w.
     if stats_by_key_id kid w \<noteq> None
     then op_modify (\<lambda>w. w\<lparr>db_traffic_stats := update_where (\<lambda>t. ts_key_id t = kid) upd (db_traffic_stats w)\<rparr>)
     else op_bind (op_guard (key_get_by_id kid w \<noteq> None) (IntegrityError ''FOREIGN KEY'')) (\<lambda>_.
          op_modify (\<lambda>w. w\<lparr>db_traffic_stats := db_traffic_stats w @ [fresh]\<rparr>)))"

definition bucket_is :: "int \<Rightarrow> int \<Rightarrow> string \<Rightarrow> hourly_bucket \<Rightarrow> bool" where
  "bucket_is hour kid protocol b \<longleftrightarrow> hb_hour_utc b = hour \<and> hb_key_id b = kid \<and> hb_protocol b = protocol"

definition add_hourly :: "int \<Rightarrow> int \<Rightarrow> string \<Rightarrow> int \<Rightarrow> int \<Rightarrow> hourly_bucket list \<Rightarrow> hourly_bucket list" where
  "add_hourly hour kid protocol down up bs =
     (if list_ex (bucket_is hour kid protocol) bs
      then update_where (bucket_is hour kid protocol)
        (\<lambda>b. b\<lparr>hb_downloaded_bytes := hb_downloaded_bytes b + down, hb_uploaded_bytes := hb_uploaded_bytes b + up\<rparr>) bs
      else bs @ [\<lparr>hb_hour_utc = hour, hb_key_id = kid, hb_protocol = protocol,
                  hb_downloaded_bytes = down, hb_uploaded_bytes = up\<rparr>])"

definition clamp_raw :: "int option \<Rightarrow> int option" where
  "clamp_raw raw = map_option (\<lambda>r. max r 0) raw"

definition success_row ::
  "int \<Rightarrow> int \<Rightarrow> int \<Rightarrow> int option \<Rightarrow> int option \<Rightarrow> string \<Rightarrow> string \<Rightarrow> traffic_stats" where
  "success_row kid down up raw_down raw_up now source =
     \<lparr>ts_key_id = kid, ts_downloaded_bytes = max down 0, ts_uploaded_bytes = max up 0,
      ts_last_raw_downloaded_bytes = clamp_raw raw_down, ts_last_raw_uploaded_bytes = clamp_raw raw_up,
      ts_last_success_at = Some now, ts_last_attempt_at = Some now, ts_available = True,
      ts_unavailable_reason = None, ts_source = Some source\<rparr>"

definition upsert_success ::
  "env \<Rightarrow> int \<Rightarrow> int \<Rightarrow> int \<Rightarrow> int option \<Rightarrow> int option \<Rightarrow> string \<Rightarrow> hourly_delta option \<Rightarrow> traffic_stats traffic_op" where
  "upsert_success e kid down up raw_down raw_up source hourly =
     (let row = success_row kid down up raw_down raw_up (ev_now e) source
      in op_bind (on_tf (put_stats kid row (\<lambda>_. row))) (\<lambda>_.
         op_bind
           (case hourly of
              Some d \<Rightarrow>
                if hd_downloaded_bytes d > 0 \<or> hd_uploaded_bytes d > 0
                then (case hour_utc_from_iso e (ev_now e) of Inl err \<Rightarrow> op_raise err
                  | Inr hour \<Rightarrow> op_modify (\<lambda>s. s\<lparr>tf_hourly := add_hourly hour kid (hd_protocol d)
                      (max (hd_downloaded_bytes d) 0) (max (hd_uploaded_bytes d) 0) (tf_hourly s)\<rparr>))
                else op_return ()
            | None \<Rightarrow> op_return ()) (\<lambda>_.
         op_return row)))"

definition zero_row :: "int \<Rightarrow> string \<Rightarrow> bool \<Rightarrow> string option \<Rightarrow> string \<Rightarrow> traffic_stats" where
  "zero_row kid now available reason source =
     \<lparr>ts_key_id = kid, ts_downloaded_bytes = 0, ts_uploaded_bytes = 0, ts_last_raw_downloaded_bytes = None,
      ts_last_raw_uploaded_bytes = None, ts_last_success_at = None, ts_last_attempt_at = Some now,
      ts_available = available, ts_unavailable_reason = reason, ts_source = Some source\<rparr>"

definition stored_stats :: "int \<Rightarrow> string \<Rightarrow> traffic_stats traffic_op" where
  "stored_stats kid failure = op_bind (op_get (\<lambda>s. stats_by_key_id kid (tf_db s))) (\<lambda>found.
     case found of None \<Rightarrow> op_raise (RuntimeFailure failure) | Some t \<Rightarrow> op_return t)"

definition touch_attempt :: "env \<Rightarrow> int \<Rightarrow> string \<Rightarrow> traffic_stats traffic_op" where
  "touch_attempt e kid source =
     op_bind (on_tf (put_stats kid (zero_row kid (ev_now e) True None source)
        (\<lambda>t. t\<lparr>ts_last_attempt_at := Some (ev_now e)\<rparr>))) (\<lambda>_.
     stored_stats kid ''attempt touch failed'')"

definition upsert_unavailable :: "env \<Rightarrow> int \<Rightarrow> string \<Rightarrow> string \<Rightarrow> traffic_stats traffic_op" where
  "upsert_unavailable e kid reason source =
     op_bind (on_tf (put_stats kid (zero_row kid (ev_now e) False (Some (take 512 reason)) source)
        (\<lambda>t. t\<lparr>ts_last_attempt_at := Some (ev_now e), ts_available := False,
               ts_unavailable_reason := Some (take 512 reason), ts_source := Some source\<rparr>))) (\<lambda>_.
     stored_stats kid ''unavailable upsert failed'')"

text \<open>\<open>DELETE FROM traffic_hourly WHERE hour_utc <= ?\<close>; the statement fails when the database does.\<close>

definition prune_hourly :: "bool \<Rightarrow> int \<Rightarrow> int \<Rightarrow> int traffic_op" where
  "prune_hourly commits current_hour retention_days =
     op_bind (op_guard commits (RuntimeFailure ''database'')) (\<lambda>_.
     op_bind (op_get (\<lambda>s. count_where (\<lambda>b. hb_hour_utc b \<le> current_hour - retention_days * 24) (tf_hourly s))) (\<lambda>removed.
     op_bind (op_modify (\<lambda>s. s\<lparr>tf_hourly := filter (\<lambda>b. \<not> hb_hour_utc b \<le> current_hour - retention_days * 24) (tf_hourly s)\<rparr>)) (\<lambda>_.
     op_return (max removed 0))))"

section \<open>The totals\<close>

definition next_total :: "int \<Rightarrow> int option \<Rightarrow> int \<Rightarrow> int" where
  "next_total previous_total previous_raw current_raw =
     (let current = max current_raw 0
      in case previous_raw of None \<Rightarrow> max previous_total current
       | Some r \<Rightarrow> if current < r then previous_total + current else previous_total + (current - r))"

definition next_total_for_direction :: "int \<Rightarrow> int option \<Rightarrow> int option \<Rightarrow> int \<times> int option" where
  "next_total_for_direction previous_total previous_raw current_raw =
     (case current_raw of None \<Rightarrow> (previous_total, previous_raw)
      | Some c \<Rightarrow> (next_total previous_total previous_raw c, Some (max c 0)))"

definition stored_down :: "traffic_stats option \<Rightarrow> int" where
  "stored_down previous = (case previous of None \<Rightarrow> 0 | Some t \<Rightarrow> ts_downloaded_bytes t)"

definition stored_up :: "traffic_stats option \<Rightarrow> int" where
  "stored_up previous = (case previous of None \<Rightarrow> 0 | Some t \<Rightarrow> ts_uploaded_bytes t)"

definition store_success ::
  "env \<Rightarrow> vpn_key \<Rightarrow> traffic_stats option \<Rightarrow> int option \<Rightarrow> int option \<Rightarrow> string \<Rightarrow> traffic_stats traffic_op" where
  "store_success e k previous raw_down raw_up source =
     (let (down, stored_raw_down) = next_total_for_direction (stored_down previous)
            (Option.bind previous ts_last_raw_downloaded_bytes) raw_down;
          (up, stored_raw_up) = next_total_for_direction (stored_up previous)
            (Option.bind previous ts_last_raw_uploaded_bytes) raw_up
      in upsert_success e (vk_id k) down up stored_raw_down stored_raw_up source
           (Some \<lparr>hd_protocol = vpn_key_type_value (vk_key_type k), hd_downloaded_bytes = down - stored_down previous,
                  hd_uploaded_bytes = up - stored_up previous\<rparr>))"

section \<open>One refresh\<close>

record traffic_backends =
  tb_awg :: "string + (string, int \<times> int) dict"
  tb_xray :: "string + (string, int) dict"
  tb_hysteria :: "(string + (string, int \<times> int) dict) option" \<comment> \<open>\<open>None\<close>: the interface is not configured\<close>

definition public_backend_stats_error :: string where
  "public_backend_stats_error = ''backend statistics unavailable''"

definition loaded :: "string + ('k, 'v) dict \<Rightarrow> ('k, 'v) dict \<times> string option" where
  "loaded answer = (case answer of Inl _ \<Rightarrow> ([], Some public_backend_stats_error) | Inr d \<Rightarrow> (d, None))"

definition any_of_type :: "vpn_key_type \<Rightarrow> vpn_key list \<Rightarrow> bool" where
  "any_of_type t ks \<longleftrightarrow> list_ex (\<lambda>k. vk_key_type k = t) ks"

definition load_awg_transfers :: "traffic_backends \<Rightarrow> vpn_key list \<Rightarrow> (string, int \<times> int) dict \<times> string option" where
  "load_awg_transfers b ks = (if any_of_type AWG ks then loaded (tb_awg b) else ([], None))"

definition load_xray_stats :: "traffic_backends \<Rightarrow> vpn_key list \<Rightarrow> (string, int) dict \<times> string option" where
  "load_xray_stats b ks = (if any_of_type XRAY ks then loaded (tb_xray b) else ([], None))"

definition load_hysteria_stats :: "traffic_backends \<Rightarrow> vpn_key list \<Rightarrow> (string, int \<times> int) dict \<times> string option" where
  "load_hysteria_stats b ks =
     (if \<not> any_of_type HYSTERIA2 ks then ([], None)
      else case tb_hysteria b of None \<Rightarrow> ([], Some public_backend_stats_error) | Some answer \<Rightarrow> loaded answer)"

text \<open>Python's truth of an optional text.\<close>

definition given :: "string option \<Rightarrow> string option" where
  "given t = (case t of Some s \<Rightarrow> if s = [] then None else Some s | None \<Rightarrow> None)"

definition refresh_awg_key ::
  "env \<Rightarrow> vpn_key \<Rightarrow> traffic_stats option \<Rightarrow> (string, int \<times> int) dict \<Rightarrow> string option \<Rightarrow> traffic_stats traffic_op" where
  "refresh_awg_key e k previous transfers load_error =
     (case load_error of Some reason \<Rightarrow> upsert_unavailable e (vk_id k) reason ''awg/wg transfer''
      | None \<Rightarrow> (case given (vk_public_key k) of
          None \<Rightarrow> upsert_unavailable e (vk_id k) ''AWG key has no public key'' ''awg/wg transfer''
        | Some pub \<Rightarrow> (case map_of transfers pub of
            None \<Rightarrow> upsert_unavailable e (vk_id k) ''AWG peer not in the transfer output'' ''awg/wg transfer''
          | Some (received, sent) \<Rightarrow> store_success e k previous (Some sent) (Some received) ''awg/wg transfer'')))"

definition refresh_xray_key ::
  "env \<Rightarrow> vpn_key \<Rightarrow> traffic_stats option \<Rightarrow> (string, int) dict \<Rightarrow> string option \<Rightarrow> traffic_stats traffic_op" where
  "refresh_xray_key e k previous raw_stats load_error =
     (case load_error of Some reason \<Rightarrow> upsert_unavailable e (vk_id k) reason ''xray statsquery''
      | None \<Rightarrow> (case given (vk_email_label k) of
          None \<Rightarrow> upsert_unavailable e (vk_id k) ''Xray key has no label'' ''xray statsquery''
        | Some label \<Rightarrow>
            (let raw_down = map_of raw_stats (''user>>>'' @ label @ ''>>>traffic>>>downlink'');
                 raw_up = map_of raw_stats (''user>>>'' @ label @ ''>>>traffic>>>uplink'')
             in if raw_down = None \<and> raw_up = None then touch_attempt e (vk_id k) ''xray statsquery''
                else store_success e k previous raw_down raw_up ''xray statsquery'')))"

definition refresh_hysteria_key ::
  "env \<Rightarrow> vpn_key \<Rightarrow> traffic_stats option \<Rightarrow> (string, int \<times> int) dict \<Rightarrow> string option \<Rightarrow> traffic_stats traffic_op" where
  "refresh_hysteria_key e k previous raw_stats load_error =
     (case load_error of Some reason \<Rightarrow> upsert_unavailable e (vk_id k) reason ''hysteria2 trafficStats''
      | None \<Rightarrow> (case given (vk_email_label k) of
          None \<Rightarrow> upsert_unavailable e (vk_id k) ''Hysteria2 key has no label'' ''hysteria2 trafficStats''
        | Some label \<Rightarrow> (case map_of raw_stats label of
            None \<Rightarrow> touch_attempt e (vk_id k) ''hysteria2 trafficStats''
          | Some (up, down) \<Rightarrow> store_success e k previous (Some down) (Some up) ''hysteria2 trafficStats'')))"

definition refresh_key :: "env \<Rightarrow> traffic_backends \<Rightarrow> vpn_key list \<Rightarrow> (int, traffic_stats) dict \<Rightarrow> vpn_key \<Rightarrow> traffic_stats traffic_op" where
  "refresh_key e b ks current k = (case vk_key_type k of
       AWG \<Rightarrow> (case load_awg_transfers b ks of (d, err) \<Rightarrow> refresh_awg_key e k (map_of current (vk_id k)) d err)
     | XRAY \<Rightarrow> (case load_xray_stats b ks of (d, err) \<Rightarrow> refresh_xray_key e k (map_of current (vk_id k)) d err)
     | HYSTERIA2 \<Rightarrow> (case load_hysteria_stats b ks of (d, err) \<Rightarrow> refresh_hysteria_key e k (map_of current (vk_id k)) d err))"

record traffic_view =
  tv_key :: vpn_key
  tv_owner :: "user option"
  tv_stats :: "traffic_stats option"

fun refresh_each ::
  "env \<Rightarrow> traffic_backends \<Rightarrow> vpn_key list \<Rightarrow> (int, user) dict \<Rightarrow> (int, traffic_stats) dict \<Rightarrow> vpn_key list
    \<Rightarrow> traffic_view list traffic_op" where
  "refresh_each e b all owners current [] = op_return []"
| "refresh_each e b all owners current (k # ks) =
     op_bind (refresh_key e b all current k) (\<lambda>t.
     op_bind (refresh_each e b all owners current ks) (\<lambda>views.
     op_return (\<lparr>tv_key = k, tv_owner = map_of owners (vk_owner_user_id k), tv_stats = Some t\<rparr> # views)))"

definition refresh_views :: "env \<Rightarrow> traffic_backends \<Rightarrow> vpn_key list \<Rightarrow> traffic_view list traffic_op" where
  "refresh_views e b ks =
     op_bind (op_get (\<lambda>s. list_by_ids (sort (remdups (map vk_owner_user_id ks))) (tf_db s))) (\<lambda>owners.
     op_bind (op_get (\<lambda>s. stats_by_key_ids (map vk_id ks) (tf_db s))) (\<lambda>current.
     op_transaction (refresh_each e b ks owners current ks)))"

section \<open>The service\<close>

definition refresh_for_actor :: "env \<Rightarrow> traffic_backends \<Rightarrow> int \<Rightarrow> int \<Rightarrow> traffic_view traffic_op" where
  "refresh_for_actor e b actor kid =
     op_bind (on_tf (require_approved_or_admin actor)) (\<lambda>a.
     op_bind (op_get (\<lambda>s. key_get_by_id kid (tf_db s))) (\<lambda>found.
     case found of None \<Rightarrow> op_raise (NotFound ''err_key_not_found'')
      | Some k \<Rightarrow>
          op_bind (op_guard (vk_status k \<noteq> KeyDeleted) (NotFound ''err_key_not_found'')) (\<lambda>_.
          op_bind (op_guard (u_role a = SUPERADMIN \<or> vk_owner_user_id k = actor) (AccessDenied ''err_foreign_stats_view'')) (\<lambda>_.
          op_bind (refresh_views e b [k]) (\<lambda>views.
          case views of [] \<Rightarrow> op_raise (NotFound ''err_key_not_found'') | v # _ \<Rightarrow> op_return v)))))"

definition count_for_superadmin :: "int \<Rightarrow> int traffic_op" where
  "count_for_superadmin actor =
     op_bind (on_tf (require_superadmin actor)) (\<lambda>_. op_get (\<lambda>s. count_traffic_supported (tf_db s)))"

definition list_for_superadmin :: "env \<Rightarrow> traffic_backends \<Rightarrow> int \<Rightarrow> int \<Rightarrow> int \<Rightarrow> traffic_view list traffic_op" where
  "list_for_superadmin e b actor limit offset =
     op_bind (on_tf (require_superadmin actor)) (\<lambda>_.
     op_bind (op_get (\<lambda>s. list_traffic_supported limit offset (tf_db s))) (\<lambda>ks.
     refresh_views e b ks))"

text \<open>The statuses in which the access may still exist on the backend.\<close>

definition counted_statuses :: "vpn_key_status list" where
  "counted_statuses = [KeyActive, KeyPendingRevoke, KeyApplyFailed, KeyPendingDelete, KeyDeleteFailed]"

text \<open>
  The loops over pages of 200 keys, each read above the last number of the page before; \<open>None\<close>
  when the fuel runs out. The AmneziaWG tool is asked once per page, the other two interfaces once
  for the keys of all pages.
\<close>

fun refresh_awg_pages :: "nat \<Rightarrow> env \<Rightarrow> (nat \<Rightarrow> traffic_backends) \<Rightarrow> int option \<Rightarrow> unit option traffic_op" where
  "refresh_awg_pages 0 e bs after_id = op_return None"
| "refresh_awg_pages (Suc fuel) e bs after_id =
     op_bind (op_get (\<lambda>s. list_by_type_statuses AWG counted_statuses 200 0 after_id (tf_db s))) (\<lambda>batch.
     if batch = [] then op_return (Some ())
     else op_bind (refresh_views e (bs fuel) batch) (\<lambda>_.
          refresh_awg_pages fuel e bs (Some (vk_id (last batch)))))"

definition refresh_all_awg :: "nat \<Rightarrow> env \<Rightarrow> (nat \<Rightarrow> traffic_backends) \<Rightarrow> unit option traffic_op" where
  "refresh_all_awg fuel e bs = refresh_awg_pages fuel e bs None"

fun collect_pages :: "nat \<Rightarrow> vpn_key_type \<Rightarrow> int option \<Rightarrow> world \<Rightarrow> vpn_key list option" where
  "collect_pages 0 t after_id w = None"
| "collect_pages (Suc fuel) t after_id w =
     (let batch = list_by_type_statuses t counted_statuses 200 0 after_id w
      in if batch = [] then Some []
         else map_option (\<lambda>rest. batch @ rest) (collect_pages fuel t (Some (vk_id (last batch))) w))"

definition refresh_collected :: "nat \<Rightarrow> vpn_key_type \<Rightarrow> env \<Rightarrow> traffic_backends \<Rightarrow> unit option traffic_op" where
  "refresh_collected fuel t e b =
     op_bind (op_get (\<lambda>s. collect_pages fuel t None (tf_db s))) (\<lambda>found.
     case found of None \<Rightarrow> op_return None
      | Some ks \<Rightarrow> if ks = [] then op_return (Some ())
          else op_bind (refresh_views e b ks) (\<lambda>_. op_return (Some ())))"

definition refresh_all_xray :: "nat \<Rightarrow> env \<Rightarrow> traffic_backends \<Rightarrow> unit option traffic_op" where
  "refresh_all_xray fuel e b = refresh_collected fuel XRAY e b"

definition refresh_all_hysteria :: "nat \<Rightarrow> env \<Rightarrow> traffic_backends \<Rightarrow> unit option traffic_op" where
  "refresh_all_hysteria fuel e b =
     (if tb_hysteria b = None then op_return (Some ()) else refresh_collected fuel HYSTERIA2 e b)"

text \<open>The hour is claimed before the deletion and given back when it fails.\<close>

definition prune_hourly_history :: "env \<Rightarrow> bool \<Rightarrow> int traffic_op" where
  "prune_hourly_history e commits =
     (case hour_utc_from_iso e (ev_now e) of Inl err \<Rightarrow> op_raise err
      | Inr current_hour \<Rightarrow>
          op_bind (op_get tf_pruned_hour) (\<lambda>pruned.
          if pruned = Some current_hour then op_return 0
          else op_bind (op_modify (\<lambda>s. s\<lparr>tf_pruned_hour := Some current_hour\<rparr>)) (\<lambda>_.
               op_try (prune_hourly commits current_hour traffic_hourly_retention_days) (\<lambda>err.
               op_bind (op_modify (\<lambda>s. s\<lparr>tf_pruned_hour := None\<rparr>)) (\<lambda>_. op_raise err)))))"

definition cached_for_keys :: "vpn_key list \<Rightarrow> (int, traffic_stats) dict traffic_op" where
  "cached_for_keys ks = op_get (\<lambda>s. stats_by_key_ids (map vk_id ks) (tf_db s))"

end
