(* ===== verification/Traffic_Totals.thy ===== *)
theory Traffic_Totals
  imports Traffic_Stats
begin

text \<open>
  What the traffic statistics guarantee: the lifetime totals never fall and never exceed what the
  backends carried, the hourly history grows by exactly what the totals grow, and a failed or
  silent backend changes neither. A command of \<open>traffic_cmd\<close> is one operation of the service.
\<close>

section \<open>Totals and history\<close>

abbreviation stats_of :: "int \<Rightarrow> traffic_state \<Rightarrow> traffic_stats option" where
  "stats_of kid s \<equiv> stats_by_key_id kid (tf_db s)"

abbreviation total_down :: "int \<Rightarrow> traffic_state \<Rightarrow> int" where
  "total_down kid s \<equiv> stored_down (stats_of kid s)"

abbreviation total_up :: "int \<Rightarrow> traffic_state \<Rightarrow> int" where
  "total_up kid s \<equiv> stored_up (stats_of kid s)"

definition history_down :: "int \<Rightarrow> traffic_state \<Rightarrow> int" where
  "history_down kid s = sum_list (map hb_downloaded_bytes (filter (\<lambda>b. hb_key_id b = kid) (tf_hourly s)))"

definition history_up :: "int \<Rightarrow> traffic_state \<Rightarrow> int" where
  "history_up kid s = sum_list (map hb_uploaded_bytes (filter (\<lambda>b. hb_key_id b = kid) (tf_hourly s)))"

definition raw_ok :: "int option \<Rightarrow> bool" where
  "raw_ok r \<longleftrightarrow> (case r of None \<Rightarrow> True | Some x \<Rightarrow> 0 \<le> x)"

definition stats_ok :: "traffic_stats option \<Rightarrow> bool" where
  "stats_ok p \<longleftrightarrow> (case p of None \<Rightarrow> True | Some t \<Rightarrow> 0 \<le> ts_downloaded_bytes t \<and> 0 \<le> ts_uploaded_bytes t
     \<and> raw_ok (ts_last_raw_downloaded_bytes t) \<and> raw_ok (ts_last_raw_uploaded_bytes t))"

text \<open>The primary key of a bucket.\<close>

definition bucket_key :: "hourly_bucket \<Rightarrow> int \<times> int \<times> string" where
  "bucket_key b = (hb_hour_utc b, hb_key_id b, hb_protocol b)"

definition traffic_ok :: "traffic_state \<Rightarrow> bool" where
  "traffic_ok s \<longleftrightarrow> keys_ok (tf_db s) \<and> (\<forall>kid. stats_ok (stats_of kid s))
     \<and> distinct (map bucket_key (tf_hourly s))"

definition booked :: "traffic_state \<Rightarrow> traffic_state \<Rightarrow> bool" where
  "booked s s' \<longleftrightarrow> db_vpn_keys (tf_db s') = db_vpn_keys (tf_db s) \<and> (\<forall>kid. total_down kid s \<le> total_down kid s' \<and> total_up kid s \<le> total_up kid s'
     \<and> history_down kid s' - history_down kid s = total_down kid s' - total_down kid s
     \<and> history_up kid s' - history_up kid s = total_up kid s' - total_up kid s)"

lemma booked_refl [simp]: "booked s s"
  by (simp add: booked_def)

lemma booked_trans: "booked s t \<Longrightarrow> booked t u \<Longrightarrow> booked s u"
  unfolding booked_def
proof (intro conjI allI; elim conjE)
  fix kid
  assume a: "\<forall>kid. total_down kid s \<le> total_down kid t \<and> total_up kid s \<le> total_up kid t
       \<and> history_down kid t - history_down kid s = total_down kid t - total_down kid s
       \<and> history_up kid t - history_up kid s = total_up kid t - total_up kid s"
    and b: "\<forall>kid. total_down kid t \<le> total_down kid u \<and> total_up kid t \<le> total_up kid u
       \<and> history_down kid u - history_down kid t = total_down kid u - total_down kid t
       \<and> history_up kid u - history_up kid t = total_up kid u - total_up kid t"
  from spec [OF a, of kid] spec [OF b, of kid]
  show "total_down kid s \<le> total_down kid u" "total_up kid s \<le> total_up kid u"
    "history_down kid u - history_down kid s = total_down kid u - total_down kid s"
    "history_up kid u - history_up kid s = total_up kid u - total_up kid s"
    by linarith+
qed simp

section \<open>The writes\<close>

lemma on_tf_run: "on_tf m s = (r, s') \<longleftrightarrow> (\<exists>w. m (tf_db s) = (r, w) \<and> s' = s\<lparr>tf_db := w\<rparr>)"
  by (auto simp: on_tf_def split: prod.splits)

lemma put_stats_run:
  assumes "put_stats kid fresh upd w = (Inr u, w')" "ts_key_id fresh = kid" "\<And>t. ts_key_id t = kid \<Longrightarrow> ts_key_id (upd t) = kid"
  shows "stats_by_key_id j w' = (if j = kid
      then Some (case stats_by_key_id kid w of None \<Rightarrow> fresh | Some t \<Rightarrow> upd t) else stats_by_key_id j w)"
    and "\<exists>ts. w' = w\<lparr>db_traffic_stats := ts\<rparr>"
proof -
  have upd: "find (\<lambda>t. ts_key_id t = j) (update_where (\<lambda>t. ts_key_id t = kid) upd ts)
      = map_option (\<lambda>x. if ts_key_id x = kid then upd x else x) (find (\<lambda>t. ts_key_id t = j) ts)" for j ts
    using assms(3) by (induction ts) (auto simp: update_where_def)
  have key: "stats_by_key_id j w = Some t \<Longrightarrow> ts_key_id t = j" for j t
    by (auto simp: stats_by_key_id_def dest: find_Some_in)
  have app: "find P (xs @ [x]) = (case find P xs of None \<Rightarrow> if P x then Some x else None | Some y \<Rightarrow> Some y)" for P xs and x :: traffic_stats
    by (induction xs) auto
  show "stats_by_key_id j w' = (if j = kid
      then Some (case stats_by_key_id kid w of None \<Rightarrow> fresh | Some t \<Rightarrow> upd t) else stats_by_key_id j w)"
  proof (cases "stats_by_key_id kid w")
    case None
    then have "w' = w\<lparr>db_traffic_stats := db_traffic_stats w @ [fresh]\<rparr>"
      using assms(1) by (auto simp: put_stats_def op_simps split: if_splits)
    then show ?thesis using None assms(2) by (auto simp: stats_by_key_id_def app split: option.splits)
  next
    case (Some t)
    then have "w' = w\<lparr>db_traffic_stats := update_where (\<lambda>t. ts_key_id t = kid) upd (db_traffic_stats w)\<rparr>"
      using assms(1) by (auto simp: put_stats_def op_simps split: if_splits)
    then have "stats_by_key_id j w' = map_option (\<lambda>x. if ts_key_id x = kid then upd x else x) (stats_by_key_id j w)"
      by (simp add: stats_by_key_id_def upd)
    then show ?thesis using Some key by (cases "stats_by_key_id j w") auto
  qed
  show "\<exists>ts. w' = w\<lparr>db_traffic_stats := ts\<rparr>"
    using assms(1) by (auto simp: put_stats_def op_simps split: if_splits)
qed

text \<open>Adding to a bucket adds once.\<close>

lemma bucket_is_key: "bucket_is hour kid protocol b \<longleftrightarrow> bucket_key b = (hour, kid, protocol)"
  by (auto simp: bucket_is_def bucket_key_def)

lemma sum_update_key:
  fixes f :: "hourly_bucket \<Rightarrow> int"
  assumes "distinct (map bucket_key bs)" "list_ex (\<lambda>b. bucket_key b = x) bs"
    "\<And>b. bucket_key (g b) = bucket_key b" "\<And>b. f (g b) = f b + d"
  shows "sum_list (map f (filter (\<lambda>b. hb_key_id b = j) (update_where (\<lambda>b. bucket_key b = x) g bs)))
    = sum_list (map f (filter (\<lambda>b. hb_key_id b = j) bs)) + (if j = fst (snd x) then d else 0)"
  using assms(1,2)
proof (induction bs)
  case Nil
  then show ?case by simp
next
  case (Cons b bs)
  have kid: "hb_key_id (g c) = hb_key_id c" for c using assms(3) [of c] by (simp add: bucket_key_def)
  show ?case
  proof (cases "bucket_key b = x")
    case True
    then have "update_where (\<lambda>b. bucket_key b = x) g bs = bs"
      using distinct_keyD [OF Cons.prems(1)] by (intro update_where_none) (auto simp: filter_empty_conv)
    with True show ?thesis by (auto simp: update_where_def kid assms(4) bucket_key_def)
  next
    case False
    with Cons show ?thesis by (auto simp: update_where_def)
  qed
qed

lemma add_hourly_bookings:
  assumes "distinct (map bucket_key bs)"
  shows "distinct (map bucket_key (add_hourly hour kid protocol down up bs))"
    and "sum_list (map hb_downloaded_bytes (filter (\<lambda>b. hb_key_id b = j) (add_hourly hour kid protocol down up bs)))
      = sum_list (map hb_downloaded_bytes (filter (\<lambda>b. hb_key_id b = j) bs)) + (if j = kid then down else 0)"
    and "sum_list (map hb_uploaded_bytes (filter (\<lambda>b. hb_key_id b = j) (add_hourly hour kid protocol down up bs)))
      = sum_list (map hb_uploaded_bytes (filter (\<lambda>b. hb_key_id b = j) bs)) + (if j = kid then up else 0)"
proof -
  let ?g = "\<lambda>b. b\<lparr>hb_downloaded_bytes := hb_downloaded_bytes b + down, hb_uploaded_bytes := hb_uploaded_bytes b + up\<rparr>"
  have g: "bucket_key (?g b) = bucket_key b" for b by (simp add: bucket_key_def)
  have ex: "list_ex (bucket_is hour kid protocol) bs \<longleftrightarrow> list_ex (\<lambda>b. bucket_key b = (hour, kid, protocol)) bs"
    by (simp add: bucket_is_key [abs_def])
  have upd: "update_where (bucket_is hour kid protocol) ?g bs = update_where (\<lambda>b. bucket_key b = (hour, kid, protocol)) ?g bs"
    by (simp add: bucket_is_key [abs_def])
  show "distinct (map bucket_key (add_hourly hour kid protocol down up bs))"
    using assms by (auto simp: add_hourly_def map_update_where g list_ex_iff bucket_is_key) (auto simp: bucket_key_def)
  show "sum_list (map hb_downloaded_bytes (filter (\<lambda>b. hb_key_id b = j) (add_hourly hour kid protocol down up bs)))
      = sum_list (map hb_downloaded_bytes (filter (\<lambda>b. hb_key_id b = j) bs)) + (if j = kid then down else 0)"
    using sum_update_key [OF assms, of "(hour, kid, protocol)" ?g hb_downloaded_bytes down j, OF _ g]
    by (auto simp: add_hourly_def ex upd)
  show "sum_list (map hb_uploaded_bytes (filter (\<lambda>b. hb_key_id b = j) (add_hourly hour kid protocol down up bs)))
      = sum_list (map hb_uploaded_bytes (filter (\<lambda>b. hb_key_id b = j) bs)) + (if j = kid then up else 0)"
    using sum_update_key [OF assms, of "(hour, kid, protocol)" ?g hb_uploaded_bytes up j, OF _ g]
    by (auto simp: add_hourly_def ex upd)
qed

text \<open>What one write of a key's row does: to the row, to the history, and to nothing else.\<close>

definition wrote :: "int \<Rightarrow> traffic_stats \<Rightarrow> int \<Rightarrow> int \<Rightarrow> traffic_state \<Rightarrow> traffic_state \<Rightarrow> bool" where
  "wrote kid row down up s s' \<longleftrightarrow>
     (\<forall>j. stats_of j s' = (if j = kid then Some row else stats_of j s))
     \<and> (\<exists>ts. tf_db s' = (tf_db s)\<lparr>db_traffic_stats := ts\<rparr>) \<and> tf_pruned_hour s' = tf_pruned_hour s
     \<and> (distinct (map bucket_key (tf_hourly s)) \<longrightarrow> distinct (map bucket_key (tf_hourly s'))
        \<and> (\<forall>j. history_down j s' = history_down j s + (if j = kid then down else 0)
             \<and> history_up j s' = history_up j s + (if j = kid then up else 0)))"

lemma stats_key: "stats_by_key_id j w = Some t \<Longrightarrow> ts_key_id t = j"
  by (auto simp: stats_by_key_id_def dest: find_Some_in)

lemma touch_attempt_run:
  assumes "touch_attempt e kid source s = (Inr t, s')"
  shows "wrote kid t 0 0 s s'
    \<and> t = (case stats_of kid s of None \<Rightarrow> zero_row kid (ev_now e) True None source
         | Some t \<Rightarrow> t\<lparr>ts_last_attempt_at := Some (ev_now e)\<rparr>)"
proof -
  obtain w u where w: "put_stats kid (zero_row kid (ev_now e) True None source)
      (\<lambda>t. t\<lparr>ts_last_attempt_at := Some (ev_now e)\<rparr>) (tf_db s) = (Inr u, w)" "s' = s\<lparr>tf_db := w\<rparr>" "stats_by_key_id kid w = Some t"
    using assms by (auto simp: touch_attempt_def stored_stats_def op_bind_Inr on_tf_run op_get_run op_raise_run op_return_run split: option.splits)
  from put_stats_run [OF w(1)] w(2,3) show ?thesis
    by (auto simp: wrote_def zero_row_def history_down_def history_up_def split: option.splits)
qed

lemma upsert_unavailable_run:
  assumes "upsert_unavailable e kid reason source s = (Inr t, s')"
  shows "wrote kid t 0 0 s s'
    \<and> t = (case stats_of kid s of None \<Rightarrow> zero_row kid (ev_now e) False (Some (take 512 reason)) source
         | Some t \<Rightarrow> t\<lparr>ts_last_attempt_at := Some (ev_now e), ts_available := False,
               ts_unavailable_reason := Some (take 512 reason), ts_source := Some source\<rparr>)"
proof -
  obtain w u where w: "put_stats kid (zero_row kid (ev_now e) False (Some (take 512 reason)) source)
      (\<lambda>t. t\<lparr>ts_last_attempt_at := Some (ev_now e), ts_available := False,
               ts_unavailable_reason := Some (take 512 reason), ts_source := Some source\<rparr>) (tf_db s) = (Inr u, w)"
      "s' = s\<lparr>tf_db := w\<rparr>" "stats_by_key_id kid w = Some t"
    using assms by (auto simp: upsert_unavailable_def stored_stats_def op_bind_Inr on_tf_run op_get_run op_raise_run op_return_run split: option.splits)
  from put_stats_run [OF w(1)] w(2,3) show ?thesis
    by (auto simp: wrote_def zero_row_def history_down_def history_up_def split: option.splits)
qed

lemma upsert_success_run:
  assumes "upsert_success e kid down up raw_down raw_up source (Some d) s = (Inr t, s')"
  shows "t = success_row kid down up raw_down raw_up (ev_now e) source
    \<and> wrote kid t (max (hd_downloaded_bytes d) 0) (max (hd_uploaded_bytes d) 0) s s'"
proof -
  let ?row = "success_row kid down up raw_down raw_up (ev_now e) source"
  obtain w u where w: "put_stats kid ?row (\<lambda>_. ?row) (tf_db s) = (Inr u, w)"
    and t: "t = ?row" and s': "(hd_downloaded_bytes d \<le> 0 \<and> hd_uploaded_bytes d \<le> 0 \<and> s' = s\<lparr>tf_db := w\<rparr>)
      \<or> (\<exists>hour. s' = s\<lparr>tf_db := w, tf_hourly := add_hourly hour kid (hd_protocol d)
          (max (hd_downloaded_bytes d) 0) (max (hd_uploaded_bytes d) 0) (tf_hourly s)\<rparr>)"
    using assms by (auto simp: upsert_success_def Let_def op_bind_Inr on_tf_run op_return_run op_raise_run op_modify_run split: if_splits sum.splits) blast+
  from put_stats_run [OF w(1)] s' show ?thesis
    by (auto simp: t wrote_def success_row_def history_down_def history_up_def add_hourly_bookings split: option.splits)
qed

section \<open>One key\<close>

lemma next_total_grows:
  assumes "0 \<le> n" "raw_ok raw" "next_total_for_direction n raw current = (n', raw')"
  shows "n \<le> n'" "raw_ok raw'"
  using assms by (auto simp: next_total_for_direction_def next_total_def raw_ok_def Let_def split: option.splits if_splits)

definition advances :: "int \<Rightarrow> traffic_stats \<Rightarrow> traffic_state \<Rightarrow> traffic_state \<Rightarrow> bool" where
  "advances kid t s s' \<longleftrightarrow> (\<exists>down up. 0 \<le> down \<and> 0 \<le> up \<and> wrote kid t down up s s' \<and> stats_ok (Some t)
     \<and> ts_downloaded_bytes t = total_down kid s + down \<and> ts_uploaded_bytes t = total_up kid s + up)"

lemma advances_still:
  assumes "wrote kid t 0 0 s s'" "stats_ok (stats_of kid s)"
    "t = (case stats_of kid s of None \<Rightarrow> zero_row kid now available reason source | Some p \<Rightarrow> f p)"
    "\<And>p. ts_downloaded_bytes (f p) = ts_downloaded_bytes p \<and> ts_uploaded_bytes (f p) = ts_uploaded_bytes p
      \<and> ts_last_raw_downloaded_bytes (f p) = ts_last_raw_downloaded_bytes p \<and> ts_last_raw_uploaded_bytes (f p) = ts_last_raw_uploaded_bytes p"
  shows "advances kid t s s'"
  unfolding advances_def using assms
  by (intro exI [of _ 0]) (auto simp: stats_ok_def stored_down_def stored_up_def zero_row_def raw_ok_def split: option.splits)

lemma unavailable_advances:
  assumes "upsert_unavailable e kid reason source s = (Inr t, s')" "stats_ok (stats_of kid s)"
  shows "advances kid t s s'"
  using advances_still [OF conjunct1 [OF upsert_unavailable_run [OF assms(1)]] assms(2) conjunct2 [OF upsert_unavailable_run [OF assms(1)]]] by simp

lemma touch_advances:
  assumes "touch_attempt e kid source s = (Inr t, s')" "stats_ok (stats_of kid s)"
  shows "advances kid t s s'"
  using advances_still [OF conjunct1 [OF touch_attempt_run [OF assms(1)]] assms(2) conjunct2 [OF touch_attempt_run [OF assms(1)]]] by simp

lemma success_advances:
  assumes run: "store_success e k (stats_of (vk_id k) s) raw_down raw_up source s = (Inr t, s')"
    and ok: "stats_ok (stats_of (vk_id k) s)"
  shows "advances (vk_id k) t s s'"
proof -
  let ?p = "stats_of (vk_id k) s"
  obtain down rd where d: "next_total_for_direction (stored_down ?p) (Option.bind ?p ts_last_raw_downloaded_bytes) raw_down = (down, rd)"
    by force
  obtain up ru where u: "next_total_for_direction (stored_up ?p) (Option.bind ?p ts_last_raw_uploaded_bytes) raw_up = (up, ru)"
    by force
  have p: "0 \<le> stored_down ?p" "0 \<le> stored_up ?p" "raw_ok (Option.bind ?p ts_last_raw_downloaded_bytes)"
    "raw_ok (Option.bind ?p ts_last_raw_uploaded_bytes)"
    using ok by (auto simp: stats_ok_def stored_down_def stored_up_def raw_ok_def split: option.splits)
  note grows = next_total_grows [OF p(1,3) d] next_total_grows [OF p(2,4) u]
  from run d u have "upsert_success e (vk_id k) down up rd ru source (Some \<lparr>hd_protocol = vpn_key_type_value (vk_key_type k),
      hd_downloaded_bytes = down - stored_down ?p, hd_uploaded_bytes = up - stored_up ?p\<rparr>) s = (Inr t, s')"
    by (simp add: store_success_def)
  from upsert_success_run [OF this] grows p(1,2) show ?thesis
    unfolding advances_def
    by (intro exI [of _ "down - stored_down ?p"] exI [of _ "up - stored_up ?p"])
      (auto simp: success_row_def stats_ok_def raw_ok_def clamp_raw_def split: option.splits)
qed

lemma refresh_key_advances:
  assumes run: "refresh_key e b ks current k s = (Inr t, s')"
    and ok: "stats_ok (stats_of (vk_id k) s)" and cur: "map_of current (vk_id k) = stats_of (vk_id k) s"
  shows "advances (vk_id k) t s s'"
proof (cases "vk_key_type k")
  case AWG
  with run cur show ?thesis
    by (auto simp: refresh_key_def refresh_awg_key_def split: prod.splits option.splits
        intro: unavailable_advances success_advances ok)
next
  case XRAY
  with run cur show ?thesis
    by (auto simp: refresh_key_def refresh_xray_key_def Let_def split: prod.splits option.splits if_splits
        intro: unavailable_advances success_advances touch_advances ok)
next
  case HYSTERIA2
  with run cur show ?thesis
    by (auto simp: refresh_key_def refresh_hysteria_key_def split: prod.splits option.splits
        intro: unavailable_advances success_advances touch_advances ok)
qed

lemma advances_books:
  assumes "advances kid t s s'" "traffic_ok s"
  shows "booked s s' \<and> traffic_ok s'"
proof -
  from assms(1) obtain down up where a: "0 \<le> down" "0 \<le> up" "wrote kid t down up s s'" "stats_ok (Some t)"
    "ts_downloaded_bytes t = total_down kid s + down" "ts_uploaded_bytes t = total_up kid s + up"
    by (auto simp: advances_def)
  then obtain ts where w: "tf_db s' = (tf_db s)\<lparr>db_traffic_stats := ts\<rparr>" by (auto simp: wrote_def)
  have "keys_ok (tf_db s')" using assms(2)
    unfolding w by (simp add: traffic_ok_def keys_ok_def key_seq_def max_key_id_def split: option.splits)
  with a assms(2) show ?thesis
    by (auto simp: booked_def wrote_def traffic_ok_def stored_down_def stored_up_def)
qed

section \<open>A refresh\<close>

lemma stats_by_key_ids_get: "kid \<in> set kids \<Longrightarrow> map_of (stats_by_key_ids kids w) kid = stats_by_key_id kid w"
proof -
  assume kid: "kid \<in> set kids"
  have "map_of (map (\<lambda>t. (ts_key_id t, t)) (filter (\<lambda>t. ts_key_id t \<in> set kids) ts)) kid = find (\<lambda>t. ts_key_id t = kid) ts" for ts
    using kid by (induction ts) auto
  then show ?thesis by (simp add: stats_by_key_ids_def stats_by_key_id_def)
qed

lemma advances_other: "advances kid t s s' \<Longrightarrow> j \<noteq> kid \<Longrightarrow> stats_of j s' = stats_of j s"
  by (auto simp: advances_def wrote_def)

lemma refresh_each_books:
  assumes "refresh_each e b all owners current ks s = (Inr views, s')" "traffic_ok s" "distinct (map vk_id ks)"
    "\<forall>k \<in> set ks. map_of current (vk_id k) = stats_of (vk_id k) s"
  shows "booked s s' \<and> traffic_ok s' \<and> map tv_key views = ks"
  using assms
proof (induction ks arbitrary: s views)
  case Nil
  then show ?case by (auto simp: op_return_run)
next
  case (Cons k ks)
  from Cons.prems(1) obtain t s1 rest where r: "refresh_key e b all current k s = (Inr t, s1)"
    "refresh_each e b all owners current ks s1 = (Inr rest, s')" "map tv_key views = k # map tv_key rest"
    by (auto simp: op_bind_Inr op_return_run)
  have "stats_ok (stats_of (vk_id k) s)" using Cons.prems(2) by (simp add: traffic_ok_def)
  then have a: "advances (vk_id k) t s s1" using refresh_key_advances [OF r(1)] Cons.prems(4) by simp
  have "\<forall>q \<in> set ks. map_of current (vk_id q) = stats_of (vk_id q) s1"
    using Cons.prems(3,4) advances_other [OF a] by (auto simp: image_iff)
  with Cons.IH [OF r(2)] advances_books [OF a Cons.prems(2)] Cons.prems(3) r(3) show ?case
    by (auto intro: booked_trans)
qed

lemma refresh_views_books:
  assumes "traffic_ok s" "distinct (map vk_id ks)"
  shows "booked s (snd (refresh_views e b ks s)) \<and> traffic_ok (snd (refresh_views e b ks s))"
proof -
  let ?owners = "list_by_ids (sort (remdups (map vk_owner_user_id ks))) (tf_db s)"
  let ?current = "stats_by_key_ids (map vk_id ks) (tf_db s)"
  have run: "refresh_views e b ks s = op_transaction (refresh_each e b ks ?owners ?current ks) s"
    by (simp add: refresh_views_def bind_pure)
  show ?thesis
  proof (cases "refresh_each e b ks ?owners ?current ks s")
    case (Pair r s')
    then show ?thesis
      using refresh_each_books [of e b ks ?owners ?current ks s _ s'] assms
      by (cases r) (auto simp: run op_transaction_def stats_by_key_ids_get)
  qed
qed

section \<open>The operations of the service\<close>

definition keeps_books :: "traffic_state \<Rightarrow> traffic_state \<Rightarrow> bool" where
  "keeps_books s s' \<longleftrightarrow> (traffic_ok s \<longrightarrow> booked s s' \<and> traffic_ok s')"

lemma keeps_books_trans: "keeps_books s t \<Longrightarrow> keeps_books t u \<Longrightarrow> keeps_books s u"
  by (auto simp: keeps_books_def intro: booked_trans)

lemma keeps_books_refl [simp]: "keeps_books s s"
  by (simp add: keeps_books_def)

lemma keeps_books_bind:
  "keeps_books s (snd (m s)) \<Longrightarrow> (\<And>x t. keeps_books t (snd (f x t))) \<Longrightarrow> keeps_books s (snd (op_bind m f s))"
  by (auto simp: snd_op_bind split: prod.splits sum.splits intro: keeps_books_trans)

lemma keeps_books_gate: "gate m \<Longrightarrow> keeps_books s (snd (m s))"
  by (simp add: gate_def)

lemma gate_on_tf: "gate m \<Longrightarrow> gate (on_tf m)"
  by (simp add: gate_def on_tf_def split_beta)

lemma gate_require: "gate (require_approved_or_admin actor)" "gate (require_superadmin actor)"
  by (auto simp: gate_def require_approved_or_admin_def require_superadmin_def get_user_def op_simps split: option.splits)

lemma mset_sort_desc: "mset (sort_desc f xs) = mset xs"
proof -
  have ins: "mset (insort_desc f x ys) = add_mset x (mset ys)" for x ys
    by (induction ys) (auto simp: ac_simps)
  show ?thesis by (induction xs) (auto simp: sort_desc_def ins)
qed

lemma distinct_page: "distinct (map f xs) \<Longrightarrow> distinct (map f (page limit offset xs))"
  by (simp add: page_def take_map [symmetric] drop_map [symmetric])

lemma distinct_listed:
  assumes "keys_ok w"
  shows "distinct (map vk_id (list_traffic_supported limit offset w))"
    "distinct (map vk_id (list_by_type_statuses t statuses limit offset after_id w))"
proof -
  have d: "distinct (map vk_id (filter P (db_vpn_keys w)))" for P
    using assms by (simp add: keys_ok_def keys_unique_def distinct_map_filter)
  have "mset (map vk_id (sort_desc vk_created_at xs)) = mset (map vk_id xs)" for xs :: "vpn_key list"
    by (simp add: mset_sort_desc)
  then have "distinct (map vk_id (sort_desc vk_created_at xs)) = distinct (map vk_id xs)" for xs :: "vpn_key list"
    by (metis mset_eq_imp_distinct_iff)
  with d show "distinct (map vk_id (list_traffic_supported limit offset w))"
    unfolding list_traffic_supported_def keys_newest_first_def by (intro distinct_page) simp
  have "mset (map vk_id (sort_key vk_id xs)) = mset (map vk_id xs)" for xs :: "vpn_key list" by simp
  then have "distinct (map vk_id (sort_key vk_id xs)) = distinct (map vk_id xs)" for xs :: "vpn_key list"
    by (metis mset_eq_imp_distinct_iff)
  with d show "distinct (map vk_id (list_by_type_statuses t statuses limit offset after_id w))"
    unfolding list_by_type_statuses_def by (intro distinct_page) simp
qed

lemma sorted_below_last:
  assumes "sorted (map f xs)" "x \<in> set xs"
  shows "f x \<le> f (last xs)"
  using assms by (induction xs) (auto simp: sorted_append)

lemma collect_pages_above:
  assumes "keys_ok w" "collect_pages fuel t after_id w = Some ks"
  shows "distinct (map vk_id ks) \<and> (\<forall>k \<in> set ks. case after_id of None \<Rightarrow> True | Some a \<Rightarrow> a < vk_id k)"
  using assms(2)
proof (induction fuel arbitrary: after_id ks)
  case 0
  then show ?case by simp
next
  case (Suc fuel)
  let ?batch = "list_by_type_statuses t counted_statuses 200 0 after_id w"
  show ?case
  proof (cases "?batch = []")
    case True
    with Suc.prems show ?thesis by simp
  next
    case False
    with Suc.prems obtain rest where rest: "collect_pages fuel t (Some (vk_id (last ?batch))) w = Some rest" "ks = ?batch @ rest"
      by (auto simp: Let_def)
    have above: "\<forall>k \<in> set ?batch. case after_id of None \<Rightarrow> True | Some a \<Rightarrow> a < vk_id k"
      unfolding list_by_type_statuses_def using page_subset by (force split: option.splits)
    have "sorted (map vk_id ?batch)"
      by (simp add: list_by_type_statuses_def page_def take_map [symmetric] drop_map [symmetric] sorted_wrt_take sorted_wrt_drop)
    then have below: "vk_id k \<le> vk_id (last ?batch)" if "k \<in> set ?batch" for k
      using that by (simp add: sorted_below_last)
    have later: "distinct (map vk_id rest)" "\<And>k. k \<in> set rest \<Longrightarrow> vk_id (last ?batch) < vk_id k"
      using Suc.IH [OF rest(1)] by simp_all
    have "vk_id ` set ?batch \<inter> vk_id ` set rest = {}"
      using below later(2) by (fastforce dest: leD)
    with later(1) rest(2) distinct_listed(2) [OF assms(1)] have "distinct (map vk_id ks)" by simp
    moreover have "case after_id of None \<Rightarrow> True | Some a \<Rightarrow> a < vk_id k" if "k \<in> set ks" for k
      using that rest(2) above later(2) last_in_set [OF False] by (auto split: option.splits dest: less_trans)
    ultimately show ?thesis by blast
  qed
qed

lemma keeps_books_refresh: "keys_ok (tf_db s) \<Longrightarrow> distinct (map vk_id ks) \<Longrightarrow> keeps_books s (snd (refresh_views e b ks s))"
  by (simp add: keeps_books_def refresh_views_books)

lemma keeps_booksI: "(traffic_ok s \<Longrightarrow> keeps_books s s') \<Longrightarrow> keeps_books s s'"
  by (simp add: keeps_books_def)

lemma keeps_books_return [simp]: "keeps_books s (snd (op_return x s))" "keeps_books s (snd (op_raise y s))"
  "keeps_books s (snd (op_guard c y s))" "keeps_books s (snd (op_get f s))"
  by (simp_all add: op_simps)

lemma keeps_books_actor: "keeps_books s (snd (refresh_for_actor e b actor kid s))"
  unfolding refresh_for_actor_def
  by (rule keeps_books_bind [OF keeps_books_gate [OF gate_on_tf [OF gate_require(1)]]])
    (auto simp: bind_pure intro!: keeps_books_bind keeps_booksI [OF keeps_books_refresh] split: option.split list.split
      simp: traffic_ok_def)

lemma keeps_books_listed: "keeps_books s (snd (list_for_superadmin e b actor limit offset s))"
  unfolding list_for_superadmin_def
  by (rule keeps_books_bind [OF keeps_books_gate [OF gate_on_tf [OF gate_require(2)]]])
    (auto simp: bind_pure traffic_ok_def distinct_listed intro!: keeps_booksI [OF keeps_books_refresh])

lemma keeps_books_awg_pages: "keeps_books s (snd (refresh_awg_pages fuel e bs after_id s))"
proof (induction fuel arbitrary: after_id s)
  case 0
  then show ?case by simp
next
  case (Suc fuel)
  then show ?case
    by (auto simp: bind_pure traffic_ok_def distinct_listed intro!: keeps_books_bind keeps_booksI [OF keeps_books_refresh])
qed

lemma keeps_books_collected: "keeps_books s (snd (refresh_collected fuel t e b s))"
  unfolding refresh_collected_def
  by (auto simp: bind_pure traffic_ok_def collect_pages_above split: option.split
      intro!: keeps_books_bind keeps_booksI [OF keeps_books_refresh] dest: collect_pages_above)

section \<open>The loops over pages end\<close>

definition keys_beyond :: "int option \<Rightarrow> world \<Rightarrow> nat" where
  "keys_beyond after_id w = length (filter (\<lambda>k. case after_id of None \<Rightarrow> True | Some a \<Rightarrow> a < vk_id k) (db_vpn_keys w))"

lemma page_goes_on:
  assumes "list_by_type_statuses t statuses limit offset after_id w \<noteq> []"
  shows "keys_beyond (Some (vk_id (last (list_by_type_statuses t statuses limit offset after_id w)))) w < keys_beyond after_id w"
proof -
  let ?from = "\<lambda>k. case after_id of None \<Rightarrow> True | Some a \<Rightarrow> a < vk_id k"
  obtain k where k: "k = last (list_by_type_statuses t statuses limit offset after_id w)" "k \<in> set (db_vpn_keys w)" "?from k"
    using last_in_set [OF assms] page_subset unfolding list_by_type_statuses_def by fastforce
  have "filter (\<lambda>x. vk_id k < vk_id x) (db_vpn_keys w) = filter (\<lambda>x. vk_id k < vk_id x) (filter ?from (db_vpn_keys w))"
    unfolding filter_filter by (rule filter_cong) (use k(3) in \<open>auto split: option.splits\<close>)
  also have "length \<dots> < length (filter ?from (db_vpn_keys w))"
    by (rule length_filter_less [of k]) (use k in auto)
  finally show ?thesis by (simp add: keys_beyond_def k(1))
qed

lemma collect_pages_ends: "keys_beyond after_id w < fuel \<Longrightarrow> collect_pages fuel t after_id w \<noteq> None"
proof (induction fuel arbitrary: after_id)
  case 0
  then show ?case by simp
next
  case (Suc fuel)
  let ?batch = "list_by_type_statuses t counted_statuses 200 0 after_id w"
  show ?case
  proof (cases "?batch = []")
    case False
    with Suc.prems have "keys_beyond (Some (vk_id (last ?batch))) w < fuel"
      using page_goes_on [OF False] by linarith
    with Suc.IH show ?thesis by (simp add: Let_def)
  qed simp
qed

lemma awg_pages_end:
  assumes "traffic_ok s" "keys_beyond after_id (tf_db s) < fuel"
  shows "fst (refresh_awg_pages fuel e bs after_id s) \<noteq> Inr None"
  using assms
proof (induction fuel arbitrary: after_id s)
  case 0
  then show ?case by simp
next
  case (Suc fuel)
  let ?batch = "list_by_type_statuses AWG counted_statuses 200 0 after_id (tf_db s)"
  show ?case
  proof (cases "?batch = []")
    case True
    then show ?thesis by (simp add: bind_pure op_return_def)
  next
    case False
    obtain r s1 where read: "refresh_views e (bs fuel) ?batch s = (r, s1)" by force
    then have next_state: "booked s s1" "traffic_ok s1"
      using keeps_books_refresh [of s ?batch e "bs fuel"] Suc.prems(1) distinct_listed(2)
      by (auto simp: keeps_books_def traffic_ok_def)
    then have "keys_beyond (Some (vk_id (last ?batch))) (tf_db s1) < fuel"
      using page_goes_on [OF False] Suc.prems(2) by (simp add: keys_beyond_def booked_def)
    with Suc.IH [OF next_state(2)] read False show ?thesis
      by (cases r) (simp_all add: op_bind_def op_get_def)
  qed
qed

section \<open>Retention\<close>

lemma prune_run:
  "snd (prune_hourly_history e commits s) = s
   \<or> (\<exists>p. snd (prune_hourly_history e commits s) = s\<lparr>tf_pruned_hour := p\<rparr>)
   \<or> (\<exists>hour. hour_utc_from_iso e (ev_now e) = Inr hour \<and> snd (prune_hourly_history e commits s)
        = s\<lparr>tf_pruned_hour := Some hour, tf_hourly := filter (\<lambda>b. hour - 400 * 24 < hb_hour_utc b) (tf_hourly s)\<rparr>)"
  by (auto simp: prune_hourly_history_def prune_hourly_def op_simps traffic_hourly_retention_days_def not_le
      split: sum.splits if_splits)

lemma prune_totals:
  assumes "traffic_ok s"
  shows "traffic_ok (snd (prune_hourly_history e commits s)) \<and> tf_db (snd (prune_hourly_history e commits s)) = tf_db s"
  using prune_run [of e commits s] assms
  by (elim disjE exE conjE) (simp_all add: traffic_ok_def distinct_map_filter)

section \<open>Any sequence of operations\<close>

datatype traffic_cmd =
    RefreshKey traffic_backends int int
  | RefreshPage traffic_backends int int int
  | RefreshAwg nat "nat \<Rightarrow> traffic_backends"
  | RefreshXray nat traffic_backends
  | RefreshHysteria nat traffic_backends
  | PruneHistory bool

fun run_traffic :: "env \<times> traffic_cmd \<Rightarrow> traffic_state \<Rightarrow> traffic_state" where
  "run_traffic (e, RefreshKey b actor kid) s = snd (refresh_for_actor e b actor kid s)"
| "run_traffic (e, RefreshPage b actor limit offset) s = snd (list_for_superadmin e b actor limit offset s)"
| "run_traffic (e, RefreshAwg fuel bs) s = snd (refresh_all_awg fuel e bs s)"
| "run_traffic (e, RefreshXray fuel b) s = snd (refresh_all_xray fuel e b s)"
| "run_traffic (e, RefreshHysteria fuel b) s = snd (refresh_all_hysteria fuel e b s)"
| "run_traffic (e, PruneHistory commits) s = snd (prune_hourly_history e commits s)"

fun is_prune :: "env \<times> traffic_cmd \<Rightarrow> bool" where
  "is_prune (e, PruneHistory commits) = True"
| "is_prune (e, c) = False"

lemma run_books:
  assumes "\<not> is_prune c"
  shows "keeps_books s (run_traffic c s)"
  using assms
  by (cases c rule: is_prune.cases)
    (simp_all add: keeps_books_actor keeps_books_listed keeps_books_awg_pages keeps_books_collected
      refresh_all_awg_def refresh_all_xray_def refresh_all_hysteria_def)

lemma run_keeps:
  assumes "traffic_ok s"
  shows "traffic_ok (run_traffic c s) \<and> total_down kid s \<le> total_down kid (run_traffic c s)
    \<and> total_up kid s \<le> total_up kid (run_traffic c s)"
proof (cases "is_prune c")
  case True
  then obtain e commits where "c = (e, PruneHistory commits)" by (cases c rule: is_prune.cases) auto
  with prune_totals [OF assms] show ?thesis by simp
next
  case False
  from run_books [OF this, of s] assms show ?thesis by (simp add: keeps_books_def booked_def)
qed

text \<open>
  C28: whatever the backends answer, and in whatever order keys are refreshed one by one, by the
  page or by the pollers and the history is pruned, the lifetime totals of a key never fall; and
  as long as nothing is pruned, the hourly history of every key grows by exactly what its totals
  grow, in both directions, counter resets and failed polls included.
\<close>

theorem traffic_history_exact:
  assumes "traffic_ok s"
  shows "total_down kid s \<le> total_down kid (fold run_traffic cs s) \<and> total_up kid s \<le> total_up kid (fold run_traffic cs s)
    \<and> (list_all (\<lambda>c. \<not> is_prune c) cs \<longrightarrow>
         history_down kid (fold run_traffic cs s) - history_down kid s = total_down kid (fold run_traffic cs s) - total_down kid s
         \<and> history_up kid (fold run_traffic cs s) - history_up kid s = total_up kid (fold run_traffic cs s) - total_up kid s)"
  using assms
proof (induction cs arbitrary: s)
  case Nil
  then show ?case by simp
next
  case (Cons c cs)
  from run_keeps [OF Cons.prems, of c kid] have ok: "traffic_ok (run_traffic c s)"
    "total_down kid s \<le> total_down kid (run_traffic c s)" "total_up kid s \<le> total_up kid (run_traffic c s)" by simp_all
  have "\<not> is_prune c \<Longrightarrow> booked s (run_traffic c s)"
    using run_books [of c s] Cons.prems by (simp add: keeps_books_def)
  then have "\<not> is_prune c \<Longrightarrow>
      history_down kid (run_traffic c s) - history_down kid s = total_down kid (run_traffic c s) - total_down kid s
      \<and> history_up kid (run_traffic c s) - history_up kid s = total_up kid (run_traffic c s) - total_up kid s"
    by (simp add: booked_def)
  with Cons.IH [OF ok(1)] ok(2,3) show ?case by simp linarith
qed

end
