(* ===== verification/Traffic_Bounds.thy ===== *)
theory Traffic_Bounds
  imports Traffic_Totals
begin

text \<open>
  The totals against what the wire carried: a step relation in which a key carries bytes, its
  backend restarts and loses the counters, and polls of any set of keys happen in between, answered
  in full, in one direction, or not at all.
\<close>

section \<open>What a poll reads of a key\<close>

definition reported :: "traffic_backends \<Rightarrow> vpn_key \<Rightarrow> int option \<times> int option" where
  "reported b k = (case vk_key_type k of
       AWG \<Rightarrow> (case (tb_awg b, given (vk_public_key k)) of
           (Inr d, Some pub) \<Rightarrow> (map_option snd (map_of d pub), map_option fst (map_of d pub))
         | _ \<Rightarrow> (None, None))
     | XRAY \<Rightarrow> (case (tb_xray b, given (vk_email_label k)) of
           (Inr d, Some label) \<Rightarrow> (map_of d (''user>>>'' @ label @ ''>>>traffic>>>downlink''),
                                   map_of d (''user>>>'' @ label @ ''>>>traffic>>>uplink''))
         | _ \<Rightarrow> (None, None))
     | HYSTERIA2 \<Rightarrow> (case (tb_hysteria b, given (vk_email_label k)) of
           (Some (Inr d), Some label) \<Rightarrow> (map_option snd (map_of d label), map_option fst (map_of d label))
         | _ \<Rightarrow> (None, None)))"

abbreviation raw_down :: "traffic_stats option \<Rightarrow> int option" where
  "raw_down p \<equiv> Option.bind p ts_last_raw_downloaded_bytes"

abbreviation raw_up :: "traffic_stats option \<Rightarrow> int option" where
  "raw_up p \<equiv> Option.bind p ts_last_raw_uploaded_bytes"

text \<open>The row after a poll that read these two counters.\<close>

definition counted :: "traffic_stats option \<Rightarrow> int option \<times> int option \<Rightarrow> traffic_stats \<Rightarrow> bool" where
  "counted p raw t \<longleftrightarrow>
     (ts_downloaded_bytes t, ts_last_raw_downloaded_bytes t) = next_total_for_direction (stored_down p) (raw_down p) (fst raw)
     \<and> (ts_uploaded_bytes t, ts_last_raw_uploaded_bytes t) = next_total_for_direction (stored_up p) (raw_up p) (snd raw)"

lemma still_counted:
  assumes "t = (case p of None \<Rightarrow> zero_row kid now available reason source | Some p \<Rightarrow> f p)"
    "\<And>p. ts_downloaded_bytes (f p) = ts_downloaded_bytes p \<and> ts_uploaded_bytes (f p) = ts_uploaded_bytes p
      \<and> ts_last_raw_downloaded_bytes (f p) = ts_last_raw_downloaded_bytes p \<and> ts_last_raw_uploaded_bytes (f p) = ts_last_raw_uploaded_bytes p"
  shows "counted p (None, None) t"
  using assms by (cases p) (auto simp: counted_def next_total_for_direction_def stored_down_def stored_up_def zero_row_def)

lemma unavailable_counted:
  "upsert_unavailable e kid reason source s = (Inr t, s') \<Longrightarrow> counted (stats_of kid s) (None, None) t"
  by (drule upsert_unavailable_run, erule conjE, erule still_counted) simp

lemma touch_counted:
  "touch_attempt e kid source s = (Inr t, s') \<Longrightarrow> counted (stats_of kid s) (None, None) t"
  by (drule touch_attempt_run, erule conjE, erule still_counted) simp

lemma success_counted:
  assumes run: "store_success e k (stats_of (vk_id k) s) rd ru source s = (Inr t, s')"
    and ok: "stats_ok (stats_of (vk_id k) s)"
  shows "counted (stats_of (vk_id k) s) (rd, ru) t"
proof -
  let ?p = "stats_of (vk_id k) s"
  obtain down rd' where d: "next_total_for_direction (stored_down ?p) (raw_down ?p) rd = (down, rd')" by force
  obtain up ru' where u: "next_total_for_direction (stored_up ?p) (raw_up ?p) ru = (up, ru')" by force
  have p: "0 \<le> stored_down ?p" "0 \<le> stored_up ?p" "raw_ok (raw_down ?p)" "raw_ok (raw_up ?p)"
    using ok by (auto simp: stats_ok_def stored_down_def stored_up_def raw_ok_def split: option.splits)
  from next_total_grows [OF p(1,3) d] next_total_grows [OF p(2,4) u] p
  have "max down 0 = down" "max up 0 = up" "clamp_raw rd' = rd'" "clamp_raw ru' = ru'"
    by (auto simp: clamp_raw_def raw_ok_def split: option.splits)
  moreover from run d u have "upsert_success e (vk_id k) down up rd' ru' source (Some \<lparr>hd_protocol = vpn_key_type_value (vk_key_type k),
      hd_downloaded_bytes = down - stored_down ?p, hd_uploaded_bytes = up - stored_up ?p\<rparr>) s = (Inr t, s')"
    by (simp add: store_success_def)
  ultimately show ?thesis
    using d u by (auto dest!: upsert_success_run simp: counted_def success_row_def)
qed

lemma refresh_key_counted:
  assumes run: "refresh_key e b ks current k s = (Inr t, s')" and ok: "stats_ok (stats_of (vk_id k) s)"
    and cur: "map_of current (vk_id k) = stats_of (vk_id k) s" and "k \<in> set ks"
  shows "counted (stats_of (vk_id k) s) (reported b k) t"
proof (cases "vk_key_type k")
  case AWG
  then have "any_of_type AWG ks" using \<open>k \<in> set ks\<close> by (auto simp: any_of_type_def list_ex_iff)
  with run cur AWG show ?thesis
    by (auto simp: refresh_key_def refresh_awg_key_def reported_def load_awg_transfers_def loaded_def split: option.splits sum.splits
        intro: unavailable_counted success_counted ok)
next
  case XRAY
  then have "any_of_type XRAY ks" using \<open>k \<in> set ks\<close> by (auto simp: any_of_type_def list_ex_iff)
  with run cur XRAY show ?thesis
    by (auto simp: refresh_key_def refresh_xray_key_def reported_def load_xray_stats_def loaded_def Let_def split: option.splits sum.splits if_splits
        intro: unavailable_counted success_counted touch_counted ok)
next
  case HYSTERIA2
  then have "any_of_type HYSTERIA2 ks" using \<open>k \<in> set ks\<close> by (auto simp: any_of_type_def list_ex_iff)
  with run cur HYSTERIA2 show ?thesis
    by (auto simp: refresh_key_def refresh_hysteria_key_def reported_def load_hysteria_stats_def loaded_def split: option.splits sum.splits
        intro: unavailable_counted success_counted touch_counted ok)
qed

lemma refresh_each_others:
  assumes "refresh_each e b all owners current ks s = (Inr views, s')" "traffic_ok s" "distinct (map vk_id ks)"
    "\<forall>q \<in> set ks. map_of current (vk_id q) = stats_of (vk_id q) s"
  shows "(j \<notin> vk_id ` set ks \<longrightarrow> stats_of j s' = stats_of j s)
    \<and> (\<forall>k \<in> set ks. set ks \<subseteq> set all \<longrightarrow> (\<exists>t. stats_of (vk_id k) s' = Some t \<and> counted (stats_of (vk_id k) s) (reported b k) t))"
  using assms
proof (induction ks arbitrary: s views j)
  case Nil
  then show ?case by (simp add: op_return_run)
next
  case (Cons q ks)
  from Cons.prems(1) obtain t s1 rest where r: "refresh_key e b all current q s = (Inr t, s1)"
    "refresh_each e b all owners current ks s1 = (Inr rest, s')"
    by (auto simp: op_bind_Inr op_return_run)
  have sok: "stats_ok (stats_of (vk_id q) s)" using Cons.prems(2) by (simp add: traffic_ok_def)
  have cur: "map_of current (vk_id q) = stats_of (vk_id q) s" using Cons.prems(4) by simp
  note a = refresh_key_advances [OF r(1) sok cur]
  note same = advances_other [OF a]
  have cur1: "\<forall>x \<in> set ks. map_of current (vk_id x) = stats_of (vk_id x) s1"
    using Cons.prems(3,4) same by (auto simp: image_iff)
  have ok1: "traffic_ok s1" using advances_books [OF a Cons.prems(2)] by simp
  have d1: "distinct (map vk_id ks)" "vk_id q \<notin> vk_id ` set ks" using Cons.prems(3) by simp_all
  note IH = Cons.IH [OF r(2) ok1 d1(1) cur1]
  have "stats_of (vk_id q) s1 = Some t" using a by (auto simp: advances_def wrote_def)
  with IH [of "vk_id q"] d1(2) have head: "stats_of (vk_id q) s' = Some t" by simp
  have head_counted: "counted (stats_of (vk_id q) s) (reported b q) t" if "set (q # ks) \<subseteq> set all"
    using refresh_key_counted [OF r(1) sok cur] that by simp
  have tail: "\<exists>t. stats_of (vk_id k) s' = Some t \<and> counted (stats_of (vk_id k) s) (reported b k) t"
    if "k \<in> set ks" "set ks \<subseteq> set all" for k
  proof -
    have unchanged: "stats_of (vk_id k) s1 = stats_of (vk_id k) s" using same that(1) d1(2) by (metis imageI)
    from IH that have "\<exists>t. stats_of (vk_id k) s' = Some t \<and> counted (stats_of (vk_id k) s1) (reported b k) t" by blast
    with unchanged show ?thesis by simp
  qed
  show ?case
    using IH [of j] same [of j] head head_counted tail by auto
qed

lemma refresh_views_counted:
  assumes run: "refresh_views e b ks s = (r, s')" and ok: "traffic_ok s" "distinct (map vk_id ks)" and k: "k \<in> set ks"
  shows "case r of Inl _ \<Rightarrow> s' = s
    | Inr views \<Rightarrow> (\<exists>t. stats_of (vk_id k) s' = Some t \<and> counted (stats_of (vk_id k) s) (reported b k) t)"
proof -
  let ?owners = "list_by_ids (sort (remdups (map vk_owner_user_id ks))) (tf_db s)"
  let ?current = "stats_by_key_ids (map vk_id ks) (tf_db s)"
  have run': "op_transaction (refresh_each e b ks ?owners ?current ks) s = (r, s')"
    using run by (simp add: refresh_views_def bind_pure)
  show ?thesis
  proof (cases r)
    case (Inl err)
    with run' show ?thesis by (auto dest: op_transaction_Inl)
  next
    case (Inr views)
    with run' have "refresh_each e b ks ?owners ?current ks s = (Inr views, s')" by (simp add: op_transaction_Inr)
    from refresh_each_others [OF this ok] k Inr show ?thesis by (simp add: stats_by_key_ids_get)
  qed
qed

section \<open>Bytes on the wire\<close>

record wire =
  wr_traffic :: traffic_state
  wr_down :: int \<comment> \<open>the backend's counters of the key\<close>
  wr_up :: int
  wr_carried_down :: int \<comment> \<open>what the key carried since it was created\<close>
  wr_carried_up :: int
  wr_seen_down :: int \<comment> \<open>what it had carried at the last poll that read the counter\<close>
  wr_seen_up :: int
  wr_restarted :: bool

definition polled :: "wire \<Rightarrow> (service_error + 'v) \<times> traffic_state \<Rightarrow> int option \<times> int option \<Rightarrow> wire" where
  "polled x outcome raw = (let ok = (case fst outcome of Inl _ \<Rightarrow> False | Inr _ \<Rightarrow> True)
     in x\<lparr>wr_traffic := snd outcome,
          wr_seen_down := (if ok \<and> fst raw \<noteq> None then wr_carried_down x else wr_seen_down x),
          wr_seen_up := (if ok \<and> snd raw \<noteq> None then wr_carried_up x else wr_seen_up x)\<rparr>)"

inductive wire_step :: "vpn_key \<Rightarrow> wire \<Rightarrow> wire \<Rightarrow> bool" for k :: vpn_key where
  carry: "0 \<le> d \<Longrightarrow> 0 \<le> u \<Longrightarrow> wire_step k x
    (x\<lparr>wr_down := wr_down x + d, wr_up := wr_up x + u, wr_carried_down := wr_carried_down x + d, wr_carried_up := wr_carried_up x + u\<rparr>)"
| restart: "wire_step k x (x\<lparr>wr_down := 0, wr_up := 0, wr_restarted := True\<rparr>)"
| poll: "k \<in> set ks \<Longrightarrow> distinct (map vk_id ks) \<Longrightarrow> fst (reported b k) \<in> {None, Some (wr_down x)} \<Longrightarrow>
    snd (reported b k) \<in> {None, Some (wr_up x)} \<Longrightarrow>
    wire_step k x (polled x (refresh_views e b ks (wr_traffic x)) (reported b k))"
| other: "wr_traffic x = s \<Longrightarrow> stats_of (vk_id k) s' = stats_of (vk_id k) s \<Longrightarrow> traffic_ok s' \<Longrightarrow> wire_step k x (x\<lparr>wr_traffic := s'\<rparr>)"

text \<open>One direction: the total, the last counter stored, the counter, what was carried and seen.\<close>

definition below :: "int \<Rightarrow> int option \<Rightarrow> int \<Rightarrow> int \<Rightarrow> bool" where
  "below stored raw c carried \<longleftrightarrow> 0 \<le> c \<and> 0 \<le> stored
     \<and> (case raw of None \<Rightarrow> stored = 0 \<and> c \<le> carried
        | Some r \<Rightarrow> 0 \<le> r \<and> stored + (if c < r then c else c - r) \<le> carried)"

definition exact :: "int \<Rightarrow> int option \<Rightarrow> int \<Rightarrow> int \<Rightarrow> int \<Rightarrow> bool" where
  "exact stored raw c carried seen \<longleftrightarrow> c = carried \<and> stored = seen \<and> (case raw of None \<Rightarrow> seen = 0 | Some r \<Rightarrow> r = seen \<and> r \<le> c)"

lemma below_carry: "below stored raw c carried \<Longrightarrow> 0 \<le> d \<Longrightarrow> below stored raw (c + d) (carried + d)"
  by (auto simp: below_def split: option.splits if_splits)

lemma below_restart: "below stored raw c carried \<Longrightarrow> below stored raw 0 carried"
  by (auto simp: below_def split: option.splits if_splits)

lemma below_poll:
  "below stored raw c carried \<Longrightarrow> current \<in> {None, Some c} \<Longrightarrow>
    below (fst (next_total_for_direction stored raw current)) (snd (next_total_for_direction stored raw current)) c carried"
  by (auto simp: below_def next_total_for_direction_def next_total_def Let_def split: option.splits if_splits)

lemma exact_poll:
  "exact stored raw c carried seen \<Longrightarrow> below stored raw c carried \<Longrightarrow> current \<in> {None, Some c} \<Longrightarrow>
    exact (fst (next_total_for_direction stored raw current)) (snd (next_total_for_direction stored raw current)) c carried
      (if current \<noteq> None then carried else seen)"
  by (auto simp: exact_def below_def next_total_for_direction_def next_total_def Let_def split: option.splits if_splits)

definition metered :: "vpn_key \<Rightarrow> wire \<Rightarrow> bool" where
  "metered k x \<longleftrightarrow> traffic_ok (wr_traffic x)
     \<and> (let p = stats_of (vk_id k) (wr_traffic x)
        in below (stored_down p) (raw_down p) (wr_down x) (wr_carried_down x)
         \<and> below (stored_up p) (raw_up p) (wr_up x) (wr_carried_up x)
         \<and> (\<not> wr_restarted x \<longrightarrow> exact (stored_down p) (raw_down p) (wr_down x) (wr_carried_down x) (wr_seen_down x)
              \<and> exact (stored_up p) (raw_up p) (wr_up x) (wr_carried_up x) (wr_seen_up x)))"

lemma metered_step:
  assumes "wire_step k x x'" "metered k x"
  shows "metered k x'"
  using assms(1)
proof cases
  case (carry d u)
  with assms(2) show ?thesis
    by (auto simp: metered_def Let_def below_carry) (auto simp: exact_def split: option.splits)
next
  case restart
  with assms(2) show ?thesis by (auto simp: metered_def Let_def below_restart)
next
  case (poll ks b e)
  let ?s = "wr_traffic x" and ?p = "stats_of (vk_id k) (wr_traffic x)"
  have ok: "traffic_ok ?s" using assms(2) by (simp add: metered_def)
  obtain r s' where run: "refresh_views e b ks ?s = (r, s')" by force
  have ok': "traffic_ok s'" using refresh_views_books [OF ok poll(3), of e b] run by simp
  note outcome = refresh_views_counted [OF run ok poll(3,2)]
  show ?thesis
  proof (cases r)
    case (Inl err)
    with outcome have "x' = x" by (simp add: poll(1) run polled_def)
    with assms(2) show ?thesis by simp
  next
    case (Inr views)
    with outcome obtain t where t: "stats_of (vk_id k) s' = Some t" "counted ?p (reported b k) t" by auto
    have row: "stored_down (Some t) = fst (next_total_for_direction (stored_down ?p) (raw_down ?p) (fst (reported b k)))"
      "raw_down (Some t) = snd (next_total_for_direction (stored_down ?p) (raw_down ?p) (fst (reported b k)))"
      "stored_up (Some t) = fst (next_total_for_direction (stored_up ?p) (raw_up ?p) (snd (reported b k)))"
      "raw_up (Some t) = snd (next_total_for_direction (stored_up ?p) (raw_up ?p) (snd (reported b k)))"
      using t(2) by (simp_all add: counted_def stored_down_def stored_up_def) (metis fst_conv snd_conv)+
    have x': "wr_traffic x' = s'" "wr_down x' = wr_down x" "wr_up x' = wr_up x" "wr_carried_down x' = wr_carried_down x"
      "wr_carried_up x' = wr_carried_up x" "wr_restarted x' = wr_restarted x"
      "wr_seen_down x' = (if fst (reported b k) \<noteq> None then wr_carried_down x else wr_seen_down x)"
      "wr_seen_up x' = (if snd (reported b k) \<noteq> None then wr_carried_up x else wr_seen_up x)"
      by (simp_all add: poll(1) run polled_def Inr)
    from assms(2) have m: "below (stored_down ?p) (raw_down ?p) (wr_down x) (wr_carried_down x)"
      "below (stored_up ?p) (raw_up ?p) (wr_up x) (wr_carried_up x)"
      "\<not> wr_restarted x \<Longrightarrow> exact (stored_down ?p) (raw_down ?p) (wr_down x) (wr_carried_down x) (wr_seen_down x)"
      "\<not> wr_restarted x \<Longrightarrow> exact (stored_up ?p) (raw_up ?p) (wr_up x) (wr_carried_up x) (wr_seen_up x)"
      by (simp_all add: metered_def Let_def)
    show ?thesis
      unfolding metered_def Let_def x' t(1) row
      using ok' below_poll [OF m(1) poll(4)] below_poll [OF m(2) poll(5)] exact_poll [OF m(3) m(1) poll(4)] exact_poll [OF m(4) m(2) poll(5)]
      by blast
  qed
next
  case (other s s')
  with assms(2) show ?thesis by (simp add: metered_def)
qed

text \<open>A key that was just created, before its first packet.\<close>

definition wire_start :: "traffic_state \<Rightarrow> wire" where
  "wire_start s = \<lparr>wr_traffic = s, wr_down = 0, wr_up = 0, wr_carried_down = 0, wr_carried_up = 0,
     wr_seen_down = 0, wr_seen_up = 0, wr_restarted = False\<rparr>"

text \<open>
  C29: whatever the key carries, however often its backend restarts and loses its counters, and
  whichever polls are answered in full, in one direction or not at all, alone or with other keys:
  the stored totals never exceed what the key carried, and as long as the backend did not restart
  they are exactly what it had carried at the last poll that read the counter.
\<close>

theorem traffic_never_overcounted:
  assumes "(wire_step k)\<^sup>*\<^sup>* (wire_start s) x" "traffic_ok s" "stats_of (vk_id k) s = None"
  shows "total_down (vk_id k) (wr_traffic x) \<le> wr_carried_down x \<and> total_up (vk_id k) (wr_traffic x) \<le> wr_carried_up x
    \<and> (\<not> wr_restarted x \<longrightarrow> total_down (vk_id k) (wr_traffic x) = wr_seen_down x \<and> total_up (vk_id k) (wr_traffic x) = wr_seen_up x)"
proof -
  have "metered k (wire_start s)"
    using assms(2,3) by (simp add: metered_def wire_start_def below_def exact_def stored_down_def stored_up_def)
  with assms(1) have "metered k x"
    by (induction rule: rtranclp_induct) (auto intro: metered_step)
  then show ?thesis
    by (auto simp: metered_def Let_def below_def exact_def split: option.splits if_splits)
qed

section \<open>A concrete poller\<close>

definition demo_traffic_key :: vpn_key where
  "demo_traffic_key =
     \<lparr>vk_id = 7, vk_owner_user_id = 1, vk_username = None, vk_key_type = AWG, vk_status = KeyActive, vk_note = None,
      vk_uuid = None, vk_email_label = None, vk_public_key = Some ''K7'', vk_client_ip = Some ''10.8.0.7'',
      vk_payload = [], vk_public_payload = [], vk_created_at = ''2026'', vk_updated_at = ''2026'', vk_revoked_at = None,
      vk_deleted_at = None, vk_created_by = 1, vk_revoked_by = None, vk_deleted_by = None, vk_expires_at = None,
      vk_transport = ''tcp'', vk_xhttp_profile = ''none'', vk_spider_x = None, vk_relay = None, vk_bundle_id = None,
      vk_expiry_notified_days = None\<rparr>"

definition demo_traffic :: traffic_state where
  "demo_traffic = \<lparr>tf_db = empty_world\<lparr>db_vpn_keys := [demo_traffic_key], db_vpn_key_seq := Some 7\<rparr>,
     tf_hourly = [], tf_pruned_hour = None\<rparr>"

definition demo_clock :: "rat \<Rightarrow> env" where
  "demo_clock x = \<lparr>ev_admin_ids = [1], ev_now = ''now'', ev_audit_ok = True, ev_instant = (\<lambda>_. Some x)\<rparr>"

definition demo_counters :: "int \<Rightarrow> int \<Rightarrow> traffic_backends" where
  "demo_counters down up = \<lparr>tb_awg = Inr [(''K7'', (up, down))], tb_xray = Inl ''down'', tb_hysteria = None\<rparr>"

definition demo_polls :: "(env \<times> traffic_cmd) list" where
  "demo_polls = [(demo_clock 10, RefreshAwg 2 (\<lambda>_. demo_counters 100 10)), (demo_clock 3700, RefreshAwg 2 (\<lambda>_. demo_counters 40 25))]"

lemma demo_traffic_ok: "traffic_ok demo_traffic" "stats_of 7 demo_traffic = None"
  by (simp_all add: traffic_ok_def demo_traffic_def keys_ok_def keys_unique_def unique_column_def map_filter_simps
      demo_traffic_key_def reserved_ip_def reserved_statuses_def empty_world_def stats_by_key_id_def stats_ok_def key_seq_def)

lemma demo_poll_totals:
  "total_down 7 (fold run_traffic demo_polls demo_traffic) = 140 \<and> total_up 7 (fold run_traffic demo_polls demo_traffic) = 25
   \<and> length (tf_hourly (fold run_traffic demo_polls demo_traffic)) = 2"
  by code_simp

lemma demo_history: "history_down 7 demo_traffic = 0" "history_up 7 demo_traffic = 0" "total_down 7 demo_traffic = 0" "total_up 7 demo_traffic = 0"
  by (simp_all add: history_down_def history_up_def stored_down_def stored_up_def demo_traffic_ok(2)) (simp_all add: demo_traffic_def)

lemma traffic_history_exact_witness:
  "history_down 7 (fold run_traffic demo_polls demo_traffic) = 140 \<and> history_up 7 (fold run_traffic demo_polls demo_traffic) = 25"
proof -
  have "list_all (\<lambda>c. \<not> is_prune c) demo_polls" by (simp add: demo_polls_def)
  with traffic_history_exact [OF demo_traffic_ok(1), of 7 demo_polls] demo_poll_totals demo_history show ?thesis by simp
qed

definition demo_wire :: wire where
  "demo_wire = (let carried = (wire_start demo_traffic)\<lparr>wr_down := 100, wr_up := 10, wr_carried_down := 100, wr_carried_up := 10\<rparr>
     in polled carried (refresh_views (demo_clock 10) (demo_counters 100 10) [demo_traffic_key] demo_traffic) (Some 100, Some 10))"

lemma demo_wire_reached: "(wire_step demo_traffic_key)\<^sup>*\<^sup>* (wire_start demo_traffic) demo_wire"
proof -
  let ?c = "(wire_start demo_traffic)\<lparr>wr_down := 100, wr_up := 10, wr_carried_down := 100, wr_carried_up := 10\<rparr>"
  have "wire_step demo_traffic_key (wire_start demo_traffic) ?c"
    using wire_step.carry [of 100 10 demo_traffic_key "wire_start demo_traffic"] by (simp add: wire_start_def)
  moreover have reads: "reported (demo_counters 100 10) demo_traffic_key = (Some 100, Some 10)"
    by (simp add: reported_def demo_counters_def demo_traffic_key_def given_def)
  have "wire_step demo_traffic_key ?c demo_wire"
    using wire_step.poll [of demo_traffic_key "[demo_traffic_key]" "demo_counters 100 10" ?c "demo_clock 10"]
    by (simp add: reads demo_wire_def wire_start_def)
  ultimately show ?thesis by (meson rtranclp.rtrancl_refl rtranclp.rtrancl_into_rtrancl)
qed

lemma traffic_never_overcounted_witness:
  "total_down 7 (wr_traffic demo_wire) = wr_seen_down demo_wire \<and> total_up 7 (wr_traffic demo_wire) \<le> wr_carried_up demo_wire"
proof -
  have "\<not> wr_restarted demo_wire" by (simp add: demo_wire_def wire_start_def polled_def Let_def)
  with traffic_never_overcounted [OF demo_wire_reached demo_traffic_ok(1)] demo_traffic_ok(2) show ?thesis
    by (simp add: demo_traffic_key_def)
qed

section \<open>Retention and failures\<close>

text \<open>
  Pruning drops exactly the buckets that left the window of 400 days, and a second pass in the same
  clock hour does nothing.
\<close>

lemma prune_keeps_window:
  assumes "prune_hourly_history e True s = (Inr n, s')" "tf_pruned_hour s \<noteq> Some hour" "hour_utc_from_iso e (ev_now e) = Inr hour"
  shows "tf_hourly s' = filter (\<lambda>b. hour - 9600 < hb_hour_utc b) (tf_hourly s) \<and> int (length (tf_hourly s)) = n + int (length (tf_hourly s'))
    \<and> prune_hourly_history e commits s' = (Inr 0, s')"
proof -
  have s': "s' = s\<lparr>tf_pruned_hour := Some hour, tf_hourly := filter (\<lambda>b. \<not> hb_hour_utc b \<le> hour - 400 * 24) (tf_hourly s)\<rparr>"
    "n = count_where (\<lambda>b. hb_hour_utc b \<le> hour - 400 * 24) (tf_hourly s)"
    using assms by (auto simp: prune_hourly_history_def prune_hourly_def op_simps traffic_hourly_retention_days_def count_where_def
        split: if_splits)
  have "int (length xs) = count_where P xs + int (length (filter (\<lambda>x. \<not> P x) xs))" for P and xs :: "hourly_bucket list"
    using sum_length_filter_compl [of P xs] by (simp add: count_where_def)
  from this [of "tf_hourly s" "\<lambda>b. hb_hour_utc b \<le> hour - 400 * 24"] show ?thesis using assms(3)
    by (simp add: s' not_le prune_hourly_history_def op_simps)
qed

end
