(* ===== verification/Py_Datetime.thy ===== *)
theory Py_Datetime
  imports Py_Strings
begin

text \<open>
  The UTC time stamps of \<open>adapters/clock.py\<close>: \<open>datetime.now(timezone.utc).replace(microsecond=0).isoformat()\<close>
  is always the text of one shape, which \<open>datetime.fromisoformat\<close> reads back, and to which the
  services add days. Texts of another shape are not read here. The database compares the texts, so
  the order of the texts has to be the order of the instants.
\<close>

record instant =
  cal_year :: nat
  cal_month :: nat
  cal_day :: nat
  cal_hour :: nat
  cal_minute :: nat
  cal_second :: nat

definition leap_year :: "nat \<Rightarrow> bool" where
  "leap_year y \<longleftrightarrow> y mod 4 = 0 \<and> (y mod 100 \<noteq> 0 \<or> y mod 400 = 0)"

definition days_in_month :: "nat \<Rightarrow> nat \<Rightarrow> nat" where
  "days_in_month y m = (if m = 2 then if leap_year y then 29 else 28 else if m \<in> {4, 6, 9, 11} then 30 else 31)"

definition instant_ok :: "instant \<Rightarrow> bool" where
  "instant_ok d \<longleftrightarrow> 1 \<le> cal_year d \<and> cal_year d \<le> 9999 \<and> 1 \<le> cal_month d \<and> cal_month d \<le> 12
     \<and> 1 \<le> cal_day d \<and> cal_day d \<le> days_in_month (cal_year d) (cal_month d)
     \<and> cal_hour d < 24 \<and> cal_minute d < 60 \<and> cal_second d < 60"

definition pad2 :: "nat \<Rightarrow> string" where
  "pad2 n = [digit_char (n div 10), digit_char (n mod 10)]"

definition pad4 :: "nat \<Rightarrow> string" where
  "pad4 n = pad2 (n div 100) @ pad2 (n mod 100)"

definition isoformat :: "instant \<Rightarrow> string" where
  "isoformat d = pad4 (cal_year d) @ ''-'' @ pad2 (cal_month d) @ ''-'' @ pad2 (cal_day d) @ ''T''
     @ pad2 (cal_hour d) @ '':'' @ pad2 (cal_minute d) @ '':'' @ pad2 (cal_second d) @ ''+00:00''"

text \<open>The two digits at a position, and the punctuation between the fields.\<close>

definition field_at :: "nat \<Rightarrow> string \<Rightarrow> string" where
  "field_at i s = take 2 (drop i s)"

definition field_positions :: "nat list" where
  "field_positions = [0, 2, 5, 8, 11, 14, 17]"

definition fields_instant :: "nat list \<Rightarrow> instant option" where
  "fields_instant ns = (case ns of
       [c, y, mo, d, h, mi, sec] \<Rightarrow>
         (let r = \<lparr>cal_year = 100 * c + y, cal_month = mo, cal_day = d, cal_hour = h, cal_minute = mi, cal_second = sec\<rparr>
          in if instant_ok r then Some r else None)
     | _ \<Rightarrow> None)"

definition fromisoformat :: "string \<Rightarrow> instant option" where
  "fromisoformat s =
     (if length s = 25 \<and> [s ! 4, s ! 7, s ! 10, s ! 13, s ! 16] = ''--T::'' \<and> drop 19 s = ''+00:00''
         \<and> list_all (\<lambda>i. list_all ascii_digit (field_at i s)) field_positions
      then fields_instant (map (\<lambda>i. undec (field_at i s)) field_positions) else None)"

text \<open>\<open>dt + timedelta(days=n)\<close>, a day at a time; \<open>None\<close> for the \<open>OverflowError\<close> after the year 9999.\<close>

definition next_day :: "instant \<Rightarrow> instant" where
  "next_day d =
     (if cal_day d < days_in_month (cal_year d) (cal_month d) then d\<lparr>cal_day := cal_day d + 1\<rparr>
      else if cal_month d < 12 then d\<lparr>cal_day := 1, cal_month := cal_month d + 1\<rparr>
      else d\<lparr>cal_day := 1, cal_month := 1, cal_year := cal_year d + 1\<rparr>)"

definition add_days :: "nat \<Rightarrow> instant \<Rightarrow> instant option" where
  "add_days n d = (let r = (next_day ^^ n) d in if cal_year r \<le> 9999 then Some r else None)"

section \<open>Reading back what was written\<close>

lemma digit_char_code: "d < 10 \<Longrightarrow> code_point (digit_char d) = 48 + d"
  by (simp add: code_point_def digit_char_def)

lemma pad2_read: "n < 100 \<Longrightarrow> undec (pad2 n) = n" "n < 100 \<Longrightarrow> list_all ascii_digit (pad2 n)"
  by (auto simp: pad2_def undec_def digit_char_code ascii_digit_def)

lemma instant_small:
  assumes "instant_ok d"
  shows "cal_year d div 100 < 100" "cal_year d mod 100 < 100" "cal_month d < 100" "cal_day d < 100" "cal_hour d < 100"
    "cal_minute d < 100" "cal_second d < 100"
  using assms by (auto simp: instant_ok_def days_in_month_def split: if_splits)

lemma length_pad2 [simp]: "length (pad2 n) = 2"
  by (simp add: pad2_def)

lemma two_chars: "length s = 2 \<Longrightarrow> \<exists>a b. s = [a, b]"
  by (auto simp: numeral_2_eq_2 length_Suc_conv)

lemma fromisoformat_fields:
  assumes "length c = 2" "length y = 2" "length mo = 2" "length d = 2" "length h = 2" "length mi = 2" "length sec = 2"
    and "list_all ascii_digit c" "list_all ascii_digit y" "list_all ascii_digit mo" "list_all ascii_digit d"
      "list_all ascii_digit h" "list_all ascii_digit mi" "list_all ascii_digit sec"
  shows "fromisoformat (c @ y @ ''-'' @ mo @ ''-'' @ d @ ''T'' @ h @ '':'' @ mi @ '':'' @ sec @ ''+00:00'')
    = fields_instant [undec c, undec y, undec mo, undec d, undec h, undec mi, undec sec]"
proof -
  obtain c1 c2 y1 y2 m1 m2 d1 d2 h1 h2 i1 i2 s1 s2 where
    "c = [c1, c2]" "y = [y1, y2]" "mo = [m1, m2]" "d = [d1, d2]" "h = [h1, h2]" "mi = [i1, i2]" "sec = [s1, s2]"
    using two_chars [OF assms(1)] two_chars [OF assms(2)] two_chars [OF assms(3)] two_chars [OF assms(4)]
      two_chars [OF assms(5)] two_chars [OF assms(6)] two_chars [OF assms(7)] by metis
  with assms(8-) show ?thesis
    by (simp add: fromisoformat_def field_at_def field_positions_def)
qed

lemma fromisoformat_isoformat:
  assumes "instant_ok d"
  shows "fromisoformat (isoformat d) = Some d"
proof -
  note small = instant_small [OF assms]
  have "cal_year d = 100 * (cal_year d div 100) + cal_year d mod 100" by simp
  then have rebuilt: "fields_instant [cal_year d div 100, cal_year d mod 100, cal_month d, cal_day d, cal_hour d, cal_minute d, cal_second d] = Some d"
    using assms by (cases d) (simp add: fields_instant_def Let_def)
  show ?thesis
    unfolding isoformat_def pad4_def append_assoc
    by (subst fromisoformat_fields) (simp_all add: pad2_read small rebuilt length_pad2)
qed

text \<open>
  A time stamp that was written is read back as the instant it was written for.
\<close>

theorem timestamp_round_trip:
  assumes "instant_ok d"
  shows "fromisoformat (isoformat d) = Some d"
  by (rule fromisoformat_isoformat [OF assms])

section \<open>The order of the texts\<close>

definition instant_key :: "instant \<Rightarrow> nat list" where
  "instant_key d = [cal_year d, cal_month d, cal_day d, cal_hour d, cal_minute d, cal_second d]"

lemma prefix_less: "length a = length b \<Longrightarrow> a < b \<Longrightarrow> a @ c < b @ (e :: string)"
  by (induction a b rule: list_induct2) auto

lemma char_less: "code_point a < code_point b \<Longrightarrow> a < (b :: char)"
  by (simp add: code_point_def less_char_def)

lemma pad2_less: "m < n \<Longrightarrow> n < 100 \<Longrightarrow> pad2 m < pad2 n"
proof -
  assume a: "m < n" "n < 100"
  show ?thesis
  proof (cases "m div 10 = n div 10")
    case True
    with a have "m mod 10 < n mod 10" by (metis div_mod_decomp nat_add_left_cancel_less)
    with True show ?thesis by (auto simp: pad2_def intro!: char_less simp: digit_char_code)
  next
    case False
    with a have "m div 10 < n div 10" using div_le_mono [of m n 10] by linarith
    with a show ?thesis by (auto simp: pad2_def intro!: char_less simp: digit_char_code)
  qed
qed

lemma pad4_less: "m < n \<Longrightarrow> n < 10000 \<Longrightarrow> pad4 m < pad4 n"
proof -
  assume a: "m < n" "n < 10000"
  show ?thesis
  proof (cases "m div 100 = n div 100")
    case True
    with a have "m mod 100 < n mod 100" by (metis div_mod_decomp nat_add_left_cancel_less)
    then have "pad2 (m mod 100) < pad2 (n mod 100)" by (simp add: pad2_less)
    with True show ?thesis by (simp add: pad4_def pad2_def)
  next
    case False
    with a have "m div 100 < n div 100" using div_le_mono [of m n 100] by linarith
    with a show ?thesis by (simp add: pad4_def prefix_less pad2_less)
  qed
qed

lemma length_pad4 [simp]: "length (pad4 n) = 4"
  by (simp add: pad4_def)

text \<open>Later by the calendar, in the date.\<close>

definition later_date :: "instant \<Rightarrow> instant \<Rightarrow> bool" where
  "later_date d r \<longleftrightarrow> cal_year d < cal_year r \<or> cal_year d = cal_year r \<and> (cal_month d < cal_month r
     \<or> cal_month d = cal_month r \<and> cal_day d < cal_day r)"

lemma later_date_trans: "later_date a b \<Longrightarrow> later_date b c \<Longrightarrow> later_date a c"
  by (auto simp: later_date_def)

lemma append_less: "x < y \<Longrightarrow> p @ x < p @ (y :: string)"
  by (induction p) auto

lemma later_date_text:
  assumes "later_date d r" "instant_ok d" "instant_ok r"
  shows "isoformat d < isoformat r"
proof -
  note b = instant_small [OF assms(3)]
  have y: "cal_year r < 10000" using assms(3) by (simp add: instant_ok_def)
  from assms(1) consider "cal_year d < cal_year r" | "cal_year d = cal_year r" "cal_month d < cal_month r"
    | "cal_year d = cal_year r" "cal_month d = cal_month r" "cal_day d < cal_day r"
    by (auto simp: later_date_def)
  then show ?thesis
    unfolding isoformat_def
    by cases (auto intro!: append_less prefix_less pad4_less pad2_less y b)
qed

lemma month_days: "28 \<le> days_in_month y m" "Suc 0 \<le> days_in_month y m" "days_in_month y 1 = 31" "days_in_month y (Suc 0) = 31"
  by (auto simp: days_in_month_def)

lemma next_day_ok:
  assumes "instant_ok d" "cal_year (next_day d) \<le> 9999"
  shows "instant_ok (next_day d) \<and> later_date d (next_day d)"
  using assms month_days(1) [of "cal_year d" "Suc (cal_month d)"]
  by (auto simp: instant_ok_def next_day_def later_date_def month_days)

lemma next_day_year: "cal_year d \<le> cal_year (next_day d)"
  by (simp add: next_day_def)

lemma add_days_later:
  assumes "instant_ok d" "add_days n d = Some r" "0 < n"
  shows "instant_ok r \<and> later_date d r"
  using assms(2,3)
proof (induction n arbitrary: r)
  case 0
  then show ?case by simp
next
  case (Suc n)
  let ?q = "(next_day ^^ n) d"
  have r: "r = next_day ?q" "cal_year r \<le> 9999" using Suc.prems by (auto simp: add_days_def Let_def split: if_splits)
  then have q: "add_days n d = Some ?q" using next_day_year [of ?q] by (simp add: add_days_def Let_def)
  show ?case
  proof (cases "n = 0")
    case True
    with r next_day_ok [OF assms(1)] show ?thesis by simp
  next
    case False
    with Suc.IH [OF q] next_day_ok [of ?q] r show ?thesis by (auto intro: later_date_trans)
  qed
qed

text \<open>A later time stamp is a greater text.\<close>

lemma add_days_text:
  assumes "instant_ok d" "add_days n d = Some r" "0 < n"
  shows "isoformat d < isoformat r"
  using add_days_later [OF assms] later_date_text assms(1) by blast

lemma fromisoformat_ok: "fromisoformat s = Some d \<Longrightarrow> instant_ok d"
  by (auto simp: fromisoformat_def fields_instant_def Let_def split: if_splits list.splits)

definition demo_instant :: instant where
  "demo_instant = \<lparr>cal_year = 2026, cal_month = 2, cal_day = 24, cal_hour = 23, cal_minute = 5, cal_second = 9\<rparr>"

lemma digit_chars: "digit_char 0 = CHR ''0''" "digit_char 1 = CHR ''1''" "digit_char 2 = CHR ''2''" "digit_char 3 = CHR ''3''"
  "digit_char 4 = CHR ''4''" "digit_char 5 = CHR ''5''" "digit_char 6 = CHR ''6''" "digit_char 7 = CHR ''7''"
  "digit_char 8 = CHR ''8''" "digit_char 9 = CHR ''9''" "digit_char (Suc 0) = CHR ''1''"
  by code_simp+

lemmas timestamp_evals = digit_chars isoformat_def pad4_def pad2_def

lemma demo_instant_text: "isoformat demo_instant = ''2026-02-24T23:05:09+00:00''"
  by (simp add: timestamp_evals demo_instant_def)

lemma demo_week_later: "map_option isoformat (add_days 7 demo_instant) = Some ''2026-03-03T23:05:09+00:00''"
proof -
  have seven: "(next_day ^^ 7) d = next_day (next_day (next_day (next_day (next_day (next_day (next_day d))))))" for d
    by (simp add: eval_nat_numeral)
  show ?thesis
    unfolding add_days_def seven
    by (simp add: timestamp_evals demo_instant_def next_day_def days_in_month_def leap_year_def)
qed

lemma timestamp_round_trip_witness: "fromisoformat ''2026-02-24T23:05:09+00:00'' = Some demo_instant"
  using timestamp_round_trip [of demo_instant] unfolding demo_instant_text
  by (simp add: demo_instant_def instant_ok_def days_in_month_def)

end
