(* ===== verification/Trial_Access.thy ===== *)
theory Trial_Access
  imports Key_Rows Op_Steps Py_Datetime
begin

text \<open>
  \<open>services/trial_access.py\<close> and \<open>repositories/trial_requests.py\<close>: requests for a trial key, the quota
  of one per user and reset, and the decision, which provisions a key through the service of the
  wanted protocol. The services are arguments: how each creates a key and revokes one. The messages
  to the user are sent last and best effort, and are left out.
\<close>

section \<open>The repository\<close>

abbreviation has_trial_id :: "int \<Rightarrow> trial_key_request \<Rightarrow> bool" where
  "has_trial_id i \<equiv> (\<lambda>r. tr_id r = i)"

definition trial_get :: "int \<Rightarrow> world \<Rightarrow> trial_key_request option" where
  "trial_get i w = find (has_trial_id i) (db_trial_requests w)"

text \<open>\<open>idx_trial_requests_one_pending\<close>.\<close>

definition one_pending_trial :: "trial_key_request list \<Rightarrow> bool" where
  "one_pending_trial rows \<longleftrightarrow> distinct (map tr_telegram_user_id (filter (\<lambda>r. tr_status r = ''pending'') rows))"

definition new_trial_row :: "int \<Rightarrow> int \<Rightarrow> vpn_key_type \<Rightarrow> string \<Rightarrow> trial_key_request" where
  "new_trial_row i uid t requested_at = \<lparr>tr_id = i, tr_telegram_user_id = uid, tr_key_type = t, tr_status = ''pending'',
     tr_key_id = None, tr_requested_at = requested_at, tr_decided_by = None, tr_decided_at = None\<rparr>"

definition trial_create :: "int \<Rightarrow> vpn_key_type \<Rightarrow> string \<Rightarrow> trial_key_request act" where
  "trial_create uid t requested_at = op_bind (op_get id) (\<lambda>w.
     let i = db_trial_request_seq w + 1; rows = db_trial_requests w @ [new_trial_row i uid t requested_at]
     in op_bind (op_guard (user_get_by_id uid w \<noteq> None) (IntegrityError ''FOREIGN KEY'')) (\<lambda>_.
        op_bind (op_guard (one_pending_trial rows) (IntegrityError ''idx_trial_requests_one_pending'')) (\<lambda>_.
        op_bind (op_modify (\<lambda>w. w\<lparr>db_trial_requests := rows, db_trial_request_seq := i\<rparr>)) (\<lambda>_.
        op_bind (op_get (trial_get i)) (\<lambda>found.
        case found of None \<Rightarrow> op_raise (RuntimeFailure ''trial_key_requests insert failed'') | Some r \<Rightarrow> op_return r)))))"

definition trial_count_pending :: "world \<Rightarrow> int" where
  "trial_count_pending w = count_where (\<lambda>r. tr_status r = ''pending'') (db_trial_requests w)"

definition trial_list_pending :: "int \<Rightarrow> int \<Rightarrow> world \<Rightarrow> trial_key_request list" where
  "trial_list_pending limit offset w =
     page limit offset (sort_key tr_requested_at (filter (\<lambda>r. tr_status r = ''pending'') (db_trial_requests w)))"

definition epoch_text :: string where
  "epoch_text = ''1970-01-01T00:00:00+00:00''"

definition counts_since :: "int \<Rightarrow> string option \<Rightarrow> trial_key_request \<Rightarrow> bool" where
  "counts_since uid reset_at r \<longleftrightarrow> tr_telegram_user_id r = uid \<and> tr_status r \<noteq> ''rejected''
     \<and> tr_requested_at r > (case reset_at of Some x \<Rightarrow> if x = [] then epoch_text else x | None \<Rightarrow> epoch_text)"

definition count_used_since_reset :: "int \<Rightarrow> string option \<Rightarrow> world \<Rightarrow> int" where
  "count_used_since_reset uid reset_at w = count_where (counts_since uid reset_at) (db_trial_requests w)"

definition is_pending :: "int \<Rightarrow> trial_key_request \<Rightarrow> bool" where
  "is_pending i r \<longleftrightarrow> tr_id r = i \<and> tr_status r = ''pending''"

text \<open>A decision; the foreign keys of the columns it writes are checked when a row is updated.\<close>

definition decide_trial :: "int \<Rightarrow> (world \<Rightarrow> bool) \<Rightarrow> (trial_key_request \<Rightarrow> trial_key_request) \<Rightarrow> unit act" where
  "decide_trial i linked f =
     op_bind (op_get (\<lambda>w. count_where (is_pending i) (db_trial_requests w))) (\<lambda>rowcount.
     op_bind (op_get linked) (\<lambda>ok.
     op_bind (op_guard (rowcount = 0 \<or> ok) (IntegrityError ''FOREIGN KEY'')) (\<lambda>_.
     op_bind (op_modify (\<lambda>w. w\<lparr>db_trial_requests := update_where (is_pending i) f (db_trial_requests w)\<rparr>)) (\<lambda>_.
     op_guard (rowcount \<noteq> 0) ConcurrentModificationError))))"

definition trial_approve :: "int \<Rightarrow> int \<Rightarrow> int \<Rightarrow> string \<Rightarrow> unit act" where
  "trial_approve i kid decided_by decided_at =
     decide_trial i (\<lambda>w. key_get_by_id kid w \<noteq> None \<and> user_get_by_id decided_by w \<noteq> None)
       (\<lambda>r. r\<lparr>tr_status := ''approved'', tr_key_id := Some kid, tr_decided_by := Some decided_by, tr_decided_at := Some decided_at\<rparr>)"

definition trial_reject :: "int \<Rightarrow> int \<Rightarrow> string \<Rightarrow> unit act" where
  "trial_reject i decided_by decided_at =
     decide_trial i (\<lambda>w. user_get_by_id decided_by w \<noteq> None)
       (\<lambda>r. r\<lparr>tr_status := ''rejected'', tr_decided_by := Some decided_by, tr_decided_at := Some decided_at\<rparr>)"

section \<open>The service\<close>

record 'h trial_services =
  tv_create :: "vpn_key_type \<Rightarrow> int \<Rightarrow> telegram_user_profile \<Rightarrow> string \<Rightarrow> ('h, vpn_key) service_op"
  tv_revoke :: "vpn_key_type \<Rightarrow> int \<Rightarrow> int \<Rightarrow> ('h, unit) service_op"

definition trial_days :: nat where
  "trial_days = 7"

definition trial_expires_at :: "string \<Rightarrow> service_error + string" where
  "trial_expires_at now = (case fromisoformat now of None \<Rightarrow> Inl (ValueError ''isoformat'')
     | Some d \<Rightarrow> (case add_days trial_days d of None \<Rightarrow> Inl (ValueError ''date value out of range'') | Some r \<Rightarrow> Inr (isoformat r)))"

definition trial_require_superadmin :: "int \<Rightarrow> unit act" where
  "trial_require_superadmin actor = op_bind (op_get (user_get_by_id actor)) (\<lambda>found.
     op_guard (case found of None \<Rightarrow> False | Some u \<Rightarrow> u_role u = SUPERADMIN) (AccessDenied ''err_insufficient_rights''))"

definition can_request_trial :: "int \<Rightarrow> world \<Rightarrow> bool" where
  "can_request_trial uid w \<longleftrightarrow> count_used_since_reset uid (get_trial_quota_reset_at uid w) w = 0"

definition create_trial_request :: "env \<Rightarrow> int \<Rightarrow> vpn_key_type \<Rightarrow> trial_key_request act" where
  "create_trial_request e uid t =
     op_bind (get_user uid) (\<lambda>u.
     op_bind (op_guard (\<not> is_blocked_user u) (AccessDenied ''err_access_blocked'')) (\<lambda>_.
     op_bind (op_transaction
        (op_bind (op_get (can_request_trial uid)) (\<lambda>free.
         op_bind (op_guard free (AccessDenied ''err_trial_already_used'')) (\<lambda>_.
         trial_create uid t (ev_now e))))) (\<lambda>r.
     op_bind (audit_write e (Some uid) ''trial_key_requested'' EntityUser (Some uid) 0) (\<lambda>_.
     op_return r))))"

definition get_request :: "int \<Rightarrow> trial_key_request act" where
  "get_request i = op_bind (op_get (trial_get i)) (\<lambda>found.
     case found of None \<Rightarrow> op_raise (NotFound ''err_trial_request_not_found'') | Some r \<Rightarrow> op_return r)"

definition count_pending_requests :: "int \<Rightarrow> int act" where
  "count_pending_requests actor = op_bind (trial_require_superadmin actor) (\<lambda>_. op_get trial_count_pending)"

definition list_pending_requests :: "int \<Rightarrow> int \<Rightarrow> int \<Rightarrow> trial_key_request list act" where
  "list_pending_requests actor limit offset =
     op_bind (trial_require_superadmin actor) (\<lambda>_. op_get (trial_list_pending limit offset))"

definition open_request :: "int \<Rightarrow> trial_key_request act" where
  "open_request i = op_bind (get_request i) (\<lambda>r.
     op_bind (op_guard (tr_status r = ''pending'') (AccessDenied ''err_trial_request_processed'')) (\<lambda>_.
     op_return r))"

definition rollback_provisioned :: "env \<Rightarrow> 'h trial_services \<Rightarrow> vpn_key_type \<Rightarrow> int \<Rightarrow> int \<Rightarrow> ('h, unit) service_op" where
  "rollback_provisioned e tv t kid actor =
     op_bind (op_attempt (tv_revoke tv t kid actor)) (\<lambda>r.
     case r of Inl _ \<Rightarrow> op_return ()
      | Inr _ \<Rightarrow> on_db (audit_write_best_effort e (Some actor) ''trial_key_approve_rolled_back'' EntityVpnKey (Some kid) 0))"

text \<open>The part of the approval under the decision lock; \<open>commits\<close> says whether the update is written.\<close>

definition provision_trial :: "env \<Rightarrow> 'h trial_services \<Rightarrow> bool \<Rightarrow> int \<Rightarrow> int \<Rightarrow> ('h, vpn_key) service_op" where
  "provision_trial e tv commits actor i =
     op_bind (on_db (open_request i)) (\<lambda>req.
     op_bind (on_db (op_get (user_get_by_id (tr_telegram_user_id req)))) (\<lambda>found.
     case found of None \<Rightarrow> op_raise (NotFound ''err_trial_owner_not_found'')
      | Some owner \<Rightarrow>
          op_bind (pure_sum (trial_expires_at (ev_now e))) (\<lambda>expires_at.
          op_bind (tv_create tv (tr_key_type req) actor
             \<lparr>pr_telegram_user_id = u_telegram_user_id owner, pr_username = u_username owner, pr_first_name = u_first_name owner\<rparr>
             expires_at) (\<lambda>k.
          op_bind
            (op_try (if_commits commits (on_db (trial_approve i (vk_id k) actor (ev_now e)))) (\<lambda>err.
               op_bind (rollback_provisioned e tv (tr_key_type req) (vk_id k) actor) (\<lambda>_. op_raise err))) (\<lambda>_.
          op_return k)))))"

definition approve_trial_request :: "env \<Rightarrow> 'h trial_services \<Rightarrow> bool \<Rightarrow> int \<Rightarrow> int \<Rightarrow> ('h, vpn_key) service_op" where
  "approve_trial_request e tv commits actor i =
     op_bind (on_db (trial_require_superadmin actor)) (\<lambda>_.
     op_bind (provision_trial e tv commits actor i) (\<lambda>k.
     op_bind (on_db (audit_write e (Some actor) ''trial_key_approved'' EntityVpnKey (Some (vk_id k)) 0)) (\<lambda>_.
     op_return k)))"

definition reject_trial_request :: "env \<Rightarrow> int \<Rightarrow> int \<Rightarrow> unit act" where
  "reject_trial_request e actor i =
     op_bind (trial_require_superadmin actor) (\<lambda>_.
     op_bind (open_request i) (\<lambda>req.
     op_bind (trial_reject i actor (ev_now e)) (\<lambda>_.
     audit_write e (Some actor) ''trial_key_rejected'' EntityUser (Some (tr_telegram_user_id req)) 0)))"

definition admin_reset_trial_quota :: "env \<Rightarrow> int \<Rightarrow> int \<Rightarrow> unit act" where
  "admin_reset_trial_quota e actor target =
     op_bind (trial_require_superadmin actor) (\<lambda>_.
     op_bind (reset_trial_quota target (ev_now e)) (\<lambda>_.
     audit_write e (Some actor) ''trial_quota_reset'' EntityUser (Some target) 0))"

end
