(* ===== verification/Trial_Decisions.thy ===== *)
theory Trial_Decisions
  imports Trial_Access Awg_Creation Blocking_Properties
begin

text \<open>
  What the trial requests guarantee: one decision per request, no live key for a request that could
  not be approved, one request per user and quota. \<open>trial_provisioner\<close> is what the approval relies
  on in the key services; the AmneziaWG service of the model meets it.
\<close>

section \<open>The contract of the key services\<close>

definition trial_tables :: "'h service_state \<Rightarrow> trial_key_request list \<times> user list" where
  "trial_tables s = (db_trial_requests (sv_db s), db_users (sv_db s))"

locale trial_provisioner =
  fixes tv :: "'h trial_services"
  assumes create_quiet: "trial_tables (snd (tv_create tv t actor p x s)) = trial_tables s"
    and create_active: "keys_ok (sv_db s) \<Longrightarrow> tv_create tv t actor p x s = (Inr k, s') \<Longrightarrow>
      keys_ok (sv_db s') \<and> key_get_by_id (vk_id k) (sv_db s) = None \<and> key_get_by_id (vk_id k) (sv_db s') = Some k \<and> vk_status k = KeyActive"
    and revoke_quiet: "trial_tables (snd (tv_revoke tv t kid actor s)) = trial_tables s"
    and revoke_over: "keys_ok (sv_db s) \<Longrightarrow> key_get_by_id kid (sv_db s) = Some k \<Longrightarrow> tv_revoke tv t kid actor s = (Inr u, s') \<Longrightarrow>
      \<exists>k'. key_get_by_id kid (sv_db s') = Some k' \<and> terminal k'"

definition trial_of :: "int \<Rightarrow> 'h service_state \<Rightarrow> trial_key_request option" where
  "trial_of i s = trial_get i (sv_db s)"

lemma trial_of_tables: "trial_tables s' = trial_tables s \<Longrightarrow> trial_of i s' = trial_of i s"
  by (simp add: trial_tables_def trial_of_def trial_get_def)

definition trials_unique :: "world \<Rightarrow> bool" where
  "trials_unique w \<longleftrightarrow> distinct (map tr_id (db_trial_requests w))"

definition decided_row :: "string \<Rightarrow> int option \<Rightarrow> int \<Rightarrow> string \<Rightarrow> trial_key_request \<Rightarrow> trial_key_request" where
  "decided_row status kid actor now r =
     r\<lparr>tr_status := status, tr_key_id := kid, tr_decided_by := Some actor, tr_decided_at := Some now\<rparr>"

lemma decide_trial_run:
  assumes "trial_get i w = Some r" "trials_unique w" "tr_status r = ''pending''" "\<And>r. tr_id (f r) = tr_id r"
  shows "decide_trial i linked f w = (if linked w
    then (Inr (), w\<lparr>db_trial_requests := update_where (is_pending i) f (db_trial_requests w)\<rparr>) else (Inl (IntegrityError ''FOREIGN KEY''), w))"
    and "trial_get i (w\<lparr>db_trial_requests := update_where (is_pending i) f (db_trial_requests w)\<rparr>) = Some (f r)"
proof -
  have row: "find (has_trial_id i) (db_trial_requests w) = Some r" using assms(1) by (simp add: trial_get_def)
  have "count_where (is_pending i) (db_trial_requests w) = 1"
    using count_key_row [OF assms(2) [unfolded trials_unique_def] row, of "\<lambda>r. tr_status r = ''pending''"] assms(3)
    by (simp add: is_pending_def [abs_def])
  then show "decide_trial i linked f w = (if linked w
    then (Inr (), w\<lparr>db_trial_requests := update_where (is_pending i) f (db_trial_requests w)\<rparr>) else (Inl (IntegrityError ''FOREIGN KEY''), w))"
    by (simp add: decide_trial_def op_simps)
  show "trial_get i (w\<lparr>db_trial_requests := update_where (is_pending i) f (db_trial_requests w)\<rparr>) = Some (f r)"
    using find_update_key [of tr_id f i "is_pending i" "db_trial_requests w"] assms(3,4) row find_Some_in [OF row]
    by (simp add: trial_get_def is_pending_def)
qed

lemma open_request_run: "open_request i w = (r, w') \<longleftrightarrow> w' = w \<and> (case trial_get i w of
     None \<Rightarrow> r = Inl (NotFound ''err_trial_request_not_found'')
   | Some q \<Rightarrow> if tr_status q = ''pending'' then r = Inr q else r = Inl (AccessDenied ''err_trial_request_processed''))"
  by (auto simp: open_request_def get_request_def op_simps split: option.splits)

lemma open_request_eq: "open_request i w = (case trial_get i w of
     None \<Rightarrow> Inl (NotFound ''err_trial_request_not_found'')
   | Some q \<Rightarrow> if tr_status q = ''pending'' then Inr q else Inl (AccessDenied ''err_trial_request_processed''), w)"
  using open_request_run [of i w] by (auto split: option.splits)

lemma superadmin_gate: "gate (trial_require_superadmin actor)" "gate (open_request i)"
  by (auto simp: gate_def trial_require_superadmin_def open_request_run [of i] op_simps split_beta)
    (metis open_request_run prod.collapse)

text \<open>A request that is decided cannot be decided again, and trying leaves no trace.\<close>

definition closed :: "int \<Rightarrow> 'h service_state \<Rightarrow> bool" where
  "closed i s \<longleftrightarrow> (\<forall>e (tv :: 'h trial_services) commits actor. (\<exists>err. approve_trial_request e tv commits actor i s = (Inl err, s))
     \<and> (\<exists>err. on_db (reject_trial_request e actor i) s = (Inl err, s)))"

lemma closed_decided:
  fixes s :: "'h service_state"
  assumes "trial_of i s = Some r" "tr_status r \<noteq> ''pending''"
  shows "closed i s"
  unfolding closed_def
proof (intro allI conjI)
  fix e :: env and tv :: "'h trial_services" and commits actor
  have op: "open_request i (sv_db s) = (Inl (AccessDenied ''err_trial_request_processed''), sv_db s)"
    using assms by (simp add: open_request_run trial_of_def)
  obtain x where gate: "trial_require_superadmin actor (sv_db s) = (x, sv_db s)"
    using superadmin_gate(1) [of actor] by (metis gate_def prod.collapse)
  show "\<exists>err. approve_trial_request e tv commits actor i s = (Inl err, s)"
    using gate by (cases x) (auto simp: approve_trial_request_def provision_trial_def op_bind_def on_db_def op)
  show "\<exists>err. on_db (reject_trial_request e actor i) s = (Inl err, s)"
    using gate by (cases x) (auto simp: reject_trial_request_def op_bind_def on_db_def op)
qed

definition owner_profile :: "user \<Rightarrow> telegram_user_profile" where
  "owner_profile u = \<lparr>pr_telegram_user_id = u_telegram_user_id u, pr_username = u_username u, pr_first_name = u_first_name u\<rparr>"

text \<open>The call of the key service that an approval makes.\<close>

definition provision_call :: "env \<Rightarrow> 'h trial_services \<Rightarrow> int \<Rightarrow> int \<Rightarrow> 'h service_state \<Rightarrow> (trial_key_request \<times> ('h, vpn_key) service_op) option" where
  "provision_call e tv actor i s = (case trial_of i s of None \<Rightarrow> None
     | Some q \<Rightarrow> (case (user_get_by_id (tr_telegram_user_id q) (sv_db s), trial_expires_at (ev_now e)) of
          (Some owner, Inr x) \<Rightarrow> if tr_status q = ''pending'' then Some (q, tv_create tv (tr_key_type q) actor (owner_profile owner) x) else None
        | _ \<Rightarrow> None))"

definition finish_provision :: "env \<Rightarrow> 'h trial_services \<Rightarrow> bool \<Rightarrow> int \<Rightarrow> int \<Rightarrow> trial_key_request \<Rightarrow> vpn_key \<Rightarrow> ('h, vpn_key) service_op" where
  "finish_provision e tv commits actor i q k =
     op_bind (op_try (if_commits commits (on_db (trial_approve i (vk_id k) actor (ev_now e)))) (\<lambda>err.
       op_bind (rollback_provisioned e tv (tr_key_type q) (vk_id k) actor) (\<lambda>_. op_raise err))) (\<lambda>_.
     op_return k)"

lemma provision_trial_call:
  "provision_trial e tv commits actor i s = (case provision_call e tv actor i s of
     Some (q, call) \<Rightarrow> op_bind call (finish_provision e tv commits actor i q) s
   | None \<Rightarrow> (Inl (case trial_of i s of None \<Rightarrow> NotFound ''err_trial_request_not_found''
        | Some q \<Rightarrow> if tr_status q \<noteq> ''pending'' then AccessDenied ''err_trial_request_processed''
            else (case user_get_by_id (tr_telegram_user_id q) (sv_db s) of None \<Rightarrow> NotFound ''err_trial_owner_not_found''
              | Some _ \<Rightarrow> projl (trial_expires_at (ev_now e)))), s))"
  unfolding provision_trial_def provision_call_def finish_provision_def
  by (simp add: op_bind_def on_db_def pure_sum_def op_get_def op_raise_def
      open_request_eq trial_of_def owner_profile_def split: option.splits sum.splits)

context trial_provisioner
begin

lemma create_rows:
  assumes "keys_ok (sv_db s)" "trials_unique (sv_db s)" "tv_create tv t actor p x s = (Inr k, s1)" "trial_of i s = Some q" "tr_status q = ''pending''"
    "user_get_by_id actor (sv_db s) \<noteq> None"
  shows "trial_of i s1 = Some q \<and> keys_ok (sv_db s1) \<and> key_get_by_id (vk_id k) (sv_db s) = None
    \<and> key_get_by_id (vk_id k) (sv_db s1) = Some k \<and> vk_status k = KeyActive
    \<and> (\<exists>s2. on_db (trial_approve i (vk_id k) actor now) s1 = (Inr (), s2)
        \<and> trial_of i s2 = Some (decided_row ''approved'' (Some (vk_id k)) actor now q)
        \<and> key_get_by_id (vk_id k) (sv_db s2) = Some k)"
proof -
  have quiet: "trial_tables s1 = trial_tables s" using create_quiet [of t actor p x s] assms(3) by simp
  then have q1: "trial_get i (sv_db s1) = Some q" using trial_of_tables [OF quiet, of i] assms(4) by (simp add: trial_of_def)
  have u1: "trials_unique (sv_db s1)" "user_get_by_id actor (sv_db s1) \<noteq> None"
    using quiet assms(2,6) by (simp_all add: trial_tables_def trials_unique_def user_get_by_id_def)
  note k = create_active [OF assms(1,3)]
  let ?f = "\<lambda>r. r\<lparr>tr_status := ''approved'', tr_key_id := Some (vk_id k), tr_decided_by := Some actor, tr_decided_at := Some now\<rparr>"
  let ?w = "(sv_db s1)\<lparr>db_trial_requests := update_where (is_pending i) ?f (db_trial_requests (sv_db s1))\<rparr>"
  have "trial_approve i (vk_id k) actor now (sv_db s1) = (Inr (), ?w)"
    using decide_trial_run(1) [OF q1 u1(1) assms(5), of ?f] k u1(2) by (simp add: trial_approve_def)
  moreover have "trial_get i ?w = Some (?f q)"
    using decide_trial_run(2) [OF q1 u1(1) assms(5), of ?f] by simp
  ultimately show ?thesis
    using k q1 by (auto simp: on_db_def trial_of_def decided_row_def key_get_by_id_def)
qed

lemma rollback_run:
  assumes "keys_ok (sv_db s)" "key_get_by_id kid (sv_db s) = Some k"
  shows "\<exists>s'. rollback_provisioned e tv t kid actor s = (Inr (), s') \<and> trial_tables s' = trial_tables s
    \<and> ((\<exists>k'. key_get_by_id kid (sv_db s') = Some k' \<and> terminal k') \<or> (\<exists>err. tv_revoke tv t kid actor s = (Inl err, s')))"
proof -
  obtain r s1 where rev: "tv_revoke tv t kid actor s = (r, s1)" by force
  have quiet: "trial_tables s1 = trial_tables s" using revoke_quiet [of t kid actor s] rev by simp
  show ?thesis
  proof (cases r)
    case (Inl err)
    with rev quiet show ?thesis by (simp add: rollback_provisioned_def op_attempt_def op_bind_def op_return_def)
  next
    case (Inr u)
    from revoke_over [OF assms rev [unfolded Inr]] obtain k' where k': "key_get_by_id kid (sv_db s1) = Some k'" "terminal k'" by blast
    from rev Inr have "rollback_provisioned e tv t kid actor s
        = (Inr (), s1\<lparr>sv_db := logged e (Some actor) ''trial_key_approve_rolled_back'' EntityVpnKey (Some kid) 0 (sv_db s1)\<rparr>)"
      by (simp add: rollback_provisioned_def op_attempt_def op_bind_def on_db_def audit_best_effort_logged)
    then show ?thesis using quiet k'
      by (auto simp: trial_tables_def logged_def audit_best_effort_run key_get_by_id_def)
  qed
qed

lemma approve_run:
  assumes "keys_ok (sv_db s)" "trials_unique (sv_db s)" "approve_trial_request e tv commits actor i s = (r, s')"
  shows "case r of
      Inr k \<Rightarrow> \<exists>q. trial_of i s = Some q \<and> tr_status q = ''pending''
        \<and> trial_of i s' = Some (decided_row ''approved'' (Some (vk_id k)) actor (ev_now e) q)
        \<and> key_get_by_id (vk_id k) (sv_db s) = None \<and> key_get_by_id (vk_id k) (sv_db s') = Some k \<and> vk_status k = KeyActive
        \<and> closed i s'
    | Inl err \<Rightarrow> s' = s
        \<or> (\<exists>q call. provision_call e tv actor i s = Some (q, call) \<and>
            (trial_of i s' = trial_of i s \<and> call s = (r, s')
             \<or> (\<exists>k s1. call s = (Inr k, s1) \<and>
                 (trial_of i s' = trial_of i s \<and> \<not> commits
                    \<and> ((\<exists>k'. key_get_by_id (vk_id k) (sv_db s') = Some k' \<and> terminal k')
                       \<or> (\<exists>err'. tv_revoke tv (tr_key_type q) (vk_id k) actor s1 = (Inl err', s')))
                  \<or> \<not> ev_audit_ok e \<and> key_get_by_id (vk_id k) (sv_db s') = Some k
                    \<and> trial_of i s' = Some (decided_row ''approved'' (Some (vk_id k)) actor (ev_now e) q)))))"
proof -
  obtain g where gate: "trial_require_superadmin actor (sv_db s) = (g, sv_db s)"
    using superadmin_gate(1) [of actor] by (metis gate_def prod.collapse)
  show ?thesis
  proof (cases g)
    case (Inl err)
    with gate assms(3) show ?thesis by (auto simp: approve_trial_request_def op_bind_def on_db_def)
  next
    case (Inr u)
    then have actor: "user_get_by_id actor (sv_db s) \<noteq> None"
      using gate by (auto simp: trial_require_superadmin_def op_simps split: if_splits option.splits)
    let ?audit = "\<lambda>k. on_db (audit_write e (Some actor) ''trial_key_approved'' EntityVpnKey (Some (vk_id k)) 0)"
    have run: "op_bind (provision_trial e tv commits actor i) (\<lambda>k. op_bind (?audit k) (\<lambda>_. op_return k)) s = (r, s')"
      using assms(3) gate Inr by (simp add: approve_trial_request_def op_bind_def on_db_def)
    show ?thesis
    proof (cases "provision_call e tv actor i s")
      case None
      with run show ?thesis by (simp add: provision_trial_call op_bind_def) (auto split: sum.splits)
    next
      case (Some qc)
      then obtain q call where call: "provision_call e tv actor i s = Some (q, call)" by (cases qc) auto
      then have q: "trial_of i s = Some q" "tr_status q = ''pending''"
        by (auto simp: provision_call_def split: option.splits sum.splits if_splits)
      obtain owner x where made: "call = tv_create tv (tr_key_type q) actor (owner_profile owner) x"
        using call by (auto simp: provision_call_def split: option.splits sum.splits if_splits)
      obtain c s1 where cr: "call s = (c, s1)" by force
      have prov: "provision_trial e tv commits actor i s = op_bind call (finish_provision e tv commits actor i q) s"
        by (simp add: provision_trial_call call)
      show ?thesis
      proof (cases c)
        case (Inl err)
        with run prov cr have rs: "r = Inl err" "s' = s1" by (auto simp: op_bind_def)
        have "trial_of i s1 = trial_of i s"
          using trial_of_tables [of s1 s i] create_quiet [of "tr_key_type q" actor "owner_profile owner" x s] cr made by simp
        with rs cr Inl call show ?thesis by auto
      next
        case (Inr k)
        have made_run: "tv_create tv (tr_key_type q) actor (owner_profile owner) x s = (Inr k, s1)" using cr Inr made by simp
        note rows = create_rows [OF assms(1,2) made_run q actor, of "ev_now e"]
        from rows obtain s2 where s2: "on_db (trial_approve i (vk_id k) actor (ev_now e)) s1 = (Inr (), s2)"
          "trial_of i s2 = Some (decided_row ''approved'' (Some (vk_id k)) actor (ev_now e) q)"
          "key_get_by_id (vk_id k) (sv_db s2) = Some k" by blast
        show ?thesis
        proof (cases commits)
          case True
          then have "provision_trial e tv commits actor i s = (Inr k, s2)"
            using prov cr Inr s2(1) by (simp add: op_bind_def finish_provision_def op_try_def if_commits_def op_return_def)
          with run have run2: "op_bind (?audit k) (\<lambda>_. op_return k) s2 = (r, s')" by (simp add: op_bind_def)
          have same: "trial_of i s' = trial_of i s2" "key_get_by_id (vk_id k) (sv_db s') = key_get_by_id (vk_id k) (sv_db s2)"
            using run2 by (auto simp: op_bind_def on_db_def audit_write_run op_return_def trial_of_def trial_get_def key_get_by_id_def split: if_splits)
          show ?thesis
          proof (cases r)
            case (Inl err)
            with run2 have "\<not> ev_audit_ok e" by (auto simp: op_bind_def on_db_def audit_write_run op_return_def split: if_splits)
            with Inl same s2 call cr Inr show ?thesis by auto
          next
            case (Inr k')
            with run2 have "k' = k" by (auto simp: op_bind_def on_db_def audit_write_run op_return_def split: if_splits)
            moreover have "closed i s'"
              by (rule closed_decided [of _ _ "decided_row ''approved'' (Some (vk_id k)) actor (ev_now e) q"])
                (simp_all add: same s2 decided_row_def)
            ultimately show ?thesis using Inr same s2 rows q by auto
          qed
        next
          case False
          obtain s3 where s3: "rollback_provisioned e tv (tr_key_type q) (vk_id k) actor s1 = (Inr (), s3)" "trial_tables s3 = trial_tables s1"
            "(\<exists>k'. key_get_by_id (vk_id k) (sv_db s3) = Some k' \<and> terminal k') \<or> (\<exists>err. tv_revoke tv (tr_key_type q) (vk_id k) actor s1 = (Inl err, s3))"
            using rollback_run [of s1 "vk_id k" k e "tr_key_type q" actor] rows by blast
          have rs: "r = Inl (RuntimeFailure ''database'')" "s' = s3"
            using run prov cr Inr False s3(1) by (auto simp: op_bind_def finish_provision_def op_try_def if_commits_def op_raise_def)
          have "trial_of i s3 = trial_of i s" using trial_of_tables [OF s3(2), of i] rows q by simp
          with rs s3(3) call cr Inr False show ?thesis by auto
        qed
      qed
    qed
  qed
qed

end


section \<open>The AmneziaWG service as a provisioner\<close>

definition awg_trials ::
  "env \<Rightarrow> library \<Rightarrow> awg_settings \<Rightarrow> ip_allocator \<Rightarrow> 'h awg_adapter \<Rightarrow> create_inputs \<Rightarrow> 'h trial_services" where
  "awg_trials e lib st al ad ci =
     \<lparr>tv_create = (\<lambda>t actor p x.
        if t = AWG then op_bind (create_awg_key e lib st al ad ci actor p None (Some x) True None) (\<lambda>(k, _). op_return k)
        else op_raise (RuntimeFailure ''service not wired'')),
      tv_revoke = (\<lambda>t kid actor.
        if t = AWG then op_bind (revoke_awg_key_system e lib ad kid (Some actor) ''awg_key_expired'') (\<lambda>_. op_return ())
        else op_raise (RuntimeFailure ''service not wired''))\<rparr>"

definition quiet :: "'h service_state \<Rightarrow> 'h service_state \<Rightarrow> bool" where
  "quiet s s' \<longleftrightarrow> trial_tables s' = trial_tables s \<and> (keys_ok (sv_db s) \<longrightarrow> keys_ok (sv_db s'))"

lemma quiet_rel [simp]: "reflp quiet" "transp quiet"
  by (auto simp: quiet_def reflp_def transp_def)

lemma quiet_on_db:
  assumes "\<And>w. numbers_kept 0 w (snd (m w))" "\<And>w. db_trial_requests (snd (m w)) = db_trial_requests w \<and> db_users (snd (m w)) = db_users w"
  shows "steps_in quiet (on_db m)"
  using assms by (auto simp: steps_in_def quiet_def trial_tables_def on_db_def numbers_kept_def split_beta)

lemma update_keys_tables: "db_trial_requests (snd (update_keys P f w)) = db_trial_requests w \<and> db_users (snd (update_keys P f w)) = db_users w"
  by (simp add: update_keys_run)

lemma mark_active_snd: "snd (mark_active i now p q w) = w
    \<or> snd (mark_active i now p q w) = snd (update_keys (\<lambda>k. vk_id k = i \<and> vk_status k \<in> {KeyPendingApply, KeyApplyFailed})
         (\<lambda>k. set_payloads p q (k\<lparr>vk_status := KeyActive, vk_updated_at := now\<rparr>)) w)"
  unfolding mark_active_def snd_transaction
  by (auto simp: op_bind_def op_get_def op_guard_def op_return_def split: prod.splits sum.splits)

lemma quiet_writes [simp]:
  "steps_in quiet (on_db (set_status i st now None))" "steps_in quiet (on_db (mark_revoked i actor now))"
  "steps_in quiet (on_db (mark_active i now p q))" "steps_in quiet (on_db (create_pending d now))"
proof -
  show "steps_in quiet (on_db (set_status i st now None))" "steps_in quiet (on_db (mark_revoked i actor now))"
    by (rule quiet_on_db; simp add: set_status_def mark_revoked_def snd_guard_after numbers_kept_update keeps_key_id_def update_keys_tables)+
  show "steps_in quiet (on_db (mark_active i now p q))"
  proof (rule quiet_on_db)
    fix w
    show "numbers_kept 0 w (snd (mark_active i now p q w))"
      using mark_active_snd [of i now p q w] by (auto simp: numbers_kept_update keeps_key_id_def)
    show "db_trial_requests (snd (mark_active i now p q w)) = db_trial_requests w \<and> db_users (snd (mark_active i now p q w)) = db_users w"
      using mark_active_snd [of i now p q w] by (elim disjE) (simp_all add: update_keys_tables)
  qed
  have "db_trial_requests (snd (create_pending d now w)) = db_trial_requests w \<and> db_users (snd (create_pending d now w)) = db_users w" for w
    by (auto simp: create_pending_def insert_key_def write_keys_def op_simps checked_relay_def
        split: option.splits sum.splits prod.splits if_splits)
  then show "steps_in quiet (on_db (create_pending d now))"
    by (intro quiet_on_db) (simp_all add: numbers_kept_create)
qed

lemma quiet_gate [simp]: "gate m \<Longrightarrow> steps_in quiet m"
  by (simp add: steps_gate)

lemma quiet_effects [simp]:
  "steps_in quiet (on_host m)" "steps_in quiet (awg_audit e a action i)" "steps_in quiet (mark_degraded reason)"
  by (auto simp: steps_in_def quiet_def trial_tables_def on_host_def awg_audit_def on_db_def audit_best_effort_logged mark_degraded_def op_modify_def
      split_beta) (simp_all add: logged_def audit_best_effort_run)

lemma quiet_attempt [simp]: "steps_in quiet m \<Longrightarrow> steps_in quiet (op_attempt m)"
  by (simp add: steps_in_def op_attempt_def split_beta)

lemma quiet_if_commits [simp]: "steps_in quiet m \<Longrightarrow> steps_in quiet (if_commits ok m)"
  by (simp add: if_commits_def)

lemmas quiet_steps = steps_bind [OF quiet_rel(2)] steps_try [OF quiet_rel(2)]

lemma awg_create_quiet: "steps_in quiet (create_awg_key e lib st al ad ci actor owner note x allow mtu)"
  unfolding create_awg_key_def prepare_awg_key_def insert_awg_key_def apply_awg_key_def activate_awg_key_def
    compensate_failed_create_after_apply_def
  by (auto intro!: quiet_steps split: sum.split prod.split)

lemma awg_revoke_quiet: "steps_in quiet (revoke_awg_key_system e lib ad kid actor action)"
  unfolding revoke_awg_key_system_def pending_then_remove_def remove_awg_access_def removal_public_key_def
  by (auto intro!: quiet_steps)

lemma next_key_free: "key_get_by_id (next_key_id w) w = None"
  using next_id_fresh by (simp add: key_get_by_id_def)

lemma awg_create_active:
  assumes "keys_ok (sv_db s)"
    and "create_awg_key e lib st al (tunnel_adapter lib tool io dump) ci actor owner note x allow mtu s = (Inr (k, shown), s')"
  shows "keys_ok (sv_db s') \<and> key_get_by_id (vk_id k) (sv_db s) = None \<and> key_get_by_id (vk_id k) (sv_db s') = Some k \<and> vk_status k = KeyActive"
proof -
  have "quiet s (snd (create_awg_key e lib st al (tunnel_adapter lib tool io dump) ci actor owner note x allow mtu s))"
    by (rule awg_create_quiet [unfolded steps_in_def, rule_format])
  then have ok: "keys_ok (sv_db s')" using assms by (simp add: quiet_def)
  from tunnel.create_run [OF assms] obtain k' where
    "key_get_by_id (next_key_id (sv_db s)) (sv_db s') = Some k'" "vk_status k' = KeyActive"
    "Inr (k, shown) = sum_bind (format_config lib st (tunnel_adapter lib tool io dump) k' actor (sv_host s')) (\<lambda>sh. Inr (k', sh))"
    by (auto simp: tunnel.creation_outcome_def tunnel.row_outcome_def)
  then have "key_get_by_id (next_key_id (sv_db s)) (sv_db s') = Some k" "vk_status k = KeyActive"
    by (auto simp: sum_bind_def split: sum.splits)
  moreover from this have "vk_id k = next_key_id (sv_db s)" by (blast dest: key_get_Some)
  ultimately show ?thesis using ok by (simp add: next_key_free)
qed

lemma awg_revoke_over:
  assumes "keys_ok (sv_db s)" "key_get_by_id kid (sv_db s) = Some k"
    and "revoke_awg_key_system e lib (tunnel_adapter lib tool io dump) kid actor action s = (Inr k', s')"
  shows "\<exists>k'. key_get_by_id kid (sv_db s') = Some k' \<and> terminal k'"
proof (cases "terminal k")
  case False
  from tunnel.revoke_system_run [OF assms(1,2) False assms(3)] key_get_Some [OF assms(2)] show ?thesis
    by (auto simp: tunnel.revoked_outcome_def revoked_row_def terminal_def)
next
  case True
  have "s' = s"
    using assms(3) unfolding revoke_awg_key_system_def
    by (elim through_gates [where Q = "\<lambda>r t. t = s"]) (use assms(2) True in \<open>auto simp: on_db_Inr get_key_run terminal_def op_return_run\<close>)
  with assms(2) True show ?thesis by blast
qed

lemma awg_trials_quiet:
  "steps_in quiet (tv_create (awg_trials e lib st al ad ci) t actor p x)" "steps_in quiet (tv_revoke (awg_trials e lib st al ad ci) t kid actor)"
  by (auto simp: awg_trials_def intro!: quiet_steps awg_create_quiet awg_revoke_quiet split: prod.split)

lemma awg_trials_tables:
  "trial_tables (snd (tv_create (awg_trials e lib st al ad ci) t actor p x s)) = trial_tables s"
  "trial_tables (snd (tv_revoke (awg_trials e lib st al ad ci) t kid actor s)) = trial_tables s"
  by (rule awg_trials_quiet(1) [unfolded steps_in_def quiet_def, rule_format, THEN conjunct1])
    (rule awg_trials_quiet(2) [unfolded steps_in_def quiet_def, rule_format, THEN conjunct1])

interpretation awg_trial: trial_provisioner "awg_trials e lib st al (tunnel_adapter lib tool io dump) ci" for e lib st al tool io dump ci
proof unfold_locales
  show "trial_tables (snd (tv_create (awg_trials e lib st al (tunnel_adapter lib tool io dump) ci) t actor p x s)) = trial_tables s"
    "trial_tables (snd (tv_revoke (awg_trials e lib st al (tunnel_adapter lib tool io dump) ci) t kid actor s)) = trial_tables s" for t actor p x s kid
    by (simp_all add: awg_trials_tables)
  show "keys_ok (sv_db s') \<and> key_get_by_id (vk_id k) (sv_db s) = None \<and> key_get_by_id (vk_id k) (sv_db s') = Some k \<and> vk_status k = KeyActive"
    if "keys_ok (sv_db s)" "tv_create (awg_trials e lib st al (tunnel_adapter lib tool io dump) ci) t actor p x s = (Inr k, s')" for s t actor p x k s'
    using that awg_create_active [OF that(1)]
    by (auto simp: awg_trials_def op_bind_Inr op_return_run op_raise_run split: if_splits)
  show "\<exists>k'. key_get_by_id kid (sv_db s') = Some k' \<and> terminal k'"
    if "keys_ok (sv_db s)" "key_get_by_id kid (sv_db s) = Some k" "tv_revoke (awg_trials e lib st al (tunnel_adapter lib tool io dump) ci) t kid actor s = (Inr u, s')" for s kid k t actor u s'
    using that awg_revoke_over [OF that(1,2)]
    by (auto simp: awg_trials_def op_bind_Inr op_return_run op_raise_run split: if_splits)
qed

section \<open>One trial per quota\<close>

datatype 'h trial_cmd =
    AskTrial int vpn_key_type
  | ApproveTrial "'h trial_services" bool int int
  | RejectTrial int int
  | ResetTrial int int

fun run_trial :: "env \<times> 'h trial_cmd \<Rightarrow> 'h service_state \<Rightarrow> 'h service_state" where
  "run_trial (e, AskTrial uid t) s = snd (on_db (create_trial_request e uid t) s)"
| "run_trial (e, ApproveTrial tv commits actor i) s = snd (approve_trial_request e tv commits actor i s)"
| "run_trial (e, RejectTrial actor i) s = snd (on_db (reject_trial_request e actor i) s)"
| "run_trial (e, ResetTrial actor uid) s = snd (on_db (admin_reset_trial_quota e actor uid) s)"

fun cmd_ok :: "env \<times> 'h trial_cmd \<Rightarrow> bool" where
  "cmd_ok (e, ApproveTrial tv commits actor i) = trial_provisioner tv"
| "cmd_ok (e, c) = True"

definition calmer :: "'h service_state \<Rightarrow> 'h service_state \<Rightarrow> bool" where
  "calmer s s' \<longleftrightarrow> db_users (sv_db s') = db_users (sv_db s)
     \<and> (\<forall>uid reset. count_used_since_reset uid reset (sv_db s') \<le> count_used_since_reset uid reset (sv_db s))
     \<and> tr_requested_at ` set (db_trial_requests (sv_db s')) = tr_requested_at ` set (db_trial_requests (sv_db s))"

lemma calmer_rel [simp]: "reflp calmer" "transp calmer"
proof -
  show "reflp calmer" by (simp add: calmer_def reflp_def)
  show "transp calmer"
  proof (rule transpI)
    fix a b c :: "'h service_state"
    assume "calmer a b" "calmer b c"
    then show "calmer a c" by (auto simp: calmer_def) (meson order_trans)
  qed
qed

lemma calmer_quiet: "trial_tables s' = trial_tables s \<Longrightarrow> calmer s s'"
  by (simp add: calmer_def trial_tables_def count_used_since_reset_def)

lemma count_update_le:
  "(\<And>r. P (f r) \<Longrightarrow> P r) \<Longrightarrow> count_where P (update_where Q f rows) \<le> count_where P rows"
  by (induction rows) (auto simp: count_where_def update_where_def)

lemma calmer_decide:
  assumes "\<And>r. tr_requested_at (f r) = tr_requested_at r \<and> tr_telegram_user_id (f r) = tr_telegram_user_id r"
    "\<And>r. is_pending i r \<Longrightarrow> tr_status r \<noteq> ''rejected''"
  shows "steps_in calmer (on_db (decide_trial i linked f))"
  unfolding steps_in_def
proof
  fix s :: "'h service_state"
  have count: "count_where (counts_since uid reset) (update_where (is_pending i) f rows) \<le> count_where (counts_since uid reset) rows" for uid reset rows
  proof -
    have "update_where (is_pending i) f rows = update_where (\<lambda>_. True) (\<lambda>r. if is_pending i r then f r else r) rows"
      by (simp add: update_where_def)
    moreover have "counts_since uid reset (if is_pending i r then f r else r) \<Longrightarrow> counts_since uid reset r" for r
      using assms(1) [of r] assms(2) [of r] by (auto simp: counts_since_def split: if_splits)
    then have "count_where (counts_since uid reset) (update_where (\<lambda>_. True) (\<lambda>r. if is_pending i r then f r else r) rows)
        \<le> count_where (counts_since uid reset) rows" by (rule count_update_le)
    ultimately show ?thesis by (simp only:)
  qed
  have times: "tr_requested_at ` set (update_where (is_pending i) f rows) = tr_requested_at ` set rows" for rows
    by (rule ids_kept) (simp add: assms(1))
  show "calmer s (snd (on_db (decide_trial i linked f) s))"
    by (auto simp: on_db_def decide_trial_def op_simps calmer_def count_used_since_reset_def count times)
qed

lemma calmer_decisions [simp]:
  "steps_in calmer (on_db (trial_approve i kid actor now))" "steps_in calmer (on_db (trial_reject i actor now))"
  unfolding trial_approve_def trial_reject_def by (rule calmer_decide; simp add: is_pending_def)+

lemma calmer_logs [simp]:
  "steps_in calmer (on_db (audit_write e a b c d n))" "steps_in calmer (on_db (audit_write_best_effort e a b c d n))"
  by (auto simp: steps_in_def calmer_def on_db_def audit_write_run audit_best_effort_run count_used_since_reset_def)

lemmas calmer_steps = steps_bind [OF calmer_rel(2)] steps_try [OF calmer_rel(2)]

lemma calmer_gate: "gate m \<Longrightarrow> steps_in calmer m"
  by (simp add: steps_gate)

lemma gate_get_user: "gate (get_user uid)"
  by (auto simp: gate_def get_user_run split: option.splits)

lemma calmer_approve:
  assumes "trial_provisioner tv"
  shows "steps_in calmer (approve_trial_request e tv commits actor i)"
proof -
  note quiet = trial_provisioner.create_quiet [OF assms] trial_provisioner.revoke_quiet [OF assms]
  have create: "steps_in calmer (tv_create tv t a p x)" and revoke: "steps_in calmer (tv_revoke tv t kid a)" for t a p x kid
    by (simp_all add: steps_in_def calmer_quiet quiet)
  have attempt: "steps_in calmer (op_attempt (tv_revoke tv t kid a))" for t kid a
    using revoke [of t kid a] by (simp add: steps_in_def op_attempt_def split_beta)
  have commit: "steps_in calmer (if_commits commits (on_db (trial_approve i kid a now)))" for kid a now
    by (simp add: if_commits_def calmer_gate)
  have gates: "steps_in calmer (on_db (trial_require_superadmin actor))" "steps_in calmer (on_db (open_request i))"
    "steps_in calmer (on_db (op_get f))" "steps_in calmer (pure_sum y)" "steps_in calmer (op_raise err)" "steps_in calmer (op_return z)"
    for f y err z
    by (intro calmer_gate gate_on_db superadmin_gate gate_pure_sum gate_simple)+
  show ?thesis
    unfolding approve_trial_request_def provision_trial_def rollback_provisioned_def
    by (auto intro!: calmer_steps create attempt commit gates split: option.split sum.split)
qed

lemma on_db_bind: "on_db (op_bind m f) = op_bind (on_db m) (\<lambda>x. on_db (f x))"
  by (rule ext) (simp add: on_db_def op_bind_def split: prod.splits sum.splits)

lemma calmer_reject: "steps_in calmer (on_db (reject_trial_request e actor i))"
  unfolding reject_trial_request_def on_db_bind
  by (intro calmer_steps calmer_decisions calmer_logs calmer_gate [OF gate_on_db] superadmin_gate)

definition used_now :: "int \<Rightarrow> world \<Rightarrow> int" where
  "used_now uid w = count_used_since_reset uid (get_trial_quota_reset_at uid w) w"

definition quota_ok :: "string \<Rightarrow> 'h service_state \<Rightarrow> bool" where
  "quota_ok now s \<longleftrightarrow> (\<forall>uid. used_now uid (sv_db s) \<le> 1) \<and> (\<forall>r \<in> set (db_trial_requests (sv_db s)). tr_requested_at r \<le> now)"

lemma quota_calmer:
  assumes "calmer s s'" "quota_ok now s"
  shows "quota_ok now s'"
proof -
  have "get_trial_quota_reset_at uid (sv_db s') = get_trial_quota_reset_at uid (sv_db s)" for uid
    using assms(1) by (simp add: calmer_def get_trial_quota_reset_at_def user_get_by_id_def)
  moreover have "\<forall>t \<in> tr_requested_at ` set (db_trial_requests (sv_db s')). t \<le> now"
  proof -
    have "tr_requested_at ` set (db_trial_requests (sv_db s')) = tr_requested_at ` set (db_trial_requests (sv_db s))"
      using assms(1) by (simp add: calmer_def)
    then show ?thesis using assms(2) by (simp add: quota_ok_def)
  qed
  then have "\<forall>r \<in> set (db_trial_requests (sv_db s')). tr_requested_at r \<le> now" by simp
  ultimately show ?thesis
    using assms unfolding quota_ok_def used_now_def calmer_def by auto (meson order_trans)
qed

lemma ask_rows:
  assumes "create_trial_request e uid t w = (r, w')"
  shows "db_users w' = db_users w \<and> (db_trial_requests w' = db_trial_requests w
     \<or> can_request_trial uid w \<and> (\<exists>i. db_trial_requests w' = db_trial_requests w @ [new_trial_row i uid t (ev_now e)]))"
proof -
  obtain g where u: "get_user uid w = (g, w)" using gate_get_user [of uid] by (metis gate_def prod.collapse)
  show ?thesis
    using assms by (auto simp: create_trial_request_def op_bind_def u op_guard_def op_transaction_def op_get_def trial_create_def Let_def
        op_modify_def op_raise_def op_return_def audit_write_run split: sum.splits prod.splits if_splits option.splits)
qed

lemma quota_ask:
  assumes "quota_ok now s" "now \<le> ev_now e"
  shows "quota_ok (ev_now e) (snd (on_db (create_trial_request e uid t) s))"
proof -
  obtain r w' where run: "create_trial_request e uid t (sv_db s) = (r, w')" by force
  have rows: "\<forall>r \<in> set (db_trial_requests (sv_db s)). tr_requested_at r \<le> ev_now e"
    using assms by (auto simp: quota_ok_def)
  have counts: "used_now v w' = used_now v (sv_db s) + (if db_trial_requests w' = db_trial_requests (sv_db s) then 0
      else count_where (counts_since v (get_trial_quota_reset_at v (sv_db s))) [last (db_trial_requests w')])" for v
    using ask_rows [OF run]
    by (auto simp: used_now_def count_used_since_reset_def get_trial_quota_reset_at_def user_get_by_id_def count_where_def)
  have "used_now v w' \<le> 1" for v
  proof (cases "v = uid")
    case True
    have "count_where P [x] \<le> 1" for P and x :: trial_key_request by (simp add: count_where_def)
    moreover have "used_now uid (sv_db s) = 0" if "can_request_trial uid (sv_db s)"
      using that by (simp add: used_now_def can_request_trial_def)
    moreover have "used_now uid (sv_db s) \<le> 1" using assms(1) by (simp add: quota_ok_def)
    ultimately show ?thesis using ask_rows [OF run] counts [of uid] True by auto
  next
    case False
    have "used_now v (sv_db s) \<le> 1" using assms(1) by (simp add: quota_ok_def)
    with False ask_rows [OF run] counts [of v] show ?thesis by (auto simp: count_where_def counts_since_def new_trial_row_def)
  qed
  moreover have "\<forall>r \<in> set (db_trial_requests w'). tr_requested_at r \<le> ev_now e"
    using rows ask_rows [OF run] by (auto simp: new_trial_row_def)
  ultimately show ?thesis by (simp add: quota_ok_def on_db_def run)
qed

lemma quota_reset:
  assumes "quota_ok now s" "now \<le> ev_now e"
  shows "quota_ok (ev_now e) (snd (on_db (admin_reset_trial_quota e actor uid) s))"
proof -
  obtain g where gate: "trial_require_superadmin actor (sv_db s) = (g, sv_db s)"
    using superadmin_gate(1) [of actor] by (metis gate_def prod.collapse)
  have rows: "\<forall>r \<in> set (db_trial_requests (sv_db s)). tr_requested_at r \<le> ev_now e"
    using assms by (auto simp: quota_ok_def)
  show ?thesis
  proof (cases g)
    case (Inl err)
    with gate assms rows show ?thesis by (simp add: admin_reset_trial_quota_def op_bind_def on_db_def quota_ok_def)
  next
    case (Inr u)
    let ?f = "\<lambda>u. u\<lparr>u_trial_quota_reset_at := Some (ev_now e), u_updated_at := ev_now e\<rparr>"
    let ?w = "(sv_db s)\<lparr>db_users := update_where (has_id uid) ?f (db_users (sv_db s))\<rparr>"
    obtain w' where w': "snd (on_db (admin_reset_trial_quota e actor uid) s) = s\<lparr>sv_db := w'\<rparr>"
      "db_users w' = db_users ?w" "db_trial_requests w' = db_trial_requests (sv_db s)"
      using gate Inr by (cases "ev_audit_ok e")
        (simp_all add: admin_reset_trial_quota_def op_bind_def on_db_def reset_trial_quota_def op_modify_def audit_write_run)
    have users: "user_get_by_id v w' = map_option (\<lambda>u. if has_id uid u then ?f u else u) (user_get_by_id v (sv_db s))" for v
      using find_update_key [of u_telegram_user_id ?f v "has_id uid" "db_users (sv_db s)"] by (simp add: user_get_by_id_def w'(2))
    have "used_now v w' \<le> 1" for v
    proof (cases "v = uid \<and> user_get_by_id uid (sv_db s) \<noteq> None")
      case True
      then obtain u0 where u0: "user_get_by_id uid (sv_db s) = Some u0" "u_telegram_user_id u0 = uid"
        by (auto simp: user_get_by_id_def dest: find_Some_in)
      with users [of uid] have "get_trial_quota_reset_at uid w' = Some (ev_now e)" by (simp add: get_trial_quota_reset_at_def)
      moreover have "\<not> counts_since uid (Some (ev_now e)) r" if "r \<in> set (db_trial_requests (sv_db s))" for r
        using rows that by (auto simp: counts_since_def epoch_text_def not_less)
      ultimately have "used_now uid w' = 0"
        using w'(3) by (auto simp: used_now_def count_used_since_reset_def count_where_def filter_empty_conv)
      with True show ?thesis by simp
    next
      case False
      have "get_trial_quota_reset_at v w' = get_trial_quota_reset_at v (sv_db s)"
      proof (cases "user_get_by_id v (sv_db s)")
        case None
        with users [of v] show ?thesis by (simp add: get_trial_quota_reset_at_def)
      next
        case (Some u0)
        then have "u_telegram_user_id u0 = v" by (auto simp: user_get_by_id_def dest: find_Some_in)
        with Some False users [of v] show ?thesis by (auto simp: get_trial_quota_reset_at_def)
      qed
      then have "used_now v w' = used_now v (sv_db s)" by (simp add: used_now_def count_used_since_reset_def w'(3))
      with assms(1) show ?thesis by (simp add: quota_ok_def)
    qed
    with rows w' show ?thesis by (simp add: quota_ok_def)
  qed
qed

lemma quota_step:
  assumes "quota_ok now s" "now \<le> ev_now e" "cmd_ok (e, c)"
  shows "quota_ok (ev_now e) (run_trial (e, c) s)"
proof -
  have later: "quota_ok (ev_now e) s" using assms(1,2) by (auto simp: quota_ok_def)
  show ?thesis
  proof (cases c)
    case (AskTrial uid t)
    with quota_ask [OF assms(1,2)] show ?thesis by simp
  next
    case (ApproveTrial tv commits actor i)
    with calmer_approve [of tv e commits actor i] assms(3) later show ?thesis
      by (auto simp: steps_in_def intro: quota_calmer)
  next
    case (RejectTrial actor i)
    with calmer_reject [of e actor i] later show ?thesis by (auto simp: steps_in_def intro: quota_calmer)
  next
    case (ResetTrial actor uid)
    with quota_reset [OF assms(1,2)] show ?thesis by simp
  qed
qed


text \<open>The expiry of a trial key is a later time stamp than the clock's.\<close>

lemma trial_expires_later:
  assumes "trial_expires_at (isoformat d) = Inr x" "instant_ok d"
  shows "isoformat d < x \<and> (\<exists>r. x = isoformat r \<and> instant_ok r)"
  using assms add_days_text [OF assms(2), of trial_days] add_days_later [OF assms(2), of trial_days]
  by (auto simp: trial_expires_at_def trial_days_def fromisoformat_isoformat split: option.splits)

section \<open>An example\<close>

definition demo_trial_service :: "string list tunnel service_state" where
  "demo_trial_service = demo_service\<lparr>sv_db := (sv_db demo_service)\<lparr>db_users := [demo_user 1 SUPERADMIN, demo_user 2 PENDING_USER]\<rparr>\<rparr>"

definition trial_env :: env where
  "trial_env = service_env\<lparr>ev_now := ''2026-02-24T23:05:09+00:00''\<rparr>"

definition demo_trials :: "string list tunnel trial_services" where
  "demo_trials = awg_trials trial_env plain_library demo_awg_settings demo_pool demo_adapter demo_inputs"

definition asked_trial :: "string list tunnel service_state" where
  "asked_trial = run_trial (trial_env, AskTrial 2 AWG) demo_trial_service"

lemma asked_trial_row: "trial_of 1 asked_trial = Some (new_trial_row 1 2 AWG ''2026-02-24T23:05:09+00:00'')"
  by code_simp

lemma asked_trial_ok: "keys_ok (sv_db asked_trial)" "trials_unique (sv_db asked_trial)"
proof -
  have keys: "db_vpn_keys (sv_db demo_trial_service) = db_vpn_keys (sv_db demo_service)"
    "db_vpn_key_seq (sv_db demo_trial_service) = db_vpn_key_seq (sv_db demo_service)"
    by (simp_all add: demo_trial_service_def)
  obtain r w' where run: "create_trial_request trial_env 2 AWG (sv_db demo_trial_service) = (r, w')" by force
  have "db_vpn_keys w' = db_vpn_keys (sv_db demo_trial_service) \<and> db_vpn_key_seq w' = db_vpn_key_seq (sv_db demo_trial_service)"
    using run by (auto simp: create_trial_request_def get_user_def op_simps trial_create_def Let_def audit_write_run split: sum.splits prod.splits if_splits option.splits)
  then have "keys_ok w' = keys_ok (sv_db demo_service)" using keys same_keys(2) by metis
  then show "keys_ok (sv_db asked_trial)" using demo_service_ok(1) by (simp add: asked_trial_def on_db_def run)
  show "trials_unique (sv_db asked_trial)" unfolding trials_unique_def by code_simp
qed



end
