(* ===== verification/Relays.thy ===== *)
theory Relays
  imports Awg_Client
begin

text \<open>
  \<open>services/relay.py\<close> and \<open>services/key_naming.py\<close>: which host the link of a key points at, and the name
  the link shows. A snapshot is the list of the relays in the order of their numbers. Characters
  beyond Latin-1 stand as ASCII tags: the circle of a subscription member is the name of its colour.
\<close>

section \<open>Snapshots of the relays\<close>

type_synonym relay_snapshot = "relay list"

definition snapshot_of :: "relay list \<Rightarrow> relay_snapshot" where
  "snapshot_of relays = sort_key ry_id relays"

definition snapshot_get :: "relay_snapshot \<Rightarrow> string \<Rightarrow> relay option" where
  "snapshot_get rs name = find (\<lambda>r. ry_name r = name) rs"

definition snapshot_by_id :: "relay_snapshot \<Rightarrow> int \<Rightarrow> relay option" where
  "snapshot_by_id rs i = find (\<lambda>r. ry_id r = i) rs"

definition snapshot_enabled :: "relay_snapshot \<Rightarrow> relay list" where
  "snapshot_enabled rs = filter ry_enabled rs"

definition for_subscriptions :: "relay_snapshot \<Rightarrow> relay list" where
  "for_subscriptions rs = filter (\<lambda>r. ry_enabled r \<and> ry_in_subscriptions r) rs"

fun group_from :: "nat \<Rightarrow> relay list \<Rightarrow> string \<Rightarrow> nat" where
  "group_from n [] name = n"
| "group_from n (r # rs) name = (if ry_name r = name then n else group_from (Suc n) rs name)"

definition group_of :: "relay_snapshot \<Rightarrow> string option \<Rightarrow> nat" where
  "group_of rs name = (case name of None \<Rightarrow> 0 | Some n \<Rightarrow> group_from 1 rs n)"

text \<open>Every network once, in the order of its first relay.\<close>

definition source_networks :: "relay_snapshot \<Rightarrow> ipv4net list" where
  "source_networks rs = fold (\<lambda>n acc. if n \<in> set acc then acc else acc @ [n]) (concat (map ry_source_ips rs)) []"

definition relay_available :: "relay_snapshot \<Rightarrow> string \<Rightarrow> bool" where
  "relay_available rs name = (case snapshot_get rs name of None \<Rightarrow> False | Some r \<Rightarrow> ry_enabled r \<and> ry_host r \<noteq> [])"

definition relay_link_host :: "relay_snapshot \<Rightarrow> string option \<Rightarrow> string \<Rightarrow> service_error + string" where
  "relay_link_host rs name direct_host = (case name of None \<Rightarrow> Inr direct_host
     | Some n \<Rightarrow> (case snapshot_get rs n of
          Some r \<Rightarrow> if ry_enabled r \<and> ry_host r \<noteq> [] then Inr (ry_host r) else Inl (RelayUnavailable n)
        | None \<Rightarrow> Inl (RelayUnavailable n)))"

definition relay_marker :: "relay_snapshot \<Rightarrow> string \<Rightarrow> service_error + string" where
  "relay_marker rs name = (case snapshot_get rs name of None \<Rightarrow> Inl (RelayUnavailable name) | Some r \<Rightarrow> Inr (ry_label r))"

definition require_relay_for_issue :: "relay_snapshot \<Rightarrow> string option \<Rightarrow> service_error + string option" where
  "require_relay_for_issue rs name = (case name of None \<Rightarrow> Inr None
     | Some n \<Rightarrow> if n = [] then Inr None else if relay_available rs n then Inr (Some n) else Inl (RelayUnavailable n))"

section \<open>Names of keys\<close>

definition xhttp_profiles :: "string list" where
  "xhttp_profiles = [''base'', ''multi'', ''antisib'']"

definition xhttp_default_profile :: string where
  "xhttp_default_profile = ''base''"

definition preference_marks :: "(string, string) dict" where
  "preference_marks = [(''xray_tcp'', ''(green)''), (''hysteria2'', ''(green)''), (''xray_http_base'', ''(yellow)''),
     (''xray_http_multi'', ''(orange)''), (''xray_http_antisib'', ''(red)'')]"

definition basic_alt_suffix :: string where
  "basic_alt_suffix = ''(alt.)''"

datatype name_style = SingleStyle | BasicStyle | ExtendedStyle

definition bundle_name_style :: "key_bundle_kind \<Rightarrow> name_style" where
  "bundle_name_style kind = (case kind of Basic \<Rightarrow> BasicStyle | Extended \<Rightarrow> ExtendedStyle)"

text \<open>\<open>str(value or "")\<close>, and the first truthy one of two values.\<close>

definition text_or_empty :: "library \<Rightarrow> json \<Rightarrow> string" where
  "text_or_empty lib v = (if json_truthy v then py_str lib v else [])"

definition json_or :: "json \<Rightarrow> json \<Rightarrow> json" where
  "json_or a b = (if json_truthy a then a else b)"

definition json_text :: "string option \<Rightarrow> json" where
  "json_text t = (case t of None \<Rightarrow> JNull | Some s \<Rightarrow> JStr s)"

definition normalize_transport :: "library \<Rightarrow> json \<Rightarrow> string" where
  "normalize_transport lib v = (if lower (strip (text_or_empty lib v)) = ''http'' then ''http'' else ''tcp'')"

definition normalize_profile :: "library \<Rightarrow> json \<Rightarrow> string" where
  "normalize_profile lib v = (let profile = lower (strip (text_or_empty lib v))
     in if profile \<in> set xhttp_profiles then profile else xhttp_default_profile)"

definition key_transport :: "library \<Rightarrow> vpn_key \<Rightarrow> string" where
  "key_transport lib k = normalize_transport lib (json_or (JStr (vk_transport k)) (json_get (vk_payload k) ''transport''))"

definition profile_prefix :: "string \<Rightarrow> string" where
  "profile_prefix p = ''xray_http_'' @ p @ ''_''"

definition key_profile :: "library \<Rightarrow> vpn_key \<Rightarrow> string" where
  "key_profile lib k =
     (let raw = json_or (JStr (vk_xhttp_profile k)) (json_get (vk_payload k) ''xhttp_profile'')
      in if json_truthy raw then normalize_profile lib raw
         else let label = text_or_empty lib (json_or (json_text (vk_email_label k)) (json_get (vk_payload k) ''email_label''))
              in case find (\<lambda>p. startswith (profile_prefix p) label) xhttp_profiles of
                   Some p \<Rightarrow> p | None \<Rightarrow> xhttp_default_profile)"

definition key_member_name :: "library \<Rightarrow> vpn_key \<Rightarrow> string" where
  "key_member_name lib k =
     (if vk_key_type k = XRAY
      then if key_transport lib k = ''http'' then ''xray_http_'' @ key_profile lib k else ''xray_tcp''
      else vpn_key_type_value (vk_key_type k))"

definition key_label :: "library \<Rightarrow> vpn_key \<Rightarrow> string" where
  "key_label lib k =
     (let stored = json_text (vk_email_label k); kept = json_get (vk_payload k) ''email_label''
      in text_or_empty lib (if vk_key_type k = XRAY then json_or kept stored else json_or stored kept))"

definition name_tail :: "library \<Rightarrow> vpn_key \<Rightarrow> name_style \<Rightarrow> string \<Rightarrow> string" where
  "name_tail lib k style flag =
     (if style = ExtendedStyle
      then (case map_of preference_marks (key_member_name lib k) of None \<Rightarrow> [] | Some m \<Rightarrow> m)
      else flag @ (if style = BasicStyle \<and> vk_key_type k = HYSTERIA2 then basic_alt_suffix else []))"

definition key_display_name :: "library \<Rightarrow> vpn_key \<Rightarrow> name_style \<Rightarrow> string \<Rightarrow> relay_snapshot \<Rightarrow> service_error + string" where
  "key_display_name lib k style flag rs =
     (let label = key_label lib k; tail = name_tail lib k style flag
      in if label = [] then Inr []
         else case vk_relay k of
           Some (c # name) \<Rightarrow> sum_bind (relay_marker rs (c # name)) (\<lambda>m. Inr (label @ ''_'' @ m @ tail))
         | _ \<Rightarrow> Inr (if tail = [] then label else label @ ''_'' @ tail))"

section \<open>Lemmas\<close>

lemma snapshot_get_in: "snapshot_get rs n = Some r \<Longrightarrow> r \<in> set rs \<and> ry_name r = n"
  unfolding snapshot_get_def by (rule find_Some_in)

text \<open>A link never falls back to the main host: a relay key's host is that of its enabled relay.\<close>

lemma relay_link_host_exact:
  "relay_link_host rs name direct = Inr h \<longleftrightarrow> (case name of None \<Rightarrow> h = direct
     | Some n \<Rightarrow> \<exists>r. snapshot_get rs n = Some r \<and> ry_enabled r \<and> ry_host r = h \<and> h \<noteq> [])"
  by (auto simp: relay_link_host_def split: option.splits)

lemma available_iff_link: "relay_available rs n \<longleftrightarrow> (\<exists>h. relay_link_host rs (Some n) direct = Inr h)"
  by (auto simp: relay_available_def relay_link_host_def split: option.splits)

text \<open>A relay member carries the circle of its direct twin.\<close>

lemma twin_member: "key_member_name lib (k\<lparr>vk_relay := x\<rparr>) = key_member_name lib k"
  by (simp add: key_member_name_def key_transport_def key_profile_def Let_def)

lemma twin_tail: "name_tail lib (k\<lparr>vk_relay := x\<rparr>) style flag = name_tail lib k style flag"
  by (simp add: name_tail_def twin_member)

lemma source_networks_set: "set (source_networks rs) = (\<Union>r \<in> set rs. set (ry_source_ips r)) \<and> distinct (source_networks rs)"
proof -
  have "set (fold (\<lambda>n acc. if n \<in> set acc then acc else acc @ [n]) xs acc) = set acc \<union> set xs
      \<and> (distinct acc \<longrightarrow> distinct (fold (\<lambda>n acc. if n \<in> set acc then acc else acc @ [n]) xs acc))" for xs acc :: "ipv4net list"
    by (induction xs arbitrary: acc) auto
  from this [of "concat (map ry_source_ips rs)" "[]"] show ?thesis by (simp add: source_networks_def)
qed

end
