(* ===== verification/Relay_Admin.thy ===== *)
theory Relay_Admin
  imports Relays Blocking_Properties
begin

text \<open>
  \<open>services/relay_management.py\<close> and \<open>repositories/relays.py\<close>: the relays of the admin panel. The
  state is that of a key service with the counter of the table and the snapshot the bot renders
  links from. A row keeps its source networks as the list their text stands for (it reads back as
  the same list, \<open>networks_round_trip\<close>). How the keys of a protocol are deleted is an argument.
\<close>

record 'h relay_state =
  rl_service :: "'h service_state"
  rl_seq :: int
  rl_catalog :: relay_snapshot

type_synonym ('h, 'a) relay_op = "('h relay_state, service_error, 'a) op"

definition on_service :: "('h, 'a) service_op \<Rightarrow> ('h, 'a) relay_op" where
  "on_service m = (\<lambda>s. case m (rl_service s) of (r, t) \<Rightarrow> (r, s\<lparr>rl_service := t\<rparr>))"

definition on_rl :: "'a act \<Rightarrow> ('h, 'a) relay_op" where
  "on_rl m = on_service (on_db m)"

abbreviation rl_db :: "'h relay_state \<Rightarrow> world" where
  "rl_db s \<equiv> sv_db (rl_service s)"

definition rl_sum :: "service_error + 'a \<Rightarrow> ('h, 'a) relay_op" where
  "rl_sum r = (\<lambda>s. (r, s))"

section \<open>The table\<close>

definition relays_by_id :: "world \<Rightarrow> relay list" where
  "relays_by_id w = sort_key ry_id (db_relays w)"

definition list_enabled_relays :: "world \<Rightarrow> relay list" where
  "list_enabled_relays w = sort_key ry_id (filter ry_enabled (db_relays w))"

definition relay_by_id :: "int \<Rightarrow> world \<Rightarrow> relay option" where
  "relay_by_id i w = find (\<lambda>r. ry_id r = i) (db_relays w)"

definition relay_by_name :: "string \<Rightarrow> world \<Rightarrow> relay option" where
  "relay_by_name n w = find (\<lambda>r. ry_name r = n) (db_relays w)"

definition relay_by_label :: "string \<Rightarrow> world \<Rightarrow> relay option" where
  "relay_by_label l w = find (\<lambda>r. ry_label r = l) (db_relays w)"

definition count_relays :: "world \<Rightarrow> int" where
  "count_relays w = int (length (db_relays w))"

text \<open>The UNIQUE constraints of the table.\<close>

definition relays_unique :: "relay list \<Rightarrow> bool" where
  "relays_unique rs \<longleftrightarrow> distinct (map ry_name rs) \<and> distinct (map ry_label rs)"

definition write_relays :: "relay list \<Rightarrow> unit act" where
  "write_relays rs = op_bind (op_guard (relays_unique rs) (IntegrityError ''relays'')) (\<lambda>_.
     op_modify (\<lambda>w. w\<lparr>db_relays := rs\<rparr>))"

record relay_draft =
  rf_name :: string
  rf_label :: string
  rf_host :: string
  rf_source_ips :: "ipv4net list"
  rf_enabled :: bool
  rf_in_subscriptions :: bool
  rf_note :: "string option"
  rf_created_by :: "int option"

definition relay_row :: "relay_draft \<Rightarrow> string \<Rightarrow> int \<Rightarrow> relay" where
  "relay_row d now i = \<lparr>ry_id = i, ry_name = rf_name d, ry_label = rf_label d, ry_host = rf_host d,
     ry_source_ips = rf_source_ips d, ry_enabled = rf_enabled d, ry_in_subscriptions = rf_in_subscriptions d,
     ry_note = rf_note d, ry_created_at = now, ry_updated_at = now, ry_created_by = rf_created_by d,
     ry_updated_by = rf_created_by d\<rparr>"

text \<open>AUTOINCREMENT: one more than the largest number ever given.\<close>

definition next_relay_id :: "'h relay_state \<Rightarrow> int" where
  "next_relay_id s = max (rl_seq s) (foldr max (map ry_id (db_relays (rl_db s))) 0) + 1"

definition relay_create_row :: "relay_draft \<Rightarrow> string \<Rightarrow> ('h, relay) relay_op" where
  "relay_create_row d now =
     op_bind (op_get next_relay_id) (\<lambda>i.
     op_bind (op_get (\<lambda>s. db_relays (rl_db s))) (\<lambda>rows.
     op_bind (on_rl (write_relays (rows @ [relay_row d now i]))) (\<lambda>_.
     op_bind (op_modify (\<lambda>s. s\<lparr>rl_seq := i\<rparr>)) (\<lambda>_.
     op_bind (on_rl (op_get (relay_by_id i))) (\<lambda>found.
     case found of None \<Rightarrow> op_raise (RuntimeFailure ''Relay insert failed'') | Some r \<Rightarrow> op_return r)))))"

text \<open>The columns an update may change.\<close>

record relay_changes =
  rc_host :: "string option"
  rc_in_subscriptions :: "bool option"
  rc_label :: "string option"
  rc_note :: "string option option"
  rc_source_ips :: "ipv4net list option"
  rc_enabled :: "bool option"

definition changed_to :: "'a option \<Rightarrow> 'a \<Rightarrow> 'a" where
  "changed_to c old = (case c of None \<Rightarrow> old | Some v \<Rightarrow> v)"

definition changed_row :: "relay_changes \<Rightarrow> string \<Rightarrow> int \<Rightarrow> relay \<Rightarrow> relay" where
  "changed_row c now by r = r\<lparr>ry_host := changed_to (rc_host c) (ry_host r),
     ry_in_subscriptions := changed_to (rc_in_subscriptions c) (ry_in_subscriptions r),
     ry_label := changed_to (rc_label c) (ry_label r), ry_note := changed_to (rc_note c) (ry_note r),
     ry_source_ips := changed_to (rc_source_ips c) (ry_source_ips r),
     ry_enabled := changed_to (rc_enabled c) (ry_enabled r), ry_updated_at := now, ry_updated_by := Some by\<rparr>"

definition changed_fields :: "relay_changes \<Rightarrow> string list" where
  "changed_fields c = concat [if rc_enabled c = None then [] else [''enabled''], if rc_host c = None then [] else [''host''],
     if rc_in_subscriptions c = None then [] else [''in_subscriptions''], if rc_label c = None then [] else [''label''],
     if rc_note c = None then [] else [''note''], if rc_source_ips c = None then [] else [''source_ips'']]"

definition relay_update_row :: "int \<Rightarrow> relay_changes \<Rightarrow> string \<Rightarrow> int \<Rightarrow> relay option act" where
  "relay_update_row i c now by =
     op_bind (if changed_fields c = [] then op_return ()
       else op_bind (op_get db_relays) (\<lambda>rows. write_relays (update_where (\<lambda>r. ry_id r = i) (changed_row c now by) rows))) (\<lambda>_.
     op_get (relay_by_id i))"

definition carries :: "string \<Rightarrow> vpn_key \<Rightarrow> bool" where
  "carries name k \<longleftrightarrow> vk_relay k = Some name \<and> vk_status k \<noteq> KeyDeleted"

definition delete_if_unused :: "int \<Rightarrow> bool act" where
  "delete_if_unused i =
     op_bind (op_get (\<lambda>w. count_where (\<lambda>r. ry_id r = i \<and> \<not> list_ex (carries (ry_name r)) (db_vpn_keys w)) (db_relays w))) (\<lambda>rowcount.
     op_bind (op_modify (\<lambda>w. w\<lparr>db_relays := filter (\<lambda>r. \<not> (ry_id r = i \<and> \<not> list_ex (carries (ry_name r)) (db_vpn_keys w))) (db_relays w)\<rparr>)) (\<lambda>_.
     op_return (rowcount = 1)))"

definition name_used_by_keys :: "string \<Rightarrow> world \<Rightarrow> bool" where
  "name_used_by_keys name w \<longleftrightarrow> list_ex (\<lambda>k. vk_relay k = Some name) (db_vpn_keys w)"

record relay_usage =
  ru_keys :: int
  ru_bundle_keys :: int
  ru_bundles :: int
  ru_active_keys :: int
  ru_single_active_keys :: int

definition relay_usage_of :: "string \<Rightarrow> world \<Rightarrow> relay_usage" where
  "relay_usage_of name w =
     (let ks = filter (carries name) (db_vpn_keys w); active = count_where (\<lambda>k. vk_status k = KeyActive) ks
      in \<lparr>ru_keys = int (length ks), ru_bundle_keys = count_where (\<lambda>k. vk_bundle_id k \<noteq> None) ks,
          ru_bundles = int (length (remdups (List.map_filter vk_bundle_id ks))), ru_active_keys = active,
          ru_single_active_keys = active - count_where (\<lambda>k. vk_status k = KeyActive \<and> vk_bundle_id k \<noteq> None) ks\<rparr>)"

definition active_key_counts :: "world \<Rightarrow> (string, int) dict" where
  "active_key_counts w =
     (let names = remdups (List.map_filter vk_relay (filter (\<lambda>k. vk_status k = KeyActive) (db_vpn_keys w)))
      in map (\<lambda>n. (n, count_where (\<lambda>k. vk_status k = KeyActive \<and> vk_relay k = Some n) (db_vpn_keys w))) names)"

text \<open>The references to the keys to remove, as their rows.\<close>

definition relay_keys :: "string \<Rightarrow> world \<Rightarrow> vpn_key list" where
  "relay_keys name w = sort_key vk_id (filter (carries name) (db_vpn_keys w))"

section \<open>Reading the input\<close>

definition parse_relay_name :: "string \<Rightarrow> service_error + string" where
  "parse_relay_name v = (case relay_name (strip v) of
     Inl _ \<Rightarrow> Inl (InvalidOperation ''err_relay_name_invalid'') | Inr n \<Rightarrow> Inr n)"

definition parse_relay_label :: "string \<Rightarrow> service_error + string" where
  "parse_relay_label v = (case relay_label (strip v) of
     Inl _ \<Rightarrow> Inl (InvalidOperation ''err_relay_label_invalid'') | Inr l \<Rightarrow> Inr l)"

definition parse_relay_host :: "(string \<Rightarrow> bool) \<Rightarrow> string \<Rightarrow> service_error + string" where
  "parse_relay_host v6 v = (case dns_name_or_ipv4 v6 v of
     Inl _ \<Rightarrow> Inl (InvalidOperation ''err_relay_host_invalid'')
   | Inr host \<Rightarrow> if host = [] then Inl (InvalidOperation ''err_relay_host_required'') else Inr host)"

text \<open>The entry an error about the networks names.\<close>

definition bad_source :: "(string \<Rightarrow> bool) \<Rightarrow> string \<Rightarrow> string" where
  "bad_source v6 raw = (case find (\<lambda>item. isl (parse_ipv4_networks v6 item)) (split_on (CHR '','') raw) of None \<Rightarrow> strip raw | Some item \<Rightarrow> strip item)"

definition parse_relay_source_ips :: "(string \<Rightarrow> bool) \<Rightarrow> string \<Rightarrow> service_error + ipv4net list" where
  "parse_relay_source_ips v6 raw = (case parse_ipv4_networks v6 raw of
     Inl _ \<Rightarrow> Inl (InvalidOperation (''err_relay_source_ips_invalid '' @ bad_source v6 raw))
   | Inr ns \<Rightarrow> if ns = [] then Inl (InvalidOperation ''err_relay_source_ips_required'') else Inr ns)"

definition parse_relay_note :: "string option \<Rightarrow> service_error + string option" where
  "parse_relay_note v = (case normalize_note v of
     Inl _ \<Rightarrow> Inl (InvalidOperation ''err_relay_note_invalid'') | Inr n \<Rightarrow> Inr n)"

definition covers :: "(string \<Rightarrow> bool) \<Rightarrow> ipv4net list \<Rightarrow> string \<Rightarrow> bool" where
  "covers v6 networks host = (case ipv4_address v6 host of None \<Rightarrow> False
     | Some a \<Rightarrow> list_ex (\<lambda>n. in_net a n) networks)"

section \<open>The service\<close>

definition refresh_catalog :: "('h, relay_snapshot) relay_op" where
  "refresh_catalog =
     op_bind (on_rl (op_get (\<lambda>w. snapshot_of (relays_by_id w)))) (\<lambda>snapshot.
     op_bind (op_modify (\<lambda>s. s\<lparr>rl_catalog := snapshot\<rparr>)) (\<lambda>_. op_return snapshot))"

definition relay_audit :: "env \<Rightarrow> int option \<Rightarrow> string \<Rightarrow> int \<Rightarrow> ('h, unit) relay_op" where
  "relay_audit e actor action i = on_rl (audit_write_best_effort e actor action EntityRelay (Some i) 0)"

definition relay_require :: "int \<Rightarrow> relay act" where
  "relay_require i = op_bind (op_get (relay_by_id i)) (\<lambda>found.
     case found of None \<Rightarrow> op_raise (NotFound ''err_relay_not_found'') | Some r \<Rightarrow> op_return r)"

definition ensure_name_free :: "string \<Rightarrow> unit act" where
  "ensure_name_free name =
     op_bind (op_get (relay_by_name name)) (\<lambda>found.
     op_bind (op_guard (found = None) (InvalidOperation ''err_relay_name_taken'')) (\<lambda>_.
     op_bind (op_get (name_used_by_keys name)) (\<lambda>used.
     op_guard (\<not> used) (InvalidOperation ''err_relay_name_used_by_keys''))))"

definition list_overview :: "int \<Rightarrow> (relay \<times> int) list act" where
  "list_overview actor = op_bind (require_superadmin actor) (\<lambda>_.
     op_bind (op_get relays_by_id) (\<lambda>relays.
     op_bind (op_get active_key_counts) (\<lambda>counts.
     op_return (map (\<lambda>r. (r, case map_of counts (ry_name r) of None \<Rightarrow> 0 | Some n \<Rightarrow> n)) relays))))"

definition relay_get :: "int \<Rightarrow> int \<Rightarrow> relay act" where
  "relay_get actor i = op_bind (require_superadmin actor) (\<lambda>_. relay_require i)"

definition relay_usage_for :: "int \<Rightarrow> int \<Rightarrow> (relay \<times> relay_usage) act" where
  "relay_usage_for actor i = op_bind (require_superadmin actor) (\<lambda>_. op_bind (relay_require i) (\<lambda>r.
     op_bind (op_get (relay_usage_of (ry_name r))) (\<lambda>u. op_return (r, u))))"

definition check_new_name :: "int \<Rightarrow> string \<Rightarrow> string act" where
  "check_new_name actor v = op_bind (require_superadmin actor) (\<lambda>_.
     case parse_relay_name v of Inl err \<Rightarrow> op_raise err
     | Inr name \<Rightarrow> op_bind (ensure_name_free name) (\<lambda>_. op_return name))"

definition label_free :: "int \<Rightarrow> string \<Rightarrow> int option \<Rightarrow> bool act" where
  "label_free actor label exclude = op_bind (require_superadmin actor) (\<lambda>_.
     op_bind (op_get (relay_by_label label)) (\<lambda>existing.
     op_return (case existing of None \<Rightarrow> True | Some r \<Rightarrow> Some (ry_id r) = exclude)))"

definition check_label :: "int \<Rightarrow> string \<Rightarrow> int option \<Rightarrow> string act" where
  "check_label actor v exclude = (case parse_relay_label v of Inl err \<Rightarrow> op_raise err
     | Inr label \<Rightarrow> op_bind (label_free actor label exclude) (\<lambda>free.
         op_bind (op_guard free (InvalidOperation ''err_relay_label_taken'')) (\<lambda>_. op_return label)))"

text \<open>\<open>except sqlite3.IntegrityError\<close>.\<close>

definition integrity_as :: "string \<Rightarrow> service_error \<Rightarrow> ('h, 'a) relay_op" where
  "integrity_as tag err = (case err of IntegrityError _ \<Rightarrow> op_raise (InvalidOperation tag) | _ \<Rightarrow> op_raise err)"

record relay_input =
  ri_name :: string
  ri_host :: string
  ri_source_ips :: string
  ri_label :: string
  ri_note :: "string option"
  ri_enabled :: bool
  ri_in_subscriptions :: bool

definition relay_create :: "env \<Rightarrow> (string \<Rightarrow> bool) \<Rightarrow> int \<Rightarrow> relay_input \<Rightarrow> ('h, relay) relay_op" where
  "relay_create e v6 actor inp =
     op_bind (on_rl (require_superadmin actor)) (\<lambda>_.
     op_bind (rl_sum (parse_relay_name (ri_name inp))) (\<lambda>name.
     op_bind (rl_sum (parse_relay_host v6 (ri_host inp))) (\<lambda>host.
     op_bind (rl_sum (parse_relay_source_ips v6 (ri_source_ips inp))) (\<lambda>sources.
     op_bind (rl_sum (parse_relay_label (ri_label inp))) (\<lambda>label.
     op_bind (rl_sum (parse_relay_note (ri_note inp))) (\<lambda>note.
     op_bind (on_rl (ensure_name_free name)) (\<lambda>_.
     op_bind (on_rl (op_get (relay_by_label label))) (\<lambda>taken.
     op_bind (op_guard (taken = None) (InvalidOperation ''err_relay_label_taken'')) (\<lambda>_.
     op_bind (op_try (relay_create_row \<lparr>rf_name = name, rf_label = label, rf_host = host, rf_source_ips = sources,
          rf_enabled = ri_enabled inp, rf_in_subscriptions = ri_in_subscriptions inp, rf_note = note,
          rf_created_by = Some actor\<rparr> (ev_now e)) (integrity_as ''err_relay_name_taken'')) (\<lambda>r.
     op_bind (relay_audit e (Some actor) ''relay_created'' (ry_id r)) (\<lambda>_.
     op_bind refresh_catalog (\<lambda>_. op_return r))))))))))))"

text \<open>The arguments of an update; \<open>None\<close> is an argument that was not passed.\<close>

record relay_edit =
  re_host :: "string option"
  re_source_ips :: "string option"
  re_label :: "string option"
  re_note :: "string option option"
  re_enabled :: "bool option"
  re_in_subscriptions :: "bool option"

definition given_field :: "'a option \<Rightarrow> ('a \<Rightarrow> service_error + 'b) \<Rightarrow> ('h, 'b option) relay_op" where
  "given_field v parse = (case v of None \<Rightarrow> op_return None | Some x \<Rightarrow> rl_sum (sum_bind (parse x) (\<lambda>y. Inr (Some y))))"

definition new_value :: "'a option \<Rightarrow> 'a \<Rightarrow> 'a option" where
  "new_value c old = (if c = Some old then None else c)"

text \<open>The passed fields that differ from the row.\<close>

definition differing :: "relay_changes \<Rightarrow> relay \<Rightarrow> relay_changes" where
  "differing c r = \<lparr>rc_host = new_value (rc_host c) (ry_host r),
     rc_in_subscriptions = new_value (rc_in_subscriptions c) (ry_in_subscriptions r),
     rc_label = new_value (rc_label c) (ry_label r), rc_note = new_value (rc_note c) (ry_note r),
     rc_source_ips = new_value (rc_source_ips c) (ry_source_ips r), rc_enabled = new_value (rc_enabled c) (ry_enabled r)\<rparr>"

record relay_update_result =
  rx_before :: relay
  rx_relay :: relay
  rx_changed :: "string list"
  rx_reimport :: "int option"
  rx_suggest_source_ip :: "string option"

definition wanted_changes :: "(string \<Rightarrow> bool) \<Rightarrow> relay_edit \<Rightarrow> ('h, relay_changes) relay_op" where
  "wanted_changes v6 ed =
     op_bind (given_field (re_host ed) (parse_relay_host v6)) (\<lambda>host.
     op_bind (given_field (re_source_ips ed) (parse_relay_source_ips v6)) (\<lambda>sources.
     op_bind (given_field (re_label ed) parse_relay_label) (\<lambda>label.
     op_bind (given_field (re_note ed) parse_relay_note) (\<lambda>note.
     op_return \<lparr>rc_host = host, rc_in_subscriptions = re_in_subscriptions ed, rc_label = label, rc_note = note,
       rc_source_ips = sources, rc_enabled = re_enabled ed\<rparr>))))"

definition label_not_taken :: "int \<Rightarrow> string option \<Rightarrow> unit act" where
  "label_not_taken i label = (case label of None \<Rightarrow> op_return ()
     | Some l \<Rightarrow> op_bind (op_get (relay_by_label l)) (\<lambda>taken.
         op_guard (case taken of None \<Rightarrow> True | Some r \<Rightarrow> ry_id r = i) (InvalidOperation ''err_relay_label_taken'')))"

definition host_notes :: "(string \<Rightarrow> bool) \<Rightarrow> relay_changes \<Rightarrow> relay \<Rightarrow> world \<Rightarrow> int option \<times> string option" where
  "host_notes v6 c after w =
     (if rc_host c = None then (None, None)
      else (Some (ru_single_active_keys (relay_usage_of (ry_name after) w)),
            if ipv4_address v6 (ry_host after) \<noteq> None \<and> \<not> covers v6 (ry_source_ips after) (ry_host after)
            then Some (ry_host after) else None))"

definition apply_relay_changes :: "env \<Rightarrow> (string \<Rightarrow> bool) \<Rightarrow> int \<Rightarrow> int \<Rightarrow> relay \<Rightarrow> relay_changes \<Rightarrow> ('h, relay_update_result) relay_op" where
  "apply_relay_changes e v6 actor i before c =
     op_bind (op_try (on_rl (relay_update_row i c (ev_now e) actor)) (integrity_as ''err_relay_label_taken'')) (\<lambda>found.
     case found of None \<Rightarrow> op_raise (NotFound ''err_relay_not_found'')
      | Some after \<Rightarrow>
          op_bind (relay_audit e (Some actor) ''relay_updated'' i) (\<lambda>_.
          op_bind refresh_catalog (\<lambda>_.
          op_bind (on_rl (op_get (host_notes v6 c after))) (\<lambda>(reimport, suggest).
          op_return \<lparr>rx_before = before, rx_relay = after, rx_changed = changed_fields c,
            rx_reimport = reimport, rx_suggest_source_ip = suggest\<rparr>))))"

definition relay_update :: "env \<Rightarrow> (string \<Rightarrow> bool) \<Rightarrow> int \<Rightarrow> int \<Rightarrow> relay_edit \<Rightarrow> ('h, relay_update_result) relay_op" where
  "relay_update e v6 actor i ed =
     op_bind (on_rl (require_superadmin actor)) (\<lambda>_.
     op_bind (wanted_changes v6 ed) (\<lambda>wanted.
     op_bind (on_rl (relay_require i)) (\<lambda>before.
     let c = differing wanted before
     in op_bind (on_rl (label_not_taken i (rc_label c))) (\<lambda>_.
        if changed_fields c = []
        then op_return \<lparr>rx_before = before, rx_relay = before, rx_changed = [], rx_reimport = None, rx_suggest_source_ip = None\<rparr>
        else apply_relay_changes e v6 actor i before c))))"

definition no_edit :: relay_edit where
  "no_edit = \<lparr>re_host = None, re_source_ips = None, re_label = None, re_note = None, re_enabled = None, re_in_subscriptions = None\<rparr>"

definition add_source_ip :: "env \<Rightarrow> (string \<Rightarrow> bool) \<Rightarrow> int \<Rightarrow> int \<Rightarrow> string \<Rightarrow> ('h, relay_update_result) relay_op" where
  "add_source_ip e v6 actor i address =
     op_bind (on_rl (require_superadmin actor)) (\<lambda>_.
     op_bind (on_rl (relay_require i)) (\<lambda>r.
     op_bind (rl_sum (parse_relay_source_ips v6 address)) (\<lambda>extra.
     relay_update e v6 actor i (no_edit\<lparr>re_source_ips := Some (format_ipv4_networks (ry_source_ips r @ extra))\<rparr>))))"

section \<open>Deleting a relay\<close>

type_synonym 'h key_deleters = "vpn_key_type \<Rightarrow> (int \<Rightarrow> int \<Rightarrow> ('h, unit) service_op) option"

record relay_deletion_report =
  rd_relay :: relay
  rd_deleted :: bool
  rd_deleted_key_ids :: "int list"
  rd_failed_key_id :: "int option"
  rd_failure :: "service_error option"
  rd_remaining_keys :: int

definition delete_relay_key :: "'h key_deleters \<Rightarrow> int \<Rightarrow> vpn_key \<Rightarrow> ('h, unit) service_op" where
  "delete_relay_key deleters actor k = (case deleters (vk_key_type k) of
     None \<Rightarrow> op_raise (InvalidOperation ''err_relay_key_type_undeletable'') | Some d \<Rightarrow> d actor (vk_id k))"

text \<open>The numbers of the deleted keys, and the key that stopped the loop with its error.\<close>

fun delete_relay_keys :: "'h key_deleters \<Rightarrow> int \<Rightarrow> vpn_key list \<Rightarrow> int list \<Rightarrow> ('h, int list \<times> (int \<times> service_error) option) service_op" where
  "delete_relay_keys deleters actor [] ids = op_return (ids, None)"
| "delete_relay_keys deleters actor (k # ks) ids =
     op_bind (op_attempt (delete_relay_key deleters actor k)) (\<lambda>r. case r of
       Inr _ \<Rightarrow> delete_relay_keys deleters actor ks (ids @ [vk_id k])
     | Inl (NotFound _) \<Rightarrow> delete_relay_keys deleters actor ks ids
     | Inl err \<Rightarrow> op_return (ids, Some (vk_id k, err)))"

definition relay_delete :: "env \<Rightarrow> 'h key_deleters \<Rightarrow> int \<Rightarrow> int \<Rightarrow> bool \<Rightarrow> ('h, relay_deletion_report) relay_op" where
  "relay_delete e deleters actor i with_keys =
     op_bind (on_rl (require_superadmin actor)) (\<lambda>_.
     op_bind (on_rl (relay_require i)) (\<lambda>r.
     op_bind (if with_keys
         then op_bind (on_rl (op_get (relay_keys (ry_name r)))) (\<lambda>refs. on_service (delete_relay_keys deleters actor refs []))
         else op_return ([], None)) (\<lambda>(ids, failed).
     case failed of
       Some (kid, err) \<Rightarrow>
         op_bind (on_rl (op_get (relay_usage_of (ry_name r)))) (\<lambda>u.
         op_bind (relay_audit e (Some actor) ''relay_delete_incomplete'' i) (\<lambda>_.
         op_return \<lparr>rd_relay = r, rd_deleted = False, rd_deleted_key_ids = ids, rd_failed_key_id = Some kid,
           rd_failure = Some err, rd_remaining_keys = ru_keys u\<rparr>))
     | None \<Rightarrow>
         op_bind (on_rl (delete_if_unused i)) (\<lambda>gone.
         if \<not> gone
         then op_bind (on_rl (op_get (relay_usage_of (ry_name r)))) (\<lambda>u.
              op_bind (if ids = [] then op_return () else relay_audit e (Some actor) ''relay_delete_incomplete'' i) (\<lambda>_.
              op_return \<lparr>rd_relay = r, rd_deleted = False, rd_deleted_key_ids = ids, rd_failed_key_id = None,
                rd_failure = None, rd_remaining_keys = ru_keys u\<rparr>))
         else op_bind (relay_audit e (Some actor) ''relay_deleted'' i) (\<lambda>_.
              op_bind refresh_catalog (\<lambda>_.
              op_return \<lparr>rd_relay = r, rd_deleted = True, rd_deleted_key_ids = ids, rd_failed_key_id = None,
                rd_failure = None, rd_remaining_keys = 0\<rparr>))))))"

text \<open>The relay of the settings, once: only into an empty table.\<close>

definition relay_seed :: "env \<Rightarrow> relay_draft option \<Rightarrow> ('h, relay option) relay_op" where
  "relay_seed e seed =
     op_bind (on_rl (op_get count_relays)) (\<lambda>n.
     case seed of
       Some d \<Rightarrow> if n = 0
         then op_bind (relay_create_row (d\<lparr>rf_label := ''relay'', rf_enabled := True, rf_in_subscriptions := True,
                rf_note := None, rf_created_by := None\<rparr>) (ev_now e)) (\<lambda>r.
              op_bind (relay_audit e None ''relay_seeded_from_env'' (ry_id r)) (\<lambda>_.
              op_bind refresh_catalog (\<lambda>_. op_return (Some r))))
         else op_return None
     | None \<Rightarrow> op_return None)"


section \<open>How the operations run\<close>

lemma on_service_run: "on_service m s = (r, s') \<longleftrightarrow> (\<exists>t. m (rl_service s) = (r, t) \<and> s' = s\<lparr>rl_service := t\<rparr>)"
  by (auto simp: on_service_def split: prod.splits)

lemma on_rl_run: "on_rl m s = (r, s') \<longleftrightarrow> (\<exists>w. m (rl_db s) = (r, w) \<and> s' = s\<lparr>rl_service := (rl_service s)\<lparr>sv_db := w\<rparr>\<rparr>)"
  by (auto simp: on_rl_def on_service_def on_db_def split: prod.splits)

lemma rl_sum_run: "rl_sum r s = (q, s') \<longleftrightarrow> q = r \<and> s' = s"
  by (auto simp: rl_sum_def)

lemma gate_on_rl [simp]: "gate m \<Longrightarrow> gate (on_rl m :: ('h, 'a) relay_op)"
  by (auto simp: gate_def on_rl_def on_service_def on_db_def split_beta)

lemma gate_rl_sum [simp]: "gate (rl_sum r)"
  by (simp add: gate_def rl_sum_def)

lemma gate_relay_reads [simp]: "gate (relay_require i)" "gate (ensure_name_free name)" "gate (label_not_taken i label)"
  by (auto simp: relay_require_def ensure_name_free_def label_not_taken_def intro!: gate_bindI split: option.split)

lemma gate_wanted [simp]: "gate (wanted_changes v6 ed)"
  by (auto simp: wanted_changes_def given_field_def intro!: gate_bindI split: option.split)

lemmas through_rl = through_gate [OF _ gate_on_rl [OF gate_superadmin]] through_gate [OF _ gate_rl_sum]
  through_gate [OF _ gate_on_rl [OF gate_relay_reads(1)]] through_gate [OF _ gate_on_rl [OF gate_relay_reads(2)]]
  through_gate [OF _ gate_on_rl [OF gate_relay_reads(3)]] through_gate [OF _ gate_on_rl [OF gate_simple(2)]]
  through_gate [OF _ gate_simple(1)] through_gate [OF _ gate_wanted]

section \<open>The relays stay in order\<close>

text \<open>
  Unique names, markers and numbers, none above the counter, and a snapshot of just these relays.
\<close>

definition relays_ok :: "'h relay_state \<Rightarrow> bool" where
  "relays_ok s \<longleftrightarrow> relays_unique (db_relays (rl_db s)) \<and> distinct (map ry_id (db_relays (rl_db s)))
     \<and> (\<forall>r \<in> set (db_relays (rl_db s)). ry_id r \<le> rl_seq s)
     \<and> rl_catalog s = snapshot_of (relays_by_id (rl_db s))"

text \<open>A state that shows the same relays.\<close>

definition same_relays :: "'h relay_state \<Rightarrow> 'h relay_state \<Rightarrow> bool" where
  "same_relays s s' \<longleftrightarrow> db_relays (rl_db s') = db_relays (rl_db s) \<and> rl_seq s' = rl_seq s \<and> rl_catalog s' = rl_catalog s"

lemma same_relays_ok: "same_relays s s' \<Longrightarrow> relays_ok s \<Longrightarrow> relays_ok s'"
  by (simp add: same_relays_def relays_ok_def relays_by_id_def)

lemma relay_audit_run: "relay_audit e a action i s = (r, s') \<Longrightarrow> r = Inr () \<and> same_relays s s'
    \<and> db_vpn_keys (rl_db s') = db_vpn_keys (rl_db s)"
  by (auto simp: relay_audit_def on_rl_run audit_best_effort_run same_relays_def)

lemma refresh_run: "refresh_catalog s = (r, s') \<longleftrightarrow>
    r = Inr (snapshot_of (relays_by_id (rl_db s))) \<and> s' = s\<lparr>rl_catalog := snapshot_of (relays_by_id (rl_db s))\<rparr>"
  by (auto simp: refresh_catalog_def op_bind_def op_return_def op_modify_def on_rl_def on_service_def on_db_def op_get_def)

text \<open>A row that was written, with the log entry and the new snapshot after it.\<close>

lemma publish_run:
  assumes "op_bind (relay_audit e a action i) (\<lambda>_. op_bind refresh_catalog (\<lambda>_. f)) s = (r, s')"
  obtains t where "f t = (r, s')" "db_relays (rl_db t) = db_relays (rl_db s)" "db_vpn_keys (rl_db t) = db_vpn_keys (rl_db s)"
    "rl_seq t = rl_seq s" "rl_catalog t = snapshot_of (relays_by_id (rl_db t))"
proof -
  obtain q t where q: "relay_audit e a action i s = (q, t)" by force
  note audit = relay_audit_run [OF q]
  from assms audit q have "f (t\<lparr>rl_catalog := snapshot_of (relays_by_id (rl_db t))\<rparr>) = (r, s')"
    by (simp add: op_bind_def refresh_run [THEN iffD2, OF conjI, OF refl refl])
  with audit show thesis
    by (intro that [of "t\<lparr>rl_catalog := snapshot_of (relays_by_id (rl_db t))\<rparr>"]) (simp_all add: same_relays_def relays_by_id_def)
qed

lemma write_relays_run: "write_relays rs w =
    (if relays_unique rs then (Inr (), w\<lparr>db_relays := rs\<rparr>) else (Inl (IntegrityError ''relays''), w))"
  by (simp add: write_relays_def op_simps)

lemma row_created:
  assumes "relay_create_row d now s = (r, s')"
  shows "(r = Inl (IntegrityError ''relays'') \<and> s' = s)
    \<or> (r = Inr (relay_row d now (next_relay_id s)) \<and> db_relays (rl_db s') = db_relays (rl_db s) @ [relay_row d now (next_relay_id s)]
       \<and> relays_unique (db_relays (rl_db s')) \<and> rl_seq s' = next_relay_id s \<and> rl_catalog s' = rl_catalog s
       \<and> db_vpn_keys (rl_db s') = db_vpn_keys (rl_db s))"
proof -
  have fresh: "ry_id x \<noteq> next_relay_id s" if "x \<in> set (db_relays (rl_db s))" for x
  proof -
    have "ry_id x \<le> foldr max (map ry_id (db_relays (rl_db s))) 0"
      by (rule le_max_ids) (use that in simp)
    then show ?thesis by (simp add: next_relay_id_def)
  qed
  then have "find (\<lambda>r. ry_id r = next_relay_id s) (db_relays (rl_db s)) = None"
    by (auto simp: find_None_iff)
  then have found: "find (\<lambda>r. ry_id r = next_relay_id s) (db_relays (rl_db s) @ [relay_row d now (next_relay_id s)])
      = Some (relay_row d now (next_relay_id s))"
    by (simp add: find_append relay_row_def)
  let ?rs = "db_relays (rl_db s) @ [relay_row d now (next_relay_id s)]"
  let ?s1 = "s\<lparr>rl_service := (rl_service s)\<lparr>sv_db := (rl_db s)\<lparr>db_relays := ?rs\<rparr>\<rparr>\<rparr>"
  show ?thesis
  proof (cases "relays_unique ?rs")
    case True
    then have wrote: "on_rl (write_relays ?rs) s = (Inr (), ?s1)"
      by (simp add: on_rl_run write_relays_run)
    have "relay_create_row d now s = (Inr (relay_row d now (next_relay_id s)), ?s1\<lparr>rl_seq := next_relay_id s\<rparr>)"
      unfolding relay_create_row_def bind_pure bind_ok [where m = "on_rl (write_relays ?rs)" and s = s, OF wrote]
      by (simp add: op_bind_def op_modify_def on_rl_def on_service_def on_db_def op_get_def relay_by_id_def found op_return_def)
    with assms True show ?thesis by auto
  next
    case False
    then have wrote: "on_rl (write_relays ?rs) s = (Inl (IntegrityError ''relays''), s)"
      by (simp add: on_rl_run write_relays_run)
    have "relay_create_row d now s = (Inl (IntegrityError ''relays''), s)"
      unfolding relay_create_row_def bind_pure bind_failed [where m = "on_rl (write_relays ?rs)" and s = s, OF wrote] ..
    with assms show ?thesis by simp
  qed
qed


definition binding_kept :: "'h relay_state \<Rightarrow> 'h relay_state \<Rightarrow> bool" where
  "binding_kept s s' \<longleftrightarrow> (\<forall>r' \<in> set (db_relays (rl_db s')). name_used_by_keys (ry_name r') (rl_db s) \<longrightarrow>
     (\<exists>r \<in> set (db_relays (rl_db s)). ry_name r = ry_name r' \<and> ry_id r = ry_id r'))"

definition relay_change :: "'h relay_state \<Rightarrow> 'h relay_state \<Rightarrow> bool" where
  "relay_change s s' \<longleftrightarrow> binding_kept s s' \<and> (relays_ok s \<longrightarrow> relays_ok s')"

lemma relay_change_refl [simp]: "relay_change s s"
  by (auto simp: relay_change_def binding_kept_def)

lemma relay_change_same: "same_relays s s' \<Longrightarrow> relay_change s s'"
  by (auto simp: relay_change_def binding_kept_def same_relays_def intro: same_relays_ok [unfolded same_relays_def])

lemma name_free_run: "ensure_name_free name w = (Inr (), w') \<Longrightarrow> relay_by_name name w = None \<and> \<not> name_used_by_keys name w"
  by (auto simp: ensure_name_free_def op_simps split: if_splits)

lemma new_relay_change:
  assumes "relay_row d now (next_relay_id s) = x" "\<not> name_used_by_keys (rf_name d) (rl_db s)"
    "db_relays (rl_db s') = db_relays (rl_db s) @ [x]" "relays_unique (db_relays (rl_db s'))"
    "rl_seq s' = next_relay_id s" "rl_catalog s' = snapshot_of (relays_by_id (rl_db s'))"
  shows "relay_change s s'"
proof -
  have below: "ry_id y < next_relay_id s" if "y \<in> set (db_relays (rl_db s))" for y
  proof -
    have "ry_id y \<le> foldr max (map ry_id (db_relays (rl_db s))) 0" by (rule le_max_ids) (use that in simp)
    then show ?thesis by (simp add: next_relay_id_def)
  qed
  have id: "ry_id x = next_relay_id s" "ry_name x = rf_name d" using assms(1) by (auto simp: relay_row_def)
  have "ry_id x \<notin> ry_id ` set (db_relays (rl_db s))" using below id(1) by fastforce
  then have "relays_ok s'" if "relays_ok s"
    using that assms below id by (fastforce simp: relays_ok_def less_imp_le)
  moreover have "binding_kept s s'" using assms(2,3) id(2) by (auto simp: binding_kept_def)
  ultimately show ?thesis by (simp add: relay_change_def)
qed

lemma create_effect:
  fixes s :: "'h relay_state"
  assumes "relay_create e v6 actor inp s = (r, s')"
  shows "relay_change s s'"
proof -
  let ?Q = "\<lambda>(q :: service_error + relay) t. relay_change s t"
  have insert: "relay_change s s'"
    if free: "on_rl (ensure_name_free name) s = (Inr u, s)" and named: "rf_name d = name" and run: "op_bind (op_try (relay_create_row d (ev_now e)) (integrity_as tag)) (\<lambda>r.
       op_bind (relay_audit e a action (ry_id r)) (\<lambda>_. op_bind refresh_catalog (\<lambda>_. op_return r))) s = (r, s')" for name u d tag a action
  proof -
    obtain w where "ensure_name_free name (rl_db s) = (Inr (), w)" using free by (auto simp: on_rl_run)
    then have unused: "\<not> name_used_by_keys (rf_name d) (rl_db s)" using name_free_run named by blast
    obtain q t where q: "relay_create_row d (ev_now e) s = (q, t)" by force
    from row_created [OF q] show ?thesis
    proof (elim disjE conjE)
      assume "q = Inl (IntegrityError ''relays'')" "t = s"
      with run q show ?thesis by (auto simp: op_bind_def op_try_def integrity_as_def op_raise_def)
    next
      let ?x = "relay_row d (ev_now e) (next_relay_id s)"
      assume new: "q = Inr ?x" "db_relays (rl_db t) = db_relays (rl_db s) @ [?x]"
        "relays_unique (db_relays (rl_db t))" "rl_seq t = next_relay_id s" "rl_catalog t = rl_catalog s"
      from run q new(1) have "op_bind (relay_audit e a action (ry_id ?x)) (\<lambda>_. op_bind refresh_catalog (\<lambda>_. op_return ?x)) t = (r, s')"
        by (simp add: op_bind_def [of "op_try _ _"] op_try_def)
      then obtain p where p: "op_return ?x p = (r, s')" "db_relays (rl_db p) = db_relays (rl_db t)"
          "rl_seq p = rl_seq t" "rl_catalog p = snapshot_of (relays_by_id (rl_db p))"
        by (rule publish_run)
      then have "s' = p" by (simp add: op_return_def)
      with p new unused show ?thesis by (intro new_relay_change [OF refl]) simp_all
    qed
  qed
  show ?thesis
    using assms unfolding relay_create_def
    by (elim through_rl [where Q = ?Q]) (simp_all only: relay_change_refl, rule insert, assumption, rule relay_draft.select_convs, assumption)
qed


lemma changed_row_simps [simp]: "ry_id (changed_row c now b r) = ry_id r" "ry_name (changed_row c now b r) = ry_name r"
  by (simp_all add: changed_row_def)

lemma snapshot_sorted: "snapshot_of (relays_by_id w) = snapshot_of (db_relays w)"
  by (simp add: snapshot_of_def relays_by_id_def sort_key_id_if_sorted)

text \<open>A write that keeps numbers and names of the rows.\<close>

lemma rewritten_change:
  assumes "db_relays (rl_db s') = update_where P f (db_relays (rl_db s))" "\<And>r. ry_id (f r) = ry_id r \<and> ry_name (f r) = ry_name r"
    "relays_unique (db_relays (rl_db s'))" "rl_seq s' = rl_seq s" "rl_catalog s' = snapshot_of (relays_by_id (rl_db s'))"
  shows "relay_change s s'"
proof -
  have ids: "map ry_id (db_relays (rl_db s')) = map ry_id (db_relays (rl_db s))"
    using assms(1,2) by (simp add: map_update_where)
  have "relays_ok s'" if "relays_ok s"
    using that assms(3-5) ids by (auto simp: relays_ok_def assms(1) set_update_where assms(2) split: if_splits)
  moreover have "binding_kept s s'"
    using assms(2) by (fastforce simp: binding_kept_def assms(1) set_update_where split: if_splits)
  ultimately show ?thesis by (simp add: relay_change_def)
qed

lemma update_row_run:
  assumes "changed_fields c \<noteq> []" "relay_update_row i c now b w = (r, w')"
  shows "(r = Inl (IntegrityError ''relays'') \<and> w' = w)
    \<or> (\<exists>x. r = Inr x \<and> w' = w\<lparr>db_relays := update_where (\<lambda>r. ry_id r = i) (changed_row c now b) (db_relays w)\<rparr>
         \<and> relays_unique (db_relays w'))"
  using assms by (auto simp: relay_update_row_def op_bind_def op_get_def write_relays_run split: if_splits)

lemma apply_effect:
  assumes "apply_relay_changes e v6 actor i before c s = (r, s')" "changed_fields c \<noteq> []"
    "relay_by_id i (rl_db s) \<noteq> None"
  shows "relay_change s s'"
proof -
  obtain q t where q: "on_rl (relay_update_row i c (ev_now e) actor) s = (q, t)" by force
  then obtain w where w: "relay_update_row i c (ev_now e) actor (rl_db s) = (q, w)"
      "t = s\<lparr>rl_service := (rl_service s)\<lparr>sv_db := w\<rparr>\<rparr>"
    by (auto simp: on_rl_run)
  from update_row_run [OF assms(2) w(1)] show ?thesis
  proof (elim disjE conjE exE)
    assume "q = Inl (IntegrityError ''relays'')" "w = rl_db s"
    with assms(1) q w(2) show ?thesis
      by (auto simp: apply_relay_changes_def op_bind_def op_try_def integrity_as_def op_raise_def)
  next
    fix x
    assume x: "q = Inr x" "w = (rl_db s)\<lparr>db_relays := update_where (\<lambda>r. ry_id r = i) (changed_row c (ev_now e) actor) (db_relays (rl_db s))\<rparr>"
      "relays_unique (db_relays w)"
    from w(1) have "x = relay_by_id i w"
      using x(1) assms(2) by (auto simp: relay_update_row_def op_bind_def op_get_def write_relays_run split: if_splits)
    then have "x \<noteq> None"
      using assms(3) x(2) by (simp add: relay_by_id_def find_update_key)
    then obtain after where after: "x = Some after" by blast
    from assms(1) q x(1) after have "op_bind (relay_audit e (Some actor) ''relay_updated'' i) (\<lambda>_. op_bind refresh_catalog (\<lambda>_.
          op_bind (on_rl (op_get (host_notes v6 c after))) (\<lambda>(reimport, suggest).
          op_return \<lparr>rx_before = before, rx_relay = after, rx_changed = changed_fields c,
            rx_reimport = reimport, rx_suggest_source_ip = suggest\<rparr>))) t = (r, s')"
      by (simp add: apply_relay_changes_def op_bind_def [of "op_try _ _"] op_try_def)
    then obtain p where p: "op_bind (on_rl (op_get (host_notes v6 c after))) (\<lambda>(reimport, suggest).
          op_return \<lparr>rx_before = before, rx_relay = after, rx_changed = changed_fields c,
            rx_reimport = reimport, rx_suggest_source_ip = suggest\<rparr>) p = (r, s')"
        "db_relays (rl_db p) = db_relays (rl_db t)" "rl_seq p = rl_seq t" "rl_catalog p = snapshot_of (relays_by_id (rl_db p))"
      by (rule publish_run)
    from p(1) have "s' = p" by (auto simp: op_bind_def on_rl_def on_service_def on_db_def op_get_def op_return_def split: prod.splits)
    with p w(2) x(2,3) show ?thesis
      by (intro rewritten_change [of s' "\<lambda>r. ry_id r = i" "changed_row c (ev_now e) actor"]) simp_all
  qed
qed

lemma update_effect:
  fixes s :: "'h relay_state"
  assumes "relay_update e v6 actor i ed s = (r, s')"
  shows "relay_change s s'"
proof -
  let ?Q = "\<lambda>(q :: service_error + relay_update_result) t. relay_change s t"
  have go: "relay_change s s'" if there: "on_rl (relay_require i) s = (Inr before, s)"
    and run: "(if changed_fields c = [] then op_return x else apply_relay_changes e v6 actor i before c) s = (r, s')" for before c x
  proof (cases "changed_fields c = []")
    case True
    with run show ?thesis by (simp add: op_return_def)
  next
    case False
    have "relay_by_id i (rl_db s) \<noteq> None"
      using there by (auto simp: on_rl_run relay_require_def op_simps split: option.splits)
    with False run show ?thesis by (intro apply_effect) (auto simp: if_splits)
  qed
  show ?thesis
    using assms unfolding relay_update_def Let_def
    by (elim through_rl [where Q = ?Q]) (simp_all only: relay_change_refl, rule go)
qed

lemma add_source_effect:
  fixes s :: "'h relay_state"
  assumes "add_source_ip e v6 actor i address s = (r, s')"
  shows "relay_change s s'"
  using assms unfolding add_source_ip_def
  by (elim through_rl [where Q = "\<lambda>q t. relay_change s t"]) (simp_all only: relay_change_refl, rule update_effect)


section \<open>Deleting\<close>

text \<open>What the deletion of keys may do: rows of keys disappear, and relays stay.\<close>

definition key_names :: "world \<Rightarrow> (int \<times> string option) set" where
  "key_names w = (\<lambda>k. (vk_id k, vk_relay k)) ` set (db_vpn_keys w)"

definition only_drops :: "'h service_state \<Rightarrow> 'h service_state \<Rightarrow> bool" where
  "only_drops s s' \<longleftrightarrow> db_relays (sv_db s') = db_relays (sv_db s) \<and> key_names (sv_db s') \<subseteq> key_names (sv_db s)"

lemma only_drops_rel [simp]: "reflp only_drops" "transp only_drops"
  by (auto simp: only_drops_def reflp_def transp_def)

lemma only_drops_get: "only_drops s s' \<Longrightarrow> key_get_by_id kid (sv_db s) = None \<Longrightarrow> key_get_by_id kid (sv_db s') = None"
  by (fastforce simp: only_drops_def key_names_def key_get_by_id_def find_None_iff)

text \<open>How a relay may have its keys deleted.\<close>

locale relay_deleters =
  fixes deleters :: "'h key_deleters"
  assumes drops: "deleters t = Some d \<Longrightarrow> only_drops s (snd (d actor kid s))"
    and gone: "deleters t = Some d \<Longrightarrow> d actor kid s = (Inr (), s') \<Longrightarrow> key_get_by_id kid (sv_db s') = None"
begin

lemma key_dropped:
  assumes "delete_relay_key deleters actor k s = (r, s')"
  shows "only_drops s s' \<and> (isl r \<or> key_get_by_id (vk_id k) (sv_db s') = None)"
proof (cases "deleters (vk_key_type k)")
  case None
  with assms show ?thesis
    by (auto simp: delete_relay_key_def op_raise_def intro: reflpD [OF only_drops_rel(1)])
next
  case (Some d)
  with assms have run: "d actor (vk_id k) s = (r, s')" by (simp add: delete_relay_key_def)
  have "only_drops s s'" using drops [OF Some, of s actor "vk_id k"] run by simp
  moreover have "isl r \<or> key_get_by_id (vk_id k) (sv_db s') = None"
    using gone [OF Some] run by (cases r) auto
  ultimately show ?thesis ..
qed

lemma keys_dropped:
  assumes "delete_relay_keys deleters actor ks ids s = (r, s')" "list_all (\<lambda>j. key_get_by_id j (sv_db s) = None) ids"
  shows "\<exists>ids' failed. r = Inr (ids', failed) \<and> only_drops s s' \<and> list_all (\<lambda>j. key_get_by_id j (sv_db s') = None) ids'
    \<and> (case failed of None \<Rightarrow> True | Some (kid, err) \<Rightarrow> kid \<in> vk_id ` set ks)"
  using assms
proof (induction ks arbitrary: ids s)
  case Nil
  then show ?case by (auto simp: op_return_def intro: reflpD [OF only_drops_rel(1)])
next
  case (Cons k ks)
  obtain q t where q: "delete_relay_key deleters actor k s = (q, t)" by force
  note step = key_dropped [OF q]
  have later: "list_all (\<lambda>j. key_get_by_id j (sv_db t) = None) ids"
    using Cons.prems(2) only_drops_get step by (auto simp: list_all_iff)
  have on: ?case if "delete_relay_keys deleters actor ks ids' t = (r, s')" "list_all (\<lambda>j. key_get_by_id j (sv_db t) = None) ids'" for ids'
    using Cons.IH [OF that] step by (fastforce intro: transpD [OF only_drops_rel(2)] split: option.splits)
  show ?case
  proof (cases q)
    case (Inr u)
    with Cons.prems(1) q step later show ?thesis
      by (intro on [of "ids @ [vk_id k]"]) (auto simp: op_bind_def op_attempt_def)
  next
    case (Inl err)
    show ?thesis
    proof (cases "\<exists>m. err = NotFound m")
      case True
      with Inl Cons.prems(1) q later show ?thesis by (intro on [of ids]) (auto simp: op_bind_def op_attempt_def)
    next
      case False
      with Inl Cons.prems(1) q have "r = Inr (ids, Some (vk_id k, err)) \<and> s' = t"
        by (cases err) (auto simp: op_bind_def op_attempt_def op_return_def)
      with step later show ?thesis by simp
    qed
  qed
qed

end

lemma delete_unused_run:
  assumes "delete_if_unused i w = (r, w')" "distinct (map ry_id (db_relays w))" "relay_by_id i w = Some x"
  shows "if list_ex (carries (ry_name x)) (db_vpn_keys w) then r = Inr False \<and> w' = w
    else r = Inr True \<and> w' = w\<lparr>db_relays := filter (\<lambda>r. ry_id r \<noteq> i) (db_relays w)\<rparr>"
proof -
  let ?used = "\<lambda>r. list_ex (carries (ry_name r)) (db_vpn_keys w)"
  have x: "ry_id x = i" "find (\<lambda>r. ry_id r = i) (db_relays w) = Some x"
    using assms(3) find_Some_in by (fastforce simp: relay_by_id_def)+
  have rows: "r = x" if "r \<in> set (db_relays w)" "ry_id r = i" for r
    using find_unique [OF assms(2) that(1)] that(2) x by simp
  have same: "filter (\<lambda>r. \<not> (ry_id r = i \<and> \<not> ?used r)) (db_relays w) =
      (if ?used x then db_relays w else filter (\<lambda>r. ry_id r \<noteq> i) (db_relays w))"
    using rows by (auto intro!: filter_True filter_cong)
  have "count_where (\<lambda>r. ry_id r = i \<and> \<not> ?used r) (db_relays w) = (if ?used x then 0 else 1)"
    using count_key_row [OF assms(2) x(2), of "\<lambda>r. \<not> ?used r"] by simp
  with assms(1) same show ?thesis
    by (auto simp: delete_if_unused_def op_bind_def op_get_def op_modify_def op_return_def)
qed

definition carrying :: "string \<Rightarrow> 'h relay_state \<Rightarrow> int" where
  "carrying name s = count_where (carries name) (db_vpn_keys (rl_db s))"

lemma usage_keys: "ru_keys (relay_usage_of name w) = count_where (carries name) (db_vpn_keys w)"
  by (simp add: relay_usage_of_def Let_def count_where_def)

definition deletion_outcome ::
  "int \<Rightarrow> int \<Rightarrow> bool \<Rightarrow> 'h relay_state \<Rightarrow> service_error + relay_deletion_report \<Rightarrow> 'h relay_state \<Rightarrow> bool" where
  "deletion_outcome actor i with_keys s r s' \<longleftrightarrow> (case r of
     Inl err \<Rightarrow> s' = s
   | Inr rep \<Rightarrow> relay_by_id i (rl_db s) = Some (rd_relay rep)
       \<and> rd_remaining_keys rep = carrying (ry_name (rd_relay rep)) s'
       \<and> list_all (\<lambda>j. key_get_by_id j (rl_db s') = None) (rd_deleted_key_ids rep)
       \<and> key_names (rl_db s') \<subseteq> key_names (rl_db s)
       \<and> (with_keys \<or> db_vpn_keys (rl_db s') = db_vpn_keys (rl_db s))
       \<and> (if rd_deleted rep
          then db_relays (rl_db s') = filter (\<lambda>r. ry_id r \<noteq> i) (db_relays (rl_db s)) \<and> rd_remaining_keys rep = 0
          else db_relays (rl_db s') = db_relays (rl_db s) \<and> (rd_failed_key_id rep = None \<longrightarrow> 0 < rd_remaining_keys rep))
       \<and> relays_ok s')"


lemma drops_relays_ok: "only_drops (rl_service s) t \<Longrightarrow> relays_ok s \<Longrightarrow> relays_ok (s\<lparr>rl_service := t\<rparr>)"
  by (simp add: only_drops_def relays_ok_def relays_by_id_def)

lemma row_removed_ok:
  assumes "relays_ok s" "db_relays (rl_db s') = filter P (db_relays (rl_db s))" "rl_seq s' = rl_seq s"
    "rl_catalog s' = snapshot_of (relays_by_id (rl_db s'))"
  shows "relays_ok s'"
  using assms by (auto simp: relays_ok_def relays_unique_def distinct_map_filter)

context relay_deleters
begin

text \<open>What comes after the keys: \<open>t\<close> is the state their deletion left.\<close>

lemma finish_deletion:
  assumes ok: "relays_ok s" and x: "relay_by_id i (rl_db s) = Some x"
    and drop: "only_drops (rl_service s) (rl_service t)" "rl_seq t = rl_seq s" "rl_catalog t = rl_catalog s"
    and ids: "list_all (\<lambda>j. key_get_by_id j (rl_db t) = None) ids"
    and kept: "with_keys \<or> db_vpn_keys (rl_db t) = db_vpn_keys (rl_db s)"
    and run: "(case failed of
       Some (kid, err) \<Rightarrow>
         op_bind (on_rl (op_get (relay_usage_of (ry_name x)))) (\<lambda>u.
         op_bind (relay_audit e (Some actor) ''relay_delete_incomplete'' i) (\<lambda>_.
         op_return \<lparr>rd_relay = x, rd_deleted = False, rd_deleted_key_ids = ids, rd_failed_key_id = Some kid,
           rd_failure = Some err, rd_remaining_keys = ru_keys u\<rparr>))
     | None \<Rightarrow>
         op_bind (on_rl (delete_if_unused i)) (\<lambda>gone.
         if \<not> gone
         then op_bind (on_rl (op_get (relay_usage_of (ry_name x)))) (\<lambda>u.
              op_bind (if ids = [] then op_return () else relay_audit e (Some actor) ''relay_delete_incomplete'' i) (\<lambda>_.
              op_return \<lparr>rd_relay = x, rd_deleted = False, rd_deleted_key_ids = ids, rd_failed_key_id = None,
                rd_failure = None, rd_remaining_keys = ru_keys u\<rparr>))
         else op_bind (relay_audit e (Some actor) ''relay_deleted'' i) (\<lambda>_.
              op_bind refresh_catalog (\<lambda>_.
              op_return \<lparr>rd_relay = x, rd_deleted = True, rd_deleted_key_ids = ids, rd_failed_key_id = None,
                rd_failure = None, rd_remaining_keys = 0\<rparr>)))) t = (r, s')"
  shows "deletion_outcome actor i with_keys s r s'"
proof -
  have okt: "relays_ok t" using ok drop by (simp add: relays_ok_def relays_by_id_def only_drops_def)
  have rows: "db_relays (rl_db t) = db_relays (rl_db s)" "key_names (rl_db t) \<subseteq> key_names (rl_db s)"
    using drop(1) by (auto simp: only_drops_def)
  have shown: "deletion_outcome actor i with_keys s (Inr rep) s'"
    if "same_relays t s'" "db_vpn_keys (rl_db s') = db_vpn_keys (rl_db t)" "rd_relay rep = x" "\<not> rd_deleted rep"
      "rd_deleted_key_ids rep = ids" "rd_remaining_keys rep = carrying (ry_name x) t" "rd_failed_key_id rep = None \<longrightarrow> 0 < rd_remaining_keys rep"
    for rep
    using that x rows ids kept same_relays_ok [OF that(1) okt]
    by (auto simp: deletion_outcome_def carrying_def key_names_def key_get_by_id_def same_relays_def)
  have audited: "same_relays t v \<and> db_vpn_keys (rl_db v) = db_vpn_keys (rl_db t) \<and> q = Inr ()"
    if "relay_audit e a action i t = (q, v)" for q v a action
    using relay_audit_run [OF that] by blast
  show ?thesis
  proof (cases failed)
    case (Some f)
    obtain kid err where f: "f = (kid, err)" by force
    obtain q v where q: "relay_audit e (Some actor) ''relay_delete_incomplete'' i t = (q, v)" by force
    from run Some f q audited [OF q] show ?thesis
      by (auto simp: op_bind_def on_rl_def on_service_def on_db_def op_get_def op_return_def usage_keys carrying_def intro!: shown)
  next
    case None
    obtain q w where q: "delete_if_unused i (rl_db t) = (q, w)" by force
    have "relay_by_id i (rl_db t) = Some x" using x rows(1) by (simp add: relay_by_id_def)
    moreover have "distinct (map ry_id (db_relays (rl_db t)))" using okt by (simp add: relays_ok_def)
    ultimately have del: "if list_ex (carries (ry_name x)) (db_vpn_keys (rl_db t)) then q = Inr False \<and> w = rl_db t
        else q = Inr True \<and> w = (rl_db t)\<lparr>db_relays := filter (\<lambda>r. ry_id r \<noteq> i) (db_relays (rl_db t))\<rparr>"
      using delete_unused_run [OF q] by blast
    show ?thesis
    proof (cases "list_ex (carries (ry_name x)) (db_vpn_keys (rl_db t))")
      case True
      then have pos: "0 < carrying (ry_name x) t"
        by (auto simp: carrying_def count_where_def list_ex_iff filter_empty_conv)
      obtain p v where p: "(if ids = [] then op_return () else relay_audit e (Some actor) ''relay_delete_incomplete'' i) t = (p, v)" by force
      have v: "same_relays t v \<and> db_vpn_keys (rl_db v) = db_vpn_keys (rl_db t) \<and> p = Inr ()"
        using p audited by (auto simp: op_return_def same_relays_def split: if_splits)
      from True del have "on_rl (delete_if_unused i) t = (Inr False, t)" using q by (simp add: on_rl_run)
      with run None p v pos show ?thesis
        by (auto simp: op_bind_def on_rl_def on_service_def on_db_def op_get_def op_return_def usage_keys carrying_def intro!: shown)
    next
      case False
      then have none: "count_where (carries (ry_name x)) (db_vpn_keys (rl_db t)) = 0"
        by (auto simp: list_ex_iff)
      let ?t = "t\<lparr>rl_service := (rl_service t)\<lparr>sv_db := w\<rparr>\<rparr>"
      from False del have wrote: "on_rl (delete_if_unused i) t = (Inr True, ?t)" using q by (simp add: on_rl_run)
      let ?rep = "\<lparr>rd_relay = x, rd_deleted = True, rd_deleted_key_ids = ids, rd_failed_key_id = None,
                rd_failure = None, rd_remaining_keys = 0\<rparr>"
      from run None have "op_bind (relay_audit e (Some actor) ''relay_deleted'' i) (\<lambda>_. op_bind refresh_catalog (\<lambda>_. op_return ?rep)) ?t = (r, s')"
        by (simp add: bind_ok [where m = "on_rl (delete_if_unused i)" and s = t, OF wrote])
      then obtain v where v: "op_return ?rep v = (r, s')" "db_relays (rl_db v) = db_relays w" "db_vpn_keys (rl_db v) = db_vpn_keys w"
          "rl_seq v = rl_seq t" "rl_catalog v = snapshot_of (relays_by_id (rl_db v))"
        by (rule publish_run) auto
      have "relays_ok v"
        using v False del by (intro row_removed_ok [OF okt, where P = "\<lambda>r. ry_id r \<noteq> i"]) auto
      with v False del none rows ids kept x show ?thesis
        by (auto simp: deletion_outcome_def op_return_def carrying_def key_names_def key_get_by_id_def)
    qed
  qed
qed

lemma delete_run:
  assumes "relays_ok s" "relay_delete e deleters actor i with_keys s = (r, s')"
  shows "deletion_outcome actor i with_keys s r s'"
  using assms(2) unfolding relay_delete_def
proof (elim through_rl [where Q = "deletion_outcome actor i with_keys s"], goal_cases)
  case (3 a x)
  then have x: "relay_by_id i (rl_db s) = Some x"
    by (auto simp: on_rl_run relay_require_def op_simps split: option.splits)
  show ?case
  proof (cases with_keys)
    case True
    let ?refs = "relay_keys (ry_name x) (rl_db s)"
    obtain q t where q: "delete_relay_keys deleters actor ?refs [] (rl_service s) = (q, t)" by force
    from keys_dropped [OF q] obtain ids failed where t: "q = Inr (ids, failed)" "only_drops (rl_service s) t"
        "list_all (\<lambda>j. key_get_by_id j (sv_db t) = None) ids"
      by auto
    have keys: "op_bind (on_rl (op_get (relay_keys (ry_name x)))) (\<lambda>refs. on_service (delete_relay_keys deleters actor refs [])) s
        = (Inr (ids, failed), s\<lparr>rl_service := t\<rparr>)"
      using q t(1) by (simp add: op_bind_def on_rl_def on_service_def on_db_def op_get_def)
    show ?thesis
    proof (rule finish_deletion [OF assms(1) x, where t = "s\<lparr>rl_service := t\<rparr>" and ids = ids and failed = failed and e = e and actor = actor], goal_cases)
      case 6
      with 3(3) True keys show ?case by (simp only: if_True bind_ok prod.case)
    qed (use t True in simp_all)
  next
    case False
    with 3 show ?thesis
      by (intro finish_deletion [OF assms(1) x, where t = s and ids = "[]" and failed = None])
        (auto simp: bind_pure only_drops_def)
  qed
qed (simp_all add: deletion_outcome_def)

end


section \<open>The AmneziaWG service deletes keys of relays\<close>

definition awg_key_deleters :: "env \<Rightarrow> library \<Rightarrow> 'h awg_adapter \<Rightarrow> 'h key_deleters" where
  "awg_key_deleters e lib ad t = (if t = AWG then Some (delete_awg_key e lib ad) else None)"

lemma drops_gate [simp]: "gate m \<Longrightarrow> steps_in only_drops m"
  by (simp add: steps_gate)

lemma drops_effects [simp]:
  "steps_in only_drops (on_host m)" "steps_in only_drops (awg_audit e a action i)"
  "steps_in only_drops (on_db (hard_delete_with_stats kid now))"
  by (auto simp: steps_in_def only_drops_def key_names_def on_host_def awg_audit_def on_db_def audit_best_effort_run hard_delete_run split_beta)

lemma drops_update_keys:
  "(\<And>k. vk_id (f k) = vk_id k \<and> vk_relay (f k) = vk_relay k) \<Longrightarrow> only_drops s (s\<lparr>sv_db := snd (update_keys P f (sv_db s))\<rparr>)"
  by (auto simp: only_drops_def key_names_def update_keys_run set_update_where image_iff)

lemma drops_status [simp]: "steps_in only_drops (on_db (set_status i st now None))"
  by (simp add: steps_in_def on_db_def split_beta set_status_def snd_guard_after drops_update_keys)

lemmas drops_steps = steps_bind [OF only_drops_rel(2)] steps_try [OF only_drops_rel(2)]

lemma awg_delete_drops: "steps_in only_drops (delete_awg_key e lib ad actor kid)"
  unfolding delete_awg_key_def remove_awg_access_def removal_public_key_def
  by (auto intro!: drops_steps)

lemma awg_delete_gone:
  assumes "delete_awg_key e lib ad actor kid s = (Inr (), s')"
  shows "key_get_by_id kid (sv_db s') = None"
proof -
  from assms obtain t u where t: "on_db (hard_delete_with_stats kid (ev_now e)) t = (Inr (), u)"
      "awg_audit e (Some actor) ''awg_key_hard_deleted'' kid u = (Inr (), s')"
    unfolding delete_awg_key_def by (auto simp: op_bind_Inr)
  from t(2) have "db_vpn_keys (sv_db s') = db_vpn_keys (sv_db u)"
    by (auto simp: awg_audit_def on_db_def audit_best_effort_run)
  moreover from t(1) have "db_vpn_keys (sv_db u) = filter (\<lambda>k. vk_id k \<noteq> kid) (db_vpn_keys (sv_db t))"
    by (auto simp: on_db_def hard_delete_run)
  ultimately show ?thesis by (auto simp: key_get_by_id_def find_None_iff)
qed

interpretation awg_deleters: relay_deleters "awg_key_deleters e lib ad" for e lib ad
  by unfold_locales (auto simp: awg_key_deleters_def awg_delete_drops [unfolded steps_in_def, rule_format] awg_delete_gone split: if_splits)


section \<open>Runs of the panel\<close>

text \<open>
  A step is an operation of the panel, or anything else that leaves the relays alone (keys issued,
  changed or deleted by the other services). The seed of the settings, which may give a name back to
  the keys that carry it, is kept apart.
\<close>

inductive relay_step :: "'h key_deleters \<Rightarrow> 'h relay_state \<Rightarrow> 'h relay_state \<Rightarrow> bool" for deleters where
  create: "relay_create e v6 actor inp s = (r, s') \<Longrightarrow> relay_step deleters s s'"
| update: "relay_update e v6 actor i ed s = (q, s') \<Longrightarrow> relay_step deleters s s'"
| add_source: "add_source_ip e v6 actor i address s = (q, s') \<Longrightarrow> relay_step deleters s s'"
| delete: "relay_delete e deleters actor i with_keys s = (p, s') \<Longrightarrow> relay_step deleters s s'"
| elsewhere: "db_relays (sv_db t) = db_relays (rl_db s) \<Longrightarrow> relay_step deleters s (s\<lparr>rl_service := t\<rparr>)"

inductive_cases relay_stepE: "relay_step deleters s s'"

text \<open>A run during which some key always carries the name.\<close>

inductive carried_run :: "'h key_deleters \<Rightarrow> string \<Rightarrow> 'h relay_state \<Rightarrow> 'h relay_state \<Rightarrow> bool" for deleters name where
  start: "name_used_by_keys name (rl_db s) \<Longrightarrow> carried_run deleters name s s"
| step: "carried_run deleters name s s' \<Longrightarrow> relay_step deleters s' s'' \<Longrightarrow> name_used_by_keys name (rl_db s'')
    \<Longrightarrow> carried_run deleters name s s''"

lemma carried_used: "carried_run deleters name s s' \<Longrightarrow> name_used_by_keys name (rl_db s')"
  by (induction rule: carried_run.induct) auto

lemma deletion_change: "deletion_outcome actor i with_keys s r s' \<Longrightarrow> relay_change s s'"
  by (auto simp: deletion_outcome_def relay_change_def binding_kept_def split: sum.splits if_splits)

lemma step_change:
  assumes "relay_deleters deleters" "relays_ok s" "relay_step deleters s s'"
  shows "relay_change s s'"
  using assms(3)
proof cases
  case (delete e actor i with_keys p)
  then show ?thesis using relay_deleters.delete_run [OF assms(1,2)] deletion_change by blast
next
  case (elsewhere t)
  then show ?thesis by (intro relay_change_same) (simp add: same_relays_def)
qed (auto intro: create_effect update_effect add_source_effect)

lemma run_ok:
  assumes "carried_run deleters name s s'" "relay_deleters deleters" "relays_ok s"
  shows "relays_ok s' \<and> (\<forall>r' \<in> set (db_relays (rl_db s')). ry_name r' = name \<longrightarrow>
    (\<exists>r \<in> set (db_relays (rl_db s)). ry_name r = name \<and> ry_id r = ry_id r'))"
  using assms
proof (induction rule: carried_run.induct)
  case (start s)
  then show ?case by auto
next
  case (step s s' s'')
  then have "relay_change s' s''" by (intro step_change) auto
  with step carried_used [OF step(1)] show ?case
    unfolding relay_change_def binding_kept_def by metis
qed

text \<open>
  C33: as long as some key carries the name of a relay, whatever relays are created, edited and deleted
  and whatever happens to the keys: a relay with that name is the one that had it at the start, so no key
  ever comes to point at a relay added later.
\<close>

theorem relay_name_never_reassigned:
  assumes "relay_deleters deleters" "relays_ok s" "carried_run deleters name s s'"
    "relay_by_name name (rl_db s) = Some r" "relay_by_name name (rl_db s') = Some r'"
  shows "ry_id r' = ry_id r"
proof -
  have r: "r \<in> set (db_relays (rl_db s))" "ry_name r = name" "r' \<in> set (db_relays (rl_db s'))" "ry_name r' = name"
    using assms(4,5) find_Some_in by (fastforce simp: relay_by_name_def)+
  then obtain q where q: "q \<in> set (db_relays (rl_db s))" "ry_name q = name" "ry_id q = ry_id r'"
    using run_ok [OF assms(3,1,2)] by blast
  have "distinct (map ry_name (db_relays (rl_db s)))" using assms(2) by (simp add: relays_ok_def relays_unique_def)
  then have "q = r" using find_unique [of ry_name "db_relays (rl_db s)"] q r by (metis option.inject)
  with q show ?thesis by simp
qed

text \<open>
  C34: every outcome of deleting a relay, with its keys or without. An error changes nothing. A report
  is true: the relay is gone exactly when it says so, and then no key names it; the keys it lists are
  gone; what remains is counted; and a relay that stays without a failed key has keys in the way.
\<close>

theorem relay_delete_outcome:
  assumes "relay_deleters deleters" "relays_ok s" "relay_delete e deleters actor i with_keys s = (r, s')"
  shows "deletion_outcome actor i with_keys s r s'"
  by (rule relay_deleters.delete_run [OF assms])

lemma seed_effect:
  fixes s :: "'h relay_state"
  assumes "relays_ok s" "relay_seed e seed s = (r, s')"
  shows "relays_ok s'"
proof (cases "\<exists>d. seed = Some d \<and> db_relays (rl_db s) = []")
  case False
  with assms show ?thesis
    by (auto simp: relay_seed_def op_bind_def on_rl_def on_service_def on_db_def op_get_def op_return_def count_relays_def split: option.splits)
next
  case True
  then obtain d where d: "seed = Some d" "db_relays (rl_db s) = []" by blast
  let ?d = "d\<lparr>rf_label := ''relay'', rf_enabled := True, rf_in_subscriptions := True, rf_note := None, rf_created_by := None\<rparr>"
  obtain q t where q: "relay_create_row ?d (ev_now e) s = (q, t)" by force
  from assms(2) d q have run: "op_bind (\<lambda>_. (q, t)) (\<lambda>r. op_bind (relay_audit e None ''relay_seeded_from_env'' (ry_id r)) (\<lambda>_.
      op_bind refresh_catalog (\<lambda>_. op_return (Some r)))) s = (r, s')"
    by (simp add: relay_seed_def op_bind_def on_rl_def on_service_def on_db_def op_get_def count_relays_def)
  from row_created [OF q] show ?thesis
  proof (elim disjE conjE)
    assume "q = Inl (IntegrityError ''relays'')" "t = s"
    with run assms(1) show ?thesis by (simp add: op_bind_def)
  next
    let ?x = "relay_row ?d (ev_now e) (next_relay_id s)"
    assume new: "q = Inr ?x" "db_relays (rl_db t) = db_relays (rl_db s) @ [?x]" "rl_seq t = next_relay_id s"
    from run new(1) have "op_bind (relay_audit e None ''relay_seeded_from_env'' (ry_id ?x)) (\<lambda>_. op_bind refresh_catalog (\<lambda>_. op_return (Some ?x))) t = (r, s')"
      by (simp add: op_bind_def [of "\<lambda>_. _"])
    then obtain p where "op_return (Some ?x) p = (r, s')" "db_relays (rl_db p) = db_relays (rl_db t)" "rl_seq p = rl_seq t"
        "rl_catalog p = snapshot_of (relays_by_id (rl_db p))"
      by (rule publish_run)
    with new d(2) show ?thesis by (auto simp: relays_ok_def relays_unique_def op_return_def relay_row_def)
  qed
qed

inductive panel_step :: "'h key_deleters \<Rightarrow> 'h relay_state \<Rightarrow> 'h relay_state \<Rightarrow> bool" for deleters where
  operation: "relay_step deleters s s' \<Longrightarrow> panel_step deleters s s'"
| seed: "relay_seed e d s = (r, s') \<Longrightarrow> panel_step deleters s s'"

lemma panel_ok:
  assumes "relay_deleters deleters" "(panel_step deleters)\<^sup>*\<^sup>* s s'" "relays_ok s"
  shows "relays_ok s'"
  using assms(2,3)
proof (induction rule: rtranclp_induct)
  case (step t u)
  from step(2) show ?case
  proof cases
    case operation
    with step step_change [OF assms(1)] show ?thesis by (simp add: relay_change_def)
  next
    case (seed e d r)
    with step seed_effect show ?thesis by blast
  qed
qed

text \<open>
  The snapshot the bot renders links from always shows the relays of the table, whose names,
  markers and numbers stay unique, over any run of the panel's operations and of the start-up seed.
\<close>

theorem relay_catalog_current:
  assumes "relay_deleters deleters" "relays_ok s" "(panel_step deleters)\<^sup>*\<^sup>* s s'"
  shows "rl_catalog s' = snapshot_of (db_relays (rl_db s')) \<and> relays_unique (db_relays (rl_db s'))
    \<and> distinct (map ry_id (db_relays (rl_db s')))"
  using panel_ok [OF assms(1,3,2)] snapshot_sorted [of "rl_db s'"] by (simp add: relays_ok_def)


section \<open>An example\<close>

text \<open>A relay with one key of AmneziaWG; deleting it without its keys is refused.\<close>

definition demo_relay_row :: relay where
  "demo_relay_row = \<lparr>ry_id = 1, ry_name = ''ru1'', ry_label = ''relay'', ry_host = ''r.example'', ry_source_ips = [],
     ry_enabled = True, ry_in_subscriptions = True, ry_note = None, ry_created_at = ''1'', ry_updated_at = ''1'',
     ry_created_by = None, ry_updated_by = None\<rparr>"

definition demo_panel :: "string list tunnel relay_state" where
  "demo_panel = \<lparr>rl_service = demo_service\<lparr>sv_db := (sv_db demo_service)\<lparr>db_relays := [demo_relay_row],
       db_vpn_keys := [(demo_key 1 KeyActive)\<lparr>vk_relay := Some ''ru1''\<rparr>]\<rparr>\<rparr>, rl_seq = 1, rl_catalog = [demo_relay_row]\<rparr>"

definition demo_deleters :: "string list tunnel key_deleters" where
  "demo_deleters = awg_key_deleters service_env plain_library demo_adapter"

lemma demo_deleters_ok: "relay_deleters demo_deleters"
  unfolding demo_deleters_def by (rule awg_deleters.relay_deleters_axioms)

lemma demo_panel_ok: "relays_ok demo_panel"
  by (simp add: relays_ok_def relays_unique_def demo_panel_def demo_relay_row_def relays_by_id_def snapshot_of_def)

definition demo_refused :: "string list tunnel relay_state" where
  "demo_refused = snd (relay_delete service_env demo_deleters 1 1 False demo_panel)"

lemma demo_refused_run: "relay_delete service_env demo_deleters 1 1 False demo_panel =
    (Inr \<lparr>rd_relay = demo_relay_row, rd_deleted = False, rd_deleted_key_ids = [], rd_failed_key_id = None,
       rd_failure = None, rd_remaining_keys = 1\<rparr>, demo_refused)"
proof -
  have "fst (relay_delete service_env demo_deleters 1 1 False demo_panel) =
    Inr \<lparr>rd_relay = demo_relay_row, rd_deleted = False, rd_deleted_key_ids = [], rd_failed_key_id = None,
       rd_failure = None, rd_remaining_keys = 1\<rparr>"
    by code_simp
  then show ?thesis by (simp add: demo_refused_def prod_eq_iff)
qed

lemma demo_refused_state: "relay_by_name ''ru1'' (rl_db demo_refused) = Some demo_relay_row \<and> name_used_by_keys ''ru1'' (rl_db demo_refused)"
  by code_simp

lemma demo_panel_state: "relay_by_name ''ru1'' (rl_db demo_panel) = Some demo_relay_row \<and> name_used_by_keys ''ru1'' (rl_db demo_panel)"
  by (simp add: demo_panel_def demo_relay_row_def relay_by_name_def name_used_by_keys_def)

lemma relay_name_never_reassigned_witness: "ry_id demo_relay_row = ry_id demo_relay_row \<and> carried_run demo_deleters ''ru1'' demo_panel demo_refused"
proof -
  have "carried_run demo_deleters ''ru1'' demo_panel demo_refused"
    using demo_panel_state demo_refused_state relay_step.delete [OF demo_refused_run] by (blast intro: carried_run.intros)
  with relay_name_never_reassigned [OF demo_deleters_ok demo_panel_ok this] demo_panel_state demo_refused_state
  show ?thesis by blast
qed

lemma relay_delete_outcome_witness: "deletion_outcome 1 1 False demo_panel
   (Inr \<lparr>rd_relay = demo_relay_row, rd_deleted = False, rd_deleted_key_ids = [], rd_failed_key_id = None,
       rd_failure = None, rd_remaining_keys = 1\<rparr>) demo_refused"
  by (rule relay_delete_outcome [OF demo_deleters_ok demo_panel_ok demo_refused_run])

lemma relay_catalog_current_witness: "rl_catalog demo_refused = snapshot_of (db_relays (rl_db demo_refused))"
proof -
  have "(panel_step demo_deleters)\<^sup>*\<^sup>* demo_panel demo_refused"
    using panel_step.operation [OF relay_step.delete [OF demo_refused_run]] by blast
  from relay_catalog_current [OF demo_deleters_ok demo_panel_ok this] show ?thesis by blast
qed

end
