(* ===== verification/Key_Expiry.thy ===== *)
theory Key_Expiry
  imports Vpn_Keys Service_State Py_Datetime Op_Steps
begin

text \<open>
  \<open>services/vpn_keys.py\<close> (who may look at which keys), \<open>services/key_expiry.py\<close> (the reminders before
  a key expires and the revocation after) and the choice of the language in \<open>i18n/__init__.py\<close>. What
  the bot's sending answers is an argument; the reminders sent are recorded in the run. The Russian
  nouns stand as ASCII tags.
\<close>

section \<open>The queries over keys\<close>

definition key_target :: "int \<Rightarrow> int option \<Rightarrow> int" where
  "key_target actor owner = (case owner of Some o' \<Rightarrow> if o' = 0 then actor else o' | None \<Rightarrow> actor)"

definition view_gate :: "int \<Rightarrow> int option \<Rightarrow> int act" where
  "view_gate actor owner = op_bind (require_approved_or_admin actor) (\<lambda>a.
     op_bind (op_guard (u_role a = SUPERADMIN \<or> key_target actor owner = actor) (AccessDenied ''err_foreign_keys_view'')) (\<lambda>_.
     op_return (key_target actor owner)))"

definition list_for_actor :: "int \<Rightarrow> int option \<Rightarrow> int \<Rightarrow> int \<Rightarrow> bool \<Rightarrow> vpn_key list act" where
  "list_for_actor actor owner limit offset exclude_bundled =
     op_bind (view_gate actor owner) (\<lambda>target. op_get (list_by_owner target limit offset exclude_bundled))"

definition count_for_actor :: "int \<Rightarrow> int option \<Rightarrow> bool \<Rightarrow> int act" where
  "count_for_actor actor owner exclude_bundled =
     op_bind (view_gate actor owner) (\<lambda>target. op_get (count_by_owner target exclude_bundled))"

type_synonym owner_traffic = "traffic_scope_totals \<times> traffic_scope_totals"

definition owner_traffic_summary :: "int \<Rightarrow> world \<Rightarrow> owner_traffic" where
  "owner_traffic_summary owner w = (sum_traffic_for_owner owner current_keys w, sum_traffic_for_owner owner all_time w)"

definition active_of_type :: "vpn_key_type \<Rightarrow> vpn_key list \<Rightarrow> int" where
  "active_of_type t ks = count_where (\<lambda>k. vk_key_type k = t) ks"

definition personal_summary_for_actor :: "int \<Rightarrow> (int \<times> int \<times> int \<times> owner_traffic) act" where
  "personal_summary_for_actor actor =
     op_bind (require_approved_or_admin actor) (\<lambda>_.
     op_bind (op_get (list_by_owner_statuses actor [KeyActive] 500 0)) (\<lambda>active.
     op_bind (op_get (owner_traffic_summary actor)) (\<lambda>traffic.
     op_return (active_of_type XRAY active, active_of_type AWG active, active_of_type HYSTERIA2 active, traffic))))"

definition traffic_summary_for_actor :: "int \<Rightarrow> int option \<Rightarrow> owner_traffic act" where
  "traffic_summary_for_actor actor owner =
     op_bind (view_gate actor owner) (\<lambda>target. op_get (owner_traffic_summary target))"

definition query_active_trial_by_owner :: "int \<Rightarrow> vpn_key list act" where
  "query_active_trial_by_owner owner = op_get (list_active_trial_by_owner owner)"

text \<open>The owner needs no gate to see an own key.\<close>

definition get_for_actor :: "int \<Rightarrow> int \<Rightarrow> vpn_key act" where
  "get_for_actor actor kid =
     op_bind (op_get (key_get_by_id kid)) (\<lambda>found.
     case found of None \<Rightarrow> op_raise (NotFound ''err_key_not_found'')
      | Some k \<Rightarrow>
          if vk_status k = KeyDeleted then op_raise (NotFound ''err_key_not_found'')
          else if vk_owner_user_id k = actor then op_return k
          else op_bind (require_approved_or_admin actor) (\<lambda>a.
               op_bind (op_guard (u_role a = SUPERADMIN) (AccessDenied ''err_foreign_key_view'')) (\<lambda>_. op_return k)))"

section \<open>The language of a message\<close>

definition catalog_locales :: "string list" where
  "catalog_locales = [''ru'', ''en'']"

definition fallback_locale :: string where
  "fallback_locale = ''ru''"

definition configure_locale :: "string \<Rightarrow> string" where
  "configure_locale locale = (if locale \<in> set catalog_locales then locale else fallback_locale)"

definition set_locale :: "string option \<Rightarrow> string option" where
  "set_locale locale = (case locale of Some l \<Rightarrow> if l \<in> set catalog_locales then Some l else None | None \<Rightarrow> None)"

definition resolve_locale :: "string \<Rightarrow> string option \<Rightarrow> string" where
  "resolve_locale default_locale current =
     (let l = (case current of None \<Rightarrow> default_locale | Some l \<Rightarrow> l)
      in if l \<in> set catalog_locales then l else fallback_locale)"

text \<open>\<open>t\<close>, before the arguments are filled in: the active locale, the default one, Russian, the key.\<close>

definition translate :: "(string \<Rightarrow> (string, string) dict) \<Rightarrow> string \<Rightarrow> string option \<Rightarrow> string \<Rightarrow> string" where
  "translate catalog default_locale current key =
     (case map_of (catalog (resolve_locale default_locale current)) key of Some v \<Rightarrow> v
      | None \<Rightarrow> (case (if default_locale \<in> set catalog_locales then map_of (catalog default_locale) key else None) of Some v \<Rightarrow> v
        | None \<Rightarrow> (case map_of (catalog fallback_locale) key of Some v \<Rightarrow> v | None \<Rightarrow> key)))"

definition all_variants :: "(string \<Rightarrow> (string, string) dict) \<Rightarrow> string \<Rightarrow> string list" where
  "all_variants catalog key = remdups (filter (\<lambda>v. v \<noteq> []) (List.map_filter (\<lambda>l. map_of (catalog l) key) catalog_locales))"

section \<open>Reminders\<close>

definition days_noun :: "int \<Rightarrow> string" where
  "days_noun days =
     (if 11 \<le> days mod 100 \<and> days mod 100 < 20 then ''dney''
      else if days mod 10 = 1 then ''den'' else if days mod 10 \<in> {2, 3, 4} then ''dnya'' else ''dney'')"

definition days_noun_for :: "string \<Rightarrow> int \<Rightarrow> string" where
  "days_noun_for locale days = (if locale = ''en'' then if days = 1 then ''day'' else ''days'' else days_noun days)"

text \<open>\<open>_add_days\<close>, and Python's \<open>round\<close>, half to even.\<close>

definition expiry_add_days :: "string \<Rightarrow> nat \<Rightarrow> service_error + string" where
  "expiry_add_days now days = (case fromisoformat now of None \<Rightarrow> Inl (ValueError ''isoformat'')
     | Some d \<Rightarrow> (case add_days days d of None \<Rightarrow> Inl (ValueError ''date value out of range'') | Some r \<Rightarrow> Inr (isoformat r)))"

definition round_half_even :: "rat \<Rightarrow> int" where
  "round_half_even x =
     (let n = floor x; d = x - of_int n
      in if d < 1/2 then n else if d > 1/2 then n + 1 else if even n then n else n + 1)"

definition remaining_days :: "env \<Rightarrow> string \<Rightarrow> string option \<Rightarrow> int" where
  "remaining_days e now expires_at = (case expires_at of None \<Rightarrow> 1
     | Some x \<Rightarrow> if x = [] then 1 else (case (ev_instant e now, ev_instant e x) of
         (Some a, Some b) \<Rightarrow> max 1 (round_half_even ((b - a) / 86400)) | _ \<Rightarrow> 1))"

record reminder =
  rd_key_id :: int
  rd_threshold :: int
  rd_days :: int
  rd_noun :: string

record reminder_run =
  rr_count :: int
  rr_notified :: "int list"
  rr_owners :: "(int, user option) dict"
  rr_sent :: "reminder list"

text \<open>What the bot does with a message to a user; \<open>locale\<close> is the default language.\<close>

record reminder_bot =
  bt_sends :: "int \<Rightarrow> reminder \<Rightarrow> bool"
  bt_locale :: string

definition run_owner :: "int \<Rightarrow> reminder_run \<Rightarrow> (user option \<times> reminder_run) act" where
  "run_owner uid run = (case map_of (rr_owners run) uid of
     Some o' \<Rightarrow> op_return (o', run)
   | None \<Rightarrow> op_bind (op_get (user_get_by_id uid)) (\<lambda>found.
       op_return (found, run\<lparr>rr_owners := rr_owners run @ [(uid, found)]\<rparr>)))"

definition reminder_for :: "env \<Rightarrow> reminder_bot \<Rightarrow> int \<Rightarrow> vpn_key \<Rightarrow> user option \<Rightarrow> reminder" where
  "reminder_for e bt days k owner =
     (let left = remaining_days e (ev_now e) (vk_expires_at k)
      in \<lparr>rd_key_id = vk_id k, rd_threshold = days, rd_days = left,
          rd_noun = days_noun_for (resolve_locale (bt_locale bt) (set_locale (Option.bind owner u_language))) left\<rparr>)"

definition remind_key :: "env \<Rightarrow> reminder_bot \<Rightarrow> int \<Rightarrow> vpn_key \<Rightarrow> reminder_run \<Rightarrow> reminder_run act" where
  "remind_key e bt days k run =
     (if vk_id k \<in> set (rr_notified run)
      then op_bind (mark_expiry_notified (vk_id k) days) (\<lambda>_. op_return run)
      else op_bind (run_owner (vk_owner_user_id k) run) (\<lambda>(owner, run).
        if (case owner of None \<Rightarrow> False | Some u \<Rightarrow> \<not> u_expiry_notifications_enabled u) then op_return run
        else let r = reminder_for e bt days k owner
          in if \<not> bt_sends bt (vk_owner_user_id k) r then op_return run
             else let run = run\<lparr>rr_sent := rr_sent run @ [r]\<rparr>
               in op_try
                    (op_bind (mark_expiry_notified (vk_id k) days) (\<lambda>_.
                     op_return (run\<lparr>rr_notified := vk_id k # rr_notified run, rr_count := rr_count run + 1\<rparr>)))
                    (\<lambda>_. op_return run)))"

fun remind_keys :: "env \<Rightarrow> reminder_bot \<Rightarrow> int \<Rightarrow> vpn_key list \<Rightarrow> reminder_run \<Rightarrow> reminder_run act" where
  "remind_keys e bt days [] run = op_return run"
| "remind_keys e bt days (k # ks) run = op_bind (remind_key e bt days k run) (\<lambda>run. remind_keys e bt days ks run)"

fun remind_thresholds :: "env \<Rightarrow> reminder_bot \<Rightarrow> nat list \<Rightarrow> reminder_run \<Rightarrow> reminder_run act" where
  "remind_thresholds e bt [] run = op_return run"
| "remind_thresholds e bt (days # rest) run =
     (case expiry_add_days (ev_now e) days of Inl err \<Rightarrow> op_raise err
      | Inr deadline \<Rightarrow>
          op_bind (op_get (list_not_notified_expiring (ev_now e) deadline (int days) 200)) (\<lambda>ks.
          op_bind (remind_keys e bt (int days) ks run) (\<lambda>run.
          remind_thresholds e bt rest run)))"

definition no_reminders :: reminder_run where
  "no_reminders = \<lparr>rr_count = 0, rr_notified = [], rr_owners = [], rr_sent = []\<rparr>"

definition notify_expiring_keys :: "env \<Rightarrow> reminder_bot option \<Rightarrow> nat list \<Rightarrow> reminder_run act" where
  "notify_expiring_keys e bt notify_days = (case bt of None \<Rightarrow> op_return no_reminders
     | Some b \<Rightarrow> if notify_days = [] then op_return no_reminders else remind_thresholds e b (sort notify_days) no_reminders)"

section \<open>Revoking expired keys\<close>

text \<open>The revocation of each protocol's service; \<open>ex_hysteria\<close> may be absent. The second result
  counts the skipped revocations reported to the health record.\<close>

record 'h expiry_services =
  ex_xray :: "int \<Rightarrow> ('h, unit) service_op"
  ex_awg :: "int \<Rightarrow> ('h, unit) service_op"
  ex_hysteria :: "(int \<Rightarrow> ('h, unit) service_op) option"

definition revoke_expired :: "'h expiry_services \<Rightarrow> vpn_key \<Rightarrow> ('h, unit) service_op" where
  "revoke_expired ex k = (case vk_key_type k of
       XRAY \<Rightarrow> ex_xray ex (vk_id k)
     | AWG \<Rightarrow> ex_awg ex (vk_id k)
     | HYSTERIA2 \<Rightarrow> (case ex_hysteria ex of None \<Rightarrow> op_raise (RuntimeFailure ''Hysteria2 service not wired'') | Some f \<Rightarrow> f (vk_id k)))"

fun revoke_each :: "'h expiry_services \<Rightarrow> vpn_key list \<Rightarrow> ('h, int \<times> int) service_op" where
  "revoke_each ex [] = op_return (0, 0)"
| "revoke_each ex (k # ks) =
     op_bind (op_attempt (revoke_expired ex k)) (\<lambda>r.
     op_bind (revoke_each ex ks) (\<lambda>(n, skipped).
     op_return (case r of Inr _ \<Rightarrow> (n + 1, skipped) | Inl _ \<Rightarrow> (n, skipped + 1))))"

definition revoke_expired_keys :: "env \<Rightarrow> 'h expiry_services \<Rightarrow> ('h, int \<times> int) service_op" where
  "revoke_expired_keys e ex =
     op_bind (on_db (op_get (list_expired_active (ev_now e) 100))) (\<lambda>expired. revoke_each ex expired)"

section \<open>Nobody is reminded twice\<close>

text \<open>Rows whose record of the reminders is one the code writes.\<close>

definition reminders_ok :: "world \<Rightarrow> bool" where
  "reminders_ok w \<longleftrightarrow> keys_ok w \<and> (\<forall>k \<in> set (db_vpn_keys w). \<exists>ds. thresholds_text (vk_expiry_notified_days k) ds)"

definition was_notified :: "world \<Rightarrow> int \<Rightarrow> int \<Rightarrow> bool" where
  "was_notified w kid t \<longleftrightarrow> (case key_get_by_id kid w of None \<Rightarrow> False | Some k \<Rightarrow> notified_for t k)"

definition same_keys :: "world \<Rightarrow> world \<Rightarrow> bool" where
  "same_keys w w' \<longleftrightarrow> map vk_id (db_vpn_keys w') = map vk_id (db_vpn_keys w)"

lemma key_get_None: "key_get_by_id kid w = None \<longleftrightarrow> kid \<notin> set (map vk_id (db_vpn_keys w))"
  by (auto simp: key_get_by_id_def find_None_iff)

lemma same_keys_get: "same_keys w w' \<Longrightarrow> key_get_by_id kid w' = None \<longleftrightarrow> key_get_by_id kid w = None"
  unfolding key_get_None same_keys_def by simp

lemma record_ids: "map vk_id (update_where P (record_thresholds ds) ks) = map vk_id ks"
  by (simp add: map_update_where record_thresholds_def)

lemma keys_ok_recorded:
  assumes "keys_ok w"
  shows "keys_ok (w\<lparr>db_vpn_keys := update_where (has_key_id kid) (record_thresholds ds) (db_vpn_keys w)\<rparr>)"
proof -
  have "keys_unique (update_where (has_key_id kid) (record_thresholds ds) (db_vpn_keys w))"
    unfolding update_where_def using assms
    by (intro keys_unique_map) (auto simp: keys_ok_def record_thresholds_def reserved_ip_def)
  then show ?thesis
    using assms numbers_kept_update [where f = "record_thresholds ds" and P = "has_key_id kid" and w = w and n = 0]
    by (simp add: numbers_kept_def update_keys_run keeps_key_id_def record_thresholds_def)
qed

lemma mark_step:
  assumes "reminders_ok w" "key_get_by_id kid w \<noteq> None" "0 \<le> threshold"
  obtains w' where "mark_expiry_notified kid threshold w = (Inr (), w')" "reminders_ok w'" "same_keys w w'"
    "\<And>j t. 0 \<le> t \<Longrightarrow> was_notified w' j t \<longleftrightarrow> (j = kid \<and> t = threshold) \<or> was_notified w j t"
proof -
  from assms(2) obtain k where k: "key_get_by_id kid w = Some k" by blast
  with assms(1) obtain ds where ds: "thresholds_text (vk_expiry_notified_days k) ds"
    using key_get_Some by (metis reminders_ok_def)
  let ?f = "record_thresholds (with_threshold threshold ds)"
  let ?w = "w\<lparr>db_vpn_keys := update_where (has_key_id kid) ?f (db_vpn_keys w)\<rparr>"
  have ok: "keys_ok w" using assms(1) by (simp add: reminders_ok_def)
  have run: "mark_expiry_notified kid threshold w = (Inr (), ?w)" using mark_expiry_run [OF ok k ds] .
  have row: "x = k" if "x \<in> set (db_vpn_keys w)" "vk_id x = kid" for x
    using key_get_unique [OF ok that(1)] that(2) k by simp
  have written: "\<exists>ds. thresholds_text (vk_expiry_notified_days x) ds" if "x \<in> set (db_vpn_keys ?w)" for x
  proof -
    from that obtain y where y: "y \<in> set (db_vpn_keys w)" "x = (if vk_id y = kid then ?f y else y)"
      by (auto simp: set_update_where)
    show ?thesis
    proof (cases "vk_id y = kid")
      case True
      with y row have "x = ?f k" by simp
      with thresholds_recorded(1) [OF ds assms(3)] show ?thesis by blast
    next
      case False
      with y assms(1) show ?thesis by (simp add: reminders_ok_def)
    qed
  qed
  have "was_notified ?w j t \<longleftrightarrow> (j = kid \<and> t = threshold) \<or> was_notified w j t" if "0 \<le> t" for j t
  proof -
    have "key_get_by_id j ?w = map_option (\<lambda>x. if vk_id x = kid then ?f x else x) (key_get_by_id j w)"
      by (simp add: key_get_by_id_def find_update_key record_thresholds_def)
    then show ?thesis
      using k thresholds_recorded(2) [OF ds assms(3) that] key_get_Some [of j w]
      by (cases "key_get_by_id j w") (auto simp: was_notified_def)
  qed
  moreover have "reminders_ok ?w"
    unfolding reminders_ok_def using written keys_ok_recorded [OF ok] by blast
  moreover have "same_keys w ?w" by (simp add: same_keys_def record_ids)
  ultimately show thesis using run by (intro that)
qed


text \<open>
  One run, seen from the world \<open>w0\<close> it started in: what it has sent was not announced before and is
  recorded now, one reminder to a key.
\<close>

definition run_ok :: "world \<Rightarrow> reminder_run \<Rightarrow> world \<Rightarrow> bool" where
  "run_ok w0 run w \<longleftrightarrow> reminders_ok w \<and> same_keys w0 w
     \<and> (\<forall>j t. 0 \<le> t \<longrightarrow> was_notified w0 j t \<longrightarrow> was_notified w j t)
     \<and> (\<forall>r \<in> set (rr_sent run). 0 \<le> rd_threshold r \<and> \<not> was_notified w0 (rd_key_id r) (rd_threshold r)
           \<and> was_notified w (rd_key_id r) (rd_threshold r))
     \<and> distinct (map rd_key_id (rr_sent run)) \<and> set (rr_notified run) = rd_key_id ` set (rr_sent run)
     \<and> rr_count run = int (length (rr_sent run))"

lemma run_ok_start: "reminders_ok w \<Longrightarrow> run_ok w no_reminders w"
  by (simp add: run_ok_def same_keys_def no_reminders_def)

definition same_sent :: "reminder_run \<Rightarrow> reminder_run \<Rightarrow> bool" where
  "same_sent run run' \<longleftrightarrow> rr_sent run' = rr_sent run \<and> rr_notified run' = rr_notified run \<and> rr_count run' = rr_count run"

lemma run_ok_same: "run_ok w0 run w \<Longrightarrow> same_sent run run' \<Longrightarrow> run_ok w0 run' w"
  by (simp add: run_ok_def same_sent_def)

lemma run_owner_run:
  assumes "run_owner uid run w = (r, w')"
  obtains owner run' where "r = Inr (owner, run')" "w' = w" "same_sent run run'"
  using assms by (auto simp: run_owner_def op_simps same_sent_def split: option.splits)

lemma run_ok_marked:
  assumes "run_ok w0 run w" "mark_expiry_notified kid days w = (Inr (), w')" "reminders_ok w'" "same_keys w w'"
    "\<And>j t. 0 \<le> t \<Longrightarrow> was_notified w' j t \<longleftrightarrow> (j = kid \<and> t = days) \<or> was_notified w j t"
  shows "run_ok w0 run w'"
  using assms by (auto simp: run_ok_def same_keys_def)

lemma run_ok_sent:
  assumes "run_ok w0 run w" "was_notified w (rd_key_id r) (rd_threshold r)" "0 \<le> rd_threshold r"
    "\<not> was_notified w0 (rd_key_id r) (rd_threshold r)" "rd_key_id r \<notin> set (rr_notified run)"
  shows "run_ok w0 (run\<lparr>rr_sent := rr_sent run @ [r], rr_notified := rd_key_id r # rr_notified run, rr_count := rr_count run + 1\<rparr>) w"
  using assms by (auto simp: run_ok_def)

lemma remind_key_step:
  assumes "run_ok w0 run w" "key_get_by_id (vk_id k) w0 \<noteq> None" "0 \<le> days" "\<not> was_notified w0 (vk_id k) days"
    "remind_key e bt days k run w = (r, w')"
  shows "\<exists>run'. r = Inr run' \<and> run_ok w0 run' w'"
proof -
  have ok: "reminders_ok w" and there: "key_get_by_id (vk_id k) w \<noteq> None"
    using assms(1,2) same_keys_get [of w0 w] by (auto simp: run_ok_def)
  obtain w1 where w1: "mark_expiry_notified (vk_id k) days w = (Inr (), w1)" "reminders_ok w1" "same_keys w w1"
    "\<And>j t. 0 \<le> t \<Longrightarrow> was_notified w1 j t \<longleftrightarrow> (j = vk_id k \<and> t = days) \<or> was_notified w j t"
    using mark_step [OF ok there assms(3)] by blast
  have marked: "run_ok w0 q w1" if "run_ok w0 q w" for q
    using run_ok_marked [OF that w1] .
  show ?thesis
  proof (cases "vk_id k \<in> set (rr_notified run)")
    case True
    with assms(5) w1(1) marked [OF assms(1)] show ?thesis
      by (auto simp: remind_key_def op_bind_def op_return_def)
  next
    case False
    obtain owner run' where o: "run_owner (vk_owner_user_id k) run w = (Inr (owner, run'), w)" "same_sent run run'"
      using run_owner_run by (metis prod.exhaust_sel)
    have ok': "run_ok w0 run' w" using run_ok_same [OF assms(1) o(2)] .
    have fresh: "vk_id k \<notin> set (rr_notified run')" using False o(2) by (simp add: same_sent_def)
    have sent: "run_ok w0 (run'\<lparr>rr_sent := rr_sent run' @ [q], rr_notified := vk_id k # rr_notified run',
        rr_count := rr_count run' + 1\<rparr>) w1" if "q = reminder_for e bt days k owner" for q
      using run_ok_sent [OF marked [OF ok'], of q] that w1(4) [of days "vk_id k"] assms(3,4) fresh
      by (simp add: reminder_for_def Let_def)
    show ?thesis
      using assms(5) False sent [OF refl] ok' w1(1)
      by (auto simp: remind_key_def o(1) op_return_def op_try_def op_bind_def Let_def split: if_splits)
  qed
qed

lemma remind_keys_step:
  assumes "run_ok w0 run w" "\<And>k. k \<in> set ks \<Longrightarrow> key_get_by_id (vk_id k) w0 \<noteq> None \<and> \<not> was_notified w0 (vk_id k) days"
    "0 \<le> days" "remind_keys e bt days ks run w = (r, w')"
  shows "\<exists>run'. r = Inr run' \<and> run_ok w0 run' w'"
  using assms(1,2,4)
proof (induction ks arbitrary: run w)
  case Nil
  then show ?case by (auto simp: op_return_def)
next
  case (Cons k ks)
  obtain q w1 where q: "remind_key e bt days k run w = (q, w1)" by force
  obtain run' where run': "q = Inr run'" "run_ok w0 run' w1"
    using remind_key_step [OF Cons.prems(1) _ assms(3) _ q] Cons.prems(2) by auto
  with q Cons show ?case by (simp add: op_bind_def)
qed


lemma listed_fresh:
  assumes "keys_ok w" "k \<in> set (list_not_notified_expiring now deadline days limit w)"
  shows "key_get_by_id (vk_id k) w = Some k \<and> \<not> was_notified w (vk_id k) days"
proof -
  have "k \<in> set (db_vpn_keys w)" "expiring_unnotified now deadline days k"
    using assms(2) by (auto simp: list_not_notified_expiring_def dest: in_set_takeD)
  then show ?thesis
    using key_get_unique [OF assms(1)]
    by (auto simp: was_notified_def notified_for_def expiring_unnotified_def split: option.splits)
qed

lemma remind_thresholds_step:
  assumes "run_ok w0 run w" "list_all (\<lambda>d. expiry_add_days (ev_now e) d \<in> range Inr) ds"
    "remind_thresholds e bt ds run w = (r, w')"
  shows "\<exists>run'. r = Inr run' \<and> run_ok w0 run' w'"
  using assms
proof (induction ds arbitrary: run w)
  case Nil
  then show ?case by (auto simp: op_return_def)
next
  case (Cons d ds)
  then obtain deadline where deadline: "expiry_add_days (ev_now e) d = Inr deadline" by auto
  let ?ks = "list_not_notified_expiring (ev_now e) deadline (int d) 200 w"
  have ok: "keys_ok w" "same_keys w0 w" "\<And>j t. 0 \<le> t \<Longrightarrow> was_notified w0 j t \<Longrightarrow> was_notified w j t"
    using Cons.prems(1) by (auto simp: run_ok_def reminders_ok_def)
  have fresh: "key_get_by_id (vk_id k) w0 \<noteq> None \<and> \<not> was_notified w0 (vk_id k) (int d)" if "k \<in> set ?ks" for k
    using listed_fresh [OF ok(1) that] ok(3) [of "int d" "vk_id k"] same_keys_get [OF ok(2), of "vk_id k"] by auto
  obtain q w1 where q: "remind_keys e bt (int d) ?ks run w = (q, w1)" by force
  obtain run' where run': "q = Inr run'" "run_ok w0 run' w1"
    using remind_keys_step [OF Cons.prems(1) fresh _ q] by auto
  have "remind_thresholds e bt ds run' w1 = (r, w')"
    using Cons.prems(3) deadline q run'(1) by (simp add: op_bind_def op_get_def)
  with Cons.IH [OF run'(2)] Cons.prems(2) show ?case by simp
qed

text \<open>The thresholds of the settings, at a time stamp of the clock whose deadlines exist.\<close>

definition deadlines_exist :: "env \<Rightarrow> nat list \<Rightarrow> bool" where
  "deadlines_exist e ds \<longleftrightarrow> list_all (\<lambda>d. case expiry_add_days (ev_now e) d of Inr _ \<Rightarrow> True | Inl _ \<Rightarrow> False) ds"

lemma notify_step:
  assumes "reminders_ok w" "deadlines_exist e ds"
  shows "\<exists>run w'. notify_expiring_keys e bt ds w = (Inr run, w') \<and> run_ok w run w'"
proof -
  have "list_all (\<lambda>d. expiry_add_days (ev_now e) d \<in> range Inr) (sort ds)"
    unfolding list_all_iff
  proof
    fix d
    assume "d \<in> set (sort ds)"
    with assms(2) show "expiry_add_days (ev_now e) d \<in> range Inr"
      by (cases "expiry_add_days (ev_now e) d") (auto simp: deadlines_exist_def list_all_iff split: sum.splits)
  qed
  then show ?thesis
    using remind_thresholds_step [OF run_ok_start [OF assms(1)]] run_ok_start [OF assms(1)]
    by (cases "\<exists>b. bt = Some b \<and> ds \<noteq> []")
      (auto simp: notify_expiring_keys_def op_return_def split: option.splits, metis prod.exhaust)
qed

text \<open>The checker's runs one after the other, and everything they sent.\<close>

fun reminder_runs :: "(env \<times> reminder_bot option \<times> nat list) list \<Rightarrow> reminder list act" where
  "reminder_runs [] = op_return []"
| "reminder_runs ((e, bt, ds) # later) =
     op_bind (notify_expiring_keys e bt ds) (\<lambda>run.
     op_bind (reminder_runs later) (\<lambda>sent. op_return (rr_sent run @ sent)))"

definition reminder_slot :: "reminder \<Rightarrow> int \<times> int" where
  "reminder_slot r = (rd_key_id r, rd_threshold r)"

lemma reminder_runs_step:
  assumes "reminders_ok w" "list_all (\<lambda>(e, bt, ds). deadlines_exist e ds) runs"
  shows "\<exists>sent w'. reminder_runs runs w = (Inr sent, w') \<and> distinct (map reminder_slot sent)
    \<and> (\<forall>r \<in> set sent. 0 \<le> rd_threshold r \<and> \<not> was_notified w (rd_key_id r) (rd_threshold r))"
  using assms
proof (induction runs arbitrary: w)
  case Nil
  then show ?case by (simp add: op_return_def)
next
  case (Cons x later)
  obtain e bt ds where x: "x = (e, bt, ds)" by (cases x)
  obtain run w1 where run: "notify_expiring_keys e bt ds w = (Inr run, w1)" "run_ok w run w1"
    using notify_step [OF Cons.prems(1), where e = e and ds = ds and bt = bt] Cons.prems(2) x by force
  obtain sent w2 where sent: "reminder_runs later w1 = (Inr sent, w2)" "distinct (map reminder_slot sent)"
    "\<forall>r \<in> set sent. 0 \<le> rd_threshold r \<and> \<not> was_notified w1 (rd_key_id r) (rd_threshold r)"
    using Cons.IH [of w1] run(2) Cons.prems(2) by (auto simp: run_ok_def)
  have "distinct (map reminder_slot (rr_sent run))"
    using run(2) by (auto simp: run_ok_def reminder_slot_def distinct_map inj_on_def)
  moreover have "reminder_slot ` set (rr_sent run) \<inter> reminder_slot ` set sent = {}"
    using run(2) sent(3) by (fastforce simp: run_ok_def reminder_slot_def)
  moreover have "\<forall>r \<in> set (rr_sent run @ sent). 0 \<le> rd_threshold r \<and> \<not> was_notified w (rd_key_id r) (rd_threshold r)"
    using run(2) sent(3) by (fastforce simp: run_ok_def)
  ultimately show ?case
    using x run(1) sent(1,2) by (simp add: op_bind_def op_return_def)
qed

text \<open>
  C32: However often the expiry checker runs, at whatever times, with whatever thresholds, and
  whichever messages fail to be sent: every run returns, no key is ever reminded twice at the same
  threshold, no threshold recorded before is announced again, and a single run reminds a key once.
\<close>

theorem reminded_once:
  assumes "reminders_ok w" "list_all (\<lambda>(e, bt, ds). deadlines_exist e ds) runs"
  shows "\<exists>sent w'. reminder_runs runs w = (Inr sent, w') \<and> distinct (map reminder_slot sent)
    \<and> list_all (\<lambda>r. \<not> was_notified w (rd_key_id r) (rd_threshold r)) sent
    \<and> (length runs = 1 \<longrightarrow> distinct (map rd_key_id sent))"
proof -
  have "distinct (map rd_key_id sent)" if run: "reminder_runs runs w = (Inr sent, w')" and one: "length runs = 1" for sent w'
  proof -
    obtain e bt ds where runs: "runs = [(e, bt, ds)]"
      using one by (metis One_nat_def length_0_conv length_Suc_conv prod.exhaust)
    then obtain r w1 where "notify_expiring_keys e bt ds w = (Inr r, w1)" "run_ok w r w1"
      using notify_step [OF assms(1), where e = e and ds = ds and bt = bt] assms(2) by force
    with run runs show ?thesis by (simp add: op_bind_def op_return_def run_ok_def)
  qed
  with reminder_runs_step [OF assms] show ?thesis by (fastforce simp: list_all_iff)
qed


text \<open>The checker at 23:05 on a day in February, twice, with a bot that sends everything.\<close>

definition demo_reminder_bot :: reminder_bot where
  "demo_reminder_bot = \<lparr>bt_sends = (\<lambda>_ _. True), bt_locale = ''ru''\<rparr>"

definition demo_reminder_env :: env where
  "demo_reminder_env = \<lparr>ev_admin_ids = [], ev_now = isoformat demo_instant, ev_audit_ok = True, ev_instant = (\<lambda>_. None)\<rparr>"

lemma demo_deadlines: "deadlines_exist demo_reminder_env [7, 1]"
proof -
  have "fromisoformat (isoformat demo_instant) = Some demo_instant"
    by (rule fromisoformat_isoformat) (simp add: demo_instant_def instant_ok_def days_in_month_def)
  then have "expiry_add_days (ev_now demo_reminder_env) d
      = (case add_days d demo_instant of None \<Rightarrow> Inl (ValueError ''date value out of range'') | Some r \<Rightarrow> Inr (isoformat r))" for d
    by (simp add: expiry_add_days_def demo_reminder_env_def)
  moreover have "add_days 1 demo_instant \<noteq> None"
    by (simp add: add_days_def demo_instant_def next_day_def days_in_month_def leap_year_def)
  moreover have "add_days 7 demo_instant \<noteq> None" using demo_week_later by auto
  ultimately show ?thesis by (auto simp: deadlines_exist_def)
qed

definition demo_expiring :: world where
  "demo_expiring = demo_keys\<lparr>db_vpn_keys := [(demo_key 1 KeyActive)\<lparr>vk_expires_at := Some ''2026-02-25T20:00:00+00:00''\<rparr>]\<rparr>"

lemma demo_expiring_ok: "reminders_ok demo_expiring"
proof -
  have "digit_char 3 = CHR ''3''" unfolding digit_char_def by code_simp
  then have "dec 3 = ''3''" by (simp add: dec.simps)
  then have "thresholds_text (Some ''3'') [3]" by (simp add: thresholds_text_def int_str_def)
  moreover have "keys_ok demo_expiring"
    by (simp add: keys_ok_def keys_unique_def unique_column_def map_filter_simps demo_expiring_def demo_keys_def demo_key_def
        reserved_ip_def reserved_statuses_def key_seq_def)
  ultimately show ?thesis by (auto simp: reminders_ok_def demo_expiring_def demo_key_def)
qed

lemma reminded_once_witness:
  "\<exists>sent w'. reminder_runs [(demo_reminder_env, Some demo_reminder_bot, [7, 1]), (demo_reminder_env, Some demo_reminder_bot, [7, 1])] demo_expiring
      = (Inr sent, w') \<and> distinct (map reminder_slot sent)"
  using reminded_once [OF demo_expiring_ok, of "[(demo_reminder_env, Some demo_reminder_bot, [7, 1]), (demo_reminder_env, Some demo_reminder_bot, [7, 1])]"]
    demo_deadlines by auto

end
