(* ===== verification/Url_Text.thy ===== *)
theory Url_Text
  imports Py_Replace
begin

text \<open>
  \<open>urllib.parse\<close> and \<open>base64\<close> as the link builders use them: \<open>quote\<close> with its safe characters,
  \<open>urlencode\<close>, UTF-8 and \<open>b64encode\<close>, with the decoders that show nothing is lost and no
  value can end the component it stands in.
\<close>

section \<open>Encoding\<close>

text \<open>\<open>quote(s)\<close>, whose safe character is the slash, and \<open>quote_plus\<close>.\<close>

definition quote_path :: "string \<Rightarrow> string" where
  "quote_path s = concat (map (\<lambda>c. if c = CHR ''/'' then [c] else quote_char c) s)"

definition quote_plus :: "string \<Rightarrow> string" where
  "quote_plus s = concat (map (\<lambda>c. if c = CHR '' '' then ''+'' else quote_char c) s)"

definition urlencode :: "(string \<times> string) list \<Rightarrow> string" where
  "urlencode params = join ''&'' (map (\<lambda>(k, v). quote_plus k @ ''='' @ quote_plus v) params)"

definition utf8_char :: "char \<Rightarrow> nat list" where
  "utf8_char c = (let n = code_point c in if n < 128 then [n] else [192 + n div 64, 128 + n mod 64])"

definition utf8 :: "string \<Rightarrow> nat list" where
  "utf8 s = concat (map utf8_char s)"

definition b64_char :: "nat \<Rightarrow> char" where
  "b64_char n = (if n < 26 then char_of (65 + n) else if n < 52 then char_of (71 + n)
     else if n < 62 then char_of (n - 4) else if n = 62 then CHR ''+'' else CHR ''/'')"

fun b64encode :: "nat list \<Rightarrow> string" where
  "b64encode [] = []"
| "b64encode [a] = [b64_char (a div 4), b64_char (a mod 4 * 16), CHR ''='', CHR ''='']"
| "b64encode [a, b] = [b64_char (a div 4), b64_char (a mod 4 * 16 + b div 16), b64_char (b mod 16 * 4), CHR ''='']"
| "b64encode (a # b # c # rest) =
     [b64_char (a div 4), b64_char (a mod 4 * 16 + b div 16), b64_char (b mod 16 * 4 + c div 64), b64_char (c mod 64)]
     @ b64encode rest"

section \<open>Decoding\<close>

definition hex_digit :: "char \<Rightarrow> nat" where
  "hex_digit c = (if ascii_digit c then code_point c - 48 else code_point c - 55)"

fun percent_decode :: "string \<Rightarrow> nat list" where
  "percent_decode (c # h # l # rest) =
     (if c = CHR ''%'' then (16 * hex_digit h + hex_digit l) # percent_decode rest
      else utf8_char c @ percent_decode (h # l # rest))"
| "percent_decode (c # rest) = utf8_char c @ percent_decode rest"
| "percent_decode [] = []"

fun utf8_text :: "nat list \<Rightarrow> string" where
  "utf8_text (a # b # rest) = (if a < 128 then char_of a # utf8_text (b # rest)
     else char_of (64 * (a - 192) + (b - 128)) # utf8_text rest)"
| "utf8_text [a] = [char_of a]"
| "utf8_text [] = []"

definition unquote :: "string \<Rightarrow> string" where
  "unquote s = utf8_text (percent_decode s)"

definition unquote_plus :: "string \<Rightarrow> string" where
  "unquote_plus s = unquote (map (\<lambda>c. if c = CHR ''+'' then CHR '' '' else c) s)"

definition b64_value :: "char \<Rightarrow> nat" where
  "b64_value c = (let n = code_point c
     in if 65 \<le> n \<and> n \<le> 90 then n - 65 else if 97 \<le> n \<and> n \<le> 122 then n - 71
        else if ascii_digit c then n + 4 else if c = CHR ''+'' then 62 else 63)"

fun b64decode :: "string \<Rightarrow> nat list" where
  "b64decode (w # x # y # z # rest) =
     (let a = 4 * b64_value w + b64_value x div 16; b = b64_value x mod 16 * 16 + b64_value y div 4;
          c = b64_value y mod 4 * 64 + b64_value z
      in if y = CHR ''='' then [a] else if z = CHR ''='' then [a, b] else [a, b, c] @ b64decode rest)"
| "b64decode _ = []"

section \<open>Nothing is lost\<close>

lemma code_point_bound: "code_point c < 256"
  using of_char_of [where ?'a = nat] by (metis code_point_def nat_of_char_less_256)

lemma char_of_code_point [simp]: "char_of (code_point c) = c"
  by (simp add: code_point_def)

lemma hex_char_digit: "d < 16 \<Longrightarrow> hex_digit (hex_char d) = d"
  by (auto simp: hex_char_def hex_digit_def ascii_digit_def code_point_def)

lemma percent_byte_decode: "n < 256 \<Longrightarrow> percent_decode (percent_byte n @ rest) = n # percent_decode rest"
  by (simp add: percent_byte_def hex_char_digit)

lemma utf8_char_text: "utf8_text (utf8_char c @ rest) = c # utf8_text rest"
proof (cases "code_point c < 128")
  case True
  then show ?thesis by (cases rest) (simp_all add: utf8_char_def Let_def)
next
  case False
  have "64 * (code_point c div 64) + code_point c mod 64 = code_point c" by simp
  then show ?thesis
    using False by (simp add: utf8_char_def Let_def)
qed

lemma utf8_round_trip: "utf8_text (utf8 s) = s"
  by (induction s) (simp_all add: utf8_def utf8_char_text)

lemma percent_decode_plain: "c \<noteq> CHR ''%'' \<Longrightarrow> percent_decode (c # rest) = utf8_char c @ percent_decode rest"
  by (cases rest rule: list.exhaust; cases "tl rest") auto

lemma unreserved_not_percent: "unreserved c \<Longrightarrow> c \<noteq> CHR ''%''"
  by (auto simp: unreserved_def ascii_digit_def code_point_def)

lemma quote_char_decode: "percent_decode (quote_char c @ rest) = utf8_char c @ percent_decode rest"
proof (cases "unreserved c")
  case True
  then show ?thesis by (simp add: quote_char_def Let_def percent_decode_plain unreserved_not_percent)
next
  case False
  have "192 + code_point c div 64 < 256" "128 + code_point c mod 64 < 256" using code_point_bound [of c] by simp_all
  then show ?thesis
    using False by (simp add: quote_char_def utf8_char_def Let_def percent_byte_decode)
qed

lemma quoted_decode:
  assumes "\<And>c. c \<in> set s \<Longrightarrow> f c = [c] \<and> c \<noteq> CHR ''%'' \<or> f c = quote_char c"
  shows "percent_decode (concat (map f s) @ rest) = utf8 s @ percent_decode rest"
  using assms
proof (induction s)
  case (Cons c s)
  then have IH: "percent_decode (concat (map f s) @ rest) = utf8 s @ percent_decode rest" by simp
  from Cons.prems [of c] show ?case
    by (auto simp: percent_decode_plain quote_char_decode IH utf8_def)
qed (simp add: utf8_def)

lemma unquote_quote: "unquote (quote_text s) = s"
  using quoted_decode [of s quote_char "[]"] by (simp add: unquote_def quote_text_def utf8_round_trip)

lemma unquote_quote_path: "unquote (quote_path s) = s"
  using quoted_decode [of s "\<lambda>c. if c = CHR ''/'' then [c] else quote_char c" "[]"]
  by (auto simp: unquote_def quote_path_def utf8_round_trip)

section \<open>No value ends the component it stands in\<close>

definition plain_url_char :: "char \<Rightarrow> bool" where
  "plain_url_char c \<longleftrightarrow> unreserved c \<or> c = CHR ''%''"

lemma hex_char_plain: "d < 16 \<Longrightarrow> plain_url_char (hex_char d)"
  by (auto simp: hex_char_def plain_url_char_def unreserved_def ascii_digit_def code_point_def)

lemma quote_char_plain: "list_all plain_url_char (quote_char c)"
proof -
  have "list_all plain_url_char (percent_byte n)" if "n < 256" for n
    using that hex_char_plain by (simp add: percent_byte_def plain_url_char_def)
  moreover have "192 + code_point c div 64 < 256" "128 + code_point c mod 64 < 256" using code_point_bound [of c] by simp_all
  ultimately show ?thesis
    by (auto simp: quote_char_def Let_def plain_url_char_def)
qed

lemma quote_text_plain: "list_all plain_url_char (quote_text s)"
  using quote_char_plain by (induction s) (simp_all add: quote_text_def)

lemma quote_path_plain: "list_all (\<lambda>c. plain_url_char c \<or> c = CHR ''/'') (quote_path s)"
  using quote_char_plain by (induction s) (auto simp: quote_path_def list_all_iff)

lemma quote_plus_plain: "list_all (\<lambda>c. plain_url_char c \<or> c = CHR ''+'') (quote_plus s)"
  using quote_char_plain by (induction s) (auto simp: quote_plus_def list_all_iff)

lemma plain_not_special: "plain_url_char c \<Longrightarrow> c \<notin> {CHR ''#'', CHR ''&'', CHR ''='', CHR ''?'', CHR ''+'', CHR ''@'', CHR '' '', CHR ''/''}"
  by (auto simp: plain_url_char_def unreserved_def ascii_digit_def code_point_def)

lemma unquote_quote_plus: "unquote_plus (quote_plus s) = s"
proof -
  have plain: "map (\<lambda>c. if c = CHR ''+'' then CHR '' '' else c) (quote_char c) = quote_char c" for c
    using quote_char_plain [of c] plain_not_special by (intro map_idI) (auto simp: list_all_iff)
  have "map (\<lambda>c. if c = CHR ''+'' then CHR '' '' else c) (quote_plus s) = concat (map (\<lambda>c. if c = CHR '' '' then [c] else quote_char c) s)"
    by (induction s) (auto simp: quote_plus_def plain)
  then show ?thesis
    using quoted_decode [of s "\<lambda>c. if c = CHR '' '' then [c] else quote_char c" "[]"]
    by (auto simp: unquote_plus_def unquote_def utf8_round_trip)
qed

section \<open>Base 64\<close>

lemma b64_code: "n < 64 \<Longrightarrow> code_point (b64_char n) =
    (if n < 26 then 65 + n else if n < 52 then 71 + n else if n < 62 then n - 4 else if n = 62 then 43 else 47)"
  by (auto simp: b64_char_def code_point_def)

lemma b64_value_char: "n < 64 \<Longrightarrow> b64_value (b64_char n) = n"
  using b64_code [of n] by (auto simp: b64_value_def Let_def ascii_digit_def code_point_def b64_char_def)

lemma b64_char_not_pad: "n < 64 \<Longrightarrow> b64_char n \<noteq> CHR ''=''"
  using b64_code [of n] by (auto simp: code_point_def split: if_splits)

lemma b64_parts:
  fixes a b c :: nat
  assumes "a < 256" "b < 256" "c < 256"
  shows "a div 4 < 64" "a mod 4 * 16 < 64" "a mod 4 * 16 + b div 16 < 64" "b mod 16 * 4 < 64" "b mod 16 * 4 + a div 64 < 64"
    "4 * (a div 4) + (a mod 4 * 16 + b div 16) div 16 = a" "4 * (a div 4) + (a mod 4 * 16) div 16 = a"
    "(a mod 4 * 16 + b div 16) mod 16 * 16 + (b mod 16 * 4) div 4 = b"
    "(a mod 4 * 16 + b div 16) mod 16 * 16 + (b mod 16 * 4 + c div 64) div 4 = b"
proof -
  have q: "b div 16 < 16" "c div 64 < 4" "a div 64 < 4" using assms by simp_all
  show "a div 4 < 64" "a mod 4 * 16 < 64" "a mod 4 * 16 + b div 16 < 64" "b mod 16 * 4 < 64" "b mod 16 * 4 + a div 64 < 64"
    using q assms mod_less_divisor [of 4 a] mod_less_divisor [of 16 b] by linarith+
  have "(a mod 4 * 16 + b div 16) div 16 = a mod 4" "(a mod 4 * 16 + b div 16) mod 16 = b div 16"
    "(b mod 16 * 4 + c div 64) div 4 = b mod 16"
    using q by simp_all
  then show "4 * (a div 4) + (a mod 4 * 16 + b div 16) div 16 = a" "4 * (a div 4) + (a mod 4 * 16) div 16 = a"
    "(a mod 4 * 16 + b div 16) mod 16 * 16 + (b mod 16 * 4) div 4 = b"
    "(a mod 4 * 16 + b div 16) mod 16 * 16 + (b mod 16 * 4 + c div 64) div 4 = b"
    by simp_all
qed

lemma b64_last: "c < 256 \<Longrightarrow> b < 256 \<Longrightarrow> (b mod 16 * 4 + c div 64) mod 4 * 64 + c mod 64 = (c :: nat)"
proof -
  assume "c < 256" "b < 256"
  then have "(b mod 16 * 4 + c div 64) mod 4 = c div 64" by simp
  then show ?thesis by simp
qed

lemma b64_round_trip: "list_all (\<lambda>n. n < 256) bytes \<Longrightarrow> b64decode (b64encode bytes) = bytes"
proof (induction bytes rule: b64encode.induct)
  case (2 a)
  then show ?case using b64_parts [of a 0 0] by (simp add: b64_value_char Let_def)
next
  case (3 a b)
  then show ?case using b64_parts [of a b 0] by (simp add: b64_value_char b64_char_not_pad Let_def)
next
  case (4 a b c rest)
  then have "b < 256" by simp
  then have "b div 16 < 16" by linarith
  then have "b div 16 mod 16 = b div 16 \<and> b div 16 div 16 = 0" by (metis div_less mod_less)
  with 4 show ?case
    using b64_parts [of a b c] b64_parts(5) [of c b 0] b64_last [of c b]
    by (simp add: b64_value_char b64_char_not_pad Let_def)
qed simp

lemma utf8_bytes: "list_all (\<lambda>n. n < 256) (utf8 s)"
proof (induction s)
  case (Cons c s)
  have "192 + code_point c div 64 < 256" using code_point_bound [of c] by simp
  moreover have "code_point c mod 64 < 128" using mod_less_divisor [of 64 "code_point c"] by linarith
  ultimately show ?case using Cons by (simp add: utf8_def utf8_char_def Let_def code_point_bound)
qed (simp add: utf8_def)

lemma text_b64_round_trip: "utf8_text (b64decode (b64encode (utf8 s))) = s"
  by (simp add: b64_round_trip utf8_bytes utf8_round_trip)

end
