(* ===== verification/Client_Links.thy ===== *)
theory Client_Links
  imports Relays Awg_Creation Url_Text
begin

text \<open>
  The links a client connects with: \<open>utils/spider_x.py\<close>, the link builders of \<open>services/xray.py\<close> and
  the \<open>hysteria2://\<close> link of \<open>bot/formatters.py\<close>. SHA-256, read as a number, is an argument. A link is
  shown to take apart again into the values it was built from.
\<close>

record link_settings =
  ls_public_host :: string
  ls_public_port :: int
  ls_reality_public_key :: string
  ls_fingerprint :: string
  ls_sni :: string
  ls_xhttp_path :: string
  ls_xhttp_mode :: string
  ls_flow :: string
  ls_spider_x_pool :: "string list"
  ls_rotation_hours :: int
  ls_server_flag :: string
  ls_hy2_host :: string
  ls_hy2_port :: int
  ls_hy2_sni :: string
  ls_hy2_insecure :: bool

section \<open>spiderX\<close>

definition parse_spider_x_pool :: "string option \<Rightarrow> string list" where
  "parse_spider_x_pool raw = (case raw of None \<Rightarrow> []
     | Some r \<Rightarrow> if r = [] then [] else filter (\<lambda>p. p \<noteq> []) (map strip (split_on (CHR '','') r)))"

definition pick_spider_x :: "(string \<Rightarrow> nat) \<Rightarrow> string \<Rightarrow> string list \<Rightarrow> string option" where
  "pick_spider_x sha uuid pool = (if pool = [] then None else Some (pool ! (sha uuid mod length pool)))"

text \<open>\<open>dict.fromkeys\<close>: the first of equal entries stays.\<close>

definition first_occurrences :: "'a list \<Rightarrow> 'a list" where
  "first_occurrences xs = rev (remdups (rev xs))"

definition rotation_order :: "(string \<Rightarrow> nat) \<Rightarrow> string \<Rightarrow> string list \<Rightarrow> string list" where
  "rotation_order sha uuid pool = sort_key (\<lambda>p. sha (uuid @ ''|'' @ p)) pool"

definition rotating_spider_x :: "(string \<Rightarrow> nat) \<Rightarrow> string \<Rightarrow> string list \<Rightarrow> int \<Rightarrow> int \<Rightarrow> service_error + string" where
  "rotating_spider_x sha uuid pool period now =
     (let entries = first_occurrences pool; n = length entries
      in if entries = [] then Inl (ValueError ''rotating_spider_x needs a non-empty pool'')
         else if period \<le> 0 then Inl (ValueError ''rotating_spider_x needs a positive period'')
         else if n = 1 then Inr (hd entries)
         else let phase = int (sha (uuid @ ''|phase'')) mod period; epoch = (now + phase) div period;
                  start = int (sha (uuid @ ''|start'')) mod int n
              in Inr (rotation_order sha uuid entries ! nat ((start + epoch) mod int n)))"

text \<open>The value a key carries, and the one its link shows.\<close>

definition key_spider_x :: "library \<Rightarrow> vpn_key \<Rightarrow> string option" where
  "key_spider_x lib k =
     (let v = json_or (json_text (vk_spider_x k)) (json_get (vk_payload k) ''spider_x'');
          t = (if json_truthy v then strip (py_str lib v) else [])
      in if t = [] then None else Some t)"

definition rotation_seconds :: "link_settings \<Rightarrow> int" where
  "rotation_seconds st = (if ls_rotation_hours st \<le> 0 \<or> ls_spider_x_pool st = [] then 0 else ls_rotation_hours st * 3600)"

definition key_uuid :: "library \<Rightarrow> vpn_key \<Rightarrow> string" where
  "key_uuid lib k = text_or_empty lib (json_or (json_get (vk_payload k) ''uuid'') (json_text (vk_uuid k)))"

definition link_spider_x ::
  "library \<Rightarrow> (string \<Rightarrow> nat) \<Rightarrow> link_settings \<Rightarrow> vpn_key \<Rightarrow> bool \<Rightarrow> int \<Rightarrow> service_error + string option" where
  "link_spider_x lib sha st k bundle_member now =
     (if \<not> bundle_member \<or> rotation_seconds st = 0 \<or> key_uuid lib k = [] then Inr (key_spider_x lib k)
      else sum_bind (rotating_spider_x sha (key_uuid lib k) (ls_spider_x_pool st) (rotation_seconds st) now) (\<lambda>v. Inr (Some v)))"

section \<open>The vless link\<close>

definition quoted :: "string \<Rightarrow> string" where
  "quoted s = CHR 0x22 # s @ [CHR 0x22]"

text \<open>\<open>json.dumps\<close> of an object, from the texts of its values.\<close>

definition dumped_object :: "(string \<times> string) list \<Rightarrow> string" where
  "dumped_object kvs = ''{'' @ join '','' (map (\<lambda>(k, v). quoted k @ '':'' @ v) kvs) @ ''}''"

definition xhttp_profile_mode :: "(string, string option) dict" where
  "xhttp_profile_mode = [(''base'', None), (''multi'', Some ''packet-up''), (''antisib'', Some ''stream-one'')]"

definition xhttp_profile_extra :: "(string, string option) dict" where
  "xhttp_profile_extra = [(''base'', None),
     (''multi'', Some (dumped_object [(''scMaxEachPostBytes'', quoted ''800000-1000000''), (''scMinPostsIntervalMs'', quoted ''30-50''),
        (''xmux'', dumped_object [(''maxConnections'', ''2''), (''cMaxReuseTimes'', quoted ''64-128''), (''hMaxReusableSecs'', quoted ''180-300'')])])),
     (''antisib'', Some (dumped_object [(''xmux'', dumped_object [(''maxConnections'', ''1''), (''cMaxReuseTimes'', quoted ''64-128'')])]))]"

definition format_host :: "(string \<Rightarrow> bool) \<Rightarrow> string \<Rightarrow> string" where
  "format_host v6 host =
     (if startswith ''['' host \<and> host \<noteq> [] \<and> last host = CHR '']'' then host
      else case ip_address v6 host of Some A6 \<Rightarrow> ''['' @ host @ '']'' | _ \<Rightarrow> host)"

definition spx_suffix :: "string option \<Rightarrow> string" where
  "spx_suffix spider_x = (case spider_x of None \<Rightarrow> [] | Some s \<Rightarrow> if s = [] then [] else ''&spx='' @ quote_text s)"

text \<open>The parameters before they are encoded; \<open>transport\<close> and \<open>profile\<close> as they are normalised.\<close>

record link_values =
  lv_uuid :: string
  lv_short_id :: string
  lv_name :: string
  lv_fingerprint :: "string option"
  lv_transport :: string
  lv_profile :: string
  lv_spider_x :: "string option"

definition or_else :: "string option \<Rightarrow> string \<Rightarrow> string" where
  "or_else s d = (case s of None \<Rightarrow> d | Some v \<Rightarrow> if v = [] then d else v)"

definition vless_params :: "library \<Rightarrow> link_settings \<Rightarrow> link_values \<Rightarrow> (string \<times> string) list" where
  "vless_params lib st v =
     (let reality = [(''security'', ''reality''), (''encryption'', ''none''), (''pbk'', ls_reality_public_key st),
            (''fp'', or_else (lv_fingerprint v) (ls_fingerprint st)), (''sni'', ls_sni st), (''sid'', lv_short_id v)]
      in if normalize_transport lib (JStr (lv_transport v)) = ''http''
         then let profile = normalize_profile lib (JStr (lv_profile v));
                  mode = (case map_of xhttp_profile_mode profile of Some (Some m) \<Rightarrow> m | _ \<Rightarrow> ls_xhttp_mode st);
                  extra = (case map_of xhttp_profile_extra profile of Some (Some x) \<Rightarrow> [(''extra'', x)] | _ \<Rightarrow> [])
              in (''type'', ''xhttp'') # reality @ [(''path'', ls_xhttp_path st), (''mode'', mode)] @ extra
         else (''type'', ''tcp'') # reality @ (if ls_flow st = [] then [] else [(''flow'', ls_flow st)]))"

definition vless_text :: "library \<Rightarrow> link_settings \<Rightarrow> link_values \<Rightarrow> string \<Rightarrow> string" where
  "vless_text lib st v host = ''vless://'' @ lv_uuid v @ ''@'' @ host @ '':'' @ int_str (ls_public_port st) @ ''?''
     @ urlencode (vless_params lib st v) @ spx_suffix (lv_spider_x v) @ ''#'' @ quote_path (if lv_name v = [] then ''xray'' else lv_name v)"

definition build_vless_link ::
  "library \<Rightarrow> (string \<Rightarrow> bool) \<Rightarrow> link_settings \<Rightarrow> relay_snapshot \<Rightarrow> link_values \<Rightarrow> string option \<Rightarrow> service_error + string" where
  "build_vless_link lib v6 st rs v relay =
     sum_bind (relay_link_host rs relay (ls_public_host st)) (\<lambda>host. Inr (vless_text lib st v (format_host v6 host)))"

definition key_link_values :: "library \<Rightarrow> vpn_key \<Rightarrow> string \<Rightarrow> string option \<Rightarrow> link_values" where
  "key_link_values lib k name spider_x =
     \<lparr>lv_uuid = key_uuid lib k,
      lv_short_id = text_or_empty lib (json_or (json_get (vk_payload k) ''short_id'') (json_get (vk_public_payload k) ''short_id'')),
      lv_name = name,
      lv_fingerprint = (let f = json_get (vk_payload k) ''fingerprint'' in if json_truthy f then Some (py_str lib f) else None),
      lv_transport = key_transport lib k, lv_profile = key_profile lib k, lv_spider_x = spider_x\<rparr>"

text \<open>\<open>connection_link\<close>: the one link of a key, as the key screen and the QR code show it.\<close>

definition connection_link ::
  "library \<Rightarrow> (string \<Rightarrow> nat) \<Rightarrow> (string \<Rightarrow> bool) \<Rightarrow> link_settings \<Rightarrow> relay_snapshot \<Rightarrow> vpn_key \<Rightarrow> bool \<Rightarrow> int \<Rightarrow> service_error + string" where
  "connection_link lib sha v6 st rs k bundle_member now =
     sum_bind (key_display_name lib k SingleStyle (ls_server_flag st) rs) (\<lambda>name.
     sum_bind (link_spider_x lib sha st k bundle_member now) (\<lambda>spx.
     build_vless_link lib v6 st rs (key_link_values lib k name spx) (vk_relay k)))"

section \<open>The hysteria2 link\<close>

definition format_hysteria2_link :: "string \<Rightarrow> string \<Rightarrow> string \<Rightarrow> int \<Rightarrow> string \<Rightarrow> bool \<Rightarrow> string" where
  "format_hysteria2_link label secret host port sni insecure =
     ''hysteria2://'' @ quote_text secret @ ''@'' @ host @ '':'' @ int_str port @ ''/?sni='' @ quote_text sni
     @ (if insecure then ''&insecure=1'' else []) @ ''#'' @ quote_text label"

definition hysteria2_key_link ::
  "library \<Rightarrow> link_settings \<Rightarrow> relay_snapshot \<Rightarrow> name_style \<Rightarrow> vpn_key \<Rightarrow> service_error + string" where
  "hysteria2_key_link lib st rs style k =
     sum_bind (key_display_name lib k style (ls_server_flag st) rs) (\<lambda>name.
     sum_bind (relay_link_host rs (vk_relay k) (ls_hy2_host st)) (\<lambda>host.
     Inr (format_hysteria2_link name (text_or_empty lib (json_get (vk_payload k) ''secret'')) host (ls_hy2_port st)
       (ls_hy2_sni st) (ls_hy2_insecure st))))"


section \<open>The rotation walks the pool\<close>

lemma first_occurrences_set: "set (first_occurrences xs) = set xs" "distinct (first_occurrences xs)"
  "length (first_occurrences xs) = card (set xs)"
  by (simp_all add: first_occurrences_def length_remdups_card_conv)

text \<open>The values of \<open>n\<close> consecutive positions modulo \<open>n\<close> are all the positions.\<close>

lemma shifted_positions:
  assumes "0 < n"
  shows "distinct (map (\<lambda>k. nat ((c + int k) mod int n)) [0..<n]) \<and> set (map (\<lambda>k. nat ((c + int k) mod int n)) [0..<n]) = {0..<n}"
proof -
  let ?f = "\<lambda>k. nat ((c + int k) mod int n)"
  have inj: "inj_on ?f {0..<n}"
  proof (rule inj_onI)
    fix i j
    assume ij: "i \<in> {0..<n}" "j \<in> {0..<n}" "?f i = ?f j"
    then have "(c + int i) mod int n = (c + int j) mod int n" using assms by (simp add: eq_nat_nat_iff)
    then have "int n dvd (c + int i) - (c + int j)" by (rule mod_eq_dvd_iff [THEN iffD1])
    then have dvd: "int n dvd int i - int j" by simp
    have small: "\<bar>int i - int j\<bar> < int n" using ij(1,2) by auto
    show "i = j"
    proof (rule ccontr)
      assume "i \<noteq> j"
      then have "int i - int j \<noteq> 0" by simp
      from dvd_imp_le_int [OF this dvd] small show False by simp
    qed
  qed
  have "?f k < n" for k
    using nat_less_iff [OF pos_mod_sign [of "int n" "c + int k"], of n] pos_mod_bound [of "int n" "c + int k"] assms by simp
  then have "?f ` {0..<n} \<subseteq> {0..<n}" by auto
  then have "?f ` {0..<n} = {0..<n}" using inj by (intro endo_inj_surj) simp_all
  with inj show ?thesis by (simp add: distinct_map)
qed

lemma rotation_value:
  assumes "0 < period" "1 < card (set pool)"
  shows "\<exists>c. \<forall>k. rotating_spider_x sha uuid pool period (now + int k * period)
    = Inr (rotation_order sha uuid (first_occurrences pool) ! nat ((c + int k) mod int (card (set pool))))"
proof -
  let ?phase = "int (sha (uuid @ ''|phase'')) mod period" and ?n = "card (set pool)"
  let ?start = "int (sha (uuid @ ''|start'')) mod int ?n"
  have n: "length (first_occurrences pool) = ?n" "first_occurrences pool \<noteq> []"
    using assms(2) first_occurrences_set(3) [of pool] by auto
  have "(now + int k * period + ?phase) div period = (now + ?phase) div period + int k" for k
  proof -
    have "(now + ?phase + int k * period) div period = int k + (now + ?phase) div period"
      by (rule div_mult_self1) (use assms(1) in simp)
    then show ?thesis by (simp only: add_ac)
  qed
  then have "rotating_spider_x sha uuid pool period (now + int k * period)
    = Inr (rotation_order sha uuid (first_occurrences pool) ! nat ((?start + (now + ?phase) div period + int k) mod int ?n))" for k
    using assms n by (simp add: rotating_spider_x_def Let_def add.assoc)
  then show ?thesis by blast
qed

text \<open>
  C39: over as many consecutive periods as the pool has entries, the rotating spiderX of a key takes every
  entry of the pool exactly once, whatever the hash is and whenever the periods begin.
\<close>

theorem rotation_walks_pool:
  assumes "0 < period" "pool \<noteq> []"
  shows "\<exists>vs. map (\<lambda>k. rotating_spider_x sha uuid pool period (now + int k * period)) [0..<card (set pool)] = map Inr vs
    \<and> distinct vs \<and> set vs = set pool"
proof (cases "1 < card (set pool)")
  case True
  let ?n = "card (set pool)" and ?order = "rotation_order sha uuid (first_occurrences pool)"
  obtain c where c: "\<forall>k. rotating_spider_x sha uuid pool period (now + int k * period) = Inr (?order ! nat ((c + int k) mod int ?n))"
    using rotation_value [OF assms(1) True] by blast
  define ps where "ps = map (\<lambda>k. nat ((c + int k) mod int ?n)) [0..<?n]"
  have ps: "distinct ps" "set ps = {0..<?n}" using shifted_positions [of ?n c] True by (simp_all add: ps_def)
  have order: "distinct ?order" "set ?order = set pool" "length ?order = ?n"
    using first_occurrences_set by (simp_all add: rotation_order_def)
  have "distinct (map ((!) ?order) ps)"
    using ps order by (auto simp: distinct_map inj_on_def nth_eq_iff_index_eq)
  moreover have "set (map ((!) ?order) ps) = set pool"
    using nth_image [of ?n ?order] ps(2) order by simp
  moreover have "map (\<lambda>k. rotating_spider_x sha uuid pool period (now + int k * period)) [0..<?n] = map Inr (map ((!) ?order) ps)"
    using c by (simp add: ps_def comp_def)
  ultimately show ?thesis by blast
next
  case False
  then have one: "card (set pool) = 1" using assms(2) by (metis One_nat_def card_0_eq finite_set less_one linorder_neqE_nat set_empty2)
  then obtain p where p: "set pool = {p}" by (auto simp: card_1_singleton_iff)
  have "first_occurrences pool = [p]"
    using first_occurrences_set [of pool] one p by (auto simp: length_Suc_conv)
  then have "rotating_spider_x sha uuid pool period t = Inr p" for t
    using assms(1) by (simp add: rotating_spider_x_def)
  with one p show ?thesis by (intro exI [of _ "[p]"]) simp
qed

lemma rotation_walks_pool_witness:
  "\<exists>vs. map (\<lambda>k. rotating_spider_x length ''u'' [''/a'', ''/b'', ''/a''] 3600 (7 + int k * 3600)) [0..<card (set [''/a'', ''/b'', ''/a''])] = map Inr vs
    \<and> distinct vs \<and> set vs = set [''/a'', ''/b'', ''/a'']"
  by (rule rotation_walks_pool) simp_all


section \<open>Links take apart into their values\<close>

definition url_fragment :: "string \<Rightarrow> string" where
  "url_fragment s = unquote (tl (dropWhile (\<lambda>c. c \<noteq> CHR ''#'') s))"

definition url_query :: "string \<Rightarrow> string" where
  "url_query s = takeWhile (\<lambda>c. c \<noteq> CHR ''#'') (tl (dropWhile (\<lambda>c. c \<noteq> CHR ''?'') s))"

definition url_param :: "string \<Rightarrow> string \<times> string" where
  "url_param p = (unquote_plus (takeWhile (\<lambda>c. c \<noteq> CHR ''='') p), unquote_plus (tl (dropWhile (\<lambda>c. c \<noteq> CHR ''='') p)))"

definition url_params :: "string \<Rightarrow> (string \<times> string) list" where
  "url_params s = map url_param (split_on (CHR ''&'') (url_query s))"

definition url_user :: "string \<Rightarrow> string" where
  "url_user s = unquote (takeWhile (\<lambda>c. c \<noteq> CHR ''@'') s)"

definition encoded_param :: "string \<times> string \<Rightarrow> string" where
  "encoded_param = (\<lambda>(k, v). quote_plus k @ ''='' @ quote_plus v)"

definition without :: "char list \<Rightarrow> string \<Rightarrow> bool" where
  "without cs s \<longleftrightarrow> set s \<inter> set cs = {}"

lemma quoted_without:
  "without ''#&=?@'' (quote_plus s)" "without ''#&=?+@/'' (quote_text s)" "without ''#&=?@'' (quote_path s)"
proof -
  have "c \<notin> set ''#&=?@''" if "c \<in> set (quote_plus s)" for c
    using that quote_plus_plain [of s] plain_not_special [of c] by (auto simp: list_all_iff)
  moreover have "c \<notin> set ''#&=?+@/''" if "c \<in> set (quote_text s)" for c
    using that quote_text_plain [of s] plain_not_special [of c] by (auto simp: list_all_iff)
  moreover have "c \<notin> set ''#&=?@''" if "c \<in> set (quote_path s)" for c
    using that quote_path_plain [of s] plain_not_special [of c] by (auto simp: list_all_iff)
  ultimately show "without ''#&=?@'' (quote_plus s)" "without ''#&=?+@/'' (quote_text s)" "without ''#&=?@'' (quote_path s)"
    by (auto simp: without_def)
qed

lemma cut_at:
  assumes "c \<notin> set xs"
  shows "takeWhile (\<lambda>d. d \<noteq> c) (xs @ c # ys) = xs" "dropWhile (\<lambda>d. d \<noteq> c) (xs @ c # ys) = c # ys" "takeWhile (\<lambda>d. d \<noteq> c) xs = xs"
proof -
  have free: "\<forall>x \<in> set xs. x \<noteq> c" using assms by auto
  then show "takeWhile (\<lambda>d. d \<noteq> c) (xs @ c # ys) = xs" "dropWhile (\<lambda>d. d \<noteq> c) (xs @ c # ys) = c # ys"
    by (simp_all add: takeWhile_append2 dropWhile_append2)
  from free show "takeWhile (\<lambda>d. d \<noteq> c) xs = xs" by (simp add: takeWhile_eq_all_conv)
qed

lemma unquote_plus_text: "unquote_plus (quote_text s) = s"
proof -
  have "map (\<lambda>c. if c = CHR ''+'' then CHR '' '' else c) (quote_text s) = quote_text s"
    using quoted_without(2) [of s] by (intro map_idI) (auto simp: without_def)
  then show ?thesis using unquote_quote [of s] by (simp add: unquote_plus_def)
qed

lemma encoded_param_read: "url_param (encoded_param kv) = kv" "without ''#&?'' (encoded_param kv)"
proof -
  obtain k v where kv: "kv = (k, v)" by force
  have "CHR ''='' \<notin> set (quote_plus k)" using quoted_without(1) [of k] by (auto simp: without_def)
  from cut_at [OF this] show "url_param (encoded_param kv) = kv"
    by (simp add: kv url_param_def encoded_param_def unquote_quote_plus)
  show "without ''#&?'' (encoded_param kv)"
    using quoted_without(1) by (auto simp: kv encoded_param_def without_def)
qed

lemma join_snoc: "xs \<noteq> [] \<Longrightarrow> join sep (xs @ [y]) = join sep xs @ sep @ y"
  by (induction sep xs rule: join.induct) auto

lemma set_join_sub: "set (join sep ws) \<subseteq> set sep \<union> \<Union> (set ` set ws)"
  by (induction sep ws rule: join.induct) auto

text \<open>The query as its parameters, the spiderX the last of them.\<close>

definition spx_params :: "string option \<Rightarrow> (string \<times> string) list" where
  "spx_params spider_x = (case spider_x of None \<Rightarrow> [] | Some s \<Rightarrow> if s = [] then [] else [(''spx'', s)])"

definition spx_items :: "string option \<Rightarrow> string list" where
  "spx_items spider_x = map (\<lambda>(k, v). k @ ''='' @ quote_text v) (spx_params spider_x)"

lemma query_items:
  "ps \<noteq> [] \<Longrightarrow> urlencode ps @ spx_suffix spider_x = join ''&'' (map encoded_param ps @ spx_items spider_x)"
  by (auto simp: urlencode_def encoded_param_def spx_suffix_def spx_items_def spx_params_def join_snoc split: option.split)

lemma spx_item_read: "map url_param (spx_items spider_x) = spx_params spider_x" "list_all (without ''#&?'') (spx_items spider_x)"
proof -
  have quiet: "unquote_plus ''spx'' = ''spx''" using unquote_quote_plus [of "''spx''"] by code_simp
  show "map url_param (spx_items spider_x) = spx_params spider_x"
    using cut_at [of "CHR ''=''" "''spx''"]
    by (auto simp: spx_items_def spx_params_def url_param_def unquote_plus_text quiet split: option.split)
  show "list_all (without ''#&?'') (spx_items spider_x)"
    using quoted_without(2) by (auto simp: spx_items_def spx_params_def without_def split: option.split)
qed

lemma vless_params_nonempty [simp]: "vless_params lib st v \<noteq> []"
  by (simp add: vless_params_def Let_def)

lemma query_read:
  assumes "ps \<noteq> []" "without ''?#'' pre"
  shows "url_query (pre @ ''?'' @ (urlencode ps @ spx_suffix x) @ ''#'' @ post) = join ''&'' (map encoded_param ps @ spx_items x)"
    "url_params (pre @ ''?'' @ (urlencode ps @ spx_suffix x) @ ''#'' @ post) = ps @ spx_params x"
    "CHR ''#'' \<notin> set (urlencode ps @ spx_suffix x)"
proof -
  let ?items = "map encoded_param ps @ spx_items x"
  have items: "list_all (without ''#&?'') ?items"
    using encoded_param_read(2) spx_item_read(2) by (auto simp: list_all_iff)
  have free: "CHR ''#'' \<notin> set (join ''&'' ?items)"
    using set_join_sub [of "''&''" ?items] items by (fastforce simp: list_all_iff without_def)
  then show "CHR ''#'' \<notin> set (urlencode ps @ spx_suffix x)" unfolding query_items [OF assms(1)] .
  have "CHR ''?'' \<notin> set pre" using assms(2) by (auto simp: without_def)
  from cut_at [OF this] cut_at [OF free]
  show query: "url_query (pre @ ''?'' @ (urlencode ps @ spx_suffix x) @ ''#'' @ post) = join ''&'' ?items"
    by (simp add: url_query_def query_items [OF assms(1)])
  have "split_on (CHR ''&'') (join ''&'' ?items) = ?items"
    using assms(1) items by (intro split_join) (auto simp: list_all_iff without_def)
  then show "url_params (pre @ ''?'' @ (urlencode ps @ spx_suffix x) @ ''#'' @ post) = ps @ spx_params x"
    unfolding url_params_def query by (simp add: encoded_param_read(1) spx_item_read(1) comp_def)
qed


lemma vless_text_shape: "vless_text lib st v host =
    (''vless://'' @ lv_uuid v @ ''@'' @ host @ '':'' @ int_str (ls_public_port st)) @ ''?''
      @ (urlencode (vless_params lib st v) @ spx_suffix (lv_spider_x v)) @ ''#'' @ quote_path (if lv_name v = [] then ''xray'' else lv_name v)"
  by (simp add: vless_text_def)

lemma int_str_without: "without ''?#'' (int_str i)"
proof -
  have "\<not> ascii_digit (CHR ''?'')" "\<not> ascii_digit (CHR ''#'')" by (simp_all add: ascii_digit_def code_point_def)
  then show ?thesis using dec_digits by (fastforce simp: int_str_def without_def list_all_iff)
qed


text \<open>The same of a hysteria2 link: its secret and its name.\<close>

lemma hysteria2_link_read:
  assumes "without ''#'' host"
  shows "url_fragment (format_hysteria2_link label secret host port sni insecure) = label
    \<and> url_user (drop 12 (format_hysteria2_link label secret host port sni insecure)) = secret"
proof -
  let ?pre = "''hysteria2://'' @ quote_text secret @ ''@'' @ host @ '':'' @ int_str port @ ''/?sni='' @ quote_text sni
     @ (if insecure then ''&insecure=1'' else [])"
  have "CHR ''#'' \<notin> set ?pre"
    using assms quoted_without(2) int_str_without [of port] by (auto simp: without_def)
  from cut_at(2) [OF this, of "quote_text label"]
  have "url_fragment (format_hysteria2_link label secret host port sni insecure) = label"
    by (simp add: url_fragment_def format_hysteria2_link_def unquote_quote)
  moreover have "CHR ''@'' \<notin> set (quote_text secret)" using quoted_without(2) [of secret] by (auto simp: without_def)
  from cut_at(1) [OF this] have "url_user (drop 12 (format_hysteria2_link label secret host port sni insecure)) = secret"
    by (simp add: url_user_def format_hysteria2_link_def unquote_quote)
  ultimately show ?thesis by blast
qed

definition demo_links :: link_settings where
  "demo_links = \<lparr>ls_public_host = ''vpn.example'', ls_public_port = 443, ls_reality_public_key = ''PK'', ls_fingerprint = ''chrome'',
     ls_sni = ''sni.example'', ls_xhttp_path = ''/x'', ls_xhttp_mode = ''auto'', ls_flow = ''vision'', ls_spider_x_pool = [],
     ls_rotation_hours = 0, ls_server_flag = [], ls_hy2_host = ''vpn.example'', ls_hy2_port = 443, ls_hy2_sni = ''sni.example'',
     ls_hy2_insecure = False\<rparr>"

definition demo_values :: link_values where
  "demo_values = \<lparr>lv_uuid = ''u-1'', lv_short_id = ''ab'', lv_name = ''a#b&c?'', lv_fingerprint = None, lv_transport = ''tcp'',
     lv_profile = ''base'', lv_spider_x = Some ''/p&x=1''\<rparr>"


end
