(* ===== verification/Bundles_Repo.thy ===== *)
theory Bundles_Repo
  imports Relays Vpn_Keys
begin

text \<open>
  What an all-in-one bundle is made of (the seam \<open>bundle_composition\<close> of \<open>services/key_bundles.py\<close> and the
  order of a subscription), and \<open>repositories/key_bundles.py\<close>. The secret tokens are drawn by the
  operating system: they are arguments.
\<close>

section \<open>The composition\<close>

record bundle_member =
  bm_key_type :: vpn_key_type
  bm_transport :: string
  bm_xhttp_profile :: string
  bm_relay :: "string option"

definition plain_member :: "vpn_key_type \<Rightarrow> string \<Rightarrow> string \<Rightarrow> bundle_member" where
  "plain_member t transport profile = \<lparr>bm_key_type = t, bm_transport = transport, bm_xhttp_profile = profile, bm_relay = None\<rparr>"

definition direct_members :: "key_bundle_kind \<Rightarrow> bundle_member list" where
  "direct_members kind =
     (let tcp = plain_member XRAY ''tcp'' ''base''; hy2 = plain_member HYSTERIA2 ''tcp'' ''base''
      in case kind of Basic \<Rightarrow> [tcp, hy2] | Extended \<Rightarrow> [tcp, hy2] @ map (plain_member XRAY ''http'') xhttp_profiles)"

definition bundle_composition :: "key_bundle_kind \<Rightarrow> string list \<Rightarrow> bundle_member list" where
  "bundle_composition kind relays = direct_members kind
     @ concat (map (\<lambda>r. map (\<lambda>m. m\<lparr>bm_relay := Some r\<rparr>) (direct_members kind)) relays)"

datatype protocol = ProtoXray | ProtoXhttp | ProtoAwg | ProtoHysteria2 | ProtoSocks5 | ProtoMtproto

definition member_protocol :: "bundle_member \<Rightarrow> service_error + protocol" where
  "member_protocol m = (case bm_key_type m of
       XRAY \<Rightarrow> Inr (if bm_transport m = ''http'' then ProtoXhttp else ProtoXray)
     | HYSTERIA2 \<Rightarrow> Inr ProtoHysteria2 | AWG \<Rightarrow> Inl (ValueError ''not a bundle member type''))"

definition available_composition :: "key_bundle_kind \<Rightarrow> protocol list \<Rightarrow> bundle_member list" where
  "available_composition kind available =
     filter (\<lambda>m. case member_protocol m of Inr p \<Rightarrow> p \<in> set available | Inl _ \<Rightarrow> False) (bundle_composition kind [])"

definition member_name :: "bundle_member \<Rightarrow> string" where
  "member_name m = (if bm_key_type m = XRAY
     then if bm_transport m = ''http'' then ''xray_http_'' @ bm_xhttp_profile m else ''xray_tcp''
     else vpn_key_type_value (bm_key_type m))"

definition with_relay :: "string \<Rightarrow> string option \<Rightarrow> string" where
  "with_relay name relay = (case relay of None \<Rightarrow> name | Some r \<Rightarrow> name @ ''_relay_'' @ r)"

definition member_audit_name :: "bundle_member \<Rightarrow> string" where
  "member_audit_name m = with_relay (member_name m) (bm_relay m)"

definition subscription_member_order :: "string list" where
  "subscription_member_order = map member_name (bundle_composition Extended [])"

fun index_from :: "nat \<Rightarrow> 'a \<Rightarrow> 'a list \<Rightarrow> nat" where
  "index_from n x [] = n"
| "index_from n x (y # ys) = (if x = y then n else index_from (Suc n) x ys)"

text \<open>The position in the order, its length for an unknown member.\<close>

definition subscription_sort_key :: "library \<Rightarrow> relay_snapshot \<Rightarrow> vpn_key \<Rightarrow> nat \<times> nat \<times> int" where
  "subscription_sort_key lib rs k =
     (group_of rs (vk_relay k), index_from 0 (key_member_name lib k) subscription_member_order, vk_id k)"

definition child_audit_name :: "library \<Rightarrow> vpn_key \<Rightarrow> string" where
  "child_audit_name lib k = with_relay (key_member_name lib k) (vk_relay k)"

definition member_slot :: "bundle_member \<Rightarrow> string \<times> string option" where
  "member_slot m = (member_name m, bm_relay m)"

definition child_slot :: "library \<Rightarrow> vpn_key \<Rightarrow> string \<times> string option" where
  "child_slot lib k = (key_member_name lib k, vk_relay k)"

section \<open>The table\<close>

definition bundle_by_id :: "int \<Rightarrow> world \<Rightarrow> key_bundle option" where
  "bundle_by_id i w = find (\<lambda>b. kb_id b = i) (db_key_bundles w)"

definition bundle_by_token :: "string \<Rightarrow> world \<Rightarrow> key_bundle option" where
  "bundle_by_token token w = find (\<lambda>b. kb_token b = token) (db_key_bundles w)"

text \<open>\<open>ORDER BY created_at DESC, id DESC\<close>, over two stable sorts.\<close>

definition bundles_by_user :: "int \<Rightarrow> int \<Rightarrow> int \<Rightarrow> world \<Rightarrow> key_bundle list" where
  "bundles_by_user uid limit offset w =
     page limit offset (sort_desc kb_created_at (sort_desc kb_id (filter (\<lambda>b. kb_user_id b = uid) (db_key_bundles w))))"

definition bundle_ids_by_status :: "key_bundle_status \<Rightarrow> world \<Rightarrow> int list" where
  "bundle_ids_by_status status w = map kb_id (sort_key kb_id (filter (\<lambda>b. kb_status b = status) (db_key_bundles w)))"

definition count_bundles_by_user :: "int \<Rightarrow> world \<Rightarrow> int" where
  "count_bundles_by_user uid w = count_where (\<lambda>b. kb_user_id b = uid) (db_key_bundles w)"

definition bundle_of_key :: "int \<Rightarrow> world \<Rightarrow> key_bundle option" where
  "bundle_of_key kid w = (case key_get_by_id kid w of None \<Rightarrow> None
     | Some k \<Rightarrow> (case vk_bundle_id k of None \<Rightarrow> None | Some i \<Rightarrow> bundle_by_id i w))"

definition keys_of_bundle :: "int \<Rightarrow> world \<Rightarrow> vpn_key list" where
  "keys_of_bundle i w = sort_key vk_id (filter (\<lambda>k. vk_bundle_id k = Some i) (db_vpn_keys w))"

text \<open>The UNIQUE constraints over tokens, labels and shown numbers, and AUTOINCREMENT.\<close>

definition bundles_unique :: "key_bundle list \<Rightarrow> bool" where
  "bundles_unique bs \<longleftrightarrow> distinct (map kb_token bs) \<and> distinct (map kb_label bs) \<and> distinct (map kb_display_no bs)"

definition write_bundles :: "key_bundle list \<Rightarrow> unit act" where
  "write_bundles bs = op_bind (op_guard (bundles_unique bs) (IntegrityError ''key_bundles'')) (\<lambda>_.
     op_modify (\<lambda>w. w\<lparr>db_key_bundles := bs\<rparr>))"

definition next_bundle_id :: "world \<Rightarrow> int" where
  "next_bundle_id w = max (db_key_bundle_seq w) (foldr max (map kb_id (db_key_bundles w)) 0) + 1"

record bundle_draft =
  bd_user_id :: int
  bd_label :: string
  bd_note :: "string option"
  bd_status :: key_bundle_status
  bd_kind :: key_bundle_kind
  bd_token :: string

definition bundle_row :: "bundle_draft \<Rightarrow> string \<Rightarrow> int \<Rightarrow> int \<Rightarrow> key_bundle" where
  "bundle_row d now display_no i = \<lparr>kb_id = i, kb_user_id = bd_user_id d, kb_label = bd_label d, kb_note = bd_note d,
     kb_status = bd_status d, kb_token = bd_token d, kb_created_at = now, kb_updated_at = now, kb_revoked_at = None,
     kb_deleted_at = None, kb_display_no = display_no, kb_kind = bd_kind d\<rparr>"

definition bundle_create :: "bundle_draft \<Rightarrow> string \<Rightarrow> key_bundle act" where
  "bundle_create d now =
     op_bind reserve_key_number (\<lambda>display_no.
     op_bind (op_get (user_get_by_id (bd_user_id d))) (\<lambda>owner.
     op_bind (op_guard (owner \<noteq> None) (IntegrityError ''FOREIGN KEY'')) (\<lambda>_.
     op_bind (op_get next_bundle_id) (\<lambda>i.
     op_bind (op_get db_key_bundles) (\<lambda>bs.
     op_bind (write_bundles (bs @ [bundle_row d now display_no i])) (\<lambda>_.
     op_bind (op_modify (\<lambda>w. w\<lparr>db_key_bundle_seq := i\<rparr>)) (\<lambda>_.
     op_bind (op_get (bundle_by_id i)) (\<lambda>found.
     case found of None \<Rightarrow> op_raise (RuntimeFailure ''Key bundle insert failed'') | Some b \<Rightarrow> op_return b))))))))"

definition update_bundles :: "(key_bundle \<Rightarrow> bool) \<Rightarrow> (key_bundle \<Rightarrow> key_bundle) \<Rightarrow> int act" where
  "update_bundles P f = op_bind (op_get db_key_bundles) (\<lambda>bs.
     op_bind (write_bundles (update_where P f bs)) (\<lambda>_. op_return (count_where P bs)))"

definition bundle_update_note :: "int \<Rightarrow> string option \<Rightarrow> string \<Rightarrow> unit act" where
  "bundle_update_note i note now =
     op_bind (update_bundles (\<lambda>b. kb_id b = i) (\<lambda>b. b\<lparr>kb_note := note, kb_updated_at := now\<rparr>)) (\<lambda>_. op_return ())"

definition bundle_set_kind :: "int \<Rightarrow> key_bundle_kind \<Rightarrow> string \<Rightarrow> unit act" where
  "bundle_set_kind i kind now =
     op_bind (update_bundles (\<lambda>b. kb_id b = i) (\<lambda>b. b\<lparr>kb_kind := kind, kb_updated_at := now\<rparr>)) (\<lambda>n.
     op_guard (n \<noteq> 0) (RuntimeFailure ''Key bundle not found''))"

text \<open>The foreign key of \<open>bundle_id\<close>.\<close>

definition attach_key_to_bundle :: "int \<Rightarrow> int \<Rightarrow> string \<Rightarrow> unit act" where
  "attach_key_to_bundle kid i now =
     op_bind (op_get (bundle_by_id i)) (\<lambda>b.
     op_bind (op_get (key_get_by_id kid)) (\<lambda>k.
     op_bind (op_guard (b \<noteq> None \<or> k = None) (IntegrityError ''FOREIGN KEY'')) (\<lambda>_.
     op_bind (update_keys (has_key_id kid) (\<lambda>k. k\<lparr>vk_bundle_id := Some i, vk_updated_at := now\<rparr>)) (\<lambda>_. op_return ()))))"

definition stamped :: "string option \<Rightarrow> string \<Rightarrow> string option" where
  "stamped old now = (case old of None \<Rightarrow> Some now | Some t \<Rightarrow> Some t)"

definition status_row :: "key_bundle_status \<Rightarrow> string \<Rightarrow> key_bundle \<Rightarrow> key_bundle" where
  "status_row status now b =
     (let b = b\<lparr>kb_status := status, kb_updated_at := now\<rparr>
      in if status = BundleRevoked then b\<lparr>kb_revoked_at := stamped (kb_revoked_at b) now\<rparr>
         else if status = BundleDeleted then b\<lparr>kb_deleted_at := stamped (kb_deleted_at b) now\<rparr> else b)"

text \<open>\<open>from\<close> empty is no guard.\<close>

definition bundle_set_status :: "int \<Rightarrow> key_bundle_status \<Rightarrow> string \<Rightarrow> key_bundle_status list \<Rightarrow> unit act" where
  "bundle_set_status i status now allowed_from =
     op_bind (update_bundles (\<lambda>b. kb_id b = i \<and> (allowed_from = [] \<or> kb_status b \<in> set allowed_from)) (status_row status now)) (\<lambda>n.
     op_guard (allowed_from = [] \<or> n \<noteq> 0) ConcurrentModificationError)"

text \<open>\<open>ON DELETE RESTRICT\<close>: a bundle with keys cannot be deleted.\<close>

definition bundle_delete :: "int \<Rightarrow> unit act" where
  "bundle_delete i =
     op_bind (op_get (keys_of_bundle i)) (\<lambda>ks.
     op_bind (op_guard (ks = []) (IntegrityError ''FOREIGN KEY'')) (\<lambda>_.
     op_modify (\<lambda>w. w\<lparr>db_key_bundles := filter (\<lambda>b. kb_id b \<noteq> i) (db_key_bundles w)\<rparr>)))"

definition bundle_rotate_token :: "string \<Rightarrow> int \<Rightarrow> string \<Rightarrow> string act" where
  "bundle_rotate_token token i now =
     op_bind (update_bundles (\<lambda>b. kb_id b = i) (\<lambda>b. b\<lparr>kb_token := token, kb_updated_at := now\<rparr>)) (\<lambda>n.
     op_bind (op_guard (n \<noteq> 0) (RuntimeFailure ''Key bundle not found'')) (\<lambda>_. op_return token))"

section \<open>Lemmas\<close>

lemma order_values: "subscription_member_order =
    [''xray_tcp'', ''hysteria2'', ''xray_http_base'', ''xray_http_multi'', ''xray_http_antisib'']"
  by code_simp

text \<open>The members of a composition occupy different slots when the relays have different names.\<close>

lemma composition_slots: "distinct relays \<Longrightarrow> distinct (map member_slot (bundle_composition kind relays))"
proof -
  have "distinct (map member_name (direct_members Basic))" "distinct (map member_name (direct_members Extended))"
    by code_simp+
  then have direct: "distinct (map member_name (direct_members kind))" for kind by (cases kind) simp_all
  have slot: "member_slot (m\<lparr>bm_relay := Some r\<rparr>) = (member_name m, Some r)" for m :: bundle_member and r
    by (simp add: member_slot_def member_name_def)
  have none: "map member_slot (direct_members kind) = map (\<lambda>m. (member_name m, None)) (direct_members kind)"
    by (cases kind) (simp_all add: direct_members_def member_slot_def plain_member_def Let_def)
  assume "distinct relays"
  then have "distinct (map member_slot (concat (map (\<lambda>r. map (\<lambda>m. m\<lparr>bm_relay := Some r\<rparr>) (direct_members kind)) relays)))"
  proof (induction relays)
    case (Cons r rs)
    have "distinct (map (\<lambda>m. (member_name m, Some r)) (direct_members kind))"
      using direct [of kind] by (simp add: distinct_map inj_on_def)
    with Cons show ?case by (auto simp: slot comp_def)
  qed simp
  moreover have "distinct (map member_slot (direct_members kind))"
    unfolding none using direct [of kind] by (simp add: distinct_map inj_on_def)
  moreover have "snd s = None" if "s \<in> set (map member_slot (direct_members kind))" for s
    using that none by auto
  moreover have "snd s \<noteq> None" if "s \<in> set (map member_slot (concat (map (\<lambda>r. map (\<lambda>m. m\<lparr>bm_relay := Some r\<rparr>) (direct_members kind)) relays)))" for s
    using that by (auto simp: slot)
  ultimately show ?thesis unfolding bundle_composition_def map_append distinct_append by blast
qed

end
