(* ===== verification/Hy2_Auth.thy ===== *)
theory Hy2_Auth
  imports Url_Text Json Vpn_Keys_Repo
begin

text \<open>
  \<open>hy2_auth/store.py\<close> and \<open>hy2_auth/server.py\<close>: the endpoint Hysteria2 asks whether a token is let in. It
  reads the live database through a connection that stays with the file it opened, and reopens it when
  another file stands at the path. What the operating system and SQLite answer is the record \<open>disk\<close>.
\<close>

section \<open>The file behind a read-only connection\<close>

text \<open>
  \<open>dk_path\<close> is the file \<open>os.stat\<close> finds at the path; \<open>dk_opens\<close> says whether a file can be opened, and
  \<open>dk_rows\<close> what a connection to it reads, \<open>None\<close> for an error of SQLite. A file that left the
  path is still read by a connection that has it open.
\<close>

record disk =
  dk_path :: "nat option"
  dk_opens :: "nat \<Rightarrow> bool"
  dk_rows :: "nat \<Rightarrow> world option"

record key_store =
  ks_conn :: "nat option"
  ks_file_id :: "nat option"
  ks_infra_failures :: nat

datatype store_error = KeyStoreUnavailable

definition store_open :: "disk \<Rightarrow> nat \<Rightarrow> key_store \<Rightarrow> (store_error + unit) \<times> key_store" where
  "store_open d i st = (if dk_opens d i then (Inr (), st\<lparr>ks_conn := Some i, ks_file_id := Some i\<rparr>) else (Inl KeyStoreUnavailable, st))"

definition reopen_if_replaced :: "disk \<Rightarrow> key_store \<Rightarrow> (store_error + unit) \<times> key_store" where
  "reopen_if_replaced d st = (case dk_path d of None \<Rightarrow> (Inr (), st)
     | Some i \<Rightarrow> if Some i = ks_file_id st then (Inr (), st)
         else (case store_open d i (st\<lparr>ks_conn := None\<rparr>) of
             (Inr _, st') \<Rightarrow> (Inr (), st')
           | (Inl err, st') \<Rightarrow> (Inl err, st'\<lparr>ks_infra_failures := ks_infra_failures st' + 1\<rparr>)))"

text \<open>The rows of the query, the label and the payload of each; a payload may not parse.\<close>

type_synonym secret_row = "string option \<times> json option"

definition active_secret_rows :: "world \<Rightarrow> secret_row list" where
  "active_secret_rows w = map (\<lambda>k. (vk_email_label k, Some (JObj (vk_payload k))))
     (filter (\<lambda>k. vk_key_type k = HYSTERIA2 \<and> vk_status k = KeyActive) (db_vpn_keys w))"

definition read_active_rows :: "disk \<Rightarrow> key_store \<Rightarrow> (store_error + secret_row list) \<times> key_store" where
  "read_active_rows d st = (case reopen_if_replaced d st of (Inl err, st') \<Rightarrow> (Inl err, st')
     | (Inr _, st') \<Rightarrow> (case ks_conn st' of None \<Rightarrow> (Inl KeyStoreUnavailable, st')
         | Some i \<Rightarrow> (case dk_rows d i of
             None \<Rightarrow> (Inl KeyStoreUnavailable, st'\<lparr>ks_infra_failures := ks_infra_failures st' + 1\<rparr>)
           | Some w \<Rightarrow> (Inr (active_secret_rows w), st'))))"

definition row_secret :: "secret_row \<Rightarrow> (string \<times> string) option" where
  "row_secret = (\<lambda>(label, payload). case payload of
       Some (JObj data) \<Rightarrow> (case (label, json_get data ''secret'') of
           (Some l, JStr s) \<Rightarrow> if l = [] \<or> s = [] then None else Some (l, s)
         | _ \<Rightarrow> None)
     | _ \<Rightarrow> None)"

definition fetch_active_secrets :: "disk \<Rightarrow> key_store \<Rightarrow> (store_error + (string \<times> string) list) \<times> key_store" where
  "fetch_active_secrets d st = (case read_active_rows d st of (Inl err, st') \<Rightarrow> (Inl err, st')
     | (Inr rows, st') \<Rightarrow> (Inr (List.map_filter row_secret rows), st'))"

text \<open>\<open>hmac.compare_digest\<close> of the UTF-8 texts.\<close>

definition store_match :: "string \<Rightarrow> disk \<Rightarrow> key_store \<Rightarrow> (store_error + string option) \<times> key_store" where
  "store_match incoming d st =
     (if incoming = [] then (Inr None, st)
      else case fetch_active_secrets d st of (Inl err, st') \<Rightarrow> (Inl err, st')
        | (Inr secrets, st') \<Rightarrow> (Inr (map_option fst (find (\<lambda>(l, s). utf8 s = utf8 incoming) secrets)), st'))"

definition store_healthcheck :: "disk \<Rightarrow> key_store \<Rightarrow> bool \<times> key_store" where
  "store_healthcheck d st = (case read_active_rows d st of (Inl _, st') \<Rightarrow> (False, st') | (Inr _, st') \<Rightarrow> (True, st'))"

section \<open>The answer to a handshake\<close>

datatype auth_reply = AuthOk string | AuthNo

text \<open>The parsed body of the request, \<open>None\<close> when it does not parse; every reply has the status 200.\<close>

definition auth_handler :: "json option \<Rightarrow> disk \<Rightarrow> key_store \<Rightarrow> auth_reply \<times> key_store" where
  "auth_handler body d st = (case body of
       Some (JObj data) \<Rightarrow> (case json_get data ''auth'' of
           JStr incoming \<Rightarrow> if incoming = [] then (AuthNo, st)
             else (case store_match incoming d st of
                 (Inr (Some label), st') \<Rightarrow> (AuthOk label, st')
               | (_, st') \<Rightarrow> (AuthNo, st'))
         | _ \<Rightarrow> (AuthNo, st))
     | _ \<Rightarrow> (AuthNo, st))"

definition healthz_handler :: "disk \<Rightarrow> key_store \<Rightarrow> (bool \<times> int) \<times> key_store" where
  "healthz_handler d st = (case store_healthcheck d st of (healthy, st') \<Rightarrow> ((healthy, if healthy then 200 else 503), st'))"

section \<open>Who is let in\<close>

text \<open>A token that an active Hysteria2 key of the database has as its secret.\<close>

definition admits :: "world \<Rightarrow> string \<Rightarrow> string \<Rightarrow> bool" where
  "admits w token label \<longleftrightarrow> (\<exists>k \<in> set (db_vpn_keys w). vk_key_type k = HYSTERIA2 \<and> vk_status k = KeyActive
     \<and> vk_email_label k = Some label \<and> label \<noteq> [] \<and> json_get (vk_payload k) ''secret'' = JStr token \<and> token \<noteq> [])"

lemma utf8_inj [simp]: "utf8 s = utf8 t \<longleftrightarrow> s = t"
  by (metis utf8_round_trip)

lemma row_secret_Some: "row_secret (label, Some (JObj data)) = Some (l, s)
    \<longleftrightarrow> label = Some l \<and> json_get data ''secret'' = JStr s \<and> l \<noteq> [] \<and> s \<noteq> []"
  by (auto simp: row_secret_def split: option.splits json.splits)

lemma map_filter_rows: "y \<in> set (List.map_filter f xs) \<longleftrightarrow> (\<exists>x \<in> set xs. f x = Some y)"
  by (force simp: List.map_filter_def)

lemma secrets_admit: "(l, s) \<in> set (List.map_filter row_secret (active_secret_rows w)) \<longleftrightarrow> admits w s l"
proof -
  have "(l, s) \<in> set (List.map_filter row_secret (active_secret_rows w)) \<longleftrightarrow>
      (\<exists>k \<in> set (db_vpn_keys w). (vk_key_type k = HYSTERIA2 \<and> vk_status k = KeyActive)
         \<and> row_secret (vk_email_label k, Some (JObj (vk_payload k))) = Some (l, s))"
    unfolding map_filter_rows active_secret_rows_def by auto
  then show ?thesis by (auto simp: row_secret_Some admits_def)
qed

text \<open>A store whose connection is the one to the file it remembers, or that has none.\<close>

definition store_ok :: "key_store \<Rightarrow> bool" where
  "store_ok st \<longleftrightarrow> ks_conn st = None \<or> ks_conn st = ks_file_id st"

lemma reopened:
  assumes "reopen_if_replaced d st = (r, st')" "store_ok st" "dk_path d = Some i"
  shows "store_ok st' \<and> (isl r \<or> ks_file_id st' = Some i)
    \<and> (isl r \<longrightarrow> \<not> dk_opens d i) \<and> (ks_file_id st \<noteq> Some i \<longrightarrow> \<not> isl r \<longrightarrow> ks_conn st' = Some i)
    \<and> (ks_file_id st = Some i \<longrightarrow> st' = st)"
  using assms by (auto simp: reopen_if_replaced_def store_open_def store_ok_def split: if_splits)

definition auth_token :: "json option \<Rightarrow> string option" where
  "auth_token body = (case body of Some (JObj data) \<Rightarrow>
     (case json_get data ''auth'' of JStr s \<Rightarrow> if s = [] then None else Some s | _ \<Rightarrow> None) | _ \<Rightarrow> None)"

lemma handler_run:
  "auth_handler body d st = (case auth_token body of None \<Rightarrow> (AuthNo, st)
     | Some token \<Rightarrow> (case fetch_active_secrets d st of (Inl _, st') \<Rightarrow> (AuthNo, st')
         | (Inr secrets, st') \<Rightarrow> ((case find (\<lambda>(l, s). s = token) secrets of None \<Rightarrow> AuthNo | Some (l, s) \<Rightarrow> AuthOk l), st')))"
  by (auto simp: auth_handler_def auth_token_def store_match_def split: option.splits json.splits sum.splits prod.splits)


lemma found_admits: "find (\<lambda>(l, s). s = token) (List.map_filter row_secret (active_secret_rows w)) = Some (l, s)
    \<Longrightarrow> s = token \<and> admits w token l"
  using find_Some_in [of "\<lambda>(l, s). s = token"] secrets_admit by fastforce

lemma none_admits: "find (\<lambda>(l, s). s = token) (List.map_filter row_secret (active_secret_rows w)) = None \<longleftrightarrow> (\<nexists>l. admits w token l)"
proof -
  have "find (\<lambda>(l, s). s = token) (List.map_filter row_secret (active_secret_rows w)) = None
      \<longleftrightarrow> (\<nexists>l. (l, token) \<in> set (List.map_filter row_secret (active_secret_rows w)))"
    by (force simp: find_None_iff)
  then show ?thesis by (simp add: secrets_admit)
qed

text \<open>What the store reads, when a file stands at the path.\<close>

lemma fetched:
  assumes "fetch_active_secrets d st = (r, st')" "store_ok st" "dk_path d = Some i" "ks_conn st \<noteq> None \<or> ks_file_id st \<noteq> Some i"
  shows "if dk_opens d i \<or> ks_file_id st = Some i
    then (case dk_rows d i of None \<Rightarrow> r = Inl KeyStoreUnavailable | Some w \<Rightarrow> r = Inr (List.map_filter row_secret (active_secret_rows w)))
    else r = Inl KeyStoreUnavailable"
proof (cases "ks_file_id st = Some i")
  case True
  then have "ks_conn st = Some i" using assms(2,4) by (auto simp: store_ok_def)
  with True assms(1,3) show ?thesis
    by (auto simp: fetch_active_secrets_def read_active_rows_def reopen_if_replaced_def split: option.splits)
next
  case False
  with assms(1,3) show ?thesis
    by (auto simp: fetch_active_secrets_def read_active_rows_def reopen_if_replaced_def store_open_def split: option.splits if_splits)
qed

text \<open>
  C37: a handshake is decided on the file that stands at the path at that moment. The token is let in,
  under the label of such a key, exactly when the file can be read and an active Hysteria2 key of it has the
  token as its secret; so a revoked or deleted key fails from the next handshake on, and so does every key
  when the database cannot be read.
\<close>

theorem hy2_auth_live:
  assumes "dk_path d = Some i" "store_ok st" "ks_conn st \<noteq> None"
  shows "case fst (auth_handler body d st) of
      AuthOk label \<Rightarrow> \<exists>w token. dk_rows d i = Some w \<and> auth_token body = Some token \<and> admits w token label
    | AuthNo \<Rightarrow> \<not> ((dk_opens d i \<or> ks_file_id st = Some i)
        \<and> (\<exists>w token label. dk_rows d i = Some w \<and> auth_token body = Some token \<and> admits w token label))"
proof (cases "auth_token body")
  case None
  then show ?thesis by (simp add: handler_run)
next
  case (Some token)
  obtain r st' where r: "fetch_active_secrets d st = (r, st')" by force
  note read = fetched [OF r assms(2,1)]
  show ?thesis
  proof (cases "(dk_opens d i \<or> ks_file_id st = Some i) \<and> dk_rows d i \<noteq> None")
    case False
    with read assms(3) have "r = Inl KeyStoreUnavailable" by (auto split: if_splits)
    with False r Some show ?thesis by (auto simp: handler_run)
  next
    case True
    then obtain w where w: "dk_rows d i = Some w" by blast
    with True read assms(3) have rows: "r = Inr (List.map_filter row_secret (active_secret_rows w))" by (auto split: if_splits)
    show ?thesis
    proof (cases "find (\<lambda>(l, s). s = token) (List.map_filter row_secret (active_secret_rows w))")
      case none: None
      then have "\<nexists>l. admits w token l" using none_admits by blast
      with none r rows Some w show ?thesis by (simp add: handler_run)
    next
      case found: (Some f)
      obtain l s where f: "f = (l, s)" by force
      with found Some r rows w found_admits [of token w l s] show ?thesis
        by (simp add: handler_run)
    qed
  qed
qed

text \<open>
  C40: when the file at the path was replaced by one that cannot be opened and the first file is then put back,
  the store stays without a connection: every handshake is refused and the health check fails although the
  database can be read.
\<close>

theorem hy2_store_stays_closed:
  assumes "ks_file_id st = Some i" "dk_path d = Some j" "i \<noteq> j" "\<not> dk_opens d j" "dk_path d' = Some i"
    "auth_handler body d st = (r, st')" "auth_token body \<noteq> None"
  shows "auth_handler later d' st' = (AuthNo, st') \<and> healthz_handler d' st' = ((False, 503), st')"
proof -
  have closed: "ks_conn st' = None" "ks_file_id st' = Some i"
    using assms by (auto simp: handler_run fetch_active_secrets_def read_active_rows_def reopen_if_replaced_def store_open_def split: option.splits)
  then have read: "read_active_rows d' st' = (Inl KeyStoreUnavailable, st')"
    using assms(5) by (simp add: read_active_rows_def reopen_if_replaced_def)
  then show ?thesis
    by (simp add: handler_run fetch_active_secrets_def healthz_handler_def store_healthcheck_def split: option.split)
qed

section \<open>An example\<close>

definition demo_hy2_key :: "vpn_key_status \<Rightarrow> vpn_key" where
  "demo_hy2_key status = \<lparr>vk_id = 1, vk_owner_user_id = 7, vk_username = None, vk_key_type = HYSTERIA2, vk_status = status,
     vk_note = None, vk_uuid = None, vk_email_label = Some ''hy2_a'', vk_public_key = None, vk_client_ip = None,
     vk_payload = [(''secret'', JStr ''s3cret'')], vk_public_payload = [],
     vk_created_at = ''1'', vk_updated_at = ''1'', vk_revoked_at = None, vk_deleted_at = None, vk_created_by = 7,
     vk_revoked_by = None, vk_deleted_by = None, vk_expires_at = None, vk_transport = ''tcp'',
     vk_xhttp_profile = ''base'', vk_spider_x = None, vk_relay = None, vk_bundle_id = None,
     vk_expiry_notified_days = None\<rparr>"

definition demo_disk :: "vpn_key_status \<Rightarrow> disk" where
  "demo_disk status = \<lparr>dk_path = Some 5, dk_opens = (\<lambda>i. i = 5), dk_rows = (\<lambda>i. Some (empty_world\<lparr>db_vpn_keys := [demo_hy2_key status]\<rparr>))\<rparr>"

definition demo_store :: key_store where
  "demo_store = \<lparr>ks_conn = Some 5, ks_file_id = Some 5, ks_infra_failures = 0\<rparr>"

definition demo_body :: "json option" where
  "demo_body = Some (JObj [(''addr'', JStr ''1.2.3.4:5''), (''auth'', JStr ''s3cret'')])"

lemma hy2_auth_live_witness:
  "fst (auth_handler demo_body (demo_disk KeyActive) demo_store) = AuthOk ''hy2_a''
   \<and> fst (auth_handler demo_body (demo_disk KeyRevoked) demo_store) = AuthNo"
proof -
  have "admits (empty_world\<lparr>db_vpn_keys := [demo_hy2_key KeyActive]\<rparr>) ''s3cret'' ''hy2_a''"
    by (simp add: admits_def demo_hy2_key_def json_get_def)
  then show ?thesis
    using hy2_auth_live [of "demo_disk KeyActive" 5 demo_store demo_body] hy2_auth_live [of "demo_disk KeyRevoked" 5 demo_store demo_body]
    by (auto simp: demo_disk_def demo_store_def store_ok_def auth_token_def demo_body_def json_get_def admits_def demo_hy2_key_def
        split: auth_reply.splits)
qed

lemma hy2_store_stays_closed_witness:
  "auth_handler demo_body (demo_disk KeyActive) (snd (auth_handler demo_body (demo_disk KeyActive\<lparr>dk_path := Some 6\<rparr>) demo_store))
    = (AuthNo, snd (auth_handler demo_body (demo_disk KeyActive\<lparr>dk_path := Some 6\<rparr>) demo_store))"
proof -
  obtain r st' where run: "auth_handler demo_body (demo_disk KeyActive\<lparr>dk_path := Some 6\<rparr>) demo_store = (r, st')" by force
  show ?thesis
    using hy2_store_stays_closed [OF _ _ _ _ _ run, of 5 6 "demo_disk KeyActive" demo_body] run
    by (simp add: demo_disk_def demo_store_def auth_token_def demo_body_def json_get_def)
qed

end
