(* ===== verification/Subscription.thy ===== *)
theory Subscription
  imports Client_Links Bundles_Repo Hy2_Auth Rate_Limiter Relay_Admin Traffic_Stats "HOL-Library.Product_Lexorder"
begin

text \<open>
  The subscription endpoint, \<open>subscription_server/store.py\<close>, \<open>render.py\<close> and \<open>server.py\<close>: it answers one
  request, for the links of the bundle a secret token names, from the live database. The database is
  the \<open>disk\<close> of \<open>Hy2_Auth\<close>; the hash of the client's address is an argument.
\<close>

section \<open>The store\<close>

record bundle_view =
  bv_bundle :: key_bundle
  bv_keys :: "vpn_key list"
  bv_traffic :: "traffic_scope_totals option"
  bv_relays :: relay_snapshot

definition view_expires_at :: "bundle_view \<Rightarrow> string option" where
  "view_expires_at v = (case sort (filter (\<lambda>t. t \<noteq> []) (List.map_filter vk_expires_at (bv_keys v))) of
     [] \<Rightarrow> None | t # _ \<Rightarrow> Some t)"

datatype bundle_store_error = BundleStoreUnavailable | DatabaseNotConnected

definition ensure_fresh :: "disk \<Rightarrow> key_store \<Rightarrow> (bundle_store_error + unit) \<times> key_store" where
  "ensure_fresh d st = (case dk_path d of None \<Rightarrow> (Inr (), st)
     | Some i \<Rightarrow> if Some i = ks_file_id st then (Inr (), st)
         else if dk_opens d i then (Inr (), st\<lparr>ks_conn := Some i, ks_file_id := Some i\<rparr>)
         else (Inl BundleStoreUnavailable, st\<lparr>ks_conn := None\<rparr>))"

text \<open>A connection that is not there raises a \<open>RuntimeError\<close>, which the store does not catch.\<close>

definition live_world :: "disk \<Rightarrow> key_store \<Rightarrow> (bundle_store_error + world) \<times> key_store" where
  "live_world d st =
     (let failed = (\<lambda>st. (Inl BundleStoreUnavailable, st\<lparr>ks_infra_failures := ks_infra_failures st + 1\<rparr>))
      in case ensure_fresh d st of (Inl _, st') \<Rightarrow> failed st'
       | (Inr _, st') \<Rightarrow> (case ks_conn st' of None \<Rightarrow> (Inl DatabaseNotConnected, st')
           | Some i \<Rightarrow> (case dk_rows d i of None \<Rightarrow> failed st' | Some w \<Rightarrow> (Inr w, st'))))"

definition view_of :: "string \<Rightarrow> world \<Rightarrow> bundle_view option" where
  "view_of token w = (case bundle_by_token token w of None \<Rightarrow> None
     | Some b \<Rightarrow> if kb_status b \<noteq> BundleActive then None
         else let totals = sum_traffic_for_owner (kb_user_id b) all_time w
           in Some \<lparr>bv_bundle = b, bv_keys = filter (\<lambda>k. vk_status k = KeyActive) (keys_of_bundle (kb_id b) w),
                bv_traffic = (if measured totals then Some totals else None), bv_relays = snapshot_of (relays_by_id w)\<rparr>)"

definition load_active_bundle :: "string \<Rightarrow> disk \<Rightarrow> key_store \<Rightarrow> (bundle_store_error + bundle_view option) \<times> key_store" where
  "load_active_bundle token d st = (case live_world d st of (Inl err, st') \<Rightarrow> (Inl err, st') | (Inr w, st') \<Rightarrow> (Inr (view_of token w), st'))"

section \<open>The rendering\<close>

record sub_settings =
  sn_enabled :: bool
  sn_rate_limit_seconds :: int
  sn_rate_limit_burst :: int
  sn_update_interval_hours :: int
  sn_links :: link_settings

record renderer =
  rn_library :: library
  rn_sha :: "string \<Rightarrow> nat"
  rn_v6 :: "string \<Rightarrow> bool"
  rn_settings :: sub_settings

definition vless_child_link :: "renderer \<Rightarrow> relay_snapshot \<Rightarrow> int \<Rightarrow> name_style \<Rightarrow> vpn_key \<Rightarrow> service_error + string" where
  "vless_child_link rn rs now style k =
     (let lib = rn_library rn; st = sn_links (rn_settings rn);
          label = text_or_empty lib (json_or (json_get (vk_payload k) ''email_label'') (json_text (vk_email_label k)))
      in if key_uuid lib k = [] \<or> label = [] then Inl (RuntimeFailure ''SubscriptionRenderError'')
         else sum_bind (key_display_name lib k style (ls_server_flag st) rs) (\<lambda>name.
              sum_bind (link_spider_x lib (rn_sha rn) st k True now) (\<lambda>spx.
              build_vless_link lib (rn_v6 rn) st rs (key_link_values lib k name spx) (vk_relay k))))"

definition hysteria2_child_link :: "renderer \<Rightarrow> relay_snapshot \<Rightarrow> name_style \<Rightarrow> vpn_key \<Rightarrow> service_error + string" where
  "hysteria2_child_link rn rs style k =
     (if text_or_empty (rn_library rn) (json_get (vk_payload k) ''secret'') = [] \<or> or_else (vk_email_label k) [] = []
      then Inl (RuntimeFailure ''SubscriptionRenderError'')
      else hysteria2_key_link (rn_library rn) (sn_links (rn_settings rn)) rs style k)"

definition child_link :: "renderer \<Rightarrow> relay_snapshot \<Rightarrow> int \<Rightarrow> name_style \<Rightarrow> vpn_key \<Rightarrow> service_error + string" where
  "child_link rn rs now style k = (case vk_key_type k of
       XRAY \<Rightarrow> vless_child_link rn rs now style k
     | HYSTERIA2 \<Rightarrow> hysteria2_child_link rn rs style k
     | AWG \<Rightarrow> Inl (RuntimeFailure ''SubscriptionRenderError''))"

definition reachable :: "relay_snapshot \<Rightarrow> vpn_key \<Rightarrow> bool" where
  "reachable rs k \<longleftrightarrow> (case vk_relay k of None \<Rightarrow> True | Some r \<Rightarrow> relay_available rs r)"

fun render_children :: "renderer \<Rightarrow> relay_snapshot \<Rightarrow> int \<Rightarrow> name_style \<Rightarrow> vpn_key list \<Rightarrow> service_error + string list" where
  "render_children rn rs now style [] = Inr []"
| "render_children rn rs now style (k # ks) =
     (if \<not> reachable rs k then render_children rn rs now style ks
      else sum_bind (child_link rn rs now style k) (\<lambda>link.
           sum_bind (render_children rn rs now style ks) (\<lambda>links. Inr (link # links))))"

definition ordered_children :: "library \<Rightarrow> relay_snapshot \<Rightarrow> vpn_key list \<Rightarrow> vpn_key list" where
  "ordered_children lib rs ks = sort_key (subscription_sort_key lib rs) ks"

definition render_links :: "renderer \<Rightarrow> int \<Rightarrow> bundle_view \<Rightarrow> service_error + string list" where
  "render_links rn now v = render_children rn (bv_relays v) now (bundle_name_style (kb_kind (bv_bundle v)))
     (ordered_children (rn_library rn) (bv_relays v) (bv_keys v))"

definition printable_ascii :: "string \<Rightarrow> bool" where
  "printable_ascii s \<longleftrightarrow> list_all (\<lambda>c. 32 \<le> code_point c \<and> code_point c < 127) s"

definition profile_title :: "string \<Rightarrow> string" where
  "profile_title label = (if printable_ascii label then label else ''base64:'' @ b64encode (utf8 label))"

definition expire_timestamp :: "env \<Rightarrow> string option \<Rightarrow> int option" where
  "expire_timestamp e expires_at = (case expires_at of None \<Rightarrow> None
     | Some t \<Rightarrow> if t = [] then None else map_option truncate_rat (ev_instant e t))"

definition subscription_userinfo :: "env \<Rightarrow> bundle_view \<Rightarrow> string" where
  "subscription_userinfo e v = join ''; ''
     ((case bv_traffic v of None \<Rightarrow> [] | Some t \<Rightarrow> [''upload='' @ int_str (tt_uploaded_bytes t), ''download='' @ int_str (tt_downloaded_bytes t)])
      @ (case expire_timestamp e (view_expires_at v) of None \<Rightarrow> [] | Some x \<Rightarrow> [''expire='' @ int_str x]))"

definition subscription_headers :: "env \<Rightarrow> sub_settings \<Rightarrow> bundle_view \<Rightarrow> (string \<times> string) list" where
  "subscription_headers e st v =
     [(''Profile-Title'', profile_title (kb_label (bv_bundle v))), (''Profile-Update-Interval'', int_str (sn_update_interval_hours st))]
     @ (let userinfo = subscription_userinfo e v in if userinfo = [] then [] else [(''Subscription-Userinfo'', userinfo)])"

definition newline_text :: string where
  "newline_text = [newline]"

definition render_subscription :: "env \<Rightarrow> renderer \<Rightarrow> int \<Rightarrow> bundle_view \<Rightarrow> service_error + string \<times> (string \<times> string) list" where
  "render_subscription e rn now v =
     sum_bind (render_links rn now v) (\<lambda>links.
     if links = [] then Inl (RuntimeFailure ''SubscriptionRenderError'')
     else Inr (b64encode (utf8 (join newline_text links)), subscription_headers e (rn_settings rn) v))"

section \<open>The answer\<close>

record response =
  resp_status :: int
  resp_body :: string
  resp_headers :: "(string \<times> string) list"

definition not_found :: response where
  "not_found = \<lparr>resp_status = 404, resp_body = [], resp_headers = []\<rparr>"

definition token_char :: "char \<Rightarrow> bool" where
  "token_char c \<longleftrightarrow> host_char c \<or> c = CHR ''_''"

definition token_shape :: "string \<Rightarrow> bool" where
  "token_shape t \<longleftrightarrow> 16 \<le> length t \<and> length t \<le> 128 \<and> list_all token_char t"

record endpoint =
  ep_store :: key_store
  ep_limiter :: rate_limiter

record request =
  rq_bucket :: int    \<comment> \<open>the hash of the address of the client\<close>
  rq_token :: string
  rq_clock :: rat     \<comment> \<open>the clock of the limiter\<close>
  rq_unix :: int      \<comment> \<open>the clock of the links\<close>

definition serve :: "env \<Rightarrow> renderer \<Rightarrow> disk \<Rightarrow> request \<Rightarrow> key_store \<Rightarrow> response \<times> key_store" where
  "serve e rn d q st =
     (if \<not> sn_enabled (rn_settings rn) \<or> \<not> token_shape (rq_token q) then (not_found, st)
      else case load_active_bundle (rq_token q) d st of
          (Inl _, st') \<Rightarrow> (not_found, st')
        | (Inr None, st') \<Rightarrow> (not_found, st')
        | (Inr (Some v), st') \<Rightarrow> (case render_subscription e rn (rq_unix q) v of
              Inl _ \<Rightarrow> (not_found, st')
            | Inr (body, headers) \<Rightarrow>
                (\<lparr>resp_status = 200, resp_body = body, resp_headers = headers @ [(''Cache-Control'', ''no-store'')]\<rparr>, st')))"

definition subscription_handler :: "env \<Rightarrow> renderer \<Rightarrow> disk \<Rightarrow> request \<Rightarrow> endpoint \<Rightarrow> response \<times> endpoint" where
  "subscription_handler e rn d q ep =
     (let go = (\<lambda>ep. case serve e rn d q (ep_store ep) of (resp, st) \<Rightarrow> (resp, ep\<lparr>ep_store := st\<rparr>));
          cooldown = sn_rate_limit_seconds (rn_settings rn)
      in if cooldown \<le> 0 then go ep
         else case rl_check (rq_clock q) (rq_bucket q) ''subscription'' (of_int cooldown) (sn_rate_limit_burst (rn_settings rn)) (ep_limiter ep) of
             (Inl (RateLimitExceeded retry_after), rl) \<Rightarrow>
               (\<lparr>resp_status = 429, resp_body = [], resp_headers = [(''Retry-After'', int_str retry_after)]\<rparr>, ep\<lparr>ep_limiter := rl\<rparr>)
           | (Inl DictionaryIsEmpty, rl) \<Rightarrow> (not_found, ep\<lparr>ep_limiter := rl\<rparr>)
           | (Inr _, rl) \<Rightarrow> go (ep\<lparr>ep_limiter := rl\<rparr>))"

section \<open>What is served, and when\<close>

text \<open>The links of the token in a database: one for each reachable active child of its active bundle, in the order of the subscription.\<close>

definition served_children :: "renderer \<Rightarrow> world \<Rightarrow> key_bundle \<Rightarrow> vpn_key list" where
  "served_children rn w b = (let rs = snapshot_of (relays_by_id w)
     in filter (reachable rs) (ordered_children (rn_library rn) rs (filter (\<lambda>k. vk_status k = KeyActive) (keys_of_bundle (kb_id b) w))))"

definition serves :: "renderer \<Rightarrow> int \<Rightarrow> world \<Rightarrow> string \<Rightarrow> string list \<Rightarrow> bool" where
  "serves rn now w token links \<longleftrightarrow> (\<exists>b. bundle_by_token token w = Some b \<and> kb_status b = BundleActive \<and> links \<noteq> []
     \<and> list_all2 (\<lambda>k link. child_link rn (snapshot_of (relays_by_id w)) now (bundle_name_style (kb_kind b)) k = Inr link)
         (served_children rn w b) links)"

definition limiter_passes :: "renderer \<Rightarrow> request \<Rightarrow> rate_limiter \<Rightarrow> bool" where
  "limiter_passes rn q rl \<longleftrightarrow> sn_rate_limit_seconds (rn_settings rn) \<le> 0
     \<or> fst (rl_check (rq_clock q) (rq_bucket q) ''subscription'' (of_int (sn_rate_limit_seconds (rn_settings rn)))
         (sn_rate_limit_burst (rn_settings rn)) rl) = Inr ()"

lemma rendered_children: "render_children rn rs now style ks = Inr links
    \<longleftrightarrow> list_all2 (\<lambda>k link. child_link rn rs now style k = Inr link) (filter (reachable rs) ks) links"
proof (induction ks arbitrary: links)
  case Nil
  then show ?case by auto
next
  case (Cons k ks)
  then show ?case by (auto simp: sum_bind_def list_all2_Cons1 split: sum.splits) (metis Inr_inject)
qed

lemma live_read:
  assumes "live_world d st = (r, st')" "store_ok st" "dk_path d = Some i" "ks_conn st \<noteq> None"
  shows "r = Inr w \<longleftrightarrow> (dk_opens d i \<or> ks_file_id st = Some i) \<and> dk_rows d i = Some w"
proof (cases "ks_file_id st = Some i")
  case True
  then have "ks_conn st = Some i" using assms(2,4) by (auto simp: store_ok_def)
  with True assms(1,3) show ?thesis by (auto simp: live_world_def ensure_fresh_def split: option.splits)
next
  case False
  with assms(1,3) show ?thesis by (auto simp: live_world_def ensure_fresh_def split: option.splits if_splits)
qed

lemma rendered_view:
  "(\<exists>v headers. view_of token w = Some v \<and> render_subscription e rn now v = Inr (body, headers))
    \<longleftrightarrow> (\<exists>links. serves rn now w token links \<and> body = b64encode (utf8 (join newline_text links)))"
  by (auto simp: view_of_def render_subscription_def render_links_def serves_def served_children_def Let_def sum_bind_def
        rendered_children [symmetric] split: option.splits sum.splits if_splits)

lemma serve_run:
  "fst (serve e rn d q st) = not_found \<or>
    (\<exists>w v body headers. sn_enabled (rn_settings rn) \<and> token_shape (rq_token q) \<and> fst (live_world d st) = Inr w
      \<and> view_of (rq_token q) w = Some v \<and> render_subscription e rn (rq_unix q) v = Inr (body, headers)
      \<and> resp_status (fst (serve e rn d q st)) = 200 \<and> resp_body (fst (serve e rn d q st)) = body)"
  by (auto simp: serve_def load_active_bundle_def split: prod.splits sum.splits option.splits)

lemma serve_ok:
  assumes "sn_enabled (rn_settings rn)" "token_shape (rq_token q)" "fst (live_world d st) = Inr w"
    "view_of (rq_token q) w = Some v" "render_subscription e rn (rq_unix q) v = Inr (body, headers)"
  shows "resp_status (fst (serve e rn d q st)) = 200"
  using assms by (auto simp: serve_def load_active_bundle_def split: prod.splits sum.splits option.splits)

lemma handler_serves:
  "limiter_passes rn q (ep_limiter ep) \<Longrightarrow> fst (subscription_handler e rn d q ep) = fst (serve e rn d q (ep_store ep))"
  by (auto simp: subscription_handler_def limiter_passes_def Let_def split: prod.splits)

lemma handler_refuses:
  "\<not> limiter_passes rn q (ep_limiter ep) \<Longrightarrow> resp_body (fst (subscription_handler e rn d q ep)) = []
    \<and> resp_status (fst (subscription_handler e rn d q ep)) \<in> {404, 429}"
  by (auto simp: subscription_handler_def limiter_passes_def not_found_def Let_def split: prod.splits sum.splits rate_limit_error.splits)

lemma serve_iff:
  assumes "dk_path d = Some i" "store_ok st" "ks_conn st \<noteq> None"
  shows "resp_status (fst (serve e rn d q st)) = 200 \<longleftrightarrow> sn_enabled (rn_settings rn) \<and> token_shape (rq_token q)
      \<and> (dk_opens d i \<or> ks_file_id st = Some i) \<and> (\<exists>w links. dk_rows d i = Some w \<and> serves rn (rq_unix q) w (rq_token q) links)" (is ?status)
    "resp_status (fst (serve e rn d q st)) = 200 \<Longrightarrow> \<exists>w links. dk_rows d i = Some w \<and> serves rn (rq_unix q) w (rq_token q) links
      \<and> resp_body (fst (serve e rn d q st)) = b64encode (utf8 (join newline_text links))"
    "resp_status (fst (serve e rn d q st)) \<noteq> 200 \<Longrightarrow> fst (serve e rn d q st) = not_found"
proof -
  obtain r st' where "live_world d st = (r, st')" by force
  then have read: "fst (live_world d st) = Inr w \<longleftrightarrow> (dk_opens d i \<or> ks_file_id st = Some i) \<and> dk_rows d i = Some w" for w
    using live_read [OF _ assms(2,1,3)] by simp
  have no: "resp_status not_found \<noteq> 200" by (simp add: not_found_def)
  from serve_run [of e rn d q st] show "resp_status (fst (serve e rn d q st)) \<noteq> 200 \<Longrightarrow> fst (serve e rn d q st) = not_found" by auto
  show two: "\<exists>w links. dk_rows d i = Some w \<and> serves rn (rq_unix q) w (rq_token q) links
      \<and> resp_body (fst (serve e rn d q st)) = b64encode (utf8 (join newline_text links))"
    if "resp_status (fst (serve e rn d q st)) = 200"
    using serve_run [of e rn d q st] that no read rendered_view by metis
  have one: "sn_enabled (rn_settings rn) \<and> token_shape (rq_token q) \<and> (dk_opens d i \<or> ks_file_id st = Some i)"
    if "resp_status (fst (serve e rn d q st)) = 200"
    using serve_run [of e rn d q st] that no read by metis
  have "resp_status (fst (serve e rn d q st)) = 200" if "sn_enabled (rn_settings rn)" "token_shape (rq_token q)"
    "dk_opens d i \<or> ks_file_id st = Some i" "dk_rows d i = Some w" "serves rn (rq_unix q) w (rq_token q) links" for w links
    using serve_ok [OF that(1,2)] read that(3,4) rendered_view [of "rq_token q" w e rn "rq_unix q"] that(5) by metis
  with one two show ?status by blast
qed

text \<open>
  C35: the endpoint serves a token exactly when the feature is on, the token has the shape of one, and the database
  that stands at the path at that moment has an active bundle of it whose reachable active children all
  have a link; the body is then exactly these links in the order of the subscription. Everything else is an empty
  answer, 404 or the 429 of the limiter, so a link is never served of a revoked bundle, and never a part of a bundle.
\<close>

theorem subscription_fail_closed:
  fixes ep :: endpoint
  assumes "dk_path d = Some i" "store_ok (ep_store ep)" "ks_conn (ep_store ep) \<noteq> None" "fst (subscription_handler e rn d q ep) = resp"
  shows "(resp_status resp = 200 \<longleftrightarrow> limiter_passes rn q (ep_limiter ep) \<and> sn_enabled (rn_settings rn) \<and> token_shape (rq_token q)
      \<and> (dk_opens d i \<or> ks_file_id (ep_store ep) = Some i) \<and> (\<exists>w links. dk_rows d i = Some w \<and> serves rn (rq_unix q) w (rq_token q) links))
    \<and> (if resp_status resp = 200
       then \<exists>w links. dk_rows d i = Some w \<and> serves rn (rq_unix q) w (rq_token q) links
         \<and> utf8_text (b64decode (resp_body resp)) = join newline_text links
       else resp_body resp = [] \<and> resp_status resp \<in> {404, 429})"
proof (cases "limiter_passes rn q (ep_limiter ep)")
  case True
  then have run: "resp = fst (serve e rn d q (ep_store ep))" using assms(4) handler_serves [OF True] by auto
  with serve_iff(1) [OF assms(1-3), where e = e and rn = rn and q = q]
  have status: "resp_status resp = 200 \<longleftrightarrow> limiter_passes rn q (ep_limiter ep) \<and> sn_enabled (rn_settings rn) \<and> token_shape (rq_token q)
      \<and> (dk_opens d i \<or> ks_file_id (ep_store ep) = Some i) \<and> (\<exists>w links. dk_rows d i = Some w \<and> serves rn (rq_unix q) w (rq_token q) links)"
    using True run by simp
  show ?thesis
  proof (cases "resp_status resp = 200")
    case ok: True
    then obtain w links where "dk_rows d i = Some w" "serves rn (rq_unix q) w (rq_token q) links"
      "resp_body resp = b64encode (utf8 (join newline_text links))"
      using serve_iff(2) [OF assms(1-3), where e = e and rn = rn and q = q] run by blast
    with ok status show ?thesis by (auto simp: text_b64_round_trip)
  next
    case no: False
    then have "resp = not_found" using serve_iff(3) [OF assms(1-3), where e = e and rn = rn and q = q] run by blast
    with no status show ?thesis by (simp add: not_found_def)
  qed
next
  case False
  with handler_refuses [OF False, of e d] assms(4) show ?thesis by auto
qed

section \<open>An example\<close>

definition demo_bundle :: key_bundle where
  "demo_bundle = \<lparr>kb_id = 3, kb_user_id = 7, kb_label = ''a'', kb_note = None, kb_status = BundleActive,
     kb_token = ''0123456789abcdef'', kb_created_at = ''1'', kb_updated_at = ''1'', kb_revoked_at = None, kb_deleted_at = None,
     kb_display_no = 1, kb_kind = Basic\<rparr>"

definition demo_bundle_world :: world where
  "demo_bundle_world = empty_world\<lparr>db_vpn_keys := [(demo_hy2_key KeyActive)\<lparr>vk_bundle_id := Some 3\<rparr>], db_key_bundles := [demo_bundle]\<rparr>"

definition demo_bundle_disk :: disk where
  "demo_bundle_disk = \<lparr>dk_path = Some 5, dk_opens = (\<lambda>i. i = 5), dk_rows = (\<lambda>i. Some demo_bundle_world)\<rparr>"

definition demo_renderer :: renderer where
  "demo_renderer = \<lparr>rn_library = plain_library, rn_sha = length, rn_v6 = (\<lambda>_. False),
     rn_settings = \<lparr>sn_enabled = True, sn_rate_limit_seconds = 60, sn_rate_limit_burst = 5, sn_update_interval_hours = 12,
       sn_links = demo_links\<rparr>\<rparr>"

definition demo_fetch :: "string \<Rightarrow> request" where
  "demo_fetch token = \<lparr>rq_bucket = 9, rq_token = token, rq_clock = 100, rq_unix = 1000\<rparr>"

definition demo_endpoint :: endpoint where
  "demo_endpoint = \<lparr>ep_store = demo_store, ep_limiter = new_rate_limiter 10\<rparr>"

definition demo_sub_env :: env where
  "demo_sub_env = \<lparr>ev_admin_ids = [], ev_now = ''1'', ev_audit_ok = True, ev_instant = (\<lambda>_. None)\<rparr>"

lemma demo_served: "resp_status (fst (subscription_handler demo_sub_env demo_renderer demo_bundle_disk (demo_fetch ''0123456789abcdef'') demo_endpoint)) = 200"
  by code_simp

lemma subscription_fail_closed_witness:
  "\<exists>w links. dk_rows demo_bundle_disk 5 = Some w \<and> serves demo_renderer 1000 w ''0123456789abcdef'' links
    \<and> utf8_text (b64decode (resp_body (fst (subscription_handler demo_sub_env demo_renderer demo_bundle_disk
        (demo_fetch ''0123456789abcdef'') demo_endpoint)))) = join newline_text links"
proof -
  have ready: "dk_path demo_bundle_disk = Some 5" "store_ok (ep_store demo_endpoint)" "ks_conn (ep_store demo_endpoint) \<noteq> None"
    and asked: "rq_unix (demo_fetch t) = 1000" "rq_token (demo_fetch t) = t" for t
    by (simp_all add: demo_bundle_disk_def demo_endpoint_def demo_store_def store_ok_def demo_fetch_def)
  from subscription_fail_closed [OF ready refl, of demo_sub_env demo_renderer "demo_fetch ''0123456789abcdef''"] demo_served
  show ?thesis by (simp only: asked) simp
qed

end
