(* ===== verification/Hysteria_Service.thy ===== *)
theory Hysteria_Service
  imports Hy2_Auth Client_Links Relay_Admin Trial_Decisions
begin

text \<open>
  \<open>services/hysteria.py\<close>: Hysteria2 keys are rows only, which the endpoint of \<open>Hy2_Auth\<close> reads at every
  handshake. The host of the service state is the daemon with its sessions, met by \<open>kick\<close> alone. The
  proofs refine the service to a register of granted secrets.
\<close>

section \<open>The service\<close>

record 'h hysteria_service =
  hs_library :: library
  hs_links :: link_settings
  hs_enabled :: bool
  hs_relays :: relay_snapshot
  hs_kick :: "(string \<Rightarrow> ('h, service_error, unit) op) option"

text \<open>What one issue draws: the suffixes of labels, the secret, and whether its two writes commit.\<close>

record issue_inputs =
  hi_module_on :: bool
  hi_suffix :: "nat \<Rightarrow> string"
  hi_secret :: string
  hi_activates :: bool
  hi_marks_failed :: bool

definition hysteria2_revocable :: "vpn_key_status list" where
  "hysteria2_revocable = [KeyActive, KeyPendingApply, KeyApplyFailed]"

definition hysteria2_label :: "string \<Rightarrow> string" where
  "hysteria2_label suffix = ''hy2'' @ ''_'' @ suffix"

definition validate_hysteria2_ready :: "link_settings \<Rightarrow> service_error + unit" where
  "validate_hysteria2_ready st =
     (if ls_hy2_host st = [] \<or> ls_hy2_sni st = [] then Inl (RuntimeFailure ''HYSTERIA2 settings missing'')
      else if \<not> (1 \<le> ls_hy2_port st \<and> ls_hy2_port st \<le> 65535) then Inl (RuntimeFailure ''HYSTERIA2_PORT'')
      else Inr ())"

definition is_hysteria2_ready :: "link_settings \<Rightarrow> bool" where
  "is_hysteria2_ready st \<longleftrightarrow> validate_hysteria2_ready st = Inr ()"

definition ensure_hysteria2_enabled :: "'h hysteria_service \<Rightarrow> issue_inputs \<Rightarrow> ('h, unit) service_op" where
  "ensure_hysteria2_enabled sv hi =
     op_bind (op_guard (hs_enabled sv) (InvalidOperation ''err_hy2_disabled'')) (\<lambda>_.
     op_guard (hi_module_on hi) (InvalidOperation ''err_hy2_disabled''))"

definition hysteria2_payload :: "string \<Rightarrow> string \<Rightarrow> payload" where
  "hysteria2_payload label secret = [(''secret'', JStr secret), (''email_label'', JStr label)]"

definition hysteria2_public_payload :: "string \<Rightarrow> payload" where
  "hysteria2_public_payload label = [(''email_label'', JStr label)]"

definition hysteria2_draft ::
  "telegram_user_profile \<Rightarrow> string option \<Rightarrow> string \<Rightarrow> string \<Rightarrow> int \<Rightarrow> string option \<Rightarrow> string option \<Rightarrow> key_draft" where
  "hysteria2_draft owner note label secret actor expires_at relay =
     \<lparr>kd_owner_user_id = pr_telegram_user_id owner, kd_username = pr_username owner, kd_key_type = HYSTERIA2,
      kd_note = note, kd_payload = hysteria2_payload label secret, kd_public_payload = hysteria2_public_payload label,
      kd_created_by = actor, kd_uuid = None, kd_email_label = Some label, kd_public_key = None, kd_client_ip = None,
      kd_expires_at = expires_at, kd_transport = ''tcp'', kd_xhttp_profile = ''base'',
      kd_spider_x = None, kd_relay = relay\<rparr>"

definition activate_hysteria2 :: "env \<Rightarrow> issue_inputs \<Rightarrow> int \<Rightarrow> int \<Rightarrow> payload \<Rightarrow> payload \<Rightarrow> ('h, unit) service_op" where
  "activate_hysteria2 e hi actor kid p q =
     op_try (if_commits (hi_activates hi) (on_db (mark_active kid (ev_now e) (Some p) (Some q)))) (\<lambda>err.
       op_bind (op_try (if_commits (hi_marks_failed hi) (on_db (set_status kid KeyApplyFailed (ev_now e) None)))
                  (\<lambda>_. op_return ())) (\<lambda>_.
       op_bind (awg_audit e (Some actor) ''hysteria2_apply_failed'' kid) (\<lambda>_.
       op_raise err)))"

text \<open>The link in the text of the key, \<open>None\<close> for the text of a relay that is switched off.\<close>

definition hysteria2_shown :: "'h hysteria_service \<Rightarrow> vpn_key \<Rightarrow> service_error + string" where
  "hysteria2_shown sv k = hysteria2_key_link (hs_library sv) (hs_links sv) (hs_relays sv) SingleStyle k"

definition hysteria2_shown_or_off :: "'h hysteria_service \<Rightarrow> vpn_key \<Rightarrow> service_error + string option" where
  "hysteria2_shown_or_off sv k = (case hysteria2_shown sv k of Inr link \<Rightarrow> Inr (Some link)
     | Inl (RelayUnavailable _) \<Rightarrow> Inr None | Inl err \<Rightarrow> Inl err)"

definition issue_hysteria2 ::
  "env \<Rightarrow> 'h hysteria_service \<Rightarrow> issue_inputs \<Rightarrow> int \<Rightarrow> telegram_user_profile \<Rightarrow> string option \<Rightarrow> string option \<Rightarrow> bool
     \<Rightarrow> string option \<Rightarrow> ('h, vpn_key \<times> string option) service_op" where
  "issue_hysteria2 e sv hi actor owner note expires_at allow_pending relay =
     op_bind (ensure_hysteria2_enabled sv hi) (\<lambda>_.
     op_bind (pure_sum (validate_hysteria2_ready (hs_links sv))) (\<lambda>_.
     op_bind (pure_sum (require_relay_for_issue (hs_relays sv) relay)) (\<lambda>relay.
     op_bind (pure_sum (normalize_note note)) (\<lambda>clean_note.
     op_bind (on_db (ensure_can_create actor (pr_telegram_user_id owner) allow_pending)) (\<lambda>_.
     op_bind (on_db (ensure_can_create actor (pr_telegram_user_id owner) allow_pending)) (\<lambda>_.
     op_bind (unique_label (\<lambda>i. hysteria2_label (hi_suffix hi i)) [0 ..< 5]) (\<lambda>label.
     op_bind (on_db (create_pending (hysteria2_draft owner clean_note label (hi_secret hi) actor expires_at relay) (ev_now e))) (\<lambda>k.
     op_bind (activate_hysteria2 e hi actor (vk_id k) (hysteria2_payload label (hi_secret hi)) (hysteria2_public_payload label)) (\<lambda>_.
     op_bind (awg_audit e (Some actor) ''hysteria2_key_created'' (vk_id k)) (\<lambda>_.
     op_bind (on_db (get_key (vk_id k))) (\<lambda>active_key.
     op_bind (pure_sum (hysteria2_shown_or_off sv active_key)) (\<lambda>link.
     op_return (active_key, link)))))))))))))"

definition on_daemon :: "('h, service_error, unit) op \<Rightarrow> ('h, unit) service_op" where
  "on_daemon m = (\<lambda>s. case m (sv_host s) of (r, h) \<Rightarrow> (r, s\<lparr>sv_host := h\<rparr>))"

definition kick_best_effort :: "'h hysteria_service \<Rightarrow> string option \<Rightarrow> ('h, unit) service_op" where
  "kick_best_effort sv label = (case (hs_kick sv, label) of
       (Some kick, Some l) \<Rightarrow> if l = [] then op_return () else op_try (on_daemon (kick l)) (\<lambda>_. op_return ())
     | _ \<Rightarrow> op_return ())"

definition revoke_hysteria2 :: "env \<Rightarrow> 'h hysteria_service \<Rightarrow> int \<Rightarrow> int \<Rightarrow> ('h, vpn_key) service_op" where
  "revoke_hysteria2 e sv actor kid =
     op_bind (on_db (get_typed_key_for_manage HYSTERIA2 actor kid)) (\<lambda>k.
     if vk_status k \<in> {KeyRevoked, KeyDeleted} then op_return k
     else
     op_bind (op_guard (vk_status k \<in> set hysteria2_revocable) (InvalidOperation ''err_revoke_active_hy2_only'')) (\<lambda>_.
     op_bind (on_db (mark_revoked kid actor (ev_now e))) (\<lambda>_.
     op_bind (kick_best_effort sv (vk_email_label k)) (\<lambda>_.
     op_bind (awg_audit e (Some actor) ''hysteria2_key_revoked'' kid) (\<lambda>_.
     on_db (get_key kid))))))"

definition revoke_hysteria2_key_system ::
  "env \<Rightarrow> 'h hysteria_service \<Rightarrow> int \<Rightarrow> int option \<Rightarrow> string \<Rightarrow> ('h, vpn_key) service_op" where
  "revoke_hysteria2_key_system e sv kid actor action =
     op_bind (on_db (get_key kid)) (\<lambda>k.
     op_bind (op_guard (vk_key_type k = HYSTERIA2) (InvalidOperation ''err_not_hy2_key'')) (\<lambda>_.
     if vk_status k \<in> {KeyRevoked, KeyDeleted} then op_return k
     else
     op_bind (op_guard (vk_status k \<in> set hysteria2_revocable) (InvalidOperation ''err_revoke_active_hy2_only'')) (\<lambda>_.
     op_bind (on_db (mark_revoked kid (case actor of Some a \<Rightarrow> a | None \<Rightarrow> vk_created_by k) (ev_now e))) (\<lambda>_.
     op_bind (kick_best_effort sv (vk_email_label k)) (\<lambda>_.
     op_bind (awg_audit e actor action kid) (\<lambda>_.
     on_db (get_key kid)))))))"

definition delete_hysteria2_key :: "env \<Rightarrow> 'h hysteria_service \<Rightarrow> int \<Rightarrow> int \<Rightarrow> ('h, unit) service_op" where
  "delete_hysteria2_key e sv actor kid =
     op_bind (on_db (get_typed_key_for_manage HYSTERIA2 actor kid)) (\<lambda>k.
     op_bind (on_db (hard_delete_with_stats kid (ev_now e))) (\<lambda>_.
     op_bind (kick_best_effort sv (vk_email_label k)) (\<lambda>_.
     awg_audit e (Some actor) ''hysteria2_key_hard_deleted'' kid)))"

definition get_hysteria2_config :: "env \<Rightarrow> 'h hysteria_service \<Rightarrow> int \<Rightarrow> int \<Rightarrow> ('h, string) service_op" where
  "get_hysteria2_config e sv actor kid =
     op_bind (on_db (get_typed_key_for_manage HYSTERIA2 actor kid)) (\<lambda>k.
     op_bind (active_only k) (\<lambda>_.
     op_bind (awg_audit e (Some actor) ''hysteria2_config_shown'' kid) (\<lambda>_.
     pure_sum (hysteria2_shown sv k))))"

definition list_user_hysteria2_keys :: "int \<Rightarrow> int option \<Rightarrow> int \<Rightarrow> int \<Rightarrow> ('h, vpn_key list) service_op" where
  "list_user_hysteria2_keys actor owner limit offset = on_db (list_user_typed_keys HYSTERIA2 actor owner limit offset)"

section \<open>The register of granted secrets\<close>

definition grant_of :: "vpn_key \<Rightarrow> (int \<times> string \<times> string) option" where
  "grant_of k = (if vk_key_type k = HYSTERIA2 \<and> vk_status k = KeyActive
     then map_option (Pair (vk_id k)) (row_secret (vk_email_label k, Some (JObj (vk_payload k)))) else None)"

definition grants :: "world \<Rightarrow> (int \<times> string \<times> string) set" where
  "grants w = set (List.map_filter grant_of (db_vpn_keys w))"

lemma admits_grants: "admits w token label \<longleftrightarrow> (\<exists>i. (i, label, token) \<in> grants w)"
proof -
  have "grant_of k = Some (i, label, token) \<longleftrightarrow> i = vk_id k \<and> vk_key_type k = HYSTERIA2 \<and> vk_status k = KeyActive
      \<and> vk_email_label k = Some label \<and> json_get (vk_payload k) ''secret'' = JStr token \<and> label \<noteq> [] \<and> token \<noteq> []" for k i
    by (auto simp: grant_of_def row_secret_Some)
  then show ?thesis by (auto simp: admits_def grants_def map_filter_rows)
qed

lemma grants_by_id:
  assumes "keys_ok w"
  shows "(i, g) \<in> grants w \<longleftrightarrow> (\<exists>k. key_get_by_id i w = Some k \<and> grant_of k = Some (i, g))"
proof
  assume "(i, g) \<in> grants w"
  then obtain k where "k \<in> set (db_vpn_keys w)" "grant_of k = Some (i, g)" by (auto simp: grants_def map_filter_rows)
  moreover from this(2) have "vk_id k = i" by (auto simp: grant_of_def split: if_splits)
  ultimately show "\<exists>k. key_get_by_id i w = Some k \<and> grant_of k = Some (i, g)"
    using key_get_unique [OF assms] by metis
next
  assume "\<exists>k. key_get_by_id i w = Some k \<and> grant_of k = Some (i, g)"
  then show "(i, g) \<in> grants w" using key_get_Some by (fastforce simp: grants_def map_filter_rows)
qed


section \<open>The steps of the service\<close>

lemma shown_never_fails: "hysteria2_shown_or_off sv k \<noteq> Inl err"
  by (auto simp: hysteria2_shown_or_off_def hysteria2_shown_def hysteria2_key_link_def key_display_name_def relay_marker_def
      relay_link_host_def sum_bind_def Let_def split: sum.splits option.splits list.splits if_splits service_error.splits)

lemma kick_run: "\<exists>h. kick_best_effort sv l s = (Inr (), s\<lparr>sv_host := h\<rparr>)"
proof -
  have "\<exists>h. s = s\<lparr>sv_host := h\<rparr>" by (rule exI [of _ "sv_host s"]) simp
  then show ?thesis
    by (auto simp: kick_best_effort_def op_try_def on_daemon_def op_return_def split: option.split prod.split sum.split)
qed

lemma key_audit_run: "awg_audit e a b kid s = (Inr (), s\<lparr>sv_db := logged e a b EntityVpnKey (Some kid) 0 (sv_db s)\<rparr>)"
  by (simp add: awg_audit_def on_db_def audit_best_effort_logged)

lemma created_pending:
  assumes "create_pending d now w = (r, w')" "keys_ok w"
  shows "(\<exists>err. r = Inl err) \<and> w' = w
    \<or> r = Inr (new_key_row d now (next_key_id w)) \<and> w' = add_row (new_key_row d now (next_key_id w)) w \<and> keys_ok w'"
proof -
  let ?k = "new_key_row d now (next_key_id w)"
  have "find (has_key_id (next_key_id w)) (db_vpn_keys w @ [?k]) = Some ?k"
    by (simp add: find_append next_id_fresh)
  then have "(\<exists>err. r = Inl err) \<and> w' = w \<or> r = Inr ?k \<and> w' = add_row ?k w"
    using assms(1) by (auto simp: create_pending_def insert_key_def write_keys_def op_simps checked_relay_def add_row_def
        key_get_by_id_def split: if_splits option.splits sum.splits)
  then show ?thesis using keys_ok_add_row [OF assms(2)] assms(1) by auto
qed

lemma try_raise: "op_try (op_raise err) h s = h err s"
  by (simp add: op_try_def op_raise_def)

lemma activated_hysteria2:
  assumes ok: "keys_ok (sv_db s)" "key_get_by_id kid (sv_db s) = Some k" "vk_status k = KeyPendingApply"
    and run: "activate_hysteria2 e hi actor kid p q s = (r, s')"
  shows "keys_ok (sv_db s') \<and> (r = Inr () \<and> sv_db s' = put_row kid (activated (Some p) (Some q) (ev_now e)) (sv_db s)
    \<or> (\<exists>err k'. r = Inl err \<and> key_get_by_id kid (sv_db s') = Some k' \<and> vk_status k' \<noteq> KeyActive)
      \<and> (\<forall>j. j \<noteq> kid \<longrightarrow> key_get_by_id j (sv_db s') = key_get_by_id j (sv_db s)))"
proof (cases "hi_activates hi")
  case True
  have "vk_status k \<in> {KeyPendingApply, KeyApplyFailed}" using ok(3) by simp
  from mark_active_run [OF ok(1,2) this] run True show ?thesis
    by (auto simp: activate_hysteria2_def op_try_def if_commits_def on_db_def)
next
  case False
  have free: "vk_status k \<in> set reserved_statuses \<or> vk_client_ip k = None" using ok(3) by (simp add: reserved_statuses_def)
  obtain w where mark: "op_try (if_commits (hi_marks_failed hi) (on_db (set_status kid KeyApplyFailed (ev_now e) None))) (\<lambda>_. op_return ()) s
      = (Inr (), s\<lparr>sv_db := w\<rparr>)" "w = sv_db s \<or> w = put_row kid (with_status KeyApplyFailed (ev_now e)) (sv_db s)"
    using set_status_reserved(1) [OF ok(1,2) free] that [of "sv_db s"]
      that [of "put_row kid (with_status KeyApplyFailed (ev_now e)) (sv_db s)"]
    by (cases "hi_marks_failed hi") (simp_all add: op_try_def if_commits_def on_db_def op_raise_def op_return_def)
  then have "(\<exists>err. r = Inl err) \<and> s' = s\<lparr>sv_db := logged e (Some actor) ''hysteria2_apply_failed'' EntityVpnKey (Some kid) 0 w\<rparr>"
    using run False mark(1)
    by (auto simp: activate_hysteria2_def try_raise if_commits_def [of False] op_bind_def op_raise_def key_audit_run)
  with mark(2) ok set_status_reserved(2) [OF ok(1,2) free] show ?thesis
    by (auto simp: put_row_get option.map_ident)
qed

lemma grants_change:
  assumes "keys_ok w" "keys_ok w'" "\<forall>j. j \<noteq> kid \<longrightarrow> key_get_by_id j w' = key_get_by_id j w"
  shows "grants w' = {g \<in> grants w. fst g \<noteq> kid}
    \<union> (case key_get_by_id kid w' of None \<Rightarrow> {} | Some k \<Rightarrow> set_option (grant_of k))"
proof -
  have own: "i = vk_id k" if "grant_of k = Some (i, g)" for k i g
    using that by (auto simp: grant_of_def split: if_splits)
  have "(i, g) \<in> grants w' \<longleftrightarrow> (i \<noteq> kid \<and> (i, g) \<in> grants w)
      \<or> (\<exists>k. key_get_by_id kid w' = Some k \<and> grant_of k = Some (i, g))" for i g
  proof (cases "i = kid")
    case True
    then show ?thesis by (simp add: grants_by_id [OF assms(2)])
  next
    case False
    with own key_get_Some [of kid w'] have "\<not> (\<exists>k. key_get_by_id kid w' = Some k \<and> grant_of k = Some (i, g))" by blast
    with False assms(3) show ?thesis unfolding grants_by_id [OF assms(1)] grants_by_id [OF assms(2)] by metis
  qed
  then show ?thesis by (auto split: option.split)
qed


definition only_row :: "int \<Rightarrow> world \<Rightarrow> world \<Rightarrow> bool" where
  "only_row kid w w' \<longleftrightarrow> keys_ok w' \<and> (\<forall>j. j \<noteq> kid \<longrightarrow> key_get_by_id j w' = key_get_by_id j w)"

text \<open>What each operation leaves: the row it is about, and no other row changed.\<close>

definition fresh_key :: "string option \<Rightarrow> string option \<Rightarrow> vpn_key \<Rightarrow> bool" where
  "fresh_key x relay k \<longleftrightarrow> vk_bundle_id k = None \<and> vk_expires_at k = x \<and> (relay \<noteq> Some [] \<longrightarrow> vk_relay k = relay)"

definition issued ::
  "issue_inputs \<Rightarrow> string option \<Rightarrow> string option \<Rightarrow> 'h service_state \<Rightarrow> service_error + vpn_key \<times> string option \<Rightarrow> 'h service_state \<Rightarrow> bool" where
  "issued hi x relay s r s' \<longleftrightarrow> (case r of
     Inr (k, _) \<Rightarrow> only_row (vk_id k) (sv_db s) (sv_db s') \<and> key_get_by_id (vk_id k) (sv_db s) = None
       \<and> key_get_by_id (vk_id k) (sv_db s') = Some k \<and> fresh_key x relay k
       \<and> (\<exists>l. vk_email_label k = Some l \<and> l \<noteq> [] \<and> grant_of k = Some (vk_id k, l, hi_secret hi))
   | Inl _ \<Rightarrow> \<exists>kid. only_row kid (sv_db s) (sv_db s') \<and> key_get_by_id kid (sv_db s) = None
       \<and> (\<forall>k. key_get_by_id kid (sv_db s') = Some k \<longrightarrow> vk_status k \<noteq> KeyActive))"

lemma label_drawn: "unique_label gen is s = (Inr l, s') \<Longrightarrow> \<exists>i. l = gen i"
  by (induction gen "is" arbitrary: s rule: unique_label.induct) (auto simp: op_bind_Inr op_raise_def op_return_def split: if_splits)

lemma gate_hysteria2_enabled [simp]: "gate (ensure_hysteria2_enabled sv hi)"
  by (auto simp: ensure_hysteria2_enabled_def intro!: gate_bindI)

lemma after_pending:
  assumes ok: "keys_ok (sv_db s)" "hi_secret hi \<noteq> []" "label \<noteq> []" "relay \<noteq> Some [] \<longrightarrow> named = relay"
    and run: "op_bind (on_db (create_pending (hysteria2_draft owner note label (hi_secret hi) actor x named) (ev_now e))) (\<lambda>k.
     op_bind (activate_hysteria2 e hi actor (vk_id k) (hysteria2_payload label (hi_secret hi)) (hysteria2_public_payload label)) (\<lambda>_.
     op_bind (awg_audit e (Some actor) ''hysteria2_key_created'' (vk_id k)) (\<lambda>_.
     op_bind (on_db (get_key (vk_id k))) (\<lambda>active_key.
     op_bind (pure_sum (hysteria2_shown_or_off sv active_key)) (\<lambda>link.
     op_return (active_key, link)))))) s = (r, s')"
  shows "issued hi x relay s r s'"
proof -
  let ?d = "hysteria2_draft owner note label (hi_secret hi) actor x named"
  let ?kid = "next_key_id (sv_db s)"
  let ?k = "new_key_row ?d (ev_now e) ?kid"
  obtain q w where made: "create_pending ?d (ev_now e) (sv_db s) = (q, w)" by force
  have fresh: "key_get_by_id ?kid (sv_db s) = None" using next_id_fresh by (simp add: key_get_by_id_def)
  from created_pending [OF made ok(1)] show ?thesis
  proof (elim disjE conjE exE)
    fix err assume "q = Inl err" "w = sv_db s"
    with made run have "r = Inl err" "s' = s" by (simp_all add: bind_on_db_failed)
    with fresh ok(1) show ?thesis by (auto simp: issued_def only_row_def)
  next
    assume q: "q = Inr ?k" and w: "w = add_row ?k (sv_db s)" "keys_ok w"
    let ?s1 = "s\<lparr>sv_db := w\<rparr>"
    have rows: "key_get_by_id j w = (if j = ?kid then Some ?k else key_get_by_id j (sv_db s))" for j
      by (simp add: w(1) add_row_get)
    obtain q2 s2 where act: "activate_hysteria2 e hi actor ?kid (hysteria2_payload label (hi_secret hi)) (hysteria2_public_payload label) ?s1 = (q2, s2)"
      by force
    have "keys_ok (sv_db ?s1)" "key_get_by_id ?kid (sv_db ?s1) = Some ?k" "vk_status ?k = KeyPendingApply" using w(2) rows by simp_all
    note active = activated_hysteria2 [OF this act]
    have rest: "op_bind (activate_hysteria2 e hi actor ?kid (hysteria2_payload label (hi_secret hi)) (hysteria2_public_payload label)) (\<lambda>_.
       op_bind (awg_audit e (Some actor) ''hysteria2_key_created'' ?kid) (\<lambda>_.
       op_bind (on_db (get_key ?kid)) (\<lambda>active_key.
       op_bind (pure_sum (hysteria2_shown_or_off sv active_key)) (\<lambda>link. op_return (active_key, link))))) ?s1 = (r, s')"
      using run made q by (simp add: bind_on_db)
    show ?thesis
    proof (cases q2)
      case (Inl err)
      with rest act have "r = Inl err" "s' = s2" by (simp_all add: op_bind_def)
      with active Inl rows fresh show ?thesis by (auto simp: issued_def only_row_def)
    next
      case (Inr u)
      let ?a = "activated (Some (hysteria2_payload label (hi_secret hi))) (Some (hysteria2_public_payload label)) (ev_now e) ?k"
      have s2: "sv_db s2 = put_row ?kid (activated (Some (hysteria2_payload label (hi_secret hi))) (Some (hysteria2_public_payload label)) (ev_now e)) w"
        "keys_ok (sv_db s2)" using active Inr by auto
      then have rows2: "key_get_by_id j (sv_db s2) = (if j = ?kid then Some ?a else key_get_by_id j (sv_db s))" for j
        using rows by (auto simp: put_row_get option.map_ident)
      obtain link where link: "hysteria2_shown_or_off sv ?a = Inr link"
        using shown_never_fails [of sv ?a] by (cases "hysteria2_shown_or_off sv ?a") auto
      have "r = Inr (?a, link) \<and> s' = s2\<lparr>sv_db := logged e (Some actor) ''hysteria2_key_created'' EntityVpnKey (Some ?kid) 0 (sv_db s2)\<rparr>"
        using rest act Inr link rows2 by (auto simp: op_bind_def key_audit_run on_db_def get_key_def op_simps pure_sum_def)
      moreover have "grant_of ?a = Some (?kid, label, hi_secret hi)" "vk_email_label ?a = Some label"
        using ok(2,3) by (simp_all add: grant_of_def row_secret_def activated_def set_payloads_def with_status_def new_key_row_def
            hysteria2_draft_def hysteria2_payload_def json_get_def)
      moreover have "fresh_key x relay ?a"
        using ok(4) by (simp add: fresh_key_def activated_def set_payloads_def with_status_def new_key_row_def hysteria2_draft_def)
      ultimately show ?thesis using s2(2) fresh ok(3) rows2 by (auto simp: issued_def only_row_def)
    qed
  qed
qed

lemma hysteria2_issue_run:
  assumes "keys_ok (sv_db s)" "hi_secret hi \<noteq> []" "issue_hysteria2 e sv hi actor owner note x allow relay s = (r, s')"
  shows "issued hi x relay s r s'"
proof -
  have stopped: "issued hi x relay s (Inl err) s" for err
    using assms(1) next_id_fresh by (auto simp: issued_def only_row_def key_get_by_id_def intro: exI [of _ "next_key_id (sv_db s)"])
  note through = through_gates [where Q = "issued hi x relay s"] through_gate [OF _ gate_hysteria2_enabled, where Q = "issued hi x relay s"]
    through_gate [OF _ gate_pure_sum, where Q = "issued hi x relay s"] through_gate [OF _ gate_unique_label, where Q = "issued hi x relay s"]
  from assms(3) show ?thesis unfolding issue_hysteria2_def
  proof (elim through, simp_all add: stopped)
    fix relay' clean label
    assume drawn: "unique_label (\<lambda>i. hysteria2_label (hi_suffix hi i)) [0..<5] s = (Inr label, s)"
      and rest: "op_bind (on_db (create_pending (hysteria2_draft owner clean label (hi_secret hi) actor x relay') (ev_now e))) (\<lambda>k.
     op_bind (activate_hysteria2 e hi actor (vk_id k) (hysteria2_payload label (hi_secret hi)) (hysteria2_public_payload label)) (\<lambda>_.
     op_bind (awg_audit e (Some actor) ''hysteria2_key_created'' (vk_id k)) (\<lambda>_.
     op_bind (on_db (get_key (vk_id k))) (\<lambda>active_key.
     op_bind (pure_sum (hysteria2_shown_or_off sv active_key)) (\<lambda>link.
     op_return (active_key, link)))))) s = (r, s')"
      and usable: "pure_sum (require_relay_for_issue (hs_relays sv) relay) s = (Inr relay', s)"
    have "label \<noteq> []" using drawn label_drawn by (fastforce simp: hysteria2_label_def)
    moreover have "relay \<noteq> Some [] \<longrightarrow> relay' = relay"
      using usable by (auto simp: require_relay_for_issue_def pure_sum_def split: option.splits if_splits)
    ultimately show ?thesis using after_pending [OF assms(1,2) _ _ rest] by blast
  qed
qed


lemma only_row_refl: "keys_ok w \<Longrightarrow> only_row kid w w"
  by (simp add: only_row_def)

text \<open>The part the two revocations share.\<close>

lemma revoke_row_run:
  assumes "keys_ok (sv_db s)" "key_get_by_id kid (sv_db s) = Some k" "\<not> terminal k"
  shows "\<exists>k' s'. op_bind (on_db (mark_revoked kid actor (ev_now e))) (\<lambda>_. op_bind (kick_best_effort sv l) (\<lambda>_.
      op_bind (awg_audit e a action kid) (\<lambda>_. on_db (get_key kid)))) s = (Inr k', s')
    \<and> only_row kid (sv_db s) (sv_db s') \<and> key_get_by_id kid (sv_db s') = Some k' \<and> vk_status k' = KeyRevoked"
proof -
  obtain w where w: "mark_revoked kid actor (ev_now e) (sv_db s) = (Inr (), w)" "keys_ok w"
    "key_get_by_id kid w = Some (revoked_row actor (ev_now e) k)" "\<forall>j. j \<noteq> kid \<longrightarrow> key_get_by_id j w = key_get_by_id j (sv_db s)"
    using mark_revoked_effect [OF assms(1,2), of actor "ev_now e"] assms(3) by auto
  obtain h where "kick_best_effort sv l (s\<lparr>sv_db := w\<rparr>) = (Inr (), s\<lparr>sv_db := w, sv_host := h\<rparr>)"
    using kick_run [of sv l "s\<lparr>sv_db := w\<rparr>"] by auto
  then show ?thesis
    using w by (simp add: bind_on_db op_bind_def [of "kick_best_effort sv l"] op_bind_def [of "awg_audit e a action kid"] key_audit_run)
      (simp add: on_db_def get_key_def op_simps only_row_def revoked_row_def)
qed

lemma revoke_row_over:
  assumes "keys_ok (sv_db s)" "key_get_by_id kid (sv_db s) = Some k" "\<not> terminal k"
    "op_bind (on_db (mark_revoked kid actor (ev_now e))) (\<lambda>_. op_bind (kick_best_effort sv l) (\<lambda>_.
      op_bind (awg_audit e a action kid) (\<lambda>_. on_db (get_key kid)))) s = (r, s')"
  shows "\<exists>k'. key_get_by_id kid (sv_db s') = Some k' \<and> (vk_status k' = KeyRevoked \<or> vk_status k' = KeyDeleted)"
  using revoke_row_run [OF assms(1-3), of actor e sv l a action] assms(4) by auto

definition dropped :: "int \<Rightarrow> 'h service_state \<Rightarrow> service_error + 'a \<Rightarrow> 'h service_state \<Rightarrow> bool" where
  "dropped kid s r s' \<longleftrightarrow> (case r of
     Inr _ \<Rightarrow> only_row kid (sv_db s) (sv_db s') \<and> (\<forall>k. key_get_by_id kid (sv_db s') = Some k \<longrightarrow> vk_status k \<noteq> KeyActive)
   | Inl _ \<Rightarrow> s' = s)"

lemma dropped_simps [simp]: "dropped kid s (Inl err) s"
  by (simp add: dropped_def)

lemma revoke_tail_dropped:
  assumes "keys_ok (sv_db s)" "key_get_by_id kid (sv_db s) = Some k"
    and run: "(if vk_status k = KeyRevoked \<or> vk_status k = KeyDeleted then op_return k else
      op_bind (op_guard (vk_status k \<in> set hysteria2_revocable) err) (\<lambda>_.
      op_bind (on_db (mark_revoked kid actor (ev_now e))) (\<lambda>_. op_bind (kick_best_effort sv l) (\<lambda>_.
      op_bind (awg_audit e a action kid) (\<lambda>_. on_db (get_key kid)))))) s = (r, s')"
  shows "dropped kid s r s'"
proof (cases "terminal k")
  case True
  with run assms(1,2) show ?thesis by (auto simp: terminal_def op_return_def dropped_def only_row_refl)
next
  case False
  with revoke_row_run [OF assms(1,2) False, where actor = actor and e = e and sv = sv and l = l and a = a and action = action] run
  show ?thesis
    by (cases "vk_status k \<in> set hysteria2_revocable")
      (auto simp: terminal_def bind_guard dropped_def op_bind_def [of "op_guard False err"] op_guard_def)
qed

lemma revoke_dropped: "keys_ok (sv_db s) \<Longrightarrow> revoke_hysteria2 e sv actor kid s = (r, s') \<Longrightarrow> dropped kid s r s'"
  unfolding revoke_hysteria2_def
  by (elim through_gates [where Q = "dropped kid s"]) (auto dest: get_typed_key_ok(2) simp: on_db_Inr intro: revoke_tail_dropped)

lemma revoke_system_dropped:
  "keys_ok (sv_db s) \<Longrightarrow> revoke_hysteria2_key_system e sv kid actor action s = (r, s') \<Longrightarrow> dropped kid s r s'"
  unfolding revoke_hysteria2_key_system_def
  by (elim through_gates [where Q = "dropped kid s"]) (auto simp: on_db_Inr get_key_run intro: revoke_tail_dropped)

lemma find_other_row: "find (has_key_id j) (filter (\<lambda>k. vk_id k \<noteq> kid) xs) = (if j = kid then None else find (has_key_id j) xs)"
  by (induction xs) auto

lemma hard_delete_row:
  assumes "keys_ok w"
  shows "only_row kid w (snd (hard_delete_with_stats kid now w)) \<and> key_get_by_id kid (snd (hard_delete_with_stats kid now w)) = None"
proof -
  have "keys_ok (snd (hard_delete_with_stats kid now w))"
    using assms keys_unique_filter [of "db_vpn_keys w" "\<lambda>k. vk_id k \<noteq> kid"]
    by (auto simp: hard_delete_run keys_ok_def key_seq_def max_key_id_def le_max_ids split: option.splits)
  then show ?thesis by (simp add: only_row_def hard_delete_run key_get_by_id_def find_other_row)
qed

lemma delete_dropped:
  assumes "keys_ok (sv_db s)" "delete_hysteria2_key e sv actor kid s = (r, s')"
  shows "dropped kid s r s'"
proof -
  let ?w = "snd (hard_delete_with_stats kid (ev_now e) (sv_db s))"
  have w: "hard_delete_with_stats kid (ev_now e) (sv_db s) = (Inr (), ?w)" by (simp add: hard_delete_run)
  note rows = hard_delete_row [OF assms(1), of kid "ev_now e"]
  have kick: "\<exists>h. kick_best_effort sv l (s\<lparr>sv_db := ?w\<rparr>) = (Inr (), s\<lparr>sv_db := ?w, sv_host := h\<rparr>)" for l
    using kick_run [of sv l "s\<lparr>sv_db := ?w\<rparr>"] by simp
  have "dropped kid s r s'" if run: "op_bind (on_db (hard_delete_with_stats kid (ev_now e))) (\<lambda>_.
     op_bind (kick_best_effort sv l) (\<lambda>_. awg_audit e (Some actor) ''hysteria2_key_hard_deleted'' kid)) s = (r, s')" for l
    using kick [of l] run rows
    by (auto simp: bind_on_db [where m = "hard_delete_with_stats kid (ev_now e)" and s = s, OF w] op_bind_def [of "kick_best_effort sv l"] key_audit_run dropped_def only_row_def)
  with assms(2) show ?thesis unfolding delete_hysteria2_key_def
    by (elim through_gates [where Q = "dropped kid s"]) simp_all
qed

section \<open>Refinement of the register\<close>

datatype hysteria2_call =
    IssueKey issue_inputs int telegram_user_profile "string option" "string option" bool "string option"
  | RevokeKey int int
  | RevokeKeySystem int "int option" string
  | DeleteKey int int
  | ShowKey int int

fun hysteria2_call_run :: "env \<Rightarrow> 'h hysteria_service \<Rightarrow> hysteria2_call \<Rightarrow> ('h, vpn_key option) service_op" where
  "hysteria2_call_run e sv (IssueKey hi actor owner note x allow relay) =
     op_bind (issue_hysteria2 e sv hi actor owner note x allow relay) (\<lambda>result. op_return (Some (fst result)))"
| "hysteria2_call_run e sv (RevokeKey actor kid) = op_bind (revoke_hysteria2 e sv actor kid) (\<lambda>k. op_return (Some k))"
| "hysteria2_call_run e sv (RevokeKeySystem kid actor action) =
     op_bind (revoke_hysteria2_key_system e sv kid actor action) (\<lambda>k. op_return (Some k))"
| "hysteria2_call_run e sv (DeleteKey actor kid) = op_bind (delete_hysteria2_key e sv actor kid) (\<lambda>_. op_return None)"
| "hysteria2_call_run e sv (ShowKey actor kid) = op_bind (get_hysteria2_config e sv actor kid) (\<lambda>_. op_return None)"

text \<open>The register: who holds which secret, under which label.\<close>

type_synonym grant_register = "(int \<times> string \<times> string) set"

fun register_after :: "hysteria2_call \<Rightarrow> service_error + vpn_key option \<Rightarrow> grant_register \<Rightarrow> grant_register" where
  "register_after (IssueKey hi actor owner note x allow relay) (Inr (Some k)) G =
     G \<union> {(vk_id k, label, hi_secret hi) | label. vk_email_label k = Some label}"
| "register_after (RevokeKey actor kid) (Inr _) G = {g \<in> G. fst g \<noteq> kid}"
| "register_after (RevokeKeySystem kid actor action) (Inr _) G = {g \<in> G. fst g \<noteq> kid}"
| "register_after (DeleteKey actor kid) (Inr _) G = {g \<in> G. fst g \<noteq> kid}"
| "register_after _ _ G = G"

fun call_ok :: "hysteria2_call \<Rightarrow> bool" where
  "call_ok (IssueKey hi actor owner note x allow relay) \<longleftrightarrow> hi_secret hi \<noteq> []"
| "call_ok _ \<longleftrightarrow> True"

lemma absent_grants: "keys_ok w \<Longrightarrow> key_get_by_id kid w = None \<Longrightarrow> {g \<in> grants w. fst g \<noteq> kid} = grants w"
  using grants_by_id by fastforce

lemma inactive_grant: "vk_status k \<noteq> KeyActive \<Longrightarrow> grant_of k = None"
  by (simp add: grant_of_def)

lemma issued_grants:
  assumes "keys_ok (sv_db s)" "issued hi x relay s r s'"
  shows "keys_ok (sv_db s') \<and> grants (sv_db s') = (case r of Inl _ \<Rightarrow> grants (sv_db s)
    | Inr (k, _) \<Rightarrow> grants (sv_db s) \<union> {(vk_id k, label, hi_secret hi) | label. vk_email_label k = Some label})"
proof (cases r)
  case (Inl err)
  with assms(2) obtain kid where kid: "only_row kid (sv_db s) (sv_db s')" "key_get_by_id kid (sv_db s) = None"
    "\<forall>k. key_get_by_id kid (sv_db s') = Some k \<longrightarrow> vk_status k \<noteq> KeyActive" by (auto simp: issued_def)
  then have ok: "keys_ok (sv_db s')" and others: "\<forall>j. j \<noteq> kid \<longrightarrow> key_get_by_id j (sv_db s') = key_get_by_id j (sv_db s)"
    by (auto simp: only_row_def)
  show ?thesis
    using grants_change [OF assms(1) ok others] absent_grants [OF assms(1) kid(2)] kid(3) ok Inl
    by (auto simp: inactive_grant split: option.splits)
next
  case (Inr y)
  obtain k link where y: "y = (k, link)" by force
  with Inr assms(2) obtain l where k: "only_row (vk_id k) (sv_db s) (sv_db s')" "key_get_by_id (vk_id k) (sv_db s) = None"
    "key_get_by_id (vk_id k) (sv_db s') = Some k" "vk_email_label k = Some l" "grant_of k = Some (vk_id k, l, hi_secret hi)"
    by (auto simp: issued_def)
  then have ok: "keys_ok (sv_db s')" and others: "\<forall>j. j \<noteq> vk_id k \<longrightarrow> key_get_by_id j (sv_db s') = key_get_by_id j (sv_db s)"
    by (auto simp: only_row_def)
  show ?thesis
    using grants_change [OF assms(1) ok others] absent_grants [OF assms(1) k(2)] k(3-5) ok Inr y by auto
qed

lemma dropped_grants:
  assumes "keys_ok (sv_db s)" "dropped kid s r s'"
  shows "keys_ok (sv_db s') \<and> grants (sv_db s') = (case r of Inl _ \<Rightarrow> grants (sv_db s) | Inr _ \<Rightarrow> {g \<in> grants (sv_db s). fst g \<noteq> kid})"
proof (cases r)
  case (Inl err)
  with assms show ?thesis by (simp add: dropped_def)
next
  case (Inr x)
  with assms(2) have ok: "keys_ok (sv_db s')" and others: "\<forall>j. j \<noteq> kid \<longrightarrow> key_get_by_id j (sv_db s') = key_get_by_id j (sv_db s)"
    and over: "\<forall>k. key_get_by_id kid (sv_db s') = Some k \<longrightarrow> vk_status k \<noteq> KeyActive"
    by (auto simp: dropped_def only_row_def)
  show ?thesis using grants_change [OF assms(1) ok others] over ok Inr by (auto simp: inactive_grant split: option.splits)
qed

lemma shown_grants:
  fixes s :: "'h service_state"
  assumes "get_hysteria2_config e sv actor kid s = (r, s')" "keys_ok (sv_db s)"
  shows "keys_ok (sv_db s') \<and> grants (sv_db s') = grants (sv_db s)"
proof -
  define same where "same = (\<lambda>(r :: service_error + string) (t :: 'h service_state). keys_ok (sv_db t) \<and> grants (sv_db t) = grants (sv_db s))"
  have stopped: "same q s" for q using assms(2) by (simp add: same_def)
  have "same r s'" using assms(1) unfolding get_hysteria2_config_def active_only_def
    by (elim through_gates [where Q = same])
      (use assms(2) in \<open>auto simp: stopped, auto simp: same_def op_bind_def key_audit_run pure_sum_def grants_def\<close>)
  then show ?thesis by (simp add: same_def)
qed


lemma mapped_run: "op_bind m (\<lambda>x. op_return (f x)) s = (r, s')
    \<longleftrightarrow> (\<exists>q. m s = (q, s') \<and> r = (case q of Inl err \<Rightarrow> Inl err | Inr x \<Rightarrow> Inr (f x)))"
  by (auto simp: op_bind_def op_return_def split: prod.splits sum.splits)

lemma call_refines:
  assumes "keys_ok (sv_db s)" "call_ok c" "hysteria2_call_run e sv c s = (r, s')"
  shows "keys_ok (sv_db s') \<and> grants (sv_db s') = register_after c r (grants (sv_db s))"
proof (cases c)
  case (IssueKey hi actor owner memo x allow relay)
  with assms(3) obtain q where run: "issue_hysteria2 e sv hi actor owner memo x allow relay s = (q, s')"
    and r: "r = (case q of Inl err \<Rightarrow> Inl err | Inr y \<Rightarrow> Inr (Some (fst y)))" by (auto simp: mapped_run)
  from IssueKey assms(2) have "hi_secret hi \<noteq> []" by simp
  from issued_grants [OF assms(1) hysteria2_issue_run [OF assms(1) this run]] r IssueKey show ?thesis
    by (cases q) (simp_all add: split_beta)
next
  case (RevokeKey actor kid)
  with assms(3) obtain q where run: "revoke_hysteria2 e sv actor kid s = (q, s')"
    and r: "r = (case q of Inl err \<Rightarrow> Inl err | Inr k \<Rightarrow> Inr (Some k))" by (auto simp: mapped_run)
  from dropped_grants [OF assms(1) revoke_dropped [OF assms(1) run]] r RevokeKey show ?thesis by (cases q) simp_all
next
  case (RevokeKeySystem kid actor action)
  with assms(3) obtain q where run: "revoke_hysteria2_key_system e sv kid actor action s = (q, s')"
    and r: "r = (case q of Inl err \<Rightarrow> Inl err | Inr k \<Rightarrow> Inr (Some k))" by (auto simp: mapped_run)
  from dropped_grants [OF assms(1) revoke_system_dropped [OF assms(1) run]] r RevokeKeySystem show ?thesis by (cases q) simp_all
next
  case (DeleteKey actor kid)
  with assms(3) obtain q where run: "delete_hysteria2_key e sv actor kid s = (q, s')"
    and r: "r = (case q of Inl err \<Rightarrow> Inl err | Inr u \<Rightarrow> Inr None)" by (auto simp: mapped_run)
  from dropped_grants [OF assms(1) delete_dropped [OF assms(1) run]] r DeleteKey show ?thesis by (cases q) simp_all
next
  case (ShowKey actor kid)
  with assms(3) obtain q where run: "get_hysteria2_config e sv actor kid s = (q, s')" by (auto simp: mapped_run)
  from shown_grants [OF run assms(1)] ShowKey show ?thesis by simp
qed

fun hysteria2_history ::
  "'h hysteria_service \<Rightarrow> (env \<times> hysteria2_call) list \<Rightarrow> 'h service_state \<Rightarrow> (service_error + vpn_key option) list \<times> 'h service_state" where
  "hysteria2_history sv [] s = ([], s)"
| "hysteria2_history sv ((e, c) # cs) s = (case hysteria2_call_run e sv c s of (r, t) \<Rightarrow>
     (case hysteria2_history sv cs t of (rs, u) \<Rightarrow> (r # rs, u)))"

definition register_history ::
  "(env \<times> hysteria2_call) list \<Rightarrow> (service_error + vpn_key option) list \<Rightarrow> grant_register \<Rightarrow> grant_register" where
  "register_history cs rs = fold (\<lambda>((_, c), r). register_after c r) (zip cs rs)"

lemma history_refines:
  "keys_ok (sv_db s) \<Longrightarrow> list_all (\<lambda>(_, c). call_ok c) cs \<Longrightarrow> hysteria2_history sv cs s = (rs, s')
    \<Longrightarrow> keys_ok (sv_db s') \<and> grants (sv_db s') = register_history cs rs (grants (sv_db s))"
proof (induction cs arbitrary: s rs)
  case Nil
  then show ?case by (simp add: register_history_def)
next
  case (Cons x cs)
  obtain e c where x: "x = (e, c)" by force
  obtain r t where step: "hysteria2_call_run e sv c s = (r, t)" by force
  obtain rs' where rest: "hysteria2_history sv cs t = (rs', s')" "rs = r # rs'"
    using Cons.prems(3) step x by (auto split: prod.splits)
  from Cons.prems(2) x have "call_ok c" by simp
  from call_refines [OF Cons.prems(1) this step] have "keys_ok (sv_db t)" "grants (sv_db t) = register_after c r (grants (sv_db s))" by auto
  with Cons.IH [OF this(1) _ rest(1)] Cons.prems(2) rest(2) x show ?case by (simp add: register_history_def)
qed

lemma handshake_refused:
  assumes "dk_path d = Some i" "store_ok st" "ks_conn st \<noteq> None" "dk_opens d i \<or> ks_file_id st = Some i" "dk_rows d i = Some w"
  shows "fst (auth_handler body d st) = AuthNo \<longleftrightarrow> (\<forall>token. auth_token body = Some token \<longrightarrow> (\<nexists>l. admits w token l))"
proof (cases "auth_token body")
  case None
  then show ?thesis by (simp add: handler_run)
next
  case (Some token)
  obtain r st' where r: "fetch_active_secrets d st = (r, st')" by force
  from fetched [OF r assms(2,1)] assms(3-5) have "r = Inr (List.map_filter row_secret (active_secret_rows w))" by (auto split: if_splits)
  with Some r none_admits [of token w] show ?thesis by (auto simp: handler_run split: option.split)
qed

text \<open>
  C36: over any run of issues, revocations, deletions and readings, whichever of them fail, the keys the endpoint
  lets in are exactly those of the register: an issue that returns adds its secret under its label, a revocation or
  deletion that returns withdraws the secret of its key, and a call that raises changes nothing; and a handshake
  on the database of that moment is refused exactly when the register does not hold its token.
\<close>

theorem hysteria2_refines_register:
  assumes "keys_ok (sv_db s)" "list_all (\<lambda>(_, c). call_ok c) cs" "hysteria2_history sv cs s = (rs, s')"
    "dk_path d = Some i" "store_ok st" "ks_conn st \<noteq> None" "dk_opens d i \<or> ks_file_id st = Some i" "dk_rows d i = Some (sv_db s')"
  shows "grants (sv_db s') = register_history cs rs (grants (sv_db s))
    \<and> (fst (auth_handler body d st) = AuthNo \<longleftrightarrow> (\<forall>token. auth_token body = Some token
        \<longrightarrow> token \<notin> (snd \<circ> snd) ` register_history cs rs (grants (sv_db s))))"
proof -
  have register: "grants (sv_db s') = register_history cs rs (grants (sv_db s))" using history_refines [OF assms(1-3)] by blast
  have "(\<nexists>l. admits (sv_db s') token l) \<longleftrightarrow> token \<notin> (snd \<circ> snd) ` grants (sv_db s')" for token
    by (force simp: admits_grants)
  with handshake_refused [OF assms(4-8), of body] register show ?thesis by simp
qed

section \<open>The service where the other components call it\<close>

lemma kick_kept: "kick_best_effort sv l s = (r, t) \<Longrightarrow> sv_db t = sv_db s"
  using kick_run [of sv l s] by auto

lemma kick_snd: "\<exists>h. snd (kick_best_effort sv l s) = s\<lparr>sv_host := h\<rparr>"
  using kick_run [of sv l s] by auto

lemma kick_steps [simp]:
  "steps_in key_effect (kick_best_effort sv l)" "steps_in only_drops (kick_best_effort sv l)" "steps_in quiet (kick_best_effort sv l)"
proof -
  have "key_effect s (snd (kick_best_effort sv l s)) \<and> only_drops s (snd (kick_best_effort sv l s)) \<and> quiet s (snd (kick_best_effort sv l s))" for s
    using kick_snd [of sv l s] by (auto simp: key_effect_def key_ids_def only_drops_def quiet_def trial_tables_def)
  then show "steps_in key_effect (kick_best_effort sv l)" "steps_in only_drops (kick_best_effort sv l)" "steps_in quiet (kick_best_effort sv l)"
    by (simp_all add: steps_in_def)
qed

lemma hysteria2_steps:
  "steps_in key_effect (revoke_hysteria2_key_system e sv kid actor action)" "steps_in only_drops (delete_hysteria2_key e sv owner_id kid)"
  "steps_in quiet (revoke_hysteria2_key_system e sv kid actor action)" "steps_in quiet (issue_hysteria2 e sv hi owner_id owner note x allow relay)"
proof -
  show "steps_in key_effect (revoke_hysteria2_key_system e sv kid actor action)" unfolding revoke_hysteria2_key_system_def awg_audit_def
    by (auto intro!: steps_bind steps_try effects_rel)
  show "steps_in only_drops (delete_hysteria2_key e sv owner_id kid)" unfolding delete_hysteria2_key_def
    by (auto intro!: drops_steps)
  show "steps_in quiet (revoke_hysteria2_key_system e sv kid actor action)" unfolding revoke_hysteria2_key_system_def
    by (auto intro!: quiet_steps)
  show "steps_in quiet (issue_hysteria2 e sv hi owner_id owner note x allow relay)" unfolding issue_hysteria2_def activate_hysteria2_def
    by (auto intro!: quiet_steps split: prod.split)
qed

interpretation hysteria2_blocking: key_revokers
  "[(HYSTERIA2, \<lambda>actor kid. revoke_hysteria2_key_system e sv kid (Some actor) ''hysteria2_key_revoked'')]" for e sv
  by unfold_locales (auto simp: hysteria2_steps(1) [unfolded steps_in_def, rule_format] split: if_splits)

definition hysteria2_key_deleters :: "env \<Rightarrow> 'h hysteria_service \<Rightarrow> 'h key_deleters" where
  "hysteria2_key_deleters e sv = (\<lambda>t. if t = HYSTERIA2 then Some (delete_hysteria2_key e sv) else None)"

lemma hysteria2_delete_gone: "delete_hysteria2_key e sv actor kid s = (Inr (), s') \<Longrightarrow> key_get_by_id kid (sv_db s') = None"
  unfolding delete_hysteria2_key_def
  by (auto simp: op_bind_Inr on_db_Inr hard_delete_run key_audit_run key_get_by_id_def find_other_row dest!: kick_kept)


interpretation hysteria2_deleters: relay_deleters "hysteria2_key_deleters e sv" for e sv
  by unfold_locales
    (auto simp: hysteria2_key_deleters_def hysteria2_steps(2) [unfolded steps_in_def, rule_format] hysteria2_delete_gone split: if_splits)

definition hysteria2_trials :: "env \<Rightarrow> 'h hysteria_service \<Rightarrow> issue_inputs \<Rightarrow> 'h trial_services" where
  "hysteria2_trials e sv hi =
     \<lparr>tv_create = (\<lambda>t actor p x.
        if t = HYSTERIA2 then op_bind (issue_hysteria2 e sv hi actor p None (Some x) True None) (\<lambda>result. op_return (fst result))
        else op_raise (RuntimeFailure ''service not wired'')),
      tv_revoke = (\<lambda>t kid actor.
        if t = HYSTERIA2 then op_bind (revoke_hysteria2_key_system e sv kid (Some actor) ''hysteria2_key_revoked'') (\<lambda>_. op_return ())
        else op_raise (RuntimeFailure ''service not wired''))\<rparr>"

lemma hysteria2_trials_quiet:
  "steps_in quiet (tv_create (hysteria2_trials e sv hi) t actor p x)" "steps_in quiet (tv_revoke (hysteria2_trials e sv hi) t kid actor)"
  by (auto simp: hysteria2_trials_def intro!: quiet_steps hysteria2_steps)

lemma hysteria2_create_active:
  assumes "keys_ok (sv_db s)" "issue_hysteria2 e sv hi actor owner note x allow relay s = (Inr (k, link), s')" "hi_secret hi \<noteq> []"
  shows "keys_ok (sv_db s') \<and> key_get_by_id (vk_id k) (sv_db s) = None \<and> key_get_by_id (vk_id k) (sv_db s') = Some k \<and> vk_status k = KeyActive"
  using hysteria2_issue_run [OF assms(1,3,2)] by (auto simp: issued_def only_row_def grant_of_def split: if_splits)

lemma hysteria2_revoke_over:
  fixes s s' :: "'h service_state"
  assumes "keys_ok (sv_db s)" "key_get_by_id kid (sv_db s) = Some k"
    "revoke_hysteria2_key_system e sv kid actor action s = (Inr k', s')"
  shows "\<exists>k'. key_get_by_id kid (sv_db s') = Some k' \<and> terminal k'"
proof (cases "terminal k")
  case True
  have "s' = s"
    using assms(3) unfolding revoke_hysteria2_key_system_def
    by (elim through_gates [where Q = "\<lambda>r t. t = s"]) (use assms(2) True in \<open>auto simp: on_db_Inr get_key_run terminal_def op_return_run\<close>)
  with assms(2) True show ?thesis by blast
next
  case False
  define over where "over = (\<lambda>(r :: service_error + vpn_key) (t :: 'h service_state). \<not> isl r \<longrightarrow> (\<exists>k'. key_get_by_id kid (sv_db t) = Some k' \<and> terminal k'))"
  have "over (Inr k') s'"
    using assms(3) unfolding revoke_hysteria2_key_system_def
    by (elim through_gates [where Q = over])
      (use assms(2) False revoke_row_over [OF assms(1,2) False] in
        \<open>auto simp: over_def on_db_Inr get_key_run terminal_def bind_guard op_bind_def [of "op_guard b x" for b x] op_guard_def split: if_splits\<close>)
  then show ?thesis by (simp add: over_def)
qed


text \<open>A drawn secret is not empty.\<close>

interpretation hysteria2_trial: trial_provisioner "hysteria2_trials e sv (hi\<lparr>hi_secret := c # secret\<rparr>)" for e sv hi c secret
proof unfold_locales
  let ?tv = "hysteria2_trials e sv (hi\<lparr>hi_secret := c # secret\<rparr>)"
  show "trial_tables (snd (tv_create ?tv t actor p x s)) = trial_tables s" for t actor p x s
    by (rule hysteria2_trials_quiet(1) [unfolded steps_in_def quiet_def, rule_format, THEN conjunct1])
  show "trial_tables (snd (tv_revoke ?tv t kid actor s)) = trial_tables s" for t kid actor s
    by (rule hysteria2_trials_quiet(2) [unfolded steps_in_def quiet_def, rule_format, THEN conjunct1])
  show "keys_ok (sv_db s') \<and> key_get_by_id (vk_id k) (sv_db s) = None \<and> key_get_by_id (vk_id k) (sv_db s') = Some k \<and> vk_status k = KeyActive"
    if "keys_ok (sv_db s)" "tv_create ?tv t actor p x s = (Inr k, s')" for s t actor p x k s'
    using that hysteria2_create_active [OF that(1)]
    by (auto simp: hysteria2_trials_def op_bind_Inr op_return_run op_raise_run split: if_splits)
  show "\<exists>k'. key_get_by_id kid (sv_db s') = Some k' \<and> terminal k'"
    if "keys_ok (sv_db s)" "key_get_by_id kid (sv_db s) = Some k" "tv_revoke ?tv t kid actor s = (Inr u, s')" for s kid k t actor u s'
    using that hysteria2_revoke_over [OF that(1,2)]
    by (auto simp: hysteria2_trials_def op_bind_Inr op_return_run op_raise_run split: if_splits)
qed

section \<open>An example\<close>

text \<open>A key is issued and deleted again; its token is let in in between.\<close>

definition demo_hysteria :: "unit hysteria_service" where
  "demo_hysteria = \<lparr>hs_library = plain_library, hs_links = demo_links, hs_enabled = True, hs_relays = [], hs_kick = None\<rparr>"

definition demo_issue :: issue_inputs where
  "demo_issue = \<lparr>hi_module_on = True, hi_suffix = (\<lambda>_. ''AbCdE''), hi_secret = ''s3cret'', hi_activates = True, hi_marks_failed = True\<rparr>"

definition demo_members :: "unit service_state" where
  "demo_members = \<lparr>sv_db = empty_world\<lparr>db_users := [demo_user 1 SUPERADMIN]\<rparr>, sv_host = (), sv_degraded = None, sv_uninstalled = False\<rparr>"

definition demo_owner :: telegram_user_profile where
  "demo_owner = \<lparr>pr_telegram_user_id = 1, pr_username = None, pr_first_name = None\<rparr>"

definition demo_calls :: "(env \<times> hysteria2_call) list" where
  "demo_calls = [(service_env, IssueKey demo_issue 1 demo_owner None None False None)]"

definition demo_after :: "unit service_state" where
  "demo_after = snd (hysteria2_history demo_hysteria demo_calls demo_members)"

definition demo_live_disk :: disk where
  "demo_live_disk = \<lparr>dk_path = Some 5, dk_opens = (\<lambda>i. i = 5), dk_rows = (\<lambda>i. Some (sv_db demo_after))\<rparr>"

lemma demo_issued: "fst (hysteria2_history demo_hysteria demo_calls demo_members) = [Inr (key_get_by_id 1 (sv_db demo_after))]"
  "map_option vk_email_label (key_get_by_id 1 (sv_db demo_after)) = Some (Some ''hy2_AbCdE'')"
  by code_simp+

lemma hysteria2_refines_register_witness:
  "\<exists>k. fst (hysteria2_history demo_hysteria demo_calls demo_members) = [Inr (Some k)]
    \<and> grants (sv_db demo_after) = {(vk_id k, ''hy2_AbCdE'', ''s3cret'')} \<and> fst (auth_handler demo_body demo_live_disk demo_store) \<noteq> AuthNo"
proof -
  obtain k where k: "key_get_by_id 1 (sv_db demo_after) = Some k" "vk_email_label k = Some ''hy2_AbCdE''"
    using demo_issued(2) by auto
  have run: "hysteria2_history demo_hysteria demo_calls demo_members = ([Inr (Some k)], demo_after)"
    using demo_issued(1) k(1) by (simp add: demo_after_def prod_eq_iff)
  have ready: "keys_ok (sv_db demo_members)" "list_all (\<lambda>(_, c). call_ok c) demo_calls" "grants (sv_db demo_members) = {}"
    "dk_path demo_live_disk = Some 5" "store_ok demo_store" "ks_conn demo_store \<noteq> None" "dk_opens demo_live_disk 5 \<or> ks_file_id demo_store = Some 5"
    "dk_rows demo_live_disk 5 = Some (sv_db demo_after)"
    by (simp_all add: demo_members_def empty_world_def keys_ok_def keys_unique_def unique_column_def map_filter_simps demo_calls_def
        demo_issue_def grants_def demo_live_disk_def demo_store_def store_ok_def)
  have register: "register_history demo_calls [Inr (Some k)] {} = {(vk_id k, ''hy2_AbCdE'', ''s3cret'')}"
    using k(2) by (simp add: register_history_def demo_calls_def demo_issue_def)
  have "auth_token demo_body = Some ''s3cret''" by (simp add: auth_token_def demo_body_def json_get_def)
  with hysteria2_refines_register [OF ready(1,2) run ready(4-8), of demo_body] run register ready(3) show ?thesis by auto
qed

end
