(* ===== verification/Spec2Isabelle.thy ===== *)
theory Spec2Isabelle
  imports Prelude Rate_Limiter Validators Split_Merge Split_Analysis Warp_Health Relay_Health
    Users Access_Requests Vpn_Keys Ip_Allocator Awg_Peers Awg_Reconcile Blocking_Properties Traffic_Bounds
    Trial_Decisions Relay_Admin Key_Expiry Subscription Hysteria_Service
begin

text \<open>
  A verification library for vpnbot, a Telegram bot that hands out VPN keys and proxies. The bot is a
  set of services over one SQLite database; each backend (AmneziaWG, SOCKS5 and others) has a service
  that keeps the database and the host in step, and monitors watch the WARP tunnel and the relays.
  Every definition is translated from the Python source under \<open>src/\<close>; every property is a theorem
  next to the definitions it is about.

  How the code is modelled. A service method is a function from the state to the exception it raises
  or its value, with the state it leaves (\<open>op\<close> of \<open>Prelude\<close>, \<open>act\<close> over the database of \<open>World\<close>,
  \<open>service_op\<close> over database, host and health record of \<open>Service_State\<close>); \<open>op_try\<close> and
  \<open>op_transaction\<close> are \<open>try\<close> and \<open>db.transaction()\<close>. A table is the list of its rows; the unique
  indexes are checks that raise \<open>IntegrityError\<close>. A \<open>str\<close> is a \<open>string\<close> (code points below 256), a time
  stamp the text that the code stores and compares. What the source only calls is an argument: the
  runner of a command (\<open>awg_tool\<close>, \<open>dante_tool\<close>), random draws (\<open>create_inputs\<close>, \<open>socks_inputs\<close>), \<open>str\<close>
  of a JSON value that is no text or integer, IPv6, SHA-256. Two writes of the issue paths may fail
  on their own (\<open>if_commits\<close>), elsewhere the database works. Locks only serialise, so an operation is
  one step; runs of operations are lists of commands or inductive step relations.

  The theories, with the files of \<open>src/\<close> they model.
  \<^item> Shared: \<open>Prelude\<close> (dictionaries, queries over rows, \<open>op\<close>), \<open>Op_Steps\<close> (how operations run, gates),
    \<open>Py_Strings\<close>, \<open>Py_Lines\<close>, \<open>Py_Replace\<close>, \<open>Json\<close> (Python texts and values), \<open>Ipv4\<close>, \<open>Ipv4_Text\<close>,
    \<open>Ipv4_Collapse\<close> (the \<open>ipaddress\<close> module for IPv4), \<open>Model_Types\<close> (\<open>models/enums.py\<close>, \<open>models/dto.py\<close>),
    \<open>World\<close> (tables, exceptions, \<open>services/audit.py\<close>).
  \<^item> WARP: \<open>Split_Merge\<close> (\<open>warp/split_merge.py\<close>: the routed list is the canonical cover of the wanted
    addresses, none of them excluded), \<open>Split_Analysis\<close> (\<open>warp/split_analysis.py\<close>: what passes
    unattended), \<open>Health_Latch\<close> and \<open>Warp_Health\<close> (\<open>warp/health.py\<close>: the latch flips exactly after a
    sustained run, the kill-switch keeps the routes), \<open>Relay_Health\<close> (\<open>services/relay_health.py\<close>).
  \<^item> Small parts: \<open>Rate_Limiter\<close> (\<open>bot/rate_limit.py\<close>), \<open>Validators\<close> (\<open>config/validators.py\<close>).
  \<^item> Users: \<open>Users_Repo\<close> (\<open>repositories/users.py\<close>), \<open>Users\<close> and \<open>Blocking\<close> (\<open>services/users.py\<close>),
    \<open>Access_Requests\<close> (\<open>repositories/access_requests.py\<close>, \<open>services/access_approval.py\<close>).
    \<open>Blocking_Outcome\<close> and \<open>Blocking_Properties\<close> show that a block always blocks, ends, and names what
    it could not revoke; its revokers are met through the contracts \<open>key_revokers\<close> and \<open>proxy_revokers\<close>,
    interpreted on the AmneziaWG and SOCKS5 services.
  \<^item> Keys: \<open>Vpn_Keys_Repo\<close>, \<open>Vpn_Keys\<close> and \<open>Key_Rows\<close> (\<open>repositories/vpn_keys.py\<close>,
    \<open>repositories/traffic_scope.py\<close>): numbers, reserved addresses, statuses, archived traffic.
  \<^item> AmneziaWG: \<open>Ip_Allocator\<close> (\<open>adapters/ip_allocator.py\<close>), \<open>Awg_Config\<close> and \<open>Awg_Peers\<close>
    (\<open>adapters/awg_config.py\<close>: the text of the configuration, a change of it with roll-back),
    \<open>Service_State\<close>, \<open>Awg_Client\<close>, \<open>Awg_Service\<close>, \<open>Awg_Lifecycle\<close>, \<open>Awg_Creation\<close>, \<open>Awg_Reconcile\<close>
    (\<open>services/awg.py\<close>, \<open>services/backend_health.py\<close>, \<open>services/notes.py\<close>). The service is proved
    against the contract \<open>awg_host\<close> of its adapter, interpreted on the model of the adapter.
  \<^item> SOCKS5: \<open>Proxy_Repo\<close> and \<open>Proxy_Rows\<close> (\<open>repositories/proxy_accesses.py\<close>), \<open>Dante_Users\<close>
    (\<open>adapters/dante_users.py\<close>), \<open>Socks5\<close> (\<open>services/socks5.py\<close>). \<open>Socks5_Access\<close> and \<open>Socks5_Outcomes\<close>
    prove every outcome against the contract \<open>dante_host\<close> of the host's commands, interpreted on the
    host of \<open>Linux_Users\<close>, and that the service refines a register of granted logins.
  \<^item> Traffic: \<open>Traffic_Stats\<close>, \<open>Traffic_Totals\<close>, \<open>Traffic_Bounds\<close> (\<open>services/traffic_stats.py\<close>,
    \<open>repositories/traffic_stats.py\<close>): the refresh of the counters; history and totals agree, and a total
    is never more than what passed.
  \<^item> Trials and expiry: \<open>Py_Datetime\<close> (\<open>isoformat\<close> and its inverse), \<open>Trial_Access\<close> and
    \<open>Trial_Decisions\<close> (\<open>services/trial_access.py\<close>, proved against the contract \<open>trial_provisioner\<close>, which the
    AmneziaWG service provides), \<open>Key_Expiry\<close> (\<open>services/key_expiry.py\<close>: no reminder twice).
  \<^item> Relays: \<open>Relays\<close> (\<open>services/relay.py\<close>, \<open>services/key_naming.py\<close>), \<open>Relay_Admin\<close>
    (\<open>services/relay_management.py\<close>, \<open>repositories/relays.py\<close>; the deletion of a key is the contract
    \<open>relay_deleters\<close>): the name of a relay that keys carry never passes to another.
  \<^item> Links: \<open>Url_Text\<close> (percent-encoding, base64, UTF-8 with their readers), \<open>Client_Links\<close>
    (\<open>utils/spider_x.py\<close>, the link builders of \<open>services/xray.py\<close> and \<open>bot/formatters.py\<close>): a link takes apart
    into its values.
  \<^item> Hysteria2: \<open>Hysteria_Service\<close> (\<open>services/hysteria.py\<close>) refines a register of granted secrets, which is
    what the endpoint lets in; it is a provider of the contracts \<open>key_revokers\<close>, \<open>relay_deleters\<close> and
    \<open>trial_provisioner\<close>.
  \<^item> Endpoints: \<open>Hy2_Auth\<close> (\<open>hy2_auth/store.py\<close>, \<open>hy2_auth/server.py\<close>: who is let in, decided on the live
    database), \<open>Bundles_Repo\<close> (composition of \<open>services/key_bundles.py\<close>, \<open>repositories/key_bundles.py\<close>) and
    \<open>Subscription\<close> (\<open>subscription_server/\<close>: one request from the limiter to the answer; all links of an
    active bundle or an empty answer). What SQLite and the file system answer is the record \<open>disk\<close>.

  Groups of lemmas. \<open>..._run\<close> lemmas compute one operation on every branch; \<open>op_keeps\<close>, \<open>steps_in\<close> and
  \<open>no_new_rows\<close> carry invariants and relations through compositions; \<open>through_gates\<close> disposes of the
  checks at the start of an operation; the \<open>..._outcome\<close> theorems put a service together.

  Fuel. Loops over pages take fuel and give \<open>None\<close> when it runs out: \<open>startup_pages\<close>, \<open>socks_pages\<close>,
  \<open>revoke_rounds\<close>, \<open>collect_pages\<close> and \<open>refresh_awg_pages\<close>. One more than the number of rows is enough: proved
  in \<open>Awg_Reconcile\<close>, \<open>Socks5_Outcomes\<close>, \<open>Blocking_Properties\<close> (as a part of \<open>block_ready\<close>) and
  \<open>Traffic_Totals\<close>. Other loops are structural or have a termination proof.

  Not modelled: the Telegram handlers, keyboards and texts (\<open>bot/\<close>, \<open>i18n/\<close>), which are glue and
  presentation; SQL as such and migrations (\<open>db/\<close>); processes, files and locks (\<open>adapters/shell_runner.py\<close>
  and the like). The MTProto proxies, the Xray service with its configuration files, the
  bundle service over \<open>Bundles_Repo\<close>, anomaly detection, announcements, the WARP manager with its
  feeds and the protocol modules keep state of their own and are left for later; what the modelled
  parts need of them is an argument or a contract.
\<close>

end
